(* ===== verification/Prelude.thy ===== *)
theory Prelude
  imports Main "HOL-Library.Word" "HOL-Library.Product_Lexorder" "HOL-Library.Code_Target_Nat"
begin

text \<open>
  What every component of the development shares: the collections of simplification rules, the
  widths of the machine integers, decimal rendering (the model of \<open>std::to_string\<close>) and a few
  generic facts on lists.

  Conventions used throughout. A 64-bit identity, generation or counter is a \<open>64 word\<close> (its
  increment wraps, as \<open>++\<close> on \<open>std::uint64_t\<close> does). A \<open>std::int64_t\<close> is an \<open>int\<close>;
  \<open>is_i64\<close> says that the value is representable, and the checked helpers of \<open>quantity.hpp\<close>
  are modelled with the comparisons the source makes. A \<open>std::uint32_t\<close> is a \<open>nat\<close> and every
  unguarded addition or subtraction on it is written with its reduction modulo \<open>2 ^ 32\<close>.
  A \<open>std::size_t\<close> that only counts elements of a container is a \<open>nat\<close>. A C++ function that
  returns \<open>bool\<close> and fills an output argument returns an \<open>option\<close>.
\<close>

named_theorems status_simps \<open>rules about typed statuses\<close>
named_theorems range_simps \<open>rules about slot and frequency ranges\<close>
named_theorems frame_simps \<open>fields an operation does not touch\<close>

section \<open>Machine integers\<close>

type_synonym u64 = "64 word"
type_synonym u32 = "32 word"
type_synonym u8 = "8 word"

definition kU32Modulus :: nat where
  "kU32Modulus = 4294967296"

definition is_u32 :: "nat \<Rightarrow> bool" where
  "is_u32 n \<longleftrightarrow> n < kU32Modulus"

definition u32add :: "nat \<Rightarrow> nat \<Rightarrow> nat" where
  "u32add a b = (a + b) mod kU32Modulus"

definition u32sub :: "nat \<Rightarrow> nat \<Rightarrow> nat" where
  "u32sub a b = (a + (kU32Modulus - b mod kU32Modulus)) mod kU32Modulus"

lemma u32add_exact: "is_u32 (a + b) \<Longrightarrow> u32add a b = a + b"
  by (simp add: u32add_def is_u32_def)

lemma u32sub_exact: "b \<le> a \<Longrightarrow> is_u32 a \<Longrightarrow> u32sub a b = a - b"
proof -
  assume le: "b \<le> a" and a: "is_u32 a"
  then have "a + (kU32Modulus - b mod kU32Modulus) = (a - b) + kU32Modulus"
    by (simp add: is_u32_def)
  then have "u32sub a b = (a - b) mod kU32Modulus"
    by (simp add: u32sub_def)
  also have "\<dots> = a - b"
    using a by (simp add: is_u32_def)
  finally show ?thesis .
qed

section \<open>Decimal rendering\<close>

text \<open>\<open>std::to_string\<close> on unsigned and signed integers.\<close>

fun nat_to_string :: "nat \<Rightarrow> string" where
  "nat_to_string n =
     (if n < 10 then [char_of (48 + n)]
      else nat_to_string (n div 10) @ [char_of (48 + n mod 10)])"

declare nat_to_string.simps [simp del]

definition int_to_string :: "int \<Rightarrow> string" where
  "int_to_string i = (if i < 0 then CHR ''-'' # nat_to_string (nat (- i)) else nat_to_string (nat i))"

definition u64_to_string :: "u64 \<Rightarrow> string" where
  "u64_to_string w = nat_to_string (unat w)"

lemma nat_to_string_nonempty [simp]: "nat_to_string n \<noteq> []"
  by (subst nat_to_string.simps) simp

text \<open>The decimal digits determine the number, so two rendered counters never collide.\<close>

fun digits_value :: "nat \<Rightarrow> string \<Rightarrow> nat" where
  "digits_value acc [] = acc"
| "digits_value acc (c # cs) = digits_value (acc * 10 + (of_char c - 48)) cs"

lemma digits_value_append: "digits_value acc (xs @ ys) = digits_value (digits_value acc xs) ys"
  by (induction xs arbitrary: acc) auto

lemma of_char_digit: "d < 10 \<Longrightarrow> (of_char (char_of (48 + d) :: char) :: nat) = 48 + d"
  by (simp add: of_char_of)

lemma digits_value_nat_to_string: "digits_value 0 (nat_to_string n) = n"
proof (induction n rule: nat_to_string.induct)
  case (1 n)
  show ?case
  proof (cases "n < 10")
    case True
    then show ?thesis
      by (subst nat_to_string.simps) (simp add: of_char_digit)
  next
    case False
    have "digits_value 0 (nat_to_string n) = digits_value 0 (nat_to_string (n div 10)) * 10 + n mod 10"
      using False by (subst nat_to_string.simps) (simp add: digits_value_append of_char_digit)
    also have "\<dots> = n"
      using "1.IH" False by simp
    finally show ?thesis .
  qed
qed

lemma nat_to_string_inject: "nat_to_string m = nat_to_string n \<Longrightarrow> m = n"
  using digits_value_nat_to_string by metis

section \<open>Lists\<close>

text \<open>\<open>std::find\<close>-guarded insertion followed by \<open>std::sort\<close>: how the runtime keeps the
  identity vectors of its indices.\<close>

definition insert_sorted :: "'a::linorder \<Rightarrow> 'a list \<Rightarrow> 'a list" where
  "insert_sorted x xs = (if x \<in> set xs then xs else sort (xs @ [x]))"

lemma set_insert_sorted [simp]: "set (insert_sorted x xs) = insert x (set xs)"
  by (auto simp: insert_sorted_def)

lemma sorted_insert_sorted: "sorted xs \<Longrightarrow> sorted (insert_sorted x xs)"
  by (simp add: insert_sorted_def)

lemma distinct_insert_sorted: "distinct xs \<Longrightarrow> distinct (insert_sorted x xs)"
  by (simp add: insert_sorted_def)

lemma sorted_distinct_set_eq:
  "sorted xs \<Longrightarrow> distinct xs \<Longrightarrow> sorted ys \<Longrightarrow> distinct ys \<Longrightarrow> set xs = set ys \<Longrightarrow> xs = (ys :: 'a::linorder list)"
  by (rule sorted_distinct_set_unique)

end
