(* ===== verification/Identity.thy ===== *)
theory Identity
  imports Prelude
begin

text \<open>
  \<open>identity.hpp\<close> and \<open>error.hpp\<close>: strongly typed identities, the controller fence, and the
  typed status every fallible operation returns. \<open>StrongValue<Tag>\<close> is a datatype with a
  phantom tag, so that an identity of one kind cannot stand for one of another, exactly as the
  template forbids it.
\<close>

section \<open>Strong values\<close>

datatype 'tag StrongValue = StrongValue (raw: u64)

instantiation StrongValue :: (type) linorder
begin

definition less_eq_StrongValue :: "'tag StrongValue \<Rightarrow> 'tag StrongValue \<Rightarrow> bool" where
  "less_eq_StrongValue a b \<longleftrightarrow> raw a \<le> raw b"

definition less_StrongValue :: "'tag StrongValue \<Rightarrow> 'tag StrongValue \<Rightarrow> bool" where
  "less_StrongValue a b \<longleftrightarrow> raw a < raw b"

instance
  by standard (auto simp: less_eq_StrongValue_def less_StrongValue_def StrongValue.expand)

end

definition sv_valid :: "'tag StrongValue \<Rightarrow> bool" where
  "sv_valid v \<longleftrightarrow> raw v \<noteq> 0"

definition sv_none :: "'tag StrongValue" where
  "sv_none = StrongValue 0"

declare sv_none_def [code_unfold]

definition bump :: "'tag StrongValue \<Rightarrow> 'tag StrongValue" where
  "bump v = StrongValue (raw v + 1)"

text \<open>Identity, generation, epoch and incarnation tags.\<close>

datatype SpectrumDomainIdTag = SpectrumDomainIdTag
datatype SpanIdTag = SpanIdTag
datatype PortIdTag = PortIdTag
datatype ChannelGridIdTag = ChannelGridIdTag
datatype ExclusionDomainIdTag = ExclusionDomainIdTag
datatype ReservationIdTag = ReservationIdTag
datatype AllocationRequestIdTag = AllocationRequestIdTag
datatype OwnerIdTag = OwnerIdTag
datatype ControllerIdTag = ControllerIdTag
datatype SpectrumDomainGenerationTag = SpectrumDomainGenerationTag
datatype SpanGenerationTag = SpanGenerationTag
datatype PortGenerationTag = PortGenerationTag
datatype GridGenerationTag = GridGenerationTag
datatype ExclusionDomainGenerationTag = ExclusionDomainGenerationTag
datatype ReservationGenerationTag = ReservationGenerationTag
datatype AllocationRequestGenerationTag = AllocationRequestGenerationTag
datatype OwnerGenerationTag = OwnerGenerationTag
datatype CapabilityGenerationTag = CapabilityGenerationTag
datatype PolicyGenerationTag = PolicyGenerationTag
datatype PriorityGenerationTag = PriorityGenerationTag
datatype LeaseGenerationTag = LeaseGenerationTag
datatype OperationGenerationTag = OperationGenerationTag
datatype RecoveryGenerationTag = RecoveryGenerationTag
datatype RuntimeGenerationTag = RuntimeGenerationTag
datatype EligibilityAuthorityGenerationTag = EligibilityAuthorityGenerationTag
datatype ReservationAuthorityGenerationTag = ReservationAuthorityGenerationTag
datatype ActivationAuthorityGenerationTag = ActivationAuthorityGenerationTag
datatype ReleaseAuthorityGenerationTag = ReleaseAuthorityGenerationTag
datatype ControllerEpochTag = ControllerEpochTag
datatype ControllerIncarnationTag = ControllerIncarnationTag
datatype AuditSequenceTag = AuditSequenceTag

type_synonym SpectrumDomainId = "SpectrumDomainIdTag StrongValue"
type_synonym SpanId = "SpanIdTag StrongValue"
type_synonym PortId = "PortIdTag StrongValue"
type_synonym ChannelGridId = "ChannelGridIdTag StrongValue"
type_synonym ExclusionDomainId = "ExclusionDomainIdTag StrongValue"
type_synonym ReservationId = "ReservationIdTag StrongValue"
type_synonym AllocationRequestId = "AllocationRequestIdTag StrongValue"
type_synonym OwnerId = "OwnerIdTag StrongValue"
type_synonym ControllerId = "ControllerIdTag StrongValue"
type_synonym SpectrumDomainGeneration = "SpectrumDomainGenerationTag StrongValue"
type_synonym SpanGeneration = "SpanGenerationTag StrongValue"
type_synonym PortGeneration = "PortGenerationTag StrongValue"
type_synonym GridGeneration = "GridGenerationTag StrongValue"
type_synonym ExclusionDomainGeneration = "ExclusionDomainGenerationTag StrongValue"
type_synonym ReservationGeneration = "ReservationGenerationTag StrongValue"
type_synonym AllocationRequestGeneration = "AllocationRequestGenerationTag StrongValue"
type_synonym OwnerGeneration = "OwnerGenerationTag StrongValue"
type_synonym CapabilityGeneration = "CapabilityGenerationTag StrongValue"
type_synonym PolicyGeneration = "PolicyGenerationTag StrongValue"
type_synonym PriorityGeneration = "PriorityGenerationTag StrongValue"
type_synonym LeaseGeneration = "LeaseGenerationTag StrongValue"
type_synonym OperationGeneration = "OperationGenerationTag StrongValue"
type_synonym RecoveryGeneration = "RecoveryGenerationTag StrongValue"
type_synonym RuntimeGeneration = "RuntimeGenerationTag StrongValue"
type_synonym EligibilityAuthorityGeneration = "EligibilityAuthorityGenerationTag StrongValue"
type_synonym ReservationAuthorityGeneration = "ReservationAuthorityGenerationTag StrongValue"
type_synonym ActivationAuthorityGeneration = "ActivationAuthorityGenerationTag StrongValue"
type_synonym ReleaseAuthorityGeneration = "ReleaseAuthorityGenerationTag StrongValue"
type_synonym ControllerEpoch = "ControllerEpochTag StrongValue"
type_synonym ControllerIncarnation = "ControllerIncarnationTag StrongValue"
type_synonym AuditSequence = "AuditSequenceTag StrongValue"

definition kMaxFenceValue :: u64 where
  "kMaxFenceValue = 0xFFFFFFFFFFFFFFFE"

record ControllerFence =
  epoch :: ControllerEpoch
  incarnation :: ControllerIncarnation

definition fence_valid :: "ControllerFence \<Rightarrow> bool" where
  "fence_valid f \<longleftrightarrow> sv_valid (epoch f) \<and> sv_valid (incarnation f)"

definition fence_matches :: "ControllerFence \<Rightarrow> ControllerFence \<Rightarrow> bool" where
  "fence_matches f g \<longleftrightarrow> epoch f = epoch g \<and> incarnation f = incarnation g"

definition default_fence :: ControllerFence where
  "default_fence = \<lparr>epoch = sv_none, incarnation = sv_none\<rparr>"

definition raw_to_string :: "'tag StrongValue \<Rightarrow> string" where
  "raw_to_string v = u64_to_string (raw v)"

definition typedToken :: "string \<Rightarrow> 'tag StrongValue \<Rightarrow> string" where
  "typedToken prefix v = prefix @ '':'' @ raw_to_string v"

lemma less_StrongValue_simp [simp]: "StrongValue a < StrongValue b \<longleftrightarrow> a < b"
  by (simp add: less_StrongValue_def)

lemma less_eq_StrongValue_simp [simp]: "StrongValue a \<le> StrongValue b \<longleftrightarrow> a \<le> b"
  by (simp add: less_eq_StrongValue_def)

lemma sv_valid_simps [simp]: "sv_valid (StrongValue w) \<longleftrightarrow> w \<noteq> 0" "\<not> sv_valid sv_none"
  by (simp_all add: sv_valid_def sv_none_def)

lemma raw_bump [simp]: "raw (bump v) = raw v + 1"
  by (simp add: bump_def)

lemma bump_neq [simp]: "bump v \<noteq> v" "v \<noteq> bump v"
  by (metis add_cancel_left_right raw_bump zero_neq_one)+

lemma bump_greater: "raw v < 0xFFFFFFFFFFFFFFFF \<Longrightarrow> v < bump v"
  by (simp add: less_StrongValue_def word_less_nat_alt unat_word_ariths)

lemma fence_matches_iff: "fence_matches f g \<longleftrightarrow> f = g"
  by (auto simp: fence_matches_def)

section \<open>Typed status\<close>

datatype StatusCode =
    Ok | InvalidArgument | NotFound | Duplicate | LimitExceeded | Unsupported | Unknown
  | StaleGeneration | StaleIncarnation | StaleEpoch | StaleAuthority | IllegalTransition
  | Conflict | Excluded | PersistenceFailure | Corruption | IoError | NotPermitted | Overflow
  | Refused | Unavailable

record Status =
  code :: StatusCode
  message :: string

definition status_ok :: "Status \<Rightarrow> bool" where
  "status_ok s \<longleftrightarrow> code s = Ok"

definition okStatus :: Status where
  "okStatus = \<lparr>code = Ok, message = []\<rparr>"

definition fail :: "StatusCode \<Rightarrow> string \<Rightarrow> Status" where
  "fail c m = \<lparr>code = c, message = m\<rparr>"

fun isStale :: "StatusCode \<Rightarrow> bool" where
  "isStale StaleGeneration = True"
| "isStale StaleIncarnation = True"
| "isStale StaleEpoch = True"
| "isStale StaleAuthority = True"
| "isStale _ = False"

lemma code_fail [simp, status_simps]: "code (fail c m) = c"
  by (simp add: fail_def)

lemma message_fail [simp, status_simps]: "message (fail c m) = m"
  by (simp add: fail_def)

lemma code_okStatus [simp, status_simps]: "code okStatus = Ok"
  by (simp add: okStatus_def)

lemma status_ok_okStatus [simp, status_simps]: "status_ok okStatus"
  by (simp add: status_ok_def)

lemma status_ok_fail [simp, status_simps]: "status_ok (fail c m) \<longleftrightarrow> c = Ok"
  by (simp add: status_ok_def)

lemma fail_neq_okStatus [simp, status_simps]:
  "c \<noteq> Ok \<Longrightarrow> fail c m \<noteq> okStatus" "c \<noteq> Ok \<Longrightarrow> okStatus \<noteq> fail c m"
  by (auto simp: fail_def okStatus_def)

end
