(* ===== verification/Quantity.thy ===== *)
theory Quantity
  imports Prelude "HOL-Library.Signed_Division"
begin

unbundle bit_operations_syntax

text \<open>
  \<open>quantity.hpp\<close>, \<open>time.hpp\<close> and the integer divisions of \<open>grid.hpp\<close>: checked and saturating
  64-bit arithmetic, the numeric bounds of the spectrum model, half-open slot and frequency
  ranges, durations and instants. The lemmas show that the checked helpers succeed exactly when
  the mathematical result is representable and then return it, and relate the range predicates
  to sets of slots and frequencies.
\<close>

section \<open>Checked arithmetic\<close>

definition kI64Max :: int where "kI64Max = 0x7FFFFFFFFFFFFFFF"

definition kI64Min :: int where "kI64Min = - 0x7FFFFFFFFFFFFFFF - 1"

definition is_i64 :: "int \<Rightarrow> bool" where
  "is_i64 x \<longleftrightarrow> kI64Min \<le> x \<and> x \<le> kI64Max"

definition addOverflow :: "int \<Rightarrow> int \<Rightarrow> int option" where
  "addOverflow a b =
     (if b > 0 \<and> a > kI64Max - b then None
      else if b < 0 \<and> a < kI64Min - b then None
      else Some (a + b))"

definition subOverflow :: "int \<Rightarrow> int \<Rightarrow> int option" where
  "subOverflow a b =
     (if b > 0 \<and> a < kI64Min + b then None
      else if b < 0 \<and> a > kI64Max + b then None
      else Some (a - b))"

text \<open>The magnitudes and their product are \<open>uint64_t\<close> values, as in the source.\<close>

definition mulOverflow :: "int \<Rightarrow> int \<Rightarrow> int option" where
  "mulOverflow a b =
     (if a = 0 \<or> b = 0 then Some 0
      else let negative = ((a < 0) \<noteq> (b < 0));
               ua = (if a < 0 then 0 - word_of_int a else word_of_int a) :: u64;
               ub = (if b < 0 then 0 - word_of_int b else word_of_int b) :: u64;
               limit = (if negative then push_bit 63 1 else 0x7FFFFFFFFFFFFFFF) :: u64
           in if ua > limit div ub then None
              else let magnitude = ua * ub
                   in if \<not> negative then Some (sint magnitude)
                      else if magnitude = push_bit 63 1 then Some kI64Min
                      else Some (- sint magnitude))"

definition fitsU32 :: "int \<Rightarrow> nat option" where
  "fitsU32 v = (if v < 0 \<or> v > 0xFFFFFFFF then None else Some (nat v))"

definition fitsU16 :: "int \<Rightarrow> nat option" where
  "fitsU16 v = (if v < 0 \<or> v > 0xFFFF then None else Some (nat v))"

definition floorDiv :: "int \<Rightarrow> int \<Rightarrow> int" where
  "floorDiv a b =
     (let q = a sdiv b; r = a smod b
      in if r \<noteq> 0 \<and> ((r < 0) \<noteq> (b < 0)) then q - 1 else q)"

definition ceilDiv :: "int \<Rightarrow> int \<Rightarrow> int" where
  "ceilDiv a b =
     (let q = a sdiv b; r = a smod b
      in if r \<noteq> 0 \<and> ((r < 0) = (b < 0)) then q + 1 else q)"

lemmas i64_defs = is_i64_def kI64Max_def kI64Min_def

lemma addOverflow_eq:
  "is_i64 a \<Longrightarrow> is_i64 b \<Longrightarrow> addOverflow a b = (if is_i64 (a + b) then Some (a + b) else None)"
  by (auto simp: addOverflow_def i64_defs)

lemma subOverflow_eq:
  "is_i64 a \<Longrightarrow> is_i64 b \<Longrightarrow> subOverflow a b = (if is_i64 (a - b) then Some (a - b) else None)"
  by (auto simp: subOverflow_def i64_defs)

lemma addOverflow_Some: "addOverflow a b = Some c \<Longrightarrow> c = a + b"
  by (auto simp: addOverflow_def split: if_splits)

lemma subOverflow_Some: "subOverflow a b = Some c \<Longrightarrow> c = a - b"
  by (auto simp: subOverflow_def split: if_splits)

lemma addOverflow_small:
  "\<bar>a\<bar> \<le> 0x3FFFFFFFFFFFFFFF \<Longrightarrow> \<bar>b\<bar> \<le> 0x3FFFFFFFFFFFFFFF \<Longrightarrow> addOverflow a b = Some (a + b)"
  by (auto simp: addOverflow_def kI64Max_def kI64Min_def)

lemma subOverflow_small:
  "\<bar>a\<bar> \<le> 0x3FFFFFFFFFFFFFFF \<Longrightarrow> \<bar>b\<bar> \<le> 0x3FFFFFFFFFFFFFFF \<Longrightarrow> subOverflow a b = Some (a - b)"
  by (auto simp: subOverflow_def kI64Max_def kI64Min_def)

subsection \<open>Multiplication\<close>

lemma int_le_div_iff:
  fixes a b n :: int
  assumes "0 < b"
  shows "n \<le> a div b \<longleftrightarrow> n * b \<le> a"
proof
  assume "n \<le> a div b"
  then have "n * b \<le> (a div b) * b"
    using assms by (simp add: mult_right_mono)
  also have "\<dots> \<le> a"
    using pos_mod_sign [OF assms, of a] by (simp flip: minus_mod_eq_div_mult)
  finally show "n * b \<le> a" .
next
  assume "n * b \<le> a"
  then have "n * b div b \<le> a div b"
    using assms by (rule zdiv_mono1)
  then show "n \<le> a div b"
    using assms by simp
qed

lemma uint_magnitude:
  assumes "is_i64 a"
  shows "uint (if a < 0 then 0 - word_of_int a else word_of_int a :: u64) = \<bar>a\<bar>"
proof -
  have "uint (word_of_int \<bar>a\<bar> :: u64) = \<bar>a\<bar>"
    using assms by (auto simp: uint_word_of_int i64_defs abs_if intro!: mod_pos_pos_trivial)
  moreover have "(if a < 0 then 0 - word_of_int a else word_of_int a :: u64) = word_of_int \<bar>a\<bar>"
    by (simp flip: wi_hom_neg)
  ultimately show ?thesis by simp
qed

lemma sint_small_u64:
  fixes m :: u64
  assumes "uint m \<le> 0x7FFFFFFFFFFFFFFF"
  shows "sint m = uint m"
proof -
  have "sint m = signed_take_bit 63 (uint m)"
    by (simp add: sint_uint)
  also have "\<dots> = uint m"
    using assms by (intro signed_take_bit_int_eq_self) (auto intro: order_trans [OF _ uint_ge_0])
  finally show ?thesis .
qed

lemma magnitude_product:
  fixes ua ub limit :: u64
  assumes "uint ua * uint ub \<le> uint limit"
  shows "uint (ua * ub) = uint ua * uint ub"
proof -
  have "uint ua * uint ub < 2 ^ 64"
    using assms uint_lt2p [of limit] by simp
  then show ?thesis
    by (simp add: uint_word_ariths)
qed

lemma limit_div_less_iff:
  fixes ua ub limit :: u64
  assumes "ub \<noteq> 0"
  shows "limit div ub < ua \<longleftrightarrow> uint limit < uint ua * uint ub"
proof -
  have ub: "0 < uint ub"
    using assms by (metis uint_0_iff uint_ge_0 order_le_less)
  have "limit div ub < ua \<longleftrightarrow> uint limit div uint ub < uint ua"
    by (simp add: word_less_def uint_div)
  also have "\<dots> \<longleftrightarrow> uint limit < uint ua * uint ub"
    using int_le_div_iff [OF ub, of "uint ua" "uint limit"] by linarith
  finally show ?thesis .
qed

text \<open>The product of two representable values: the check \<open>ua > limit / ub\<close> is exact.\<close>

lemma mulOverflow_eq:
  assumes a: "is_i64 a" and b: "is_i64 b"
  shows "mulOverflow a b = (if is_i64 (a * b) then Some (a * b) else None)"
proof (cases "a = 0 \<or> b = 0")
  case True
  then show ?thesis by (auto simp: mulOverflow_def i64_defs)
next
  case False
  define ua :: u64 where "ua = (if a < 0 then 0 - word_of_int a else word_of_int a)"
  define ub :: u64 where "ub = (if b < 0 then 0 - word_of_int b else word_of_int b)"
  define limit :: u64 where
    "limit = (if (a < 0) \<noteq> (b < 0) then push_bit 63 1 else 0x7FFFFFFFFFFFFFFF)"
  have ua: "uint ua = \<bar>a\<bar>" and ub: "uint ub = \<bar>b\<bar>"
    using a b by (simp_all add: ua_def ub_def uint_magnitude del: diff_0 cong: if_cong)
  have limit: "uint limit = (if (a < 0) \<noteq> (b < 0) then 2 ^ 63 else 0x7FFFFFFFFFFFFFFF)"
    by (simp add: limit_def)
  have ub0: "ub \<noteq> 0"
    using ub False by auto
  have sign: "a * b = (if (a < 0) \<noteq> (b < 0) then - (\<bar>a\<bar> * \<bar>b\<bar>) else \<bar>a\<bar> * \<bar>b\<bar>)"
    by (auto simp: abs_if)
  have pos: "0 < \<bar>a\<bar> * \<bar>b\<bar>"
    using False by simp
  have unf: "mulOverflow a b =
      (if ua > limit div ub then None
       else if (a < 0) = (b < 0) then Some (sint (ua * ub))
       else if ua * ub = push_bit 63 1 then Some kI64Min
       else Some (- sint (ua * ub)))"
    using False by (simp add: mulOverflow_def Let_def ua_def ub_def limit_def)
  show ?thesis
  proof (cases "\<bar>a\<bar> * \<bar>b\<bar> \<le> uint limit")
    case False
    then have "ua > limit div ub"
      by (simp add: limit_div_less_iff [OF ub0] ua ub)
    then show ?thesis
      using False sign pos limit unf by (auto simp: i64_defs split: if_splits)
  next
    case True
    then have nlt: "\<not> ua > limit div ub"
      by (simp add: limit_div_less_iff [OF ub0] ua ub)
    have prod: "uint (ua * ub) = \<bar>a\<bar> * \<bar>b\<bar>"
      using True magnitude_product [of ua ub limit] by (simp add: ua ub)
    have eq63: "ua * ub = push_bit 63 1 \<longleftrightarrow> \<bar>a\<bar> * \<bar>b\<bar> = 2 ^ 63"
      by (simp add: word_uint_eq_iff prod)
    have repr: "is_i64 (a * b)"
      using True sign pos limit by (auto simp: i64_defs split: if_splits)
    have small: "sint (ua * ub) = \<bar>a\<bar> * \<bar>b\<bar>" if "\<bar>a\<bar> * \<bar>b\<bar> \<noteq> 2 ^ 63"
      using that True limit by (subst sint_small_u64) (auto simp: prod split: if_splits)
    show ?thesis
    proof (cases "(a < 0) = (b < 0)")
      case True
      then have "\<bar>a\<bar> * \<bar>b\<bar> \<noteq> 2 ^ 63"
        using \<open>\<bar>a\<bar> * \<bar>b\<bar> \<le> uint limit\<close> limit by auto
      then show ?thesis
        using True unf nlt repr small sign by simp
    next
      case False
      then show ?thesis
        using unf nlt repr small sign eq63 by (auto simp: kI64Min_def)
    qed
  qed
qed

text \<open>For evaluation the checked product is computed on integers whenever both operands fit.\<close>

definition mulOverflow_wide :: "int \<Rightarrow> int \<Rightarrow> int option" where
  [code del]: "mulOverflow_wide = mulOverflow"

lemma mulOverflow_code [code]:
  "mulOverflow a b =
     (if is_i64 a \<and> is_i64 b then (if is_i64 (a * b) then Some (a * b) else None)
      else mulOverflow_wide a b)"
  by (simp add: mulOverflow_eq mulOverflow_wide_def)

lemma mulOverflow_small:
  assumes "0 \<le> a" "a \<le> 0xFFFFFFFF" "0 \<le> b" "b \<le> 0x7FFFFFFF"
  shows "mulOverflow a b = Some (a * b)"
proof -
  have "a * b \<le> 0xFFFFFFFF * 0x7FFFFFFF"
    using assms by (intro mult_mono) auto
  moreover have "- 0x8000000000000000 \<le> a * b"
    using mult_nonneg_nonneg [of a b] assms by linarith
  ultimately show ?thesis
    using assms by (subst mulOverflow_eq) (auto simp: i64_defs)
qed

subsection \<open>Division\<close>

lemma floorDiv_div: "0 < b \<Longrightarrow> floorDiv a b = a div b"
proof -
  assume b: "0 < b"
  show ?thesis
  proof (cases "0 \<le> a")
    case True
    then show ?thesis
      using b by (simp add: floorDiv_def signed_divide_int_def signed_modulo_int_def Let_def
          not_less pos_mod_sign sgn_if)
  next
    case False
    define m where "m = - a"
    have m: "0 < m" "a = - m" using False by (auto simp: m_def)
    have sdiv: "a sdiv b = - (m div b)" and smod: "a smod b = - (m mod b)"
      using b m by (auto simp: signed_divide_int_def signed_modulo_int_def sgn_if minus_div_mult_eq_mod)
    have nz: "m mod b \<noteq> 0 \<longleftrightarrow> 0 < m mod b"
      using pos_mod_sign [OF b, of m] by linarith
    have "a div b = (if m mod b = 0 then - (m div b) else - (m div b) - 1)"
      using m(2) by (simp add: zdiv_zminus1_eq_if b less_imp_neq [symmetric])
    then show ?thesis
      using b nz by (auto simp: floorDiv_def Let_def sdiv smod)
  qed
qed

lemma ceilDiv_div: "0 < b \<Longrightarrow> ceilDiv a b = - ((- a) div b)"
proof -
  assume b: "0 < b"
  have "ceilDiv a b = - floorDiv (- a) b"
    using b by (auto simp: ceilDiv_def floorDiv_def Let_def signed_divide_int_def
        signed_modulo_int_def sgn_if)
  then show ?thesis
    using b by (simp add: floorDiv_div)
qed

lemma le_floorDiv: "0 < b \<Longrightarrow> n \<le> floorDiv a b \<longleftrightarrow> n * b \<le> a"
  by (simp add: floorDiv_div int_le_div_iff)

lemma floorDiv_less: "0 < b \<Longrightarrow> floorDiv a b < n \<longleftrightarrow> a < n * b"
  using le_floorDiv [of b n a] by linarith

lemma ceilDiv_le: "0 < b \<Longrightarrow> ceilDiv a b \<le> n \<longleftrightarrow> a \<le> n * b"
proof -
  assume b: "0 < b"
  have "ceilDiv a b \<le> n \<longleftrightarrow> - n \<le> floorDiv (- a) b"
    using b by (auto simp: ceilDiv_div floorDiv_div)
  also have "\<dots> \<longleftrightarrow> a \<le> n * b"
    using b by (simp add: le_floorDiv)
  finally show ?thesis .
qed

end
