(* ===== verification/Child_Process.thy ===== *)
theory Child_Process
  imports Identity Quantity
begin

text \<open>
  \<open>process.cpp\<close>: the bounded capture of a child's output, the command line a child is started with, the
  life of a child process, and the paths the harness uses. The descriptors, the pids and what the
  system calls answer are parameters; what the program does with them is recorded as a list of
  events, so that leaks and signals to a reaped process can be seen. The POSIX branch is modelled,
  and the quoting of arguments from the Windows branch.
\<close>

section \<open>Captured output\<close>

definition kMaxCaptureBytes :: nat where "kMaxCaptureBytes = 1048576"
definition kTruncationMarker :: string where
  "kTruncationMarker = [CHR 0x0A] @ ''[output truncated]'' @ [CHR 0x0A]"

record CaptureBuffer =
  buf_text :: string
  buf_truncated :: bool

definition empty_capture :: CaptureBuffer where
  "empty_capture = \<lparr>buf_text = [], buf_truncated = False\<rparr>"

definition appendCapture :: "string \<Rightarrow> CaptureBuffer \<Rightarrow> CaptureBuffer" where
  "appendCapture chunk b =
     (if length chunk = 0 then b
      else
        let room = (if length (buf_text b) < kMaxCaptureBytes then kMaxCaptureBytes - length (buf_text b) else 0)
        in if room = 0 then b\<lparr>buf_truncated := True\<rparr>
           else
             let b1 = b\<lparr>buf_text := buf_text b @ take (if length chunk < room then length chunk else room) chunk\<rparr>
             in if length chunk > room then b1\<lparr>buf_truncated := True\<rparr> else b1)"

definition finishCapture :: "CaptureBuffer \<Rightarrow> CaptureBuffer" where
  "finishCapture b = (if buf_truncated b then b\<lparr>buf_text := buf_text b @ kTruncationMarker\<rparr> else b)"

text \<open>
  The loop of a reader thread over the answers of \<open>read\<close>: end of file and every error but an
  interruption end it.
\<close>

datatype ReadAnswer = Chunk string | ReadInterrupted | ReadEnded

fun readPipe :: "ReadAnswer list \<Rightarrow> CaptureBuffer \<Rightarrow> CaptureBuffer" where
  "readPipe [] b = finishCapture b"
| "readPipe (Chunk bytes # answers) b =
     (if bytes = [] then finishCapture b else readPipe answers (appendCapture bytes b))"
| "readPipe (ReadInterrupted # answers) b = readPipe answers b"
| "readPipe (ReadEnded # answers) b = finishCapture b"

fun child_output :: "ReadAnswer list \<Rightarrow> string" where
  "child_output [] = []"
| "child_output (Chunk bytes # answers) = (if bytes = [] then [] else bytes @ child_output answers)"
| "child_output (ReadInterrupted # answers) = child_output answers"
| "child_output (ReadEnded # answers) = []"

text \<open>What a buffer holds after some output: its first mebibyte, and whether there was more.\<close>

definition captured :: "string \<Rightarrow> CaptureBuffer" where
  "captured out = \<lparr>buf_text = take kMaxCaptureBytes out, buf_truncated = (length out > kMaxCaptureBytes)\<rparr>"

lemma appendCapture_captured: "appendCapture chunk (captured out) = captured (out @ chunk)"
proof (cases "length out < kMaxCaptureBytes")
  case True
  then show ?thesis
    by (auto simp: appendCapture_def captured_def Let_def)
next
  case False
  then show ?thesis
    by (cases chunk) (simp_all add: appendCapture_def captured_def)
qed

lemma readPipe_captured: "readPipe answers (captured out) = finishCapture (captured (out @ child_output answers))"
  by (induction answers "captured out" arbitrary: out rule: readPipe.induct)
    (simp_all add: appendCapture_captured)

lemma capture_exact:
  "buf_text (readPipe answers empty_capture) =
     (if length (child_output answers) \<le> kMaxCaptureBytes then child_output answers
      else take kMaxCaptureBytes (child_output answers) @ kTruncationMarker)"
proof -
  have start: "empty_capture = captured []"
    by (simp add: empty_capture_def captured_def)
  show ?thesis
    unfolding start readPipe_captured by (simp add: finishCapture_def captured_def)
qed

section \<open>Command lines\<close>

definition kMaxCommandLineBytes :: int where "kMaxCommandLineBytes = 32767"

definition needs_quotes :: "string \<Rightarrow> bool" where
  "needs_quotes argument \<longleftrightarrow>
     argument = [] \<or> list_ex (\<lambda>c. c = CHR '' '' \<or> c = CHR 0x09 \<or> c = CHR 0x0A \<or> c = CHR 0x0B \<or> c = CHR 0x22) argument"

definition backslashes :: "nat \<Rightarrow> string" where
  "backslashes n = replicate n (CHR 0x5C)"

text \<open>The loop over the characters, with the number of backslashes seen and not yet written.\<close>

fun quote_loop :: "nat \<Rightarrow> string \<Rightarrow> string" where
  "quote_loop n [] = backslashes (n * 2)"
| "quote_loop n (c # cs) =
     (if c = CHR 0x5C then quote_loop (Suc n) cs
      else if c = CHR 0x22 then backslashes (n * 2 + 1) @ c # quote_loop 0 cs
      else backslashes n @ c # quote_loop 0 cs)"

definition quoteArgument :: "string \<Rightarrow> string" where
  "quoteArgument argument =
     (if \<not> needs_quotes argument then argument
      else CHR 0x22 # quote_loop 0 argument @ [CHR 0x22])"

definition appendArgument :: "string \<Rightarrow> string \<times> int \<Rightarrow> (string \<times> int) option" where
  "appendArgument argument line =
     (case line of (commandLine, len) \<Rightarrow>
        if int (length argument) > kMaxCommandLineBytes then None
        else
          let quoted = quoteArgument argument
          in (case addOverflow len (int (length quoted)) of
                None \<Rightarrow> None
              | Some grown \<Rightarrow>
                  (case (if len \<noteq> 0 then addOverflow grown 1 else Some grown) of
                     None \<Rightarrow> None
                   | Some next_len \<Rightarrow>
                       if next_len > kMaxCommandLineBytes then None
                       else Some (commandLine @ (if len \<noteq> 0 then '' '' else []) @ quoted, next_len))))"

fun append_arguments :: "string list \<Rightarrow> string \<times> int \<Rightarrow> (string \<times> int) option" where
  "append_arguments [] line = Some line"
| "append_arguments (argument # arguments) line =
     (case appendArgument argument line of None \<Rightarrow> None | Some line1 \<Rightarrow> append_arguments arguments line1)"

definition command_line :: "string \<Rightarrow> string list \<Rightarrow> string option" where
  "command_line executable arguments =
     (case append_arguments (executable # arguments) ([], 0) of None \<Rightarrow> None | Some (line, n) \<Rightarrow> Some line)"

text \<open>
  The rule by which the platform splits a command line, as it is documented: blanks outside quotes
  separate the arguments, a quote preceded by an even number of backslashes switches quoting and
  stands for half of them, one preceded by an odd number is a literal quote after half of them, and
  other backslashes stand for themselves. It is the specification \<open>quoteArgument\<close> is written for.
\<close>

definition is_blank :: "char \<Rightarrow> bool" where "is_blank c \<longleftrightarrow> c = CHR '' '' \<or> c = CHR 0x09"

fun read_argument :: "nat \<Rightarrow> bool \<Rightarrow> string \<Rightarrow> string \<times> string" where
  "read_argument n quoting [] = (backslashes n, [])"
| "read_argument n quoting (c # cs) =
     (if c = CHR 0x5C then read_argument (Suc n) quoting cs
      else if c = CHR 0x22
      then (if even n
            then apfst ((@) (backslashes (n div 2))) (read_argument 0 (\<not> quoting) cs)
            else apfst ((@) (backslashes (n div 2) @ [c])) (read_argument 0 quoting cs))
      else if \<not> quoting \<and> is_blank c then (backslashes n, c # cs)
      else apfst ((@) (backslashes n @ [c])) (read_argument 0 quoting cs))"

lemma read_argument_length: "length (snd (read_argument n quoting cs)) \<le> length cs"
  by (induction n quoting cs rule: read_argument.induct) (auto intro: le_SucI)

lemma read_argument_progress: "\<not> is_blank c \<Longrightarrow> length (snd (read_argument n quoting (c # cs))) < Suc (length cs)"
  using read_argument_length [of _ _ cs] by (auto simp: less_Suc_eq_le)

function read_line :: "string \<Rightarrow> string list" where
  "read_line cs =
     (case dropWhile is_blank cs of
        [] \<Rightarrow> []
      | d # ds \<Rightarrow> (case read_argument 0 False (d # ds) of (argument, rest) \<Rightarrow> argument # read_line rest))"
  by pat_completeness auto

termination
proof (relation "measure length")
  fix cs d ds argument rest
  assume d: "dropWhile is_blank cs = d # ds" and "(argument, rest) = read_argument 0 False (d # ds)"
  then have "rest = snd (read_argument 0 False (d # ds))"
    by (metis snd_conv)
  moreover have "\<not> is_blank d"
    using d by (metis hd_dropWhile list.sel(1) list.distinct(1))
  moreover have "length (d # ds) \<le> length cs"
    using length_dropWhile_le [of is_blank cs] d by simp
  ultimately show "(rest, cs) \<in> measure length"
    using read_argument_progress [of d 0 False ds] by simp
qed simp

declare read_line.simps [simp del]

lemma backslashes_Suc: "backslashes (Suc n) @ cs = backslashes n @ CHR 0x5C # cs"
  by (simp add: backslashes_def replicate_app_Cons_same)

lemma backslashes_0 [simp]: "backslashes 0 = []"
  by (simp add: backslashes_def)

lemma read_backslashes: "read_argument m quoting (backslashes k @ cs) = read_argument (m + k) quoting cs"
proof (induction k arbitrary: m)
  case (Suc k)
  then show ?case
    using Suc [of "Suc m"] by (simp add: backslashes_def)
qed simp

definition ends_argument :: "string \<Rightarrow> bool" where
  "ends_argument rest \<longleftrightarrow> rest = [] \<or> is_blank (hd rest)"

lemma read_nothing: "ends_argument rest \<Longrightarrow> read_argument n False rest = (backslashes n, rest)"
  by (cases rest) (auto simp: ends_argument_def is_blank_def)

lemma read_quoted:
  assumes "ends_argument rest"
  shows "read_argument 0 True (quote_loop n cs @ CHR 0x22 # rest) = (backslashes n @ cs, rest)"
proof (induction n cs rule: quote_loop.induct)
  case (1 n)
  then show ?case
    using assms by (simp add: read_backslashes read_nothing)
next
  case (2 n c cs)
  then show ?case
    by (simp add: read_backslashes backslashes_Suc [of n cs, simplified])
qed

lemma read_unquoted:
  assumes "ends_argument rest"
  shows "\<not> list_ex (\<lambda>c. is_blank c \<or> c = CHR 0x22) cs \<Longrightarrow> read_argument n False (cs @ rest) = (backslashes n @ cs, rest)"
proof (induction cs arbitrary: n)
  case (Cons c cs)
  then show ?case
    by (simp add: backslashes_Suc [of n cs, simplified])
qed (use assms in \<open>simp add: read_nothing\<close>)

lemma read_quoteArgument:
  assumes "ends_argument rest"
  shows "read_argument 0 False (quoteArgument argument @ rest) = (argument, rest)"
proof (cases "needs_quotes argument")
  case True
  then show ?thesis
    using read_quoted [OF assms, of 0 argument] by (simp add: quoteArgument_def)
next
  case False
  then have "\<not> list_ex (\<lambda>c. is_blank c \<or> c = CHR 0x22) argument"
    by (auto simp: needs_quotes_def is_blank_def list_ex_iff)
  then show ?thesis
    using False read_unquoted [OF assms, of argument 0] by (simp add: quoteArgument_def)
qed

lemma quoteArgument_start: "\<exists>c cs. quoteArgument argument = c # cs \<and> \<not> is_blank c"
proof (cases "needs_quotes argument")
  case False
  then show ?thesis
    by (cases argument) (auto simp: quoteArgument_def needs_quotes_def is_blank_def)
qed (simp add: quoteArgument_def is_blank_def)

definition spaced :: "string list \<Rightarrow> string" where
  "spaced arguments = concat (map (\<lambda>a. CHR '' '' # quoteArgument a) arguments)"

lemma spaced_ends: "ends_argument (spaced arguments)"
  by (cases arguments) (simp_all add: spaced_def ends_argument_def is_blank_def)

lemma read_line_quoted: "read_line (quoteArgument a @ rest) = (case read_argument 0 False (quoteArgument a @ rest) of
    (argument, rest1) \<Rightarrow> argument # read_line rest1)"
proof -
  obtain c cs where c: "quoteArgument a = c # cs" "\<not> is_blank c"
    using quoteArgument_start by blast
  show ?thesis
    by (subst read_line.simps) (simp add: c)
qed

lemma read_line_spaced: "read_line (spaced arguments) = arguments"
proof (induction arguments)
  case Nil
  show ?case
    by (subst read_line.simps) (simp add: spaced_def)
next
  case (Cons a arguments)
  have "spaced (a # arguments) = CHR '' '' # quoteArgument a @ spaced arguments"
    by (simp add: spaced_def)
  moreover have "read_line (CHR '' '' # cs) = read_line cs" for cs
    by (subst (1 2) read_line.simps) (simp add: is_blank_def)
  ultimately show ?case
    using Cons read_quoteArgument [OF spaced_ends, of a arguments] by (simp add: read_line_quoted)
qed

lemma appendArgument_next:
  assumes "appendArgument a (line, int (length line)) = Some (line1, n)"
  shows "line1 = line @ (if line = [] then [] else '' '') @ quoteArgument a" and "n = int (length line1)"
    and "n \<le> kMaxCommandLineBytes" and "line1 \<noteq> []"
proof -
  have quoted: "quoteArgument a \<noteq> []"
    using quoteArgument_start [of a] by auto
  then show "line1 = line @ (if line = [] then [] else '' '') @ quoteArgument a" "n = int (length line1)"
    "n \<le> kMaxCommandLineBytes" "line1 \<noteq> []"
    using assms by (auto simp: appendArgument_def Let_def split: option.splits if_splits dest!: addOverflow_Some)
qed

lemma append_arguments_line:
  assumes "append_arguments arguments (line, int (length line)) = Some (line1, n)" and "line \<noteq> []"
    and "int (length line) \<le> kMaxCommandLineBytes"
  shows "line1 = line @ spaced arguments \<and> int (length line1) \<le> kMaxCommandLineBytes"
  using assms
proof (induction arguments arbitrary: line)
  case (Cons a arguments)
  then obtain line2 m where step: "appendArgument a (line, int (length line)) = Some (line2, m)"
    "append_arguments arguments (line2, m) = Some (line1, n)"
    by (auto split: option.splits)
  note grown = appendArgument_next [OF step(1)]
  have "line1 = line2 @ spaced arguments \<and> int (length line1) \<le> kMaxCommandLineBytes"
    by (rule Cons.IH) (use step(2) grown in simp_all)
  moreover have "line2 @ spaced arguments = line @ spaced (a # arguments)"
    using grown(1) Cons.prems(2) by (simp add: spaced_def)
  ultimately show ?case
    by metis
qed (simp add: spaced_def)

lemma command_line_reads:
  assumes "command_line executable arguments = Some line"
  shows "read_line line = executable # arguments" and "int (length line) \<le> kMaxCommandLineBytes"
proof -
  obtain line1 m n where step: "appendArgument executable ([], 0) = Some (line1, m)"
    "append_arguments arguments (line1, m) = Some (line, n)"
    using assms by (auto simp: command_line_def split: option.splits)
  have first: "line1 = quoteArgument executable" "m = int (length line1)" "m \<le> kMaxCommandLineBytes" "line1 \<noteq> []"
    using appendArgument_next [of executable "[]" line1 m] step(1) by simp_all
  have rest: "append_arguments arguments (line1, int (length line1)) = Some (line, n)" "line1 \<noteq> []"
    "int (length line1) \<le> kMaxCommandLineBytes"
    using step(2) first by simp_all
  show "read_line line = executable # arguments"
    using append_arguments_line [OF rest] first(1) read_quoteArgument [OF spaced_ends, of executable arguments]
    by (simp add: read_line_quoted read_line_spaced)
  show "int (length line) \<le> kMaxCommandLineBytes"
    using append_arguments_line [OF rest] by metis
qed

section \<open>A child process\<close>

text \<open>What the operating system sees of the harness: descriptors and children coming and going.\<close>

datatype Event = Opened int | Closed int | Forked int | Signalled int | Reaped int

text \<open>A reader thread owns its descriptor and closes it when the pipe has ended.\<close>

record Reader =
  rdr_fd :: int
  rdr_reads :: "ReadAnswer list"

record ChildImpl =
  impl_stdoutRead :: int
  impl_stderrRead :: int
  impl_out :: CaptureBuffer
  impl_err :: CaptureBuffer
  impl_outReader :: "Reader option"
  impl_errReader :: "Reader option"

record ChildProcess =
  chp_impl :: "ChildImpl option"
  chp_pid :: u64
  chp_started :: bool
  chp_waited :: bool
  chp_exitCode :: int

definition new_child :: ChildProcess where
  "new_child = \<lparr>chp_impl = None, chp_pid = 0, chp_started = False, chp_waited = False, chp_exitCode = 0\<rparr>"

definition new_impl :: ChildImpl where
  "new_impl = \<lparr>impl_stdoutRead = -1, impl_stderrRead = -1, impl_out = empty_capture, impl_err = empty_capture,
     impl_outReader = None, impl_errReader = None\<rparr>"

definition processFailure :: "string \<Rightarrow> string \<Rightarrow> Status" where
  "processFailure what e = fail IoError (what @ '' failed: '' @ e)"

datatype WaitStatus = Exited int | Terminated int | OtherStatus
datatype WaitAnswer = WaitReaped WaitStatus | WaitInterrupted | WaitError string
datatype KillAnswer = KillSent | KillNoProcess | KillError string
datatype ProbeAnswer = ProbeAlive | ProbeForbidden | ProbeGone

text \<open>\<open>waitpid\<close> is repeated when it is interrupted; with no answer left it has not returned.\<close>

fun wait_loop :: "WaitAnswer list \<Rightarrow> (string + WaitStatus) option" where
  "wait_loop [] = None"
| "wait_loop (WaitInterrupted # answers) = wait_loop answers"
| "wait_loop (WaitReaped st # answers) = Some (Inr st)"
| "wait_loop (WaitError e # answers) = Some (Inl e)"

definition exit_code :: "WaitStatus \<Rightarrow> int" where
  "exit_code st = (case st of Exited c \<Rightarrow> c | Terminated sig \<Rightarrow> 128 + sig | OtherStatus \<Rightarrow> 0)"

definition join_reader :: "Reader option \<Rightarrow> CaptureBuffer \<Rightarrow> CaptureBuffer \<times> Event list" where
  "join_reader r b = (case r of None \<Rightarrow> (b, []) | Some rd \<Rightarrow> (readPipe (rdr_reads rd) b, [Closed (rdr_fd rd)]))"

definition joinReaders :: "ChildImpl \<Rightarrow> ChildImpl \<times> Event list" where
  "joinReaders i =
     (case join_reader (impl_outReader i) (impl_out i) of (out, es1) \<Rightarrow>
      case join_reader (impl_errReader i) (impl_err i) of (err, es2) \<Rightarrow>
        (i\<lparr>impl_out := out, impl_outReader := None, impl_err := err, impl_errReader := None\<rparr>, es1 @ es2))"

definition close_left :: "ChildImpl \<Rightarrow> Event list" where
  "close_left i = (if impl_stdoutRead i \<ge> 0 then [Closed (impl_stdoutRead i)] else [])
     @ (if impl_stderrRead i \<ge> 0 then [Closed (impl_stderrRead i)] else [])"

record StartOs =
  sos_allocated :: bool
  sos_pipeOut :: "string + int \<times> int"
  sos_pipeErr :: "string + int \<times> int"
  sos_fork :: "string + int"
  sos_outThread :: bool
  sos_errThread :: bool
  sos_outReads :: "ReadAnswer list"
  sos_errReads :: "ReadAnswer list"
  sos_reap :: "WaitAnswer list"

definition msg_child_started :: string where
  "msg_child_started = ''child process has already been started''"
definition msg_no_executable :: string where "msg_no_executable = ''executable path must not be empty''"
definition msg_no_memory :: string where "msg_no_memory = ''cannot allocate child process state''"
definition msg_no_readers :: string where "msg_no_readers = ''cannot start the pipe reader threads''"
definition msg_never_started :: string where "msg_never_started = ''child process was never started''"

text \<open>
  The readers of a forked child. When a thread cannot be started the child is killed and reaped, the
  reader that did start is joined, and the descriptors no reader took are closed.
\<close>

definition start_readers :: "StartOs \<Rightarrow> int \<Rightarrow> int \<Rightarrow> int \<Rightarrow> ((Event list) + ChildImpl) option" where
  "start_readers os pid outRead errRead =
     (let i0 = new_impl\<lparr>impl_stdoutRead := outRead, impl_stderrRead := errRead\<rparr>;
          i1 = i0\<lparr>impl_stdoutRead := -1, impl_outReader := Some \<lparr>rdr_fd = outRead, rdr_reads = sos_outReads os\<rparr>\<rparr>;
          i2 = i1\<lparr>impl_stderrRead := -1, impl_errReader := Some \<lparr>rdr_fd = errRead, rdr_reads = sos_errReads os\<rparr>\<rparr>;
          abandon = (\<lambda>i. case wait_loop (sos_reap os) of
             None \<Rightarrow> None
           | Some answer \<Rightarrow> (case joinReaders i of (i', es) \<Rightarrow>
               Some (Inl ([Signalled pid] @ (case answer of Inr st \<Rightarrow> [Reaped pid] | Inl e \<Rightarrow> [])
                 @ es @ close_left i'))))
      in if \<not> sos_outThread os then abandon i0
         else if \<not> sos_errThread os then abandon i1
         else Some (Inr i2))"

definition start_child :: "StartOs \<Rightarrow> string \<Rightarrow> ChildProcess \<Rightarrow> (ChildProcess \<times> Status \<times> Event list) option" where
  "start_child os executable c =
     (if chp_started c then Some (c, fail IllegalTransition msg_child_started, [])
      else if executable = [] then Some (c, fail InvalidArgument msg_no_executable, [])
      else if \<not> sos_allocated os then Some (c, fail LimitExceeded msg_no_memory, [])
      else (case sos_pipeOut os of
          Inl e \<Rightarrow> Some (c, processFailure ''pipe'' e, [])
        | Inr (outRead, outWrite) \<Rightarrow>
            (case sos_pipeErr os of
               Inl e \<Rightarrow> Some (c, processFailure ''pipe'' e,
                 [Opened outRead, Opened outWrite, Closed outRead, Closed outWrite])
             | Inr (errRead, errWrite) \<Rightarrow>
                 let pipes = [Opened outRead, Opened outWrite, Opened errRead, Opened errWrite]
                 in (case sos_fork os of
                       Inl e \<Rightarrow> Some (c, processFailure ''fork'' e,
                         pipes @ [Closed outRead, Closed outWrite, Closed errRead, Closed errWrite])
                     | Inr pid \<Rightarrow>
                         let forked = pipes @ [Forked pid, Closed outWrite, Closed errWrite]
                         in (case start_readers os pid outRead errRead of
                               None \<Rightarrow> None
                             | Some (Inl es) \<Rightarrow> Some (c, fail IoError msg_no_readers, forked @ es)
                             | Some (Inr i) \<Rightarrow>
                                 Some (\<lparr>chp_impl = Some i, chp_pid = word_of_int pid, chp_started = True,
                                   chp_waited = False, chp_exitCode = 0\<rparr>, okStatus, forked))))))"

definition running :: "ProbeAnswer \<Rightarrow> ChildProcess \<Rightarrow> bool" where
  "running answer c =
     (if \<not> chp_started c \<or> chp_waited c \<or> chp_impl c = None then False
      else (case answer of ProbeAlive \<Rightarrow> True | ProbeForbidden \<Rightarrow> True | ProbeGone \<Rightarrow> False))"

definition kill :: "KillAnswer \<Rightarrow> ChildProcess \<Rightarrow> Status \<times> Event list" where
  "kill answer c =
     (if \<not> chp_started c then (fail InvalidArgument msg_never_started, [])
      else if chp_waited c \<or> chp_impl c = None then (okStatus, [])
      else (case answer of
          KillSent \<Rightarrow> (okStatus, [Signalled (uint (chp_pid c))])
        | KillNoProcess \<Rightarrow> (okStatus, [Signalled (uint (chp_pid c))])
        | KillError e \<Rightarrow> (processFailure ''kill'' e, [Signalled (uint (chp_pid c))])))"

definition join_child :: "ChildProcess \<Rightarrow> ChildProcess \<times> Event list" where
  "join_child c =
     (case chp_impl c of
        None \<Rightarrow> (c, [])
      | Some i \<Rightarrow> (case joinReaders i of (i', es) \<Rightarrow> (c\<lparr>chp_impl := Some i'\<rparr>, es)))"

definition wait :: "WaitAnswer list \<Rightarrow> ChildProcess \<Rightarrow> (ChildProcess \<times> Status \<times> int option \<times> Event list) option" where
  "wait answers c =
     (if \<not> chp_started c then Some (c, fail InvalidArgument msg_never_started, None, [])
      else if chp_waited c then Some (c, okStatus, Some (chp_exitCode c), [])
      else (case wait_loop answers of
          None \<Rightarrow> None
        | Some (Inl e) \<Rightarrow> Some (c, processFailure ''waitpid'' e, None, [])
        | Some (Inr st) \<Rightarrow>
            (case join_child c of (c1, es) \<Rightarrow>
               Some (c1\<lparr>chp_exitCode := exit_code st, chp_waited := True\<rparr>, okStatus, Some (exit_code st),
                 Reaped (uint (chp_pid c)) # es))))"

text \<open>The destructor, which kills a live child first, and the two moves.\<close>

definition destroy :: "KillAnswer \<Rightarrow> WaitAnswer list \<Rightarrow> ChildProcess \<Rightarrow> Event list option" where
  "destroy killed answers c =
     (case chp_impl c of
        None \<Rightarrow> Some []
      | Some _ \<Rightarrow>
          (case (if chp_started c \<and> \<not> chp_waited c
                 then (case kill killed c of (_, es1) \<Rightarrow>
                   (case wait answers c of None \<Rightarrow> None | Some (c1, _, _, es2) \<Rightarrow> Some (c1, es1 @ es2)))
                 else Some (c, [])) of
             None \<Rightarrow> None
           | Some (c1, es) \<Rightarrow>
               (case join_child c1 of (c2, es3) \<Rightarrow>
                  Some (es @ es3 @ (case chp_impl c2 of None \<Rightarrow> [] | Some i \<Rightarrow> close_left i)))))"

definition move_construct :: "ChildProcess \<Rightarrow> ChildProcess \<times> ChildProcess" where
  "move_construct other = (other, new_child)"

definition move_assign ::
    "KillAnswer \<Rightarrow> WaitAnswer list \<Rightarrow> ChildProcess \<Rightarrow> ChildProcess
      \<Rightarrow> (ChildProcess \<times> ChildProcess \<times> Event list) option" where
  "move_assign killed answers this other =
     (case destroy killed answers this of None \<Rightarrow> None | Some es \<Rightarrow> Some (other, new_child, es))"

definition stdoutText :: "ChildProcess \<Rightarrow> string" where
  "stdoutText c = (case chp_impl c of None \<Rightarrow> [] | Some i \<Rightarrow> buf_text (impl_out i))"

definition stderrText :: "ChildProcess \<Rightarrow> string" where
  "stderrText c = (case chp_impl c of None \<Rightarrow> [] | Some i \<Rightarrow> buf_text (impl_err i))"

section \<open>Paths\<close>

definition joinPath :: "string \<Rightarrow> string \<Rightarrow> string" where
  "joinPath directory name =
     (if directory = [] then name
      else if name = [] then directory
      else if last directory = CHR ''/'' \<or> last directory = CHR 0x5C then directory @ name
      else directory @ ''/'' @ name)"

definition pathExists :: "(string \<Rightarrow> bool) \<Rightarrow> string \<Rightarrow> bool" where
  "pathExists stat path = (if path = [] then False else stat path)"

datatype RemoveAnswer = Removed | RemoveMissing | RemoveError string

definition msg_empty_path :: string where "msg_empty_path = ''path must not be empty''"
definition msg_missing_file :: "string \<Rightarrow> string" where
  "msg_missing_file path = ''cannot remove a missing file: '' @ path"

definition removeFile :: "(string \<Rightarrow> RemoveAnswer) \<Rightarrow> string \<Rightarrow> Status" where
  "removeFile remove path =
     (if path = [] then fail InvalidArgument msg_empty_path
      else (case remove path of
          Removed \<Rightarrow> okStatus
        | RemoveMissing \<Rightarrow> fail NotFound (msg_missing_file path)
        | RemoveError e \<Rightarrow> processFailure ''remove'' e))"

definition temporaryDirectory :: "string option \<Rightarrow> string" where
  "temporaryDirectory tmpdir = (case tmpdir of Some d \<Rightarrow> if d \<noteq> [] then d else ''/tmp'' | None \<Rightarrow> ''/tmp'')"

text \<open>
  The path of the running program: \<open>readlink\<close> fills at most the buffer, so an answer that fills it may
  be cut off, and the buffer is doubled up to its bound. (An empty buffer, which doubling would not
  change, never arises: the first one has 260 characters.)
\<close>

definition kInitialPathChars :: nat where "kInitialPathChars = 260"
definition kMaxPathChars :: nat where "kMaxPathChars = 32768"

definition readlink_into :: "string option \<Rightarrow> nat \<Rightarrow> string option" where
  "readlink_into target room = map_option (take room) target"

function executable_path :: "string option \<Rightarrow> nat \<Rightarrow> string" where
  "executable_path target room =
     (case readlink_into target room of
        None \<Rightarrow> []
      | Some written \<Rightarrow>
          if length written < room then written
          else if room \<ge> kMaxPathChars then []
          else if room = 0 then [] else executable_path target (room * 2))"
  by pat_completeness auto

termination
  by (relation "measure (\<lambda>(_, room). kMaxPathChars - room)") auto

declare executable_path.simps [simp del]

definition currentExecutablePath :: "string option \<Rightarrow> string" where
  "currentExecutablePath target = executable_path target kInitialPathChars"

text \<open>It is the whole path, never a part of it, and nothing when the path is too long.\<close>

lemma executable_path_whole:
  assumes "0 < room" and "room \<le> 2 * kMaxPathChars"
  shows "executable_path (Some path) room = path \<or> executable_path (Some path) room = [] \<and> kMaxPathChars \<le> length path"
  using assms
proof (induction "Some path" room rule: executable_path.induct)
  case (1 room)
  show ?case
  proof (cases "length path < room")
    case True
    then show ?thesis
      by (subst executable_path.simps) (simp add: readlink_into_def)
  next
    case False
    show ?thesis
    proof (cases "room \<ge> kMaxPathChars")
      case True
      then have "executable_path (Some path) room = []"
        using False by (subst executable_path.simps) (simp add: readlink_into_def)
      then show ?thesis
        using False True by simp
    next
      case small: False
      then have "executable_path (Some path) room = executable_path (Some path) (room * 2)"
        using False 1(2) by (subst executable_path.simps) (simp add: readlink_into_def)
      moreover have "executable_path (Some path) (room * 2) = path
          \<or> executable_path (Some path) (room * 2) = [] \<and> kMaxPathChars \<le> length path"
        by (rule 1(1) [of "take room path"]) (use False small 1(2) in \<open>simp_all add: readlink_into_def\<close>)
      ultimately show ?thesis
        by simp
    qed
  qed
qed

lemma currentExecutablePath_whole:
  "length path < kMaxPathChars \<Longrightarrow> currentExecutablePath (Some path) = path"
  using executable_path_whole [of kInitialPathChars path]
  by (auto simp: currentExecutablePath_def kInitialPathChars_def kMaxPathChars_def)

end
