(* ===== verification/Child_Facts.thy ===== *)
theory Child_Facts
  imports Child_Process
begin

text \<open>
  The life of a child process as a step relation: it is started, its readers take in what it prints,
  it is signalled and waited for, in any order and any number of times. The events are balanced: a
  descriptor is closed once and only while it is open, a signal goes to a child that has not been
  reaped, and what is open or unreaped is what the object still answers for.
\<close>

section \<open>Balanced events\<close>

fun account :: "Event \<Rightarrow> int set \<times> int set \<Rightarrow> (int set \<times> int set) option" where
  "account (Opened fd) (fds, kids) = (if fd \<in> fds then None else Some (insert fd fds, kids))"
| "account (Closed fd) (fds, kids) = (if fd \<in> fds then Some (fds - {fd}, kids) else None)"
| "account (Forked pid) (fds, kids) = (if pid \<in> kids then None else Some (fds, insert pid kids))"
| "account (Signalled pid) (fds, kids) = (if pid \<in> kids then Some (fds, kids) else None)"
| "account (Reaped pid) (fds, kids) = (if pid \<in> kids then Some (fds, kids - {pid}) else None)"

fun accounts :: "Event list \<Rightarrow> int set \<times> int set \<Rightarrow> (int set \<times> int set) option" where
  "accounts [] a = Some a"
| "accounts (e # es) a = (case account e a of None \<Rightarrow> None | Some b \<Rightarrow> accounts es b)"

lemma accounts_append: "accounts (es @ fs) a = (case accounts es a of None \<Rightarrow> None | Some b \<Rightarrow> accounts fs b)"
  by (induction es arbitrary: a) (simp_all split: option.split)

section \<open>Steps\<close>

text \<open>A reader takes one answer of its pipe.\<close>

definition read_some :: "Reader \<Rightarrow> CaptureBuffer \<Rightarrow> Reader \<times> CaptureBuffer" where
  "read_some rd b =
     (case rdr_reads rd of
        Chunk bytes # answers \<Rightarrow>
          if bytes = [] then (rd, b) else (rd\<lparr>rdr_reads := answers\<rparr>, appendCapture bytes b)
      | ReadInterrupted # answers \<Rightarrow> (rd\<lparr>rdr_reads := answers\<rparr>, b)
      | _ \<Rightarrow> (rd, b))"

definition read_out :: "ChildProcess \<Rightarrow> ChildProcess" where
  "read_out c =
     (case chp_impl c of
        None \<Rightarrow> c
      | Some i \<Rightarrow> (case impl_outReader i of
            None \<Rightarrow> c
          | Some rd \<Rightarrow> (case read_some rd (impl_out i) of (rd1, b) \<Rightarrow>
              c\<lparr>chp_impl := Some (i\<lparr>impl_outReader := Some rd1, impl_out := b\<rparr>)\<rparr>)))"

definition read_err :: "ChildProcess \<Rightarrow> ChildProcess" where
  "read_err c =
     (case chp_impl c of
        None \<Rightarrow> c
      | Some i \<Rightarrow> (case impl_errReader i of
            None \<Rightarrow> c
          | Some rd \<Rightarrow> (case read_some rd (impl_err i) of (rd1, b) \<Rightarrow>
              c\<lparr>chp_impl := Some (i\<lparr>impl_errReader := Some rd1, impl_err := b\<rparr>)\<rparr>)))"

text \<open>
  What the operating system promises: the descriptors of two pipes are different and not negative, a
  process number is positive and fits its type, and waiting for one's own child ends by reaping it.
\<close>

definition fair_os :: "StartOs \<Rightarrow> bool" where
  "fair_os os \<longleftrightarrow>
     (\<forall>a b. sos_pipeOut os = Inr (a, b) \<longrightarrow> 0 \<le> a \<and> 0 \<le> b \<and> a \<noteq> b
        \<and> (\<forall>c d. sos_pipeErr os = Inr (c, d) \<longrightarrow> 0 \<le> c \<and> 0 \<le> d \<and> c \<noteq> d \<and> {a, b} \<inter> {c, d} = {}))
     \<and> (\<forall>pid. sos_fork os = Inr pid \<longrightarrow> 0 < pid \<and> pid < 2147483648)
     \<and> (\<exists>st. wait_loop (sos_reap os) = Some (Inr st))"

inductive child_step :: "ChildProcess \<Rightarrow> Event list \<Rightarrow> ChildProcess \<Rightarrow> bool" where
  step_start: "fair_os os \<Longrightarrow> start_child os executable c = Some (c', status, es) \<Longrightarrow> child_step c es c'"
| step_out: "child_step c [] (read_out c)"
| step_err: "child_step c [] (read_err c)"
| step_kill: "kill answer c = (status, es) \<Longrightarrow> child_step c es c"
| step_wait: "wait answers c = Some (c', status, exit, es) \<Longrightarrow> child_step c es c'"

inductive life :: "ChildProcess \<Rightarrow> Event list \<Rightarrow> ChildProcess \<Rightarrow> bool" where
  life_begins: "life c [] c"
| life_goes_on: "life c es c' \<Longrightarrow> child_step c' fs c'' \<Longrightarrow> life c (es @ fs) c''"

inductive_cases child_stepE: "child_step c es c'"

section \<open>The invariant\<close>

definition reader_fds :: "Reader option \<Rightarrow> int set" where
  "reader_fds r = (case r of None \<Rightarrow> {} | Some rd \<Rightarrow> {rdr_fd rd})"

definition held :: "ChildProcess \<Rightarrow> int set" where
  "held c = (case chp_impl c of None \<Rightarrow> {} | Some i \<Rightarrow> reader_fds (impl_outReader i) \<union> reader_fds (impl_errReader i))"

definition unreaped :: "ChildProcess \<Rightarrow> int set" where
  "unreaped c = (if chp_started c \<and> \<not> chp_waited c then {uint (chp_pid c)} else {})"

definition child_ok :: "ChildProcess \<Rightarrow> bool" where
  "child_ok c \<longleftrightarrow>
     (if \<not> chp_started c then chp_impl c = None
      else \<exists>i. chp_impl c = Some i \<and> impl_stdoutRead i = -1 \<and> impl_stderrRead i = -1
        \<and> (if chp_waited c then impl_outReader i = None \<and> impl_errReader i = None
           else \<exists>a b. impl_outReader i = Some a \<and> impl_errReader i = Some b \<and> rdr_fd a \<noteq> rdr_fd b))"

definition balanced :: "ChildProcess \<Rightarrow> Event list \<Rightarrow> ChildProcess \<Rightarrow> bool" where
  "balanced c es c' \<longleftrightarrow> child_ok c' \<and> accounts es (held c, unreaped c) = Some (held c', unreaped c')"

lemma child_started:
  assumes "child_ok c" and "chp_started c" and "\<not> chp_waited c"
  obtains i a b where "chp_impl c = Some i" "impl_stdoutRead i = -1" "impl_stderrRead i = -1"
    "impl_outReader i = Some a" "impl_errReader i = Some b" "rdr_fd a \<noteq> rdr_fd b"
  using assms by (auto simp: child_ok_def)

lemma kill_balanced: "child_ok c \<Longrightarrow> kill answer c = (status, es) \<Longrightarrow> balanced c es c"
  by (auto simp: kill_def balanced_def unreaped_def split: if_splits KillAnswer.splits)

lemma wait_balanced:
  assumes "child_ok c" and "wait answers c = Some (c', status, exit, es)"
  shows "balanced c es c'"
proof (cases "chp_started c \<and> \<not> chp_waited c")
  case True
  then obtain i a b where i: "chp_impl c = Some i" "impl_stdoutRead i = -1" "impl_stderrRead i = -1"
    "impl_outReader i = Some a" "impl_errReader i = Some b" "rdr_fd a \<noteq> rdr_fd b"
    using child_started [OF assms(1)] by metis
  show ?thesis
    using assms True i
    by (auto simp: wait_def join_child_def joinReaders_def join_reader_def balanced_def child_ok_def held_def
        unreaped_def reader_fds_def split: option.splits sum.splits)
qed (use assms in \<open>auto simp: wait_def balanced_def split: if_splits\<close>)

lemma read_some_fd: "read_some rd b = (rd1, b1) \<Longrightarrow> rdr_fd rd1 = rdr_fd rd"
  by (auto simp: read_some_def split: list.splits ReadAnswer.splits if_splits)

lemma read_balanced: "child_ok c \<Longrightarrow> balanced c [] (read_out c)" "child_ok c \<Longrightarrow> balanced c [] (read_err c)"
  by (auto simp: balanced_def read_out_def read_err_def child_ok_def held_def unreaped_def reader_fds_def
      split: option.splits prod.splits if_splits dest!: read_some_fd)

lemma pid_word: "0 < pid \<Longrightarrow> pid < 2147483648 \<Longrightarrow> uint (word_of_int pid :: u64) = pid"
  by (simp add: uint_word_of_int mod_pos_pos_trivial)

lemma start_readers_cases:
  assumes "start_readers os pid a b = Some r" and "wait_loop (sos_reap os) = Some (Inr st)" and "0 \<le> a" and "0 \<le> b"
  shows "r = Inl [Signalled pid, Reaped pid, Closed a, Closed b]
    \<or> (\<exists>i rda rdb. r = Inr i \<and> impl_stdoutRead i = -1 \<and> impl_stderrRead i = -1
        \<and> impl_outReader i = Some rda \<and> rdr_fd rda = a \<and> impl_errReader i = Some rdb \<and> rdr_fd rdb = b)"
  using assms
  by (auto simp: start_readers_def Let_def new_impl_def joinReaders_def join_reader_def close_left_def split: if_splits)

lemma start_balanced:
  assumes "child_ok c" and "fair_os os" and "start_child os executable c = Some (c', status, es)"
  shows "balanced c es c'"
proof (cases "chp_started c \<or> executable = [] \<or> \<not> sos_allocated os")
  case True
  then show ?thesis
    using assms by (auto simp: start_child_def balanced_def split: if_splits)
next
  case False
  then have blank: "chp_impl c = None" "\<not> chp_started c" "held c = {}" "unreaped c = {}"
    using assms(1) by (auto simp: child_ok_def held_def unreaped_def)
  show ?thesis
  proof (cases "sos_pipeOut os")
    case (Inl e)
    then show ?thesis
      using assms(1,3) False by (auto simp: start_child_def balanced_def)
  next
    case (Inr out_pipe)
    obtain a b where out_fds: "sos_pipeOut os = Inr (a, b)" "0 \<le> a" "a \<noteq> b"
      using Inr assms(2) by (cases out_pipe) (auto simp: fair_os_def)
    show ?thesis
    proof (cases "sos_pipeErr os")
      case (Inl e)
      then show ?thesis
        using assms(1,3) False out_fds blank by (auto simp: start_child_def balanced_def)
    next
      case (Inr err_pipe)
      obtain d e where err_fds: "sos_pipeErr os = Inr (d, e)" "0 \<le> d" "d \<noteq> e" "a \<noteq> d" "a \<noteq> e" "b \<noteq> d" "b \<noteq> e"
        using Inr assms(2) out_fds by (cases err_pipe) (auto simp: fair_os_def)
      show ?thesis
      proof (cases "sos_fork os")
        case (Inl m)
        then show ?thesis
          using assms(1,3) False out_fds err_fds blank by (auto simp: start_child_def balanced_def Let_def)
      next
        case (Inr pid)
        then have pid: "0 < pid" "pid < 2147483648"
          using assms(2) by (auto simp: fair_os_def)
        obtain st where reap: "wait_loop (sos_reap os) = Some (Inr st)"
          using assms(2) by (auto simp: fair_os_def)
        obtain r where r: "start_readers os pid a d = Some r"
          using assms(3) False out_fds err_fds Inr by (auto simp: start_child_def Let_def split: option.splits)
        let ?forked = "[Opened a, Opened b, Opened d, Opened e, Forked pid, Closed b, Closed e]"
        have forked: "accounts ?forked ({}, {}) = Some ({a, d}, {pid})"
          using out_fds(3) err_fds(3-7) by (auto simp: insert_Diff_if)
        show ?thesis
        proof (cases r)
          case (Inl fs)
          then have fs: "fs = [Signalled pid, Reaped pid, Closed a, Closed d]"
            using start_readers_cases [OF r reap out_fds(2) err_fds(2)] by simp
          have es: "c' = c" "es = ?forked @ fs"
            using assms(3) False out_fds(1) err_fds(1) \<open>sos_fork os = Inr pid\<close> r Inl by (simp_all add: start_child_def Let_def)
          have "accounts es ({}, {}) = accounts fs ({a, d}, {pid})"
            unfolding es(2) accounts_append forked by simp
          then show ?thesis
            using assms(1) blank err_fds(4) es(1) by (simp add: balanced_def fs insert_Diff_if)
        next
          case (Inr i)
          then obtain rda rdb where i: "impl_stdoutRead i = -1" "impl_stderrRead i = -1" "impl_outReader i = Some rda"
            "rdr_fd rda = a" "impl_errReader i = Some rdb" "rdr_fd rdb = d"
            using start_readers_cases [OF r reap out_fds(2) err_fds(2)] by auto
          have "c' = \<lparr>chp_impl = Some i, chp_pid = word_of_int pid, chp_started = True, chp_waited = False, chp_exitCode = 0\<rparr>"
            "es = ?forked"
            using assms(3) False out_fds(1) err_fds(1) \<open>sos_fork os = Inr pid\<close> r Inr by (simp_all add: start_child_def Let_def)
          then show ?thesis
            using blank err_fds(4) i pid forked
            by (simp add: balanced_def child_ok_def held_def unreaped_def reader_fds_def pid_word insert_commute)
        qed
      qed
    qed
  qed
qed

lemma step_balanced: "child_step c es c' \<Longrightarrow> child_ok c \<Longrightarrow> balanced c es c'"
  by (cases rule: child_step.cases) (auto intro: start_balanced read_balanced kill_balanced wait_balanced)

lemma life_balanced: "life c es c' \<Longrightarrow> child_ok c \<Longrightarrow> balanced c es c'"
proof (induction rule: life.induct)
  case (life_goes_on c es c' fs c'')
  then show ?case
    using step_balanced [of c' fs c''] by (auto simp: balanced_def accounts_append)
qed (simp add: balanced_def)

lemma new_child_ok: "child_ok new_child"
  by (simp add: child_ok_def new_child_def)

text \<open>Destroying the object gives everything back, provided its last wait reaps the child.\<close>

lemma destroy_balanced:
  assumes "child_ok c" and "destroy killed answers c = Some es" and "wait_loop answers = Some (Inr st)"
  shows "accounts es (held c, unreaped c) = Some ({}, {})"
proof (cases "chp_started c \<and> \<not> chp_waited c")
  case True
  then obtain i a b where i: "chp_impl c = Some i" "impl_stdoutRead i = -1" "impl_stderrRead i = -1"
    "impl_outReader i = Some a" "impl_errReader i = Some b" "rdr_fd a \<noteq> rdr_fd b"
    using child_started [OF assms(1)] by metis
  show ?thesis
    using assms(2,3) True i
    by (auto simp: destroy_def kill_def wait_def join_child_def joinReaders_def join_reader_def held_def unreaped_def
        reader_fds_def close_left_def split: KillAnswer.splits)
next
  case False
  show ?thesis
  proof (cases "chp_started c")
    case True
    then obtain i where "chp_impl c = Some i" "impl_stdoutRead i = -1" "impl_stderrRead i = -1"
      "impl_outReader i = None" "impl_errReader i = None"
      using assms(1) False by (auto simp: child_ok_def)
    then show ?thesis
      using assms(2) True False
      by (auto simp: destroy_def join_child_def joinReaders_def join_reader_def held_def unreaped_def reader_fds_def
          close_left_def)
  next
    case False
    then show ?thesis
      using assms(1,2) by (auto simp: child_ok_def destroy_def held_def unreaped_def)
  qed
qed

section \<open>What was captured\<close>

text \<open>The text a buffer will hold when its reader has been joined does not depend on when that happens.\<close>

definition settled_out :: "ChildProcess \<Rightarrow> string" where
  "settled_out c = (case chp_impl c of None \<Rightarrow> [] | Some i \<Rightarrow> buf_text (fst (join_reader (impl_outReader i) (impl_out i))))"

lemma read_some_settles: "read_some rd b = (rd1, b1) \<Longrightarrow> readPipe (rdr_reads rd1) b1 = readPipe (rdr_reads rd) b"
  by (auto simp: read_some_def split: list.splits ReadAnswer.splits if_splits)

lemma read_settled:
  "settled_out (read_out c) = settled_out c" "settled_out (read_err c) = settled_out c"
  by (auto simp: settled_out_def read_out_def read_err_def join_reader_def read_some_settles
      split: option.splits prod.splits)

lemma read_started:
  "chp_started (read_out c) = chp_started c" "chp_started (read_err c) = chp_started c"
  by (simp_all add: read_out_def read_err_def split: option.splits prod.splits)

lemma join_settled: "settled_out (fst (join_child c)) = settled_out c" "chp_started (fst (join_child c)) = chp_started c"
  by (auto simp: settled_out_def join_child_def joinReaders_def join_reader_def split: option.splits prod.splits)

lemma settled_fields: "settled_out (c\<lparr>chp_exitCode := x, chp_waited := y\<rparr>) = settled_out c"
  by (simp add: settled_out_def)

lemma wait_settled:
  assumes "wait answers c = Some (c', status, exit, es)"
  shows "settled_out c' = settled_out c" and "chp_started c' = chp_started c"
proof -
  have "c' = c \<or> (\<exists>x. c' = (fst (join_child c))\<lparr>chp_exitCode := x, chp_waited := True\<rparr>)"
    using assms by (auto simp: wait_def split: if_splits option.splits sum.splits prod.splits)
  then show "settled_out c' = settled_out c" "chp_started c' = chp_started c"
    by (auto simp: settled_fields join_settled)
qed

lemma step_settled: "child_step c es c' \<Longrightarrow> chp_started c \<Longrightarrow> chp_started c' \<and> settled_out c' = settled_out c"
  by (cases rule: child_step.cases) (auto simp: start_child_def read_settled read_started dest: wait_settled)

lemma life_settled: "life c es c' \<Longrightarrow> chp_started c \<Longrightarrow> chp_started c' \<and> settled_out c' = settled_out c"
  by (induction rule: life.induct) (auto dest: step_settled)

lemma started_settled:
  assumes "start_child os executable c = Some (c', status, es)" and "status_ok status"
  shows "chp_started c'" and "settled_out c' = buf_text (readPipe (sos_outReads os) empty_capture)"
  using assms
  by (auto simp: start_child_def start_readers_def Let_def processFailure_def settled_out_def join_reader_def new_impl_def
      split: if_splits sum.splits option.splits prod.splits)

lemma waited_out: "child_ok c \<Longrightarrow> chp_started c \<Longrightarrow> chp_waited c \<Longrightarrow> stdoutText c = settled_out c"
  by (auto simp: child_ok_def stdoutText_def settled_out_def join_reader_def)

lemma captured_text:
  assumes "fair_os os" and "start_child os executable new_child = Some (c, status, es)" and "status_ok status"
    and "life c fs c'" and "chp_waited c'"
  shows "stdoutText c' = (if length (child_output (sos_outReads os)) \<le> kMaxCaptureBytes then child_output (sos_outReads os)
      else take kMaxCaptureBytes (child_output (sos_outReads os)) @ kTruncationMarker)"
proof -
  have ok: "child_ok c"
    using start_balanced [OF new_child_ok assms(1,2)] by (simp add: balanced_def)
  then have "child_ok c'"
    using life_balanced [OF assms(4)] by (simp add: balanced_def)
  moreover have "chp_started c' \<and> settled_out c' = settled_out c"
    by (rule life_settled [OF assms(4) started_settled(1) [OF assms(2,3)]])
  ultimately show ?thesis
    using assms(5) started_settled(2) [OF assms(2,3)] by (simp add: waited_out capture_exact)
qed

text \<open>Waiting is idempotent and remembers the code of the child.\<close>

lemma wait_idempotent:
  assumes "wait answers c = Some (c', status, exit, es)" and "status_ok status"
  shows "wait more_answers c' = Some (c', okStatus, exit, [])"
proof -
  have "chp_started c' \<and> chp_waited c' \<and> exit = Some (chp_exitCode c')"
    using assms join_settled(2) [of c]
    by (auto simp: wait_def processFailure_def split: if_splits option.splits sum.splits prod.splits)
  then show ?thesis
    by (simp add: wait_def)
qed

section \<open>An example\<close>

text \<open>A child that prints a line, is killed and reaped.\<close>

definition demo_os :: StartOs where
  "demo_os = \<lparr>sos_allocated = True, sos_pipeOut = Inr (3, 4), sos_pipeErr = Inr (5, 6), sos_fork = Inr 42,
     sos_outThread = True, sos_errThread = True, sos_outReads = [Chunk ''ok'', ReadInterrupted, Chunk ''!'', ReadEnded],
     sos_errReads = [ReadEnded], sos_reap = [WaitReaped (Exited 0)]\<rparr>"

definition demo_child :: ChildProcess where
  "demo_child = fst (the (start_child demo_os ''wfcli'' new_child))"

definition demo_waited :: ChildProcess where
  "demo_waited = fst (the (wait [WaitInterrupted, WaitReaped (Terminated 9)] (read_out demo_child)))"

lemma demo_os_fair: "fair_os demo_os"
  by (simp add: fair_os_def demo_os_def)

lemma demo_starts:
  "start_child demo_os ''wfcli'' new_child = Some (demo_child, okStatus,
     [Opened 3, Opened 4, Opened 5, Opened 6, Forked 42, Closed 4, Closed 6])"
  by (simp add: demo_child_def demo_os_def start_child_def start_readers_def Let_def new_child_def)

lemma demo_waits:
  "wait [WaitInterrupted, WaitReaped (Terminated 9)] (read_out demo_child) =
     Some (demo_waited, okStatus, Some 137, [Reaped 42, Closed 3, Closed 5])"
  by (simp add: demo_waited_def demo_child_def demo_os_def start_child_def start_readers_def Let_def new_child_def new_impl_def
      wait_def read_out_def read_some_def join_child_def joinReaders_def join_reader_def exit_code_def)

lemma demo_life:
  "life demo_child [Signalled 42, Reaped 42, Closed 3, Closed 5] demo_waited" "chp_waited demo_waited"
proof -
  have "kill KillSent (read_out demo_child) = (okStatus, [Signalled 42])"
    by (simp add: demo_child_def demo_os_def start_child_def start_readers_def Let_def new_child_def new_impl_def kill_def
        read_out_def read_some_def)
  note steps = step_out [of demo_child] step_kill [OF this] step_wait [OF demo_waits]
  have "life demo_child ([] @ []) (read_out demo_child)"
    by (rule life_goes_on [OF life_begins steps(1)])
  then have "life demo_child (([] @ []) @ [Signalled 42]) (read_out demo_child)"
    by (rule life_goes_on [OF _ steps(2)])
  then have "life demo_child ((([] @ []) @ [Signalled 42]) @ [Reaped 42, Closed 3, Closed 5]) demo_waited"
    by (rule life_goes_on [OF _ steps(3)])
  then show "life demo_child [Signalled 42, Reaped 42, Closed 3, Closed 5] demo_waited"
    by simp
  show "chp_waited demo_waited"
    by (simp add: demo_waited_def demo_child_def demo_os_def start_child_def start_readers_def Let_def new_child_def new_impl_def
        wait_def read_out_def read_some_def join_child_def joinReaders_def join_reader_def)
qed

end
