(* ===== verification/Ranges.thy ===== *)
theory Ranges
  imports Quantity
begin

text \<open>
  Half-open slot and frequency ranges (\<open>quantity.hpp\<close>) and the range algebra of candidate
  enumeration and usage accounting (\<open>intersectRange\<close>, \<open>mergeRanges\<close>, \<open>subtractRange\<close> of
  \<open>runtime_candidates.cpp\<close>; \<open>subtractRanges\<close>, \<open>mergeRanges\<close>, \<open>coveredSlots\<close> of
  \<open>runtime_query.cpp\<close>). A slot range denotes a set of slot indices (\<open>slots_of\<close>); on ranges whose
  end does not wrap the algebra computes the set operations on denotations. The locale
  \<open>range_cutter\<close> states what both files rely on when they cut blocked ranges out of a window.
\<close>

section \<open>Slot ranges\<close>

record SlotRange =
  slot_first :: nat
  slot_count :: nat

abbreviation slotRange :: "nat \<Rightarrow> nat \<Rightarrow> SlotRange" where
  "slotRange f c \<equiv> \<lparr>slot_first = f, slot_count = c\<rparr>"

definition default_slots :: SlotRange where
  "default_slots = slotRange 0 0"

definition slot_empty :: "SlotRange \<Rightarrow> bool" where
  "slot_empty r \<longleftrightarrow> slot_count r = 0"

text \<open>The exclusive end index is a 32-bit sum: it wraps when the caller did not bound the range.\<close>

definition slot_end :: "SlotRange \<Rightarrow> nat" where
  "slot_end r = u32add (slot_first r) (slot_count r)"

definition slot_overlaps :: "SlotRange \<Rightarrow> SlotRange \<Rightarrow> bool" where
  "slot_overlaps r s \<longleftrightarrow>
     \<not> (slot_empty r \<or> slot_empty s) \<and> slot_first r < slot_end s \<and> slot_first s < slot_end r"

definition slot_touches :: "SlotRange \<Rightarrow> SlotRange \<Rightarrow> bool" where
  "slot_touches r s \<longleftrightarrow>
     \<not> (slot_empty r \<or> slot_empty s) \<and> slot_first r \<le> slot_end s \<and> slot_first s \<le> slot_end r"

definition slot_contains :: "SlotRange \<Rightarrow> SlotRange \<Rightarrow> bool" where
  "slot_contains r s \<longleftrightarrow>
     (if slot_empty s then True
      else if slot_empty r then False
      else slot_first r \<le> slot_first s \<and> slot_end s \<le> slot_end r)"

definition slots_of :: "SlotRange \<Rightarrow> nat set" where
  "slots_of r = {slot_first r ..< slot_first r + slot_count r}"

definition slot_wf :: "SlotRange \<Rightarrow> bool" where
  "slot_wf r \<longleftrightarrow> is_u32 (slot_first r + slot_count r)"

definition slots_of_list :: "SlotRange list \<Rightarrow> nat set" where
  "slots_of_list rs = (\<Union>r \<in> set rs. slots_of r)"

lemma slot_end_wf [range_simps]: "slot_wf r \<Longrightarrow> slot_end r = slot_first r + slot_count r"
  by (simp add: slot_end_def slot_wf_def u32add_exact)

lemma slots_of_empty [range_simps]: "slots_of r = {} \<longleftrightarrow> slot_empty r"
  by (simp add: slots_of_def slot_empty_def)

lemma mem_slots_of [range_simps]:
  "x \<in> slots_of r \<longleftrightarrow> slot_first r \<le> x \<and> x < slot_first r + slot_count r"
  by (simp add: slots_of_def)

lemma slots_of_list_simps [simp]:
  "slots_of_list [] = {}"
  "slots_of_list (r # rs) = slots_of r \<union> slots_of_list rs"
  "slots_of_list (xs @ ys) = slots_of_list xs \<union> slots_of_list ys"
  "slots_of_list (rev xs) = slots_of_list xs"
  by (auto simp: slots_of_list_def)

lemma finite_slots_of [simp]: "finite (slots_of r)"
  by (simp add: slots_of_def)

lemma finite_slots_of_list [simp]: "finite (slots_of_list rs)"
  by (simp add: slots_of_list_def)

lemma card_slots_of [simp]: "card (slots_of r) = slot_count r"
  by (simp add: slots_of_def)

lemma slot_overlaps_iff:
  assumes "slot_wf r" "slot_wf s"
  shows "slot_overlaps r s \<longleftrightarrow> slots_of r \<inter> slots_of s \<noteq> {}"
proof -
  have "slots_of r \<inter> slots_of s =
      {max (slot_first r) (slot_first s) ..<
       min (slot_first r + slot_count r) (slot_first s + slot_count s)}"
    by (auto simp: slots_of_def)
  then show ?thesis
    using assms by (auto simp: slot_overlaps_def slot_empty_def slot_end_wf)
qed

lemma slot_contains_iff:
  assumes "slot_wf r" "slot_wf s"
  shows "slot_contains r s \<longleftrightarrow> slots_of s \<subseteq> slots_of r"
  using assms by (auto simp: slot_contains_def slot_empty_def slot_end_wf slots_of_def)

section \<open>Frequency ranges\<close>

record FrequencyRange =
  lowMhz :: int
  highMhz :: int

abbreviation frequencyRange :: "int \<Rightarrow> int \<Rightarrow> FrequencyRange" where
  "frequencyRange l h \<equiv> \<lparr>lowMhz = l, highMhz = h\<rparr>"

definition default_frequency :: FrequencyRange where
  "default_frequency = frequencyRange 0 0"

definition freq_empty :: "FrequencyRange \<Rightarrow> bool" where
  "freq_empty r \<longleftrightarrow> highMhz r \<le> lowMhz r"

definition freq_overlaps :: "FrequencyRange \<Rightarrow> FrequencyRange \<Rightarrow> bool" where
  "freq_overlaps r s \<longleftrightarrow>
     \<not> (freq_empty r \<or> freq_empty s) \<and> lowMhz r < highMhz s \<and> lowMhz s < highMhz r"

definition freq_contains :: "FrequencyRange \<Rightarrow> FrequencyRange \<Rightarrow> bool" where
  "freq_contains r s \<longleftrightarrow>
     (if freq_empty s then True
      else if freq_empty r then False
      else lowMhz r \<le> lowMhz s \<and> highMhz s \<le> highMhz r)"

definition freqs_of :: "FrequencyRange \<Rightarrow> int set" where
  "freqs_of r = {lowMhz r ..< highMhz r}"

lemma freqs_of_empty [range_simps]: "freqs_of r = {} \<longleftrightarrow> freq_empty r"
  by (auto simp: freqs_of_def freq_empty_def)

lemma freq_overlaps_iff: "freq_overlaps r s \<longleftrightarrow> freqs_of r \<inter> freqs_of s \<noteq> {}"
proof -
  have "freqs_of r \<inter> freqs_of s = {max (lowMhz r) (lowMhz s) ..< min (highMhz r) (highMhz s)}"
    by (auto simp: freqs_of_def)
  then show ?thesis
    by (auto simp: freq_overlaps_def freq_empty_def)
qed

lemma freq_overlaps_sym: "freq_overlaps r s = freq_overlaps s r"
  by (auto simp: freq_overlaps_def)

lemma freq_contains_iff: "freq_contains r s \<longleftrightarrow> freqs_of s \<subseteq> freqs_of r"
  by (auto simp: freq_contains_def freq_empty_def freqs_of_def)

section \<open>Range algebra\<close>

definition intersectRange :: "SlotRange \<Rightarrow> SlotRange \<Rightarrow> SlotRange" where
  "intersectRange a b =
     (let f = (if slot_first a > slot_first b then slot_first a else slot_first b);
          aEnd = slot_end a;
          bEnd = slot_end b;
          last = (if aEnd < bEnd then aEnd else bEnd)
      in if last \<le> f then default_slots else slotRange f (u32sub last f))"

lemma intersectRange_wf:
  assumes "slot_wf a" "slot_wf b"
  shows "slot_wf (intersectRange a b)"
    and "slots_of (intersectRange a b) = slots_of a \<inter> slots_of b"
  using assms
  by (auto simp: intersectRange_def Let_def default_slots_def slot_end_wf u32sub_exact slot_wf_def
      slots_of_def is_u32_def kU32Modulus_def)

text \<open>The back of the vector under construction is the head of the accumulator.\<close>

fun merge_step :: "SlotRange \<Rightarrow> SlotRange list \<Rightarrow> SlotRange list" where
  "merge_step r [] = (if slot_empty r then [] else [r])"
| "merge_step r (b # bs) =
     (if slot_empty r then b # bs
      else if slot_first r \<le> slot_end b
      then (let e = (if slot_end b > slot_end r then slot_end b else slot_end r)
            in b\<lparr>slot_count := u32sub e (slot_first b)\<rparr> # bs)
      else r # b # bs)"

definition sort_ranges :: "SlotRange list \<Rightarrow> SlotRange list" where
  "sort_ranges rs = sort_key (\<lambda>r. (slot_first r, slot_count r)) rs"

definition mergeRanges :: "SlotRange list \<Rightarrow> SlotRange list" where
  "mergeRanges rs =
     (if length rs < 2 then rs else rev (fold merge_step (sort_ranges rs) []))"

definition mergeRangesUsage :: "SlotRange list \<Rightarrow> SlotRange list" where
  "mergeRangesUsage rs =
     (if rs = [] then rs else rev (fold merge_step (sort_ranges rs) []))"

definition subtractRange :: "SlotRange \<Rightarrow> SlotRange \<Rightarrow> SlotRange list" where
  "subtractRange base cutr =
     (if slot_empty base then []
      else if slot_empty cutr \<or> \<not> slot_overlaps base cutr then [base]
      else (if slot_first cutr > slot_first base
            then [slotRange (slot_first base) (u32sub (slot_first cutr) (slot_first base))] else [])
         @ (let cutEnd = slot_end cutr
            in if cutEnd < slot_end base
               then [slotRange cutEnd (u32sub (slot_end base) cutEnd)] else []))"

definition subtractRanges :: "SlotRange \<Rightarrow> SlotRange list \<Rightarrow> SlotRange list" where
  "subtractRanges cutr pieces =
     (if slot_empty cutr then pieces
      else concat (map (\<lambda>piece.
        if \<not> slot_overlaps piece cutr then [piece]
        else (if slot_first cutr > slot_first piece
              then [slotRange (slot_first piece) (u32sub (slot_first cutr) (slot_first piece))]
              else [])
           @ (let cutEnd = slot_end cutr
              in if cutEnd < slot_end piece
                 then [slotRange cutEnd (u32sub (slot_end piece) cutEnd)] else [])) pieces))"

definition coveredSlots :: "SlotRange list \<Rightarrow> nat" where
  "coveredSlots rs = fold (\<lambda>r total. u32add total (slot_count r)) (mergeRangesUsage rs) 0"

subsection \<open>Merging\<close>

text \<open>Accumulator invariant: newest first, each range ends strictly before the next newer starts.\<close>

definition separated :: "SlotRange list \<Rightarrow> bool" where
  "separated rs \<longleftrightarrow>
     sorted_wrt (\<lambda>r s. slot_first r + slot_count r < slot_first s) rs
     \<and> (\<forall>r \<in> set rs. slot_wf r \<and> \<not> slot_empty r)"

lemma separated_Nil [simp]: "separated []"
  by (simp add: separated_def)

lemma separated_rev:
  "separated (rev rs) \<longleftrightarrow>
     sorted_wrt (\<lambda>r s. slot_first s + slot_count s < slot_first r) rs
     \<and> (\<forall>r \<in> set rs. slot_wf r \<and> \<not> slot_empty r)"
  by (simp add: separated_def sorted_wrt_rev)

lemma merge_step_inv:
  assumes "separated (rev acc)" and "slot_wf r" and "\<forall>b \<in> set acc. slot_first b \<le> slot_first r"
  shows "separated (rev (merge_step r acc))"
    and "slots_of_list (merge_step r acc) = slots_of r \<union> slots_of_list acc"
    and "\<forall>b \<in> set (merge_step r acc). slot_first b \<le> slot_first r"
proof -
  have "separated (rev (merge_step r acc))
      \<and> slots_of_list (merge_step r acc) = slots_of r \<union> slots_of_list acc
      \<and> (\<forall>b \<in> set (merge_step r acc). slot_first b \<le> slot_first r)"
  proof (cases acc)
    case Nil
    then show ?thesis
      using assms by (auto simp: separated_def slots_of_empty [symmetric])
  next
    case (Cons b bs)
    show ?thesis
    proof (cases "slot_empty r")
      case True
      then show ?thesis
        using assms Cons by (auto simp: slots_of_empty [symmetric])
    next
      case nonempty: False
      have b: "slot_wf b" "\<not> slot_empty b" "slot_first b \<le> slot_first r"
        using assms(1) [unfolded separated_rev] assms(3) Cons by auto
      show ?thesis
      proof (cases "slot_first r \<le> slot_end b")
        case False
        have "separated (rev (r # acc))"
          unfolding separated_rev
          using assms(1) [unfolded separated_rev] assms(2) Cons nonempty b False
          by (fastforce simp: slot_end_wf)
        then show ?thesis
          using assms(3) Cons nonempty b False by auto
      next
        case True
        define e where "e = max (slot_first b + slot_count b) (slot_first r + slot_count r)"
        have e: "(if slot_end b > slot_end r then slot_end b else slot_end r) = e"
          using b assms(2) by (auto simp: e_def slot_end_wf)
        have e32: "is_u32 e" and ge: "slot_first b \<le> e"
          using b assms(2) by (auto simp: e_def slot_wf_def is_u32_def)
        have step: "merge_step r acc = b\<lparr>slot_count := e - slot_first b\<rparr> # bs"
          using Cons nonempty True e e32 ge by (simp add: Let_def u32sub_exact)
        have "slots_of (b\<lparr>slot_count := e - slot_first b\<rparr>) = slots_of r \<union> slots_of b"
          using True b by (auto simp: slots_of_def slot_end_wf e_def)
        moreover have "slot_wf (b\<lparr>slot_count := e - slot_first b\<rparr>)"
          using e32 ge by (simp add: slot_wf_def)
        moreover have "\<not> slot_empty (b\<lparr>slot_count := e - slot_first b\<rparr>)"
          using b nonempty by (auto simp: slot_empty_def e_def)
        ultimately have "separated (rev (b\<lparr>slot_count := e - slot_first b\<rparr> # bs))"
          unfolding separated_rev using assms(1) [unfolded separated_rev] Cons by auto
        then show ?thesis
          using step assms(3) Cons b \<open>slots_of (b\<lparr>slot_count := e - slot_first b\<rparr>) = _\<close> by auto
      qed
    qed
  qed
  then show "separated (rev (merge_step r acc))"
    and "slots_of_list (merge_step r acc) = slots_of r \<union> slots_of_list acc"
    and "\<forall>b \<in> set (merge_step r acc). slot_first b \<le> slot_first r"
    by blast+
qed

lemma merge_fold_inv:
  assumes "separated (rev acc)" and "\<forall>r \<in> set rs. slot_wf r"
    and "sorted (map slot_first rs)" and "\<forall>b \<in> set acc. \<forall>r \<in> set rs. slot_first b \<le> slot_first r"
  shows "separated (rev (fold merge_step rs acc))
       \<and> slots_of_list (fold merge_step rs acc) = slots_of_list rs \<union> slots_of_list acc"
  using assms
proof (induction rs arbitrary: acc)
  case Nil
  then show ?case by simp
next
  case (Cons r rs)
  from Cons.prems have "separated (rev (merge_step r acc))"
    and "slots_of_list (merge_step r acc) = slots_of r \<union> slots_of_list acc"
    and low: "\<forall>b \<in> set (merge_step r acc). slot_first b \<le> slot_first r"
    by (simp_all add: merge_step_inv)
  moreover have "\<forall>b \<in> set (merge_step r acc). \<forall>s \<in> set rs. slot_first b \<le> slot_first s"
    using low Cons.prems(3) by (fastforce intro: order_trans)
  ultimately show ?case
    using Cons.IH [of "merge_step r acc"] Cons.prems by auto
qed

lemma sorted_first_sort_ranges: "sorted (map slot_first (sort_ranges rs))"
proof -
  have "sorted (map (\<lambda>r. (slot_first r, slot_count r)) (sort_ranges rs))"
    by (simp add: sort_ranges_def)
  then show ?thesis
    by (induction "sort_ranges rs") (auto simp: sorted_wrt_map less_eq_prod_def elim!: sorted_wrt_mono_rel [rotated])
qed

lemma set_sort_ranges [simp]: "set (sort_ranges rs) = set rs"
  by (simp add: sort_ranges_def)

lemma merge_fold_correct:
  assumes "\<forall>r \<in> set rs. slot_wf r"
  shows "separated (rev (fold merge_step (sort_ranges rs) []))"
    and "slots_of_list (rev (fold merge_step (sort_ranges rs) [])) = slots_of_list rs"
  using merge_fold_inv [of "[]" "sort_ranges rs"] assms sorted_first_sort_ranges [of rs]
  by (auto simp: slots_of_list_def)

lemma slots_of_list_mergeRanges:
  "\<forall>r \<in> set rs. slot_wf r \<Longrightarrow> slots_of_list (mergeRanges rs) = slots_of_list rs"
  using merge_fold_correct [of rs] by (simp add: mergeRanges_def)

lemma mergeRanges_wf:
  "\<forall>r \<in> set rs. slot_wf r \<Longrightarrow> \<forall>r \<in> set (mergeRanges rs). slot_wf r"
  using merge_fold_correct [of rs] by (auto simp: mergeRanges_def separated_def)

lemma separated_mergeRanges:
  assumes "\<forall>r \<in> set rs. slot_wf r \<and> \<not> slot_empty r"
  shows "separated (mergeRanges rs)"
proof (cases "length rs < 2")
  case True
  then consider "rs = []" | r where "rs = [r]"
    by (cases rs) (auto simp: less_Suc_eq)
  then show ?thesis
    using assms by cases (auto simp: mergeRanges_def separated_def)
next
  case False
  then show ?thesis
    using assms merge_fold_correct(1) [of rs] by (simp add: mergeRanges_def)
qed

lemma mergeRangesUsage_correct:
  assumes "\<forall>r \<in> set rs. slot_wf r"
  shows "separated (mergeRangesUsage rs)" and "slots_of_list (mergeRangesUsage rs) = slots_of_list rs"
  using merge_fold_correct [OF assms] by (simp_all add: mergeRangesUsage_def)

subsection \<open>Cutting\<close>

lemma subtractRange_wf:
  assumes "slot_wf base" "slot_wf cutr"
  shows "\<forall>r \<in> set (subtractRange base cutr). slot_wf r"
    and "slots_of_list (subtractRange base cutr) = slots_of base - slots_of cutr"
proof -
  have ends: "slot_end base = slot_first base + slot_count base"
    "slot_end cutr = slot_first cutr + slot_count cutr"
    using assms by (simp_all add: slot_end_wf)
  have disj: "slots_of base - slots_of cutr = slots_of base" if "\<not> slot_overlaps base cutr"
    using that slot_overlaps_iff [OF assms] by blast
  show "\<forall>r \<in> set (subtractRange base cutr). slot_wf r"
    using assms by (auto simp: subtractRange_def Let_def ends u32sub_exact slot_wf_def is_u32_def)
  show "slots_of_list (subtractRange base cutr) = slots_of base - slots_of cutr"
  proof (cases "slot_empty base \<or> slot_empty cutr \<or> \<not> slot_overlaps base cutr")
    case True
    then show ?thesis
      using disj by (auto simp: subtractRange_def slots_of_empty [symmetric])
  next
    case False
    then show ?thesis
      using assms
      by (auto simp: subtractRange_def Let_def ends u32sub_exact slot_wf_def is_u32_def slots_of_def
          slot_overlaps_def)
  qed
qed

locale range_cutter =
  fixes cut_all :: "SlotRange \<Rightarrow> SlotRange list \<Rightarrow> SlotRange list"
  assumes cut_wf: "slot_wf c \<Longrightarrow> \<forall>p \<in> set ps. slot_wf p \<Longrightarrow> \<forall>p \<in> set (cut_all c ps). slot_wf p"
    and cut_slots: "slot_wf c \<Longrightarrow> \<forall>p \<in> set ps. slot_wf p \<Longrightarrow>
      slots_of_list (cut_all c ps) = slots_of_list ps - slots_of c"
begin

lemma fold_cut:
  assumes "\<forall>c \<in> set cs. slot_wf c" and "\<forall>p \<in> set ps. slot_wf p"
  shows "(\<forall>p \<in> set (fold cut_all cs ps). slot_wf p)
       \<and> slots_of_list (fold cut_all cs ps) = slots_of_list ps - slots_of_list cs"
  using assms
proof (induction cs arbitrary: ps)
  case Nil
  then show ?case by simp
next
  case (Cons c cs)
  have "\<forall>p \<in> set (cut_all c ps). slot_wf p"
    using Cons.prems cut_wf [of c ps] by simp
  moreover have "slots_of_list (cut_all c ps) = slots_of_list ps - slots_of c"
    using Cons.prems by (simp add: cut_slots)
  ultimately show ?case
    using Cons.IH [of "cut_all c ps"] Cons.prems by auto
qed

lemma fold_cut_wf:
  "\<forall>c \<in> set cs. slot_wf c \<Longrightarrow> \<forall>p \<in> set ps. slot_wf p \<Longrightarrow> p \<in> set (fold cut_all cs ps) \<Longrightarrow> slot_wf p"
  using fold_cut by blast

lemma fold_cut_slots:
  "\<forall>c \<in> set cs. slot_wf c \<Longrightarrow> \<forall>p \<in> set ps. slot_wf p \<Longrightarrow>
   slots_of_list (fold cut_all cs ps) = slots_of_list ps - slots_of_list cs"
  using fold_cut by blast

end

definition subtractEach :: "SlotRange \<Rightarrow> SlotRange list \<Rightarrow> SlotRange list" where
  "subtractEach cutr pieces =
     concat (map (\<lambda>piece. if \<not> slot_overlaps piece cutr then [piece] else subtractRange piece cutr)
       pieces)"

lemma subtractEach_piece:
  assumes "slot_wf p" "slot_wf c"
  shows "slots_of_list (if \<not> slot_overlaps p c then [p] else subtractRange p c) = slots_of p - slots_of c"
    and "\<forall>q \<in> set (if \<not> slot_overlaps p c then [p] else subtractRange p c). slot_wf q"
  using assms subtractRange_wf [OF assms] slot_overlaps_iff [OF assms] by auto

lemma slots_of_list_concat_map:
  "slots_of_list (concat (map f ps)) = (\<Union>p \<in> set ps. slots_of_list (f p))"
  by (auto simp: slots_of_list_def)

lemma subtractEach_wf:
  assumes "slot_wf c" "\<forall>p \<in> set ps. slot_wf p"
  shows "\<forall>p \<in> set (subtractEach c ps). slot_wf p"
  unfolding subtractEach_def set_concat set_map
  using assms subtractEach_piece(2) by blast

lemma subtractEach_slots:
  assumes "slot_wf c" "\<forall>p \<in> set ps. slot_wf p"
  shows "slots_of_list (subtractEach c ps) = slots_of_list ps - slots_of c"
proof -
  have "slots_of_list (subtractEach c ps) = (\<Union>p \<in> set ps. slots_of p - slots_of c)"
    unfolding subtractEach_def slots_of_list_concat_map
    using assms subtractEach_piece(1) by (metis (no_types, lifting) SUP_cong)
  then show ?thesis
    by (auto simp: slots_of_list_def)
qed

interpretation enum_cut: range_cutter subtractEach
  by unfold_locales (rule subtractEach_wf subtractEach_slots, assumption+)+

lemma subtractRange_hit:
  "\<not> slot_empty c \<Longrightarrow> slot_overlaps p c \<Longrightarrow> subtractRange p c =
     (if slot_first c > slot_first p
      then [slotRange (slot_first p) (u32sub (slot_first c) (slot_first p))] else [])
     @ (let cutEnd = slot_end c
        in if cutEnd < slot_end p then [slotRange cutEnd (u32sub (slot_end p) cutEnd)] else [])"
  unfolding subtractRange_def slot_overlaps_def by (simp only: simp_thms if_False)

lemma subtractRanges_eq: "\<not> slot_empty c \<Longrightarrow> subtractRanges c ps = subtractEach c ps"
  by (induction ps) (simp_all only: subtractRanges_def subtractEach_def list.map concat.simps
      if_False split: if_split, simp_all add: subtractRange_hit)

interpretation usage_cut: range_cutter subtractRanges
proof (unfold_locales, goal_cases)
  case (1 c ps)
  then show ?case
    using enum_cut.cut_wf [of c ps] subtractRanges_eq [of c ps]
    by (cases "slot_empty c") (simp_all add: subtractRanges_def)
next
  case (2 c ps)
  then show ?case
    using enum_cut.cut_slots [of c ps] subtractRanges_eq [of c ps]
    by (cases "slot_empty c") (auto simp: subtractRanges_def slots_of_empty [symmetric])
qed

subsection \<open>Counting\<close>

lemma card_separated: "separated rs \<Longrightarrow> card (slots_of_list rs) = sum_list (map slot_count rs)"
proof (induction rs)
  case Nil
  then show ?case by simp
next
  case (Cons r rs)
  have "slots_of r \<inter> slots_of_list rs = {}"
    using Cons.prems by (fastforce simp: separated_def slots_of_list_def slots_of_def)
  then show ?case
    using Cons by (simp add: card_Un_disjoint separated_def)
qed

lemma fold_u32add:
  "is_u32 (acc + sum_list (map f rs)) \<Longrightarrow> fold (\<lambda>r total. u32add total (f r)) rs acc = acc + sum_list (map f rs)"
  by (induction rs arbitrary: acc) (auto simp: u32add_exact is_u32_def add.assoc)

lemma slots_of_list_bound:
  "\<forall>r \<in> set rs. slot_wf r \<Longrightarrow> slots_of_list rs \<subseteq> {..< kU32Modulus}"
  by (fastforce simp: slots_of_list_def slots_of_def slot_wf_def is_u32_def)

text \<open>The accounting sum is the number of distinct slots, however the ranges overlap.\<close>

lemma coveredSlots_card:
  assumes "\<forall>r \<in> set rs. slot_wf r" and "card (slots_of_list rs) < kU32Modulus"
  shows "coveredSlots rs = card (slots_of_list rs)"
proof -
  have "sum_list (map slot_count (mergeRangesUsage rs)) = card (slots_of_list rs)"
    using mergeRangesUsage_correct [OF assms(1)] card_separated by metis
  then show ?thesis
    using assms(2) by (simp add: coveredSlots_def fold_u32add is_u32_def)
qed

end
