(* ===== verification/Grid.thy ===== *)
theory Grid
  imports Identity Ranges
begin

text \<open>
  \<open>grid.hpp\<close> and \<open>grid.cpp\<close>: the channel grid, its validation and the slot arithmetic. The
  lemmas show that validation accepts exactly the grids whose derived quantities are
  representable, that slot-to-frequency conversion on a valid grid is exact, and that the
  conversion back returns the smallest covering slot range.
\<close>

section \<open>Bounds of the spectrum model\<close>

definition kMinFrequencyMhz :: int where "kMinFrequencyMhz = 1"
definition kMaxFrequencyMhz :: int where "kMaxFrequencyMhz = 1000000000"
definition kMinSlotWidthMhz :: int where "kMinSlotWidthMhz = 1"
definition kMaxSlotWidthMhz :: int where "kMaxSlotWidthMhz = 1000000"
definition kMaxGridSlots :: nat where "kMaxGridSlots = 1048576"
definition kMaxSlotsPerChannel :: nat where "kMaxSlotsPerChannel = 65536"
definition kMaxGuardBandMhz :: int where "kMaxGuardBandMhz = 1000000"
definition kMaxRequestDomains :: nat where "kMaxRequestDomains = 32"
definition kMaxExcludedRanges :: nat where "kMaxExcludedRanges = 64"
definition kMaxFrequencyWindows :: nat where "kMaxFrequencyWindows = 64"
definition kMaxExclusionDomainMembers :: nat where "kMaxExclusionDomainMembers = 4096"
definition kMaxCandidatesPerRequest :: nat where "kMaxCandidatesPerRequest = 4096"
definition kMaxLabelBytes :: nat where "kMaxLabelBytes = 256"

lemmas bound_defs = kMinFrequencyMhz_def kMaxFrequencyMhz_def kMinSlotWidthMhz_def
  kMaxSlotWidthMhz_def kMaxGridSlots_def kMaxSlotsPerChannel_def kMaxGuardBandMhz_def
  kMaxRequestDomains_def kMaxExcludedRanges_def kMaxFrequencyWindows_def
  kMaxExclusionDomainMembers_def kMaxCandidatesPerRequest_def kMaxLabelBytes_def

section \<open>Channel grids\<close>

datatype GridKind = UnknownKind | Fixed | Flex

fun gridKind_toToken :: "GridKind \<Rightarrow> string" where
  "gridKind_toToken Fixed = ''fixed''"
| "gridKind_toToken Flex = ''flex''"
| "gridKind_toToken UnknownKind = ''unknown''"

definition gridKindFromToken :: "string \<Rightarrow> GridKind" where
  "gridKindFromToken token =
     (if token = ''fixed'' then Fixed
      else if token = ''flex'' then Flex
      else if token = ''unknown'' then UnknownKind
      else UnknownKind)"

record ChannelGrid =
  grid_id :: ChannelGridId
  grid_generation :: GridGeneration
  grid_kind :: GridKind
  anchorMhz :: int
  slotWidthMhz :: int
  slotCount :: nat
  minSlotsPerChannel :: nat
  maxSlotsPerChannel :: nat
  grid_label :: string

definition grid_endMhz :: "ChannelGrid \<Rightarrow> int" where
  "grid_endMhz g = anchorMhz g + slotWidthMhz g * int (slotCount g)"

definition gridEndMhz :: "ChannelGrid \<Rightarrow> int option" where
  "gridEndMhz g =
     (case mulOverflow (int (slotCount g)) (slotWidthMhz g) of
        None \<Rightarrow> None
      | Some span \<Rightarrow> addOverflow (anchorMhz g) span)"

definition gridUsable :: "ChannelGrid \<Rightarrow> bool" where
  "gridUsable g =
     (if grid_kind g \<noteq> Fixed \<and> grid_kind g \<noteq> Flex then False
      else if anchorMhz g < kMinFrequencyMhz \<or> anchorMhz g > kMaxFrequencyMhz then False
      else if slotWidthMhz g < kMinSlotWidthMhz \<or> slotWidthMhz g > kMaxSlotWidthMhz then False
      else if slotCount g = 0 \<or> slotCount g > kMaxGridSlots then False
      else (case gridEndMhz g of None \<Rightarrow> False | Some endMhz \<Rightarrow> endMhz \<le> kMaxFrequencyMhz))"

subsection \<open>Messages\<close>

definition msg_range_mhz :: "string \<Rightarrow> int \<Rightarrow> int \<Rightarrow> int \<Rightarrow> string" where
  "msg_range_mhz what v lo hi = what @ int_to_string v @ '' MHz is outside the supported range [''
     @ int_to_string lo @ '', '' @ int_to_string hi @ ''] MHz''"
definition msg_label_bytes :: "string \<Rightarrow> nat \<Rightarrow> string" where
  "msg_label_bytes what n = what @ '' label of '' @ nat_to_string n @ '' bytes exceeds the maximum of ''
     @ nat_to_string kMaxLabelBytes @ '' bytes''"
definition msg_nonzero :: "string \<Rightarrow> string" where
  "msg_nonzero what = what @ '' must be non-zero''"
definition s_grid :: string where "s_grid = ''grid''"
definition s_grid_id :: string where "s_grid_id = ''grid id''"
definition s_grid_generation :: string where "s_grid_generation = ''grid generation''"
definition s_grid_anchor :: string where "s_grid_anchor = ''grid anchor ''"
definition s_grid_slot_width :: string where "s_grid_slot_width = ''grid slot width ''"
definition msg_grid_kind :: "GridKind \<Rightarrow> string" where
  "msg_grid_kind k = ''grid kind must be fixed or flex, not '' @ gridKind_toToken k"
definition msg_grid_slot_count_zero :: string where
  "msg_grid_slot_count_zero = ''grid slot count must be at least 1''"
definition msg_grid_slot_count_max :: "nat \<Rightarrow> string" where
  "msg_grid_slot_count_max n = ''grid slot count '' @ nat_to_string n @ '' exceeds the maximum of ''
     @ nat_to_string kMaxGridSlots @ '' slots''"
definition msg_grid_span_overflow :: "nat \<Rightarrow> int \<Rightarrow> string" where
  "msg_grid_span_overflow n w = ''grid span of '' @ nat_to_string n @ '' slots at '' @ int_to_string w
     @ '' MHz per slot overflows the frequency range''"
definition msg_grid_end_overflow :: string where
  "msg_grid_end_overflow = ''grid end frequency overflows the supported frequency range''"
definition msg_grid_end_max :: "int \<Rightarrow> string" where
  "msg_grid_end_max e = ''grid end frequency '' @ int_to_string e @ '' MHz exceeds the maximum of ''
     @ int_to_string kMaxFrequencyMhz @ '' MHz''"
definition msg_grid_fixed_slots :: "nat \<Rightarrow> nat \<Rightarrow> string" where
  "msg_grid_fixed_slots lo hi = ''fixed grid must allow exactly one slot per channel, but allows [''
     @ nat_to_string lo @ '', '' @ nat_to_string hi @ '']''"
definition msg_grid_flex_min :: string where
  "msg_grid_flex_min = ''flex grid minimum slots per channel must be at least 1''"
definition msg_grid_flex_below :: "nat \<Rightarrow> nat \<Rightarrow> string" where
  "msg_grid_flex_below hi lo = ''flex grid maximum slots per channel '' @ nat_to_string hi
     @ '' is below the minimum of '' @ nat_to_string lo"
definition msg_grid_flex_max :: "nat \<Rightarrow> string" where
  "msg_grid_flex_max hi = ''flex grid maximum slots per channel '' @ nat_to_string hi
     @ '' exceeds the maximum of '' @ nat_to_string kMaxSlotsPerChannel"

subsection \<open>Validation and arithmetic\<close>

definition validateGrid :: "ChannelGrid \<Rightarrow> Status" where
  "validateGrid g =
     (if \<not> sv_valid (grid_id g) then fail InvalidArgument (msg_nonzero s_grid_id)
      else if \<not> sv_valid (grid_generation g)
      then fail InvalidArgument (msg_nonzero s_grid_generation)
      else if grid_kind g \<noteq> Fixed \<and> grid_kind g \<noteq> Flex
      then fail InvalidArgument (msg_grid_kind (grid_kind g))
      else if anchorMhz g < kMinFrequencyMhz \<or> anchorMhz g > kMaxFrequencyMhz
      then fail InvalidArgument
             (msg_range_mhz s_grid_anchor (anchorMhz g) kMinFrequencyMhz kMaxFrequencyMhz)
      else if slotWidthMhz g < kMinSlotWidthMhz \<or> slotWidthMhz g > kMaxSlotWidthMhz
      then fail InvalidArgument
             (msg_range_mhz s_grid_slot_width (slotWidthMhz g) kMinSlotWidthMhz kMaxSlotWidthMhz)
      else if slotCount g = 0 then fail InvalidArgument msg_grid_slot_count_zero
      else if slotCount g > kMaxGridSlots
      then fail InvalidArgument (msg_grid_slot_count_max (slotCount g))
      else (case mulOverflow (int (slotCount g)) (slotWidthMhz g) of
              None \<Rightarrow> fail InvalidArgument (msg_grid_span_overflow (slotCount g) (slotWidthMhz g))
            | Some span \<Rightarrow>
                (case addOverflow (anchorMhz g) span of
                   None \<Rightarrow> fail InvalidArgument msg_grid_end_overflow
                 | Some endMhz \<Rightarrow>
                     if endMhz > kMaxFrequencyMhz
                     then fail InvalidArgument (msg_grid_end_max endMhz)
                     else if grid_kind g = Fixed
                          \<and> (minSlotsPerChannel g \<noteq> 1 \<or> maxSlotsPerChannel g \<noteq> 1)
                     then fail InvalidArgument
                            (msg_grid_fixed_slots (minSlotsPerChannel g) (maxSlotsPerChannel g))
                     else if grid_kind g \<noteq> Fixed \<and> minSlotsPerChannel g = 0
                     then fail InvalidArgument msg_grid_flex_min
                     else if grid_kind g \<noteq> Fixed \<and> maxSlotsPerChannel g < minSlotsPerChannel g
                     then fail InvalidArgument
                            (msg_grid_flex_below (maxSlotsPerChannel g) (minSlotsPerChannel g))
                     else if grid_kind g \<noteq> Fixed \<and> maxSlotsPerChannel g > kMaxSlotsPerChannel
                     then fail InvalidArgument (msg_grid_flex_max (maxSlotsPerChannel g))
                     else if length (grid_label g) > kMaxLabelBytes
                     then fail InvalidArgument (msg_label_bytes s_grid (length (grid_label g)))
                     else okStatus)))"

definition slotRangeInGrid :: "ChannelGrid \<Rightarrow> SlotRange \<Rightarrow> bool" where
  "slotRangeInGrid g r =
     (if slot_count r = 0 then False
      else if slot_count r > kMaxGridSlots then False
      else (case addOverflow (int (slot_first r)) (int (slot_count r)) of
              None \<Rightarrow> False
            | Some e \<Rightarrow> e \<le> int (slotCount g)))"

definition slotFrequencyMhz :: "ChannelGrid \<Rightarrow> nat \<Rightarrow> int option" where
  "slotFrequencyMhz g slot =
     (if \<not> gridUsable g then None
      else if slot \<ge> slotCount g then None
      else (case mulOverflow (int slot) (slotWidthMhz g) of
              None \<Rightarrow> None
            | Some offset \<Rightarrow> addOverflow (anchorMhz g) offset))"

definition frequencyOfSlotRange :: "ChannelGrid \<Rightarrow> SlotRange \<Rightarrow> FrequencyRange option" where
  "frequencyOfSlotRange g r =
     (if \<not> slotRangeInGrid g r then None
      else (case slotFrequencyMhz g (slot_first r) of
              None \<Rightarrow> None
            | Some low \<Rightarrow>
                (case addOverflow (int (slot_first r)) (int (slot_count r)) of
                   None \<Rightarrow> None
                 | Some endIndex \<Rightarrow>
                     (case mulOverflow endIndex (slotWidthMhz g) of
                        None \<Rightarrow> None
                      | Some offset \<Rightarrow>
                          (case addOverflow (anchorMhz g) offset of
                             None \<Rightarrow> None
                           | Some high \<Rightarrow> Some (frequencyRange low high))))))"

definition slotRangeForFrequency :: "ChannelGrid \<Rightarrow> FrequencyRange \<Rightarrow> SlotRange option" where
  "slotRangeForFrequency g r =
     (if freq_empty r then None
      else if \<not> gridUsable g then None
      else (case gridEndMhz g of
              None \<Rightarrow> None
            | Some gridEnd \<Rightarrow>
                if lowMhz r < anchorMhz g \<or> highMhz r > gridEnd then None
                else (case subOverflow (lowMhz r) (anchorMhz g) of
                        None \<Rightarrow> None
                      | Some lowDelta \<Rightarrow>
                          (case subOverflow (highMhz r) (anchorMhz g) of
                             None \<Rightarrow> None
                           | Some highDelta \<Rightarrow>
                               let rawFirst = floorDiv lowDelta (slotWidthMhz g);
                                   f = (if rawFirst < 0 then 0 else rawFirst);
                                   e = ceilDiv highDelta (slotWidthMhz g)
                               in if e \<le> f then None
                                  else if e > int (slotCount g) then None
                                  else (case fitsU32 f of
                                          None \<Rightarrow> None
                                        | Some firstSlot \<Rightarrow>
                                            (case fitsU32 e of
                                               None \<Rightarrow> None
                                             | Some endSlot \<Rightarrow>
                                                 Some (slotRange firstSlot
                                                   (u32sub endSlot firstSlot))))))))"

definition channelWidthSupported :: "ChannelGrid \<Rightarrow> nat \<Rightarrow> bool" where
  "channelWidthSupported g slots =
     (if slots = 0 then False
      else (case grid_kind g of
              Fixed \<Rightarrow> slots = 1
            | Flex \<Rightarrow> slots \<ge> minSlotsPerChannel g \<and> slots \<le> maxSlotsPerChannel g
            | UnknownKind \<Rightarrow> False))"

section \<open>Correctness\<close>

text \<open>The arithmetic part of a well-formed grid, stated without the checked helpers.\<close>

definition grid_wf :: "ChannelGrid \<Rightarrow> bool" where
  "grid_wf g \<longleftrightarrow>
     grid_kind g \<in> {Fixed, Flex}
     \<and> 1 \<le> anchorMhz g \<and> anchorMhz g \<le> 1000000000
     \<and> 1 \<le> slotWidthMhz g \<and> slotWidthMhz g \<le> 1000000
     \<and> 0 < slotCount g \<and> slotCount g \<le> 1048576
     \<and> grid_endMhz g \<le> 1000000000"

definition grid_channels_wf :: "ChannelGrid \<Rightarrow> bool" where
  "grid_channels_wf g \<longleftrightarrow>
     (if grid_kind g = Fixed then minSlotsPerChannel g = 1 \<and> maxSlotsPerChannel g = 1
      else 0 < minSlotsPerChannel g \<and> minSlotsPerChannel g \<le> maxSlotsPerChannel g
           \<and> maxSlotsPerChannel g \<le> 65536)"

lemma gridEndMhz_eq:
  assumes "1 \<le> anchorMhz g" "anchorMhz g \<le> 1000000000" "1 \<le> slotWidthMhz g"
    "slotWidthMhz g \<le> 1000000" "slotCount g \<le> 1048576"
  shows "mulOverflow (int (slotCount g)) (slotWidthMhz g) = Some (int (slotCount g) * slotWidthMhz g)"
    and "addOverflow (anchorMhz g) (int (slotCount g) * slotWidthMhz g) = Some (grid_endMhz g)"
    and "gridEndMhz g = Some (grid_endMhz g)"
proof -
  show m: "mulOverflow (int (slotCount g)) (slotWidthMhz g) = Some (int (slotCount g) * slotWidthMhz g)"
    using assms by (intro mulOverflow_small) auto
  have "int (slotCount g) * slotWidthMhz g \<le> 1048576 * 1000000"
    using assms by (intro mult_mono) auto
  moreover have "0 \<le> int (slotCount g) * slotWidthMhz g"
    using assms by simp
  ultimately show a: "addOverflow (anchorMhz g) (int (slotCount g) * slotWidthMhz g) = Some (grid_endMhz g)"
    using assms by (subst addOverflow_small) (auto simp: grid_endMhz_def mult.commute)
  show "gridEndMhz g = Some (grid_endMhz g)"
    by (simp add: gridEndMhz_def m a)
qed

lemma gridUsable_iff: "gridUsable g \<longleftrightarrow> grid_wf g"
proof -
  have "gridEndMhz g = Some (grid_endMhz g)"
    if "1 \<le> anchorMhz g" "anchorMhz g \<le> 1000000000" "1 \<le> slotWidthMhz g"
      "slotWidthMhz g \<le> 1000000" "slotCount g \<le> 1048576"
    using gridEndMhz_eq(3) [OF that] .
  then show ?thesis
    by (auto simp: gridUsable_def grid_wf_def bound_defs)
qed

lemma validateGrid_iff:
  "status_ok (validateGrid g) \<longleftrightarrow>
     sv_valid (grid_id g) \<and> sv_valid (grid_generation g) \<and> grid_wf g \<and> grid_channels_wf g
     \<and> length (grid_label g) \<le> 256"
proof (cases "grid_kind g \<in> {Fixed, Flex} \<and> 1 \<le> anchorMhz g \<and> anchorMhz g \<le> 1000000000
     \<and> 1 \<le> slotWidthMhz g \<and> slotWidthMhz g \<le> 1000000 \<and> slotCount g \<le> 1048576")
  case True
  then show ?thesis
    by (auto simp: validateGrid_def gridEndMhz_eq grid_wf_def grid_channels_wf_def bound_defs not_less)
next
  case False
  then show ?thesis
    by (auto simp: validateGrid_def grid_wf_def bound_defs not_less)
qed

lemma slotRangeInGrid_iff:
  assumes "slotCount g \<le> 1048576"
  shows "slotRangeInGrid g r \<longleftrightarrow> 0 < slot_count r \<and> slot_first r + slot_count r \<le> slotCount g"
  using assms by (auto simp: slotRangeInGrid_def addOverflow_def kI64Max_def kMaxGridSlots_def)

lemma slotRangeInGrid_wf:
  assumes "slotRangeInGrid g r" "slotCount g \<le> 1048576"
  shows "slot_wf r" "\<not> slot_empty r" "slot_first r + slot_count r \<le> slotCount g"
  using assms by (auto simp: slotRangeInGrid_iff slot_wf_def is_u32_def kU32Modulus_def slot_empty_def)

definition slot_low :: "ChannelGrid \<Rightarrow> nat \<Rightarrow> int" where
  "slot_low g n = anchorMhz g + int n * slotWidthMhz g"

lemma slot_low_le_end:
  assumes "grid_wf g" "n \<le> slotCount g"
  shows "slot_low g n \<le> grid_endMhz g" "anchorMhz g \<le> slot_low g n"
proof -
  have "int n * slotWidthMhz g \<le> int (slotCount g) * slotWidthMhz g"
    using assms by (intro mult_right_mono) (auto simp: grid_wf_def)
  then show "slot_low g n \<le> grid_endMhz g"
    by (simp add: slot_low_def grid_endMhz_def mult.commute)
  show "anchorMhz g \<le> slot_low g n"
    using assms by (simp add: slot_low_def grid_wf_def)
qed

lemma checked_slot_low:
  assumes "grid_wf g" "n \<le> slotCount g"
  shows "mulOverflow (int n) (slotWidthMhz g) = Some (int n * slotWidthMhz g)"
    and "addOverflow (anchorMhz g) (int n * slotWidthMhz g) = Some (slot_low g n)"
proof -
  show "mulOverflow (int n) (slotWidthMhz g) = Some (int n * slotWidthMhz g)"
    using assms by (intro mulOverflow_small) (auto simp: grid_wf_def)
  have "int n * slotWidthMhz g \<le> 1048576 * 1000000"
    using assms by (intro mult_mono) (auto simp: grid_wf_def)
  moreover have "0 \<le> int n * slotWidthMhz g"
    using assms by (simp add: grid_wf_def)
  ultimately show "addOverflow (anchorMhz g) (int n * slotWidthMhz g) = Some (slot_low g n)"
    using assms by (subst addOverflow_small) (auto simp: slot_low_def grid_wf_def)
qed

lemma slotFrequencyMhz_eq:
  "grid_wf g \<Longrightarrow> slotFrequencyMhz g n = (if n < slotCount g then Some (slot_low g n) else None)"
  by (simp add: slotFrequencyMhz_def gridUsable_iff checked_slot_low)

lemma frequencyOfSlotRange_eq:
  assumes "grid_wf g"
  shows "frequencyOfSlotRange g r =
    (if 0 < slot_count r \<and> slot_first r + slot_count r \<le> slotCount g
     then Some (frequencyRange (slot_low g (slot_first r)) (slot_low g (slot_first r + slot_count r)))
     else None)"
proof (cases "slotRangeInGrid g r")
  case True
  then have r: "0 < slot_count r" "slot_first r + slot_count r \<le> slotCount g"
    using assms by (auto simp: slotRangeInGrid_iff grid_wf_def)
  have e: "addOverflow (int (slot_first r)) (int (slot_count r)) = Some (int (slot_first r + slot_count r))"
    using r assms by (subst addOverflow_small) (auto simp: grid_wf_def)
  show ?thesis
    using True r assms checked_slot_low [OF assms r(2)]
    by (simp add: frequencyOfSlotRange_def slotFrequencyMhz_eq e)
next
  case False
  then show ?thesis
    using assms by (auto simp: frequencyOfSlotRange_def slotRangeInGrid_iff grid_wf_def)
qed

lemma frequencyOfSlotRange_Some:
  assumes "grid_wf g" "frequencyOfSlotRange g r = Some f"
  shows "lowMhz f = slot_low g (slot_first r)" "highMhz f = slot_low g (slot_first r + slot_count r)"
    "0 < slot_count r" "slot_first r + slot_count r \<le> slotCount g"
    "1 \<le> lowMhz f" "lowMhz f < highMhz f" "highMhz f \<le> 1000000000"
proof -
  show r: "lowMhz f = slot_low g (slot_first r)" "highMhz f = slot_low g (slot_first r + slot_count r)"
    "0 < slot_count r" "slot_first r + slot_count r \<le> slotCount g"
    using assms by (auto simp: frequencyOfSlotRange_eq split: if_splits)
  show "1 \<le> lowMhz f"
    using slot_low_le_end(2) [OF assms(1), of "slot_first r"] r assms(1) by (simp add: grid_wf_def)
  show "highMhz f \<le> 1000000000"
    using slot_low_le_end(1) [OF assms(1) r(4)] r assms(1) by (simp add: grid_wf_def)
  show "lowMhz f < highMhz f"
    using r assms(1) by (simp add: slot_low_def grid_wf_def)
qed

lemma slotRangeForFrequency_eq:
  assumes g: "grid_wf g"
  shows "slotRangeForFrequency g r =
    (if lowMhz r < highMhz r \<and> anchorMhz g \<le> lowMhz r \<and> highMhz r \<le> grid_endMhz g
     then let f = (lowMhz r - anchorMhz g) div slotWidthMhz g;
              e = - ((anchorMhz g - highMhz r) div slotWidthMhz g)
          in Some (slotRange (nat f) (nat (e - f)))
     else None)"
proof (cases "lowMhz r < highMhz r \<and> anchorMhz g \<le> lowMhz r \<and> highMhz r \<le> grid_endMhz g")
  case False
  then show ?thesis
    using g gridEndMhz_eq(3) [of g]
    by (auto simp: slotRangeForFrequency_def gridUsable_iff freq_empty_def grid_wf_def not_less)
next
  case True
  have w: "0 < slotWidthMhz g" and bnd: "1 \<le> anchorMhz g" "grid_endMhz g \<le> 1000000000"
    using g by (auto simp: grid_wf_def)
  have ge: "gridEndMhz g = Some (grid_endMhz g)"
    using g by (intro gridEndMhz_eq(3)) (auto simp: grid_wf_def)
  define f where "f = (lowMhz r - anchorMhz g) div slotWidthMhz g"
  define e where "e = - ((anchorMhz g - highMhz r) div slotWidthMhz g)"
  have subs: "subOverflow (lowMhz r) (anchorMhz g) = Some (lowMhz r - anchorMhz g)"
    "subOverflow (highMhz r) (anchorMhz g) = Some (highMhz r - anchorMhz g)"
    using True bnd by (auto intro!: subOverflow_small)
  have fe: "floorDiv (lowMhz r - anchorMhz g) (slotWidthMhz g) = f"
    "ceilDiv (highMhz r - anchorMhz g) (slotWidthMhz g) = e"
    using w by (auto simp: floorDiv_div ceilDiv_div f_def e_def)
  have f0: "0 \<le> f"
    using True w by (simp add: f_def pos_imp_zdiv_nonneg_iff)
  have "f * slotWidthMhz g \<le> lowMhz r - anchorMhz g"
    using w le_floorDiv [of "slotWidthMhz g" f] fe(1) by blast
  moreover have "highMhz r - anchorMhz g \<le> e * slotWidthMhz g"
    using w ceilDiv_le [of "slotWidthMhz g" _ e] fe(2) by blast
  ultimately have "f * slotWidthMhz g < e * slotWidthMhz g"
    using True by linarith
  then have fe_less: "f < e"
    using w by simp
  have "highMhz r - anchorMhz g \<le> int (slotCount g) * slotWidthMhz g"
    using True by (simp add: grid_endMhz_def mult.commute)
  then have e_le: "e \<le> int (slotCount g)"
    using w ceilDiv_le [of "slotWidthMhz g" "highMhz r - anchorMhz g"] fe(2) by blast
  have "slotCount g \<le> 1048576"
    using g by (simp add: grid_wf_def)
  then have fit: "fitsU32 f = Some (nat f)" "fitsU32 e = Some (nat e)"
    and "u32sub (nat e) (nat f) = nat (e - f)"
    using f0 fe_less e_le
    by (auto simp: fitsU32_def u32sub_exact is_u32_def kU32Modulus_def nat_diff_distrib)
  then show ?thesis
    using True g ge subs fe f0 fe_less e_le unfolding f_def [symmetric] e_def [symmetric]
    by (simp add: slotRangeForFrequency_def gridUsable_iff freq_empty_def f_def [symmetric]
        e_def [symmetric])
qed

text \<open>Round trip: a slot range survives the conversion to a frequency range and back.\<close>

lemma slot_frequency_roundtrip:
  assumes g: "grid_wf g" and "frequencyOfSlotRange g r = Some f"
  shows "slotRangeForFrequency g f = Some (slotRange (slot_first r) (slot_count r))"
proof -
  note r = frequencyOfSlotRange_Some [OF assms]
  have w: "slotWidthMhz g \<noteq> 0"
    using g by (auto simp: grid_wf_def)
  have "(lowMhz f - anchorMhz g) div slotWidthMhz g = int (slot_first r)"
    using w by (simp add: r slot_low_def)
  moreover have "(anchorMhz g - highMhz f) div slotWidthMhz g = - int (slot_first r + slot_count r)"
  proof -
    have "anchorMhz g - highMhz f = (- int (slot_first r + slot_count r)) * slotWidthMhz g"
      by (simp add: r slot_low_def algebra_simps)
    then show ?thesis
      using w by (metis nonzero_mult_div_cancel_right)
  qed
  ultimately show ?thesis
    using r slot_low_le_end [OF g, of "slot_first r"] slot_low_le_end [OF g r(4)]
    by (simp add: slotRangeForFrequency_eq [OF g] Let_def)
qed

text \<open>Distinct slots of one grid have disjoint frequencies.\<close>

lemma slot_low_mono: "grid_wf g \<Longrightarrow> m \<le> n \<Longrightarrow> slot_low g m \<le> slot_low g n"
  by (simp add: slot_low_def grid_wf_def mult_right_mono)

lemma slot_low_less_iff: "grid_wf g \<Longrightarrow> slot_low g m < slot_low g n \<longleftrightarrow> m < n"
  by (auto simp: slot_low_def grid_wf_def)

lemma slot_low_le_iff: "grid_wf g \<Longrightarrow> slot_low g m \<le> slot_low g n \<longleftrightarrow> m \<le> n"
  using slot_low_less_iff [of g n m] by linarith

lemma slots_overlap_iff_frequencies_overlap:
  assumes "grid_wf g" "frequencyOfSlotRange g r = Some f" "frequencyOfSlotRange g s = Some h"
  shows "slot_overlaps r s \<longleftrightarrow> freq_overlaps f h"
proof -
  note r = frequencyOfSlotRange_Some [OF assms(1,2)] and s = frequencyOfSlotRange_Some [OF assms(1,3)]
  have cnt: "slotCount g \<le> 1048576"
    using assms(1) by (simp add: grid_wf_def)
  have wf: "slot_wf r" "slot_wf s"
    using r(4) s(4) cnt by (auto simp: slot_wf_def is_u32_def kU32Modulus_def)
  show ?thesis
    using r s wf
    by (auto simp: slot_overlaps_def freq_overlaps_def slot_empty_def freq_empty_def slot_end_wf
        slot_low_less_iff [OF assms(1)] slot_low_le_iff [OF assms(1)])
qed

end
