(* ===== verification/Tokens.thy ===== *)
theory Tokens
  imports Identity
begin

text \<open>
  The token tables of \<open>model.cpp\<close>: each enum has one table of (value, token) entries that both
  directions read. The locale \<open>token_table\<close> is the contract of such a table (every value has an
  entry, no two entries share a value or a token); its lemmas give the round trips and the
  fallback for an unknown token.
\<close>

fun tokenOf :: "'e \<Rightarrow> ('e \<times> string) list \<Rightarrow> string \<Rightarrow> string" where
  "tokenOf v [] fallback = fallback"
| "tokenOf v (e # table) fallback = (if fst e = v then snd e else tokenOf v table fallback)"

fun valueOf :: "string \<Rightarrow> ('e \<times> string) list \<Rightarrow> 'e \<Rightarrow> 'e" where
  "valueOf token [] fallback = fallback"
| "valueOf token (e # table) fallback =
     (if snd e = token then fst e else valueOf token table fallback)"

lemma tokenOf_mem: "v \<in> fst ` set table \<Longrightarrow> (v, tokenOf v table fb) \<in> set table"
  by (induction table) auto

lemma valueOf_mem: "token \<in> snd ` set table \<Longrightarrow> (valueOf token table fb, token) \<in> set table"
  by (induction table) auto

lemma valueOf_unknown: "token \<notin> snd ` set table \<Longrightarrow> valueOf token table fb = fb"
  by (induction table) auto

locale token_table =
  fixes table :: "('e \<times> string) list"
  assumes complete: "v \<in> fst ` set table"
    and distinct_values: "distinct (map fst table)"
    and distinct_tokens: "distinct (map snd table)"
begin

lemma token_unique: "(v, t) \<in> set table \<Longrightarrow> (w, t) \<in> set table \<Longrightarrow> v = w"
  using distinct_tokens unfolding distinct_map by (metis inj_onD prod.inject snd_conv)

lemma value_unique: "(v, t) \<in> set table \<Longrightarrow> (v, u) \<in> set table \<Longrightarrow> t = u"
  by (rule eq_key_imp_eq_value [OF distinct_values])

lemma value_of_token: "valueOf (tokenOf v table fb) table fbv = v"
proof -
  have mem: "(v, tokenOf v table fb) \<in> set table"
    by (rule tokenOf_mem) (rule complete)
  then have "tokenOf v table fb \<in> snd ` set table"
    by (metis image_eqI snd_conv)
  from valueOf_mem [OF this] mem show ?thesis
    by (rule token_unique)
qed

lemma token_of_value:
  assumes "t \<in> snd ` set table"
  shows "tokenOf (valueOf t table fbv) table fb = t"
  by (rule value_unique [OF tokenOf_mem [OF complete] valueOf_mem [OF assms]])

lemma token_inj: "tokenOf v table fb = tokenOf w table fb \<Longrightarrow> v = w"
  using value_of_token by metis

end

section \<open>Status codes\<close>

definition kStatusCodeTokens :: "(StatusCode \<times> string) list" where
  "kStatusCodeTokens =
     [(Ok, ''ok''), (InvalidArgument, ''invalid-argument''), (NotFound, ''not-found''),
      (Duplicate, ''duplicate''), (LimitExceeded, ''limit-exceeded''),
      (Unsupported, ''unsupported''), (Unknown, ''unknown''),
      (StaleGeneration, ''stale-generation''), (StaleIncarnation, ''stale-incarnation''),
      (StaleEpoch, ''stale-epoch''), (StaleAuthority, ''stale-authority''),
      (IllegalTransition, ''illegal-transition''), (Conflict, ''conflict''),
      (Excluded, ''excluded''), (PersistenceFailure, ''persistence-failure''),
      (Corruption, ''corruption''), (IoError, ''io-error''), (NotPermitted, ''not-permitted''),
      (Overflow, ''overflow''), (Refused, ''refused''), (Unavailable, ''unavailable'')]"

definition statusCode_toToken :: "StatusCode \<Rightarrow> string" where
  "statusCode_toToken c = tokenOf c kStatusCodeTokens ''unknown''"

definition statusCodeFromToken :: "string \<Rightarrow> StatusCode" where
  "statusCodeFromToken t = valueOf t kStatusCodeTokens Unknown"

interpretation status_tokens: token_table kStatusCodeTokens
proof
  fix v :: StatusCode
  show "v \<in> fst ` set kStatusCodeTokens"
    by (cases v) (simp_all add: kStatusCodeTokens_def)
  show "distinct (map fst kStatusCodeTokens)"
    by (simp add: kStatusCodeTokens_def)
  show "distinct (map snd kStatusCodeTokens)"
    by (simp add: kStatusCodeTokens_def)
qed

end
