(* ===== verification/Resource.thy ===== *)
theory Resource
  imports Grid Tokens
begin

text \<open>
  \<open>resource.hpp\<close> and the resource part of \<open>model.cpp\<close>: spans, ports, spectrum domains and
  exclusion domains, their structural validation and the membership search. The lemmas show what
  validation guarantees and that the binary search of \<open>exclusionDomainContains\<close> is membership on
  every list that validation accepts.
\<close>

section \<open>Resource classes\<close>

datatype ResourceClass =
  UnknownClass | FiberSpan | MediaChannel | OpticalPortClass | AmplifierBand | AbstractDomain

definition kResourceClassTokens :: "(ResourceClass \<times> string) list" where
  "kResourceClassTokens =
     [(UnknownClass, ''unknown''), (FiberSpan, ''fiber-span''), (MediaChannel, ''media-channel''),
      (OpticalPortClass, ''optical-port''), (AmplifierBand, ''amplifier-band''),
      (AbstractDomain, ''abstract-domain'')]"

definition resourceClass_toToken :: "ResourceClass \<Rightarrow> string" where
  "resourceClass_toToken c = tokenOf c kResourceClassTokens ''unknown''"

definition resourceClassFromToken :: "string \<Rightarrow> ResourceClass" where
  "resourceClassFromToken t = valueOf t kResourceClassTokens UnknownClass"

interpretation class_tokens: token_table kResourceClassTokens
proof
  fix v :: ResourceClass
  show "v \<in> fst ` set kResourceClassTokens"
    by (cases v) (simp_all add: kResourceClassTokens_def)
  show "distinct (map fst kResourceClassTokens)"
    by (simp add: kResourceClassTokens_def)
  show "distinct (map snd kResourceClassTokens)"
    by (simp add: kResourceClassTokens_def)
qed

section \<open>Records\<close>

record Span =
  span_id :: SpanId
  span_generation :: SpanGeneration
  span_label :: string

record OpticalPort =
  port_id :: PortId
  port_generation :: PortGeneration
  port_label :: string

record SpectrumDomain =
  dom_id :: SpectrumDomainId
  dom_generation :: SpectrumDomainGeneration
  dom_klass :: ResourceClass
  dom_grid :: ChannelGridId
  dom_gridGeneration :: GridGeneration
  dom_span :: SpanId
  dom_spanGeneration :: SpanGeneration
  dom_portA :: PortId
  dom_portAGeneration :: PortGeneration
  dom_portB :: PortId
  dom_portBGeneration :: PortGeneration
  dom_requiresContiguity :: bool
  dom_label :: string

record ExclusionDomain =
  exc_id :: ExclusionDomainId
  exc_generation :: ExclusionDomainGeneration
  exc_label :: string
  exc_members :: "SpectrumDomainId list"
  exc_guardBandMhz :: int

section \<open>Validation\<close>

definition s_span_id :: string where "s_span_id = ''span id''"
definition s_span_generation :: string where "s_span_generation = ''span generation''"
definition s_span :: string where "s_span = ''span''"
definition s_port_id :: string where "s_port_id = ''port id''"
definition s_port_generation :: string where "s_port_generation = ''port generation''"
definition s_port :: string where "s_port = ''port''"
definition s_domain_id :: string where "s_domain_id = ''domain id''"
definition s_domain_generation :: string where "s_domain_generation = ''domain generation''"
definition s_domain_grid_id :: string where "s_domain_grid_id = ''domain grid id''"
definition s_domain_grid_generation :: string where
  "s_domain_grid_generation = ''domain grid generation''"
definition s_domain :: string where "s_domain = ''domain''"
definition s_exclusion_id :: string where "s_exclusion_id = ''exclusion domain id''"
definition s_exclusion_generation :: string where
  "s_exclusion_generation = ''exclusion domain generation''"
definition s_exclusion :: string where "s_exclusion = ''exclusion domain''"
definition msg_domain_class :: string where
  "msg_domain_class = ''domain resource class must be known''"
definition msg_domain_span :: "SpanId \<Rightarrow> string" where
  "msg_domain_span s = ''domain references span '' @ raw_to_string s @ '' without a span generation''"
definition msg_domain_port_a :: "PortId \<Rightarrow> string" where
  "msg_domain_port_a p = ''domain references port '' @ raw_to_string p
     @ '' as endpoint A without a port generation''"
definition msg_domain_port_b :: "PortId \<Rightarrow> string" where
  "msg_domain_port_b p = ''domain references port '' @ raw_to_string p
     @ '' as endpoint B without a port generation''"
definition msg_domain_ports :: "PortId \<Rightarrow> string" where
  "msg_domain_ports p = ''domain endpoints must differ, but both are port '' @ raw_to_string p"
definition msg_exclusion_empty :: string where
  "msg_exclusion_empty = ''exclusion domain must name at least one member domain''"
definition msg_exclusion_members :: "nat \<Rightarrow> string" where
  "msg_exclusion_members n = ''exclusion domain member count '' @ nat_to_string n
     @ '' exceeds the maximum of '' @ nat_to_string kMaxExclusionDomainMembers"
definition msg_exclusion_order :: "nat \<Rightarrow> string" where
  "msg_exclusion_order i = ''exclusion domain members must be strictly ascending, but member ''
     @ nat_to_string i @ '' is not greater than member '' @ nat_to_string (i - 1)"
definition msg_exclusion_member :: "nat \<Rightarrow> string" where
  "msg_exclusion_member i = ''exclusion domain member '' @ nat_to_string i
     @ '' must be a non-zero domain id''"
definition msg_exclusion_guard :: "int \<Rightarrow> string" where
  "msg_exclusion_guard g = ''exclusion domain guard band '' @ int_to_string g
     @ '' MHz is outside [0, '' @ int_to_string kMaxGuardBandMhz @ ''] MHz''"

definition validateSpan :: "Span \<Rightarrow> Status" where
  "validateSpan s =
     (if \<not> sv_valid (span_id s) then fail InvalidArgument (msg_nonzero s_span_id)
      else if \<not> sv_valid (span_generation s)
      then fail InvalidArgument (msg_nonzero s_span_generation)
      else if length (span_label s) > kMaxLabelBytes
      then fail InvalidArgument (msg_label_bytes s_span (length (span_label s)))
      else okStatus)"

definition validatePort :: "OpticalPort \<Rightarrow> Status" where
  "validatePort p =
     (if \<not> sv_valid (port_id p) then fail InvalidArgument (msg_nonzero s_port_id)
      else if \<not> sv_valid (port_generation p)
      then fail InvalidArgument (msg_nonzero s_port_generation)
      else if length (port_label p) > kMaxLabelBytes
      then fail InvalidArgument (msg_label_bytes s_port (length (port_label p)))
      else okStatus)"

definition validateDomain :: "SpectrumDomain \<Rightarrow> Status" where
  "validateDomain d =
     (if \<not> sv_valid (dom_id d) then fail InvalidArgument (msg_nonzero s_domain_id)
      else if \<not> sv_valid (dom_generation d)
      then fail InvalidArgument (msg_nonzero s_domain_generation)
      else if dom_klass d = UnknownClass then fail InvalidArgument msg_domain_class
      else if \<not> sv_valid (dom_grid d) then fail InvalidArgument (msg_nonzero s_domain_grid_id)
      else if \<not> sv_valid (dom_gridGeneration d)
      then fail InvalidArgument (msg_nonzero s_domain_grid_generation)
      else if length (dom_label d) > kMaxLabelBytes
      then fail InvalidArgument (msg_label_bytes s_domain (length (dom_label d)))
      else if sv_valid (dom_span d) \<and> \<not> sv_valid (dom_spanGeneration d)
      then fail InvalidArgument (msg_domain_span (dom_span d))
      else if sv_valid (dom_portA d) \<and> \<not> sv_valid (dom_portAGeneration d)
      then fail InvalidArgument (msg_domain_port_a (dom_portA d))
      else if sv_valid (dom_portB d) \<and> \<not> sv_valid (dom_portBGeneration d)
      then fail InvalidArgument (msg_domain_port_b (dom_portB d))
      else if sv_valid (dom_portA d) \<and> sv_valid (dom_portB d) \<and> dom_portA d = dom_portB d
      then fail InvalidArgument (msg_domain_ports (dom_portA d))
      else okStatus)"

text \<open>The two loops over the members: the index of the first offender, if any.\<close>

fun first_not_ascending :: "nat \<Rightarrow> 'a::linorder list \<Rightarrow> nat option" where
  "first_not_ascending i (a # b # xs) =
     (if \<not> a < b then Some i else first_not_ascending (Suc i) (b # xs))"
| "first_not_ascending i xs = None"

fun first_invalid :: "nat \<Rightarrow> 'tag StrongValue list \<Rightarrow> nat option" where
  "first_invalid i [] = None"
| "first_invalid i (x # xs) = (if \<not> sv_valid x then Some i else first_invalid (Suc i) xs)"

definition validateExclusionDomain :: "ExclusionDomain \<Rightarrow> Status" where
  "validateExclusionDomain d =
     (if \<not> sv_valid (exc_id d) then fail InvalidArgument (msg_nonzero s_exclusion_id)
      else if \<not> sv_valid (exc_generation d)
      then fail InvalidArgument (msg_nonzero s_exclusion_generation)
      else if exc_members d = [] then fail InvalidArgument msg_exclusion_empty
      else if length (exc_members d) > kMaxExclusionDomainMembers
      then fail InvalidArgument (msg_exclusion_members (length (exc_members d)))
      else (case first_not_ascending 1 (exc_members d) of
        Some i \<Rightarrow> fail InvalidArgument (msg_exclusion_order i)
      | None \<Rightarrow> (case first_invalid 0 (exc_members d) of
          Some i \<Rightarrow> fail InvalidArgument (msg_exclusion_member i)
        | None \<Rightarrow>
            if exc_guardBandMhz d < 0 \<or> exc_guardBandMhz d > kMaxGuardBandMhz
            then fail InvalidArgument (msg_exclusion_guard (exc_guardBandMhz d))
            else if length (exc_label d) > kMaxLabelBytes
            then fail InvalidArgument (msg_label_bytes s_exclusion (length (exc_label d)))
            else okStatus)))"

section \<open>Membership search\<close>

text \<open>The half-open window \<open>[low, high)\<close> shrinks on every step.\<close>

function search_member :: "'a::linorder list \<Rightarrow> 'a \<Rightarrow> nat \<Rightarrow> nat \<Rightarrow> bool" where
  "search_member ms member low high =
     (if low < high
      then (let mid = low + (high - low) div 2; probe = ms ! mid
            in if probe = member then True
               else if probe < member then search_member ms member (mid + 1) high
               else search_member ms member low mid)
      else False)"
  by pat_completeness auto
termination
  by (relation "measure (\<lambda>(ms, member, low, high). high - low)") auto

declare search_member.simps [simp del]

definition exclusionDomainContains :: "ExclusionDomain \<Rightarrow> SpectrumDomainId \<Rightarrow> bool" where
  "exclusionDomainContains d member =
     search_member (exc_members d) member 0 (length (exc_members d))"

section \<open>What validation establishes\<close>

lemma first_not_ascending_None: "first_not_ascending i xs = None \<longleftrightarrow> sorted_wrt (<) xs"
proof (induction i xs rule: first_not_ascending.induct)
  case (1 i a b xs)
  then show ?case
    by (auto intro: less_trans)
qed auto

lemma first_invalid_None: "first_invalid i xs = None \<longleftrightarrow> (\<forall>x \<in> set xs. sv_valid x)"
  by (induction i xs rule: first_invalid.induct) auto

lemma validateSpan_iff:
  "status_ok (validateSpan s) \<longleftrightarrow>
     sv_valid (span_id s) \<and> sv_valid (span_generation s) \<and> length (span_label s) \<le> kMaxLabelBytes"
  by (simp add: validateSpan_def not_less)

lemma validatePort_iff:
  "status_ok (validatePort s) \<longleftrightarrow>
     sv_valid (port_id s) \<and> sv_valid (port_generation s) \<and> length (port_label s) \<le> kMaxLabelBytes"
  by (simp add: validatePort_def not_less)

lemma validateDomain_ok:
  assumes "status_ok (validateDomain d)"
  shows "sv_valid (dom_id d)" "sv_valid (dom_generation d)" "dom_klass d \<noteq> UnknownClass"
    "sv_valid (dom_grid d)" "sv_valid (dom_gridGeneration d)"
    "sv_valid (dom_span d) \<Longrightarrow> sv_valid (dom_spanGeneration d)"
    "sv_valid (dom_portA d) \<Longrightarrow> sv_valid (dom_portAGeneration d)"
    "sv_valid (dom_portB d) \<Longrightarrow> sv_valid (dom_portBGeneration d)"
  using assms by (auto simp: validateDomain_def split: if_splits)

definition exclusion_wf :: "ExclusionDomain \<Rightarrow> bool" where
  "exclusion_wf d \<longleftrightarrow>
     sv_valid (exc_id d) \<and> sv_valid (exc_generation d) \<and> exc_members d \<noteq> []
     \<and> length (exc_members d) \<le> kMaxExclusionDomainMembers \<and> sorted_wrt (<) (exc_members d)
     \<and> (\<forall>m \<in> set (exc_members d). sv_valid m)
     \<and> 0 \<le> exc_guardBandMhz d \<and> exc_guardBandMhz d \<le> kMaxGuardBandMhz
     \<and> length (exc_label d) \<le> kMaxLabelBytes"

lemma validateExclusionDomain_iff: "status_ok (validateExclusionDomain d) \<longleftrightarrow> exclusion_wf d"
  by (cases "first_not_ascending 1 (exc_members d)"; cases "first_invalid 0 (exc_members d)")
    (auto simp: validateExclusionDomain_def exclusion_wf_def not_less
      first_not_ascending_None [symmetric, of _ 1] first_invalid_None [symmetric, of _ 0])

lemma search_member_iff:
  assumes "sorted_wrt (<) ms" and "high \<le> length ms"
  shows "search_member ms member low high \<longleftrightarrow> (\<exists>i. low \<le> i \<and> i < high \<and> ms ! i = member)"
  using assms
proof (induction ms member low high rule: search_member.induct)
  case (1 ms member low high)
  show ?case
  proof (cases "low < high")
    case False
    then show ?thesis by (subst search_member.simps) auto
  next
    case True
    define mid where "mid = low + (high - low) div 2"
    have mid: "low \<le> mid" "mid < high" "mid < length ms"
      using True "1.prems"(2) by (auto simp: mid_def)
    have mono: "i < j \<Longrightarrow> j < length ms \<Longrightarrow> ms ! i < ms ! j" for i j
      using "1.prems"(1) by (simp add: sorted_wrt_iff_nth_less)
    consider (eq) "ms ! mid = member" | (less) "ms ! mid < member" | (gr) "member < ms ! mid"
      by force
    then show ?thesis
    proof cases
      case eq
      then show ?thesis
        using True mid by (subst search_member.simps) (auto simp: mid_def [symmetric] Let_def)
    next
      case less
      have "(\<exists>i. low \<le> i \<and> i < high \<and> ms ! i = member) \<longleftrightarrow>
          (\<exists>i. mid + 1 \<le> i \<and> i < high \<and> ms ! i = member)"
        using less mid mono by (metis Suc_eq_plus1 Suc_leI le_SucI le_trans linorder_neqE_nat
            not_less_iff_gr_or_eq)
      moreover have "ms ! mid \<noteq> member"
        using less by simp
      ultimately show ?thesis
        using less True "1.IH"(1) [OF True mid_def refl] "1.prems"
        by (subst search_member.simps) (simp add: mid_def [symmetric] Let_def)
    next
      case gr
      have "(\<exists>i. low \<le> i \<and> i < high \<and> ms ! i = member) \<longleftrightarrow>
          (\<exists>i. low \<le> i \<and> i < mid \<and> ms ! i = member)"
        using gr mid mono "1.prems"(2)
        by (metis less_trans linorder_neqE_nat not_less_iff_gr_or_eq order_less_le_trans)
      then show ?thesis
        using gr True "1.IH"(2) [OF True mid_def refl] "1.prems" mid
        by (subst search_member.simps) (auto simp: mid_def [symmetric] Let_def)
    qed
  qed
qed

lemma exclusionDomainContains_mem:
  "exclusion_wf d \<Longrightarrow> exclusionDomainContains d m \<longleftrightarrow> m \<in> set (exc_members d)"
  by (simp add: exclusionDomainContains_def search_member_iff exclusion_wf_def in_set_conv_nth)

text \<open>
  The binary search for a member of a validated exclusion domain finds exactly the members of
  its list.
\<close>

lemma membership_search_is_exact:
  assumes "status_ok (validateExclusionDomain d)"
  shows "exclusionDomainContains d m \<longleftrightarrow> m \<in> set (exc_members d)"
  using exclusionDomainContains_mem assms by (simp add: validateExclusionDomain_iff)

end
