(* ===== verification/Time_Model.thy ===== *)
theory Time_Model
  imports Quantity
begin

text \<open>
  \<open>time.hpp\<close>: durations and instants are signed 64-bit nanosecond counts; every arithmetic
  operation on them saturates at the representable bounds. The lemmas show that saturating
  addition and multiplication are the clamped mathematical operations.
\<close>

type_synonym Duration = int
type_synonym Instant = int

definition kTimeMax :: int where "kTimeMax = 0x7FFFFFFFFFFFFFFF"

definition kTimeMin :: int where "kTimeMin = - 0x7FFFFFFFFFFFFFFF - 1"

definition satAdd :: "int \<Rightarrow> int \<Rightarrow> int" where
  "satAdd a b =
     (if b > 0 \<and> a > kTimeMax - b then kTimeMax
      else if b < 0 \<and> a < kTimeMin - b then kTimeMin
      else a + b)"

definition satMul :: "int \<Rightarrow> int \<Rightarrow> int" where
  "satMul a b =
     (if a = 0 \<or> b = 0 then 0
      else let negative = ((a < 0) \<noteq> (b < 0));
               ua = (if a < 0 then 0 - word_of_int a else word_of_int a) :: u64;
               ub = (if b < 0 then 0 - word_of_int b else word_of_int b) :: u64;
               limit = (if negative then push_bit 63 1 else word_of_int kTimeMax) :: u64
           in if ua > limit div ub then (if negative then kTimeMin else kTimeMax)
              else let magnitude = ua * ub
                   in if \<not> negative then sint magnitude
                      else if magnitude = push_bit 63 1 then kTimeMin
                      else - sint magnitude)"

definition duration_micros :: "int \<Rightarrow> Duration" where "duration_micros v = satMul v 1000"

definition duration_millis :: "int \<Rightarrow> Duration" where "duration_millis v = satMul v 1000000"

definition duration_seconds :: "int \<Rightarrow> Duration" where "duration_seconds v = satMul v 1000000000"

definition duration_minutes :: "int \<Rightarrow> Duration" where "duration_minutes v = satMul v 60000000000"

definition duration_hours :: "int \<Rightarrow> Duration" where "duration_hours v = satMul v 3600000000000"

definition duration_days :: "int \<Rightarrow> Duration" where "duration_days v = satMul v 86400000000000"

definition instant_plus :: "Instant \<Rightarrow> Duration \<Rightarrow> Instant" where
  "instant_plus t d = satAdd t d"

definition instant_minus :: "Instant \<Rightarrow> Duration \<Rightarrow> Instant" where
  "instant_minus t d = satAdd t (- d)"

definition instant_diff :: "Instant \<Rightarrow> Instant \<Rightarrow> Duration" where
  "instant_diff t u = satAdd t (- u)"

definition clamp_i64 :: "int \<Rightarrow> int" where
  "clamp_i64 x = max kTimeMin (min kTimeMax x)"

lemma satAdd_clamp: "is_i64 a \<Longrightarrow> is_i64 b \<Longrightarrow> satAdd a b = clamp_i64 (a + b)"
  by (auto simp: satAdd_def clamp_i64_def kTimeMax_def kTimeMin_def i64_defs)

lemma satMul_mulOverflow:
  "satMul a b =
     (case mulOverflow a b of
        Some c \<Rightarrow> c
      | None \<Rightarrow> if (a < 0) \<noteq> (b < 0) then kTimeMin else kTimeMax)"
  by (simp add: satMul_def mulOverflow_def Let_def kTimeMax_def kTimeMin_def kI64Min_def)

lemma satMul_clamp:
  assumes "is_i64 a" "is_i64 b"
  shows "satMul a b = clamp_i64 (a * b)"
proof (cases "is_i64 (a * b)")
  case True
  then show ?thesis
    using assms by (simp add: satMul_mulOverflow mulOverflow_eq clamp_i64_def kTimeMax_def
        kTimeMin_def i64_defs)
next
  case False
  have "a \<noteq> 0 \<and> b \<noteq> 0"
    using False by (auto simp: i64_defs)
  then have "(a < 0) \<noteq> (b < 0) \<longleftrightarrow> a * b < 0"
    by (auto simp: mult_less_0_iff)
  then show ?thesis
    using False assms by (auto simp: satMul_mulOverflow mulOverflow_eq clamp_i64_def kTimeMax_def
        kTimeMin_def i64_defs)
qed

end
