(* ===== verification/Capability.thy ===== *)
theory Capability
  imports Resource Time_Model
begin

text \<open>
  \<open>capability.hpp\<close> and the capability part of \<open>model.cpp\<close>: a published claim that a domain
  supports allocation or not, with the evidence it rests on, and its structural validation.
\<close>

section \<open>Support tokens\<close>

datatype SpectrumSupport = SupportUnsupported | Supported | SupportUnknown

definition kSpectrumSupportTokens :: "(SpectrumSupport \<times> string) list" where
  "kSpectrumSupportTokens =
     [(SupportUnsupported, ''unsupported''), (Supported, ''supported''),
      (SupportUnknown, ''unknown'')]"

definition support_toToken :: "SpectrumSupport \<Rightarrow> string" where
  "support_toToken s = tokenOf s kSpectrumSupportTokens ''unknown''"

definition supportFromToken :: "string \<Rightarrow> SpectrumSupport" where
  "supportFromToken t = valueOf t kSpectrumSupportTokens SupportUnknown"

interpretation support_tokens: token_table kSpectrumSupportTokens
proof
  fix v :: SpectrumSupport
  show "v \<in> fst ` set kSpectrumSupportTokens"
    by (cases v) (simp_all add: kSpectrumSupportTokens_def)
  show "distinct (map fst kSpectrumSupportTokens)"
    by (simp add: kSpectrumSupportTokens_def)
  show "distinct (map snd kSpectrumSupportTokens)"
    by (simp add: kSpectrumSupportTokens_def)
qed

text \<open>An unrecognised token is never read as supported.\<close>

lemma supportFromToken_supported: "supportFromToken t = Supported \<Longrightarrow> t = support_toToken Supported"
  by (auto simp: supportFromToken_def support_toToken_def kSpectrumSupportTokens_def split: if_splits)

section \<open>Records\<close>

record CapabilityEvidence =
  evidence_present :: bool
  evidence_digest :: u64
  evidence_source :: string

definition evidence_usable :: "CapabilityEvidence \<Rightarrow> bool" where
  "evidence_usable e \<longleftrightarrow> evidence_present e \<and> evidence_digest e \<noteq> 0"

definition default_evidence :: CapabilityEvidence where
  "default_evidence = \<lparr>evidence_present = False, evidence_digest = 0, evidence_source = []\<rparr>"

record SpectrumCapability =
  cap_domain :: SpectrumDomainId
  cap_domainGeneration :: SpectrumDomainGeneration
  cap_grid :: ChannelGridId
  cap_gridGeneration :: GridGeneration
  cap_support :: SpectrumSupport
  cap_firstAllocatableSlot :: nat
  cap_allocatableSlots :: nat
  cap_minTunableMhz :: int
  cap_maxTunableMhz :: int
  cap_contiguityEnforced :: bool
  cap_conversionSupported :: bool
  cap_conversionEvidence :: CapabilityEvidence
  cap_presenceEvidence :: CapabilityEvidence
  cap_generation :: CapabilityGeneration
  cap_publisher :: ControllerId
  cap_fence :: ControllerFence
  cap_publishedAt :: Instant
  cap_detail :: string

definition kMaxDetailBytes :: nat where "kMaxDetailBytes = 4096"

section \<open>Validation\<close>

definition s_cap_domain :: string where "s_cap_domain = ''capability domain id''"
definition s_cap_domain_generation :: string where
  "s_cap_domain_generation = ''capability domain generation''"
definition s_cap_grid :: string where "s_cap_grid = ''capability grid id''"
definition s_cap_grid_generation :: string where
  "s_cap_grid_generation = ''capability grid generation''"
definition s_cap_publisher :: string where "s_cap_publisher = ''capability publisher''"
definition s_cap_generation :: string where "s_cap_generation = ''capability generation''"
definition msg_cap_fence :: string where
  "msg_cap_fence = ''capability fence must name both an epoch and an incarnation''"
definition msg_cap_instant :: string where
  "msg_cap_instant = ''capability publication instant must be positive''"
definition msg_cap_detail :: "nat \<Rightarrow> string" where
  "msg_cap_detail n = ''capability detail of '' @ nat_to_string n @ '' bytes exceeds the maximum of ''
     @ nat_to_string kMaxDetailBytes @ '' bytes''"
definition msg_cap_evidence :: string where
  "msg_cap_evidence = ''supported capability requires explicit evidence''"
definition msg_cap_slots :: "nat \<Rightarrow> string" where
  "msg_cap_slots n = ''supported capability allocatable slot count '' @ nat_to_string n
     @ '' is outside [1, '' @ nat_to_string kMaxGridSlots @ '']''"
definition msg_cap_window :: string where
  "msg_cap_window = ''supported capability allocatable window overflows the slot index space''"
definition msg_cap_min_tunable :: "int \<Rightarrow> string" where
  "msg_cap_min_tunable f = ''supported capability minimum tunable frequency '' @ int_to_string f
     @ '' MHz is below the minimum of '' @ int_to_string kMinFrequencyMhz @ '' MHz''"
definition msg_cap_tunable :: "int \<Rightarrow> int \<Rightarrow> string" where
  "msg_cap_tunable lo hi = ''supported capability tunable range ['' @ int_to_string lo @ '', ''
     @ int_to_string hi @ ''] MHz must not be empty''"
definition msg_cap_max_tunable :: "int \<Rightarrow> string" where
  "msg_cap_max_tunable f = ''supported capability maximum tunable frequency '' @ int_to_string f
     @ '' MHz exceeds the maximum of '' @ int_to_string kMaxFrequencyMhz @ '' MHz''"
definition msg_cap_undeclared :: string where
  "msg_cap_undeclared = ''an unsupported or unknown capability must not declare allocatable slots''"
definition msg_cap_conversion :: string where
  "msg_cap_conversion = ''conversion capability requires explicit evidence; it is never assumed''"

definition validateCapabilityShape :: "SpectrumCapability \<Rightarrow> Status" where
  "validateCapabilityShape c =
     (if \<not> sv_valid (cap_domain c) then fail InvalidArgument (msg_nonzero s_cap_domain)
      else if \<not> sv_valid (cap_domainGeneration c)
      then fail InvalidArgument (msg_nonzero s_cap_domain_generation)
      else if \<not> sv_valid (cap_grid c) then fail InvalidArgument (msg_nonzero s_cap_grid)
      else if \<not> sv_valid (cap_gridGeneration c)
      then fail InvalidArgument (msg_nonzero s_cap_grid_generation)
      else if \<not> sv_valid (cap_publisher c) then fail InvalidArgument (msg_nonzero s_cap_publisher)
      else if \<not> fence_valid (cap_fence c) then fail InvalidArgument msg_cap_fence
      else if \<not> sv_valid (cap_generation c) then fail InvalidArgument (msg_nonzero s_cap_generation)
      else if cap_publishedAt c \<le> 0 then fail InvalidArgument msg_cap_instant
      else if length (cap_detail c) > kMaxDetailBytes
      then fail InvalidArgument (msg_cap_detail (length (cap_detail c)))
      else
        let supportCheck =
          (if cap_support c = Supported then
             (if \<not> evidence_usable (cap_presenceEvidence c) then fail InvalidArgument msg_cap_evidence
              else if cap_allocatableSlots c = 0 \<or> cap_allocatableSlots c > kMaxGridSlots
              then fail InvalidArgument (msg_cap_slots (cap_allocatableSlots c))
              else if addOverflow (int (cap_firstAllocatableSlot c)) (int (cap_allocatableSlots c))
                      = None
              then fail InvalidArgument msg_cap_window
              else if cap_minTunableMhz c < kMinFrequencyMhz
              then fail InvalidArgument (msg_cap_min_tunable (cap_minTunableMhz c))
              else if cap_maxTunableMhz c \<le> cap_minTunableMhz c
              then fail InvalidArgument (msg_cap_tunable (cap_minTunableMhz c) (cap_maxTunableMhz c))
              else if cap_maxTunableMhz c > kMaxFrequencyMhz
              then fail InvalidArgument (msg_cap_max_tunable (cap_maxTunableMhz c))
              else okStatus)
           else
             (if cap_allocatableSlots c \<noteq> 0 \<or> cap_firstAllocatableSlot c \<noteq> 0
              then fail InvalidArgument msg_cap_undeclared else okStatus))
        in if \<not> status_ok supportCheck then supportCheck
           else if cap_conversionSupported c \<and> \<not> evidence_usable (cap_conversionEvidence c)
           then fail InvalidArgument msg_cap_conversion
           else okStatus)"

definition allocatableWindow :: "SpectrumCapability \<Rightarrow> SlotRange" where
  "allocatableWindow c = slotRange (cap_firstAllocatableSlot c) (cap_allocatableSlots c)"

section \<open>What validation establishes\<close>

lemma validateCapabilityShape_ok:
  assumes "status_ok (validateCapabilityShape c)"
  shows "sv_valid (cap_domain c)" "sv_valid (cap_domainGeneration c)" "sv_valid (cap_grid c)"
    "sv_valid (cap_gridGeneration c)" "sv_valid (cap_publisher c)" "fence_valid (cap_fence c)"
    "sv_valid (cap_generation c)" "0 < cap_publishedAt c" "length (cap_detail c) \<le> kMaxDetailBytes"
    "cap_conversionSupported c \<Longrightarrow> evidence_usable (cap_conversionEvidence c)"
  using assms by (auto simp: validateCapabilityShape_def Let_def split: if_splits)

lemma validateCapabilityShape_supported:
  assumes "status_ok (validateCapabilityShape c)" and "cap_support c = Supported"
  shows "evidence_usable (cap_presenceEvidence c)" "0 < cap_allocatableSlots c"
    "cap_allocatableSlots c \<le> kMaxGridSlots" "kMinFrequencyMhz \<le> cap_minTunableMhz c"
    "cap_minTunableMhz c < cap_maxTunableMhz c" "cap_maxTunableMhz c \<le> kMaxFrequencyMhz"
  using assms by (auto simp: validateCapabilityShape_def Let_def split: if_splits)

text \<open>A domain that is not published as supported offers no slot.\<close>

lemma validateCapabilityShape_unsupported:
  assumes "status_ok (validateCapabilityShape c)" and "cap_support c \<noteq> Supported"
  shows "slots_of (allocatableWindow c) = {}"
  using assms
  by (auto simp: validateCapabilityShape_def allocatableWindow_def Let_def slots_of_def slot_end_def
      u32add_def split: if_splits)

end
