(* ===== verification/Authority.thy ===== *)
theory Authority
  imports Identity
begin

text \<open>
  \<open>authority.hpp\<close> and the authority checks of \<open>model.cpp\<close>: four separate token types over one
  template, each checked against the generation counter of its own domain and against the
  controller fence. A token is accepted exactly when it is valid, carries the current fence and
  the current generation.
\<close>

record 'tag AuthorityToken =
  tok_generation :: "'tag StrongValue"
  tok_fence :: ControllerFence

definition tok_valid :: "'tag AuthorityToken \<Rightarrow> bool" where
  "tok_valid t \<longleftrightarrow> sv_valid (tok_generation t) \<and> fence_valid (tok_fence t)"

type_synonym EligibilityAuthority = "EligibilityAuthorityGenerationTag AuthorityToken"
type_synonym ReservationAuthority = "ReservationAuthorityGenerationTag AuthorityToken"
type_synonym ActivationAuthority = "ActivationAuthorityGenerationTag AuthorityToken"
type_synonym ReleaseAuthority = "ReleaseAuthorityGenerationTag AuthorityToken"

record AuthorityState =
  auth_eligibility :: EligibilityAuthorityGeneration
  auth_reservation :: ReservationAuthorityGeneration
  auth_activation :: ActivationAuthorityGeneration
  auth_release :: ReleaseAuthorityGeneration
  auth_fence :: ControllerFence

definition s_eligibility :: string where "s_eligibility = ''eligibility''"
definition s_reservation :: string where "s_reservation = ''reservation''"
definition s_activation :: string where "s_activation = ''activation''"
definition s_release :: string where "s_release = ''release''"
definition s_authority :: "string \<Rightarrow> string" where "s_authority d = d @ '' authority''"
definition s_controller_fence :: string where "s_controller_fence = ''controller fence''"
definition msg_stale_epoch :: "string \<Rightarrow> ControllerEpoch \<Rightarrow> ControllerEpoch \<Rightarrow> string" where
  "msg_stale_epoch subject a b = subject @ '' epoch '' @ raw_to_string a
     @ '' does not match the current epoch '' @ raw_to_string b"
definition msg_stale_incarnation ::
    "string \<Rightarrow> ControllerIncarnation \<Rightarrow> ControllerIncarnation \<Rightarrow> string" where
  "msg_stale_incarnation subject a b = subject @ '' incarnation '' @ raw_to_string a
     @ '' does not match the current incarnation '' @ raw_to_string b"
definition msg_stale_generation :: "string \<Rightarrow> u64 \<Rightarrow> u64 \<Rightarrow> string" where
  "msg_stale_generation domain a b = domain @ '' authority generation '' @ u64_to_string a
     @ '' does not match the current generation '' @ u64_to_string b"
definition msg_token_required :: "string \<Rightarrow> string" where
  "msg_token_required domain = domain @ '' authority token is required''"
definition msg_fence_required :: string where
  "msg_fence_required = ''controller fence is required''"

definition checkFenceFields :: "string \<Rightarrow> ControllerFence \<Rightarrow> ControllerFence \<Rightarrow> Status" where
  "checkFenceFields subject current candidate =
     (if epoch candidate \<noteq> epoch current
      then fail StaleEpoch (msg_stale_epoch subject (epoch candidate) (epoch current))
      else if incarnation candidate \<noteq> incarnation current
      then fail StaleIncarnation
             (msg_stale_incarnation subject (incarnation candidate) (incarnation current))
      else okStatus)"

definition checkAuthorityGeneration :: "string \<Rightarrow> u64 \<Rightarrow> u64 \<Rightarrow> Status" where
  "checkAuthorityGeneration domain tokenGeneration currentGeneration =
     (if tokenGeneration = currentGeneration then okStatus
      else fail StaleGeneration (msg_stale_generation domain tokenGeneration currentGeneration))"

definition checkEligibilityAuthority :: "AuthorityState \<Rightarrow> EligibilityAuthority \<Rightarrow> Status" where
  "checkEligibilityAuthority s t =
     (if \<not> tok_valid t then fail InvalidArgument (msg_token_required s_eligibility)
      else let fence = checkFenceFields (s_authority s_eligibility) (auth_fence s) (tok_fence t)
           in if \<not> status_ok fence then fence
              else checkAuthorityGeneration s_eligibility (raw (tok_generation t))
                     (raw (auth_eligibility s)))"

definition checkReservationAuthority :: "AuthorityState \<Rightarrow> ReservationAuthority \<Rightarrow> Status" where
  "checkReservationAuthority s t =
     (if \<not> tok_valid t then fail InvalidArgument (msg_token_required s_reservation)
      else let fence = checkFenceFields (s_authority s_reservation) (auth_fence s) (tok_fence t)
           in if \<not> status_ok fence then fence
              else checkAuthorityGeneration s_reservation (raw (tok_generation t))
                     (raw (auth_reservation s)))"

definition checkActivationAuthority :: "AuthorityState \<Rightarrow> ActivationAuthority \<Rightarrow> Status" where
  "checkActivationAuthority s t =
     (if \<not> tok_valid t then fail InvalidArgument (msg_token_required s_activation)
      else let fence = checkFenceFields (s_authority s_activation) (auth_fence s) (tok_fence t)
           in if \<not> status_ok fence then fence
              else checkAuthorityGeneration s_activation (raw (tok_generation t))
                     (raw (auth_activation s)))"

definition checkReleaseAuthority :: "AuthorityState \<Rightarrow> ReleaseAuthority \<Rightarrow> Status" where
  "checkReleaseAuthority s t =
     (if \<not> tok_valid t then fail InvalidArgument (msg_token_required s_release)
      else let fence = checkFenceFields (s_authority s_release) (auth_fence s) (tok_fence t)
           in if \<not> status_ok fence then fence
              else checkAuthorityGeneration s_release (raw (tok_generation t))
                     (raw (auth_release s)))"

definition checkFence :: "AuthorityState \<Rightarrow> ControllerFence \<Rightarrow> Status" where
  "checkFence s fence =
     (if \<not> fence_valid fence then fail InvalidArgument msg_fence_required
      else checkFenceFields s_controller_fence (auth_fence s) fence)"

section \<open>The contract of an authority check\<close>

text \<open>
  Every check accepts exactly the valid tokens minted under the current fence and generation; the
  lemmas of the locale are what an operation guarded by such a check may rely on.
\<close>

locale authority_check =
  fixes check :: "AuthorityState \<Rightarrow> 'tag AuthorityToken \<Rightarrow> Status"
    and current :: "AuthorityState \<Rightarrow> 'tag StrongValue"
  assumes accepts: "status_ok (check s t) \<longleftrightarrow>
      tok_valid t \<and> tok_fence t = auth_fence s \<and> tok_generation t = current s"
    and refusal: "\<not> status_ok (check s t) \<Longrightarrow> tok_valid t \<Longrightarrow> isStale (code (check s t))"
begin

text \<open>Advancing the authority (a new incarnation or a new generation) fences out old tokens.\<close>

lemma fenced_out:
  "status_ok (check s t) \<Longrightarrow> auth_fence s' \<noteq> auth_fence s \<or> current s' \<noteq> current s \<Longrightarrow>
   \<not> status_ok (check s' t) \<and> isStale (code (check s' t))"
  by (metis accepts refusal)

lemma token_unique: "status_ok (check s t) \<Longrightarrow> status_ok (check s u) \<Longrightarrow> t = u"
  by (simp add: accepts)

end

lemma checkFenceFields_ok: "status_ok (checkFenceFields subject f g) \<longleftrightarrow> g = f"
  by (auto simp: checkFenceFields_def)

lemma checkFenceFields_stale:
  "\<not> status_ok (checkFenceFields subject f g) \<Longrightarrow> isStale (code (checkFenceFields subject f g))"
  by (auto simp: checkFenceFields_def split: if_splits)

lemma checkAuthorityGeneration_ok [simp]:
  "status_ok (checkAuthorityGeneration d (raw a) (raw b)) \<longleftrightarrow> a = b"
  by (auto simp: checkAuthorityGeneration_def StrongValue.expand)

lemma checkAuthorityGeneration_stale:
  "a \<noteq> b \<Longrightarrow> isStale (code (checkAuthorityGeneration d (raw a) (raw b)))"
  by (auto simp: checkAuthorityGeneration_def StrongValue.expand)

lemmas check_simps = Let_def checkFenceFields_ok checkFenceFields_stale checkAuthorityGeneration_stale

interpretation eligibility: authority_check checkEligibilityAuthority auth_eligibility
  by unfold_locales (auto simp: checkEligibilityAuthority_def check_simps split: if_splits)

interpretation reservation: authority_check checkReservationAuthority auth_reservation
  by unfold_locales (auto simp: checkReservationAuthority_def check_simps split: if_splits)

interpretation activation: authority_check checkActivationAuthority auth_activation
  by unfold_locales (auto simp: checkActivationAuthority_def check_simps split: if_splits)

interpretation release: authority_check checkReleaseAuthority auth_release
  by unfold_locales (auto simp: checkReleaseAuthority_def check_simps split: if_splits)

lemma checkFence_iff:
  "status_ok (checkFence s fence) \<longleftrightarrow> fence_valid fence \<and> fence = auth_fence s"
  by (simp add: checkFence_def checkFenceFields_ok)

end
