(* ===== verification/Request.thy ===== *)
theory Request
  imports Capability Authority
begin

text \<open>
  \<open>request.hpp\<close> and the request part of \<open>model.cpp\<close>: the allocation request and its structural
  validation. The lemmas collect what an accepted request guarantees: bounded sizes, valid
  identities, strictly ascending domains, and requirements stated explicitly wherever the request
  spans several domains or several slots.
\<close>

section \<open>Records\<close>

datatype ContinuityRequirement = ContinuityUnspecified | ContinuityRequired | ContinuityNotRequired
datatype ContiguityRequirement = ContiguityUnspecified | ContiguityRequired | ContiguityNotRequired

definition kContinuityTokens :: "(ContinuityRequirement \<times> string) list" where
  "kContinuityTokens =
     [(ContinuityUnspecified, ''unspecified''), (ContinuityRequired, ''required''),
      (ContinuityNotRequired, ''not-required'')]"

definition kContiguityTokens :: "(ContiguityRequirement \<times> string) list" where
  "kContiguityTokens =
     [(ContiguityUnspecified, ''unspecified''), (ContiguityRequired, ''required''),
      (ContiguityNotRequired, ''not-required'')]"

definition continuity_toToken :: "ContinuityRequirement \<Rightarrow> string" where
  "continuity_toToken r = tokenOf r kContinuityTokens ''unspecified''"

definition contiguity_toToken :: "ContiguityRequirement \<Rightarrow> string" where
  "contiguity_toToken r = tokenOf r kContiguityTokens ''unspecified''"

interpretation continuity_tokens: token_table kContinuityTokens
proof
  fix v :: ContinuityRequirement
  show "v \<in> fst ` set kContinuityTokens"
    by (cases v) (simp_all add: kContinuityTokens_def)
  show "distinct (map fst kContinuityTokens)"
    by (simp add: kContinuityTokens_def)
  show "distinct (map snd kContinuityTokens)"
    by (simp add: kContinuityTokens_def)
qed

interpretation contiguity_tokens: token_table kContiguityTokens
proof
  fix v :: ContiguityRequirement
  show "v \<in> fst ` set kContiguityTokens"
    by (cases v) (simp_all add: kContiguityTokens_def)
  show "distinct (map fst kContiguityTokens)"
    by (simp add: kContiguityTokens_def)
  show "distinct (map snd kContiguityTokens)"
    by (simp add: kContiguityTokens_def)
qed

record SpectrumConstraints =
  con_excludedSlots :: "SlotRange list"
  con_excludedFrequencies :: "FrequencyRange list"
  con_mustNotConflictWith :: "ReservationId list"

record SpectrumRequest =
  req_requestId :: AllocationRequestId
  req_requestGeneration :: AllocationRequestGeneration
  req_owner :: OwnerId
  req_ownerGeneration :: OwnerGeneration
  req_domains :: "SpectrumDomainId list"
  req_domainGenerations :: "SpectrumDomainGeneration list"
  req_grid :: ChannelGridId
  req_gridGeneration :: GridGeneration
  req_slots :: nat
  req_contiguity :: ContiguityRequirement
  req_continuity :: ContinuityRequirement
  req_frequencyWindows :: "FrequencyRange list"
  req_guardBandMhz :: int
  req_leaseDuration :: Duration
  req_maxRenewals :: nat
  req_requestedAt :: Instant
  req_notBefore :: Instant
  req_policyGeneration :: PolicyGeneration
  req_priorityGeneration :: PriorityGeneration
  req_constraints :: SpectrumConstraints
  req_eligibilityAuthority :: EligibilityAuthority
  req_reservationAuthority :: ReservationAuthority

definition kMaxLeaseNanos :: int where "kMaxLeaseNanos = 3650 * 24 * 60 * 60 * 1000000000"

section \<open>Messages\<close>

definition s_req_id :: string where "s_req_id = ''request id''"
definition s_req_generation :: string where "s_req_generation = ''request generation''"
definition s_req_owner :: string where "s_req_owner = ''request owner''"
definition s_req_owner_generation :: string where
  "s_req_owner_generation = ''request owner generation''"
definition s_req_grid :: string where "s_req_grid = ''request grid id''"
definition s_req_grid_generation :: string where "s_req_grid_generation = ''request grid generation''"
definition s_req_domain_count :: string where "s_req_domain_count = ''request domain count ''"
definition s_req_window_count :: string where
  "s_req_window_count = ''request frequency window count ''"
definition s_req_slot_exclusions :: string where
  "s_req_slot_exclusions = ''request excluded slot range count ''"
definition s_req_frequency_exclusions :: string where
  "s_req_frequency_exclusions = ''request excluded frequency range count ''"
definition s_req_conflicts :: string where
  "s_req_conflicts = ''request conflict reservation count ''"
definition msg_req_domains_empty :: string where
  "msg_req_domains_empty = ''request must name at least one spectrum domain''"
definition msg_req_count :: "string \<Rightarrow> nat \<Rightarrow> nat \<Rightarrow> string" where
  "msg_req_count what n limit = what @ nat_to_string n @ '' exceeds the maximum of ''
     @ nat_to_string limit"
definition msg_req_generations :: "nat \<Rightarrow> nat \<Rightarrow> string" where
  "msg_req_generations n m = ''request carries '' @ nat_to_string n @ '' domains but ''
     @ nat_to_string m @ '' domain generations''"
definition msg_req_domain :: "nat \<Rightarrow> string" where
  "msg_req_domain i = ''request domain '' @ nat_to_string i @ '' must be a non-zero domain id''"
definition msg_req_domain_generation :: "nat \<Rightarrow> string" where
  "msg_req_domain_generation i = ''request domain '' @ nat_to_string i
     @ '' must carry a non-zero domain generation''"
definition msg_req_domain_order :: "nat \<Rightarrow> string" where
  "msg_req_domain_order i = ''request domains must be strictly ascending and unique, but domain ''
     @ nat_to_string i @ '' is not greater than domain '' @ nat_to_string (i - 1)"
definition msg_req_slots_zero :: string where
  "msg_req_slots_zero = ''request channel width must be at least one slot''"
definition msg_req_slots_max :: "nat \<Rightarrow> string" where
  "msg_req_slots_max n = ''request channel width of '' @ nat_to_string n
     @ '' slots exceeds the maximum of '' @ nat_to_string kMaxSlotsPerChannel @ '' slots''"
definition msg_req_window :: "nat \<Rightarrow> FrequencyRange \<Rightarrow> string" where
  "msg_req_window i w = ''request frequency window '' @ nat_to_string i @ '' [''
     @ int_to_string (lowMhz w) @ '', '' @ int_to_string (highMhz w)
     @ ''] MHz is empty or outside the supported frequency range''"
definition msg_req_slot_exclusion_empty :: "nat \<Rightarrow> string" where
  "msg_req_slot_exclusion_empty i = ''request excluded slot range '' @ nat_to_string i
     @ '' must not be empty''"
definition msg_req_slot_exclusion_overflow :: "nat \<Rightarrow> string" where
  "msg_req_slot_exclusion_overflow i = ''request excluded slot range '' @ nat_to_string i
     @ '' overflows the slot index space''"
definition msg_req_frequency_exclusion :: "nat \<Rightarrow> FrequencyRange \<Rightarrow> string" where
  "msg_req_frequency_exclusion i w = ''request excluded frequency range '' @ nat_to_string i @ '' [''
     @ int_to_string (lowMhz w) @ '', '' @ int_to_string (highMhz w) @ ''] MHz must not be empty''"
definition msg_req_conflict :: "nat \<Rightarrow> string" where
  "msg_req_conflict i = ''request conflict reservation '' @ nat_to_string i
     @ '' must be a non-zero reservation id''"
definition msg_req_guard :: "int \<Rightarrow> string" where
  "msg_req_guard g = ''request guard band '' @ int_to_string g @ '' MHz is outside [0, ''
     @ int_to_string kMaxGuardBandMhz @ ''] MHz''"
definition msg_req_lease_positive :: string where
  "msg_req_lease_positive = ''request lease duration must be positive''"
definition msg_req_lease_max :: "int \<Rightarrow> string" where
  "msg_req_lease_max d = ''request lease duration of '' @ int_to_string d
     @ '' ns exceeds the maximum of '' @ int_to_string kMaxLeaseNanos @ '' ns''"
definition msg_req_requested_at :: string where
  "msg_req_requested_at = ''request requestedAt instant must be positive''"
definition msg_req_not_before :: string where
  "msg_req_not_before = ''request notBefore instant must not be negative''"
definition msg_req_lease_end :: string where
  "msg_req_lease_end = ''request lease end instant overflows the representable time range''"
definition msg_req_eligibility :: string where
  "msg_req_eligibility = ''request eligibility authority token is required''"
definition msg_req_reservation :: string where
  "msg_req_reservation = ''request reservation authority token is required''"
definition msg_req_continuity :: string where
  "msg_req_continuity =
     ''continuity must be stated explicitly when a request spans multiple optical resources''"
definition msg_req_contiguity :: string where
  "msg_req_contiguity =
     ''contiguity must be stated explicitly when a channel occupies more than one slot''"

section \<open>Validation\<close>

text \<open>The loops of the validation: each reports its first offender.\<close>

fun check_domains ::
    "nat \<Rightarrow> SpectrumDomainId list \<Rightarrow> SpectrumDomainGeneration list \<Rightarrow> Status" where
  "check_domains i (d # ds) (g # gs) =
     (if \<not> sv_valid d then fail InvalidArgument (msg_req_domain i)
      else if \<not> sv_valid g then fail InvalidArgument (msg_req_domain_generation i)
      else check_domains (Suc i) ds gs)"
| "check_domains i _ _ = okStatus"

fun check_windows :: "nat \<Rightarrow> FrequencyRange list \<Rightarrow> Status" where
  "check_windows i [] = okStatus"
| "check_windows i (w # ws) =
     (if freq_empty w \<or> lowMhz w < kMinFrequencyMhz \<or> highMhz w > kMaxFrequencyMhz
      then fail InvalidArgument (msg_req_window i w)
      else check_windows (Suc i) ws)"

fun check_slot_exclusions :: "nat \<Rightarrow> SlotRange list \<Rightarrow> Status" where
  "check_slot_exclusions i [] = okStatus"
| "check_slot_exclusions i (r # rs) =
     (if slot_count r = 0 then fail InvalidArgument (msg_req_slot_exclusion_empty i)
      else if addOverflow (int (slot_first r)) (int (slot_count r)) = None
      then fail InvalidArgument (msg_req_slot_exclusion_overflow i)
      else check_slot_exclusions (Suc i) rs)"

fun check_frequency_exclusions :: "nat \<Rightarrow> FrequencyRange list \<Rightarrow> Status" where
  "check_frequency_exclusions i [] = okStatus"
| "check_frequency_exclusions i (r # rs) =
     (if freq_empty r then fail InvalidArgument (msg_req_frequency_exclusion i r)
      else check_frequency_exclusions (Suc i) rs)"

definition check_conflict_ids :: "ReservationId list \<Rightarrow> Status" where
  "check_conflict_ids ids =
     (case first_invalid 0 ids of
        Some i \<Rightarrow> fail InvalidArgument (msg_req_conflict i)
      | None \<Rightarrow> okStatus)"

definition check_count :: "string \<Rightarrow> 'a list \<Rightarrow> nat \<Rightarrow> Status" where
  "check_count what xs limit =
     (if length xs > limit then fail InvalidArgument (msg_req_count what (length xs) limit)
      else okStatus)"

text \<open>The sequence of checks returns the first failure.\<close>

fun first_failure :: "Status list \<Rightarrow> Status" where
  "first_failure [] = okStatus"
| "first_failure (s # ss) = (if status_ok s then first_failure ss else s)"

definition check_identity :: "SpectrumRequest \<Rightarrow> Status" where
  "check_identity r =
     (if \<not> sv_valid (req_requestId r) then fail InvalidArgument (msg_nonzero s_req_id)
      else if \<not> sv_valid (req_requestGeneration r)
      then fail InvalidArgument (msg_nonzero s_req_generation)
      else if \<not> sv_valid (req_owner r) then fail InvalidArgument (msg_nonzero s_req_owner)
      else if \<not> sv_valid (req_ownerGeneration r)
      then fail InvalidArgument (msg_nonzero s_req_owner_generation)
      else okStatus)"

definition check_domain_lists :: "SpectrumRequest \<Rightarrow> Status" where
  "check_domain_lists r =
     (if req_domains r = [] then fail InvalidArgument msg_req_domains_empty
      else if length (req_domains r) > kMaxRequestDomains
      then fail InvalidArgument
             (msg_req_count s_req_domain_count (length (req_domains r)) kMaxRequestDomains)
      else if length (req_domainGenerations r) \<noteq> length (req_domains r)
      then fail InvalidArgument
             (msg_req_generations (length (req_domains r)) (length (req_domainGenerations r)))
      else let entries = check_domains 0 (req_domains r) (req_domainGenerations r)
           in if \<not> status_ok entries then entries
              else (case first_not_ascending 1 (req_domains r) of
                      Some i \<Rightarrow> fail InvalidArgument (msg_req_domain_order i)
                    | None \<Rightarrow> okStatus))"

definition check_channel :: "SpectrumRequest \<Rightarrow> Status" where
  "check_channel r =
     (if \<not> sv_valid (req_grid r) then fail InvalidArgument (msg_nonzero s_req_grid)
      else if \<not> sv_valid (req_gridGeneration r)
      then fail InvalidArgument (msg_nonzero s_req_grid_generation)
      else if req_slots r = 0 then fail InvalidArgument msg_req_slots_zero
      else if req_slots r > kMaxSlotsPerChannel
      then fail InvalidArgument (msg_req_slots_max (req_slots r))
      else okStatus)"

definition check_lease :: "SpectrumRequest \<Rightarrow> Status" where
  "check_lease r =
     (if req_guardBandMhz r < 0 \<or> req_guardBandMhz r > kMaxGuardBandMhz
      then fail InvalidArgument (msg_req_guard (req_guardBandMhz r))
      else if req_leaseDuration r \<le> 0 then fail InvalidArgument msg_req_lease_positive
      else if req_leaseDuration r > kMaxLeaseNanos
      then fail InvalidArgument (msg_req_lease_max (req_leaseDuration r))
      else if req_requestedAt r \<le> 0 then fail InvalidArgument msg_req_requested_at
      else if req_notBefore r < 0 then fail InvalidArgument msg_req_not_before
      else if addOverflow (req_requestedAt r) (req_leaseDuration r) = None
      then fail InvalidArgument msg_req_lease_end
      else okStatus)"

definition check_explicit :: "SpectrumRequest \<Rightarrow> Status" where
  "check_explicit r =
     (if \<not> tok_valid (req_eligibilityAuthority r) then fail InvalidArgument msg_req_eligibility
      else if \<not> tok_valid (req_reservationAuthority r) then fail InvalidArgument msg_req_reservation
      else if length (req_domains r) > 1 \<and> req_continuity r = ContinuityUnspecified
      then fail InvalidArgument msg_req_continuity
      else if req_slots r > 1 \<and> req_contiguity r = ContiguityUnspecified
      then fail InvalidArgument msg_req_contiguity
      else okStatus)"

definition validateRequestShape :: "SpectrumRequest \<Rightarrow> Status" where
  "validateRequestShape r =
     first_failure
       [check_identity r,
        check_domain_lists r,
        check_channel r,
        check_count s_req_window_count (req_frequencyWindows r) kMaxFrequencyWindows,
        check_windows 0 (req_frequencyWindows r),
        check_count s_req_slot_exclusions (con_excludedSlots (req_constraints r)) kMaxExcludedRanges,
        check_slot_exclusions 0 (con_excludedSlots (req_constraints r)),
        check_count s_req_frequency_exclusions (con_excludedFrequencies (req_constraints r))
          kMaxExcludedRanges,
        check_frequency_exclusions 0 (con_excludedFrequencies (req_constraints r)),
        check_count s_req_conflicts (con_mustNotConflictWith (req_constraints r)) kMaxExcludedRanges,
        check_conflict_ids (con_mustNotConflictWith (req_constraints r)),
        check_lease r,
        check_explicit r]"

section \<open>What validation establishes\<close>

lemma first_failure_ok: "status_ok (first_failure ss) \<longleftrightarrow> (\<forall>s \<in> set ss. status_ok s)"
  by (induction ss) auto

lemma check_domains_ok:
  "length ds = length gs \<Longrightarrow> status_ok (check_domains i ds gs) \<longleftrightarrow>
     (\<forall>d \<in> set ds. sv_valid d) \<and> (\<forall>g \<in> set gs. sv_valid g)"
  by (induction i ds gs rule: check_domains.induct) auto

lemma check_windows_ok:
  "status_ok (check_windows i ws) \<longleftrightarrow>
     (\<forall>w \<in> set ws. \<not> freq_empty w \<and> kMinFrequencyMhz \<le> lowMhz w \<and> highMhz w \<le> kMaxFrequencyMhz)"
  by (induction i ws rule: check_windows.induct) auto

lemma check_frequency_exclusions_ok:
  "status_ok (check_frequency_exclusions i ws) \<longleftrightarrow> (\<forall>w \<in> set ws. \<not> freq_empty w)"
  by (induction i ws rule: check_frequency_exclusions.induct) auto

lemma check_slot_exclusions_nonempty:
  "status_ok (check_slot_exclusions i rs) \<Longrightarrow> \<forall>r \<in> set rs. slot_count r \<noteq> 0"
  by (induction i rs rule: check_slot_exclusions.induct) (auto split: if_splits)

text \<open>
  The overflow test on an excluded slot range is made in 64 bits, on operands of 32 bits, so it
  never fires: the only refused exclusions are the empty ones.
\<close>

lemma check_slot_exclusions_iff:
  assumes "\<forall>r \<in> set rs. is_u32 (slot_first r) \<and> is_u32 (slot_count r)"
  shows "status_ok (check_slot_exclusions i rs) \<longleftrightarrow> (\<forall>r \<in> set rs. slot_count r \<noteq> 0)"
  using assms
proof (induction i rs rule: check_slot_exclusions.induct)
  case (2 i r rs)
  then have "addOverflow (int (slot_first r)) (int (slot_count r)) \<noteq> None"
    by (subst addOverflow_eq) (auto simp: i64_defs is_u32_def kU32Modulus_def)
  then show ?case
    using 2 by auto
qed simp

lemma check_count_ok: "status_ok (check_count what xs limit) \<longleftrightarrow> length xs \<le> limit"
  by (simp add: check_count_def not_less)

lemma validateRequestShape_parts:
  assumes "status_ok (validateRequestShape r)"
  shows "status_ok (check_identity r)" "status_ok (check_domain_lists r)"
    "status_ok (check_channel r)" "status_ok (check_lease r)" "status_ok (check_explicit r)"
    "status_ok (check_windows 0 (req_frequencyWindows r))"
    "status_ok (check_slot_exclusions 0 (con_excludedSlots (req_constraints r)))"
    "status_ok (check_frequency_exclusions 0 (con_excludedFrequencies (req_constraints r)))"
  using assms unfolding validateRequestShape_def first_failure_ok by simp_all

lemma check_domain_lists_ok:
  assumes "status_ok (check_domain_lists r)"
  shows "req_domains r \<noteq> []" "length (req_domains r) \<le> kMaxRequestDomains"
    "length (req_domainGenerations r) = length (req_domains r)"
    "\<forall>d \<in> set (req_domains r). sv_valid d" "sorted_wrt (<) (req_domains r)"
  using assms check_domains_ok [of "req_domains r" "req_domainGenerations r" 0]
  by (auto simp: check_domain_lists_def Let_def first_not_ascending_None split: if_splits option.splits)

lemma check_lease_ok:
  "status_ok (check_lease r) \<Longrightarrow>
     0 \<le> req_guardBandMhz r \<and> req_guardBandMhz r \<le> kMaxGuardBandMhz \<and> 0 < req_leaseDuration r
     \<and> req_leaseDuration r \<le> kMaxLeaseNanos \<and> 0 < req_requestedAt r \<and> 0 \<le> req_notBefore r"
  by (auto simp: check_lease_def split: if_splits)

lemma check_channel_ok:
  "status_ok (check_channel r) \<Longrightarrow> 0 < req_slots r \<and> req_slots r \<le> kMaxSlotsPerChannel"
  by (auto simp: check_channel_def split: if_splits)

lemma check_explicit_ok:
  "status_ok (check_explicit r) \<Longrightarrow>
     (1 < length (req_domains r) \<longrightarrow> req_continuity r \<noteq> ContinuityUnspecified)
     \<and> (1 < req_slots r \<longrightarrow> req_contiguity r \<noteq> ContiguityUnspecified)"
  by (auto simp: check_explicit_def split: if_splits)

text \<open>
  A request that passes shape validation is well formed: its domains are non-empty, at most 32,
  valid, strictly ascending and paired with generations, its width, guard band, lease and instants
  are inside their bounds, its windows lie in the frequency range, and continuity and contiguity are
  explicit wherever they matter.
\<close>

lemma accepted_shapes_are_well_formed:
  assumes "status_ok (validateRequestShape r)"
  shows "req_domains r \<noteq> [] \<and> length (req_domains r) \<le> kMaxRequestDomains
    \<and> length (req_domainGenerations r) = length (req_domains r) \<and> sorted_wrt (<) (req_domains r)
    \<and> (\<forall>d \<in> set (req_domains r). sv_valid d)
    \<and> 0 < req_slots r \<and> req_slots r \<le> kMaxSlotsPerChannel
    \<and> 0 \<le> req_guardBandMhz r \<and> req_guardBandMhz r \<le> kMaxGuardBandMhz
    \<and> 0 < req_leaseDuration r \<and> req_leaseDuration r \<le> kMaxLeaseNanos
    \<and> 0 < req_requestedAt r \<and> 0 \<le> req_notBefore r
    \<and> (\<forall>w \<in> set (req_frequencyWindows r). \<not> freq_empty w \<and> kMinFrequencyMhz \<le> lowMhz w
          \<and> highMhz w \<le> kMaxFrequencyMhz)
    \<and> (1 < length (req_domains r) \<longrightarrow> req_continuity r \<noteq> ContinuityUnspecified)
    \<and> (1 < req_slots r \<longrightarrow> req_contiguity r \<noteq> ContiguityUnspecified)"
  using check_domain_lists_ok check_channel_ok check_lease_ok check_explicit_ok check_windows_ok
    validateRequestShape_parts [OF assms] by blast

end
