(* ===== verification/Lifecycle_State.thy ===== *)
theory Lifecycle_State
  imports Tokens
begin

text \<open>
  The reservation lifecycle (\<open>lifecycle.hpp\<close>, \<open>model.cpp\<close>): the states, the single table of
  legal transitions, the live / terminal / transient classification, and the table of refusal
  texts that \<open>model.cpp\<close> composes at compile time from the transition table.
\<close>

section \<open>States and transitions\<close>

datatype ReservationState =
    NoState | Requested | Evaluated | Committing | Reserved | Activating | Active | Deactivating
  | Renewing | Releasing | Reclaiming | Recovering | Released | Expired | Reclaimed | Superseded
  | RefusedState | Retired

definition kReservationStateCount :: nat where "kReservationStateCount = 18"

definition kReservationStateTokens :: "(ReservationState \<times> string) list" where
  "kReservationStateTokens =
     [(NoState, ''none''), (Requested, ''requested''), (Evaluated, ''evaluated''),
      (Committing, ''committing''), (Reserved, ''reserved''), (Activating, ''activating''),
      (Active, ''active''), (Deactivating, ''deactivating''), (Renewing, ''renewing''),
      (Releasing, ''releasing''), (Reclaiming, ''reclaiming''), (Recovering, ''recovering''),
      (Released, ''released''), (Expired, ''expired''), (Reclaimed, ''reclaimed''),
      (Superseded, ''superseded''), (RefusedState, ''refused''), (Retired, ''retired'')]"

definition reservationState_toToken :: "ReservationState \<Rightarrow> string" where
  "reservationState_toToken s = tokenOf s kReservationStateTokens ''none''"

definition reservationStateFromToken :: "string \<Rightarrow> ReservationState" where
  "reservationStateFromToken t = valueOf t kReservationStateTokens NoState"

interpretation state_tokens: token_table kReservationStateTokens
proof
  fix v :: ReservationState
  show "v \<in> fst ` set kReservationStateTokens"
    by (cases v) (simp_all add: kReservationStateTokens_def)
  show "distinct (map fst kReservationStateTokens)"
    by (simp add: kReservationStateTokens_def)
  show "distinct (map snd kReservationStateTokens)"
    by (simp add: kReservationStateTokens_def)
qed

fun transitionAllowed :: "ReservationState \<Rightarrow> ReservationState \<Rightarrow> bool" where
  "transitionAllowed NoState to \<longleftrightarrow> to = Requested"
| "transitionAllowed Requested to \<longleftrightarrow> to = Evaluated \<or> to = RefusedState"
| "transitionAllowed Evaluated to \<longleftrightarrow> to = Committing \<or> to = RefusedState"
| "transitionAllowed Committing to \<longleftrightarrow> to = Reserved \<or> to = RefusedState"
| "transitionAllowed Reserved to \<longleftrightarrow>
     to = Activating \<or> to = Renewing \<or> to = Releasing \<or> to = Reclaiming \<or> to = Expired
     \<or> to = Superseded"
| "transitionAllowed Activating to \<longleftrightarrow> to = Active \<or> to = Reserved \<or> to = Reclaiming"
| "transitionAllowed Active to \<longleftrightarrow>
     to = Deactivating \<or> to = Renewing \<or> to = Releasing \<or> to = Reclaiming \<or> to = Expired
     \<or> to = Superseded"
| "transitionAllowed Deactivating to \<longleftrightarrow>
     to = Reserved \<or> to = Active \<or> to = Releasing \<or> to = Reclaiming"
| "transitionAllowed Renewing to \<longleftrightarrow>
     to = Reserved \<or> to = Active \<or> to = Expired \<or> to = Reclaiming"
| "transitionAllowed Releasing to \<longleftrightarrow> to = Released"
| "transitionAllowed Reclaiming to \<longleftrightarrow> to = Reclaimed"
| "transitionAllowed Expired to \<longleftrightarrow> to = Reclaiming \<or> to = Reclaimed"
| "transitionAllowed Recovering to \<longleftrightarrow> to = Reserved \<or> to = Expired \<or> to = Reclaiming"
| "transitionAllowed Released to \<longleftrightarrow> False"
| "transitionAllowed Reclaimed to \<longleftrightarrow> False"
| "transitionAllowed Superseded to \<longleftrightarrow> False"
| "transitionAllowed RefusedState to \<longleftrightarrow> False"
| "transitionAllowed Retired to \<longleftrightarrow> False"

definition isLegalTransition :: "ReservationState \<Rightarrow> ReservationState \<Rightarrow> bool" where
  "isLegalTransition s t = transitionAllowed s t"

fun isTerminalState :: "ReservationState \<Rightarrow> bool" where
  "isTerminalState Released = True"
| "isTerminalState Reclaimed = True"
| "isTerminalState Superseded = True"
| "isTerminalState RefusedState = True"
| "isTerminalState Retired = True"
| "isTerminalState _ = False"

fun isLiveState :: "ReservationState \<Rightarrow> bool" where
  "isLiveState Reserved = True"
| "isLiveState Activating = True"
| "isLiveState Active = True"
| "isLiveState Deactivating = True"
| "isLiveState Renewing = True"
| "isLiveState Releasing = True"
| "isLiveState Reclaiming = True"
| "isLiveState _ = False"

fun isTransientState :: "ReservationState \<Rightarrow> bool" where
  "isTransientState Requested = True"
| "isTransientState Evaluated = True"
| "isTransientState Committing = True"
| "isTransientState Activating = True"
| "isTransientState Deactivating = True"
| "isTransientState Renewing = True"
| "isTransientState Releasing = True"
| "isTransientState Reclaiming = True"
| "isTransientState Recovering = True"
| "isTransientState _ = False"

definition all_states :: "ReservationState list" where
  "all_states = map fst kReservationStateTokens"

fun state_index :: "ReservationState \<Rightarrow> nat" where
  "state_index NoState = 0"
| "state_index Requested = 1"
| "state_index Evaluated = 2"
| "state_index Committing = 3"
| "state_index Reserved = 4"
| "state_index Activating = 5"
| "state_index Active = 6"
| "state_index Deactivating = 7"
| "state_index Renewing = 8"
| "state_index Releasing = 9"
| "state_index Reclaiming = 10"
| "state_index Recovering = 11"
| "state_index Released = 12"
| "state_index Expired = 13"
| "state_index Reclaimed = 14"
| "state_index Superseded = 15"
| "state_index RefusedState = 16"
| "state_index Retired = 17"

section \<open>The explanation table\<close>

text \<open>
  \<open>used\<close> is the number of characters written so far, so the written part of the fixed buffer is
  a list of that length. A piece that would cross the per-entry limit sets \<open>overflowed\<close> and
  stops the entry, leaving the characters already copied in place.
\<close>

record TransitionReasonTable =
  trt_text :: string
  trt_spans :: "(nat \<times> nat) list"
  trt_overflowed :: bool

definition kTransitionReasonEntryBytes :: nat where "kTransitionReasonEntryBytes = 64"

fun appendTransitionText ::
    "nat \<Rightarrow> string \<Rightarrow> TransitionReasonTable \<Rightarrow> TransitionReasonTable \<times> bool" where
  "appendTransitionText limit [] table = (table, True)"
| "appendTransitionText limit (c # piece) table =
     (if length (trt_text table) \<ge> limit then (table\<lparr>trt_overflowed := True\<rparr>, False)
      else appendTransitionText limit piece (table\<lparr>trt_text := trt_text table @ [c]\<rparr>))"

definition s_arrow :: string where "s_arrow = '' -> ''"
definition s_not_legal :: string where "s_not_legal = '' is not a legal transition''"

fun append_pieces ::
    "nat \<Rightarrow> string list \<Rightarrow> TransitionReasonTable \<Rightarrow> TransitionReasonTable \<times> bool" where
  "append_pieces limit [] table = (table, True)"
| "append_pieces limit (p # ps) table =
     (let (table', complete) = appendTransitionText limit p table
      in if complete then append_pieces limit ps table' else (table', False))"

definition transition_entry ::
    "ReservationState \<times> ReservationState \<Rightarrow> TransitionReasonTable \<Rightarrow> TransitionReasonTable" where
  "transition_entry ft table =
     (case ft of (fromState, toState) \<Rightarrow>
        if transitionAllowed fromState toState then table
        else (let start = length (trt_text table);
                  limit = start + kTransitionReasonEntryBytes;
                  (table', complete) = append_pieces limit
                    [reservationState_toToken fromState, s_arrow, reservationState_toToken toState,
                     s_not_legal] table
              in if \<not> complete then table'
                 else table'\<lparr>trt_spans := (trt_spans table')
                   [state_index fromState * kReservationStateCount + state_index toState :=
                     (start, length (trt_text table') - start)]\<rparr>))"

definition state_pairs :: "(ReservationState \<times> ReservationState) list" where
  "state_pairs = concat (map (\<lambda>f. map (Pair f) all_states) all_states)"

definition kTransitionReasons :: TransitionReasonTable where
  "kTransitionReasons =
     fold transition_entry state_pairs
       \<lparr>trt_text = [], trt_spans = replicate (kReservationStateCount * kReservationStateCount) (0, 0),
        trt_overflowed = False\<rparr>"

definition msg_outside_states :: string where
  "msg_outside_states =
     ''a reservation state outside the defined states has no legal transitions''"

definition illegalTransitionReason :: "ReservationState \<Rightarrow> ReservationState \<Rightarrow> string" where
  "illegalTransitionReason s t =
     (let fromIndex = state_index s; toIndex = state_index t
      in if fromIndex \<ge> kReservationStateCount \<or> toIndex \<ge> kReservationStateCount
         then msg_outside_states
         else let span = trt_spans kTransitionReasons ! (fromIndex * kReservationStateCount + toIndex)
              in if snd span = 0 then []
                 else take (snd span) (drop (fst span) (trt_text kTransitionReasons)))"

section \<open>Properties of the state machine\<close>

lemma terminal_no_exit: "isTerminalState s \<Longrightarrow> \<not> transitionAllowed s t"
  by (cases s) auto

lemma terminal_iff_stuck: "isTerminalState s \<longleftrightarrow> (\<forall>t. \<not> transitionAllowed s t)"
  by (cases s) auto

lemma live_not_terminal: "isLiveState s \<Longrightarrow> \<not> isTerminalState s"
  by (cases s) auto

lemma no_self_transition: "\<not> transitionAllowed s s"
  by (cases s) auto

text \<open>Ownership begins at a commit (or a recovery) and nowhere else.\<close>

lemma live_entry:
  "transitionAllowed s t \<Longrightarrow> \<not> isLiveState s \<Longrightarrow> isLiveState t \<Longrightarrow>
   (s = Committing \<and> t = Reserved) \<or> (s = Recovering \<and> (t = Reserved \<or> t = Reclaiming))
   \<or> (s = Expired \<and> t = Reclaiming)"
  by (cases s) auto

subsection \<open>The explanation table is complete\<close>

definition reason_text :: "ReservationState \<Rightarrow> ReservationState \<Rightarrow> string" where
  "reason_text s t = reservationState_toToken s @ s_arrow @ reservationState_toToken t @ s_not_legal"

lemma appendTransitionText_fits:
  "length (trt_text table) + length piece \<le> limit \<Longrightarrow>
   appendTransitionText limit piece table = (table\<lparr>trt_text := trt_text table @ piece\<rparr>, True)"
  by (induction piece arbitrary: table) auto

lemma append_pieces_fits:
  "length (trt_text table) + length (concat ps) \<le> limit \<Longrightarrow>
   append_pieces limit ps table = (table\<lparr>trt_text := trt_text table @ concat ps\<rparr>, True)"
  by (induction ps arbitrary: table) (auto simp: appendTransitionText_fits)

lemma token_length: "length (reservationState_toToken s) \<le> 12"
  by (cases s) (simp_all add: reservationState_toToken_def kReservationStateTokens_def)

lemma reason_text_length: "length (reason_text s t) \<le> 64" "reason_text s t \<noteq> []"
  using token_length [of s] token_length [of t]
  by (simp_all add: reason_text_def s_arrow_def s_not_legal_def)

lemma transition_entry_eq:
  "transition_entry (s, t) table =
     (if transitionAllowed s t then table
      else table\<lparr>trt_text := trt_text table @ reason_text s t,
                 trt_spans := (trt_spans table)[state_index s * 18 + state_index t :=
                   (length (trt_text table), length (reason_text s t))]\<rparr>)"
proof -
  have "length (trt_text table) + length (concat
      [reservationState_toToken s, s_arrow, reservationState_toToken t, s_not_legal])
    \<le> length (trt_text table) + 64"
    using reason_text_length(1) [of s t] by (simp add: reason_text_def)
  from append_pieces_fits [OF this] show ?thesis
    by (simp add: transition_entry_def Let_def kTransitionReasonEntryBytes_def reason_text_def
        kReservationStateCount_def)
qed

lemma state_index_bound: "state_index s < 18"
  by (cases s) auto

lemma state_index_inj: "state_index s = state_index t \<Longrightarrow> s = t"
  by (cases s; cases t) simp_all

lemma pair_index_inj:
  assumes "state_index s * 18 + state_index t = state_index s' * 18 + state_index t'"
  shows "s = s' \<and> t = t'"
proof -
  have "(state_index s * 18 + state_index t) div 18 = state_index s"
    "(state_index s' * 18 + state_index t') div 18 = state_index s'"
    using state_index_bound by simp_all
  then have "state_index s = state_index s'"
    using assms by simp
  then show ?thesis
    using assms state_index_inj by auto
qed

definition table_entry_ok ::
    "TransitionReasonTable \<Rightarrow> ReservationState \<times> ReservationState \<Rightarrow> bool" where
  "table_entry_ok table ft \<longleftrightarrow>
     (case ft of (s, t) \<Rightarrow>
        let span = trt_spans table ! (state_index s * 18 + state_index t)
        in fst span + snd span \<le> length (trt_text table)
           \<and> snd span = length (reason_text s t)
           \<and> take (snd span) (drop (fst span) (trt_text table)) = reason_text s t)"

lemma table_entry_ok_step:
  assumes "length (trt_spans table) = 324" and "\<not> transitionAllowed s t"
  shows "table_entry_ok (transition_entry (s, t) table) (s, t)"
proof -
  have "state_index s * 18 + state_index t < 324"
    using state_index_bound [of s] state_index_bound [of t] by linarith
  then show ?thesis
    using assms by (simp add: table_entry_ok_def transition_entry_eq)
qed

lemma table_entry_ok_other:
  assumes "length (trt_spans table) = 324" and "table_entry_ok table p" and "p \<noteq> q"
  shows "table_entry_ok (transition_entry q table) p"
proof -
  obtain s t s' t' where p: "p = (s, t)" and q: "q = (s', t')"
    by (cases p, cases q)
  have "state_index s * 18 + state_index t \<noteq> state_index s' * 18 + state_index t'"
    using pair_index_inj assms(3) p q by blast
  then show ?thesis
    using assms p q by (auto simp: table_entry_ok_def transition_entry_eq Let_def)
qed

lemma fold_table:
  assumes "distinct ps" and "length (trt_spans table) = 324"
    and "\<And>p. p \<in> set ps \<Longrightarrow> trt_spans table ! (state_index (fst p) * 18 + state_index (snd p)) = (0, 0)"
  shows "length (trt_spans (fold transition_entry ps table)) = 324"
    and "trt_overflowed (fold transition_entry ps table) = trt_overflowed table"
    and "p \<in> set ps \<Longrightarrow> \<not> transitionAllowed (fst p) (snd p) \<Longrightarrow>
       table_entry_ok (fold transition_entry ps table) p"
    and "table_entry_ok table q \<Longrightarrow> q \<notin> set ps \<Longrightarrow> table_entry_ok (fold transition_entry ps table) q"
    and "transitionAllowed (fst q) (snd q) \<or> q \<notin> set ps \<Longrightarrow>
       trt_spans (fold transition_entry ps table) ! (state_index (fst q) * 18 + state_index (snd q))
       = trt_spans table ! (state_index (fst q) * 18 + state_index (snd q))"
proof -
  have "length (trt_spans (fold transition_entry ps table)) = 324
    \<and> trt_overflowed (fold transition_entry ps table) = trt_overflowed table
    \<and> (\<forall>p \<in> set ps. \<not> transitionAllowed (fst p) (snd p) \<longrightarrow>
         table_entry_ok (fold transition_entry ps table) p)
    \<and> (\<forall>q. q \<notin> set ps \<longrightarrow> table_entry_ok table q \<longrightarrow>
         table_entry_ok (fold transition_entry ps table) q)
    \<and> (\<forall>q. (transitionAllowed (fst q) (snd q) \<or> q \<notin> set ps) \<longrightarrow>
         trt_spans (fold transition_entry ps table) ! (state_index (fst q) * 18 + state_index (snd q))
         = trt_spans table ! (state_index (fst q) * 18 + state_index (snd q)))"
    using assms(1,2)
  proof (induction ps arbitrary: table)
    case Nil
    then show ?case by simp
  next
    case (Cons p ps)
    define table' where "table' = transition_entry p table"
    have len: "length (trt_spans table') = 324"
      and ov: "trt_overflowed table' = trt_overflowed table"
      using Cons.prems by (cases p; simp add: table'_def transition_entry_eq)+
    have same: "trt_spans table' ! (state_index (fst q) * 18 + state_index (snd q))
        = trt_spans table ! (state_index (fst q) * 18 + state_index (snd q))"
      if "transitionAllowed (fst q) (snd q) \<or> q \<noteq> p" for q
    proof (cases "q = p")
      case True
      then show ?thesis using that by (cases p) (simp add: table'_def transition_entry_eq)
    next
      case False
      then have "state_index (fst p) * 18 + state_index (snd p)
          \<noteq> state_index (fst q) * 18 + state_index (snd q)"
        using pair_index_inj by (metis prod.collapse)
      then show ?thesis by (cases p) (simp add: table'_def transition_entry_eq)
    qed
    have own: "\<not> transitionAllowed (fst p) (snd p) \<Longrightarrow> table_entry_ok table' p"
      using table_entry_ok_step [of table "fst p" "snd p"] Cons.prems by (simp add: table'_def)
    have other: "table_entry_ok table q \<Longrightarrow> q \<noteq> p \<Longrightarrow> table_entry_ok table' q" for q
      using table_entry_ok_other [of table q p] Cons.prems by (simp add: table'_def)
    have IH: "length (trt_spans (fold transition_entry ps table')) = 324
      \<and> trt_overflowed (fold transition_entry ps table') = trt_overflowed table'
      \<and> (\<forall>p \<in> set ps. \<not> transitionAllowed (fst p) (snd p) \<longrightarrow>
           table_entry_ok (fold transition_entry ps table') p)
      \<and> (\<forall>q. q \<notin> set ps \<longrightarrow> table_entry_ok table' q \<longrightarrow>
           table_entry_ok (fold transition_entry ps table') q)
      \<and> (\<forall>q. (transitionAllowed (fst q) (snd q) \<or> q \<notin> set ps) \<longrightarrow>
           trt_spans (fold transition_entry ps table') ! (state_index (fst q) * 18 + state_index (snd q))
           = trt_spans table' ! (state_index (fst q) * 18 + state_index (snd q)))"
      using Cons.IH [of table'] Cons.prems len by simp
    have step: "fold transition_entry (p # ps) table = fold transition_entry ps table'"
      by (simp add: table'_def)
    note len' = IH [THEN conjunct1]
      and ov' = IH [THEN conjunct2, THEN conjunct1]
      and mem' = IH [THEN conjunct2, THEN conjunct2, THEN conjunct1]
      and other' = IH [THEN conjunct2, THEN conjunct2, THEN conjunct2, THEN conjunct1]
      and same' = IH [THEN conjunct2, THEN conjunct2, THEN conjunct2, THEN conjunct2]
    have fresh: "p \<notin> set ps"
      using Cons.prems(1) by simp
    show ?case
      unfolding step
    proof (intro conjI)
      show "\<forall>q \<in> set (p # ps). \<not> transitionAllowed (fst q) (snd q) \<longrightarrow>
         table_entry_ok (fold transition_entry ps table') q"
        using mem' other' own fresh by (metis set_ConsD)
      show "\<forall>q. q \<notin> set (p # ps) \<longrightarrow> table_entry_ok table q \<longrightarrow>
         table_entry_ok (fold transition_entry ps table') q"
        using other' other by (metis list.set_intros)
      show "\<forall>q. (transitionAllowed (fst q) (snd q) \<or> q \<notin> set (p # ps)) \<longrightarrow>
         trt_spans (fold transition_entry ps table') ! (state_index (fst q) * 18 + state_index (snd q))
         = trt_spans table ! (state_index (fst q) * 18 + state_index (snd q))"
        using same' same by (metis list.set_intros)
    qed (use len' ov' ov in simp_all)
  qed
  then show "length (trt_spans (fold transition_entry ps table)) = 324"
    and "trt_overflowed (fold transition_entry ps table) = trt_overflowed table"
    and "p \<in> set ps \<Longrightarrow> \<not> transitionAllowed (fst p) (snd p) \<Longrightarrow>
       table_entry_ok (fold transition_entry ps table) p"
    and "table_entry_ok table q \<Longrightarrow> q \<notin> set ps \<Longrightarrow> table_entry_ok (fold transition_entry ps table) q"
    and "transitionAllowed (fst q) (snd q) \<or> q \<notin> set ps \<Longrightarrow>
       trt_spans (fold transition_entry ps table) ! (state_index (fst q) * 18 + state_index (snd q))
       = trt_spans table ! (state_index (fst q) * 18 + state_index (snd q))"
    by blast+
qed

lemma distinct_all_states: "distinct all_states"
  by (simp add: all_states_def state_tokens.distinct_values)

lemma set_all_states: "s \<in> set all_states"
  using state_tokens.complete [of s] by (auto simp: all_states_def)

lemma distinct_state_pairs: "distinct state_pairs"
proof -
  have "distinct (List.product all_states all_states)"
    by (simp add: distinct_product distinct_all_states)
  then show ?thesis
    by (simp add: state_pairs_def product_concat_map)
qed

lemma illegalTransitionReason_correct:
  "illegalTransitionReason s t = (if isLegalTransition s t then [] else reason_text s t)"
  and reasons_not_overflowed: "\<not> trt_overflowed kTransitionReasons"
proof -
  define init where "init = \<lparr>trt_text = [], trt_spans = replicate (18 * 18) (0, 0), trt_overflowed = False\<rparr>"
  have idx: "state_index a * 18 + state_index b < 324" for a b
    using state_index_bound [of a] state_index_bound [of b] by linarith
  have table: "kTransitionReasons = fold transition_entry state_pairs init"
    by (simp add: kTransitionReasons_def init_def kReservationStateCount_def)
  have zero: "trt_spans init ! (state_index a * 18 + state_index b) = (0, 0)" for a b
    using idx [of a b] by (simp add: init_def)
  have len: "length (trt_spans init) = 324"
    by (simp add: init_def)
  note fold = fold_table [OF distinct_state_pairs len zero, folded table]
  show "\<not> trt_overflowed kTransitionReasons"
    using fold(2) by (simp add: init_def)
  have mem: "(s, t) \<in> set state_pairs"
    by (simp add: state_pairs_def product_concat_map [symmetric] set_all_states)
  show "illegalTransitionReason s t = (if isLegalTransition s t then [] else reason_text s t)"
  proof (cases "transitionAllowed s t")
    case True
    then have "trt_spans kTransitionReasons ! (state_index s * 18 + state_index t) = (0, 0)"
      using fold(5) [of "(s, t)"] zero by simp
    then show ?thesis
      using True state_index_bound [of s] state_index_bound [of t]
      by (simp add: illegalTransitionReason_def isLegalTransition_def kReservationStateCount_def)
  next
    case False
    define span where "span = trt_spans kTransitionReasons ! (state_index s * 18 + state_index t)"
    have "table_entry_ok kTransitionReasons (s, t)"
      using fold(3) [of "(s, t)"] mem False by simp
    then have "snd span = length (reason_text s t) \<and>
      take (snd span) (drop (fst span) (trt_text kTransitionReasons)) = reason_text s t"
      unfolding table_entry_ok_def span_def Let_def prod.case by blast
    then have "snd span = length (reason_text s t)"
      and "take (length (reason_text s t)) (drop (fst span) (trt_text kTransitionReasons)) = reason_text s t"
      by metis+
    then show ?thesis
      using False state_index_bound [of s] state_index_bound [of t] reason_text_length(2) [of s t]
      by (simp add: illegalTransitionReason_def isLegalTransition_def kReservationStateCount_def
          span_def [symmetric] Let_def)
  qed
qed

text \<open>
  The compile-time table of transition reasons is complete: its buffer never overflows, and
  looking up any pair of states returns the full explanation of the illegal transition, or the
  empty text when the transition is legal.
\<close>

lemma transition_reasons_are_complete:
  "illegalTransitionReason s t = (if isLegalTransition s t then [] else reason_text s t)
   \<and> \<not> trt_overflowed kTransitionReasons"
  using illegalTransitionReason_correct reasons_not_overflowed by blast

text \<open>
  The reservation state machine: a state is terminal exactly when no transition leaves it, no state
  that owns spectrum is terminal, no transition is a self-loop, and the only ways into the owning
  states are the commit, durable recovery and the accounting step that reclaims an expired
  reservation.
\<close>

lemma terminal_states_are_final:
  "(isTerminalState s \<longleftrightarrow> (\<forall>t. \<not> isLegalTransition s t))
   \<and> (isLiveState s \<longrightarrow> \<not> isTerminalState s)
   \<and> \<not> isLegalTransition s s
   \<and> (isLegalTransition s t \<and> \<not> isLiveState s \<and> isLiveState t \<longrightarrow>
        (s = Committing \<and> t = Reserved) \<or> (s = Recovering \<and> (t = Reserved \<or> t = Reclaiming))
        \<or> (s = Expired \<and> t = Reclaiming))"
  using terminal_iff_stuck live_not_terminal no_self_transition live_entry
  unfolding isLegalTransition_def by blast

end
