(* ===== verification/Reservation.thy ===== *)
theory Reservation
  imports Request Lifecycle_State
begin

text \<open>
  \<open>candidate.hpp\<close>, \<open>reservation.hpp\<close>, \<open>decision.hpp\<close> and \<open>audit.hpp\<close>: the values the runtime
  produces, with their token tables. Field names carry a prefix per record; default member
  initialisers are the \<open>default_\<close> constants.
\<close>

section \<open>Candidates\<close>

datatype CandidateEligibility =
    Eligible | IneligibleUnsupported | IneligibleUnknownCapability | IneligibleStaleCapability
  | IneligibleStaleDomain | IneligibleOutsideWindow | IneligibleOutsideTunable
  | IneligibleExcluded | IneligibleConflict | IneligibleContiguity | IneligibleConversionRequired
  | IneligibleChannelWidth | IneligibleGuardBand | IneligibleNoGrid | IneligibleUnknown

definition kCandidateEligibilityTokens :: "(CandidateEligibility \<times> string) list" where
  "kCandidateEligibilityTokens =
     [(Eligible, ''eligible''), (IneligibleUnsupported, ''ineligible-unsupported''),
      (IneligibleUnknownCapability, ''ineligible-unknown-capability''),
      (IneligibleStaleCapability, ''ineligible-stale-capability''),
      (IneligibleStaleDomain, ''ineligible-stale-domain''),
      (IneligibleOutsideWindow, ''ineligible-outside-window''),
      (IneligibleOutsideTunable, ''ineligible-outside-tunable''),
      (IneligibleExcluded, ''ineligible-excluded''),
      (IneligibleConflict, ''ineligible-conflict''),
      (IneligibleContiguity, ''ineligible-contiguity''),
      (IneligibleConversionRequired, ''ineligible-conversion-required''),
      (IneligibleChannelWidth, ''ineligible-channel-width''),
      (IneligibleGuardBand, ''ineligible-guard-band''), (IneligibleNoGrid, ''ineligible-no-grid''),
      (IneligibleUnknown, ''ineligible-unknown'')]"

definition eligibility_toToken :: "CandidateEligibility \<Rightarrow> string" where
  "eligibility_toToken e = tokenOf e kCandidateEligibilityTokens ''ineligible-unknown''"

definition candidateEligibilityFromToken :: "string \<Rightarrow> CandidateEligibility" where
  "candidateEligibilityFromToken t = valueOf t kCandidateEligibilityTokens IneligibleUnknown"

definition isEligible :: "CandidateEligibility \<Rightarrow> bool" where
  "isEligible e \<longleftrightarrow> e = Eligible"

interpretation eligibility_tokens: token_table kCandidateEligibilityTokens
proof
  fix v :: CandidateEligibility
  show "v \<in> fst ` set kCandidateEligibilityTokens"
    by (cases v) (simp_all add: kCandidateEligibilityTokens_def)
  show "distinct (map fst kCandidateEligibilityTokens)"
    by (simp add: kCandidateEligibilityTokens_def)
  show "distinct (map snd kCandidateEligibilityTokens)"
    by (simp add: kCandidateEligibilityTokens_def)
qed

record SpectrumCandidate =
  cand_ordinal :: nat
  cand_anchorDomain :: SpectrumDomainId
  cand_slots :: SlotRange
  cand_frequency :: FrequencyRange
  cand_eligibility :: CandidateEligibility
  cand_conflicts :: "ReservationId list"
  cand_perDomainSlots :: "SlotRange list"
  cand_crossGrid :: bool
  cand_detail :: string

definition default_candidate :: SpectrumCandidate where
  "default_candidate =
     \<lparr>cand_ordinal = 0, cand_anchorDomain = sv_none, cand_slots = default_slots,
      cand_frequency = default_frequency, cand_eligibility = Eligible, cand_conflicts = [],
      cand_perDomainSlots = [], cand_crossGrid = False, cand_detail = []\<rparr>"

record CandidateSet =
  cset_status :: Status
  cset_candidates :: "SpectrumCandidate list"
  cset_eligibleCount :: nat
  cset_omitted :: nat
  cset_complete :: bool
  cset_summary :: string

definition default_candidate_set :: CandidateSet where
  "default_candidate_set =
     \<lparr>cset_status = okStatus, cset_candidates = [], cset_eligibleCount = 0, cset_omitted = 0,
      cset_complete = True, cset_summary = []\<rparr>"

section \<open>Reservations and leases\<close>

record Lease =
  lease_generation :: LeaseGeneration
  lease_grantedAt :: Instant
  lease_expiresAt :: Instant
  lease_renewalCount :: nat
  lease_maxRenewals :: nat

definition default_lease :: Lease where
  "default_lease = \<lparr>lease_generation = sv_none, lease_grantedAt = 0, lease_expiresAt = 0,
     lease_renewalCount = 0, lease_maxRenewals = 0\<rparr>"

definition lease_validAt :: "Lease \<Rightarrow> Instant \<Rightarrow> bool" where
  "lease_validAt l now \<longleftrightarrow> lease_expiresAt l > now"

definition lease_expiredAt :: "Lease \<Rightarrow> Instant \<Rightarrow> bool" where
  "lease_expiredAt l now \<longleftrightarrow> \<not> lease_validAt l now"

definition lease_renewable :: "Lease \<Rightarrow> bool" where
  "lease_renewable l \<longleftrightarrow> lease_maxRenewals l = 0 \<or> lease_renewalCount l < lease_maxRenewals l"

record SpectrumReservation =
  res_id :: ReservationId
  res_generation :: ReservationGeneration
  res_requestId :: AllocationRequestId
  res_requestGeneration :: AllocationRequestGeneration
  res_owner :: OwnerId
  res_ownerGeneration :: OwnerGeneration
  res_state :: ReservationState
  res_domains :: "SpectrumDomainId list"
  res_domainGenerations :: "SpectrumDomainGeneration list"
  res_anchorDomain :: SpectrumDomainId
  res_grid :: ChannelGridId
  res_gridGeneration :: GridGeneration
  res_slots :: SlotRange
  res_frequency :: FrequencyRange
  res_perDomainSlots :: "SlotRange list"
  res_crossGrid :: bool
  res_contiguityRequired :: bool
  res_continuityRequired :: bool
  res_guardBandMhz :: int
  res_exclusionDomain :: ExclusionDomainId
  res_lease :: Lease
  res_createdAt :: Instant
  res_updatedAt :: Instant
  res_activatedAt :: Instant
  res_deactivatedAt :: Instant
  res_releasedAt :: Instant
  res_reclaimedAt :: Instant
  res_capabilityGeneration :: CapabilityGeneration
  res_commitFence :: ControllerFence
  res_lastOperation :: OperationGeneration
  res_needsRevalidation :: bool
  res_detail :: string

definition default_reservation :: SpectrumReservation where
  "default_reservation =
     \<lparr>res_id = sv_none, res_generation = sv_none, res_requestId = sv_none,
      res_requestGeneration = sv_none, res_owner = sv_none, res_ownerGeneration = sv_none,
      res_state = NoState, res_domains = [], res_domainGenerations = [],
      res_anchorDomain = sv_none, res_grid = sv_none, res_gridGeneration = sv_none,
      res_slots = default_slots, res_frequency = default_frequency, res_perDomainSlots = [],
      res_crossGrid = False, res_contiguityRequired = False, res_continuityRequired = False,
      res_guardBandMhz = 0, res_exclusionDomain = sv_none, res_lease = default_lease,
      res_createdAt = 0, res_updatedAt = 0, res_activatedAt = 0, res_deactivatedAt = 0,
      res_releasedAt = 0, res_reclaimedAt = 0, res_capabilityGeneration = sv_none,
      res_commitFence = default_fence, res_lastOperation = sv_none, res_needsRevalidation = False,
      res_detail = []\<rparr>"

text \<open>\<open>SpectrumReservation::isLiveAt\<close> and \<open>detail::isLiveAt\<close>.\<close>

definition isLiveAt :: "SpectrumReservation \<Rightarrow> Instant \<Rightarrow> bool" where
  "isLiveAt r now \<longleftrightarrow> isLiveState (res_state r) \<and> lease_validAt (res_lease r) now"

record SpectrumUsage =
  use_domain :: SpectrumDomainId
  use_domainGeneration :: SpectrumDomainGeneration
  use_grid :: ChannelGridId
  use_gridGeneration :: GridGeneration
  use_totalSlots :: nat
  use_allocatableSlots :: nat
  use_liveSlots :: nat
  use_activeSlots :: nat
  use_reservedSlots :: nat
  use_freeSlots :: nat
  use_lapsedSlots :: nat
  use_liveReservations :: nat
  use_activeReservations :: nat
  use_lapsedReservations :: nat
  use_reclaimedReservations :: nat
  use_releasedReservations :: nat
  use_freeRuns :: "SlotRange list"

section \<open>Decisions\<close>

datatype AllocationOutcome =
    Allocated | RefusedUnsupported | RefusedUnknownCapability | RefusedNoCapacity
  | RefusedConflict | RefusedContiguity | RefusedContinuity | RefusedConversion
  | RefusedConstraint | RefusedExclusion | RefusedStaleGeneration | RefusedStaleIncarnation
  | RefusedStaleEpoch | RefusedStaleAuthority | RefusedStaleCapability | RefusedDuplicate
  | RefusedInvalidRequest | RefusedLeaseExpired | RefusedLimitExceeded | RefusedUnknownDomain
  | RefusedNotPermitted | RefusedChannelWidth | OutcomeUnknown

definition kAllocationOutcomeTokens :: "(AllocationOutcome \<times> string) list" where
  "kAllocationOutcomeTokens =
     [(Allocated, ''allocated''), (RefusedUnsupported, ''refused-unsupported''),
      (RefusedUnknownCapability, ''refused-unknown-capability''),
      (RefusedNoCapacity, ''refused-no-capacity''), (RefusedConflict, ''refused-conflict''),
      (RefusedContiguity, ''refused-contiguity''), (RefusedContinuity, ''refused-continuity''),
      (RefusedConversion, ''refused-conversion''), (RefusedConstraint, ''refused-constraint''),
      (RefusedExclusion, ''refused-exclusion''),
      (RefusedStaleGeneration, ''refused-stale-generation''),
      (RefusedStaleIncarnation, ''refused-stale-incarnation''),
      (RefusedStaleEpoch, ''refused-stale-epoch''),
      (RefusedStaleAuthority, ''refused-stale-authority''),
      (RefusedStaleCapability, ''refused-stale-capability''),
      (RefusedDuplicate, ''refused-duplicate''),
      (RefusedInvalidRequest, ''refused-invalid-request''),
      (RefusedLeaseExpired, ''refused-lease-expired''),
      (RefusedLimitExceeded, ''refused-limit-exceeded''),
      (RefusedUnknownDomain, ''refused-unknown-domain''),
      (RefusedNotPermitted, ''refused-not-permitted''),
      (RefusedChannelWidth, ''refused-channel-width''), (OutcomeUnknown, ''unknown'')]"

definition outcome_toToken :: "AllocationOutcome \<Rightarrow> string" where
  "outcome_toToken o1 = tokenOf o1 kAllocationOutcomeTokens ''unknown''"

definition allocationOutcomeFromToken :: "string \<Rightarrow> AllocationOutcome" where
  "allocationOutcomeFromToken t = valueOf t kAllocationOutcomeTokens OutcomeUnknown"

definition isRefusal :: "AllocationOutcome \<Rightarrow> bool" where
  "isRefusal o1 \<longleftrightarrow> o1 \<noteq> Allocated \<and> o1 \<noteq> OutcomeUnknown"

interpretation outcome_tokens: token_table kAllocationOutcomeTokens
proof
  fix v :: AllocationOutcome
  show "v \<in> fst ` set kAllocationOutcomeTokens"
    by (cases v) (simp_all add: kAllocationOutcomeTokens_def)
  show "distinct (map fst kAllocationOutcomeTokens)"
    by (simp add: kAllocationOutcomeTokens_def)
  show "distinct (map snd kAllocationOutcomeTokens)"
    by (simp add: kAllocationOutcomeTokens_def)
qed

record DecisionExplanation =
  exp_outcome :: AllocationOutcome
  exp_reservation :: ReservationId
  exp_generation :: ReservationGeneration
  exp_fence :: ControllerFence
  exp_candidatesEnumerated :: nat
  exp_candidatesRejected :: nat
  exp_candidatesOmitted :: nat
  exp_candidateOrdinal :: nat
  exp_selected :: SpectrumCandidate
  exp_rejected :: "SpectrumCandidate list"
  exp_conflicts :: "ReservationId list"
  exp_reasons :: "string list"

definition default_explanation :: DecisionExplanation where
  "default_explanation =
     \<lparr>exp_outcome = OutcomeUnknown, exp_reservation = sv_none, exp_generation = sv_none,
      exp_fence = default_fence, exp_candidatesEnumerated = 0, exp_candidatesRejected = 0,
      exp_candidatesOmitted = 0, exp_candidateOrdinal = 0, exp_selected = default_candidate,
      exp_rejected = [], exp_conflicts = [], exp_reasons = []\<rparr>"

record AllocationDecision =
  dec_status :: Status
  dec_outcome :: AllocationOutcome
  dec_reservation :: ReservationId
  dec_generation :: ReservationGeneration
  dec_explanation :: DecisionExplanation

definition dec_allocated :: "AllocationDecision \<Rightarrow> bool" where
  "dec_allocated d \<longleftrightarrow> status_ok (dec_status d) \<and> dec_outcome d = Allocated"

record ReclaimReport =
  rep_status :: Status
  rep_evaluatedAt :: Instant
  rep_fence :: ControllerFence
  rep_scanned :: nat
  rep_expired :: nat
  rep_reclaimed :: "ReservationId list"
  rep_lapsed :: "ReservationId list"

section \<open>Audit records\<close>

datatype AuditKind =
    NoAudit | RuntimeOpened | RecoveryPerformed | GridRegistered | SpanRegistered | PortRegistered
  | DomainRegistered | ExclusionDomainRegistered | CapabilityPublished | RequestEvaluated
  | AllocationCommitted | AllocationRefused | ReservationRenewed | ReservationActivated
  | ReservationDeactivated | ReservationReleased | ReservationExpired | ReservationReclaimed
  | ReservationSuperseded | AuthorityAdvanced | PersistenceFlushed | PersistenceFailed
  | CorruptionDetected | ReplayRejected | StateReset

definition kAuditKindTokens :: "(AuditKind \<times> string) list" where
  "kAuditKindTokens =
     [(NoAudit, ''none''), (RuntimeOpened, ''runtime-opened''),
      (RecoveryPerformed, ''recovery-performed''), (GridRegistered, ''grid-registered''),
      (SpanRegistered, ''span-registered''), (PortRegistered, ''port-registered''),
      (DomainRegistered, ''domain-registered''),
      (ExclusionDomainRegistered, ''exclusion-domain-registered''),
      (CapabilityPublished, ''capability-published''), (RequestEvaluated, ''request-evaluated''),
      (AllocationCommitted, ''allocation-committed''),
      (AllocationRefused, ''allocation-refused''), (ReservationRenewed, ''reservation-renewed''),
      (ReservationActivated, ''reservation-activated''),
      (ReservationDeactivated, ''reservation-deactivated''),
      (ReservationReleased, ''reservation-released''),
      (ReservationExpired, ''reservation-expired''),
      (ReservationReclaimed, ''reservation-reclaimed''),
      (ReservationSuperseded, ''reservation-superseded''),
      (AuthorityAdvanced, ''authority-advanced''), (PersistenceFlushed, ''persistence-flushed''),
      (PersistenceFailed, ''persistence-failed''), (CorruptionDetected, ''corruption-detected''),
      (ReplayRejected, ''replay-rejected''), (StateReset, ''state-reset'')]"

definition auditKind_toToken :: "AuditKind \<Rightarrow> string" where
  "auditKind_toToken k = tokenOf k kAuditKindTokens ''none''"

definition auditKindFromToken :: "string \<Rightarrow> AuditKind" where
  "auditKindFromToken t = valueOf t kAuditKindTokens NoAudit"

interpretation audit_tokens: token_table kAuditKindTokens
proof
  fix v :: AuditKind
  show "v \<in> fst ` set kAuditKindTokens"
    by (cases v) (simp_all add: kAuditKindTokens_def)
  show "distinct (map fst kAuditKindTokens)"
    by (simp add: kAuditKindTokens_def)
  show "distinct (map snd kAuditKindTokens)"
    by (simp add: kAuditKindTokens_def)
qed

record AuditRecord =
  aud_sequence :: AuditSequence
  aud_at :: Instant
  aud_kind :: AuditKind
  aud_fence :: ControllerFence
  aud_outcome :: AllocationOutcome
  aud_reservation :: ReservationId
  aud_reservationGeneration :: ReservationGeneration
  aud_domain :: SpectrumDomainId
  aud_slots :: SlotRange
  aud_frequency :: FrequencyRange
  aud_detail :: string

section \<open>Recovery reports, configuration and statistics\<close>

record RecoveryReport =
  rec_status :: Status
  rec_recovered :: bool
  rec_source :: string
  rec_fence :: ControllerFence
  rec_runtimeGeneration :: RuntimeGeneration
  rec_recoveryGeneration :: RecoveryGeneration
  rec_recordsRead :: u64
  rec_recordsAccepted :: u64
  rec_recordsRejected :: u64
  rec_gridsRestored :: nat
  rec_domainsRestored :: nat
  rec_exclusionDomainsRestored :: nat
  rec_capabilitiesRestored :: nat
  rec_reservationsRestored :: nat
  rec_auditsRestored :: nat
  rec_demotedFromActive :: nat
  rec_diagnostics :: "string list"

record RuntimeConfig =
  cfg_maxGrids :: nat
  cfg_maxDomains :: nat
  cfg_maxExclusionDomains :: nat
  cfg_maxReservations :: nat
  cfg_maxAuditRecords :: nat
  cfg_maxCandidatesPerRequest :: nat
  cfg_maxRejectedExplanations :: nat
  cfg_maxAuditPageSize :: nat
  cfg_maxStateBytes :: u64
  cfg_statePath :: string
  cfg_durableCommits :: bool
  cfg_fsyncState :: bool
  cfg_controller :: ControllerId

definition default_config :: RuntimeConfig where
  "default_config =
     \<lparr>cfg_maxGrids = 4096, cfg_maxDomains = 16384, cfg_maxExclusionDomains = 4096,
      cfg_maxReservations = 1048576, cfg_maxAuditRecords = 65536,
      cfg_maxCandidatesPerRequest = kMaxCandidatesPerRequest, cfg_maxRejectedExplanations = 16,
      cfg_maxAuditPageSize = 4096, cfg_maxStateBytes = 268435456, cfg_statePath = [],
      cfg_durableCommits = False, cfg_fsyncState = True, cfg_controller = StrongValue 1\<rparr>"

record RuntimeStats =
  st_allocationsCommitted :: u64
  st_allocationsRefused :: u64
  st_candidatesEvaluated :: u64
  st_enumerationTruncations :: u64
  st_renewals :: u64
  st_releases :: u64
  st_activations :: u64
  st_deactivations :: u64
  st_expirationSweeps :: u64
  st_reclamations :: u64
  st_persistenceWrites :: u64
  st_persistenceFailures :: u64
  st_replayRejections :: u64
  st_corruptionDetections :: u64

definition default_stats :: RuntimeStats where
  "default_stats =
     \<lparr>st_allocationsCommitted = 0, st_allocationsRefused = 0, st_candidatesEvaluated = 0,
      st_enumerationTruncations = 0, st_renewals = 0, st_releases = 0, st_activations = 0,
      st_deactivations = 0, st_expirationSweeps = 0, st_reclamations = 0,
      st_persistenceWrites = 0, st_persistenceFailures = 0, st_replayRejections = 0,
      st_corruptionDetections = 0\<rparr>"

text \<open>
  Every enumerator of the eight token tables survives printing and parsing, so no two enumerators
  share a token; and only the token of Supported is ever parsed as Supported, so an unknown word
  never turns into a usable capability.
\<close>

lemma tokens_round_trip:
  "reservationStateFromToken (reservationState_toToken st) = st
   \<and> allocationOutcomeFromToken (outcome_toToken oc) = oc
   \<and> auditKindFromToken (auditKind_toToken ak) = ak
   \<and> statusCodeFromToken (statusCode_toToken sc) = sc
   \<and> resourceClassFromToken (resourceClass_toToken rc) = rc
   \<and> candidateEligibilityFromToken (eligibility_toToken ce) = ce
   \<and> supportFromToken (support_toToken su) = su
   \<and> (supportFromToken token = Supported \<longrightarrow> token = support_toToken Supported)"
proof -
  have "supportFromToken (support_toToken su) = su"
    by (simp add: supportFromToken_def support_toToken_def support_tokens.value_of_token)
  moreover have "supportFromToken token = Supported \<longrightarrow> token = support_toToken Supported"
    by (simp add: supportFromToken_supported)
  ultimately show ?thesis
    by (simp add: reservationStateFromToken_def reservationState_toToken_def allocationOutcomeFromToken_def
        outcome_toToken_def auditKindFromToken_def auditKind_toToken_def statusCodeFromToken_def
        statusCode_toToken_def resourceClassFromToken_def resourceClass_toToken_def
        candidateEligibilityFromToken_def eligibility_toToken_def
        state_tokens.value_of_token outcome_tokens.value_of_token audit_tokens.value_of_token
        status_tokens.value_of_token class_tokens.value_of_token eligibility_tokens.value_of_token)
qed

end
