(* ===== verification/Ordered_Map.thy ===== *)
theory Ordered_Map
  imports Prelude
begin

text \<open>
  The ordered associative container the runtime is built on (\<open>std::map\<close>): a list of
  key-value pairs in strictly ascending key order, so that iteration order is the list order.
  \<open>om_set\<close> models \<open>m[k] = v\<close>, \<open>om_emplace\<close> models \<open>m.emplace(k, v)\<close> (no overwrite),
  \<open>om_erase\<close> models \<open>m.erase(k)\<close> and \<open>map_of\<close> models \<open>find\<close>. The locale
  \<open>ordered_map\<close> is the contract the runtime components use; its lemmas are about any container
  with these laws, and the interpretation discharges them for the list model.
\<close>

section \<open>Operations\<close>

type_synonym ('k, 'v) omap = "('k \<times> 'v) list"

fun om_set :: "'k::linorder \<Rightarrow> 'v \<Rightarrow> ('k, 'v) omap \<Rightarrow> ('k, 'v) omap" where
  "om_set k v [] = [(k, v)]"
| "om_set k v (e # m) =
     (if k = fst e then (k, v) # m
      else if k < fst e then (k, v) # e # m
      else e # om_set k v m)"

definition om_erase :: "'k \<Rightarrow> ('k, 'v) omap \<Rightarrow> ('k, 'v) omap" where
  "om_erase k m = filter (\<lambda>e. fst e \<noteq> k) m"

definition om_emplace :: "'k::linorder \<Rightarrow> 'v \<Rightarrow> ('k, 'v) omap \<Rightarrow> ('k, 'v) omap" where
  "om_emplace k v m = (case map_of m k of None \<Rightarrow> om_set k v m | Some _ \<Rightarrow> m)"

definition om_keys :: "('k, 'v) omap \<Rightarrow> 'k list" where
  "om_keys m = map fst m"

definition om_values :: "('k, 'v) omap \<Rightarrow> 'v list" where
  "om_values m = map snd m"

definition om_ok :: "('k::linorder, 'v) omap \<Rightarrow> bool" where
  "om_ok m \<longleftrightarrow> sorted_wrt (<) (map fst m)"

section \<open>The contract of an ordered map\<close>

locale ordered_map =
  fixes find :: "'m \<Rightarrow> 'k::linorder \<Rightarrow> 'v option"
    and assign :: "'k \<Rightarrow> 'v \<Rightarrow> 'm \<Rightarrow> 'm"
    and erase :: "'k \<Rightarrow> 'm \<Rightarrow> 'm"
    and ok :: "'m \<Rightarrow> bool"
    and size_of :: "'m \<Rightarrow> nat"
  assumes find_assign: "find (assign k v m) = (find m)(k \<mapsto> v)"
    and find_erase: "find (erase k m) = (find m)(k := None)"
    and ok_assign: "ok m \<Longrightarrow> ok (assign k v m)"
    and ok_erase: "ok m \<Longrightarrow> ok (erase k m)"
    and extensional: "ok m \<Longrightarrow> ok m' \<Longrightarrow> find m = find m' \<Longrightarrow> m = m'"
    and size_card: "ok m \<Longrightarrow> size_of m = card (dom (find m))"
    and finite_dom: "finite (dom (find m))"
begin

lemma assign_same: "ok m \<Longrightarrow> find m k = Some v \<Longrightarrow> assign k v m = m"
  by (rule extensional) (auto simp: find_assign ok_assign)

lemma assign_assign: "ok m \<Longrightarrow> assign k v (assign k w m) = assign k v m"
  by (rule extensional) (auto simp: find_assign ok_assign)

lemma assign_commute:
  "ok m \<Longrightarrow> k \<noteq> l \<Longrightarrow> assign k v (assign l w m) = assign l w (assign k v m)"
  by (rule extensional) (auto simp: find_assign ok_assign)

text \<open>Undoing an insertion of a fresh key is exact: this is what a rollback relies on.\<close>

lemma erase_fresh: "ok m \<Longrightarrow> find m k = None \<Longrightarrow> erase k (assign k v m) = m"
  by (rule extensional) (auto simp: find_assign find_erase ok_assign ok_erase)

lemma erase_absent: "ok m \<Longrightarrow> find m k = None \<Longrightarrow> erase k m = m"
  by (rule extensional) (auto simp: find_erase ok_erase)

lemma restore: "ok m \<Longrightarrow> find m k = Some v \<Longrightarrow> assign k v (assign k w m) = m"
  by (simp add: assign_assign assign_same)

lemma size_assign_new: "ok m \<Longrightarrow> find m k = None \<Longrightarrow> size_of (assign k v m) = Suc (size_of m)"
  using finite_dom [of m] by (simp add: size_card ok_assign find_assign domIff)

lemma size_assign_old: "ok m \<Longrightarrow> find m k \<noteq> None \<Longrightarrow> size_of (assign k v m) = size_of m"
  by (simp add: size_card ok_assign find_assign insert_absorb domIff)

lemma size_erase_present: "ok m \<Longrightarrow> find m k \<noteq> None \<Longrightarrow> Suc (size_of (erase k m)) = size_of m"
  using finite_dom [of m] by (auto simp: size_card ok_erase find_erase intro!: card_Suc_Diff1)

end

section \<open>The list model satisfies the contract\<close>

lemma map_of_om_set [simp]: "map_of (om_set k v m) = (map_of m)(k \<mapsto> v)"
  by (induction m) (auto simp: fun_eq_iff)

lemma map_of_om_erase [simp]: "map_of (om_erase k m) = (map_of m)(k := None)"
  by (induction m) (auto simp: om_erase_def fun_eq_iff)

lemma keys_om_set: "fst ` set (om_set k v m) = insert k (fst ` set m)"
  by (induction m) auto

lemma om_ok_Nil [simp]: "om_ok []"
  by (simp add: om_ok_def)

lemma om_ok_Cons: "om_ok (e # m) \<longleftrightarrow> (\<forall>k \<in> fst ` set m. fst e < k) \<and> om_ok m"
  by (auto simp: om_ok_def)

lemma om_ok_set [simp]: "om_ok m \<Longrightarrow> om_ok (om_set k v m)"
  by (induction m) (auto simp: om_ok_Cons keys_om_set intro: less_trans)

lemma om_ok_erase [simp]: "om_ok m \<Longrightarrow> om_ok (om_erase k m)"
  by (induction m) (auto simp: om_erase_def om_ok_Cons)

lemma om_ok_distinct: "om_ok m \<Longrightarrow> distinct (map fst m)"
  by (auto simp: om_ok_def strict_sorted_iff)

lemma om_in_set: "om_ok m \<Longrightarrow> (k, v) \<in> set m \<longleftrightarrow> map_of m k = Some v"
  by (simp add: om_ok_distinct)

lemma om_extensional:
  assumes "om_ok m" and "om_ok m'" and "map_of m = map_of m'"
  shows "m = m'"
proof -
  have sets: "set m = set m'"
    using assms by (auto simp: om_in_set)
  then have "set (map fst m) = set (map fst m')" by simp
  moreover have "sorted (map fst m)" "distinct (map fst m)" "sorted (map fst m')" "distinct (map fst m')"
    using assms(1,2) by (auto simp: om_ok_def strict_sorted_iff)
  ultimately have keys: "map fst m = map fst m'"
    by (simp add: sorted_distinct_set_unique)
  have "map snd m = map (\<lambda>k. the (map_of m k)) (map fst m)"
    using assms(1) by (auto simp: om_in_set [symmetric] om_ok_distinct)
  also have "\<dots> = map (\<lambda>k. the (map_of m' k)) (map fst m')"
    using keys assms(3) by simp
  also have "\<dots> = map snd m'"
    using assms(2) by (auto simp: om_in_set [symmetric] om_ok_distinct)
  finally show ?thesis
    using keys by (metis zip_map_fst_snd)
qed

lemma om_length_card: "om_ok m \<Longrightarrow> length m = card (dom (map_of m))"
  by (metis om_ok_distinct distinct_card dom_map_of_conv_image_fst length_map list.set_map)

interpretation omap: ordered_map map_of om_set om_erase om_ok length
  by unfold_locales (auto simp: om_extensional om_length_card finite_dom_map_of)

lemma om_ok_emplace [simp]: "om_ok m \<Longrightarrow> om_ok (om_emplace k v m)"
  by (simp add: om_emplace_def split: option.split)

lemma map_of_om_emplace:
  "map_of (om_emplace k v m) = (case map_of m k of None \<Rightarrow> (map_of m)(k \<mapsto> v) | Some _ \<Rightarrow> map_of m)"
  by (simp add: om_emplace_def split: option.split)

lemma set_om_set: "om_ok m \<Longrightarrow> set (om_set k v m) = insert (k, v) {e \<in> set m. fst e \<noteq> k}"
  by (auto simp: om_in_set split: if_splits)

lemma om_values_mem: "om_ok m \<Longrightarrow> v \<in> set (om_values m) \<longleftrightarrow> (\<exists>k. map_of m k = Some v)"
  by (force simp: om_values_def om_in_set [symmetric])

end
