(* ===== verification/Runtime_State.thy ===== *)
theory Runtime_State
  imports Reservation Ordered_Map
begin

text \<open>
  \<open>impl.hpp\<close> and the \<open>detail\<close> helpers of \<open>runtime_core.cpp\<close>: the state behind the runtime mutex,
  the bounded audit trail, the live index, the conflict rules and the pruning of terminal records.
  Every public operation is a function on this record; the mutex makes each of them one atomic
  step. The invariant \<open>state_ok\<close> says that the maps are keyed by identity, that the live index is
  exactly the set of reservations in a live state, and that the audit trail is bounded and
  numbered without a gap; every helper here preserves its part of it.
\<close>

section \<open>State\<close>

text \<open>
  \<open>RuntimeState\<close> with one component more, \<open>rs_disk\<close>: the contents of the files the persistence
  code writes, so that publishing a state image is an effect of the operation that does it.
\<close>

definition kMaxExclusionDomainsPerMember :: nat where "kMaxExclusionDomainsPerMember = 8"

record RuntimeState =
  rs_config :: RuntimeConfig
  rs_fence :: ControllerFence
  rs_runtimeGeneration :: RuntimeGeneration
  rs_recoveryGeneration :: RecoveryGeneration
  rs_authority :: AuthorityState
  rs_grids :: "(ChannelGridId, ChannelGrid) omap"
  rs_spans :: "(SpanId, Span) omap"
  rs_ports :: "(PortId, OpticalPort) omap"
  rs_domains :: "(SpectrumDomainId, SpectrumDomain) omap"
  rs_exclusionDomains :: "(ExclusionDomainId, ExclusionDomain) omap"
  rs_domainExclusions :: "(SpectrumDomainId, ExclusionDomainId list) omap"
  rs_capabilities :: "(SpectrumDomainId, SpectrumCapability) omap"
  rs_reservations :: "(ReservationId, SpectrumReservation) omap"
  rs_liveByDomain :: "(SpectrumDomainId, ReservationId list) omap"
  rs_requestIndex :: "(AllocationRequestId, ReservationId) omap"
  rs_audit :: "AuditRecord list"
  rs_auditSequence :: AuditSequence
  rs_nextReservationId :: ReservationId
  rs_lastActivityAt :: Instant
  rs_stats :: RuntimeStats
  rs_disk :: "string \<Rightarrow> u8 list option"

section \<open>Audit\<close>

text \<open>\<open>while (audit.size() >= maxAuditRecords) audit.pop_front();\<close>\<close>

fun trim_front :: "nat \<Rightarrow> 'a list \<Rightarrow> 'a list" where
  "trim_front bound [] = []"
| "trim_front bound (x # xs) = (if length (x # xs) \<ge> bound then trim_front bound xs else x # xs)"

definition appendAudit ::
    "AuditKind \<Rightarrow> Instant \<Rightarrow> AllocationOutcome \<Rightarrow> ReservationId \<Rightarrow> ReservationGeneration \<Rightarrow>
     SpectrumDomainId \<Rightarrow> SlotRange \<Rightarrow> FrequencyRange \<Rightarrow> string \<Rightarrow> RuntimeState \<Rightarrow> RuntimeState" where
  "appendAudit kind at outcome reservation generation domain slots frequency detail s =
     (let sequence = bump (rs_auditSequence s);
          entry = \<lparr>aud_sequence = sequence, aud_at = at, aud_kind = kind, aud_fence = rs_fence s,
            aud_outcome = outcome, aud_reservation = reservation,
            aud_reservationGeneration = generation, aud_domain = domain, aud_slots = slots,
            aud_frequency = frequency, aud_detail = detail\<rparr>
      in s\<lparr>rs_auditSequence := sequence,
           rs_audit := trim_front (cfg_maxAuditRecords (rs_config s)) (rs_audit s) @ [entry]\<rparr>)"

text \<open>The common form of the registration calls, with default identities and ranges.\<close>

definition auditNote ::
    "AuditKind \<Rightarrow> Instant \<Rightarrow> AllocationOutcome \<Rightarrow> string \<Rightarrow> RuntimeState \<Rightarrow> RuntimeState" where
  "auditNote kind at outcome detail s =
     appendAudit kind at outcome sv_none sv_none sv_none default_slots default_frequency detail s"

section \<open>Live index\<close>

definition live_list :: "(SpectrumDomainId, ReservationId list) omap \<Rightarrow> SpectrumDomainId \<Rightarrow> ReservationId list" where
  "live_list m d = (case map_of m d of None \<Rightarrow> [] | Some l \<Rightarrow> l)"

fun index_add ::
    "ReservationId \<Rightarrow> SpectrumDomainId list \<Rightarrow> (SpectrumDomainId, ReservationId list) omap \<Rightarrow>
     (SpectrumDomainId, ReservationId list) omap" where
  "index_add i [] m = m"
| "index_add i (d # ds) m = index_add i ds (om_set d (insert_sorted i (live_list m d)) m)"

definition addLiveReservation :: "SpectrumReservation \<Rightarrow> RuntimeState \<Rightarrow> RuntimeState" where
  "addLiveReservation r s =
     (if \<not> isLiveState (res_state r) then s
      else s\<lparr>rs_liveByDomain := index_add (res_id r) (res_domains r) (rs_liveByDomain s)\<rparr>)"

definition index_remove ::
    "ReservationId \<Rightarrow> (SpectrumDomainId, ReservationId list) omap \<Rightarrow>
     (SpectrumDomainId, ReservationId list) omap" where
  "index_remove i m =
     filter (\<lambda>e. snd e \<noteq> []) (map (\<lambda>e. (fst e, filter (\<lambda>x. x \<noteq> i) (snd e))) m)"

definition removeLiveReservation :: "ReservationId \<Rightarrow> RuntimeState \<Rightarrow> RuntimeState" where
  "removeLiveReservation i s =
     (if \<not> sv_valid i then s
      else s\<lparr>rs_liveByDomain := index_remove i (rs_liveByDomain s)\<rparr>)"

definition isLiveIndexed :: "RuntimeState \<Rightarrow> ReservationId \<Rightarrow> bool" where
  "isLiveIndexed s i = list_ex (\<lambda>e. i \<in> set (snd e)) (rs_liveByDomain s)"

definition rebuildIndices :: "RuntimeState \<Rightarrow> RuntimeState" where
  "rebuildIndices s =
     fold (\<lambda>e s. addLiveReservation (snd e)
             (s\<lparr>rs_requestIndex := om_set (res_requestId (snd e)) (res_id (snd e)) (rs_requestIndex s)\<rparr>))
       (rs_reservations s) (s\<lparr>rs_liveByDomain := [], rs_requestIndex := []\<rparr>)"

section \<open>Ownership rules\<close>

definition expandByGuard :: "FrequencyRange \<Rightarrow> int \<Rightarrow> FrequencyRange" where
  "expandByGuard r guardMhz =
     (let guard = (if guardMhz < 0 then 0 else guardMhz);
          low = (case subOverflow (lowMhz r) guard of None \<Rightarrow> 0 | Some v \<Rightarrow> v);
          high = (case addOverflow (highMhz r) guard of None \<Rightarrow> highMhz r | Some v \<Rightarrow> v)
      in frequencyRange (if low < 0 then 0 else low) high)"

definition frequencyConflict :: "FrequencyRange \<Rightarrow> int \<Rightarrow> FrequencyRange \<Rightarrow> int \<Rightarrow> bool" where
  "frequencyConflict a guardA b guardB =
     (if freq_empty a \<or> freq_empty b then False
      else let guardLow = (if guardA < 0 then 0 else guardA);
               guardOther = (if guardB < 0 then 0 else guardB);
               aLow = (case subOverflow (lowMhz a) guardLow of None \<Rightarrow> 0 | Some v \<Rightarrow> v);
               bLow = (case subOverflow (lowMhz b) guardOther of None \<Rightarrow> 0 | Some v \<Rightarrow> v)
           in aLow < highMhz b \<and> bLow < highMhz a)"

definition reservationsConflict :: "SpectrumReservation \<Rightarrow> SpectrumReservation \<Rightarrow> bool" where
  "reservationsConflict a b =
     (if res_id a = res_id b then False
      else if \<not> list_ex (\<lambda>left. left \<in> set (res_domains b)) (res_domains a) then False
      else frequencyConflict (res_frequency a) (res_guardBandMhz a) (res_frequency b)
             (res_guardBandMhz b))"

section \<open>Pruning\<close>

fun first_terminal ::
    "(ReservationId, SpectrumReservation) omap \<Rightarrow> (ReservationId \<times> SpectrumReservation) option" where
  "first_terminal [] = None"
| "first_terminal (e # m) = (if isTerminalState (res_state (snd e)) then Some e else first_terminal m)"

definition prune_one :: "ReservationId \<times> SpectrumReservation \<Rightarrow> RuntimeState \<Rightarrow> RuntimeState" where
  "prune_one e s =
     (let i = fst e; request = res_requestId (snd e)
      in s\<lparr>rs_requestIndex := (if map_of (rs_requestIndex s) request = Some i
             then om_erase request (rs_requestIndex s) else rs_requestIndex s),
           rs_reservations := om_erase i (rs_reservations s)\<rparr>)"

fun prune_loop :: "nat \<Rightarrow> RuntimeState \<Rightarrow> RuntimeState" where
  "prune_loop 0 s = s"
| "prune_loop (Suc guard) s =
     (if length (rs_reservations s) \<ge> cfg_maxReservations (rs_config s)
      then (case first_terminal (rs_reservations s) of
              None \<Rightarrow> s
            | Some e \<Rightarrow> prune_loop guard (prune_one e s))
      else s)"

definition pruneTerminalReservations :: "RuntimeState \<Rightarrow> RuntimeState" where
  "pruneTerminalReservations s = prune_loop 1000000 s"

section \<open>The live index as a set of owners\<close>

text \<open>
  What the rest of the runtime relies on: adding and removing act on the membership relation as
  on a set, and a well-formed index is determined by that relation, so that undoing a change of
  membership restores the very same index.
\<close>

locale live_index =
  fixes member :: "'m \<Rightarrow> 'd \<Rightarrow> 'i \<Rightarrow> bool"
    and add :: "'i \<Rightarrow> 'd list \<Rightarrow> 'm \<Rightarrow> 'm"
    and remove :: "'i \<Rightarrow> 'm \<Rightarrow> 'm"
    and wf :: "'m \<Rightarrow> bool"
  assumes member_add: "member (add i ds m) d j \<longleftrightarrow> (j = i \<and> d \<in> set ds) \<or> member m d j"
    and member_remove: "wf m \<Longrightarrow> member (remove i m) d j \<longleftrightarrow> j \<noteq> i \<and> member m d j"
    and wf_add: "wf m \<Longrightarrow> wf (add i ds m)"
    and wf_remove: "wf m \<Longrightarrow> wf (remove i m)"
    and extensional: "wf m \<Longrightarrow> wf m' \<Longrightarrow> (\<And>d j. member m d j = member m' d j) \<Longrightarrow> m = m'"
begin

lemma add_known: "wf m \<Longrightarrow> (\<And>d. d \<in> set ds \<Longrightarrow> member m d i) \<Longrightarrow> add i ds m = m"
  by (rule extensional) (auto simp: member_add wf_add)

lemma remove_unknown: "wf m \<Longrightarrow> (\<And>d. \<not> member m d i) \<Longrightarrow> remove i m = m"
  by (rule extensional) (auto simp: member_remove wf_remove)

lemma remove_add: "wf m \<Longrightarrow> remove i (add i ds m) = remove i m"
  by (rule extensional) (auto simp: member_add member_remove wf_add wf_remove)

lemma undo_add: "wf m \<Longrightarrow> (\<And>d. \<not> member m d i) \<Longrightarrow> remove i (add i ds m) = m"
  by (simp add: remove_add remove_unknown)

lemma undo_remove:
  assumes "wf m" and "\<And>d. member m d i \<longleftrightarrow> d \<in> set ds"
  shows "add i ds (remove i m) = m"
  using assms by (intro extensional) (auto simp: member_add member_remove wf_add wf_remove)

end

definition live_member ::
    "(SpectrumDomainId, ReservationId list) omap \<Rightarrow> SpectrumDomainId \<Rightarrow> ReservationId \<Rightarrow> bool" where
  "live_member m d i \<longleftrightarrow> i \<in> set (live_list m d)"

definition index_wf :: "(SpectrumDomainId, ReservationId list) omap \<Rightarrow> bool" where
  "index_wf m \<longleftrightarrow> om_ok m \<and> (\<forall>d l. map_of m d = Some l \<longrightarrow> l \<noteq> [] \<and> sorted_wrt (<) l)"

lemma live_list_om_set [simp]: "live_list (om_set d l m) e = (if e = d then l else live_list m e)"
  by (simp add: live_list_def)

lemma live_member_index_add:
  "live_member (index_add i ds m) d j \<longleftrightarrow> (j = i \<and> d \<in> set ds) \<or> live_member m d j"
  by (induction ds arbitrary: m) (auto simp: live_member_def)

lemma map_of_index_remove:
  "om_ok m \<Longrightarrow> map_of (index_remove i m) d =
     (case map_of m d of None \<Rightarrow> None
      | Some l \<Rightarrow> let l' = filter (\<lambda>x. x \<noteq> i) l in if l' = [] then None else Some l')"
proof (induction m arbitrary: d)
  case Nil
  then show ?case by (simp add: index_remove_def)
next
  case (Cons e m)
  have fresh: "map_of m (fst e) = None"
    using Cons.prems by (force simp: om_ok_Cons map_of_eq_None_iff)
  have tail: "map_of (index_remove i m) (fst e) = None"
    using Cons.IH [of "fst e"] Cons.prems fresh by (simp add: om_ok_Cons)
  have split: "index_remove i (e # m) =
      (if filter (\<lambda>x. x \<noteq> i) (snd e) = [] then index_remove i m
       else (fst e, filter (\<lambda>x. x \<noteq> i) (snd e)) # index_remove i m)"
    by (simp add: index_remove_def)
  show ?case
    using Cons.IH [of d] Cons.prems tail fresh unfolding split by (auto simp: om_ok_Cons Let_def)
qed

lemma live_list_index_remove:
  "om_ok m \<Longrightarrow> live_list (index_remove i m) d = filter (\<lambda>x. x \<noteq> i) (live_list m d)"
  by (simp add: live_list_def map_of_index_remove Let_def split: option.split)

lemma om_ok_index_remove: "om_ok m \<Longrightarrow> om_ok (index_remove i m)"
proof -
  assume "om_ok m"
  then have "sorted_wrt (<) (map fst (map (\<lambda>e. (fst e, filter (\<lambda>x. x \<noteq> i) (snd e))) m))"
    by (simp add: om_ok_def comp_def)
  then show ?thesis
    unfolding om_ok_def index_remove_def by (simp add: sorted_wrt_map sorted_wrt_filter)
qed

lemma sorted_insert_strict:
  "sorted_wrt (<) (l :: 'a::linorder list) \<Longrightarrow> sorted_wrt (<) (insert_sorted i l)"
  by (simp add: strict_sorted_iff sorted_insert_sorted distinct_insert_sorted)

lemma insert_sorted_nonempty [simp]: "insert_sorted i l \<noteq> []"
  by (metis empty_iff insertI1 list.set(1) set_insert_sorted)

lemma index_wf_list: "index_wf m \<Longrightarrow> sorted_wrt (<) (live_list m d)"
  by (simp add: index_wf_def live_list_def split: option.split)

lemma index_wf_add: "index_wf m \<Longrightarrow> index_wf (index_add i ds m)"
proof (induction ds arbitrary: m)
  case (Cons d ds)
  have "index_wf (om_set d (insert_sorted i (live_list m d)) m)"
    using Cons.prems index_wf_list [OF Cons.prems, of d] by (auto simp: index_wf_def sorted_insert_strict)
  then show ?case
    using Cons.IH by simp
qed simp

lemma index_wf_remove: "index_wf m \<Longrightarrow> index_wf (index_remove i m)"
  by (auto simp: index_wf_def om_ok_index_remove map_of_index_remove Let_def sorted_wrt_filter
      split: option.splits if_splits)

lemma index_wf_extensional:
  assumes "index_wf m" and "index_wf m'" and eq: "\<And>d j. live_member m d j = live_member m' d j"
  shows "m = m'"
proof (rule om_extensional)
  show "om_ok m" "om_ok m'"
    using assms by (simp_all add: index_wf_def)
  have lists: "live_list m d = live_list m' d" for d
  proof -
    have "set (live_list m d) = set (live_list m' d)"
      using eq by (auto simp: live_member_def)
    then show ?thesis
      using index_wf_list [OF assms(1), of d] index_wf_list [OF assms(2), of d]
      by (simp add: strict_sorted_iff sorted_distinct_set_unique)
  qed
  have some: "map_of n d = (if live_list n d = [] then None else Some (live_list n d))"
    if "index_wf n" for n d
    using that by (auto simp: index_wf_def live_list_def split: option.splits)
  show "map_of m = map_of m'"
    using some [OF assms(1)] some [OF assms(2)] lists by (intro ext) simp
qed

interpretation live: live_index live_member index_add index_remove index_wf
proof (unfold_locales, goal_cases)
  case (1 i ds m d j)
  then show ?case by (rule live_member_index_add)
next
  case (2 m i d j)
  then show ?case by (auto simp: live_member_def live_list_index_remove index_wf_def)
next
  case (3 m i ds)
  then show ?case by (rule index_wf_add)
next
  case (4 m i)
  then show ?case by (rule index_wf_remove)
next
  case (5 m m')
  then show ?case by (rule index_wf_extensional)
qed

lemma isLiveIndexed_iff:
  assumes "om_ok (rs_liveByDomain s)"
  shows "isLiveIndexed s i \<longleftrightarrow> (\<exists>d. live_member (rs_liveByDomain s) d i)"
proof -
  have "isLiveIndexed s i \<longleftrightarrow> (\<exists>d l. map_of (rs_liveByDomain s) d = Some l \<and> i \<in> set l)"
    using om_in_set [OF assms] by (force simp: isLiveIndexed_def list_ex_iff)
  moreover have "live_member (rs_liveByDomain s) d i \<longleftrightarrow>
      (\<exists>l. map_of (rs_liveByDomain s) d = Some l \<and> i \<in> set l)" for d
    by (cases "map_of (rs_liveByDomain s) d") (auto simp: live_member_def live_list_def)
  ultimately show ?thesis
    by simp
qed

section \<open>Invariants\<close>

definition owns :: "RuntimeState \<Rightarrow> SpectrumDomainId \<Rightarrow> ReservationId \<Rightarrow> bool" where
  "owns s d i \<longleftrightarrow> (\<exists>r. map_of (rs_reservations s) i = Some r \<and> isLiveState (res_state r)
     \<and> d \<in> set (res_domains r))"

definition live_exact :: "RuntimeState \<Rightarrow> bool" where
  "live_exact s \<longleftrightarrow> index_wf (rs_liveByDomain s)
     \<and> (\<forall>d i. live_member (rs_liveByDomain s) d i \<longleftrightarrow> owns s d i)"

definition reservations_ok :: "RuntimeState \<Rightarrow> bool" where
  "reservations_ok s \<longleftrightarrow> om_ok (rs_reservations s)
     \<and> (\<forall>i r. map_of (rs_reservations s) i = Some r \<longrightarrow> res_id r = i \<and> sv_valid i)"

text \<open>
  The sequence numbers of the trail, newest first, count down from the last number without a gap.
  Numbers are words, so the statement holds even across a wrap of the counter.
\<close>

fun audit_numbered :: "u64 \<Rightarrow> AuditRecord list \<Rightarrow> bool" where
  "audit_numbered n [] \<longleftrightarrow> True"
| "audit_numbered n (a # as) \<longleftrightarrow> raw (aud_sequence a) = n \<and> audit_numbered (n - 1) as"

definition audit_ok :: "RuntimeState \<Rightarrow> bool" where
  "audit_ok s \<longleftrightarrow> 0 < cfg_maxAuditRecords (rs_config s)
     \<and> length (rs_audit s) \<le> cfg_maxAuditRecords (rs_config s)
     \<and> audit_numbered (raw (rs_auditSequence s)) (rev (rs_audit s))"

lemma live_exactD: "live_exact s \<Longrightarrow> i \<in> set (live_list (rs_liveByDomain s) d) \<longleftrightarrow> owns s d i"
  by (simp add: live_exact_def live_member_def)

text \<open>Recording a reservation and indexing it, the two halves of every ownership change.\<close>

definition reindex ::
    "SpectrumReservation \<Rightarrow> (SpectrumDomainId, ReservationId list) omap \<Rightarrow>
     (SpectrumDomainId, ReservationId list) omap" where
  "reindex r m =
     (if isLiveState (res_state r) then index_add (res_id r) (res_domains r) (index_remove (res_id r) m)
      else index_remove (res_id r) m)"

lemma live_exact_put:
  assumes "live_exact s"
    and "rs_reservations s' = om_set (res_id r) r (rs_reservations s)"
    and "rs_liveByDomain s' = reindex r (rs_liveByDomain s)"
  shows "live_exact s'"
  using assms
  by (auto simp: live_exact_def owns_def reindex_def live.member_add live.member_remove live.wf_add
      live.wf_remove)

lemma live_exact_erase:
  assumes "live_exact s"
    and "rs_reservations s' = om_erase i (rs_reservations s)"
    and "rs_liveByDomain s' = index_remove i (rs_liveByDomain s)"
  shows "live_exact s'"
  using assms by (auto simp: live_exact_def owns_def live.member_remove live.wf_remove)

lemma live_exact_frame:
  assumes "live_exact s" and "rs_reservations s' = rs_reservations s"
    and "rs_liveByDomain s' = rs_liveByDomain s"
  shows "live_exact s'"
  using assms by (simp add: live_exact_def owns_def)

text \<open>A reservation that owned nothing needs no removal first.\<close>

lemma reindex_fresh:
  assumes "live_exact s" and "\<And>d. \<not> owns s d (res_id r)" and "isLiveState (res_state r)"
  shows "reindex r (rs_liveByDomain s) = index_add (res_id r) (res_domains r) (rs_liveByDomain s)"
proof -
  have "index_remove (res_id r) (rs_liveByDomain s) = rs_liveByDomain s"
    using assms by (intro live.remove_unknown) (auto simp: live_exact_def)
  then show ?thesis
    using assms(3) by (simp add: reindex_def)
qed

text \<open>A live reservation that stays live on the same domains is already indexed.\<close>

lemma reindex_same:
  assumes "live_exact s" and "map_of (rs_reservations s) (res_id r) = Some q"
    and "isLiveState (res_state q)" and "isLiveState (res_state r)" and "res_domains r = res_domains q"
  shows "reindex r (rs_liveByDomain s) = rs_liveByDomain s"
proof -
  have "index_add (res_id r) (res_domains r) (index_remove (res_id r) (rs_liveByDomain s)) = rs_liveByDomain s"
    using assms by (intro live.undo_remove) (auto simp: live_exact_def owns_def)
  then show ?thesis
    using assms(4) by (simp add: reindex_def)
qed

lemma reservations_ok_put:
  assumes "reservations_ok s" and "sv_valid (res_id r)"
    and "rs_reservations s' = om_set (res_id r) r (rs_reservations s)"
  shows "reservations_ok s'"
  using assms by (auto simp: reservations_ok_def)

lemma reservations_ok_erase:
  "reservations_ok s \<Longrightarrow> rs_reservations s' = om_erase i (rs_reservations s) \<Longrightarrow> reservations_ok s'"
  by (auto simp: reservations_ok_def)

section \<open>Audit trail\<close>

lemma appendAudit_frame [simp, frame_simps]:
  "rs_config (appendAudit k t out i g d sl f x s) = rs_config s"
  "rs_fence (appendAudit k t out i g d sl f x s) = rs_fence s"
  "rs_runtimeGeneration (appendAudit k t out i g d sl f x s) = rs_runtimeGeneration s"
  "rs_recoveryGeneration (appendAudit k t out i g d sl f x s) = rs_recoveryGeneration s"
  "rs_authority (appendAudit k t out i g d sl f x s) = rs_authority s"
  "rs_grids (appendAudit k t out i g d sl f x s) = rs_grids s"
  "rs_spans (appendAudit k t out i g d sl f x s) = rs_spans s"
  "rs_ports (appendAudit k t out i g d sl f x s) = rs_ports s"
  "rs_domains (appendAudit k t out i g d sl f x s) = rs_domains s"
  "rs_exclusionDomains (appendAudit k t out i g d sl f x s) = rs_exclusionDomains s"
  "rs_domainExclusions (appendAudit k t out i g d sl f x s) = rs_domainExclusions s"
  "rs_capabilities (appendAudit k t out i g d sl f x s) = rs_capabilities s"
  "rs_reservations (appendAudit k t out i g d sl f x s) = rs_reservations s"
  "rs_liveByDomain (appendAudit k t out i g d sl f x s) = rs_liveByDomain s"
  "rs_requestIndex (appendAudit k t out i g d sl f x s) = rs_requestIndex s"
  "rs_auditSequence (appendAudit k t out i g d sl f x s) = bump (rs_auditSequence s)"
  "rs_nextReservationId (appendAudit k t out i g d sl f x s) = rs_nextReservationId s"
  "rs_lastActivityAt (appendAudit k t out i g d sl f x s) = rs_lastActivityAt s"
  "rs_stats (appendAudit k t out i g d sl f x s) = rs_stats s"
  "rs_disk (appendAudit k t out i g d sl f x s) = rs_disk s"
  by (simp_all add: appendAudit_def Let_def)

lemma length_trim_front: "0 < n \<Longrightarrow> length (trim_front n xs) < n"
  by (induction n xs rule: trim_front.induct) auto

lemma trim_front_suffix: "\<exists>pre. xs = pre @ trim_front n xs"
proof (induction n xs rule: trim_front.induct)
  case (2 n x xs)
  then obtain pre where "length (x # xs) \<ge> n \<Longrightarrow> xs = pre @ trim_front n xs"
    by blast
  then show ?case
    by (cases "length (x # xs) \<ge> n") (auto intro: exI [of _ "x # pre"])
qed simp

lemma trim_front_id: "length xs < n \<Longrightarrow> trim_front n xs = xs"
  by (cases xs) auto

lemma audit_numbered_append: "audit_numbered n (as @ bs) \<Longrightarrow> audit_numbered n as"
  by (induction n as rule: audit_numbered.induct) auto

lemma appendAudit_ok:
  assumes "audit_ok s"
  shows "audit_ok (appendAudit k t out i g d sl f x s)"
proof -
  define kept where "kept = trim_front (cfg_maxAuditRecords (rs_config s)) (rs_audit s)"
  obtain pre where pre: "rs_audit s = pre @ kept"
    using trim_front_suffix unfolding kept_def by blast
  have "audit_numbered (raw (rs_auditSequence s)) (rev kept @ rev pre)"
    using assms pre by (simp add: audit_ok_def)
  then have "audit_numbered (raw (rs_auditSequence s)) (rev kept)"
    by (rule audit_numbered_append)
  moreover have "length kept < cfg_maxAuditRecords (rs_config s)"
    using assms length_trim_front unfolding kept_def audit_ok_def by blast
  ultimately show ?thesis
    using assms by (simp add: audit_ok_def appendAudit_def Let_def kept_def [symmetric])
qed

lemma audit_ok_frame:
  "audit_ok s \<Longrightarrow> rs_audit s' = rs_audit s \<Longrightarrow> rs_auditSequence s' = rs_auditSequence s \<Longrightarrow>
   rs_config s' = rs_config s \<Longrightarrow> audit_ok s'"
  by (simp add: audit_ok_def)

text \<open>Until the counter has wrapped the trail is strictly increasing.\<close>

lemma audit_numbered_descending:
  "audit_numbered n as \<Longrightarrow> length as \<le> unat n + 1 \<Longrightarrow>
   sorted_wrt (\<lambda>a b. aud_sequence b < aud_sequence a) as \<and> (\<forall>a \<in> set as. raw (aud_sequence a) \<le> n)"
proof (induction n as rule: audit_numbered.induct)
  case (2 n a as)
  show ?case
  proof (cases "as = []")
    case True
    then show ?thesis using "2.prems" by simp
  next
    case False
    then have n: "n \<noteq> 0"
      using "2.prems"(2) by (cases as) auto
    then have pred: "unat (n - 1) = unat n - 1" "n - 1 < n"
      by (simp_all add: unat_minus_one word_less_nat_alt)
        (metis One_nat_def Suc_pred' lessI unat_gt_0)
    have IH: "sorted_wrt (\<lambda>a b. aud_sequence b < aud_sequence a) as" "\<forall>b \<in> set as. raw (aud_sequence b) \<le> n - 1"
      using "2.IH" "2.prems" pred by auto
    then show ?thesis
      using "2.prems"(1) pred(2) by (auto simp: less_StrongValue_def less_imp_le intro: order.strict_trans1)
  qed
qed simp

lemma audit_ok_increasing:
  assumes "audit_ok s" and "length (rs_audit s) \<le> unat (raw (rs_auditSequence s)) + 1"
  shows "sorted_wrt (<) (map aud_sequence (rs_audit s))"
proof -
  have "sorted_wrt (\<lambda>a b. aud_sequence b < aud_sequence a) (rev (rs_audit s))"
    using audit_numbered_descending [of "raw (rs_auditSequence s)" "rev (rs_audit s)"] assms
    by (simp add: audit_ok_def)
  then show ?thesis
    by (simp add: sorted_wrt_rev sorted_wrt_map)
qed

lemma appendAudit_live [simp]: "live_exact (appendAudit k t out i g d sl f x s) \<longleftrightarrow> live_exact s"
  by (simp add: live_exact_def owns_def)

lemma appendAudit_reservations_ok [simp]:
  "reservations_ok (appendAudit k t out i g d sl f x s) \<longleftrightarrow> reservations_ok s"
  by (simp add: reservations_ok_def)

section \<open>Conflict rules\<close>

text \<open>
  On frequencies of the supported range the conflict test is symmetric, holds for every overlap,
  and is monotone in the guard bands.
\<close>

lemma frequencyConflict_sym: "frequencyConflict a ga b gb = frequencyConflict b gb a ga"
  by (auto simp: frequencyConflict_def Let_def)

lemma reservationsConflict_sym: "reservationsConflict a b = reservationsConflict b a"
  by (auto simp: reservationsConflict_def list_ex_iff frequencyConflict_sym)

definition frequency_bounded :: "FrequencyRange \<Rightarrow> bool" where
  "frequency_bounded f \<longleftrightarrow> 0 \<le> lowMhz f \<and> highMhz f \<le> 0x3FFFFFFFFFFFFFFF"

lemma frequencyConflict_eq:
  assumes "frequency_bounded a" and "frequency_bounded b" and "\<not> freq_empty a" and "\<not> freq_empty b"
    and "0 \<le> ga" "ga \<le> kMaxGuardBandMhz" "0 \<le> gb" "gb \<le> kMaxGuardBandMhz"
  shows "frequencyConflict a ga b gb \<longleftrightarrow> lowMhz a - ga < highMhz b \<and> lowMhz b - gb < highMhz a"
proof -
  have "subOverflow (lowMhz a) ga = Some (lowMhz a - ga)" "subOverflow (lowMhz b) gb = Some (lowMhz b - gb)"
    using assms by (auto intro!: subOverflow_small
        simp: frequency_bounded_def freq_empty_def kMaxGuardBandMhz_def)
  then show ?thesis
    using assms by (simp add: frequencyConflict_def)
qed

lemma frequencyConflict_overlap:
  assumes "frequency_bounded a" and "frequency_bounded b"
    and "0 \<le> ga" "ga \<le> kMaxGuardBandMhz" "0 \<le> gb" "gb \<le> kMaxGuardBandMhz"
    and "freq_overlaps a b"
  shows "frequencyConflict a ga b gb"
proof -
  have "\<not> freq_empty a" "\<not> freq_empty b" "lowMhz a < highMhz b" "lowMhz b < highMhz a"
    using assms(7) by (auto simp: freq_overlaps_def)
  then show ?thesis
    using frequencyConflict_eq [OF assms(1,2) _ _ assms(3-6)] assms(3,5) by simp
qed

section \<open>Pruning\<close>

lemma first_terminal_Some:
  "first_terminal m = Some e \<Longrightarrow> e \<in> set m \<and> isTerminalState (res_state (snd e))"
  by (induction m) (auto split: if_splits)

lemma first_terminal_None:
  "first_terminal m = None \<longleftrightarrow> (\<forall>e \<in> set m. \<not> isTerminalState (res_state (snd e)))"
  by (induction m) auto

text \<open>What one pruning step may touch: the reservation table and the request index.\<close>

lemma prune_one_frame [simp, frame_simps]:
  "rs_config (prune_one e s) = rs_config s"
  "rs_liveByDomain (prune_one e s) = rs_liveByDomain s"
  "rs_reservations (prune_one e s) = om_erase (fst e) (rs_reservations s)"
  "rs_domains (prune_one e s) = rs_domains s"
  "rs_exclusionDomains (prune_one e s) = rs_exclusionDomains s"
  "rs_domainExclusions (prune_one e s) = rs_domainExclusions s"
  "rs_grids (prune_one e s) = rs_grids s"
  "rs_capabilities (prune_one e s) = rs_capabilities s"
  "rs_audit (prune_one e s) = rs_audit s"
  "rs_auditSequence (prune_one e s) = rs_auditSequence s"
  "rs_nextReservationId (prune_one e s) = rs_nextReservationId s"
  "rs_fence (prune_one e s) = rs_fence s"
  "rs_authority (prune_one e s) = rs_authority s"
  "rs_stats (prune_one e s) = rs_stats s"
  "rs_lastActivityAt (prune_one e s) = rs_lastActivityAt s"
  by (simp_all add: prune_one_def Let_def)

lemma prune_loop_frame [simp, frame_simps]:
  "rs_config (prune_loop n s) = rs_config s"
  "rs_liveByDomain (prune_loop n s) = rs_liveByDomain s"
  "rs_domains (prune_loop n s) = rs_domains s"
  "rs_exclusionDomains (prune_loop n s) = rs_exclusionDomains s"
  "rs_domainExclusions (prune_loop n s) = rs_domainExclusions s"
  "rs_grids (prune_loop n s) = rs_grids s"
  "rs_capabilities (prune_loop n s) = rs_capabilities s"
  "rs_audit (prune_loop n s) = rs_audit s"
  "rs_auditSequence (prune_loop n s) = rs_auditSequence s"
  "rs_nextReservationId (prune_loop n s) = rs_nextReservationId s"
  "rs_fence (prune_loop n s) = rs_fence s"
  "rs_authority (prune_loop n s) = rs_authority s"
  "rs_stats (prune_loop n s) = rs_stats s"
  "rs_lastActivityAt (prune_loop n s) = rs_lastActivityAt s"
  by (induction n s rule: prune_loop.induct) (simp_all split: option.split)

text \<open>Pruning only forgets terminal records; everything else, and all ownership, stays.\<close>

lemma prune_loop_reservations:
  assumes "om_ok (rs_reservations s)"
  shows "om_ok (rs_reservations (prune_loop n s)) \<and>
    (map_of (rs_reservations (prune_loop n s)) i = map_of (rs_reservations s) i
     \<or> (map_of (rs_reservations (prune_loop n s)) i = None
        \<and> (\<exists>r. map_of (rs_reservations s) i = Some r \<and> isTerminalState (res_state r))))"
  using assms
proof (induction n s rule: prune_loop.induct)
  case (2 n s)
  show ?case
  proof (cases "length (rs_reservations s) \<ge> cfg_maxReservations (rs_config s)
      \<and> first_terminal (rs_reservations s) \<noteq> None")
    case True
    then obtain e where e: "first_terminal (rs_reservations s) = Some e"
      by blast
    then have "map_of (rs_reservations s) (fst e) = Some (snd e)" "isTerminalState (res_state (snd e))"
      using first_terminal_Some [OF e] om_in_set [OF "2.prems", of "fst e" "snd e"] by auto
    then show ?thesis
      using "2.IH" [OF _ e] True "2.prems" e by (cases "i = fst e") auto
  next
    case False
    then show ?thesis
      using "2.prems" by (auto split: option.split)
  qed
qed simp

lemma prune_reservation:
  assumes "om_ok (rs_reservations s)" and "map_of (rs_reservations s) i = Some r"
    and "\<not> isTerminalState (res_state r)"
  shows "map_of (rs_reservations (pruneTerminalReservations s)) i = Some r"
  using prune_loop_reservations [OF assms(1), of 1000000 i] assms(2,3)
  unfolding pruneTerminalReservations_def by auto

lemma prune_submap:
  assumes "om_ok (rs_reservations s)"
    and "map_of (rs_reservations (pruneTerminalReservations s)) i = Some r"
  shows "map_of (rs_reservations s) i = Some r"
  using prune_loop_reservations [OF assms(1), of 1000000 i] assms(2)
  unfolding pruneTerminalReservations_def by auto

lemma prune_om_ok: "om_ok (rs_reservations s) \<Longrightarrow> om_ok (rs_reservations (pruneTerminalReservations s))"
  using prune_loop_reservations unfolding pruneTerminalReservations_def by blast

lemma prune_owns:
  assumes "om_ok (rs_reservations s)"
  shows "owns (pruneTerminalReservations s) d i \<longleftrightarrow> owns s d i"
  unfolding owns_def
  by (metis prune_reservation [OF assms] prune_submap [OF assms] live_not_terminal)

lemma prune_frame [simp, frame_simps]:
  "rs_config (pruneTerminalReservations s) = rs_config s"
  "rs_liveByDomain (pruneTerminalReservations s) = rs_liveByDomain s"
  "rs_domains (pruneTerminalReservations s) = rs_domains s"
  "rs_exclusionDomains (pruneTerminalReservations s) = rs_exclusionDomains s"
  "rs_domainExclusions (pruneTerminalReservations s) = rs_domainExclusions s"
  "rs_grids (pruneTerminalReservations s) = rs_grids s"
  "rs_capabilities (pruneTerminalReservations s) = rs_capabilities s"
  "rs_audit (pruneTerminalReservations s) = rs_audit s"
  "rs_auditSequence (pruneTerminalReservations s) = rs_auditSequence s"
  "rs_nextReservationId (pruneTerminalReservations s) = rs_nextReservationId s"
  "rs_fence (pruneTerminalReservations s) = rs_fence s"
  "rs_authority (pruneTerminalReservations s) = rs_authority s"
  "rs_stats (pruneTerminalReservations s) = rs_stats s"
  "rs_lastActivityAt (pruneTerminalReservations s) = rs_lastActivityAt s"
  unfolding pruneTerminalReservations_def by (rule prune_loop_frame)+

lemma prune_live_exact:
  "om_ok (rs_reservations s) \<Longrightarrow> live_exact s \<Longrightarrow> live_exact (pruneTerminalReservations s)"
  unfolding live_exact_def by (simp only: prune_owns prune_frame) blast

lemma prune_audit_ok: "audit_ok s \<Longrightarrow> audit_ok (pruneTerminalReservations s)"
  by (erule audit_ok_frame) simp_all

lemma prune_reservations_ok: "reservations_ok s \<Longrightarrow> reservations_ok (pruneTerminalReservations s)"
  by (auto simp: reservations_ok_def prune_om_ok dest: prune_submap)

text \<open>Evaluation shortcut: below the bound there is nothing to do.\<close>

lemma prune_below [code]:
  "pruneTerminalReservations s =
     (if length (rs_reservations s) < cfg_maxReservations (rs_config s) then s
      else prune_loop 1000000 s)"
proof -
  have "prune_loop (Suc n) s = s" if "length (rs_reservations s) < cfg_maxReservations (rs_config s)" for n
    using that by simp
  moreover have "(1000000 :: nat) = Suc 999999"
    by simp
  ultimately show ?thesis
    unfolding pruneTerminalReservations_def by metis
qed

end
