(* ===== verification/Encoder.thy ===== *)
theory Encoder
  imports Runtime_State
begin

unbundle bit_operations_syntax

text \<open>
  The writing half of \<open>codec.cpp\<close> and \<open>runtime_persist.cpp\<close>: the bounded little-endian encoder,
  the checksum, one encoder per persisted record, and the container that \<open>encodeState\<close> builds.
  An encoder is a state transformer on the buffer and its overflow flag; once the flag is set
  nothing is appended any more.
\<close>

section \<open>Bounds and checksum\<close>

definition kMaxBufferBytes :: nat where "kMaxBufferBytes = 67108864"
definition kMaxEncodedBytes :: nat where "kMaxEncodedBytes = 16777216"
definition kMaxCollectionCount :: nat where "kMaxCollectionCount = 1048576"
definition kMaxEncodedStringBytes :: nat where "kMaxEncodedStringBytes = 65536"
definition kPersistenceFormatVersion :: "16 word" where "kPersistenceFormatVersion = 1"

definition crc_bit :: "u32 \<Rightarrow> u32" where
  "crc_bit v = (if v AND 1 \<noteq> 0 then 0xEDB88320 XOR drop_bit 1 v else drop_bit 1 v)"

definition crc_entry :: "u32 \<Rightarrow> u32" where
  "crc_entry i = (crc_bit ^^ 8) i"

definition kCrcTable :: "u32 list" where
  "kCrcTable = map (\<lambda>i. crc_entry (word_of_nat i)) [0..<256]"

definition crc_step :: "u8 \<Rightarrow> u32 \<Rightarrow> u32" where
  "crc_step b crc = (kCrcTable ! unat ((crc XOR ucast b) AND 0xFF)) XOR drop_bit 8 crc"

definition crc32 :: "u8 list \<Rightarrow> u32" where
  "crc32 bytes = fold crc_step bytes 0xFFFFFFFF XOR 0xFFFFFFFF"

section \<open>Encoder\<close>

record Encoder =
  enc_buffer :: "u8 list"
  enc_overflowed :: bool

type_synonym Writer = "Encoder \<Rightarrow> Encoder"

definition new_encoder :: Encoder where
  "new_encoder = \<lparr>enc_buffer = [], enc_overflowed = False\<rparr>"

definition enc_raw :: "u8 list \<Rightarrow> Writer" where
  "enc_raw bytes e =
     (if enc_overflowed e \<or> bytes = [] then e
      else if length bytes > kMaxBufferBytes - length (enc_buffer e) then e\<lparr>enc_overflowed := True\<rparr>
      else e\<lparr>enc_buffer := enc_buffer e @ bytes\<rparr>)"

definition enc_u8 :: "u8 \<Rightarrow> Writer" where "enc_u8 v = enc_raw [v]"

definition le_bytes :: "nat \<Rightarrow> 'a::len word \<Rightarrow> u8 list" where
  "le_bytes n v = map (\<lambda>i. ucast (drop_bit (8 * i) v)) [0..<n]"

definition enc_each :: "u8 list \<Rightarrow> Writer" where "enc_each bytes e = fold enc_u8 bytes e"

definition enc_u16 :: "16 word \<Rightarrow> Writer" where "enc_u16 v = enc_each (le_bytes 2 v)"
definition enc_u32 :: "u32 \<Rightarrow> Writer" where "enc_u32 v = enc_each (le_bytes 4 v)"
definition enc_u64 :: "u64 \<Rightarrow> Writer" where "enc_u64 v = enc_each (le_bytes 8 v)"
definition enc_i64 :: "int \<Rightarrow> Writer" where "enc_i64 v = enc_u64 (word_of_int v)"
definition enc_boolean :: "bool \<Rightarrow> Writer" where "enc_boolean v = enc_u8 (if v then 1 else 0)"

definition char_byte :: "char \<Rightarrow> u8" where "char_byte c = of_char c"

definition enc_string :: "string \<Rightarrow> Writer" where
  "enc_string v e =
     (if length v > kMaxEncodedStringBytes then e\<lparr>enc_overflowed := True\<rparr>
      else enc_raw (map char_byte v) (enc_u32 (word_of_nat (length v)) e))"

definition enc_bytes :: "u8 list \<Rightarrow> Writer" where
  "enc_bytes v e =
     (if length v > kMaxEncodedBytes then e\<lparr>enc_overflowed := True\<rparr>
      else enc_raw v (enc_u32 (word_of_nat (length v)) e))"

definition encodeVector :: "('a \<Rightarrow> Writer) \<Rightarrow> 'a list \<Rightarrow> Writer" where
  "encodeVector one xs e =
     (if length xs > kMaxCollectionCount then enc_u32 0 e
      else fold one xs (enc_u32 (word_of_nat (length xs)) e))"

text \<open>A sequence of writes, in order.\<close>

definition enc_seq :: "Writer list \<Rightarrow> Writer" where
  "enc_seq ws e = fold (\<lambda>w. w) ws e"

definition enc_id :: "'tag StrongValue \<Rightarrow> Writer" where "enc_id v = enc_u64 (raw v)"
definition enc_nat32 :: "nat \<Rightarrow> Writer" where "enc_nat32 n = enc_u32 (word_of_nat n)"

section \<open>Records\<close>

definition encode_slots :: "SlotRange \<Rightarrow> Writer" where
  "encode_slots v = enc_seq [enc_nat32 (slot_first v), enc_nat32 (slot_count v)]"

definition encode_frequency :: "FrequencyRange \<Rightarrow> Writer" where
  "encode_frequency v = enc_seq [enc_i64 (lowMhz v), enc_i64 (highMhz v)]"

definition encode_fence :: "ControllerFence \<Rightarrow> Writer" where
  "encode_fence v = enc_seq [enc_id (epoch v), enc_id (incarnation v)]"

fun gridKind_code :: "GridKind \<Rightarrow> u8" where
  "gridKind_code UnknownKind = 0"
| "gridKind_code Fixed = 1"
| "gridKind_code Flex = 2"

definition encode_grid :: "ChannelGrid \<Rightarrow> Writer" where
  "encode_grid v = enc_seq
     [enc_id (grid_id v), enc_id (grid_generation v), enc_u8 (gridKind_code (grid_kind v)),
      enc_i64 (anchorMhz v), enc_i64 (slotWidthMhz v), enc_nat32 (slotCount v),
      enc_nat32 (minSlotsPerChannel v), enc_nat32 (maxSlotsPerChannel v), enc_string (grid_label v)]"

definition encode_span :: "Span \<Rightarrow> Writer" where
  "encode_span v = enc_seq
     [enc_id (span_id v), enc_id (span_generation v), enc_string (span_label v)]"

definition encode_port :: "OpticalPort \<Rightarrow> Writer" where
  "encode_port v = enc_seq
     [enc_id (port_id v), enc_id (port_generation v), enc_string (port_label v)]"

fun resourceClass_code :: "ResourceClass \<Rightarrow> u8" where
  "resourceClass_code UnknownClass = 0"
| "resourceClass_code FiberSpan = 1"
| "resourceClass_code MediaChannel = 2"
| "resourceClass_code OpticalPortClass = 3"
| "resourceClass_code AmplifierBand = 4"
| "resourceClass_code AbstractDomain = 5"

definition encode_domain :: "SpectrumDomain \<Rightarrow> Writer" where
  "encode_domain v = enc_seq
     [enc_id (dom_id v), enc_id (dom_generation v), enc_u8 (resourceClass_code (dom_klass v)),
      enc_id (dom_grid v), enc_id (dom_gridGeneration v), enc_id (dom_span v),
      enc_id (dom_spanGeneration v), enc_id (dom_portA v), enc_id (dom_portAGeneration v),
      enc_id (dom_portB v), enc_id (dom_portBGeneration v), enc_boolean (dom_requiresContiguity v),
      enc_string (dom_label v)]"

definition encode_exclusion :: "ExclusionDomain \<Rightarrow> Writer" where
  "encode_exclusion v = enc_seq
     [enc_id (exc_id v), enc_id (exc_generation v), enc_string (exc_label v),
      encodeVector enc_id (exc_members v), enc_i64 (exc_guardBandMhz v)]"

definition encode_evidence :: "CapabilityEvidence \<Rightarrow> Writer" where
  "encode_evidence v = enc_seq
     [enc_boolean (evidence_present v), enc_u64 (evidence_digest v), enc_string (evidence_source v)]"

fun support_code :: "SpectrumSupport \<Rightarrow> u8" where
  "support_code SupportUnsupported = 0"
| "support_code Supported = 1"
| "support_code SupportUnknown = 2"

definition encode_capability :: "SpectrumCapability \<Rightarrow> Writer" where
  "encode_capability v = enc_seq
     [enc_id (cap_domain v), enc_id (cap_domainGeneration v), enc_id (cap_grid v),
      enc_id (cap_gridGeneration v), enc_u8 (support_code (cap_support v)),
      enc_nat32 (cap_firstAllocatableSlot v), enc_nat32 (cap_allocatableSlots v),
      enc_i64 (cap_minTunableMhz v), enc_i64 (cap_maxTunableMhz v),
      enc_boolean (cap_contiguityEnforced v), enc_boolean (cap_conversionSupported v),
      encode_evidence (cap_conversionEvidence v), encode_evidence (cap_presenceEvidence v),
      enc_id (cap_generation v), enc_id (cap_publisher v), encode_fence (cap_fence v),
      enc_i64 (cap_publishedAt v), enc_string (cap_detail v)]"

definition encode_lease :: "Lease \<Rightarrow> Writer" where
  "encode_lease v = enc_seq
     [enc_id (lease_generation v), enc_i64 (lease_grantedAt v), enc_i64 (lease_expiresAt v),
      enc_nat32 (lease_renewalCount v), enc_nat32 (lease_maxRenewals v)]"

definition encode_reservation :: "SpectrumReservation \<Rightarrow> Writer" where
  "encode_reservation v = enc_seq
     [enc_id (res_id v), enc_id (res_generation v), enc_id (res_requestId v),
      enc_id (res_requestGeneration v), enc_id (res_owner v), enc_id (res_ownerGeneration v),
      enc_u8 (word_of_nat (state_index (res_state v))), encodeVector enc_id (res_domains v),
      encodeVector enc_id (res_domainGenerations v), enc_id (res_anchorDomain v),
      enc_id (res_grid v), enc_id (res_gridGeneration v), encode_slots (res_slots v),
      encode_frequency (res_frequency v), encodeVector encode_slots (res_perDomainSlots v),
      enc_boolean (res_crossGrid v), enc_boolean (res_contiguityRequired v),
      enc_boolean (res_continuityRequired v), enc_i64 (res_guardBandMhz v),
      enc_id (res_exclusionDomain v), encode_lease (res_lease v), enc_i64 (res_createdAt v),
      enc_i64 (res_updatedAt v), enc_i64 (res_activatedAt v), enc_i64 (res_deactivatedAt v),
      enc_i64 (res_releasedAt v), enc_i64 (res_reclaimedAt v), enc_id (res_capabilityGeneration v),
      encode_fence (res_commitFence v), enc_id (res_lastOperation v),
      enc_boolean (res_needsRevalidation v), enc_string (res_detail v)]"

text \<open>Enumerators are contiguous from zero, in the order of their declaration.\<close>

fun ordinal :: "'a \<Rightarrow> 'a list \<Rightarrow> nat" where
  "ordinal x [] = 0"
| "ordinal x (y # ys) = (if x = y then 0 else Suc (ordinal x ys))"

definition auditKind_code :: "AuditKind \<Rightarrow> u8" where
  "auditKind_code k = word_of_nat (ordinal k (map fst kAuditKindTokens))"

definition outcome_code :: "AllocationOutcome \<Rightarrow> u8" where
  "outcome_code k = word_of_nat (ordinal k (map fst kAllocationOutcomeTokens))"

definition encode_audit :: "AuditRecord \<Rightarrow> Writer" where
  "encode_audit v = enc_seq
     [enc_id (aud_sequence v), enc_i64 (aud_at v), enc_u8 (auditKind_code (aud_kind v)),
      encode_fence (aud_fence v), enc_u8 (outcome_code (aud_outcome v)),
      enc_id (aud_reservation v), enc_id (aud_reservationGeneration v), enc_id (aud_domain v),
      encode_slots (aud_slots v), encode_frequency (aud_frequency v), enc_string (aud_detail v)]"

section \<open>The state container\<close>

definition kHeaderMagic :: string where "kHeaderMagic = ''WVLFAB01''"
definition kTrailerMagic :: string where "kTrailerMagic = ''WVLFEND1''"
definition kHeaderBytes :: nat where "kHeaderBytes = 40"
definition kTrailerBytes :: nat where "kTrailerBytes = 24"
definition msg_metadata_overflow :: string where
  "msg_metadata_overflow = ''metadata record overflowed''"
definition msg_encoder_bound :: string where
  "msg_encoder_bound = ''encoded state exceeded the encoder bound''"

datatype RecordKind =
  NoRecord | MetadataRecord | GridRecord | SpanRecord | PortRecord | DomainRecord | ExclusionRecord
  | CapabilityRecord | ReservationRecord | AuditRecordKind

fun recordKind_code :: "RecordKind \<Rightarrow> u8" where
  "recordKind_code NoRecord = 0"
| "recordKind_code MetadataRecord = 1"
| "recordKind_code GridRecord = 2"
| "recordKind_code SpanRecord = 3"
| "recordKind_code PortRecord = 4"
| "recordKind_code DomainRecord = 5"
| "recordKind_code ExclusionRecord = 6"
| "recordKind_code CapabilityRecord = 7"
| "recordKind_code ReservationRecord = 8"
| "recordKind_code AuditRecordKind = 9"

definition appendRecord :: "RecordKind \<Rightarrow> u8 list \<Rightarrow> Writer" where
  "appendRecord kind payload = enc_seq
     [enc_u8 (recordKind_code kind), enc_u8 0, enc_u32 (word_of_nat (length payload)),
      enc_u32 (crc32 payload), enc_bytes payload]"

definition metadata_writer :: "RuntimeState \<Rightarrow> Writer" where
  "metadata_writer s = enc_seq
     [enc_u16 kPersistenceFormatVersion, enc_u16 0, enc_id (epoch (rs_fence s)),
      enc_id (incarnation (rs_fence s)), enc_id (rs_runtimeGeneration s),
      enc_id (rs_recoveryGeneration s), enc_id (rs_nextReservationId s), enc_id (rs_auditSequence s),
      enc_i64 (rs_lastActivityAt s), enc_id (cfg_controller (rs_config s)),
      enc_id (auth_eligibility (rs_authority s)), enc_id (auth_reservation (rs_authority s)),
      enc_id (auth_activation (rs_authority s)), enc_id (auth_release (rs_authority s))]"

text \<open>
  \<open>emit\<close> encodes one value into a fresh payload and appends it as a record. Like the source it
  does not look at the overflow flag of the payload.
\<close>

definition emit :: "RecordKind \<Rightarrow> Writer \<Rightarrow> Writer" where
  "emit kind w body = appendRecord kind (enc_buffer (w new_encoder)) body"

definition state_records :: "RuntimeState \<Rightarrow> (RecordKind \<times> Writer) list" where
  "state_records s =
     map (\<lambda>v. (GridRecord, encode_grid v)) (om_values (rs_grids s))
     @ map (\<lambda>v. (SpanRecord, encode_span v)) (om_values (rs_spans s))
     @ map (\<lambda>v. (PortRecord, encode_port v)) (om_values (rs_ports s))
     @ map (\<lambda>v. (DomainRecord, encode_domain v)) (om_values (rs_domains s))
     @ map (\<lambda>v. (ExclusionRecord, encode_exclusion v)) (om_values (rs_exclusionDomains s))
     @ map (\<lambda>v. (CapabilityRecord, encode_capability v)) (om_values (rs_capabilities s))
     @ map (\<lambda>v. (ReservationRecord, encode_reservation v)) (om_values (rs_reservations s))
     @ map (\<lambda>v. (AuditRecordKind, encode_audit v)) (rs_audit s)"

definition header_bytes :: "u8 list \<Rightarrow> nat \<Rightarrow> u8 list" where
  "header_bytes body records =
     enc_buffer (enc_seq
       (map (\<lambda>c. enc_u8 (char_byte c)) kHeaderMagic
        @ [enc_u16 kPersistenceFormatVersion, enc_u16 0, enc_nat32 kHeaderBytes, enc_u32 0,
           enc_u64 (word_of_nat (length body)), enc_u64 (word_of_nat records)]) new_encoder)"

definition trailer_bytes :: "u8 list \<Rightarrow> u8 list" where
  "trailer_bytes body =
     enc_buffer (enc_seq
       ([enc_u32 (crc32 body), enc_u64 (word_of_nat (kHeaderBytes + length body + kTrailerBytes)),
         enc_u32 0] @ map (\<lambda>c. enc_u8 (char_byte c)) kTrailerMagic) new_encoder)"

definition encodeState :: "RuntimeState \<Rightarrow> Status + u8 list" where
  "encodeState s =
     (let metadata = metadata_writer s new_encoder
      in if enc_overflowed metadata then Inl (fail Overflow msg_metadata_overflow)
         else
           let body0 = appendRecord MetadataRecord (enc_buffer metadata) new_encoder;
               body = fold (\<lambda>(kind, w). emit kind w) (state_records s) body0
           in if enc_overflowed body then Inl (fail Overflow msg_encoder_bound)
              else
                let bytes = enc_buffer body;
                    header = header_bytes bytes (length (state_records s) + 1)
                in Inr (header @ enc_buffer (enc_u32 (crc32 header) new_encoder) @ bytes
                        @ trailer_bytes bytes))"

end
