(* ===== verification/Cli_Parse.thy ===== *)
theory Cli_Parse
  imports Resource Capability Request Encoder "HOL-Library.Monad_Syntax"
begin

text \<open>
  The command line of \<open>wfcli.cpp\<close>: the numbers, the colon-separated specifications and the arguments
  of the program. A usage error is \<open>None\<close>; its text is not modelled. What is parsed from a
  specification is the record the runtime registers, with every bound the tool checks.
\<close>

section \<open>Scalars\<close>

fun split_fields :: "char \<Rightarrow> string \<Rightarrow> string list" where
  "split_fields sep [] = [[]]"
| "split_fields sep (c # cs) =
     (if c = sep then [] # split_fields sep cs
      else case split_fields sep cs of f # fs \<Rightarrow> (c # f) # fs | [] \<Rightarrow> [[c]])"

definition is_digit :: "char \<Rightarrow> bool" where
  "is_digit c \<longleftrightarrow> (48 :: nat) \<le> of_char c \<and> (of_char c :: nat) \<le> 57"

definition digits :: "string \<Rightarrow> bool" where
  "digits cs \<longleftrightarrow> cs \<noteq> [] \<and> list_all is_digit cs"

text \<open>\<open>std::from_chars\<close> in base ten, up to the end of the text: a minus sign for the signed type only.\<close>

definition parseU64 :: "string \<Rightarrow> u64 option" where
  "parseU64 text =
     (if digits text \<and> digits_value 0 text < 18446744073709551616 then Some (word_of_nat (digits_value 0 text))
      else None)"

definition parseI64 :: "string \<Rightarrow> int option" where
  "parseI64 text =
     (case text of
        [] \<Rightarrow> None
      | c # cs \<Rightarrow>
          let negative = c = CHR ''-''; ds = (if negative then cs else text);
              v = (if negative then - int (digits_value 0 ds) else int (digits_value 0 ds))
          in if digits ds \<and> is_i64 v then Some v else None)"

definition parseU32 :: "string \<Rightarrow> nat option" where
  "parseU32 text = (case parseI64 text of None \<Rightarrow> None | Some v \<Rightarrow> fitsU32 v)"

definition parseU16 :: "string \<Rightarrow> nat option" where
  "parseU16 text = (case parseI64 text of None \<Rightarrow> None | Some v \<Rightarrow> fitsU16 v)"

definition parseIdentity :: "string \<Rightarrow> 'a StrongValue option" where
  "parseIdentity text =
     (case parseU64 text of None \<Rightarrow> None | Some v \<Rightarrow> if v \<noteq> 0 then Some (StrongValue v) else None)"

definition parseInstant :: "string \<Rightarrow> Instant option" where
  "parseInstant text =
     (case parseI64 text of None \<Rightarrow> None | Some v \<Rightarrow> if v < 0 then None else Some v)"

definition kLeaseSecondsCeiling :: int where "kLeaseSecondsCeiling = 315360000"

definition parseLease :: "string \<Rightarrow> Duration option" where
  "parseLease text =
     (case parseI64 text of
        None \<Rightarrow> None
      | Some seconds \<Rightarrow>
          if seconds \<le> 0 then None
          else if seconds > kLeaseSecondsCeiling then None
          else mulOverflow seconds 1000000000)"

definition parseContiguity :: "string \<Rightarrow> ContiguityRequirement option" where
  "parseContiguity text =
     (if text = ''required'' then Some ContiguityRequired
      else if text = ''not-required'' then Some ContiguityNotRequired
      else if text = ''unspecified'' then Some ContiguityUnspecified else None)"

definition parseContinuity :: "string \<Rightarrow> ContinuityRequirement option" where
  "parseContinuity text =
     (if text = ''required'' then Some ContinuityRequired
      else if text = ''not-required'' then Some ContinuityNotRequired
      else if text = ''unspecified'' then Some ContinuityUnspecified else None)"

definition within :: "int \<Rightarrow> int \<Rightarrow> int option \<Rightarrow> int option" where
  "within low high v = (case v of None \<Rightarrow> None | Some x \<Rightarrow> if x < low \<or> x > high then None else Some x)"

definition within_count :: "nat \<Rightarrow> nat \<Rightarrow> nat option \<Rightarrow> nat option" where
  "within_count low high v = (case v of None \<Rightarrow> None | Some n \<Rightarrow> if n < low \<or> n > high then None else Some n)"

section \<open>Specifications\<close>

definition grid_spec :: "string \<Rightarrow> ChannelGrid option" where
  "grid_spec spec =
     (let fields = split_fields CHR '':'' spec
      in if length fields \<noteq> 6 \<and> length fields \<noteq> 8 then None
         else do {
           kind \<leftarrow> (if fields ! 0 = ''fixed'' then (if length fields \<noteq> 6 then None else Some Fixed)
                    else if fields ! 0 = ''flex'' then (if length fields \<noteq> 8 then None else Some Flex)
                    else None);
           i \<leftarrow> parseIdentity (fields ! 1);
           g \<leftarrow> parseIdentity (fields ! 2);
           anchor \<leftarrow> within kMinFrequencyMhz kMaxFrequencyMhz (parseI64 (fields ! 3));
           width \<leftarrow> within kMinSlotWidthMhz kMaxSlotWidthMhz (parseI64 (fields ! 4));
           slots \<leftarrow> within_count 1 kMaxGridSlots (parseU32 (fields ! 5));
           total \<leftarrow> mulOverflow (int slots) width;
           end_mhz \<leftarrow> addOverflow anchor total;
           if end_mhz > kMaxFrequencyMhz then None
           else do {
             (least, greatest) \<leftarrow>
               (if kind = Flex
                then do {
                  least \<leftarrow> within_count 1 kMaxSlotsPerChannel (parseU32 (fields ! 6));
                  greatest \<leftarrow> within_count least kMaxSlotsPerChannel (parseU32 (fields ! 7));
                  Some (least, greatest)}
                else Some (1, 1));
             Some \<lparr>grid_id = i, grid_generation = g, grid_kind = kind, anchorMhz = anchor, slotWidthMhz = width,
               slotCount = slots, minSlotsPerChannel = least, maxSlotsPerChannel = greatest, grid_label = []\<rparr>}})"

definition domain_spec :: "string \<Rightarrow> SpectrumDomain option" where
  "domain_spec spec =
     (let fields = split_fields CHR '':'' spec
      in if length fields \<noteq> 4 \<and> length fields \<noteq> 5 then None
         else do {
           i \<leftarrow> parseIdentity (fields ! 0);
           g \<leftarrow> parseIdentity (fields ! 1);
           grid \<leftarrow> parseIdentity (fields ! 2);
           gridGeneration \<leftarrow> parseIdentity (fields ! 3);
           contiguous \<leftarrow> (if length fields = 5
             then (if fields ! 4 = ''contiguous'' then Some True
                   else if fields ! 4 = ''fragmented'' then Some False else None)
             else Some True);
           Some \<lparr>dom_id = i, dom_generation = g, dom_klass = AbstractDomain, dom_grid = grid,
             dom_gridGeneration = gridGeneration, dom_span = sv_none, dom_spanGeneration = sv_none,
             dom_portA = sv_none, dom_portAGeneration = sv_none, dom_portB = sv_none,
             dom_portBGeneration = sv_none, dom_requiresContiguity = contiguous, dom_label = []\<rparr>})"

text \<open>A strictly ascending list of identities, as it is read from left to right.\<close>

fun ascending_ids :: "string list \<Rightarrow> 'a StrongValue list \<Rightarrow> 'a StrongValue list option" where
  "ascending_ids [] ids = Some ids"
| "ascending_ids (entry # entries) ids =
     (case parseIdentity entry of
        None \<Rightarrow> None
      | Some i \<Rightarrow> if ids \<noteq> [] \<and> \<not> last ids < i then None else ascending_ids entries (ids @ [i]))"

definition exclusion_spec :: "string \<Rightarrow> ExclusionDomain option" where
  "exclusion_spec spec =
     (let fields = split_fields CHR '':'' spec
      in if length fields \<noteq> 4 then None
         else do {
           i \<leftarrow> parseIdentity (fields ! 0);
           g \<leftarrow> parseIdentity (fields ! 1);
           guardBand \<leftarrow> within 0 kMaxGuardBandMhz (parseI64 (fields ! 2));
           let entries = split_fields CHR '','' (fields ! 3);
           if length entries > kMaxExclusionDomainMembers then None
           else do {
             members \<leftarrow> ascending_ids entries [];
             Some \<lparr>exc_id = i, exc_generation = g, exc_label = [], exc_members = members,
               exc_guardBandMhz = guardBand\<rparr>}})"

definition capability_spec :: "string \<Rightarrow> ControllerFence \<Rightarrow> Instant \<Rightarrow> SpectrumCapability option" where
  "capability_spec spec fence at =
     (let fields = split_fields CHR '':'' spec
      in do {
        domain \<leftarrow> parseIdentity (fields ! 0);
        domainGeneration \<leftarrow> parseIdentity (fields ! 1);
        grid \<leftarrow> parseIdentity (fields ! 2);
        gridGeneration \<leftarrow> parseIdentity (fields ! 3);
        support \<leftarrow> (if fields ! 4 = ''supported'' then Some Supported
          else if fields ! 4 = ''unsupported'' then Some SupportUnsupported
          else if fields ! 4 = ''unknown'' then Some SupportUnknown else None);
        first \<leftarrow> parseU32 (fields ! 5);
        count \<leftarrow> parseU32 (fields ! 6);
        _ \<leftarrow> addOverflow (int first) (int count);
        low \<leftarrow> within kMinFrequencyMhz kMaxFrequencyMhz (parseI64 (fields ! 7));
        high \<leftarrow> within kMinFrequencyMhz kMaxFrequencyMhz (parseI64 (fields ! 8));
        if support = Supported \<and> high \<le> low then None
        else
          let checksum = crc32 (map char_byte spec);
              digest = (if checksum = 0 then 1 else ucast checksum)
          in Some \<lparr>cap_domain = domain, cap_domainGeneration = domainGeneration, cap_grid = grid,
            cap_gridGeneration = gridGeneration, cap_support = support, cap_firstAllocatableSlot = first,
            cap_allocatableSlots = count, cap_minTunableMhz = low, cap_maxTunableMhz = high,
            cap_contiguityEnforced = True, cap_conversionSupported = False,
            cap_conversionEvidence = default_evidence,
            cap_presenceEvidence = \<lparr>evidence_present = True, evidence_digest = digest,
              evidence_source = ''wfcli''\<rparr>,
            cap_generation = StrongValue 1, cap_publisher = StrongValue 1, cap_fence = fence,
            cap_publishedAt = at, cap_detail = []\<rparr>})"

record RequestSpec =
  rqs_domains :: "SpectrumDomainId list"
  rqs_domainGenerations :: "SpectrumDomainGeneration list"
  rqs_grid :: ChannelGridId
  rqs_gridGeneration :: GridGeneration
  rqs_slots :: nat
  rqs_contiguity :: ContiguityRequirement
  rqs_continuity :: ContinuityRequirement
  rqs_lease :: Duration

text \<open>An entry names its generation, or the session looks it up.\<close>

definition parseDomainEntry ::
    "(SpectrumDomainId \<Rightarrow> SpectrumDomainGeneration option) \<Rightarrow> string
      \<Rightarrow> (SpectrumDomainId \<times> SpectrumDomainGeneration) option" where
  "parseDomainEntry lookup entry =
     (let parts = split_fields CHR ''@'' entry
      in if length parts > 2 then None
         else do {
           i \<leftarrow> parseIdentity (parts ! 0);
           g \<leftarrow> (if length parts = 2 then parseIdentity (parts ! 1) else lookup i);
           Some (i, g)})"

fun domain_entries ::
    "(SpectrumDomainId \<Rightarrow> SpectrumDomainGeneration option) \<Rightarrow> string list
      \<Rightarrow> (SpectrumDomainId \<times> SpectrumDomainGeneration) list
      \<Rightarrow> (SpectrumDomainId \<times> SpectrumDomainGeneration) list option" where
  "domain_entries lookup [] ds = Some ds"
| "domain_entries lookup (entry # entries) ds =
     (case parseDomainEntry lookup entry of
        None \<Rightarrow> None
      | Some (i, g) \<Rightarrow>
          if ds \<noteq> [] \<and> \<not> fst (last ds) < i then None else domain_entries lookup entries (ds @ [(i, g)]))"

definition parseRequestSpec ::
    "(SpectrumDomainId \<Rightarrow> SpectrumDomainGeneration option) \<Rightarrow> string \<Rightarrow> RequestSpec option" where
  "parseRequestSpec lookup spec =
     (let fields = split_fields CHR '':'' spec
      in if length fields \<noteq> 7 then None
         else let entries = split_fields CHR '','' (fields ! 0)
         in if length entries > kMaxRequestDomains then None
         else do {
           ds \<leftarrow> domain_entries lookup entries [];
           grid \<leftarrow> parseIdentity (fields ! 1);
           gridGeneration \<leftarrow> parseIdentity (fields ! 2);
           slots \<leftarrow> within_count 1 kMaxSlotsPerChannel (parseU32 (fields ! 3));
           contiguity \<leftarrow> parseContiguity (fields ! 4);
           continuity \<leftarrow> parseContinuity (fields ! 5);
           lease \<leftarrow> parseLease (fields ! 6);
           Some \<lparr>rqs_domains = map fst ds, rqs_domainGenerations = map snd ds, rqs_grid = grid,
             rqs_gridGeneration = gridGeneration, rqs_slots = slots, rqs_contiguity = contiguity,
             rqs_continuity = continuity, rqs_lease = lease\<rparr>})"

definition renewal_spec :: "string \<Rightarrow> (ReservationId \<times> ReservationGeneration \<times> Duration) option" where
  "renewal_spec spec =
     (let fields = split_fields CHR '':'' spec
      in if length fields \<noteq> 3 then None
         else do {
           i \<leftarrow> parseIdentity (fields ! 0);
           g \<leftarrow> parseIdentity (fields ! 1);
           extension \<leftarrow> parseLease (fields ! 2);
           Some (i, g, extension)})"

definition reservation_spec :: "string \<Rightarrow> (ReservationId \<times> ReservationGeneration) option" where
  "reservation_spec spec =
     (let fields = split_fields CHR '':'' spec
      in if length fields \<noteq> 2 then None
         else do {
           i \<leftarrow> parseIdentity (fields ! 0);
           g \<leftarrow> parseIdentity (fields ! 1);
           Some (i, g)})"

section \<open>The arguments of the program\<close>

datatype Mode = LocalMode | ServerMode

record Command =
  cmd_name :: string
  cmd_args :: "string list"
  cmd_at :: "Instant option"

record Invocation =
  inv_mode :: Mode
  inv_statePath :: string
  inv_host :: string
  inv_port :: nat
  inv_command :: Command

datatype Arguments = PrintUsage bool | UsageError | Invoke Invocation

text \<open>The options, up to the first argument that is none.\<close>

fun parse_options ::
    "Mode \<Rightarrow> string list \<Rightarrow> string \<times> string \<times> nat \<Rightarrow> ((string \<times> string \<times> nat) \<times> string list) option" where
  "parse_options m [] options = Some (options, [])"
| "parse_options m [option] options =
     (if option = ''--state'' \<or> option = ''--host'' \<or> option = ''--port'' then None else Some (options, [option]))"
| "parse_options m (option # argument # arguments) (state, host, port) =
     (if option = ''--state'' then (if m \<noteq> LocalMode then None else parse_options m arguments (argument, host, port))
      else if option = ''--host'' then (if m \<noteq> ServerMode then None else parse_options m arguments (state, argument, port))
      else if option = ''--port''
      then (if m \<noteq> ServerMode then None
            else case within_count 1 65535 (parseU16 argument) of
              None \<Rightarrow> None
            | Some p \<Rightarrow> parse_options m arguments (state, host, p))
      else Some ((state, host, port), option # argument # arguments))"

text \<open>The arguments of the command: an instant may be the last one only.\<close>

fun parse_arguments :: "string list \<Rightarrow> (string list \<times> Instant option) option" where
  "parse_arguments [] = Some ([], None)"
| "parse_arguments (token # tokens) =
     (if token \<noteq> [] \<and> hd token = CHR ''@''
      then (if tokens \<noteq> [] then None
            else case parseInstant (tl token) of None \<Rightarrow> None | Some at \<Rightarrow> Some ([], Some at))
      else case parse_arguments tokens of
          None \<Rightarrow> None
        | Some (arguments, at) \<Rightarrow> Some (token # arguments, at))"

definition parse_command_line :: "string list \<Rightarrow> Arguments" where
  "parse_command_line arguments =
     (case arguments of
        [] \<Rightarrow> PrintUsage False
      | mode # others \<Rightarrow>
          if mode = ''help'' \<or> mode = ''--help'' \<or> mode = ''-h'' then PrintUsage True
          else
            let m = (if mode = ''server'' then ServerMode else LocalMode);
                given = (if mode = ''local'' \<or> mode = ''server'' then others else arguments)
            in (case parse_options m given ([], [], 0) of
                  None \<Rightarrow> UsageError
                | Some ((state, host, port), remaining) \<Rightarrow>
                    if m = ServerMode \<and> (host = [] \<or> port = 0) then UsageError
                    else (case remaining of
                        [] \<Rightarrow> UsageError
                      | name # tokens \<Rightarrow>
                          (case parse_arguments tokens of
                             None \<Rightarrow> UsageError
                           | Some (args, at) \<Rightarrow>
                               if length name > 2 \<and> take 2 name = ''--'' then UsageError
                               else Invoke \<lparr>inv_mode = m, inv_statePath = state, inv_host = host, inv_port = port,
                                 inv_command = \<lparr>cmd_name = name, cmd_args = args, cmd_at = at\<rparr>\<rparr>))))"

section \<open>What parsing guarantees\<close>

text \<open>Splitting loses nothing, and no field holds a separator.\<close>

fun join_fields :: "char \<Rightarrow> string list \<Rightarrow> string" where
  "join_fields sep [] = []"
| "join_fields sep [f] = f"
| "join_fields sep (f # fs) = f @ sep # join_fields sep fs"

lemma split_fields_nonempty [simp]: "split_fields sep input \<noteq> []"
  by (induction input) (auto split: list.splits)

lemma join_cons: "fs \<noteq> [] \<Longrightarrow> join_fields sep (f # fs) = f @ sep # join_fields sep fs"
  by (cases fs) simp_all

lemma join_split: "join_fields sep (split_fields sep input) = input"
proof (induction input)
  case (Cons c cs)
  obtain f fs where fs: "split_fields sep cs = f # fs"
    using split_fields_nonempty by (metis neq_Nil_conv)
  show ?case
    using Cons fs by (cases fs) (auto simp: join_cons)
qed simp

lemma split_fields_free: "f \<in> set (split_fields sep input) \<Longrightarrow> sep \<notin> set f"
  by (induction input arbitrary: f) (auto split: list.splits if_splits)

text \<open>Numbers are read exactly: what is printed is read back, and nothing is read outside the range.\<close>

lemma digits_nat_to_string: "digits (nat_to_string n)"
proof -
  have "list_all is_digit (nat_to_string n)"
  proof (induction n rule: nat_to_string.induct)
    case (1 n)
    have digit: "is_digit (char_of (48 + k))" if "k < 10" for k :: nat
      using that by (simp add: is_digit_def of_char_of)
    show ?case
    proof (cases "n < 10")
      case True
      then show ?thesis
        by (subst nat_to_string.simps) (simp add: digit)
    next
      case False
      then show ?thesis
        using 1 by (subst nat_to_string.simps) (simp add: digit)
    qed
  qed
  then show ?thesis
    by (simp add: digits_def)
qed

lemma parseU64_print: "parseU64 (u64_to_string v) = Some v"
proof -
  have "unat v < 18446744073709551616"
    using unsigned_less [of v] by simp
  then show ?thesis
    by (simp add: parseU64_def u64_to_string_def digits_nat_to_string digits_value_nat_to_string)
qed

lemma parseI64_print:
  assumes "is_i64 v"
  shows "parseI64 (int_to_string v) = Some v"
proof (cases "v < 0")
  case True
  then show ?thesis
    using assms by (simp add: parseI64_def int_to_string_def digits_nat_to_string digits_value_nat_to_string)
next
  case False
  obtain c cs where cs: "nat_to_string (nat v) = c # cs"
    by (metis nat_to_string_nonempty neq_Nil_conv)
  moreover have "is_digit c"
    using digits_nat_to_string [of "nat v"] cs by (simp add: digits_def)
  then have "c \<noteq> CHR ''-''"
    by (auto simp: is_digit_def)
  ultimately show ?thesis
    using assms False digits_nat_to_string [of "nat v"] digits_value_nat_to_string [of "nat v"]
    by (simp add: parseI64_def int_to_string_def)
qed

lemma parseI64_range: "parseI64 input = Some v \<Longrightarrow> is_i64 v"
  by (auto simp: parseI64_def Let_def split: list.splits if_splits)

lemma parseIdentity_valid: "parseIdentity input = Some i \<Longrightarrow> sv_valid i"
  by (auto simp: parseIdentity_def sv_valid_def split: option.splits if_splits)

lemma within_Some: "within low high v = Some x \<longleftrightarrow> v = Some x \<and> low \<le> x \<and> x \<le> high"
  by (auto simp: within_def split: option.splits)

lemma within_count_Some: "within_count low high v = Some n \<longleftrightarrow> v = Some n \<and> low \<le> n \<and> n \<le> high"
  by (auto simp: within_count_def split: option.splits)

lemma parseLease_bounds: "parseLease input = Some d \<Longrightarrow> 0 < d \<and> d \<le> kMaxLeaseNanos"
  by (auto simp: parseLease_def mulOverflow_eq kLeaseSecondsCeiling_def kMaxLeaseNanos_def i64_defs
      dest: parseI64_range split: option.splits if_splits)

text \<open>What a specification describes is what the runtime validates.\<close>

lemma grid_spec_valid:
  assumes "grid_spec spec = Some g"
  shows "status_ok (validateGrid g)"
proof -
  have product: "mulOverflow (int n) v = Some w \<longleftrightarrow> w = v * int n"
    if "n \<le> 1048576" and "1 \<le> v" and "v \<le> 1000000" for n v w
  proof -
    have "0 \<le> v * int n" "v * int n \<le> 1000000 * 1048576"
      using that by (intro mult_nonneg_nonneg mult_mono; simp)+
    then have "is_i64 (int n * v)"
      unfolding i64_defs by (simp only: mult.commute [of "int n"]) linarith
    moreover have "is_i64 (int n)" "is_i64 v"
      using that by (simp_all add: i64_defs)
    ultimately have "is_i64 (int n)" "is_i64 v" "is_i64 (int n * v)"
      by simp_all
    then show ?thesis
      using mulOverflow_eq [of "int n" v] by (auto simp: mult.commute)
  qed
  show ?thesis
    using assms unfolding grid_spec_def Let_def validateGrid_iff grid_wf_def grid_channels_wf_def
    by (auto simp: bind_eq_Some_conv within_Some within_count_Some gridEndMhz_eq kMinFrequencyMhz_def
        kMaxFrequencyMhz_def kMinSlotWidthMhz_def kMaxSlotWidthMhz_def kMaxGridSlots_def
        kMaxSlotsPerChannel_def grid_endMhz_def product
        dest!: parseIdentity_valid addOverflow_Some split: if_splits)
qed

lemma domain_spec_valid:
  assumes "domain_spec spec = Some d"
  shows "status_ok (validateDomain d)"
proof -
  obtain i g grid gridGeneration contiguous where
    d: "d = \<lparr>dom_id = i, dom_generation = g, dom_klass = AbstractDomain, dom_grid = grid,
      dom_gridGeneration = gridGeneration, dom_span = sv_none, dom_spanGeneration = sv_none,
      dom_portA = sv_none, dom_portAGeneration = sv_none, dom_portB = sv_none,
      dom_portBGeneration = sv_none, dom_requiresContiguity = contiguous, dom_label = []\<rparr>"
    and valid: "sv_valid i" "sv_valid g" "sv_valid grid" "sv_valid gridGeneration"
    using assms unfolding domain_spec_def Let_def
    by (clarsimp simp: bind_eq_Some_conv parseIdentity_valid split: if_split_asm)
  show ?thesis
    unfolding d validateDomain_def using valid by simp
qed

lemma ascending_ids_sorted:
  assumes "ascending_ids entries ids = Some members" and "sorted_wrt (<) ids" and "\<forall>i \<in> set ids. sv_valid i"
  shows "sorted_wrt (<) members \<and> (\<forall>i \<in> set members. sv_valid i) \<and> length members = length ids + length entries"
  using assms
proof (induction entries ids rule: ascending_ids.induct)
  case (2 entry entries ids)
  obtain i where i: "parseIdentity entry = Some i" "ids = [] \<or> last ids < i" "ascending_ids entries (ids @ [i]) = Some members"
    using "2.prems"(1) by (auto split: option.splits if_splits)
  have "\<forall>j \<in> set ids. j < i"
  proof
    fix j
    assume "j \<in> set ids"
    then show "j < i"
      using i(2) "2.prems"(2) by (cases ids rule: rev_cases) (auto simp: sorted_wrt_append)
  qed
  then have "sorted_wrt (<) (ids @ [i])" "\<forall>j \<in> set (ids @ [i]). sv_valid j"
    using "2.prems"(2,3) parseIdentity_valid [OF i(1)] by (auto simp: sorted_wrt_append)
  moreover have "\<not> (ids \<noteq> [] \<and> \<not> last ids < i)"
    using i(2) by blast
  ultimately have "sorted_wrt (<) members \<and> (\<forall>i \<in> set members. sv_valid i)
      \<and> length members = length (ids @ [i]) + length entries"
    by (intro "2.IH" [OF i(1) _ i(3)])
  then show ?case
    by simp
qed simp

lemma exclusion_spec_valid:
  assumes "exclusion_spec spec = Some d"
  shows "status_ok (validateExclusionDomain d)"
proof -
  let ?entries = "split_fields CHR '','' (split_fields CHR '':'' spec ! 3)"
  obtain members where m: "ascending_ids ?entries [] = Some members" "exc_members d = members"
    "length ?entries \<le> kMaxExclusionDomainMembers"
    using assms by (auto simp: exclusion_spec_def Let_def bind_eq_Some_conv split: if_splits)
  have "sorted_wrt (<) members \<and> (\<forall>i \<in> set members. sv_valid i) \<and> length members = length ?entries"
    using ascending_ids_sorted [OF m(1)] by simp
  then have "members \<noteq> []" "length members \<le> kMaxExclusionDomainMembers" "sorted_wrt (<) members" "\<forall>i \<in> set members. sv_valid i"
    using m(3) split_fields_nonempty [of "CHR '',''" "split_fields CHR '':'' spec ! 3"] by auto
  then show ?thesis
    using assms m(2) unfolding validateExclusionDomain_iff exclusion_wf_def
    by (auto simp: exclusion_spec_def Let_def bind_eq_Some_conv within_Some dest!: parseIdentity_valid split: if_splits)
qed

text \<open>The domains of a request are read in ascending order, each with a generation.\<close>

lemma domain_entries_sorted:
  assumes "domain_entries lookup entries ds = Some es" and "sorted_wrt (<) (map fst ds)"
    and "\<forall>e \<in> set ds. sv_valid (fst e)"
  shows "sorted_wrt (<) (map fst es) \<and> (\<forall>e \<in> set es. sv_valid (fst e)) \<and> length es = length ds + length entries"
  using assms
proof (induction lookup entries ds rule: domain_entries.induct)
  case (2 lookup entry entries ds)
  obtain i g where i: "parseDomainEntry lookup entry = Some (i, g)" "ds = [] \<or> fst (last ds) < i"
    "domain_entries lookup entries (ds @ [(i, g)]) = Some es"
    using "2.prems"(1) by (auto split: option.splits if_splits)
  have "sv_valid i"
    using i(1) by (auto simp: parseDomainEntry_def Let_def bind_eq_Some_conv dest: parseIdentity_valid split: if_splits)
  moreover have "\<forall>j \<in> set (map fst ds). j < i"
  proof
    fix j
    assume "j \<in> set (map fst ds)"
    then show "j < i"
      using i(2) "2.prems"(2) by (cases ds rule: rev_cases) (auto simp: sorted_wrt_append)
  qed
  ultimately have "sorted_wrt (<) (map fst (ds @ [(i, g)]))" "\<forall>e \<in> set (ds @ [(i, g)]). sv_valid (fst e)"
    using "2.prems"(2,3) by (auto simp: sorted_wrt_append)
  moreover have "\<not> (ds \<noteq> [] \<and> \<not> fst (last ds) < i)"
    using i(2) by blast
  ultimately have "sorted_wrt (<) (map fst es) \<and> (\<forall>e \<in> set es. sv_valid (fst e))
      \<and> length es = length (ds @ [(i, g)]) + length entries"
    by (intro "2.IH" [OF i(1) refl _ i(3)])
  then show ?case
    by simp
qed simp

lemma parseRequestSpec_valid:
  assumes "parseRequestSpec lookup spec = Some r"
  shows "rqs_domains r \<noteq> []" and "length (rqs_domains r) \<le> kMaxRequestDomains"
    and "length (rqs_domainGenerations r) = length (rqs_domains r)" and "sorted_wrt (<) (rqs_domains r)"
    and "\<forall>d \<in> set (rqs_domains r). sv_valid d" and "sv_valid (rqs_grid r)" and "sv_valid (rqs_gridGeneration r)"
    and "0 < rqs_slots r" and "rqs_slots r \<le> kMaxSlotsPerChannel"
    and "0 < rqs_lease r" and "rqs_lease r \<le> kMaxLeaseNanos"
proof -
  let ?entries = "split_fields CHR '','' (split_fields CHR '':'' spec ! 0)"
  obtain ds where ds: "domain_entries lookup ?entries [] = Some ds" "rqs_domains r = map fst ds"
    "rqs_domainGenerations r = map snd ds" "length ?entries \<le> kMaxRequestDomains"
    using assms by (auto simp: parseRequestSpec_def Let_def bind_eq_Some_conv split: if_splits)
  have "sorted_wrt (<) (map fst ds) \<and> (\<forall>e \<in> set ds. sv_valid (fst e)) \<and> length ds = length ?entries"
    using domain_entries_sorted [OF ds(1)] by simp
  then show "rqs_domains r \<noteq> []" "length (rqs_domains r) \<le> kMaxRequestDomains"
    "length (rqs_domainGenerations r) = length (rqs_domains r)" "sorted_wrt (<) (rqs_domains r)"
    "\<forall>d \<in> set (rqs_domains r). sv_valid d"
    using ds(2-4) split_fields_nonempty [of "CHR '',''" "split_fields CHR '':'' spec ! 0"] by auto
  show "sv_valid (rqs_grid r)" "sv_valid (rqs_gridGeneration r)" "0 < rqs_slots r" "rqs_slots r \<le> kMaxSlotsPerChannel"
    "0 < rqs_lease r" "rqs_lease r \<le> kMaxLeaseNanos"
    using assms by (auto simp: parseRequestSpec_def Let_def bind_eq_Some_conv within_count_Some
        dest!: parseIdentity_valid parseLease_bounds split: if_splits)
qed

end
