(* ===== verification/Decoder.thy ===== *)
theory Decoder
  imports Encoder "HOL-Library.Monad_Syntax"
begin

unbundle bit_operations_syntax

text \<open>
  The reading half of \<open>codec.cpp\<close>: the bounded \<open>Decoder\<close> and its primitive reads. The decoder of the
  source is a view of the bytes, an offset and a sticky failure flag; here a reader maps the bytes
  that are still unread to the value and the rest, and \<open>None\<close> is the failure, which every caller
  passes on. The relation \<open>codes\<close> says that a writer and a reader are inverse on a value; it is
  closed under sequencing, and the locale \<open>codec\<close> is the interface of one value type.
\<close>

type_synonym 'a Reader = "u8 list \<Rightarrow> ('a \<times> u8 list) option"

section \<open>Primitive reads\<close>

fun rd_u8 :: "u8 Reader" where
  "rd_u8 [] = None"
| "rd_u8 (b # r) = Some (b, r)"

definition rd_u16 :: "16 word Reader" where
  "rd_u16 r = do {
     (low, r) \<leftarrow> rd_u8 r;
     (high, r) \<leftarrow> rd_u8 r;
     Some (ucast low OR push_bit 8 (ucast high), r)}"

text \<open>The loop over the shifts: \<open>result |= byte << shift\<close>.\<close>

fun rd_le :: "nat \<Rightarrow> nat \<Rightarrow> 'a::len word \<Rightarrow> 'a word Reader" where
  "rd_le shift 0 result r = Some (result, r)"
| "rd_le shift (Suc n) result r = do {
     (byte, r) \<leftarrow> rd_u8 r;
     rd_le (shift + 8) n (result OR push_bit shift (ucast byte)) r}"

definition rd_u32 :: "u32 Reader" where "rd_u32 = rd_le 0 4 0"
definition rd_u64 :: "u64 Reader" where "rd_u64 = rd_le 0 8 0"

definition rd_i64 :: "int Reader" where
  "rd_i64 r = do { (v, r) \<leftarrow> rd_u64 r; Some (sint v, r) }"

definition rd_boolean :: "bool Reader" where
  "rd_boolean r = do { (v, r) \<leftarrow> rd_u8 r; if v > 1 then None else Some (v = 1, r) }"

definition byte_char :: "u8 \<Rightarrow> char" where "byte_char b = char_of (unat b)"

definition rd_string :: "string Reader" where
  "rd_string r = do {
     (n, r) \<leftarrow> rd_u32 r;
     if unat n > kMaxEncodedStringBytes \<or> unat n > length r then None
     else Some (map byte_char (take (unat n) r), drop (unat n) r)}"

definition rd_bytes :: "nat \<Rightarrow> u8 list Reader" where
  "rd_bytes maxBytes r = do {
     (n, r) \<leftarrow> rd_u32 r;
     if unat n > maxBytes \<or> unat n > length r then None
     else Some (take (unat n) r, drop (unat n) r)}"

text \<open>An identity or generation, and a count, read as their words.\<close>

definition rd_id :: "'tag StrongValue Reader" where
  "rd_id r = do { (v, r) \<leftarrow> rd_u64 r; Some (StrongValue v, r) }"

definition rd_nat32 :: "nat Reader" where
  "rd_nat32 r = do { (v, r) \<leftarrow> rd_u32 r; Some (unat v, r) }"

text \<open>An enumerator: the enumerators of the type in the order of their declaration, and the largest tag.\<close>

definition decodeEnum :: "'a list \<Rightarrow> nat \<Rightarrow> 'a Reader" where
  "decodeEnum values maxValue r = do {
     (v, r) \<leftarrow> rd_u8 r;
     if unat v > maxValue then None else Some (values ! unat v, r)}"

fun rd_times :: "nat \<Rightarrow> 'a Reader \<Rightarrow> 'a list Reader" where
  "rd_times 0 one r = Some ([], r)"
| "rd_times (Suc n) one r = do {
     (x, r) \<leftarrow> one r;
     (xs, r) \<leftarrow> rd_times n one r;
     Some (x # xs, r)}"

definition decodeVector :: "nat \<Rightarrow> 'a Reader \<Rightarrow> 'a list Reader" where
  "decodeVector maxCount one r = do {
     (n, r) \<leftarrow> rd_u32 r;
     if unat n > maxCount then None else rd_times (unat n) one r}"

text \<open>\<open>decode(in, value) && in.exhausted()\<close>: the value and nothing after it.\<close>

definition decode_whole :: "'a Reader \<Rightarrow> u8 list \<Rightarrow> 'a option" where
  "decode_whole rd payload = (case rd payload of Some (v, []) \<Rightarrow> Some v | _ \<Rightarrow> None)"

section \<open>Writers and readers that are inverse\<close>

definition appends :: "Writer \<Rightarrow> u8 list \<Rightarrow> bool" where
  "appends w bs \<longleftrightarrow> (\<forall>e. \<not> enc_overflowed (w e) \<longrightarrow>
     \<not> enc_overflowed e \<and> enc_buffer (w e) = enc_buffer e @ bs)"

definition codes :: "Writer \<Rightarrow> 'a Reader \<Rightarrow> 'a \<Rightarrow> bool" where
  "codes w rd v \<longleftrightarrow> (\<exists>bs. appends w bs \<and> (\<forall>rest. rd (bs @ rest) = Some (v, rest)))"

lemma codesI: "appends w bs \<Longrightarrow> (\<And>rest. rd (bs @ rest) = Some (v, rest)) \<Longrightarrow> codes w rd v"
  unfolding codes_def by blast

lemma appends_raw: "appends (enc_raw bs) bs"
  by (auto simp: appends_def enc_raw_def split: if_splits)

lemma appends_id: "appends (\<lambda>e. e) []"
  by (simp add: appends_def)

lemma appends_then: "appends w bs \<Longrightarrow> appends w' cs \<Longrightarrow> appends (\<lambda>e. w' (w e)) (bs @ cs)"
  unfolding appends_def by (metis append_assoc)

lemma appends_fold:
  assumes "\<And>x. x \<in> set xs \<Longrightarrow> appends (f x) (g x)"
  shows "appends (fold f xs) (concat (map g xs))"
  using assms
proof (induction xs)
  case (Cons x xs)
  then have "appends (\<lambda>e. fold f xs (f x e)) (g x @ concat (map g xs))"
    by (intro appends_then) simp_all
  then show ?case
    by (simp add: comp_def)
qed (simp add: appends_id id_def)

lemma appends_each: "appends (enc_each bs) bs"
proof -
  have "appends (fold enc_u8 bs) (concat (map (\<lambda>b. [b]) bs))"
    by (intro appends_fold) (simp add: enc_u8_def appends_raw)
  moreover have "enc_each bs = fold enc_u8 bs"
    by (rule ext) (simp add: enc_each_def)
  ultimately show ?thesis
    by simp
qed

lemma appends_seq: "list_all2 appends ws bss \<Longrightarrow> appends (enc_seq ws) (concat bss)"
proof (induction ws bss rule: list_all2_induct)
  case Nil
  then show ?case
    using appends_id by (simp add: enc_seq_def [abs_def] appends_def)
next
  case (Cons w ws bs bss)
  have "appends (\<lambda>e. enc_seq ws (w e)) (bs @ concat bss)"
    using Cons by (intro appends_then)
  then show ?case
    by (simp add: enc_seq_def [abs_def])
qed

text \<open>The primitive pairs.\<close>

lemma codes_u8: "codes (enc_u8 v) rd_u8 v"
  by (rule codesI [of _ "[v]"]) (simp_all add: enc_u8_def appends_raw)

lemma rd_le_bytes:
  fixes v :: "'a::len word"
  shows "rd_le (8 * k) n (take_bit (8 * k) v) (map (\<lambda>i. ucast (drop_bit (8 * i) v)) [k..<k + n] @ rest)
    = Some (take_bit (8 * (k + n)) v, rest)"
proof (induction n arbitrary: k)
  case (Suc n)
  let ?b = "ucast (drop_bit (8 * k) v) :: u8"
  have step: "take_bit (8 * k) v OR push_bit (8 * k) (ucast ?b) = take_bit (8 * Suc k) v"
    by (rule bit_word_eqI) (auto simp: bit_simps)
  have "[k..<k + Suc n] = k # [Suc k..<Suc k + n]"
    by (simp add: upt_conv_Cons)
  then show ?case
    using Suc.IH [of "Suc k"] step by (simp add: algebra_simps)
qed simp

lemma rd_word:
  fixes v :: "'a::len word"
  assumes "LENGTH('a) \<le> 8 * n"
  shows "rd_le 0 n 0 (le_bytes n v @ rest) = Some (v, rest)"
proof -
  have "take_bit (8 * n) v = v"
    using assms by (simp add: take_bit_word_eq_self)
  then show ?thesis
    using rd_le_bytes [of 0 n v rest] by (simp add: le_bytes_def)
qed

lemma length_le_bytes [simp]: "length (le_bytes n v) = n"
  by (simp add: le_bytes_def)

lemma rd_word_bytes:
  "rd_u16 (le_bytes 2 a @ rest) = Some (a, rest)" "rd_u32 (le_bytes 4 b @ rest) = Some (b, rest)"
  "rd_u64 (le_bytes 8 c @ rest) = Some (c, rest)"
proof -
  have "ucast (ucast a :: u8) OR push_bit 8 (ucast (ucast (drop_bit 8 a) :: u8)) = a"
    by (rule bit_word_eqI) (auto simp: bit_simps)
  then show "rd_u16 (le_bytes 2 a @ rest) = Some (a, rest)"
    by (simp add: rd_u16_def le_bytes_def numeral_2_eq_2)
qed (simp_all add: rd_u32_def rd_u64_def rd_word)

lemma codes_u16: "codes (enc_u16 v) rd_u16 v"
  by (rule codesI [of _ "le_bytes 2 v"]) (simp_all add: enc_u16_def appends_each rd_word_bytes)

lemma codes_u32: "codes (enc_u32 v) rd_u32 v"
  by (rule codesI [of _ "le_bytes 4 v"]) (simp_all add: enc_u32_def appends_each rd_u32_def rd_word)

lemma codes_u64: "codes (enc_u64 v) rd_u64 v"
  by (rule codesI [of _ "le_bytes 8 v"]) (simp_all add: enc_u64_def appends_each rd_u64_def rd_word)

text \<open>A reader followed by a total function, a refusal, or nothing more.\<close>

lemma codes_bind:
  assumes "codes w rd x" and "codes (enc_seq ws) (f x) v"
  shows "codes (enc_seq (w # ws)) (\<lambda>r. Option.bind (rd r) (\<lambda>(x, r). f x r)) v"
proof -
  obtain bs cs where parts: "appends w bs" "\<And>rest. rd (bs @ rest) = Some (x, rest)"
    "appends (enc_seq ws) cs" "\<And>rest. f x (cs @ rest) = Some (v, rest)"
    using assms unfolding codes_def by metis
  show ?thesis
  proof (rule codesI)
    show "appends (enc_seq (w # ws)) (bs @ cs)"
      using appends_then [OF parts(1,3)] by (simp add: enc_seq_def [abs_def] comp_def)
  qed (simp add: parts)
qed

lemma codes_last: "codes w rd x \<Longrightarrow> f x = Some \<circ> Pair v \<Longrightarrow>
  codes w (\<lambda>r. Option.bind (rd r) (\<lambda>(x, r). f x r)) v"
  by (auto simp: codes_def)

lemma codes_refuse: "codes w rd v \<Longrightarrow> \<not> p \<Longrightarrow> codes w (\<lambda>r. if p then None else rd r) v"
  by simp

lemma codes_done: "v = v' \<Longrightarrow> codes (enc_seq []) (\<lambda>r. Some (v', r)) v"
  by (rule codesI [of _ "[]"]) (simp_all add: enc_seq_def [abs_def] appends_def)

lemma codes_i64: "is_i64 v \<Longrightarrow> codes (enc_i64 v) rd_i64 v"
proof -
  assume "is_i64 v"
  then have "sint (word_of_int v :: u64) = v"
    by (simp add: is_i64_def i64_defs int_word_sint)
  then have "codes (enc_i64 v) (\<lambda>r. Option.bind (rd_u64 r) (\<lambda>(x, r). Some (sint x, r))) v"
    unfolding enc_i64_def by (intro codes_last [OF codes_u64]) (simp add: comp_def)
  then show ?thesis
    by (simp add: rd_i64_def [abs_def])
qed

lemma codes_boolean: "codes (enc_boolean v) rd_boolean v"
proof -
  have "codes (enc_boolean v) (\<lambda>r. Option.bind (rd_u8 r) (\<lambda>(x, r). if x > 1 then None else Some (x = 1, r))) v"
    unfolding enc_boolean_def by (intro codes_last [OF codes_u8]) (simp add: comp_def)
  then show ?thesis
    by (simp add: rd_boolean_def [abs_def])
qed

lemma codes_id: "codes (enc_id v) rd_id v"
proof -
  have "codes (enc_id v) (\<lambda>r. Option.bind (rd_u64 r) (\<lambda>(x, r). Some (StrongValue x, r))) v"
    unfolding enc_id_def by (intro codes_last [OF codes_u64]) (simp add: comp_def)
  then show ?thesis
    by (simp add: rd_id_def [abs_def])
qed

lemma codes_nat32: "is_u32 n \<Longrightarrow> codes (enc_nat32 n) rd_nat32 n"
proof -
  assume "is_u32 n"
  then have "unat (word_of_nat n :: u32) = n"
    by (simp add: is_u32_def kU32Modulus_def unat_of_nat)
  then have "codes (enc_nat32 n) (\<lambda>r. Option.bind (rd_u32 r) (\<lambda>(x, r). Some (unat x, r))) n"
    unfolding enc_nat32_def by (intro codes_last [OF codes_u32]) (simp add: comp_def)
  then show ?thesis
    by (simp add: rd_nat32_def [abs_def])
qed

lemma byte_char_inverse: "byte_char (char_byte c) = c"
proof -
  have "unat (of_char c :: u8) = (of_char c :: nat)"
    using nat_of_char_less_256 [of c] by (simp add: unat_of_nat flip: of_nat_of_char [where ?'a = u8])
  then show ?thesis
    by (simp add: byte_char_def char_byte_def)
qed

text \<open>A counted sequence of bytes.\<close>

lemma small_count: "n \<le> kMaxEncodedBytes \<Longrightarrow> unat (word_of_nat n :: u32) = n"
  by (simp add: kMaxEncodedBytes_def unat_of_nat)

lemma codes_string:
  assumes "length v \<le> kMaxEncodedStringBytes"
  shows "codes (enc_string v) rd_string v"
proof (rule codesI)
  have n: "unat (word_of_nat (length v) :: u32) = length v"
    using assms by (intro small_count) (simp add: kMaxEncodedStringBytes_def kMaxEncodedBytes_def)
  show "appends (enc_string v) (le_bytes 4 (word_of_nat (length v) :: u32) @ map char_byte v)"
    using assms appends_then [OF appends_each appends_raw] by (simp add: enc_string_def [abs_def] enc_u32_def)
  show "rd_string ((le_bytes 4 (word_of_nat (length v) :: u32) @ map char_byte v) @ rest) = Some (v, rest)" for rest
    using assms n by (simp add: rd_string_def rd_word_bytes byte_char_inverse comp_def)
qed

lemma codes_bytes:
  assumes "length v \<le> kMaxEncodedBytes" and "length v \<le> maxBytes"
  shows "codes (enc_bytes v) (rd_bytes maxBytes) v"
proof (rule codesI)
  show "appends (enc_bytes v) (le_bytes 4 (word_of_nat (length v) :: u32) @ v)"
    using assms appends_then [OF appends_each appends_raw] by (simp add: enc_bytes_def [abs_def] enc_u32_def)
  show "rd_bytes maxBytes ((le_bytes 4 (word_of_nat (length v) :: u32) @ v) @ rest) = Some (v, rest)" for rest
    using assms by (simp add: rd_bytes_def rd_word_bytes small_count)
qed

text \<open>An enumerator, by its ordinal among the enumerators of its type.\<close>

lemma ordinal_nth: "x \<in> set xs \<Longrightarrow> ordinal x xs < length xs \<and> xs ! ordinal x xs = x"
  by (induction xs) auto

lemma codes_enum:
  assumes "v \<in> set values" and "length values = Suc n" and "n < 256"
    and "tag = word_of_nat (ordinal v values)"
  shows "codes (enc_u8 tag) (decodeEnum values n) v"
proof -
  have at: "ordinal v values < Suc n" "values ! ordinal v values = v"
    using ordinal_nth [OF assms(1)] assms(2) by simp_all
  then have "unat tag = ordinal v values"
    using assms(3,4) by (simp add: unat_of_nat)
  then have "codes (enc_u8 tag) (\<lambda>r. Option.bind (rd_u8 r) (\<lambda>(x, r).
      if unat x > n then None else Some (values ! unat x, r))) v"
    using at by (intro codes_last [OF codes_u8]) (simp add: comp_def)
  then show ?thesis
    by (simp add: decodeEnum_def [abs_def])
qed

text \<open>A counted vector of coded values.\<close>

lemma rd_times_codes:
  assumes "\<And>x. x \<in> set xs \<Longrightarrow> codes (wr x) rd x"
  shows "codes (fold wr xs) (rd_times (length xs) rd) xs"
proof -
  obtain bs where bs: "\<And>x. x \<in> set xs \<Longrightarrow> appends (wr x) (bs x) \<and> (\<forall>rest. rd (bs x @ rest) = Some (x, rest))"
    using assms unfolding codes_def by metis
  have "rd_times (length ys) rd (concat (map bs ys) @ rest) = Some (ys, rest)" if "set ys \<subseteq> set xs" for ys rest
    using that bs by (induction ys) simp_all
  then show ?thesis
    using bs by (intro codesI [of _ "concat (map bs xs)"] appends_fold) simp_all
qed

lemma codes_vector:
  assumes "\<And>x. x \<in> set xs \<Longrightarrow> codes (wr x) rd x" and "length xs \<le> maxCount"
    and "maxCount \<le> kMaxCollectionCount"
  shows "codes (encodeVector wr xs) (decodeVector maxCount rd) xs"
proof -
  obtain bs where bs: "appends (fold wr xs) bs"
    "\<And>rest. rd_times (length xs) rd (bs @ rest) = Some (xs, rest)"
    using rd_times_codes [OF assms(1)] unfolding codes_def by blast
  have n: "unat (word_of_nat (length xs) :: u32) = length xs"
    using assms(2,3) by (intro small_count) (simp add: kMaxCollectionCount_def kMaxEncodedBytes_def)
  show ?thesis
  proof (rule codesI)
    show "appends (encodeVector wr xs) (le_bytes 4 (word_of_nat (length xs) :: u32) @ bs)"
      using assms(2,3) appends_then [OF appends_each bs(1)] by (simp add: encodeVector_def [abs_def] enc_u32_def)
    show "decodeVector maxCount rd ((le_bytes 4 (word_of_nat (length xs) :: u32) @ bs) @ rest) = Some (xs, rest)" for rest
      using assms(2) bs(2) n by (simp add: decodeVector_def rd_word_bytes)
  qed
qed

lemma enc_seq_one: "enc_seq [w] = w"
  by (rule ext) (simp add: enc_seq_def)

lemmas codes_primitives = codes_u8 codes_u16 codes_u32 codes_u64 codes_boolean codes_id

section \<open>The interface of a value type\<close>

text \<open>
  A codec is a writer and a reader that are inverse on the storable values. Whatever it writes into
  a fresh buffer without overflow is read back and uses up the buffer, so two storable values with
  the same image are equal; and it lifts to counted vectors.
\<close>

locale codec =
  fixes wr :: "'a \<Rightarrow> Writer" and rd :: "'a Reader" and storable :: "'a \<Rightarrow> bool"
  assumes coded: "storable v \<Longrightarrow> codes (wr v) rd v"
begin

lemma read_back:
  assumes "storable v" and "\<not> enc_overflowed (wr v new_encoder)"
  shows "rd (enc_buffer (wr v new_encoder)) = Some (v, [])"
proof -
  obtain bs where "appends (wr v) bs" and bs: "\<And>rest. rd (bs @ rest) = Some (v, rest)"
    using coded [OF assms(1)] unfolding codes_def by blast
  then have "enc_buffer (wr v new_encoder) = bs @ []"
    using assms(2) by (simp add: appends_def new_encoder_def)
  then show ?thesis
    by (simp only: bs)
qed

lemma image_inj:
  assumes "storable u" and "storable v" and "\<not> enc_overflowed (wr u new_encoder)"
    and "\<not> enc_overflowed (wr v new_encoder)"
    and "enc_buffer (wr u new_encoder) = enc_buffer (wr v new_encoder)"
  shows "u = v"
proof -
  have "Some (u, []) = Some (v, [] :: u8 list)"
    using read_back [OF assms(1,3)] read_back [OF assms(2,4)] unfolding assms(5) by (rule trans [OF sym])
  then show ?thesis
    by simp
qed

lemma vector:
  "list_all storable vs \<Longrightarrow> length vs \<le> maxCount \<Longrightarrow> maxCount \<le> kMaxCollectionCount \<Longrightarrow>
   codes (encodeVector wr vs) (decodeVector maxCount rd) vs"
  by (rule codes_vector) (auto simp: list_all_iff coded)

end

interpretation strings: codec enc_string rd_string "\<lambda>v. length v \<le> kMaxEncodedStringBytes"
  by unfold_locales (rule codes_string)

interpretation identities: codec enc_id rd_id "\<lambda>v. True"
  by unfold_locales (rule codes_id)

end
