(* ===== verification/Record_Codec.thy ===== *)
theory Record_Codec
  imports Decoder
begin

text \<open>
  The decoders of the persisted records in \<open>codec.cpp\<close>. Each reads the fields in the order its
  encoder writes them, then rejects values outside the bounds of the format. \<open>storable\<close> predicates
  state those bounds (and that machine integers are within their width); on storable values every
  decoder is the inverse of its encoder, which is the interpretation of \<open>codec\<close> it carries.
\<close>

section \<open>Ranges and fences\<close>

definition decode_slots :: "SlotRange Reader" where
  "decode_slots r = do {
     (first, r) \<leftarrow> rd_nat32 r;
     (count, r) \<leftarrow> rd_nat32 r;
     if count > kMaxGridSlots then None
     else if count > 0 \<and> first > 0xFFFFFFFF - count then None
     else Some (\<lparr>slot_first = first, slot_count = count\<rparr>, r)}"

definition decode_frequency :: "FrequencyRange Reader" where
  "decode_frequency r = do {
     (low, r) \<leftarrow> rd_i64 r;
     (high, r) \<leftarrow> rd_i64 r;
     if low < 0 \<or> high < low \<or> high > kMaxFrequencyMhz then None
     else Some (\<lparr>lowMhz = low, highMhz = high\<rparr>, r)}"

definition decode_fence :: "ControllerFence Reader" where
  "decode_fence r = do {
     (epoch, r) \<leftarrow> rd_u64 r;
     (incarnation, r) \<leftarrow> rd_u64 r;
     if epoch > kMaxFenceValue \<or> incarnation > kMaxFenceValue then None
     else Some (\<lparr>epoch = StrongValue epoch, incarnation = StrongValue incarnation\<rparr>, r)}"

definition storable_slots :: "SlotRange \<Rightarrow> bool" where
  "storable_slots v \<longleftrightarrow> is_u32 (slot_first v) \<and> slot_count v \<le> kMaxGridSlots
     \<and> (slot_count v > 0 \<longrightarrow> slot_first v \<le> 0xFFFFFFFF - slot_count v)"

definition storable_frequency :: "FrequencyRange \<Rightarrow> bool" where
  "storable_frequency v \<longleftrightarrow> 0 \<le> lowMhz v \<and> lowMhz v \<le> highMhz v \<and> highMhz v \<le> kMaxFrequencyMhz"

definition storable_fence :: "ControllerFence \<Rightarrow> bool" where
  "storable_fence v \<longleftrightarrow> raw (epoch v) \<le> kMaxFenceValue \<and> raw (incarnation v) \<le> kMaxFenceValue"

lemma u32_bounds:
  "n \<le> kMaxGridSlots \<Longrightarrow> is_u32 n" "n \<le> kMaxSlotsPerChannel \<Longrightarrow> is_u32 n"
  by (simp_all add: is_u32_def kU32Modulus_def kMaxGridSlots_def kMaxSlotsPerChannel_def)

lemma i64_bounds: "0 \<le> v \<Longrightarrow> v \<le> kMaxFrequencyMhz \<Longrightarrow> is_i64 v" "0 \<le> v \<Longrightarrow> v \<le> kMaxGuardBandMhz \<Longrightarrow> is_i64 v"
  by (simp_all add: is_i64_def i64_defs kMaxFrequencyMhz_def kMaxGuardBandMhz_def)

lemma label_bound: "length v \<le> kMaxLabelBytes \<Longrightarrow> length v \<le> kMaxEncodedStringBytes"
  "length v \<le> kMaxDetailBytes \<Longrightarrow> length v \<le> kMaxEncodedStringBytes"
  by (simp_all add: kMaxLabelBytes_def kMaxDetailBytes_def kMaxEncodedStringBytes_def)

lemmas codes_steps = codes_bind codes_refuse codes_done codes_primitives codes_i64 codes_nat32 codes_string

interpretation slots: codec encode_slots decode_slots storable_slots
proof unfold_locales
  fix v
  assume ok: "storable_slots v"
  show "codes (encode_slots v) decode_slots v"
    unfolding encode_slots_def decode_slots_def [abs_def]
    by (rule codes_steps | (insert ok, auto simp: storable_slots_def u32_bounds i64_bounds; fail)[1])+
qed

interpretation frequencies: codec encode_frequency decode_frequency storable_frequency
proof unfold_locales
  fix v
  assume ok: "storable_frequency v"
  show "codes (encode_frequency v) decode_frequency v"
    unfolding encode_frequency_def decode_frequency_def [abs_def]
    by (rule codes_steps | (insert ok, auto simp: storable_frequency_def u32_bounds i64_bounds; fail)[1])+
qed

text \<open>The fence is written as two words.\<close>

lemma enc_id_word: "enc_id v = enc_u64 (raw v)"
  by (simp add: enc_id_def)

interpretation fences: codec encode_fence decode_fence storable_fence
proof unfold_locales
  fix v
  assume ok: "storable_fence v"
  show "codes (encode_fence v) decode_fence v"
    unfolding encode_fence_def decode_fence_def [abs_def] enc_id_word
    by (rule codes_steps | (insert ok, auto simp: storable_fence_def; fail)[1])+
qed

section \<open>Enumerators\<close>

definition gridKinds :: "GridKind list" where "gridKinds = [UnknownKind, Fixed, Flex]"
definition spectrumSupports :: "SpectrumSupport list" where
  "spectrumSupports = [SupportUnsupported, Supported, SupportUnknown]"
definition resourceClasses :: "ResourceClass list" where
  "resourceClasses = map fst kResourceClassTokens"
definition auditKinds :: "AuditKind list" where "auditKinds = map fst kAuditKindTokens"
definition allocationOutcomes :: "AllocationOutcome list" where
  "allocationOutcomes = map fst kAllocationOutcomeTokens"

lemma enum_lists:
  "k \<in> set gridKinds" "length gridKinds = Suc 2" "gridKind_code k = word_of_nat (ordinal k gridKinds)"
  "u \<in> set spectrumSupports" "length spectrumSupports = Suc 2"
  "support_code u = word_of_nat (ordinal u spectrumSupports)"
  "c \<in> set resourceClasses" "length resourceClasses = Suc 5"
  "resourceClass_code c = word_of_nat (ordinal c resourceClasses)"
  by (cases k; simp add: gridKinds_def; fail | cases u; simp add: spectrumSupports_def; fail
      | cases c; simp add: resourceClasses_def kResourceClassTokens_def; fail)+

lemma token_enum_lists:
  "a \<in> set auditKinds" "length auditKinds = Suc 24"
  "auditKind_code a = word_of_nat (ordinal a auditKinds)"
  "q \<in> set allocationOutcomes" "length allocationOutcomes = Suc 22"
  "outcome_code q = word_of_nat (ordinal q allocationOutcomes)"
  "st \<in> set all_states" "length all_states = Suc 17" "state_index st = ordinal st all_states"
proof -
  show "a \<in> set auditKinds" "q \<in> set allocationOutcomes" "st \<in> set all_states"
    using audit_tokens.complete [of a] outcome_tokens.complete [of q] set_all_states [of st]
    by (force simp: auditKinds_def allocationOutcomes_def)+
  show "length auditKinds = Suc 24" "length allocationOutcomes = Suc 22" "length all_states = Suc 17"
    by (simp_all add: auditKinds_def kAuditKindTokens_def allocationOutcomes_def
        kAllocationOutcomeTokens_def all_states_def kReservationStateTokens_def)
  show "auditKind_code a = word_of_nat (ordinal a auditKinds)"
    "outcome_code q = word_of_nat (ordinal q allocationOutcomes)"
    by (simp_all add: auditKinds_def auditKind_code_def allocationOutcomes_def outcome_code_def)
  show "state_index st = ordinal st all_states"
    by (cases st) (simp_all add: all_states_def kReservationStateTokens_def)
qed

section \<open>Grids, spans and ports\<close>

definition decode_grid :: "ChannelGrid Reader" where
  "decode_grid r = do {
     (id, r) \<leftarrow> rd_id r;
     (generation, r) \<leftarrow> rd_id r;
     (kind, r) \<leftarrow> decodeEnum gridKinds 2 r;
     (anchor, r) \<leftarrow> rd_i64 r;
     (width, r) \<leftarrow> rd_i64 r;
     (slots, r) \<leftarrow> rd_nat32 r;
     (minSlots, r) \<leftarrow> rd_nat32 r;
     (maxSlots, r) \<leftarrow> rd_nat32 r;
     (label, r) \<leftarrow> rd_string r;
     if anchor < 0 \<or> width < 0 \<or> slots > kMaxGridSlots \<or> minSlots > kMaxSlotsPerChannel
       \<or> maxSlots > kMaxSlotsPerChannel \<or> length label > kMaxLabelBytes
     then None
     else Some (\<lparr>grid_id = id, grid_generation = generation, grid_kind = kind, anchorMhz = anchor,
       slotWidthMhz = width, slotCount = slots, minSlotsPerChannel = minSlots,
       maxSlotsPerChannel = maxSlots, grid_label = label\<rparr>, r)}"

definition storable_grid :: "ChannelGrid \<Rightarrow> bool" where
  "storable_grid v \<longleftrightarrow> 0 \<le> anchorMhz v \<and> is_i64 (anchorMhz v) \<and> 0 \<le> slotWidthMhz v \<and> is_i64 (slotWidthMhz v)
     \<and> slotCount v \<le> kMaxGridSlots \<and> minSlotsPerChannel v \<le> kMaxSlotsPerChannel
     \<and> maxSlotsPerChannel v \<le> kMaxSlotsPerChannel \<and> length (grid_label v) \<le> kMaxLabelBytes"

lemmas codes_enums =
  codes_enum [OF enum_lists(1,2) _ enum_lists(3)] codes_enum [OF enum_lists(4,5) _ enum_lists(6)]
  codes_enum [OF enum_lists(7,8) _ enum_lists(9)] codes_enum [OF token_enum_lists(1,2) _ token_enum_lists(3)]
  codes_enum [OF token_enum_lists(4,5) _ token_enum_lists(6)]

interpretation grids: codec encode_grid decode_grid storable_grid
proof unfold_locales
  fix v
  assume ok: "storable_grid v"
  show "codes (encode_grid v) decode_grid v"
    unfolding encode_grid_def decode_grid_def [abs_def]
    by (rule codes_enums codes_steps | (insert ok, auto simp: storable_grid_def u32_bounds i64_bounds label_bound; fail)[1])+
qed

definition decode_span :: "Span Reader" where
  "decode_span r = do {
     (id, r) \<leftarrow> rd_id r;
     (generation, r) \<leftarrow> rd_id r;
     (label, r) \<leftarrow> rd_string r;
     if length label > kMaxLabelBytes
     then None
     else Some (\<lparr>span_id = id, span_generation = generation, span_label = label\<rparr>, r)}"

definition storable_span :: "Span \<Rightarrow> bool" where
  "storable_span v \<longleftrightarrow> length (span_label v) \<le> kMaxLabelBytes"

interpretation spans: codec encode_span decode_span storable_span
proof unfold_locales
  fix v
  assume ok: "storable_span v"
  show "codes (encode_span v) decode_span v"
    unfolding encode_span_def decode_span_def [abs_def]
    by (rule codes_steps | (insert ok, auto simp: storable_span_def u32_bounds i64_bounds label_bound; fail)[1])+
qed

definition decode_port :: "OpticalPort Reader" where
  "decode_port r = do {
     (id, r) \<leftarrow> rd_id r;
     (generation, r) \<leftarrow> rd_id r;
     (label, r) \<leftarrow> rd_string r;
     if length label > kMaxLabelBytes
     then None
     else Some (\<lparr>port_id = id, port_generation = generation, port_label = label\<rparr>, r)}"

definition storable_port :: "OpticalPort \<Rightarrow> bool" where
  "storable_port v \<longleftrightarrow> length (port_label v) \<le> kMaxLabelBytes"

interpretation ports: codec encode_port decode_port storable_port
proof unfold_locales
  fix v
  assume ok: "storable_port v"
  show "codes (encode_port v) decode_port v"
    unfolding encode_port_def decode_port_def [abs_def]
    by (rule codes_steps | (insert ok, auto simp: storable_port_def u32_bounds i64_bounds label_bound; fail)[1])+
qed

section \<open>Domains and exclusion domains\<close>

definition decode_domain :: "SpectrumDomain Reader" where
  "decode_domain r = do {
     (id, r) \<leftarrow> rd_id r;
     (generation, r) \<leftarrow> rd_id r;
     (klass, r) \<leftarrow> decodeEnum resourceClasses 5 r;
     (grid, r) \<leftarrow> rd_id r;
     (gridGeneration, r) \<leftarrow> rd_id r;
     (span, r) \<leftarrow> rd_id r;
     (spanGeneration, r) \<leftarrow> rd_id r;
     (portA, r) \<leftarrow> rd_id r;
     (portAGeneration, r) \<leftarrow> rd_id r;
     (portB, r) \<leftarrow> rd_id r;
     (portBGeneration, r) \<leftarrow> rd_id r;
     (requiresContiguity, r) \<leftarrow> rd_boolean r;
     (label, r) \<leftarrow> rd_string r;
     if length label > kMaxLabelBytes
     then None
     else Some (\<lparr>dom_id = id, dom_generation = generation, dom_klass = klass, dom_grid = grid,
       dom_gridGeneration = gridGeneration, dom_span = span, dom_spanGeneration = spanGeneration,
       dom_portA = portA, dom_portAGeneration = portAGeneration, dom_portB = portB,
       dom_portBGeneration = portBGeneration, dom_requiresContiguity = requiresContiguity,
       dom_label = label\<rparr>, r)}"

definition storable_domain :: "SpectrumDomain \<Rightarrow> bool" where
  "storable_domain v \<longleftrightarrow> length (dom_label v) \<le> kMaxLabelBytes"

interpretation domains: codec encode_domain decode_domain storable_domain
proof unfold_locales
  fix v
  assume ok: "storable_domain v"
  show "codes (encode_domain v) decode_domain v"
    unfolding encode_domain_def decode_domain_def [abs_def]
    by (rule codes_enums codes_steps | (insert ok, auto simp: storable_domain_def u32_bounds i64_bounds label_bound; fail)[1])+
qed

text \<open>The label of an exclusion domain is checked before its members are read.\<close>

definition decode_exclusion :: "ExclusionDomain Reader" where
  "decode_exclusion r = do {
     (id, r) \<leftarrow> rd_id r;
     (generation, r) \<leftarrow> rd_id r;
     (label, r) \<leftarrow> rd_string r;
     if length label > kMaxLabelBytes then None else do {
     (members, r) \<leftarrow> decodeVector kMaxExclusionDomainMembers rd_id r;
     (guard, r) \<leftarrow> rd_i64 r;
     if guard < 0 \<or> guard > kMaxGuardBandMhz
     then None
     else Some (\<lparr>exc_id = id, exc_generation = generation, exc_label = label, exc_members = members,
       exc_guardBandMhz = guard\<rparr>, r)}}"

definition storable_exclusion :: "ExclusionDomain \<Rightarrow> bool" where
  "storable_exclusion v \<longleftrightarrow> length (exc_label v) \<le> kMaxLabelBytes
     \<and> length (exc_members v) \<le> kMaxExclusionDomainMembers
     \<and> 0 \<le> exc_guardBandMhz v \<and> exc_guardBandMhz v \<le> kMaxGuardBandMhz"

lemma count_bounds:
  "kMaxExclusionDomainMembers \<le> kMaxCollectionCount" "kMaxRequestDomains \<le> kMaxCollectionCount"
  "kMaxExcludedRanges \<le> kMaxCollectionCount" "kMaxFrequencyWindows \<le> kMaxCollectionCount"
  "kMaxCandidatesPerRequest \<le> kMaxCollectionCount" "kMaxGridSlots \<le> kMaxCollectionCount"
  by (simp_all add: kMaxExclusionDomainMembers_def kMaxRequestDomains_def kMaxExcludedRanges_def
      kMaxFrequencyWindows_def kMaxCandidatesPerRequest_def kMaxGridSlots_def kMaxCollectionCount_def)

lemma codes_ids: "length vs \<le> maxCount \<Longrightarrow> maxCount \<le> kMaxCollectionCount \<Longrightarrow>
  codes (encodeVector enc_id vs) (decodeVector maxCount rd_id) vs"
  by (rule identities.vector) (simp add: list_all_iff)

interpretation exclusions: codec encode_exclusion decode_exclusion storable_exclusion
proof unfold_locales
  fix v
  assume ok: "storable_exclusion v"
  show "codes (encode_exclusion v) decode_exclusion v"
    unfolding encode_exclusion_def decode_exclusion_def [abs_def]
    by (rule codes_ids codes_steps | (insert ok, auto simp: storable_exclusion_def u32_bounds i64_bounds label_bound count_bounds; fail)[1])+
qed

section \<open>Capabilities\<close>

definition decode_evidence :: "CapabilityEvidence Reader" where
  "decode_evidence r = do {
     (present, r) \<leftarrow> rd_boolean r;
     (digest, r) \<leftarrow> rd_u64 r;
     (source, r) \<leftarrow> rd_string r;
     if length source > kMaxLabelBytes
     then None
     else Some (\<lparr>evidence_present = present, evidence_digest = digest, evidence_source = source\<rparr>, r)}"

definition storable_evidence :: "CapabilityEvidence \<Rightarrow> bool" where
  "storable_evidence v \<longleftrightarrow> length (evidence_source v) \<le> kMaxLabelBytes"

interpretation evidences: codec encode_evidence decode_evidence storable_evidence
proof unfold_locales
  fix v
  assume ok: "storable_evidence v"
  show "codes (encode_evidence v) decode_evidence v"
    unfolding encode_evidence_def decode_evidence_def [abs_def]
    by (rule codes_steps | (insert ok, auto simp: storable_evidence_def u32_bounds i64_bounds label_bound; fail)[1])+
qed

definition decode_capability :: "SpectrumCapability Reader" where
  "decode_capability r = do {
     (domain, r) \<leftarrow> rd_id r;
     (domainGeneration, r) \<leftarrow> rd_id r;
     (grid, r) \<leftarrow> rd_id r;
     (gridGeneration, r) \<leftarrow> rd_id r;
     (support, r) \<leftarrow> decodeEnum spectrumSupports 2 r;
     (firstAllocatable, r) \<leftarrow> rd_nat32 r;
     (allocatable, r) \<leftarrow> rd_nat32 r;
     (minTunable, r) \<leftarrow> rd_i64 r;
     (maxTunable, r) \<leftarrow> rd_i64 r;
     (contiguityEnforced, r) \<leftarrow> rd_boolean r;
     (conversionSupported, r) \<leftarrow> rd_boolean r;
     (conversionEvidence, r) \<leftarrow> decode_evidence r;
     (presenceEvidence, r) \<leftarrow> decode_evidence r;
     (generation, r) \<leftarrow> rd_id r;
     (publisher, r) \<leftarrow> rd_id r;
     (fence, r) \<leftarrow> decode_fence r;
     (publishedAt, r) \<leftarrow> rd_i64 r;
     (detail, r) \<leftarrow> rd_string r;
     if publishedAt < 0 \<or> length detail > kMaxDetailBytes \<or> firstAllocatable > kMaxGridSlots
       \<or> allocatable > kMaxGridSlots
     then None
     else Some (\<lparr>cap_domain = domain, cap_domainGeneration = domainGeneration, cap_grid = grid,
       cap_gridGeneration = gridGeneration, cap_support = support,
       cap_firstAllocatableSlot = firstAllocatable, cap_allocatableSlots = allocatable,
       cap_minTunableMhz = minTunable, cap_maxTunableMhz = maxTunable,
       cap_contiguityEnforced = contiguityEnforced, cap_conversionSupported = conversionSupported,
       cap_conversionEvidence = conversionEvidence, cap_presenceEvidence = presenceEvidence,
       cap_generation = generation, cap_publisher = publisher, cap_fence = fence,
       cap_publishedAt = publishedAt, cap_detail = detail\<rparr>, r)}"

definition storable_capability :: "SpectrumCapability \<Rightarrow> bool" where
  "storable_capability v \<longleftrightarrow> cap_firstAllocatableSlot v \<le> kMaxGridSlots
     \<and> cap_allocatableSlots v \<le> kMaxGridSlots \<and> is_i64 (cap_minTunableMhz v) \<and> is_i64 (cap_maxTunableMhz v)
     \<and> storable_evidence (cap_conversionEvidence v) \<and> storable_evidence (cap_presenceEvidence v)
     \<and> storable_fence (cap_fence v) \<and> 0 \<le> cap_publishedAt v \<and> is_i64 (cap_publishedAt v)
     \<and> length (cap_detail v) \<le> kMaxDetailBytes"

interpretation capabilities: codec encode_capability decode_capability storable_capability
proof unfold_locales
  fix v
  assume ok: "storable_capability v"
  show "codes (encode_capability v) decode_capability v"
    unfolding encode_capability_def decode_capability_def [abs_def]
    by (rule codes_enums evidences.coded fences.coded codes_steps | (insert ok, auto simp: storable_capability_def u32_bounds i64_bounds label_bound; fail)[1])+
qed

section \<open>Leases and reservations\<close>

definition decode_lease :: "Lease Reader" where
  "decode_lease r = do {
     (generation, r) \<leftarrow> rd_id r;
     (grantedAt, r) \<leftarrow> rd_i64 r;
     (expiresAt, r) \<leftarrow> rd_i64 r;
     (renewalCount, r) \<leftarrow> rd_nat32 r;
     (maxRenewals, r) \<leftarrow> rd_nat32 r;
     if grantedAt < 0 \<or> expiresAt < grantedAt
     then None
     else Some (\<lparr>lease_generation = generation, lease_grantedAt = grantedAt, lease_expiresAt = expiresAt,
       lease_renewalCount = renewalCount, lease_maxRenewals = maxRenewals\<rparr>, r)}"

definition storable_lease :: "Lease \<Rightarrow> bool" where
  "storable_lease v \<longleftrightarrow> 0 \<le> lease_grantedAt v \<and> lease_grantedAt v \<le> lease_expiresAt v
     \<and> is_i64 (lease_grantedAt v) \<and> is_i64 (lease_expiresAt v) \<and> is_u32 (lease_renewalCount v)
     \<and> is_u32 (lease_maxRenewals v)"

interpretation leases: codec encode_lease decode_lease storable_lease
proof unfold_locales
  fix v
  assume ok: "storable_lease v"
  show "codes (encode_lease v) decode_lease v"
    unfolding encode_lease_def decode_lease_def [abs_def]
    by (rule codes_steps | (insert ok, auto simp: storable_lease_def u32_bounds i64_bounds label_bound; fail)[1])+
qed

definition storable_instant :: "Instant \<Rightarrow> bool" where
  "storable_instant t \<longleftrightarrow> 0 \<le> t \<and> is_i64 t"

lemma codes_slot_ranges: "list_all storable_slots vs \<Longrightarrow> length vs \<le> maxCount \<Longrightarrow> maxCount \<le> kMaxCollectionCount \<Longrightarrow>
  codes (encodeVector encode_slots vs) (decodeVector maxCount decode_slots) vs"
  by (rule slots.vector)

lemmas codes_state = codes_enum [OF token_enum_lists(7,8)]

definition decode_reservation :: "SpectrumReservation Reader" where
  "decode_reservation r = do {
     (id, r) \<leftarrow> rd_id r;
     (generation, r) \<leftarrow> rd_id r;
     (requestId, r) \<leftarrow> rd_id r;
     (requestGeneration, r) \<leftarrow> rd_id r;
     (owner, r) \<leftarrow> rd_id r;
     (ownerGeneration, r) \<leftarrow> rd_id r;
     (state, r) \<leftarrow> decodeEnum all_states 17 r;
     (domains, r) \<leftarrow> decodeVector kMaxRequestDomains rd_id r;
     (domainGenerations, r) \<leftarrow> decodeVector kMaxRequestDomains rd_id r;
     (anchorDomain, r) \<leftarrow> rd_id r;
     (grid, r) \<leftarrow> rd_id r;
     (gridGeneration, r) \<leftarrow> rd_id r;
     (slots, r) \<leftarrow> decode_slots r;
     (frequency, r) \<leftarrow> decode_frequency r;
     (perDomainSlots, r) \<leftarrow> decodeVector kMaxRequestDomains decode_slots r;
     (crossGrid, r) \<leftarrow> rd_boolean r;
     (contiguityRequired, r) \<leftarrow> rd_boolean r;
     (continuityRequired, r) \<leftarrow> rd_boolean r;
     (guardBand, r) \<leftarrow> rd_i64 r;
     (exclusionDomain, r) \<leftarrow> rd_id r;
     (lease, r) \<leftarrow> decode_lease r;
     (createdAt, r) \<leftarrow> rd_i64 r;
     (updatedAt, r) \<leftarrow> rd_i64 r;
     (activatedAt, r) \<leftarrow> rd_i64 r;
     (deactivatedAt, r) \<leftarrow> rd_i64 r;
     (releasedAt, r) \<leftarrow> rd_i64 r;
     (reclaimedAt, r) \<leftarrow> rd_i64 r;
     (capabilityGeneration, r) \<leftarrow> rd_id r;
     (commitFence, r) \<leftarrow> decode_fence r;
     (lastOperation, r) \<leftarrow> rd_id r;
     (needsRevalidation, r) \<leftarrow> rd_boolean r;
     (detail, r) \<leftarrow> rd_string r;
     if guardBand < 0 \<or> guardBand > kMaxGuardBandMhz \<or> createdAt < 0 \<or> updatedAt < 0
       \<or> activatedAt < 0 \<or> deactivatedAt < 0 \<or> releasedAt < 0 \<or> reclaimedAt < 0
       \<or> length domains \<noteq> length domainGenerations \<or> length domains \<noteq> length perDomainSlots
       \<or> length detail > kMaxDetailBytes
     then None
     else Some (\<lparr>res_id = id, res_generation = generation, res_requestId = requestId,
       res_requestGeneration = requestGeneration, res_owner = owner,
       res_ownerGeneration = ownerGeneration, res_state = state, res_domains = domains,
       res_domainGenerations = domainGenerations, res_anchorDomain = anchorDomain, res_grid = grid,
       res_gridGeneration = gridGeneration, res_slots = slots, res_frequency = frequency,
       res_perDomainSlots = perDomainSlots, res_crossGrid = crossGrid,
       res_contiguityRequired = contiguityRequired, res_continuityRequired = continuityRequired,
       res_guardBandMhz = guardBand, res_exclusionDomain = exclusionDomain, res_lease = lease,
       res_createdAt = createdAt, res_updatedAt = updatedAt, res_activatedAt = activatedAt,
       res_deactivatedAt = deactivatedAt, res_releasedAt = releasedAt, res_reclaimedAt = reclaimedAt,
       res_capabilityGeneration = capabilityGeneration, res_commitFence = commitFence,
       res_lastOperation = lastOperation, res_needsRevalidation = needsRevalidation,
       res_detail = detail\<rparr>, r)}"

definition storable_reservation :: "SpectrumReservation \<Rightarrow> bool" where
  "storable_reservation v \<longleftrightarrow> length (res_domains v) \<le> kMaxRequestDomains
     \<and> length (res_domainGenerations v) = length (res_domains v)
     \<and> length (res_perDomainSlots v) = length (res_domains v)
     \<and> storable_slots (res_slots v) \<and> storable_frequency (res_frequency v)
     \<and> list_all storable_slots (res_perDomainSlots v)
     \<and> 0 \<le> res_guardBandMhz v \<and> res_guardBandMhz v \<le> kMaxGuardBandMhz \<and> storable_lease (res_lease v)
     \<and> storable_instant (res_createdAt v) \<and> storable_instant (res_updatedAt v)
     \<and> storable_instant (res_activatedAt v) \<and> storable_instant (res_deactivatedAt v)
     \<and> storable_instant (res_releasedAt v) \<and> storable_instant (res_reclaimedAt v)
     \<and> storable_fence (res_commitFence v) \<and> length (res_detail v) \<le> kMaxDetailBytes"

interpretation reservations: codec encode_reservation decode_reservation storable_reservation
proof unfold_locales
  fix v
  assume ok: "storable_reservation v"
  show "codes (encode_reservation v) decode_reservation v"
    unfolding encode_reservation_def decode_reservation_def [abs_def]
    by (rule codes_state codes_ids codes_slot_ranges slots.coded frequencies.coded leases.coded fences.coded codes_steps | (insert ok, auto simp: storable_reservation_def u32_bounds i64_bounds label_bound storable_instant_def count_bounds token_enum_lists(9); fail)[1])+
qed

section \<open>Audit records\<close>

definition decode_audit :: "AuditRecord Reader" where
  "decode_audit r = do {
     (sequence, r) \<leftarrow> rd_id r;
     (at, r) \<leftarrow> rd_i64 r;
     (kind, r) \<leftarrow> decodeEnum auditKinds 24 r;
     (fence, r) \<leftarrow> decode_fence r;
     (outcome, r) \<leftarrow> decodeEnum allocationOutcomes 22 r;
     (reservation, r) \<leftarrow> rd_id r;
     (reservationGeneration, r) \<leftarrow> rd_id r;
     (domain, r) \<leftarrow> rd_id r;
     (slots, r) \<leftarrow> decode_slots r;
     (frequency, r) \<leftarrow> decode_frequency r;
     (detail, r) \<leftarrow> rd_string r;
     if at < 0 \<or> length detail > kMaxDetailBytes
     then None
     else Some (\<lparr>aud_sequence = sequence, aud_at = at, aud_kind = kind, aud_fence = fence, aud_outcome = outcome,
       aud_reservation = reservation, aud_reservationGeneration = reservationGeneration,
       aud_domain = domain, aud_slots = slots, aud_frequency = frequency, aud_detail = detail\<rparr>, r)}"

definition storable_audit :: "AuditRecord \<Rightarrow> bool" where
  "storable_audit v \<longleftrightarrow> storable_instant (aud_at v) \<and> storable_fence (aud_fence v)
     \<and> storable_slots (aud_slots v) \<and> storable_frequency (aud_frequency v)
     \<and> length (aud_detail v) \<le> kMaxDetailBytes"

interpretation audits: codec encode_audit decode_audit storable_audit
proof unfold_locales
  fix v
  assume ok: "storable_audit v"
  show "codes (encode_audit v) decode_audit v"
    unfolding encode_audit_def decode_audit_def [abs_def]
    by (rule codes_enums slots.coded frequencies.coded fences.coded codes_steps | (insert ok, auto simp: storable_audit_def u32_bounds i64_bounds label_bound storable_instant_def; fail)[1])+
qed

end
