(* ===== verification/Record_Size.thy ===== *)
theory Record_Size
  imports Record_Codec
begin

text \<open>
  How much a writer needs. \<open>fits w n\<close> says that the writer succeeds whenever \<open>n\<close> bytes are left in
  the buffer, and uses no more than those. It is closed under sequencing, so every storable record
  has a small constant bound, far below the bound on one record; \<open>emit\<close> of the source, which does
  not look at the overflow flag of its payload, loses nothing on such records.
\<close>

definition fits :: "Writer \<Rightarrow> nat \<Rightarrow> bool" where
  "fits w n \<longleftrightarrow> (\<forall>e. \<not> enc_overflowed e \<longrightarrow> length (enc_buffer e) + n \<le> kMaxBufferBytes \<longrightarrow>
     \<not> enc_overflowed (w e) \<and> length (enc_buffer (w e)) \<le> length (enc_buffer e) + n)"

lemma fits_raw: "length bs \<le> n \<Longrightarrow> fits (enc_raw bs) n"
  by (auto simp: fits_def enc_raw_def)

lemma fits_mono: "fits w n \<Longrightarrow> n \<le> k \<Longrightarrow> fits w k"
  unfolding fits_def by (meson add_left_mono le_trans)

lemma fits_then: "fits w n \<Longrightarrow> fits w' k \<Longrightarrow> fits (\<lambda>e. w' (w e)) (n + k)"
  unfolding fits_def by (smt (verit) add.assoc add_leD1 add_mono_thms_linordered_semiring(3) le_trans)

lemma fits_nil: "fits (enc_seq []) 0"
  by (simp add: fits_def enc_seq_def)

lemma fits_cons: "fits w n \<Longrightarrow> fits (enc_seq ws) k \<Longrightarrow> fits (enc_seq (w # ws)) (n + k)"
  using fits_then [of w n "enc_seq ws" k] by (simp add: enc_seq_def [abs_def] comp_def)

lemma fits_fold: "(\<And>x. x \<in> set xs \<Longrightarrow> fits (f x) n) \<Longrightarrow> fits (fold f xs) (length xs * n)"
proof (induction xs)
  case (Cons x xs)
  then have "fits (\<lambda>e. fold f xs (f x e)) (n + length xs * n)"
    by (intro fits_then) simp_all
  then show ?case
    by (simp add: comp_def)
qed (simp add: fits_def)

lemma fits_each: "fits (enc_each bs) (length bs)"
proof -
  have "fits (fold enc_u8 bs) (length bs * 1)"
    by (intro fits_fold) (simp add: enc_u8_def fits_raw)
  then show ?thesis
    by (simp add: enc_each_def [abs_def])
qed

lemma fits_fixed:
  "fits (enc_u8 a) 1" "fits (enc_u16 b) 2" "fits (enc_u32 c) 4" "fits (enc_u64 d) 8" "fits (enc_i64 i) 8"
  "fits (enc_boolean t) 1" "fits (enc_id k) 8" "fits (enc_nat32 n) 4"
  using fits_each [of "le_bytes 2 b"] fits_each [of "le_bytes 4 c"] fits_each [of "le_bytes 8 d"]
    fits_each [of "le_bytes 8 (word_of_int i :: u64)"] fits_each [of "le_bytes 8 (raw k)"]
    fits_each [of "le_bytes 4 (word_of_nat n :: u32)"]
  by (simp_all add: enc_u8_def enc_u16_def enc_u32_def enc_u64_def enc_i64_def enc_boolean_def
      enc_id_def enc_nat32_def fits_raw le_bytes_def)

lemma fits_string:
  assumes "length v \<le> k" and "k \<le> kMaxEncodedStringBytes"
  shows "fits (enc_string v) (4 + k)"
proof -
  have "fits (\<lambda>e. enc_raw (map char_byte v) (enc_u32 (word_of_nat (length v)) e)) (4 + k)"
    using assms by (intro fits_then fits_fixed fits_raw) simp
  then show ?thesis
    using assms by (simp add: enc_string_def [abs_def])
qed

lemma fits_bytes:
  assumes "length v \<le> k" and "k \<le> kMaxEncodedBytes"
  shows "fits (enc_bytes v) (4 + k)"
proof -
  have "fits (\<lambda>e. enc_raw v (enc_u32 (word_of_nat (length v)) e)) (4 + k)"
    using assms by (intro fits_then fits_fixed fits_raw) simp
  then show ?thesis
    using assms by (simp add: enc_bytes_def [abs_def])
qed

lemma fits_vector:
  assumes "\<And>x. fits (wr x) n" and "length xs \<le> c" and "c \<le> kMaxCollectionCount"
  shows "fits (encodeVector wr xs) (4 + c * n)"
proof -
  have "fits (\<lambda>e. fold wr xs (enc_u32 (word_of_nat (length xs)) e)) (4 + length xs * n)"
    using assms(1) by (intro fits_then fits_fixed fits_fold)
  then have "fits (encodeVector wr xs) (4 + length xs * n)"
    using assms(2,3) by (simp add: encodeVector_def [abs_def])
  then show ?thesis
    by (rule fits_mono) (simp add: assms(2))
qed

lemmas fits_steps = fits_cons fits_nil fits_fixed

lemma fits_label: "length v \<le> kMaxLabelBytes \<Longrightarrow> fits (enc_string v) 260"
  using fits_string [of v 256] by (simp add: kMaxLabelBytes_def kMaxEncodedStringBytes_def)

lemma fits_detail: "length v \<le> kMaxDetailBytes \<Longrightarrow> fits (enc_string v) 4100"
  using fits_string [of v 4096] by (simp add: kMaxDetailBytes_def kMaxEncodedStringBytes_def)

section \<open>The records\<close>

lemma fits_slots: "fits (encode_slots v) 8"
  unfolding encode_slots_def by (rule fits_mono, (rule fits_steps)+) simp

lemma fits_frequency: "fits (encode_frequency v) 16"
  unfolding encode_frequency_def by (rule fits_mono, (rule fits_steps)+) simp

lemma fits_fence: "fits (encode_fence v) 16"
  unfolding encode_fence_def by (rule fits_mono, (rule fits_steps)+) simp

lemma fits_lease: "fits (encode_lease v) 32"
  unfolding encode_lease_def by (rule fits_mono, (rule fits_steps)+) simp

lemma fits_evidence: "storable_evidence v \<Longrightarrow> fits (encode_evidence v) 269"
  unfolding encode_evidence_def storable_evidence_def
  by (rule fits_mono, (rule fits_steps fits_label | assumption)+) simp

lemma fits_ids: "length vs \<le> c \<Longrightarrow> c \<le> kMaxCollectionCount \<Longrightarrow> fits (encodeVector enc_id vs) (4 + c * 8)"
  by (rule fits_vector [OF fits_fixed(7)])

lemma fits_slot_ranges:
  "length vs \<le> c \<Longrightarrow> c \<le> kMaxCollectionCount \<Longrightarrow> fits (encodeVector encode_slots vs) (4 + c * 8)"
  by (rule fits_vector [OF fits_slots])

text \<open>One bound for every storable record.\<close>

definition kRecordBound :: nat where "kRecordBound = 65536"

lemma fits_grid: "storable_grid v \<Longrightarrow> fits (encode_grid v) kRecordBound"
  unfolding encode_grid_def storable_grid_def kRecordBound_def
  by (elim conjE, rule fits_mono, (rule fits_steps fits_label | assumption)+) simp

lemma fits_span: "storable_span v \<Longrightarrow> fits (encode_span v) kRecordBound"
  unfolding encode_span_def storable_span_def kRecordBound_def
  by (rule fits_mono, (rule fits_steps fits_label | assumption)+) simp

lemma fits_port: "storable_port v \<Longrightarrow> fits (encode_port v) kRecordBound"
  unfolding encode_port_def storable_port_def kRecordBound_def
  by (rule fits_mono, (rule fits_steps fits_label | assumption)+) simp

lemma fits_domain: "storable_domain v \<Longrightarrow> fits (encode_domain v) kRecordBound"
  unfolding encode_domain_def storable_domain_def kRecordBound_def
  by (rule fits_mono, (rule fits_steps fits_label | assumption)+) simp

lemma fits_exclusion: "storable_exclusion v \<Longrightarrow> fits (encode_exclusion v) kRecordBound"
  unfolding encode_exclusion_def storable_exclusion_def kRecordBound_def
  by (elim conjE, rule fits_mono, (rule fits_steps fits_label fits_ids count_bounds | assumption)+)
    (simp add: kMaxExclusionDomainMembers_def)

lemma fits_capability: "storable_capability v \<Longrightarrow> fits (encode_capability v) kRecordBound"
  unfolding encode_capability_def storable_capability_def kRecordBound_def
  by (elim conjE, rule fits_mono, (rule fits_steps fits_detail fits_evidence fits_fence | assumption)+) simp

lemma fits_reservation: "storable_reservation v \<Longrightarrow> fits (encode_reservation v) kRecordBound"
  unfolding kRecordBound_def
proof -
  assume ok: "storable_reservation v"
  then have len: "length (res_domains v) \<le> kMaxRequestDomains"
    "length (res_domainGenerations v) \<le> kMaxRequestDomains"
    "length (res_perDomainSlots v) \<le> kMaxRequestDomains" "length (res_detail v) \<le> kMaxDetailBytes"
    by (simp_all add: storable_reservation_def)
  show "fits (encode_reservation v) 65536"
    unfolding encode_reservation_def
    by (rule fits_mono, (rule fits_steps fits_detail fits_ids fits_slot_ranges fits_slots fits_frequency
          fits_lease fits_fence count_bounds len)+) (simp add: kMaxRequestDomains_def)
qed

lemma fits_audit: "storable_audit v \<Longrightarrow> fits (encode_audit v) kRecordBound"
  unfolding encode_audit_def storable_audit_def kRecordBound_def
  by (elim conjE, rule fits_mono, (rule fits_steps fits_detail fits_slots fits_frequency fits_fence | assumption)+) simp

lemma fits_payload:
  assumes "fits w n" and "n \<le> kMaxBufferBytes"
  shows "\<not> enc_overflowed (w new_encoder) \<and> length (enc_buffer (w new_encoder)) \<le> n"
  using assms(1) [unfolded fits_def, rule_format, of new_encoder] assms(2) by (simp add: new_encoder_def)

text \<open>A codec whose values fit into a record.\<close>

definition payload_of :: "Writer \<Rightarrow> u8 list" where
  "payload_of w = enc_buffer (w new_encoder)"

locale stored = codec wr rd storable
  for wr :: "'v \<Rightarrow> Writer" and rd :: "'v Reader" and storable :: "'v \<Rightarrow> bool" +
  assumes bounded: "storable v \<Longrightarrow> fits (wr v) kRecordBound"
begin

lemma payload_small: "storable v \<Longrightarrow> length (payload_of (wr v)) \<le> kRecordBound"
  using fits_payload [OF bounded] by (simp add: payload_of_def kRecordBound_def kMaxBufferBytes_def)

lemma payload_decodes: "storable v \<Longrightarrow> decode_whole rd (payload_of (wr v)) = Some v"
  using fits_payload [OF bounded] read_back [of v]
  by (simp add: decode_whole_def payload_of_def kRecordBound_def kMaxBufferBytes_def)

end

end
