(* ===== verification/Wire_Codec.thy ===== *)
theory Wire_Codec
  imports Record_Size
begin

text \<open>
  The codecs of \<open>codec.cpp\<close> for the values that only travel over the transport: statuses, authority
  tokens, requests, candidates, decisions, reports and usage. Each is an instance of \<open>codec\<close>, like
  the persisted records: within the bounds the decoder enforces, decoding inverts encoding.
\<close>

definition kMaxStatusMessageBytes :: nat where "kMaxStatusMessageBytes = 4096"
definition kMaxReasonCount :: nat where "kMaxReasonCount = 256"
definition kMaxConflictCount :: nat where "kMaxConflictCount = 4096"
definition kMaxDiagnosticCount :: nat where "kMaxDiagnosticCount = 4096"

lemma wire_bounds:
  "kMaxReasonCount \<le> kMaxCollectionCount" "kMaxConflictCount \<le> kMaxCollectionCount"
  "kMaxDiagnosticCount \<le> kMaxCollectionCount" "kMaxCollectionCount \<le> kMaxCollectionCount"
  "length x \<le> kMaxStatusMessageBytes \<Longrightarrow> length x \<le> kMaxEncodedStringBytes"
  "n \<le> kMaxCandidatesPerRequest \<Longrightarrow> is_u32 n"
  by (simp_all add: kMaxReasonCount_def kMaxConflictCount_def kMaxDiagnosticCount_def kMaxCollectionCount_def
      kMaxStatusMessageBytes_def kMaxEncodedStringBytes_def kMaxCandidatesPerRequest_def is_u32_def kU32Modulus_def)

section \<open>Enumerators\<close>

definition statusCodes :: "StatusCode list" where "statusCodes = map fst kStatusCodeTokens"
definition contiguities :: "ContiguityRequirement list" where "contiguities = map fst kContiguityTokens"
definition continuities :: "ContinuityRequirement list" where "continuities = map fst kContinuityTokens"
definition eligibilities :: "CandidateEligibility list" where
  "eligibilities = map fst kCandidateEligibilityTokens"

definition statusCode_code :: "StatusCode \<Rightarrow> u8" where
  "statusCode_code c = word_of_nat (ordinal c statusCodes)"
definition contiguity_code :: "ContiguityRequirement \<Rightarrow> u8" where
  "contiguity_code c = word_of_nat (ordinal c contiguities)"
definition continuity_code :: "ContinuityRequirement \<Rightarrow> u8" where
  "continuity_code c = word_of_nat (ordinal c continuities)"
definition eligibility_code :: "CandidateEligibility \<Rightarrow> u8" where
  "eligibility_code c = word_of_nat (ordinal c eligibilities)"

lemma wire_enum_lists:
  "c \<in> set statusCodes" "length statusCodes = Suc 20"
  "a \<in> set contiguities" "length contiguities = Suc 2"
  "b \<in> set continuities" "length continuities = Suc 2"
  "e \<in> set eligibilities" "length eligibilities = Suc 14"
proof -
  show "c \<in> set statusCodes" "a \<in> set contiguities" "b \<in> set continuities" "e \<in> set eligibilities"
    using status_tokens.complete [of c] contiguity_tokens.complete [of a] continuity_tokens.complete [of b]
      eligibility_tokens.complete [of e]
    by (simp_all add: statusCodes_def contiguities_def continuities_def eligibilities_def)
qed (simp_all add: statusCodes_def kStatusCodeTokens_def contiguities_def kContiguityTokens_def
    continuities_def kContinuityTokens_def eligibilities_def kCandidateEligibilityTokens_def)

lemmas codes_wire_enums =
  codes_enum [OF wire_enum_lists(1,2) _ statusCode_code_def]
  codes_enum [OF wire_enum_lists(3,4) _ contiguity_code_def]
  codes_enum [OF wire_enum_lists(5,6) _ continuity_code_def]
  codes_enum [OF wire_enum_lists(7,8) _ eligibility_code_def]
  codes_enums

section \<open>Statuses and authority\<close>

definition encode_status :: "Status \<Rightarrow> Writer" where
  "encode_status v = enc_seq
     [enc_u8 (statusCode_code (code v)),
      enc_string (message v)]"

definition decode_status :: "Status Reader" where
  "decode_status r = do {
     (code, r) \<leftarrow> decodeEnum statusCodes 20 r;
     (message, r) \<leftarrow> rd_string r;
     if length message > kMaxStatusMessageBytes
     then None
     else Some (\<lparr>code = code, message = message\<rparr>, r)}"

definition storable_status :: "Status \<Rightarrow> bool" where
  "storable_status v \<longleftrightarrow> length (message v) \<le> kMaxStatusMessageBytes"

interpretation statuses: codec encode_status decode_status storable_status
proof unfold_locales
  fix v
  assume ok: "storable_status v"
  show "codes (encode_status v) decode_status v"
    unfolding encode_status_def decode_status_def [abs_def]
    by (rule codes_wire_enums codes_steps | (insert ok, auto simp: storable_status_def u32_bounds i64_bounds label_bound wire_bounds; fail)[1])+
qed

definition encode_authorityState :: "AuthorityState \<Rightarrow> Writer" where
  "encode_authorityState v = enc_seq
     [enc_id (auth_eligibility v),
      enc_id (auth_reservation v),
      enc_id (auth_activation v),
      enc_id (auth_release v),
      encode_fence (auth_fence v)]"

definition decode_authorityState :: "AuthorityState Reader" where
  "decode_authorityState r = do {
     (eligibility, r) \<leftarrow> rd_id r;
     (reservation, r) \<leftarrow> rd_id r;
     (activation, r) \<leftarrow> rd_id r;
     (release, r) \<leftarrow> rd_id r;
     (fence, r) \<leftarrow> decode_fence r;
     Some (\<lparr>auth_eligibility = eligibility, auth_reservation = reservation, auth_activation = activation,
       auth_release = release, auth_fence = fence\<rparr>, r)}"

definition storable_authorityState :: "AuthorityState \<Rightarrow> bool" where
  "storable_authorityState v \<longleftrightarrow> storable_fence (auth_fence v)"

interpretation authority_states: codec encode_authorityState decode_authorityState storable_authorityState
proof unfold_locales
  fix v
  assume ok: "storable_authorityState v"
  show "codes (encode_authorityState v) decode_authorityState v"
    unfolding encode_authorityState_def decode_authorityState_def [abs_def]
    by (rule fences.coded codes_steps | (insert ok, auto simp: storable_authorityState_def u32_bounds i64_bounds label_bound; fail)[1])+
qed

text \<open>One template for the four kinds of token.\<close>

definition encode_authority :: "'tag AuthorityToken \<Rightarrow> Writer" where
  "encode_authority v = enc_seq
     [enc_id (tok_generation v),
      encode_fence (tok_fence v)]"

definition decode_authority :: "'tag AuthorityToken Reader" where
  "decode_authority r = do {
     (generation, r) \<leftarrow> rd_id r;
     (fence, r) \<leftarrow> decode_fence r;
     if raw generation > kMaxFenceValue
     then None
     else Some (\<lparr>tok_generation = generation, tok_fence = fence\<rparr>, r)}"

definition storable_authority :: "'tag AuthorityToken \<Rightarrow> bool" where
  "storable_authority v \<longleftrightarrow> raw (tok_generation v) \<le> kMaxFenceValue \<and> storable_fence (tok_fence v)"

interpretation authorities: codec encode_authority decode_authority storable_authority
proof unfold_locales
  fix v
  assume ok: "storable_authority v"
  show "codes (encode_authority v) decode_authority v"
    unfolding encode_authority_def decode_authority_def [abs_def]
    by (rule fences.coded codes_steps | (insert ok, auto simp: storable_authority_def u32_bounds i64_bounds label_bound; fail)[1])+
qed

section \<open>Requests\<close>

lemma codes_frequency_ranges: "list_all storable_frequency vs \<Longrightarrow> length vs \<le> maxCount \<Longrightarrow>
  maxCount \<le> kMaxCollectionCount \<Longrightarrow>
  codes (encodeVector encode_frequency vs) (decodeVector maxCount decode_frequency) vs"
  by (rule frequencies.vector)

lemma codes_strings: "list_all (\<lambda>s. length s \<le> kMaxEncodedStringBytes) vs \<Longrightarrow> length vs \<le> maxCount \<Longrightarrow>
  maxCount \<le> kMaxCollectionCount \<Longrightarrow> codes (encodeVector enc_string vs) (decodeVector maxCount rd_string) vs"
  by (rule strings.vector)

definition encode_constraints :: "SpectrumConstraints \<Rightarrow> Writer" where
  "encode_constraints v = enc_seq
     [encodeVector encode_slots (con_excludedSlots v),
      encodeVector encode_frequency (con_excludedFrequencies v),
      encodeVector enc_id (con_mustNotConflictWith v)]"

definition decode_constraints :: "SpectrumConstraints Reader" where
  "decode_constraints r = do {
     (slots, r) \<leftarrow> decodeVector kMaxExcludedRanges decode_slots r;
     (frequencies, r) \<leftarrow> decodeVector kMaxExcludedRanges decode_frequency r;
     (conflicts, r) \<leftarrow> decodeVector kMaxExcludedRanges rd_id r;
     Some (\<lparr>con_excludedSlots = slots, con_excludedFrequencies = frequencies, con_mustNotConflictWith = conflicts\<rparr>, r)}"

definition storable_constraints :: "SpectrumConstraints \<Rightarrow> bool" where
  "storable_constraints v \<longleftrightarrow> list_all storable_slots (con_excludedSlots v) \<and> length (con_excludedSlots v) \<le> kMaxExcludedRanges
     \<and> list_all storable_frequency (con_excludedFrequencies v)
     \<and> length (con_excludedFrequencies v) \<le> kMaxExcludedRanges
     \<and> length (con_mustNotConflictWith v) \<le> kMaxExcludedRanges"

interpretation constraints: codec encode_constraints decode_constraints storable_constraints
proof unfold_locales
  fix v
  assume ok: "storable_constraints v"
  show "codes (encode_constraints v) decode_constraints v"
    unfolding encode_constraints_def decode_constraints_def [abs_def]
    by (rule codes_ids codes_slot_ranges codes_frequency_ranges codes_strings codes_steps | (insert ok, auto simp: storable_constraints_def u32_bounds i64_bounds label_bound count_bounds; fail)[1])+
qed

definition encode_request :: "SpectrumRequest \<Rightarrow> Writer" where
  "encode_request v = enc_seq
     [enc_id (req_requestId v),
      enc_id (req_requestGeneration v),
      enc_id (req_owner v),
      enc_id (req_ownerGeneration v),
      encodeVector enc_id (req_domains v),
      encodeVector enc_id (req_domainGenerations v),
      enc_id (req_grid v),
      enc_id (req_gridGeneration v),
      enc_nat32 (req_slots v),
      enc_u8 (contiguity_code (req_contiguity v)),
      enc_u8 (continuity_code (req_continuity v)),
      encodeVector encode_frequency (req_frequencyWindows v),
      enc_i64 (req_guardBandMhz v),
      enc_i64 (req_leaseDuration v),
      enc_nat32 (req_maxRenewals v),
      enc_i64 (req_requestedAt v),
      enc_i64 (req_notBefore v),
      enc_id (req_policyGeneration v),
      enc_id (req_priorityGeneration v),
      encode_constraints (req_constraints v),
      encode_authority (req_eligibilityAuthority v),
      encode_authority (req_reservationAuthority v)]"

definition decode_request :: "SpectrumRequest Reader" where
  "decode_request r = do {
     (requestId, r) \<leftarrow> rd_id r;
     (requestGeneration, r) \<leftarrow> rd_id r;
     (owner, r) \<leftarrow> rd_id r;
     (ownerGeneration, r) \<leftarrow> rd_id r;
     (domains, r) \<leftarrow> decodeVector kMaxRequestDomains rd_id r;
     (domainGenerations, r) \<leftarrow> decodeVector kMaxRequestDomains rd_id r;
     (grid, r) \<leftarrow> rd_id r;
     (gridGeneration, r) \<leftarrow> rd_id r;
     (slots, r) \<leftarrow> rd_nat32 r;
     (contiguity, r) \<leftarrow> decodeEnum contiguities 2 r;
     (continuity, r) \<leftarrow> decodeEnum continuities 2 r;
     (windows, r) \<leftarrow> decodeVector kMaxFrequencyWindows decode_frequency r;
     (guardBand, r) \<leftarrow> rd_i64 r;
     (leaseNanos, r) \<leftarrow> rd_i64 r;
     (maxRenewals, r) \<leftarrow> rd_nat32 r;
     (requestedAt, r) \<leftarrow> rd_i64 r;
     (notBefore, r) \<leftarrow> rd_i64 r;
     (policyGeneration, r) \<leftarrow> rd_id r;
     (priorityGeneration, r) \<leftarrow> rd_id r;
     (constraints, r) \<leftarrow> decode_constraints r;
     (eligibility, r) \<leftarrow> decode_authority r;
     (reservation, r) \<leftarrow> decode_authority r;
     if slots > kMaxSlotsPerChannel \<or> leaseNanos \<le> 0 \<or> requestedAt < 0 \<or> notBefore < 0 \<or> guardBand < 0
       \<or> guardBand > kMaxGuardBandMhz \<or> length domains \<noteq> length domainGenerations
     then None
     else Some (\<lparr>req_requestId = requestId, req_requestGeneration = requestGeneration, req_owner = owner,
       req_ownerGeneration = ownerGeneration, req_domains = domains,
       req_domainGenerations = domainGenerations, req_grid = grid, req_gridGeneration = gridGeneration,
       req_slots = slots, req_contiguity = contiguity, req_continuity = continuity,
       req_frequencyWindows = windows, req_guardBandMhz = guardBand, req_leaseDuration = leaseNanos,
       req_maxRenewals = maxRenewals, req_requestedAt = requestedAt, req_notBefore = notBefore,
       req_policyGeneration = policyGeneration, req_priorityGeneration = priorityGeneration,
       req_constraints = constraints, req_eligibilityAuthority = eligibility,
       req_reservationAuthority = reservation\<rparr>, r)}"

definition storable_request :: "SpectrumRequest \<Rightarrow> bool" where
  "storable_request v \<longleftrightarrow> length (req_domains v) \<le> kMaxRequestDomains
     \<and> length (req_domainGenerations v) = length (req_domains v) \<and> req_slots v \<le> kMaxSlotsPerChannel
     \<and> list_all storable_frequency (req_frequencyWindows v)
     \<and> length (req_frequencyWindows v) \<le> kMaxFrequencyWindows
     \<and> 0 \<le> req_guardBandMhz v \<and> req_guardBandMhz v \<le> kMaxGuardBandMhz \<and> 0 < req_leaseDuration v
     \<and> is_i64 (req_leaseDuration v) \<and> is_u32 (req_maxRenewals v) \<and> storable_instant (req_requestedAt v)
     \<and> storable_instant (req_notBefore v) \<and> storable_constraints (req_constraints v)
     \<and> storable_authority (req_eligibilityAuthority v) \<and> storable_authority (req_reservationAuthority v)"

interpretation requests: codec encode_request decode_request storable_request
proof unfold_locales
  fix v
  assume ok: "storable_request v"
  show "codes (encode_request v) decode_request v"
    unfolding encode_request_def decode_request_def [abs_def]
    by (rule codes_wire_enums codes_ids codes_slot_ranges codes_frequency_ranges codes_strings constraints.coded authorities.coded codes_steps | (insert ok, auto simp: storable_request_def u32_bounds i64_bounds label_bound count_bounds storable_instant_def; fail)[1])+
qed

section \<open>Candidates and decisions\<close>

definition encode_candidate :: "SpectrumCandidate \<Rightarrow> Writer" where
  "encode_candidate v = enc_seq
     [enc_nat32 (cand_ordinal v),
      enc_id (cand_anchorDomain v),
      encode_slots (cand_slots v),
      encode_frequency (cand_frequency v),
      enc_u8 (eligibility_code (cand_eligibility v)),
      encodeVector enc_id (cand_conflicts v),
      encodeVector encode_slots (cand_perDomainSlots v),
      enc_boolean (cand_crossGrid v),
      enc_string (cand_detail v)]"

definition decode_candidate :: "SpectrumCandidate Reader" where
  "decode_candidate r = do {
     (n, r) \<leftarrow> rd_nat32 r;
     (anchor, r) \<leftarrow> rd_id r;
     (slots, r) \<leftarrow> decode_slots r;
     (frequency, r) \<leftarrow> decode_frequency r;
     (eligibility, r) \<leftarrow> decodeEnum eligibilities 14 r;
     (conflicts, r) \<leftarrow> decodeVector kMaxConflictCount rd_id r;
     (perDomain, r) \<leftarrow> decodeVector kMaxRequestDomains decode_slots r;
     (crossGrid, r) \<leftarrow> rd_boolean r;
     (detail, r) \<leftarrow> rd_string r;
     if n > kMaxCandidatesPerRequest \<or> length detail > 4096
     then None
     else Some (\<lparr>cand_ordinal = n, cand_anchorDomain = anchor, cand_slots = slots, cand_frequency = frequency,
       cand_eligibility = eligibility, cand_conflicts = conflicts, cand_perDomainSlots = perDomain,
       cand_crossGrid = crossGrid, cand_detail = detail\<rparr>, r)}"

definition storable_candidate :: "SpectrumCandidate \<Rightarrow> bool" where
  "storable_candidate v \<longleftrightarrow> cand_ordinal v \<le> kMaxCandidatesPerRequest \<and> storable_slots (cand_slots v)
     \<and> storable_frequency (cand_frequency v) \<and> length (cand_conflicts v) \<le> kMaxConflictCount
     \<and> list_all storable_slots (cand_perDomainSlots v) \<and> length (cand_perDomainSlots v) \<le> kMaxRequestDomains
     \<and> length (cand_detail v) \<le> 4096"

interpretation candidates: codec encode_candidate decode_candidate storable_candidate
proof unfold_locales
  fix v
  assume ok: "storable_candidate v"
  show "codes (encode_candidate v) decode_candidate v"
    unfolding encode_candidate_def decode_candidate_def [abs_def]
    by (rule codes_wire_enums codes_ids codes_slot_ranges codes_frequency_ranges codes_strings slots.coded frequencies.coded codes_steps | (insert ok, auto simp: storable_candidate_def u32_bounds i64_bounds label_bound count_bounds wire_bounds kMaxEncodedStringBytes_def; fail)[1])+
qed

lemma codes_candidates: "list_all storable_candidate vs \<Longrightarrow> length vs \<le> maxCount \<Longrightarrow>
  maxCount \<le> kMaxCollectionCount \<Longrightarrow>
  codes (encodeVector encode_candidate vs) (decodeVector maxCount decode_candidate) vs"
  by (rule candidates.vector)

definition encode_candidateSet :: "CandidateSet \<Rightarrow> Writer" where
  "encode_candidateSet v = enc_seq
     [encode_status (cset_status v),
      encodeVector encode_candidate (cset_candidates v),
      enc_nat32 (cset_eligibleCount v),
      enc_nat32 (cset_omitted v),
      enc_boolean (cset_complete v),
      enc_string (cset_summary v)]"

definition decode_candidateSet :: "CandidateSet Reader" where
  "decode_candidateSet r = do {
     (status, r) \<leftarrow> decode_status r;
     (candidates, r) \<leftarrow> decodeVector kMaxCandidatesPerRequest decode_candidate r;
     (eligible, r) \<leftarrow> rd_nat32 r;
     (omitted, r) \<leftarrow> rd_nat32 r;
     (complete, r) \<leftarrow> rd_boolean r;
     (summary, r) \<leftarrow> rd_string r;
     if length summary > kMaxStatusMessageBytes \<or> eligible > length candidates
     then None
     else Some (\<lparr>cset_status = status, cset_candidates = candidates, cset_eligibleCount = eligible,
       cset_omitted = omitted, cset_complete = complete, cset_summary = summary\<rparr>, r)}"

definition storable_candidateSet :: "CandidateSet \<Rightarrow> bool" where
  "storable_candidateSet v \<longleftrightarrow> storable_status (cset_status v) \<and> list_all storable_candidate (cset_candidates v)
     \<and> length (cset_candidates v) \<le> kMaxCandidatesPerRequest
     \<and> cset_eligibleCount v \<le> length (cset_candidates v) \<and> is_u32 (cset_omitted v)
     \<and> length (cset_summary v) \<le> kMaxStatusMessageBytes"

interpretation candidate_sets: codec encode_candidateSet decode_candidateSet storable_candidateSet
proof unfold_locales
  fix v
  assume ok: "storable_candidateSet v"
  show "codes (encode_candidateSet v) decode_candidateSet v"
    unfolding encode_candidateSet_def decode_candidateSet_def [abs_def]
    by (rule codes_candidates statuses.coded codes_steps | (insert ok, auto simp: storable_candidateSet_def u32_bounds i64_bounds label_bound count_bounds wire_bounds; fail)[1])+
qed

definition encode_explanation :: "DecisionExplanation \<Rightarrow> Writer" where
  "encode_explanation v = enc_seq
     [enc_u8 (outcome_code (exp_outcome v)),
      enc_id (exp_reservation v),
      enc_id (exp_generation v),
      encode_fence (exp_fence v),
      enc_nat32 (exp_candidatesEnumerated v),
      enc_nat32 (exp_candidatesRejected v),
      enc_nat32 (exp_candidatesOmitted v),
      enc_nat32 (exp_candidateOrdinal v),
      encode_candidate (exp_selected v),
      encodeVector encode_candidate (exp_rejected v),
      encodeVector enc_id (exp_conflicts v),
      encodeVector enc_string (exp_reasons v)]"

definition decode_explanation :: "DecisionExplanation Reader" where
  "decode_explanation r = do {
     (outcome, r) \<leftarrow> decodeEnum allocationOutcomes 22 r;
     (reservation, r) \<leftarrow> rd_id r;
     (generation, r) \<leftarrow> rd_id r;
     (fence, r) \<leftarrow> decode_fence r;
     (enumerated, r) \<leftarrow> rd_nat32 r;
     (rejectedCount, r) \<leftarrow> rd_nat32 r;
     (omitted, r) \<leftarrow> rd_nat32 r;
     (n, r) \<leftarrow> rd_nat32 r;
     (selected, r) \<leftarrow> decode_candidate r;
     (rejected, r) \<leftarrow> decodeVector kMaxCandidatesPerRequest decode_candidate r;
     (conflicts, r) \<leftarrow> decodeVector kMaxConflictCount rd_id r;
     (reasons, r) \<leftarrow> decodeVector kMaxReasonCount rd_string r;
     if n > kMaxCandidatesPerRequest
     then None
     else Some (\<lparr>exp_outcome = outcome, exp_reservation = reservation, exp_generation = generation,
       exp_fence = fence, exp_candidatesEnumerated = enumerated, exp_candidatesRejected = rejectedCount,
       exp_candidatesOmitted = omitted, exp_candidateOrdinal = n, exp_selected = selected,
       exp_rejected = rejected, exp_conflicts = conflicts, exp_reasons = reasons\<rparr>, r)}"

definition storable_explanation :: "DecisionExplanation \<Rightarrow> bool" where
  "storable_explanation v \<longleftrightarrow> storable_fence (exp_fence v) \<and> is_u32 (exp_candidatesEnumerated v)
     \<and> is_u32 (exp_candidatesRejected v) \<and> is_u32 (exp_candidatesOmitted v)
     \<and> exp_candidateOrdinal v \<le> kMaxCandidatesPerRequest \<and> storable_candidate (exp_selected v)
     \<and> list_all storable_candidate (exp_rejected v) \<and> length (exp_rejected v) \<le> kMaxCandidatesPerRequest
     \<and> length (exp_conflicts v) \<le> kMaxConflictCount
     \<and> list_all (\<lambda>s. length s \<le> kMaxEncodedStringBytes) (exp_reasons v)
     \<and> length (exp_reasons v) \<le> kMaxReasonCount"

interpretation explanations: codec encode_explanation decode_explanation storable_explanation
proof unfold_locales
  fix v
  assume ok: "storable_explanation v"
  show "codes (encode_explanation v) decode_explanation v"
    unfolding encode_explanation_def decode_explanation_def [abs_def]
    by (rule codes_wire_enums codes_candidates codes_ids codes_strings fences.coded candidates.coded codes_steps | (insert ok, auto simp: storable_explanation_def u32_bounds i64_bounds label_bound count_bounds wire_bounds; fail)[1])+
qed

definition encode_decision :: "AllocationDecision \<Rightarrow> Writer" where
  "encode_decision v = enc_seq
     [encode_status (dec_status v),
      enc_u8 (outcome_code (dec_outcome v)),
      enc_id (dec_reservation v),
      enc_id (dec_generation v),
      encode_explanation (dec_explanation v)]"

definition decode_decision :: "AllocationDecision Reader" where
  "decode_decision r = do {
     (status, r) \<leftarrow> decode_status r;
     (outcome, r) \<leftarrow> decodeEnum allocationOutcomes 22 r;
     (reservation, r) \<leftarrow> rd_id r;
     (generation, r) \<leftarrow> rd_id r;
     (explanation, r) \<leftarrow> decode_explanation r;
     Some (\<lparr>dec_status = status, dec_outcome = outcome, dec_reservation = reservation,
       dec_generation = generation, dec_explanation = explanation\<rparr>, r)}"

definition storable_decision :: "AllocationDecision \<Rightarrow> bool" where
  "storable_decision v \<longleftrightarrow> storable_status (dec_status v) \<and> storable_explanation (dec_explanation v)"

interpretation decisions: codec encode_decision decode_decision storable_decision
proof unfold_locales
  fix v
  assume ok: "storable_decision v"
  show "codes (encode_decision v) decode_decision v"
    unfolding encode_decision_def decode_decision_def [abs_def]
    by (rule codes_wire_enums statuses.coded explanations.coded codes_steps | (insert ok, auto simp: storable_decision_def u32_bounds i64_bounds label_bound; fail)[1])+
qed

section \<open>Reports and usage\<close>

definition encode_reclaimReport :: "ReclaimReport \<Rightarrow> Writer" where
  "encode_reclaimReport v = enc_seq
     [encode_status (rep_status v),
      enc_i64 (rep_evaluatedAt v),
      encode_fence (rep_fence v),
      enc_nat32 (rep_scanned v),
      enc_nat32 (rep_expired v),
      encodeVector enc_id (rep_reclaimed v),
      encodeVector enc_id (rep_lapsed v)]"

definition decode_reclaimReport :: "ReclaimReport Reader" where
  "decode_reclaimReport r = do {
     (status, r) \<leftarrow> decode_status r;
     (evaluatedAt, r) \<leftarrow> rd_i64 r;
     (fence, r) \<leftarrow> decode_fence r;
     (scanned, r) \<leftarrow> rd_nat32 r;
     (expired, r) \<leftarrow> rd_nat32 r;
     (reclaimed, r) \<leftarrow> decodeVector kMaxCollectionCount rd_id r;
     (lapsed, r) \<leftarrow> decodeVector kMaxCollectionCount rd_id r;
     if evaluatedAt < 0
     then None
     else Some (\<lparr>rep_status = status, rep_evaluatedAt = evaluatedAt, rep_fence = fence, rep_scanned = scanned,
       rep_expired = expired, rep_reclaimed = reclaimed, rep_lapsed = lapsed\<rparr>, r)}"

definition storable_reclaimReport :: "ReclaimReport \<Rightarrow> bool" where
  "storable_reclaimReport v \<longleftrightarrow> storable_status (rep_status v) \<and> storable_instant (rep_evaluatedAt v)
     \<and> storable_fence (rep_fence v) \<and> is_u32 (rep_scanned v) \<and> is_u32 (rep_expired v)
     \<and> length (rep_reclaimed v) \<le> kMaxCollectionCount \<and> length (rep_lapsed v) \<le> kMaxCollectionCount"

interpretation reclaim_reports: codec encode_reclaimReport decode_reclaimReport storable_reclaimReport
proof unfold_locales
  fix v
  assume ok: "storable_reclaimReport v"
  show "codes (encode_reclaimReport v) decode_reclaimReport v"
    unfolding encode_reclaimReport_def decode_reclaimReport_def [abs_def]
    by (rule codes_ids statuses.coded fences.coded codes_steps | (insert ok, auto simp: storable_reclaimReport_def u32_bounds i64_bounds label_bound storable_instant_def wire_bounds; fail)[1])+
qed

definition encode_recoveryReport :: "RecoveryReport \<Rightarrow> Writer" where
  "encode_recoveryReport v = enc_seq
     [encode_status (rec_status v),
      enc_boolean (rec_recovered v),
      enc_string (rec_source v),
      encode_fence (rec_fence v),
      enc_id (rec_runtimeGeneration v),
      enc_id (rec_recoveryGeneration v),
      enc_u64 (rec_recordsRead v),
      enc_u64 (rec_recordsAccepted v),
      enc_u64 (rec_recordsRejected v),
      enc_nat32 (rec_gridsRestored v),
      enc_nat32 (rec_domainsRestored v),
      enc_nat32 (rec_exclusionDomainsRestored v),
      enc_nat32 (rec_capabilitiesRestored v),
      enc_nat32 (rec_reservationsRestored v),
      enc_nat32 (rec_auditsRestored v),
      enc_nat32 (rec_demotedFromActive v),
      encodeVector enc_string (rec_diagnostics v)]"

definition decode_recoveryReport :: "RecoveryReport Reader" where
  "decode_recoveryReport r = do {
     (status, r) \<leftarrow> decode_status r;
     (recovered, r) \<leftarrow> rd_boolean r;
     (source, r) \<leftarrow> rd_string r;
     (fence, r) \<leftarrow> decode_fence r;
     (runtimeGeneration, r) \<leftarrow> rd_id r;
     (recoveryGeneration, r) \<leftarrow> rd_id r;
     (recordsRead, r) \<leftarrow> rd_u64 r;
     (recordsAccepted, r) \<leftarrow> rd_u64 r;
     (recordsRejected, r) \<leftarrow> rd_u64 r;
     (grids, r) \<leftarrow> rd_nat32 r;
     (domains, r) \<leftarrow> rd_nat32 r;
     (exclusionDomains, r) \<leftarrow> rd_nat32 r;
     (capabilities, r) \<leftarrow> rd_nat32 r;
     (reservations, r) \<leftarrow> rd_nat32 r;
     (audits, r) \<leftarrow> rd_nat32 r;
     (demoted, r) \<leftarrow> rd_nat32 r;
     (diagnostics, r) \<leftarrow> decodeVector kMaxDiagnosticCount rd_string r;
     if length source > kMaxStatusMessageBytes
     then None
     else Some (\<lparr>rec_status = status, rec_recovered = recovered, rec_source = source, rec_fence = fence,
       rec_runtimeGeneration = runtimeGeneration, rec_recoveryGeneration = recoveryGeneration,
       rec_recordsRead = recordsRead, rec_recordsAccepted = recordsAccepted,
       rec_recordsRejected = recordsRejected, rec_gridsRestored = grids, rec_domainsRestored = domains,
       rec_exclusionDomainsRestored = exclusionDomains, rec_capabilitiesRestored = capabilities,
       rec_reservationsRestored = reservations, rec_auditsRestored = audits,
       rec_demotedFromActive = demoted, rec_diagnostics = diagnostics\<rparr>, r)}"

definition storable_recoveryReport :: "RecoveryReport \<Rightarrow> bool" where
  "storable_recoveryReport v \<longleftrightarrow> storable_status (rec_status v) \<and> length (rec_source v) \<le> kMaxStatusMessageBytes
     \<and> storable_fence (rec_fence v) \<and> is_u32 (rec_gridsRestored v)
     \<and> is_u32 (rec_domainsRestored v)
     \<and> is_u32 (rec_exclusionDomainsRestored v)
     \<and> is_u32 (rec_capabilitiesRestored v)
     \<and> is_u32 (rec_reservationsRestored v)
     \<and> is_u32 (rec_auditsRestored v)
     \<and> is_u32 (rec_demotedFromActive v)
     \<and> list_all (\<lambda>s. length s \<le> kMaxEncodedStringBytes) (rec_diagnostics v)
     \<and> length (rec_diagnostics v) \<le> kMaxDiagnosticCount"

interpretation recovery_reports: codec encode_recoveryReport decode_recoveryReport storable_recoveryReport
proof unfold_locales
  fix v
  assume ok: "storable_recoveryReport v"
  show "codes (encode_recoveryReport v) decode_recoveryReport v"
    unfolding encode_recoveryReport_def decode_recoveryReport_def [abs_def]
    by (rule codes_strings statuses.coded fences.coded codes_steps | (insert ok, auto simp: storable_recoveryReport_def u32_bounds i64_bounds label_bound wire_bounds; fail)[1])+
qed

definition encode_usage :: "SpectrumUsage \<Rightarrow> Writer" where
  "encode_usage v = enc_seq
     [enc_id (use_domain v),
      enc_id (use_domainGeneration v),
      enc_id (use_grid v),
      enc_id (use_gridGeneration v),
      enc_nat32 (use_totalSlots v),
      enc_nat32 (use_allocatableSlots v),
      enc_nat32 (use_liveSlots v),
      enc_nat32 (use_activeSlots v),
      enc_nat32 (use_reservedSlots v),
      enc_nat32 (use_freeSlots v),
      enc_nat32 (use_lapsedSlots v),
      enc_nat32 (use_liveReservations v),
      enc_nat32 (use_activeReservations v),
      enc_nat32 (use_lapsedReservations v),
      enc_nat32 (use_reclaimedReservations v),
      enc_nat32 (use_releasedReservations v),
      encodeVector encode_slots (use_freeRuns v)]"

definition decode_usage :: "SpectrumUsage Reader" where
  "decode_usage r = do {
     (domain, r) \<leftarrow> rd_id r;
     (domainGeneration, r) \<leftarrow> rd_id r;
     (grid, r) \<leftarrow> rd_id r;
     (gridGeneration, r) \<leftarrow> rd_id r;
     (totalSlots, r) \<leftarrow> rd_nat32 r;
     (allocatableSlots, r) \<leftarrow> rd_nat32 r;
     (liveSlots, r) \<leftarrow> rd_nat32 r;
     (activeSlots, r) \<leftarrow> rd_nat32 r;
     (reservedSlots, r) \<leftarrow> rd_nat32 r;
     (freeSlots, r) \<leftarrow> rd_nat32 r;
     (lapsedSlots, r) \<leftarrow> rd_nat32 r;
     (liveReservations, r) \<leftarrow> rd_nat32 r;
     (activeReservations, r) \<leftarrow> rd_nat32 r;
     (lapsedReservations, r) \<leftarrow> rd_nat32 r;
     (reclaimedReservations, r) \<leftarrow> rd_nat32 r;
     (releasedReservations, r) \<leftarrow> rd_nat32 r;
     (freeRuns, r) \<leftarrow> decodeVector kMaxGridSlots decode_slots r;
     Some (\<lparr>use_domain = domain, use_domainGeneration = domainGeneration, use_grid = grid,
       use_gridGeneration = gridGeneration,
       use_totalSlots = totalSlots, use_allocatableSlots = allocatableSlots,
       use_liveSlots = liveSlots, use_activeSlots = activeSlots,
       use_reservedSlots = reservedSlots, use_freeSlots = freeSlots,
       use_lapsedSlots = lapsedSlots, use_liveReservations = liveReservations,
       use_activeReservations = activeReservations, use_lapsedReservations = lapsedReservations,
       use_reclaimedReservations = reclaimedReservations, use_releasedReservations = releasedReservations,
       use_freeRuns = freeRuns\<rparr>, r)}"

definition storable_usage :: "SpectrumUsage \<Rightarrow> bool" where
  "storable_usage v \<longleftrightarrow> is_u32 (use_totalSlots v) \<and> is_u32 (use_allocatableSlots v)
     \<and> is_u32 (use_liveSlots v) \<and> is_u32 (use_activeSlots v)
     \<and> is_u32 (use_reservedSlots v) \<and> is_u32 (use_freeSlots v)
     \<and> is_u32 (use_lapsedSlots v) \<and> is_u32 (use_liveReservations v)
     \<and> is_u32 (use_activeReservations v) \<and> is_u32 (use_lapsedReservations v)
     \<and> is_u32 (use_reclaimedReservations v) \<and> is_u32 (use_releasedReservations v)
     \<and> list_all storable_slots (use_freeRuns v) \<and> length (use_freeRuns v) \<le> kMaxGridSlots"

interpretation usages: codec encode_usage decode_usage storable_usage
proof unfold_locales
  fix v
  assume ok: "storable_usage v"
  show "codes (encode_usage v) decode_usage v"
    unfolding encode_usage_def decode_usage_def [abs_def]
    by (rule codes_slot_ranges codes_steps | (insert ok, auto simp: storable_usage_def u32_bounds i64_bounds label_bound count_bounds; fail)[1])+
qed

end
