(* ===== verification/Transport.thy ===== *)
theory Transport
  imports Wire_Codec
begin

text \<open>
  The transport: \<open>sendAll\<close> and \<open>recvAll\<close> of \<open>net.cpp\<close> and the frames of \<open>protocol.cpp\<close>. The operating
  system is a parameter: a socket carries the answers its \<open>send\<close> and \<open>recv\<close> calls will get, in order,
  and the bytes it has handed over so far. An exhausted list of answers is a connection that is
  gone. The lemmas reduce the segmented answers to one byte stream.
\<close>

section \<open>Sockets\<close>

datatype SendAnswer = Sent nat | SendInterrupted | SendFailed string

datatype RecvAnswer = Received "u8 list" | RecvInterrupted | RecvFailed string

record Socket =
  sock_valid :: bool
  sock_sends :: "SendAnswer list"
  sock_recvs :: "RecvAnswer list"
  sock_sent :: "u8 list"

definition kMaxTransferBytes :: nat where "kMaxTransferBytes = 67108864"

definition msg_send_closed :: string where "msg_send_closed = ''send requires an open socket''"
definition msg_send_limit :: string where "msg_send_limit = ''send span exceeds the 64 MiB transfer limit''"
definition msg_send_zero :: string where "msg_send_zero = ''send transferred zero bytes''"
definition msg_recv_closed :: string where "msg_recv_closed = ''receive requires an open socket''"
definition msg_recv_limit :: string where
  "msg_recv_limit = ''receive span exceeds the 64 MiB transfer limit''"
definition msg_recv_end :: string where
  "msg_recv_end = ''receive hit end of stream before the count was reached''"

definition socketFailure :: "string \<Rightarrow> string \<Rightarrow> Status" where
  "socketFailure what e = fail IoError (what @ '' failed: '' @ e)"

definition s_send :: string where "s_send = ''send''"
definition s_recv :: string where "s_recv = ''recv''"

definition socket_close :: "Socket \<Rightarrow> Socket" where
  "socket_close k = k\<lparr>sock_valid := False\<rparr>"

text \<open>The loop over \<open>send\<close>: the bytes handed over, the answers left, and the status.\<close>

fun send_loop :: "SendAnswer list \<Rightarrow> u8 list \<Rightarrow> u8 list \<times> SendAnswer list \<times> Status" where
  "send_loop answers [] = ([], answers, okStatus)"
| "send_loop [] data = ([], [], socketFailure s_send [])"
| "send_loop (Sent n # answers) data =
     (if n = 0 then ([], answers, fail IoError msg_send_zero)
      else case send_loop answers (drop n data) of (out, rest, status) \<Rightarrow> (take n data @ out, rest, status))"
| "send_loop (SendInterrupted # answers) data = send_loop answers data"
| "send_loop (SendFailed e # answers) data = ([], answers, socketFailure s_send e)"

definition sendAll :: "Socket \<Rightarrow> u8 list \<Rightarrow> Socket \<times> Status" where
  "sendAll k data =
     (if \<not> sock_valid k then (k, fail InvalidArgument msg_send_closed)
      else if length data > kMaxTransferBytes then (k, fail LimitExceeded msg_send_limit)
      else case send_loop (sock_sends k) data of (out, rest, status) \<Rightarrow>
        (k\<lparr>sock_sends := rest, sock_sent := sock_sent k @ out\<rparr>, status))"

text \<open>
  The loop over \<open>recv\<close>, which never takes more than the bytes still wanted: what a segment holds
  beyond them stays to be received.
\<close>

fun recv_loop :: "nat \<Rightarrow> RecvAnswer list \<Rightarrow> u8 list \<times> RecvAnswer list \<times> Status" where
  "recv_loop 0 answers = ([], answers, okStatus)"
| "recv_loop (Suc n) [] = ([], [], fail IoError msg_recv_end)"
| "recv_loop (Suc n) (Received bs # answers) =
     (if bs = [] then ([], answers, fail IoError msg_recv_end)
      else if length bs > Suc n then (take (Suc n) bs, Received (drop (Suc n) bs) # answers, okStatus)
      else case recv_loop (Suc n - length bs) answers of (data, rest, status) \<Rightarrow> (bs @ data, rest, status))"
| "recv_loop (Suc n) (RecvInterrupted # answers) = recv_loop (Suc n) answers"
| "recv_loop (Suc n) (RecvFailed e # answers) = ([], answers, socketFailure s_recv e)"

text \<open>The same loop by cases on the answer first, for evaluation.\<close>

lemma recv_loop_eval [code]:
  "recv_loop n answers =
     (if n = 0 then ([], answers, okStatus)
      else case answers of
          [] \<Rightarrow> ([], [], fail IoError msg_recv_end)
        | Received bs # rest \<Rightarrow>
            (if bs = [] then ([], rest, fail IoError msg_recv_end)
             else if length bs > n then (take n bs, Received (drop n bs) # rest, okStatus)
             else case recv_loop (n - length bs) rest of (data, more_answers, status) \<Rightarrow> (bs @ data, more_answers, status))
        | RecvInterrupted # rest \<Rightarrow> recv_loop n rest
        | RecvFailed e # rest \<Rightarrow> ([], rest, socketFailure s_recv e))"
  by (cases n) (simp_all split: list.split RecvAnswer.split)

definition recvAll :: "Socket \<Rightarrow> nat \<Rightarrow> Socket \<times> u8 list \<times> Status" where
  "recvAll k n =
     (if \<not> sock_valid k then (k, [], fail InvalidArgument msg_recv_closed)
      else if n > kMaxTransferBytes then (k, [], fail LimitExceeded msg_recv_limit)
      else case recv_loop n (sock_recvs k) of (data, rest, status) \<Rightarrow>
        (k\<lparr>sock_recvs := rest\<rparr>, data, status))"

section \<open>The stream a socket delivers\<close>

fun incoming :: "RecvAnswer list \<Rightarrow> u8 list" where
  "incoming [] = []"
| "incoming (Received bs # answers) = (if bs = [] then [] else bs @ incoming answers)"
| "incoming (RecvInterrupted # answers) = incoming answers"
| "incoming (RecvFailed e # answers) = []"

definition stream :: "Socket \<Rightarrow> u8 list" where
  "stream k = (if sock_valid k then incoming (sock_recvs k) else [])"

lemma recv_loop_enough:
  "n \<le> length (incoming as) \<Longrightarrow> \<exists>rest. recv_loop n as = (take n (incoming as), rest, okStatus)
     \<and> incoming rest = drop n (incoming as)"
proof (induction n as rule: recv_loop.induct)
  case (3 n bs as)
  show ?case
  proof (cases "bs = [] \<or> length bs > Suc n")
    case True
    then show ?thesis
      using "3.prems" by auto
  next
    case False
    then have "Suc n - length bs \<le> length (incoming as)" "bs \<noteq> []" "\<not> length bs > Suc n"
      using "3.prems" by simp_all
    then obtain rest where "recv_loop (Suc n - length bs) as = (take (Suc n - length bs) (incoming as), rest, okStatus)"
      "incoming rest = drop (Suc n - length bs) (incoming as)"
      using "3.IH" by blast
    then show ?thesis
      using False by simp
  qed
qed simp_all

lemma recv_loop_short:
  "length (incoming as) < n \<Longrightarrow> \<not> status_ok (snd (snd (recv_loop n as)))"
proof (induction n as rule: recv_loop.induct)
  case (3 n bs as)
  show ?case
  proof (cases "bs = []")
    case False
    then have short: "\<not> length bs > Suc n" "length (incoming as) < Suc n - length bs"
      using "3.prems" by simp_all
    then have "\<not> status_ok (snd (snd (recv_loop (Suc n - length bs) as)))"
      using "3.IH" False by blast
    then show ?thesis
      using False short by (simp add: case_prod_unfold)
  qed simp
qed (simp_all add: socketFailure_def)

text \<open>
  Receiving is independent of how the stream was cut into segments: it succeeds exactly when
  enough bytes arrive, and then returns the next ones.
\<close>

lemma recvAll_enough:
  assumes "sock_valid k" and "n \<le> length (stream k)" and "n \<le> kMaxTransferBytes"
  obtains k' where "recvAll k n = (k', take n (stream k), okStatus)" "sock_valid k'"
    "stream k' = drop n (stream k)" "sock_sends k' = sock_sends k" "sock_sent k' = sock_sent k"
proof -
  obtain rest where "recv_loop n (sock_recvs k) = (take n (stream k), rest, okStatus)"
    "incoming rest = drop n (stream k)"
    using recv_loop_enough [of n "sock_recvs k"] assms(1,2) by (auto simp: stream_def)
  then show ?thesis
    using assms that [of "k\<lparr>sock_recvs := rest\<rparr>"] by (simp add: recvAll_def stream_def)
qed

lemma recvAll_status:
  "status_ok (snd (snd (recvAll k n))) \<longleftrightarrow> sock_valid k \<and> n \<le> length (stream k) \<and> n \<le> kMaxTransferBytes"
proof (cases "sock_valid k \<and> n \<le> kMaxTransferBytes")
  case True
  then show ?thesis
  proof (cases "n \<le> length (stream k)")
    case enough: True
    obtain k' where "recvAll k n = (k', take n (stream k), okStatus)"
      using recvAll_enough [of k n] True enough by blast
    then show ?thesis
      using True enough by simp
  next
    case False
    then have "\<not> status_ok (snd (snd (recv_loop n (sock_recvs k))))"
      using True recv_loop_short [of "sock_recvs k" n] by (simp add: stream_def)
    then show ?thesis
      using True False by (simp add: recvAll_def case_prod_unfold)
  qed
qed (auto simp: recvAll_def)

text \<open>Sending: what is handed over is a prefix of the data, and all of it when the status is ok.\<close>

lemma send_loop_prefix:
  "\<exists>rest. data = fst (send_loop as data) @ rest \<and> (status_ok (snd (snd (send_loop as data))) \<longrightarrow> rest = [])"
proof (induction as data rule: send_loop.induct)
  case (3 n as b data)
  show ?case
  proof (cases "n = 0")
    case False
    obtain rest where "drop n (b # data) = fst (send_loop as (drop n (b # data))) @ rest"
      "status_ok (snd (snd (send_loop as (drop n (b # data))))) \<longrightarrow> rest = []"
      using 3 [OF False] by blast
    then have "b # data = (take n (b # data) @ fst (send_loop as (drop n (b # data)))) @ rest"
      by (metis append_assoc append_take_drop_id)
    then show ?thesis
      using False \<open>_ \<longrightarrow> rest = []\<close> by (intro exI [of _ rest]) (simp add: case_prod_unfold)
  qed simp
qed (simp_all add: socketFailure_def)

lemma sendAll_prefix:
  obtains out rest where "sock_sent (fst (sendAll k data)) = sock_sent k @ out" "data = out @ rest"
    "status_ok (snd (sendAll k data)) \<longrightarrow> rest = []"
proof (cases "sock_valid k \<and> length data \<le> kMaxTransferBytes")
  case True
  obtain rest where "data = fst (send_loop (sock_sends k) data) @ rest"
    "status_ok (snd (snd (send_loop (sock_sends k) data))) \<longrightarrow> rest = []"
    using send_loop_prefix by blast
  then show ?thesis
    using True that [of "fst (send_loop (sock_sends k) data)" rest] by (simp add: sendAll_def case_prod_unfold)
next
  case False
  then show ?thesis
    using that [of "[]" data] by (auto simp: sendAll_def)
qed

lemma sendAll_fields [simp]:
  "sock_valid (fst (sendAll k data)) = sock_valid k" "sock_recvs (fst (sendAll k data)) = sock_recvs k"
  "stream (fst (sendAll k data)) = stream k"
  by (auto simp: sendAll_def stream_def case_prod_unfold)

end
