(* ===== verification/Protocol.thy ===== *)
theory Protocol
  imports Transport
begin

text \<open>
  The wire format of \<open>protocol.cpp\<close>: the operation codes, the frames, and the argument records of the
  operations. A frame that is sent in full arrives as the same frame, whatever the segments; a
  frame whose magic, version, operation, length or checksum is wrong is refused before its payload
  is used.
\<close>

section \<open>Operation codes\<close>

datatype OpCode =
    OpPing | OpDescribe | OpRegisterGrid | OpRegisterSpan | OpRegisterPort | OpRegisterDomain
  | OpRegisterExclusionDomain | OpPublishCapability | OpEnumerate | OpExplain | OpAllocate | OpRenew
  | OpActivate | OpDeactivate | OpRelease | OpExpireLeases | OpReclaimExpired | OpQueryReservation
  | OpQueryReservations | OpQueryUsage | OpQueryUsageAll | OpQueryAudit | OpQueryStats | OpSave
  | OpReset | OpShutdown

definition opCodes :: "(OpCode \<times> 16 word) list" where
  "opCodes = [(OpPing, 1), (OpDescribe, 2), (OpRegisterGrid, 10), (OpRegisterSpan, 11),
     (OpRegisterPort, 12), (OpRegisterDomain, 13), (OpRegisterExclusionDomain, 14),
     (OpPublishCapability, 15), (OpEnumerate, 20), (OpExplain, 21), (OpAllocate, 22), (OpRenew, 23),
     (OpActivate, 24), (OpDeactivate, 25), (OpRelease, 26), (OpExpireLeases, 27),
     (OpReclaimExpired, 28), (OpQueryReservation, 30), (OpQueryReservations, 31),
     (OpQueryUsage, 32), (OpQueryUsageAll, 33), (OpQueryAudit, 34), (OpQueryStats, 35), (OpSave, 40),
     (OpReset, 41), (OpShutdown, 90)]"

definition op_value :: "OpCode \<Rightarrow> 16 word" where
  "op_value op = the (map_of opCodes op)"

definition opOf :: "16 word \<Rightarrow> OpCode option" where
  "opOf v = map_of (map (\<lambda>(op, c). (c, op)) opCodes) v"

definition knownOp :: "16 word \<Rightarrow> bool" where
  "knownOp v \<longleftrightarrow> opOf v \<noteq> None"

definition kOpCodeTokens :: "(OpCode \<times> string) list" where
  "kOpCodeTokens =
     [(OpPing, ''ping''), (OpDescribe, ''describe''), (OpRegisterGrid, ''register-grid''),
      (OpRegisterSpan, ''register-span''), (OpRegisterPort, ''register-port''),
      (OpRegisterDomain, ''register-domain''),
      (OpRegisterExclusionDomain, ''register-exclusion-domain''),
      (OpPublishCapability, ''publish-capability''), (OpEnumerate, ''enumerate''),
      (OpExplain, ''explain''), (OpAllocate, ''allocate''), (OpRenew, ''renew''),
      (OpActivate, ''activate''), (OpDeactivate, ''deactivate''), (OpRelease, ''release''),
      (OpExpireLeases, ''expire-leases''), (OpReclaimExpired, ''reclaim-expired''),
      (OpQueryReservation, ''query-reservation''), (OpQueryReservations, ''query-reservations''),
      (OpQueryUsage, ''query-usage''), (OpQueryUsageAll, ''query-usage-all''),
      (OpQueryAudit, ''query-audit''), (OpQueryStats, ''query-stats''), (OpSave, ''save''),
      (OpReset, ''reset''), (OpShutdown, ''shutdown'')]"

definition opCode_toToken :: "OpCode \<Rightarrow> string" where
  "opCode_toToken op = tokenOf op kOpCodeTokens ''unknown''"

interpretation opCode_tokens: token_table kOpCodeTokens
proof
  fix v :: OpCode
  show "v \<in> fst ` set kOpCodeTokens"
    by (cases v) (simp_all add: kOpCodeTokens_def)
  show "distinct (map fst kOpCodeTokens)"
    by (simp add: kOpCodeTokens_def)
  show "distinct (map snd kOpCodeTokens)"
    by (simp add: kOpCodeTokens_def)
qed

lemma opOf_value [simp]: "opOf (op_value op) = Some op"
  by (cases op) (simp_all add: opOf_def op_value_def opCodes_def)

lemma opOf_Some: "opOf v = Some op \<Longrightarrow> v = op_value op"
  by (auto simp: opOf_def op_value_def opCodes_def split: if_splits)

section \<open>Frames\<close>

record Frame =
  frame_op :: OpCode
  frame_requestId :: u64
  frame_payload :: "u8 list"

definition kFrameMagic :: u32 where "kFrameMagic = 0x5746314D"
definition kFrameHeaderBytes :: nat where "kFrameHeaderBytes = 24"
definition kProtocolVersion :: "16 word" where "kProtocolVersion = 2"
definition kMaxFramePayloadBytes :: nat where "kMaxFramePayloadBytes = 4194304"

definition msg_frame_bound :: "nat \<Rightarrow> string" where
  "msg_frame_bound n = ''frame payload of '' @ nat_to_string n @ '' bytes exceeds the negotiated bound''"
definition msg_frame_truncated :: string where "msg_frame_truncated = ''frame header is truncated''"
definition msg_frame_magic :: string where "msg_frame_magic = ''frame magic does not match''"
definition msg_frame_version :: "16 word \<Rightarrow> string" where
  "msg_frame_version v = ''protocol version '' @ nat_to_string (unat v)
     @ '' is not supported by this build (expected '' @ nat_to_string (unat kProtocolVersion) @ '')''"
definition msg_frame_op :: string where "msg_frame_op = ''frame names an unknown operation''"
definition msg_frame_length :: string where "msg_frame_length = ''frame payload length is out of range''"
definition msg_frame_checksum :: string where "msg_frame_checksum = ''frame checksum does not match''"

definition frame_header :: "Frame \<Rightarrow> Writer" where
  "frame_header f = enc_seq
     [enc_u32 kFrameMagic, enc_u16 kProtocolVersion, enc_u16 (op_value (frame_op f)),
      enc_u64 (frame_requestId f), enc_u32 (word_of_nat (length (frame_payload f))),
      enc_u32 (crc32 (frame_payload f))]"

definition writeFrame :: "Socket \<Rightarrow> Frame \<Rightarrow> nat \<Rightarrow> Socket \<times> Status" where
  "writeFrame k f maxPayloadBytes =
     (if length (frame_payload f) > maxPayloadBytes \<or> length (frame_payload f) > kMaxFramePayloadBytes
      then (k, fail LimitExceeded (msg_frame_bound (length (frame_payload f))))
      else case sendAll k (enc_buffer (frame_header f new_encoder)) of (k1, sent) \<Rightarrow>
        if \<not> status_ok sent then (k1, sent)
        else if frame_payload f = [] then (k1, okStatus)
        else sendAll k1 (frame_payload f))"

record FrameHeader =
  fh_magic :: u32
  fh_version :: "16 word"
  fh_op :: "16 word"
  fh_requestId :: u64
  fh_length :: u32
  fh_checksum :: u32

definition frame_fields :: "FrameHeader Reader" where
  "frame_fields r = do {
     (magic, r) \<leftarrow> rd_u32 r;
     (version, r) \<leftarrow> rd_u16 r;
     (op, r) \<leftarrow> rd_u16 r;
     (requestId, r) \<leftarrow> rd_u64 r;
     (len, r) \<leftarrow> rd_u32 r;
     (checksum, r) \<leftarrow> rd_u32 r;
     Some (\<lparr>fh_magic = magic, fh_version = version, fh_op = op, fh_requestId = requestId,
       fh_length = len, fh_checksum = checksum\<rparr>, r)}"

definition readFrame :: "Socket \<Rightarrow> nat \<Rightarrow> Socket \<times> (Status + Frame)" where
  "readFrame k maxPayloadBytes =
     (case recvAll k kFrameHeaderBytes of (k1, header, received) \<Rightarrow>
        if \<not> status_ok received then (k1, Inl received)
        else (case frame_fields header of
            None \<Rightarrow> (k1, Inl (fail Corruption msg_frame_truncated))
          | Some (h, _) \<Rightarrow>
              if fh_magic h \<noteq> kFrameMagic then (k1, Inl (fail Corruption msg_frame_magic))
              else if fh_version h \<noteq> kProtocolVersion
              then (k1, Inl (fail Corruption (msg_frame_version (fh_version h))))
              else (case opOf (fh_op h) of
                  None \<Rightarrow> (k1, Inl (fail Corruption msg_frame_op))
                | Some op \<Rightarrow>
                    if unat (fh_length h) > maxPayloadBytes \<or> unat (fh_length h) > kMaxFramePayloadBytes
                    then (k1, Inl (fail Corruption msg_frame_length))
                    else
                      let (k2, payload, body) =
                        (if fh_length h > 0 then recvAll k1 (unat (fh_length h)) else (k1, [], okStatus))
                      in if \<not> status_ok body then (k2, Inl body)
                         else if crc32 payload \<noteq> fh_checksum h
                         then (k2, Inl (fail Corruption msg_frame_checksum))
                         else (k2, Inr \<lparr>frame_op = op, frame_requestId = fh_requestId h,
                           frame_payload = payload\<rparr>))))"

text \<open>The bytes of a frame.\<close>

definition frame_bytes :: "Frame \<Rightarrow> u8 list" where
  "frame_bytes f = le_bytes 4 kFrameMagic @ le_bytes 2 kProtocolVersion @ le_bytes 2 (op_value (frame_op f))
     @ le_bytes 8 (frame_requestId f) @ le_bytes 4 (word_of_nat (length (frame_payload f)) :: u32)
     @ le_bytes 4 (crc32 (frame_payload f)) @ frame_payload f"

definition frame_prefix :: "Frame \<Rightarrow> u8 list" where
  "frame_prefix f = le_bytes 4 kFrameMagic @ le_bytes 2 kProtocolVersion @ le_bytes 2 (op_value (frame_op f))
     @ le_bytes 8 (frame_requestId f) @ le_bytes 4 (word_of_nat (length (frame_payload f)) :: u32)
     @ le_bytes 4 (crc32 (frame_payload f))"

lemma frame_bytes_prefix: "frame_bytes f = frame_prefix f @ frame_payload f" "length (frame_prefix f) = 24"
  by (simp_all add: frame_bytes_def frame_prefix_def)

lemma frame_header_written: "enc_buffer (frame_header f new_encoder) = frame_prefix f"
proof -
  have "appends (frame_header f) (concat [le_bytes 4 kFrameMagic, le_bytes 2 kProtocolVersion,
      le_bytes 2 (op_value (frame_op f)), le_bytes 8 (frame_requestId f),
      le_bytes 4 (word_of_nat (length (frame_payload f)) :: u32), le_bytes 4 (crc32 (frame_payload f))])"
    unfolding frame_header_def
    by (rule appends_seq) (simp add: enc_u16_def enc_u32_def enc_u64_def appends_each)
  moreover have "fits (frame_header f) 24"
    unfolding frame_header_def by (rule fits_mono, (rule fits_steps)+) simp
  ultimately have "enc_buffer (frame_header f new_encoder) = enc_buffer new_encoder @ concat [le_bytes 4 kFrameMagic,
      le_bytes 2 kProtocolVersion, le_bytes 2 (op_value (frame_op f)), le_bytes 8 (frame_requestId f),
      le_bytes 4 (word_of_nat (length (frame_payload f)) :: u32), le_bytes 4 (crc32 (frame_payload f))]"
    using fits_payload [of "frame_header f" 24] unfolding appends_def by (simp add: kMaxBufferBytes_def)
  then show ?thesis
    by (simp add: frame_prefix_def new_encoder_def)
qed

text \<open>A frame that is written with an ok status has been handed over in full, and fits the bounds.\<close>

definition frame_fits :: "nat \<Rightarrow> Frame \<Rightarrow> bool" where
  "frame_fits m f \<longleftrightarrow> length (frame_payload f) \<le> m \<and> length (frame_payload f) \<le> kMaxFramePayloadBytes"

lemma writeFrame_sent:
  assumes "writeFrame k f m = (k', st)" and "status_ok st"
  shows "sock_sent k' = sock_sent k @ frame_bytes f" and "frame_fits m f"
    and "sock_valid k' = sock_valid k" and "stream k' = stream k"
proof -
  obtain k1 sent where s1: "sendAll k (frame_prefix f) = (k1, sent)"
    by fastforce
  have ok: "status_ok sent" "frame_fits m f"
    using assms s1 by (auto simp: writeFrame_def frame_header_written frame_fits_def split: if_splits)
  then have first: "sock_sent k1 = sock_sent k @ frame_prefix f" "sock_valid k1 = sock_valid k" "stream k1 = stream k"
    using sendAll_prefix [of k "frame_prefix f"] sendAll_fields [of k "frame_prefix f"]
    unfolding s1 by (metis append.right_neutral fst_conv snd_conv)+
  show "frame_fits m f"
    by (rule ok(2))
  show "sock_sent k' = sock_sent k @ frame_bytes f" "sock_valid k' = sock_valid k" "stream k' = stream k"
  proof -
    consider "frame_payload f = []" "k' = k1" | "sendAll k1 (frame_payload f) = (k', st)"
      using assms s1 ok by (auto simp: writeFrame_def frame_header_written split: if_splits)
    then have "sock_sent k' = sock_sent k @ frame_bytes f \<and> sock_valid k' = sock_valid k \<and> stream k' = stream k"
    proof cases
      case 1
      then show ?thesis
        using first by (simp add: frame_bytes_prefix)
    next
      case 2
      then have "sock_sent k' = sock_sent k1 @ frame_payload f" "sock_valid k' = sock_valid k1" "stream k' = stream k1"
        using sendAll_prefix [of k1 "frame_payload f"] sendAll_fields [of k1 "frame_payload f"] assms(2)
        by (metis append.right_neutral fst_conv snd_conv)+
      then show ?thesis
        using first by (simp add: frame_bytes_prefix)
    qed
    then show "sock_sent k' = sock_sent k @ frame_bytes f" "sock_valid k' = sock_valid k" "stream k' = stream k"
      by simp_all
  qed
qed

text \<open>The fields of a header determine its bytes, so reading is the inverse of writing in both directions.\<close>

lemma frame_fields_prefix:
  "frame_fields (frame_prefix f) = Some (\<lparr>fh_magic = kFrameMagic, fh_version = kProtocolVersion,
     fh_op = op_value (frame_op f), fh_requestId = frame_requestId f,
     fh_length = word_of_nat (length (frame_payload f)), fh_checksum = crc32 (frame_payload f)\<rparr>, [])"
  using rd_word_bytes(2) [of "crc32 (frame_payload f)" "[]"]
  by (simp add: frame_fields_def frame_prefix_def rd_word_bytes)

lemma rd_le_inverse:
  fixes v :: "'a::len word"
  assumes "rd_le (8 * k) n w r = Some (v, r')" and "take_bit (8 * k) w = w" and "8 * (k + n) \<le> LENGTH('a)"
  shows "take_bit (8 * k) v = w \<and> take_bit (8 * (k + n)) v = v
    \<and> r = map (\<lambda>i. ucast (drop_bit (8 * i) v)) [k..<k + n] @ r'"
  using assms
proof (induction n arbitrary: k w r)
  case (Suc n)
  obtain b s where b: "r = b # s" "rd_le (8 * Suc k) n (w OR push_bit (8 * k) (ucast b)) s = Some (v, r')"
    using Suc.prems(1) by (cases r) (auto simp: bind_eq_Some_conv algebra_simps)
  let ?w = "w OR push_bit (8 * k) (ucast b) :: 'a word"
  have w: "i < 8 * k" if "bit w i" for i
    using Suc.prems(2) that by (metis bit_take_bit_iff)
  have len: "8 * k + 8 \<le> LENGTH('a)"
    using Suc.prems(3) by simp
  have "take_bit (8 * Suc k) ?w = ?w"
    using len by (intro bit_word_eqI) (auto simp: bit_simps dest: bit_imp_le_length w)
  then have IH: "take_bit (8 * Suc k) v = ?w" "take_bit (8 * (Suc k + n)) v = v"
    "s = map (\<lambda>i. ucast (drop_bit (8 * i) v)) [Suc k..<Suc k + n] @ r'"
    using Suc.IH [OF b(2)] Suc.prems(3) by simp_all
  have low: "take_bit (8 * k) v = w"
  proof -
    have "take_bit (8 * k) v = take_bit (8 * k) (take_bit (8 * Suc k) v)"
      by simp
    also have "\<dots> = w"
      unfolding IH(1) by (intro bit_word_eqI) (auto simp: bit_simps dest: w)
    finally show ?thesis .
  qed
  have "ucast (drop_bit (8 * k) v) = b"
  proof (rule bit_word_eqI)
    fix i
    assume "i < LENGTH(8)"
    then have "bit v (8 * k + i) = bit (take_bit (8 * Suc k) v) (8 * k + i)"
      by (simp add: bit_simps)
    also have "\<dots> = bit b i"
      unfolding IH(1) using \<open>i < LENGTH(8)\<close> len by (auto simp: bit_simps dest: w)
    finally show "bit (ucast (drop_bit (8 * k) v) :: u8) i = bit b i"
      using \<open>i < LENGTH(8)\<close> by (simp add: bit_simps)
  qed
  moreover have "[k..<k + Suc n] = k # [Suc k..<Suc k + n]"
    by (simp add: upt_conv_Cons)
  ultimately show ?case
    using low IH(2,3) b(1) by (simp add: algebra_simps)
qed simp

lemma rd_word_inverse:
  "rd_u16 r = Some (a, r') \<Longrightarrow> r = le_bytes 2 a @ r'" "rd_u32 r = Some (b, r') \<Longrightarrow> r = le_bytes 4 b @ r'"
  "rd_u64 r = Some (c, r') \<Longrightarrow> r = le_bytes 8 c @ r'"
proof -
  show "r = le_bytes 4 b @ r'" if "rd_u32 r = Some (b, r')"
    using rd_le_inverse [of 0 4 0 r b r'] that by (simp add: rd_u32_def le_bytes_def)
  show "r = le_bytes 8 c @ r'" if "rd_u64 r = Some (c, r')"
    using rd_le_inverse [of 0 8 0 r c r'] that by (simp add: rd_u64_def le_bytes_def)
  show "r = le_bytes 2 a @ r'" if read: "rd_u16 r = Some (a, r')"
  proof -
    have "rd_u16 r = rd_le (8 * 0) 2 0 r"
      by (cases r; cases "tl r") (simp_all add: rd_u16_def numeral_2_eq_2)
    then show ?thesis
      using rd_le_inverse [of 0 2 0 r a r'] read by (simp add: le_bytes_def numeral_2_eq_2)
  qed
qed

lemma frame_length:
  "frame_fits m f \<Longrightarrow> unat (word_of_nat (length (frame_payload f)) :: u32) = length (frame_payload f)"
  by (simp add: frame_fits_def kMaxFramePayloadBytes_def unat_of_nat)

lemma readFrame_arrives:
  assumes "sock_valid k" and "stream k = frame_bytes f @ rest" and "frame_fits m f"
  obtains k' where "readFrame k m = (k', Inr f)" "sock_valid k'" "stream k' = rest"
    "sock_sends k' = sock_sends k" "sock_sent k' = sock_sent k"
proof -
  obtain k1 where k1: "recvAll k kFrameHeaderBytes = (k1, take 24 (stream k), okStatus)" "sock_valid k1"
    "stream k1 = drop 24 (stream k)" "sock_sends k1 = sock_sends k" "sock_sent k1 = sock_sent k"
    using recvAll_enough [OF assms(1), of kFrameHeaderBytes] assms(2)
    by (auto simp: kFrameHeaderBytes_def kMaxTransferBytes_def frame_bytes_prefix)
  have header: "take 24 (stream k) = frame_prefix f" and body: "stream k1 = frame_payload f @ rest"
    by (simp_all add: assms(2) k1(3) frame_bytes_prefix)
  note len = frame_length [OF assms(3)]
  show ?thesis
  proof (cases "frame_payload f = []")
    case True
    have "readFrame k m = (k1, Inr f)"
      using True by (simp add: readFrame_def k1(1) header frame_fields_prefix)
    then show ?thesis
      using that k1 body True by simp
  next
    case False
    have zero: "(0 :: u32) < word_of_nat (length (frame_payload f))"
      using len False by (simp add: word_less_nat_alt)
    have "length (frame_payload f) \<le> kMaxTransferBytes"
      using assms(3) by (simp add: frame_fits_def kMaxFramePayloadBytes_def kMaxTransferBytes_def)
    then obtain k2 where k2: "recvAll k1 (length (frame_payload f)) = (k2, frame_payload f, okStatus)" "sock_valid k2"
      "stream k2 = rest" "sock_sends k2 = sock_sends k1" "sock_sent k2 = sock_sent k1"
      using recvAll_enough [OF k1(2), of "length (frame_payload f)"] by (auto simp: body)
    have "readFrame k m = (k2, Inr f)"
      using zero assms(3) unfolding frame_fits_def
      by (simp add: readFrame_def k1(1) header frame_fields_prefix len k2(1))
    then show ?thesis
      using that k1 k2 by simp
  qed
qed

lemma recvAll_ok:
  assumes "recvAll k n = (k', data, st)" and "status_ok st"
  shows "stream k = data @ stream k'" and "length data = n" and "sock_valid k" and "sock_valid k'"
proof -
  have enough: "sock_valid k" "n \<le> length (stream k)" "n \<le> kMaxTransferBytes"
    using recvAll_status [of k n] assms by simp_all
  show "sock_valid k"
    by (rule enough(1))
  show "stream k = data @ stream k'" "length data = n" "sock_valid k'"
    by (rule recvAll_enough [OF enough], use assms(1) enough(2) in simp)+
qed

text \<open>Whatever bytes arrive, only the bytes of a frame are accepted as a frame.\<close>

lemma readFrame_accepts:
  assumes "readFrame k m = (k', Inr f)"
  shows "stream k = frame_bytes f @ stream k'" and "frame_fits m f" and "sock_valid k"
proof -
  obtain k1 header received where k1: "recvAll k kFrameHeaderBytes = (k1, header, received)"
    by (cases "recvAll k kFrameHeaderBytes")
  have ok: "status_ok received"
    using assms k1 by (auto simp: readFrame_def split: if_splits)
  note head = recvAll_ok [OF k1 ok]
  obtain h left where h: "frame_fields header = Some (h, left)"
    using assms k1 ok by (auto simp: readFrame_def split: option.splits)
  have bytes: "header = le_bytes 4 (fh_magic h) @ le_bytes 2 (fh_version h) @ le_bytes 2 (fh_op h)
      @ le_bytes 8 (fh_requestId h) @ le_bytes 4 (fh_length h) @ le_bytes 4 (fh_checksum h) @ left"
    using h by (auto simp: frame_fields_def bind_eq_Some_conv dest!: rd_word_inverse)
  then have left: "left = []"
    using head(2) by (simp add: kFrameHeaderBytes_def)
  have checks: "fh_magic h = kFrameMagic" "fh_version h = kProtocolVersion"
    using assms k1 ok h by (auto simp: readFrame_def split: if_splits)
  obtain op where op: "opOf (fh_op h) = Some op"
    using assms k1 ok h checks by (auto simp: readFrame_def split: option.splits)
  have bounds: "unat (fh_length h) \<le> m" "unat (fh_length h) \<le> kMaxFramePayloadBytes"
    using assms k1 ok h checks op by (auto simp: readFrame_def split: if_splits)
  obtain k2 payload body where k2:
    "(if fh_length h > 0 then recvAll k1 (unat (fh_length h)) else (k1, [], okStatus)) = (k2, payload, body)"
    by (cases "if fh_length h > 0 then recvAll k1 (unat (fh_length h)) else (k1, [], okStatus)")
  have tail: "status_ok body" "crc32 payload = fh_checksum h" "k' = k2"
    "f = \<lparr>frame_op = op, frame_requestId = fh_requestId h, frame_payload = payload\<rparr>"
    using assms k1 ok h checks op bounds k2 by (auto simp: readFrame_def split: if_splits)
  have payload: "length payload = unat (fh_length h)" "stream k1 = payload @ stream k2"
    using k2 tail(1) recvAll_ok [of k1 "unat (fh_length h)" k2 payload body]
    by (auto simp: word_gt_0 split: if_splits)
  then show "frame_fits m f"
    using bounds by (simp add: frame_fits_def tail(4))
  show "sock_valid k"
    by (rule head(3))
  have "fh_length h = word_of_nat (length payload)"
    by (simp add: payload(1))
  then show "stream k = frame_bytes f @ stream k'"
    using head(1) bytes left checks opOf_Some [OF op] tail(2-4) payload(2) by (simp add: frame_bytes_def)
qed

section \<open>Arguments\<close>

record RenewArgs =
  ren_id :: ReservationId
  ren_generation :: ReservationGeneration
  ren_extension :: Duration
  ren_authority :: ReservationAuthority
  ren_now :: Instant
  ren_maxRenewals :: nat

record ActivateArgs =
  act_id :: ReservationId
  act_generation :: ReservationGeneration
  act_authority :: ActivationAuthority
  act_now :: Instant

record ReleaseArgs =
  rel_id :: ReservationId
  rel_generation :: ReservationGeneration
  rel_authority :: ReleaseAuthority
  rel_now :: Instant

record SweepArgs =
  swp_now :: Instant

record AuditArgs =
  qry_since :: AuditSequence
  qry_limit :: nat

text \<open>The generation of a token travels next to its fence.\<close>

definition writeRenewArgs :: "RenewArgs \<Rightarrow> Writer" where
  "writeRenewArgs v = enc_seq
     [enc_id (ren_id v),
      enc_id (ren_generation v),
      enc_i64 (ren_extension v),
      enc_id (tok_generation (ren_authority v)),
      encode_fence (tok_fence (ren_authority v)),
      enc_i64 (ren_now v),
      enc_nat32 (ren_maxRenewals v)]"

definition readRenewArgs :: "RenewArgs Reader" where
  "readRenewArgs r = do {
     (id, r) \<leftarrow> rd_id r;
     (generation, r) \<leftarrow> rd_id r;
     (extension, r) \<leftarrow> rd_i64 r;
     (authority, r) \<leftarrow> rd_id r;
     (fence, r) \<leftarrow> decode_fence r;
     (now, r) \<leftarrow> rd_i64 r;
     (maxRenewals, r) \<leftarrow> rd_nat32 r;
     if extension \<le> 0 \<or> now < 0
     then None
     else Some (\<lparr>ren_id = id, ren_generation = generation, ren_extension = extension,
       ren_authority = \<lparr>tok_generation = authority, tok_fence = fence\<rparr>, ren_now = now,
       ren_maxRenewals = maxRenewals\<rparr>, r)}"

definition storable_renewArgs :: "RenewArgs \<Rightarrow> bool" where
  "storable_renewArgs v \<longleftrightarrow> 0 < ren_extension v \<and> is_i64 (ren_extension v) \<and> storable_instant (ren_now v)
     \<and> storable_fence (tok_fence (ren_authority v)) \<and> is_u32 (ren_maxRenewals v)"

interpretation renew_args: codec writeRenewArgs readRenewArgs storable_renewArgs
proof unfold_locales
  fix v
  assume ok: "storable_renewArgs v"
  show "codes (writeRenewArgs v) readRenewArgs v"
    unfolding writeRenewArgs_def readRenewArgs_def [abs_def]
    by (rule fences.coded codes_steps | (insert ok, auto simp: storable_renewArgs_def u32_bounds i64_bounds label_bound storable_instant_def; fail)[1])+
qed

definition writeActivateArgs :: "ActivateArgs \<Rightarrow> Writer" where
  "writeActivateArgs v = enc_seq
     [enc_id (act_id v),
      enc_id (act_generation v),
      enc_id (tok_generation (act_authority v)),
      encode_fence (tok_fence (act_authority v)),
      enc_i64 (act_now v)]"

definition readActivateArgs :: "ActivateArgs Reader" where
  "readActivateArgs r = do {
     (id, r) \<leftarrow> rd_id r;
     (generation, r) \<leftarrow> rd_id r;
     (authority, r) \<leftarrow> rd_id r;
     (fence, r) \<leftarrow> decode_fence r;
     (now, r) \<leftarrow> rd_i64 r;
     if now < 0
     then None
     else Some (\<lparr>act_id = id, act_generation = generation,
       act_authority = \<lparr>tok_generation = authority, tok_fence = fence\<rparr>, act_now = now\<rparr>, r)}"

definition storable_activateArgs :: "ActivateArgs \<Rightarrow> bool" where
  "storable_activateArgs v \<longleftrightarrow> storable_instant (act_now v) \<and> storable_fence (tok_fence (act_authority v))"

interpretation activate_args: codec writeActivateArgs readActivateArgs storable_activateArgs
proof unfold_locales
  fix v
  assume ok: "storable_activateArgs v"
  show "codes (writeActivateArgs v) readActivateArgs v"
    unfolding writeActivateArgs_def readActivateArgs_def [abs_def]
    by (rule fences.coded codes_steps | (insert ok, auto simp: storable_activateArgs_def u32_bounds i64_bounds label_bound storable_instant_def; fail)[1])+
qed

definition writeReleaseArgs :: "ReleaseArgs \<Rightarrow> Writer" where
  "writeReleaseArgs v = enc_seq
     [enc_id (rel_id v),
      enc_id (rel_generation v),
      enc_id (tok_generation (rel_authority v)),
      encode_fence (tok_fence (rel_authority v)),
      enc_i64 (rel_now v)]"

definition readReleaseArgs :: "ReleaseArgs Reader" where
  "readReleaseArgs r = do {
     (id, r) \<leftarrow> rd_id r;
     (generation, r) \<leftarrow> rd_id r;
     (authority, r) \<leftarrow> rd_id r;
     (fence, r) \<leftarrow> decode_fence r;
     (now, r) \<leftarrow> rd_i64 r;
     if now < 0
     then None
     else Some (\<lparr>rel_id = id, rel_generation = generation,
       rel_authority = \<lparr>tok_generation = authority, tok_fence = fence\<rparr>, rel_now = now\<rparr>, r)}"

definition storable_releaseArgs :: "ReleaseArgs \<Rightarrow> bool" where
  "storable_releaseArgs v \<longleftrightarrow> storable_instant (rel_now v) \<and> storable_fence (tok_fence (rel_authority v))"

interpretation release_args: codec writeReleaseArgs readReleaseArgs storable_releaseArgs
proof unfold_locales
  fix v
  assume ok: "storable_releaseArgs v"
  show "codes (writeReleaseArgs v) readReleaseArgs v"
    unfolding writeReleaseArgs_def readReleaseArgs_def [abs_def]
    by (rule fences.coded codes_steps | (insert ok, auto simp: storable_releaseArgs_def u32_bounds i64_bounds label_bound storable_instant_def; fail)[1])+
qed

definition writeSweepArgs :: "SweepArgs \<Rightarrow> Writer" where
  "writeSweepArgs v = enc_seq
     [enc_i64 (swp_now v)]"

definition readSweepArgs :: "SweepArgs Reader" where
  "readSweepArgs r = do {
     (now, r) \<leftarrow> rd_i64 r;
     if now < 0
     then None
     else Some (\<lparr>swp_now = now\<rparr>, r)}"

definition storable_sweepArgs :: "SweepArgs \<Rightarrow> bool" where
  "storable_sweepArgs v \<longleftrightarrow> storable_instant (swp_now v)"

interpretation sweep_args: codec writeSweepArgs readSweepArgs storable_sweepArgs
proof unfold_locales
  fix v
  assume ok: "storable_sweepArgs v"
  show "codes (writeSweepArgs v) readSweepArgs v"
    unfolding writeSweepArgs_def readSweepArgs_def [abs_def]
    by (rule codes_steps | (insert ok, auto simp: storable_sweepArgs_def u32_bounds i64_bounds label_bound storable_instant_def; fail)[1])+
qed

definition writeAuditArgs :: "AuditArgs \<Rightarrow> Writer" where
  "writeAuditArgs v = enc_seq
     [enc_id (qry_since v),
      enc_nat32 (qry_limit v)]"

definition readAuditArgs :: "AuditArgs Reader" where
  "readAuditArgs r = do {
     (since, r) \<leftarrow> rd_id r;
     (limit, r) \<leftarrow> rd_nat32 r;
     Some (\<lparr>qry_since = since, qry_limit = limit\<rparr>, r)}"

definition storable_auditArgs :: "AuditArgs \<Rightarrow> bool" where
  "storable_auditArgs v \<longleftrightarrow> is_u32 (qry_limit v)"

interpretation audit_args: codec writeAuditArgs readAuditArgs storable_auditArgs
proof unfold_locales
  fix v
  assume ok: "storable_auditArgs v"
  show "codes (writeAuditArgs v) readAuditArgs v"
    unfolding writeAuditArgs_def readAuditArgs_def [abs_def]
    by (rule codes_steps | (insert ok, auto simp: storable_auditArgs_def u32_bounds i64_bounds label_bound; fail)[1])+
qed

section \<open>Statistics and descriptions\<close>

definition writeStats :: "RuntimeStats \<Rightarrow> Writer" where
  "writeStats v = enc_seq
     [enc_u64 (st_allocationsCommitted v),
      enc_u64 (st_allocationsRefused v),
      enc_u64 (st_candidatesEvaluated v),
      enc_u64 (st_enumerationTruncations v),
      enc_u64 (st_renewals v),
      enc_u64 (st_releases v),
      enc_u64 (st_activations v),
      enc_u64 (st_deactivations v),
      enc_u64 (st_expirationSweeps v),
      enc_u64 (st_reclamations v),
      enc_u64 (st_persistenceWrites v),
      enc_u64 (st_persistenceFailures v),
      enc_u64 (st_replayRejections v),
      enc_u64 (st_corruptionDetections v)]"

definition readStats :: "RuntimeStats Reader" where
  "readStats r = do {
     (allocationsCommitted, r) \<leftarrow> rd_u64 r;
     (allocationsRefused, r) \<leftarrow> rd_u64 r;
     (candidatesEvaluated, r) \<leftarrow> rd_u64 r;
     (enumerationTruncations, r) \<leftarrow> rd_u64 r;
     (renewals, r) \<leftarrow> rd_u64 r;
     (releases, r) \<leftarrow> rd_u64 r;
     (activations, r) \<leftarrow> rd_u64 r;
     (deactivations, r) \<leftarrow> rd_u64 r;
     (expirationSweeps, r) \<leftarrow> rd_u64 r;
     (reclamations, r) \<leftarrow> rd_u64 r;
     (persistenceWrites, r) \<leftarrow> rd_u64 r;
     (persistenceFailures, r) \<leftarrow> rd_u64 r;
     (replayRejections, r) \<leftarrow> rd_u64 r;
     (corruptionDetections, r) \<leftarrow> rd_u64 r;
     Some (\<lparr>st_allocationsCommitted = allocationsCommitted, st_allocationsRefused = allocationsRefused,
       st_candidatesEvaluated = candidatesEvaluated, st_enumerationTruncations = enumerationTruncations,
       st_renewals = renewals, st_releases = releases,
       st_activations = activations, st_deactivations = deactivations,
       st_expirationSweeps = expirationSweeps, st_reclamations = reclamations,
       st_persistenceWrites = persistenceWrites, st_persistenceFailures = persistenceFailures,
       st_replayRejections = replayRejections, st_corruptionDetections = corruptionDetections\<rparr>, r)}"

interpretation stats: codec writeStats readStats "\<lambda>v. True"
proof unfold_locales
  fix v
  show "codes (writeStats v) readStats v"
    unfolding writeStats_def readStats_def [abs_def]
    by (rule codes_steps | (simp; fail)[1])+
qed

record ServerDescription =
  srv_fence :: ControllerFence
  srv_runtimeGeneration :: RuntimeGeneration
  srv_recoveryGeneration :: RecoveryGeneration
  srv_grids :: nat
  srv_domains :: nat
  srv_exclusionDomains :: nat
  srv_capabilities :: nat
  srv_reservations :: nat
  srv_auditRecords :: nat
  srv_lastAudit :: AuditSequence
  srv_stats :: RuntimeStats

definition kMaxDescriptionCount :: nat where "kMaxDescriptionCount = 1048576"

definition enc_size :: "nat \<Rightarrow> Writer" where "enc_size n = enc_u64 (word_of_nat n)"

definition rd_size :: "nat Reader" where
  "rd_size r = do { (v, r) \<leftarrow> rd_u64 r; Some (unat v, r) }"

lemma codes_size: "n \<le> kMaxDescriptionCount \<Longrightarrow> codes (enc_size n) rd_size n"
proof -
  assume "n \<le> kMaxDescriptionCount"
  then have "unat (word_of_nat n :: u64) = n"
    by (simp add: kMaxDescriptionCount_def unat_of_nat)
  then have "codes (enc_size n) (\<lambda>r. Option.bind (rd_u64 r) (\<lambda>(x, r). Some (unat x, r))) n"
    unfolding enc_size_def by (intro codes_last [OF codes_u64]) (simp add: comp_def)
  then show ?thesis
    by (simp add: rd_size_def [abs_def])
qed

definition writeDescription :: "ServerDescription \<Rightarrow> Writer" where
  "writeDescription v = enc_seq
     [encode_fence (srv_fence v),
      enc_id (srv_runtimeGeneration v),
      enc_id (srv_recoveryGeneration v),
      enc_size (srv_grids v),
      enc_size (srv_domains v),
      enc_size (srv_exclusionDomains v),
      enc_size (srv_capabilities v),
      enc_size (srv_reservations v),
      enc_size (srv_auditRecords v),
      enc_id (srv_lastAudit v),
      writeStats (srv_stats v)]"

definition readDescription :: "ServerDescription Reader" where
  "readDescription r = do {
     (fence, r) \<leftarrow> decode_fence r;
     (runtimeGeneration, r) \<leftarrow> rd_id r;
     (recoveryGeneration, r) \<leftarrow> rd_id r;
     (grids, r) \<leftarrow> rd_size r;
     (domains, r) \<leftarrow> rd_size r;
     (exclusionDomains, r) \<leftarrow> rd_size r;
     (capabilities, r) \<leftarrow> rd_size r;
     (reservations, r) \<leftarrow> rd_size r;
     (auditRecords, r) \<leftarrow> rd_size r;
     (lastAudit, r) \<leftarrow> rd_id r;
     (stats, r) \<leftarrow> readStats r;
     if grids > kMaxDescriptionCount \<or> domains > kMaxDescriptionCount \<or> exclusionDomains > kMaxDescriptionCount
       \<or> capabilities > kMaxDescriptionCount \<or> reservations > kMaxDescriptionCount \<or> auditRecords > kMaxDescriptionCount
     then None
     else Some (\<lparr>srv_fence = fence, srv_runtimeGeneration = runtimeGeneration, srv_recoveryGeneration = recoveryGeneration,
       srv_grids = grids, srv_domains = domains, srv_exclusionDomains = exclusionDomains,
       srv_capabilities = capabilities, srv_reservations = reservations, srv_auditRecords = auditRecords,
       srv_lastAudit = lastAudit, srv_stats = stats\<rparr>, r)}"

definition storable_description :: "ServerDescription \<Rightarrow> bool" where
  "storable_description v \<longleftrightarrow> storable_fence (srv_fence v) \<and> srv_grids v \<le> kMaxDescriptionCount \<and> srv_domains v \<le> kMaxDescriptionCount
     \<and> srv_exclusionDomains v \<le> kMaxDescriptionCount \<and> srv_capabilities v \<le> kMaxDescriptionCount
     \<and> srv_reservations v \<le> kMaxDescriptionCount \<and> srv_auditRecords v \<le> kMaxDescriptionCount"

interpretation descriptions: codec writeDescription readDescription storable_description
proof unfold_locales
  fix v
  assume ok: "storable_description v"
  show "codes (writeDescription v) readDescription v"
    unfolding writeDescription_def readDescription_def [abs_def]
    by (rule fences.coded stats.coded [OF TrueI] codes_size codes_steps | (insert ok, auto simp: storable_description_def u32_bounds i64_bounds label_bound; fail)[1])+
qed

section \<open>Lists and envelopes\<close>

definition kMaxReservationListBytes :: nat where "kMaxReservationListBytes = 4096"
definition kMaxUsageList :: nat where "kMaxUsageList = 1048576"
definition kMaxAuditList :: nat where "kMaxAuditList = 1048576"

definition writeList :: "('a \<Rightarrow> Writer) \<Rightarrow> 'a list \<Rightarrow> Writer" where
  "writeList one xs e = fold one xs (enc_u32 (word_of_nat (length xs)) e)"

definition readList :: "nat \<Rightarrow> 'a Reader \<Rightarrow> 'a list Reader" where
  "readList maxCount one r = do {
     (n, r) \<leftarrow> rd_u32 r;
     if unat n > maxCount then None else rd_times (unat n) one r}"

lemma list_vector: "readList = decodeVector"
  "length xs \<le> kMaxCollectionCount \<Longrightarrow> writeList one xs = encodeVector one xs"
  by (intro ext, simp add: readList_def decodeVector_def, intro ext, simp add: writeList_def encodeVector_def)

lemma codes_list:
  assumes "\<And>x. x \<in> set xs \<Longrightarrow> codes (wr x) rd x" and "length xs \<le> maxCount" and "maxCount \<le> kMaxCollectionCount"
  shows "codes (writeList wr xs) (readList maxCount rd) xs"
  using codes_vector [OF assms] assms(2,3) by (simp add: list_vector)

text \<open>A reply starts with the status of the operation; the data follows as it is.\<close>

definition envelope :: "Status \<Rightarrow> u8 list \<Rightarrow> u8 list" where
  "envelope status data = payload_of (encode_status status) @ data"

lemma fits_status: "storable_status v \<Longrightarrow> fits (encode_status v) 4101"
  unfolding encode_status_def storable_status_def kMaxStatusMessageBytes_def
  by (rule fits_mono, (rule fits_steps fits_string | assumption | (simp add: kMaxEncodedStringBytes_def; fail))+)

lemma decode_envelope:
  assumes "storable_status status"
  shows "decode_status (envelope status data) = Some (status, data)"
proof -
  obtain bs where bs: "appends (encode_status status) bs" "\<And>rest. decode_status (bs @ rest) = Some (status, rest)"
    using statuses.coded [OF assms] unfolding codes_def by blast
  have "payload_of (encode_status status) = bs"
    using fits_payload [OF fits_status [OF assms]] bs(1)
    by (simp add: payload_of_def appends_def new_encoder_def kMaxBufferBytes_def)
  then show ?thesis
    by (simp add: envelope_def bs(2))
qed

end
