(* ===== verification/Candidates.thy ===== *)
theory Candidates
  imports Runtime_State
begin

text \<open>
  \<open>runtime_candidates.cpp\<close>, first half: preparing the domains of a request, mapping frequency
  ranges onto the request grid, the ownership scan of one domain with its exclusion siblings, and
  the evaluation of one candidate placement. The central lemma is that a candidate found eligible
  conflicts with no reservation that is live on any spanned domain or on any of its exclusion
  siblings.
\<close>

section \<open>Slot mapping\<close>

definition kMaxBlockedIntervals :: nat where "kMaxBlockedIntervals = 262144"
definition kMaxDiagnosticCandidates :: nat where "kMaxDiagnosticCandidates = 8"

definition clamp_slot :: "ChannelGrid \<Rightarrow> int \<Rightarrow> int" where
  "clamp_slot g v =
     (let v' = (if v < 0 then 0 else v)
      in if v' > int (slotCount g) then int (slotCount g) else v')"

definition innerSlotRange :: "ChannelGrid \<Rightarrow> FrequencyRange \<Rightarrow> SlotRange option" where
  "innerSlotRange g r =
     (if freq_empty r \<or> slotWidthMhz g \<le> 0 then None
      else (case subOverflow (lowMhz r) (anchorMhz g) of
              None \<Rightarrow> None
            | Some lo \<Rightarrow>
                (case subOverflow (highMhz r) (anchorMhz g) of
                   None \<Rightarrow> None
                 | Some hi \<Rightarrow>
                     let f = clamp_slot g (ceilDiv lo (slotWidthMhz g));
                         l = clamp_slot g (floorDiv hi (slotWidthMhz g))
                     in if l \<le> f then None else Some (slotRange (nat f) (nat (l - f))))))"

definition outerSlotRange :: "ChannelGrid \<Rightarrow> FrequencyRange \<Rightarrow> SlotRange option" where
  "outerSlotRange g r =
     (if freq_empty r \<or> slotWidthMhz g \<le> 0 then None
      else (case subOverflow (lowMhz r) (anchorMhz g) of
              None \<Rightarrow> None
            | Some lo \<Rightarrow>
                (case subOverflow (highMhz r) (anchorMhz g) of
                   None \<Rightarrow> None
                 | Some hi \<Rightarrow>
                     let f = clamp_slot g (floorDiv lo (slotWidthMhz g));
                         l = clamp_slot g (ceilDiv hi (slotWidthMhz g))
                     in if l \<le> f then None else Some (slotRange (nat f) (nat (l - f))))))"

definition containsFrequency :: "FrequencyRange list \<Rightarrow> FrequencyRange \<Rightarrow> bool" where
  "containsFrequency windows v =
     (if windows = [] then True else list_ex (\<lambda>w. freq_contains w v) windows)"

section \<open>Preparation\<close>

record DomainContext =
  ctx_id :: SpectrumDomainId
  ctx_generation :: SpectrumDomainGeneration
  ctx_grid :: ChannelGrid
  ctx_capability :: SpectrumCapability
  ctx_conversionRequired :: bool
  ctx_requiresContiguity :: bool

text \<open>A refusal of the preparation: its outcome and its status, whose message is the reason.\<close>

type_synonym Refusal = "AllocationOutcome \<times> Status"

definition t_grid :: "ChannelGridId \<Rightarrow> string" where "t_grid i = typedToken ''grid'' i"
definition t_domain :: "SpectrumDomainId \<Rightarrow> string" where "t_domain i = typedToken ''domain'' i"
definition t_span :: "SpanId \<Rightarrow> string" where "t_span i = typedToken ''span'' i"
definition t_port :: "PortId \<Rightarrow> string" where "t_port i = typedToken ''port'' i"
definition t_exclusion :: "ExclusionDomainId \<Rightarrow> string" where
  "t_exclusion i = typedToken ''exclusion'' i"
definition t_reservation :: "ReservationId \<Rightarrow> string" where
  "t_reservation i = typedToken ''reservation'' i"
definition t_request :: "AllocationRequestId \<Rightarrow> string" where
  "t_request i = typedToken ''request'' i"

definition msg_grid_unregistered :: "ChannelGridId \<Rightarrow> string" where
  "msg_grid_unregistered g = ''grid '' @ t_grid g @ '' is not registered''"
definition msg_grid_stale :: "ChannelGridId \<Rightarrow> GridGeneration \<Rightarrow> GridGeneration \<Rightarrow> string" where
  "msg_grid_stale g cur req = ''grid '' @ t_grid g @ '' is registered at generation ''
     @ raw_to_string cur @ '' but the request names generation '' @ raw_to_string req"
definition msg_grid_width :: "ChannelGridId \<Rightarrow> nat \<Rightarrow> string" where
  "msg_grid_width g n = ''grid '' @ t_grid g @ '' does not support a channel of ''
     @ nat_to_string n @ '' slot(s)''"
definition msg_domain_unregistered :: "SpectrumDomainId \<Rightarrow> string" where
  "msg_domain_unregistered d = ''domain '' @ t_domain d @ '' is not registered''"
definition msg_domain_stale ::
    "SpectrumDomainId \<Rightarrow> SpectrumDomainGeneration \<Rightarrow> SpectrumDomainGeneration \<Rightarrow> string" where
  "msg_domain_stale d cur req = ''domain '' @ t_domain d @ '' is registered at generation ''
     @ raw_to_string cur @ '' but the request names generation '' @ raw_to_string req"
definition msg_no_capability :: "SpectrumDomainId \<Rightarrow> string" where
  "msg_no_capability d = ''domain '' @ t_domain d @ '' has no registered spectrum capability''"
definition msg_capability_stale ::
    "SpectrumDomainId \<Rightarrow> SpectrumDomainGeneration \<Rightarrow> SpectrumDomainGeneration \<Rightarrow> string" where
  "msg_capability_stale d c cur = ''capability for domain '' @ t_domain d
     @ '' describes domain generation '' @ raw_to_string c @ '' but the domain is at generation ''
     @ raw_to_string cur"
definition msg_unsupported :: "SpectrumDomainId \<Rightarrow> string" where
  "msg_unsupported d = ''domain '' @ t_domain d
     @ '' is published as UNSUPPORTED for spectrum allocation''"
definition msg_unknown_capability :: "SpectrumDomainId \<Rightarrow> string" where
  "msg_unknown_capability d = ''domain '' @ t_domain d
     @ '' has no authoritative spectrum capability (UNKNOWN)''"
definition msg_domain_grid_missing :: "SpectrumDomainId \<Rightarrow> string" where
  "msg_domain_grid_missing d = ''domain '' @ t_domain d @ '' references an unregistered grid''"
definition msg_no_conversion :: "SpectrumDomainId \<Rightarrow> ChannelGridId \<Rightarrow> string" where
  "msg_no_conversion d g = ''domain '' @ t_domain d @ '' is on grid '' @ t_grid g
     @ '' but no conversion capability evidence was supplied; conversion is never assumed''"
definition msg_unknown_conflict :: "ReservationId \<Rightarrow> string" where
  "msg_unknown_conflict r = ''mustNotConflictWith references unknown reservation '' @ t_reservation r"

definition prepare_domain ::
    "RuntimeState \<Rightarrow> SpectrumRequest \<Rightarrow> SpectrumDomainId \<Rightarrow> SpectrumDomainGeneration \<Rightarrow>
     Refusal + DomainContext" where
  "prepare_domain s r d g =
     (case map_of (rs_domains s) d of
        None \<Rightarrow> Inl (RefusedUnknownDomain, fail NotFound (msg_domain_unregistered d))
      | Some domain \<Rightarrow>
          if dom_generation domain \<noteq> g
          then Inl (RefusedStaleGeneration,
                 fail StaleGeneration (msg_domain_stale d (dom_generation domain) g))
          else (case map_of (rs_capabilities s) d of
             None \<Rightarrow> Inl (RefusedUnknownCapability, fail NotFound (msg_no_capability d))
           | Some capability \<Rightarrow>
               if cap_domainGeneration capability \<noteq> dom_generation domain
               then Inl (RefusedStaleCapability, fail StaleGeneration
                      (msg_capability_stale d (cap_domainGeneration capability) (dom_generation domain)))
               else if cap_support capability = SupportUnsupported
               then Inl (RefusedUnsupported, fail Unsupported (msg_unsupported d))
               else if cap_support capability = SupportUnknown
               then Inl (RefusedUnknownCapability, fail Unknown (msg_unknown_capability d))
               else (case map_of (rs_grids s) (dom_grid domain) of
                  None \<Rightarrow> Inl (RefusedUnknownDomain, fail NotFound (msg_domain_grid_missing d))
                | Some grid \<Rightarrow>
                    Inr \<lparr>ctx_id = d, ctx_generation = dom_generation domain, ctx_grid = grid,
                      ctx_capability = capability,
                      ctx_conversionRequired = (grid_id grid \<noteq> req_grid r),
                      ctx_requiresContiguity =
                        (dom_requiresContiguity domain \<and> cap_contiguityEnforced capability)\<rparr>)))"

fun prepare_domains ::
    "RuntimeState \<Rightarrow> SpectrumRequest \<Rightarrow> (SpectrumDomainId \<times> SpectrumDomainGeneration) list \<Rightarrow>
     Refusal + DomainContext list" where
  "prepare_domains s r [] = Inr []"
| "prepare_domains s r ((d, g) # ds) =
     (case prepare_domain s r d g of
        Inl e \<Rightarrow> Inl e
      | Inr c \<Rightarrow> (case prepare_domains s r ds of Inl e \<Rightarrow> Inl e | Inr cs \<Rightarrow> Inr (c # cs)))"

definition conversion_evidenced :: "DomainContext \<Rightarrow> bool" where
  "conversion_evidenced c \<longleftrightarrow> cap_conversionSupported (ctx_capability c)
     \<and> evidence_usable (cap_conversionEvidence (ctx_capability c))"

definition prepare :: "RuntimeState \<Rightarrow> SpectrumRequest \<Rightarrow> Refusal + DomainContext list" where
  "prepare s r =
     (case map_of (rs_grids s) (req_grid r) of
        None \<Rightarrow> Inl (RefusedInvalidRequest, fail NotFound (msg_grid_unregistered (req_grid r)))
      | Some grid \<Rightarrow>
          if grid_generation grid \<noteq> req_gridGeneration r
          then Inl (RefusedStaleGeneration, fail StaleGeneration
                 (msg_grid_stale (req_grid r) (grid_generation grid) (req_gridGeneration r)))
          else if \<not> channelWidthSupported grid (req_slots r)
          then Inl (RefusedChannelWidth,
                 fail InvalidArgument (msg_grid_width (req_grid r) (req_slots r)))
          else (case prepare_domains s r (zip (req_domains r) (req_domainGenerations r)) of
             Inl e \<Rightarrow> Inl e
           | Inr contexts \<Rightarrow>
               (case (if list_ex ctx_conversionRequired contexts
                      then find (\<lambda>c. \<not> conversion_evidenced c) contexts else None) of
                  Some c \<Rightarrow> Inl (RefusedConversion,
                    fail NotPermitted (msg_no_conversion (ctx_id c) (grid_id (ctx_grid c))))
                | None \<Rightarrow>
                    (case find (\<lambda>i. map_of (rs_reservations s) i = None)
                            (con_mustNotConflictWith (req_constraints r)) of
                       Some i \<Rightarrow> Inl (RefusedConstraint, fail NotFound (msg_unknown_conflict i))
                     | None \<Rightarrow> Inr contexts))))"

section \<open>Ownership of one domain\<close>

text \<open>The live reservations indexed under one domain, looked up in the table.\<close>

definition live_on :: "RuntimeState \<Rightarrow> SpectrumDomainId \<Rightarrow> Instant \<Rightarrow> SpectrumReservation list" where
  "live_on s d now =
     filter (\<lambda>r. isLiveAt r now)
       (List.map_filter (\<lambda>i. map_of (rs_reservations s) i) (live_list (rs_liveByDomain s) d))"

definition max_guard :: "SpectrumReservation \<Rightarrow> int \<Rightarrow> int" where
  "max_guard r guard = (if res_guardBandMhz r > guard then res_guardBandMhz r else guard)"

record ScanState =
  scan_free :: bool
  scan_conflicts :: "ReservationId list"
  scan_exclusionHit :: bool

definition scan_reservation ::
    "FrequencyRange \<Rightarrow> int \<Rightarrow> int \<Rightarrow> ExclusionDomainId \<Rightarrow> SpectrumReservation \<Rightarrow> ScanState \<Rightarrow> ScanState" where
  "scan_reservation candidate requestGuard extraGuard exclusion r acc =
     (let guard = max_guard r requestGuard + extraGuard
      in if frequencyConflict candidate guard (res_frequency r) guard
         then \<lparr>scan_free = False,
               scan_conflicts = (if res_id r \<in> set (scan_conflicts acc) then scan_conflicts acc
                  else scan_conflicts acc @ [res_id r]),
               scan_exclusionHit = (if sv_valid exclusion then True else scan_exclusionHit acc)\<rparr>
         else acc)"

definition scan_domain ::
    "RuntimeState \<Rightarrow> FrequencyRange \<Rightarrow> int \<Rightarrow> Instant \<Rightarrow> SpectrumDomainId \<Rightarrow> int \<Rightarrow> ExclusionDomainId \<Rightarrow>
     ScanState \<Rightarrow> ScanState" where
  "scan_domain s candidate requestGuard now member extraGuard exclusion acc =
     fold (scan_reservation candidate requestGuard extraGuard exclusion) (live_on s member now) acc"

text \<open>The exclusion siblings of a domain, with the guard band and identity of the exclusion domain.\<close>

definition exclusion_list :: "RuntimeState \<Rightarrow> SpectrumDomainId \<Rightarrow> ExclusionDomainId list" where
  "exclusion_list s d = (case map_of (rs_domainExclusions s) d of None \<Rightarrow> [] | Some l \<Rightarrow> l)"

definition siblings ::
    "RuntimeState \<Rightarrow> SpectrumDomainId \<Rightarrow> (SpectrumDomainId \<times> int \<times> ExclusionDomainId) list" where
  "siblings s d =
     concat (map (\<lambda>x. case map_of (rs_exclusionDomains s) x of
         None \<Rightarrow> []
       | Some e \<Rightarrow> map (\<lambda>m. (m, exc_guardBandMhz e, x)) (filter (\<lambda>m. m \<noteq> d) (exc_members e)))
       (exclusion_list s d))"

definition crossDomainFree ::
    "RuntimeState \<Rightarrow> SpectrumDomainId \<Rightarrow> FrequencyRange \<Rightarrow> int \<Rightarrow> Instant \<Rightarrow> ScanState" where
  "crossDomainFree s d candidate requestGuard now =
     (let start = \<lparr>scan_free = True, scan_conflicts = [], scan_exclusionHit = False\<rparr>;
          own = scan_domain s candidate requestGuard now d 0 sv_none start;
          total = fold (\<lambda>(m, extra, x). scan_domain s candidate requestGuard now m extra x)
                    (siblings s d) own
      in total\<lparr>scan_conflicts := sort (scan_conflicts total)\<rparr>)"

section \<open>Evaluating one placement\<close>

definition classify :: "SpectrumCandidate \<Rightarrow> CandidateEligibility \<Rightarrow> string \<Rightarrow> SpectrumCandidate" where
  "classify c e detail =
     (if isEligible (cand_eligibility c) then c\<lparr>cand_eligibility := e, cand_detail := detail\<rparr> else c)"

definition msg_leaves_grid :: string where
  "msg_leaves_grid = ''slot range leaves the request grid''"
definition msg_unrepresentable :: string where
  "msg_unrepresentable = ''slot range frequency is not representable''"
definition msg_outside_windows :: string where
  "msg_outside_windows = ''candidate frequency range is outside every permitted frequency window''"
definition msg_excluded_slots :: string where
  "msg_excluded_slots = ''candidate overlaps an excluded slot range''"
definition msg_excluded_frequency :: string where
  "msg_excluded_frequency = ''candidate overlaps an excluded frequency range''"
definition msg_outside_tunable :: "SpectrumDomainId \<Rightarrow> string" where
  "msg_outside_tunable d = ''candidate is outside the tunable range of domain '' @ t_domain d"
definition msg_fragmented :: "SpectrumDomainId \<Rightarrow> string" where
  "msg_fragmented d = ''domain '' @ t_domain d @ '' permits a fragmented channel and the request ''
     @ ''permits fragmentation, but this runtime allocates a single contiguous slot range''"
definition msg_not_exact :: "SpectrumDomainId \<Rightarrow> ChannelGridId \<Rightarrow> string" where
  "msg_not_exact d g = ''domain '' @ t_domain d @ '' on grid '' @ t_grid g
     @ '' cannot represent the candidate exactly''"
definition msg_conversion_gap :: "SpectrumDomainId \<Rightarrow> string" where
  "msg_conversion_gap d = ''domain '' @ t_domain d
     @ '' cannot represent the candidate frequency window without a conversion gap''"
definition msg_mapped_unrepresentable :: "SpectrumDomainId \<Rightarrow> string" where
  "msg_mapped_unrepresentable d = ''domain '' @ t_domain d
     @ '' cannot express the mapped placement as a frequency range''"
definition msg_live_conflict :: "SpectrumDomainId \<Rightarrow> string" where
  "msg_live_conflict d = ''candidate conflicts with a live reservation on domain '' @ t_domain d"
definition msg_eligible :: string where "msg_eligible = ''eligible''"

text \<open>The first loop over the domains: tunability, contiguity and the mapping onto each grid.\<close>

fun place_domains ::
    "SpectrumRequest \<Rightarrow> nat \<Rightarrow> DomainContext list \<Rightarrow> SpectrumCandidate \<Rightarrow> SpectrumCandidate \<times> bool" where
  "place_domains r i [] c = (c, True)"
| "place_domains r i (x # xs) c =
     (if lowMhz (cand_frequency c) < cap_minTunableMhz (ctx_capability x)
         \<or> highMhz (cand_frequency c) > cap_maxTunableMhz (ctx_capability x)
      then (classify c IneligibleOutsideTunable (msg_outside_tunable (ctx_id x)), False)
      else if req_slots r > 1 \<and> req_contiguity r = ContiguityNotRequired \<and> \<not> ctx_requiresContiguity x
      then (classify c IneligibleContiguity (msg_fragmented (ctx_id x)), False)
      else if \<not> ctx_conversionRequired x
      then place_domains r (Suc i) xs
             (c\<lparr>cand_perDomainSlots := (cand_perDomainSlots c)[i := cand_slots c]\<rparr>)
      else
        let c' = c\<lparr>cand_crossGrid := True\<rparr>;
            refusal = (classify c' IneligibleConversionRequired
                        (msg_not_exact (ctx_id x) (grid_id (ctx_grid x))), False)
        in (case innerSlotRange (ctx_grid x) (cand_frequency c') of
              None \<Rightarrow> refusal
            | Some mapped \<Rightarrow>
                if \<not> channelWidthSupported (ctx_grid x) (slot_count mapped) then refusal
                else if frequencyOfSlotRange (ctx_grid x) mapped \<noteq> Some (cand_frequency c')
                then (classify c' IneligibleConversionRequired (msg_conversion_gap (ctx_id x)), False)
                else place_domains r (Suc i) xs
                       (c'\<lparr>cand_perDomainSlots := (cand_perDomainSlots c')[i := mapped]\<rparr>)))"

text \<open>The second loop: every spanned domain is checked against current ownership.\<close>

fun verify_domains ::
    "RuntimeState \<Rightarrow> SpectrumRequest \<Rightarrow> nat \<Rightarrow> DomainContext list \<Rightarrow> SpectrumCandidate \<Rightarrow>
     SpectrumCandidate \<times> bool" where
  "verify_domains s r i [] c = (c, True)"
| "verify_domains s r i (x # xs) c =
     (case (if ctx_conversionRequired x
            then frequencyOfSlotRange (ctx_grid x) (cand_perDomainSlots c ! i)
            else Some (cand_frequency c)) of
        None \<Rightarrow> (classify c IneligibleConversionRequired (msg_mapped_unrepresentable (ctx_id x)), False)
      | Some domainFrequency \<Rightarrow>
          let scan = crossDomainFree s (ctx_id x) domainFrequency (req_guardBandMhz r)
                       (req_requestedAt r)
          in if \<not> scan_free scan
             then (classify (c\<lparr>cand_conflicts := scan_conflicts scan\<rparr>)
                     (if scan_exclusionHit scan then IneligibleExcluded else IneligibleConflict)
                     (msg_live_conflict (ctx_id x)), False)
             else verify_domains s r (Suc i) xs c)"

definition evaluateCandidate ::
    "RuntimeState \<Rightarrow> SpectrumRequest \<Rightarrow> ChannelGrid \<Rightarrow> DomainContext list \<Rightarrow> nat \<Rightarrow>
     SpectrumCandidate \<Rightarrow> SpectrumCandidate" where
  "evaluateCandidate s r grid contexts start c0 =
     (let c = c0\<lparr>cand_slots := slotRange start (req_slots r)\<rparr>
      in if \<not> slotRangeInGrid grid (cand_slots c)
         then classify c IneligibleOutsideWindow msg_leaves_grid
         else (case frequencyOfSlotRange grid (cand_slots c) of
            None \<Rightarrow> classify c IneligibleOutsideWindow msg_unrepresentable
          | Some f \<Rightarrow>
              let c1 = c\<lparr>cand_frequency := f\<rparr>
              in if \<not> containsFrequency (req_frequencyWindows r) f
                 then classify c1 IneligibleOutsideWindow msg_outside_windows
                 else if list_ex (\<lambda>x. slot_overlaps x (cand_slots c1))
                           (con_excludedSlots (req_constraints r))
                 then classify c1 IneligibleExcluded msg_excluded_slots
                 else if list_ex (\<lambda>x. freq_overlaps x f) (con_excludedFrequencies (req_constraints r))
                 then classify c1 IneligibleExcluded msg_excluded_frequency
                 else
                   let (c2, placed) = place_domains r 0 contexts
                         (c1\<lparr>cand_perDomainSlots := replicate (length contexts) default_slots\<rparr>)
                   in if \<not> placed then c2
                      else let (c3, verified) = verify_domains s r 0 contexts c2
                           in if \<not> verified then c3
                              else c3\<lparr>cand_eligibility := Eligible, cand_detail := msg_eligible\<rparr>))"

section \<open>What the ownership scan decides\<close>

definition blocked_by :: "FrequencyRange \<Rightarrow> int \<Rightarrow> int \<Rightarrow> SpectrumReservation \<Rightarrow> bool" where
  "blocked_by f requestGuard extra r \<longleftrightarrow>
     frequencyConflict f (max_guard r requestGuard + extra) (res_frequency r)
       (max_guard r requestGuard + extra)"

lemma scan_reservation_free:
  "scan_free (scan_reservation f g x e r acc) \<longleftrightarrow> scan_free acc \<and> \<not> blocked_by f g x r"
  by (simp add: scan_reservation_def blocked_by_def Let_def)

lemma fold_scan_free:
  "scan_free (fold (scan_reservation f g x e) rs acc) \<longleftrightarrow>
     scan_free acc \<and> (\<forall>r \<in> set rs. \<not> blocked_by f g x r)"
  by (induction rs arbitrary: acc) (auto simp: scan_reservation_free)

lemma scan_domain_free:
  "scan_free (scan_domain s f g now m x e acc) \<longleftrightarrow>
     scan_free acc \<and> (\<forall>r \<in> set (live_on s m now). \<not> blocked_by f g x r)"
  by (simp add: scan_domain_def fold_scan_free)

lemma fold_siblings_free:
  "scan_free (fold (\<lambda>(m, x, e). scan_domain s f g now m x e) ms acc) \<longleftrightarrow>
     scan_free acc \<and> (\<forall>(m, x, e) \<in> set ms. \<forall>r \<in> set (live_on s m now). \<not> blocked_by f g x r)"
  by (induction ms arbitrary: acc) (auto simp: scan_domain_free)

lemma crossDomainFree_iff:
  "scan_free (crossDomainFree s d f g now) \<longleftrightarrow>
     (\<forall>r \<in> set (live_on s d now). \<not> blocked_by f g 0 r)
     \<and> (\<forall>(m, x, e) \<in> set (siblings s d). \<forall>r \<in> set (live_on s m now). \<not> blocked_by f g x r)"
  by (simp add: crossDomainFree_def Let_def fold_siblings_free scan_domain_free)

lemma scan_reservation_conflicts:
  "set (scan_conflicts (scan_reservation f g x e r acc)) =
     set (scan_conflicts acc) \<union> (if blocked_by f g x r then {res_id r} else {})"
  by (auto simp: scan_reservation_def blocked_by_def Let_def)

lemma fold_scan_conflicts:
  "set (scan_conflicts (fold (scan_reservation f g x e) rs acc)) =
     set (scan_conflicts acc) \<union> res_id ` {r \<in> set rs. blocked_by f g x r}"
  by (induction rs arbitrary: acc) (auto simp: scan_reservation_conflicts)

lemma fold_siblings_conflicts:
  "set (scan_conflicts (fold (\<lambda>(m, x, e). scan_domain s f g now m x e) ms acc)) =
     set (scan_conflicts acc)
     \<union> (\<Union>(m, x, e) \<in> set ms. res_id ` {r \<in> set (live_on s m now). blocked_by f g x r})"
  by (induction ms arbitrary: acc) (auto simp: scan_domain_def fold_scan_conflicts)

text \<open>The conflict list of a blocked candidate names exactly the blocking reservations, in order.\<close>

lemma crossDomainFree_conflicts:
  "set (scan_conflicts (crossDomainFree s d f g now)) =
     res_id ` {r \<in> set (live_on s d now). blocked_by f g 0 r}
     \<union> (\<Union>(m, x, e) \<in> set (siblings s d). res_id ` {r \<in> set (live_on s m now). blocked_by f g x r})"
  "sorted (scan_conflicts (crossDomainFree s d f g now))"
  by (simp_all add: crossDomainFree_def Let_def fold_siblings_conflicts scan_domain_def fold_scan_conflicts)

lemma set_map_filter: "y \<in> set (List.map_filter f xs) \<longleftrightarrow> (\<exists>x \<in> set xs. f x = Some y)"
  by (induction xs) (auto simp: map_filter_simps split: option.splits)

lemma live_on_iff:
  assumes "live_exact s"
  shows "r \<in> set (live_on s d now) \<longleftrightarrow>
     (\<exists>i. map_of (rs_reservations s) i = Some r) \<and> isLiveAt r now \<and> d \<in> set (res_domains r)"
proof -
  have "r \<in> set (live_on s d now) \<longleftrightarrow>
      (\<exists>i. owns s d i \<and> map_of (rs_reservations s) i = Some r) \<and> isLiveAt r now"
    using live_exactD [OF assms, of _ d] by (auto simp: live_on_def set_map_filter)
  also have "\<dots> \<longleftrightarrow> (\<exists>i. map_of (rs_reservations s) i = Some r) \<and> isLiveAt r now \<and> d \<in> set (res_domains r)"
    by (auto simp: owns_def isLiveAt_def)
  finally show ?thesis .
qed

section \<open>What eligibility guarantees\<close>

lemma classify_not_eligible:
  "e \<noteq> Eligible \<Longrightarrow> cand_eligibility (classify c e x) \<noteq> Eligible"
  by (simp add: classify_def isEligible_def)

lemma classify_fields [simp]:
  "cand_slots (classify c e x) = cand_slots c" "cand_frequency (classify c e x) = cand_frequency c"
  "cand_anchorDomain (classify c e x) = cand_anchorDomain c"
  "cand_ordinal (classify c e x) = cand_ordinal c"
  by (simp_all add: classify_def)

definition tunable_on :: "DomainContext \<Rightarrow> FrequencyRange \<Rightarrow> bool" where
  "tunable_on x f \<longleftrightarrow> cap_minTunableMhz (ctx_capability x) \<le> lowMhz f
     \<and> highMhz f \<le> cap_maxTunableMhz (ctx_capability x)"

text \<open>The resolved slots of a domain denote exactly the frequencies of the candidate.\<close>

definition resolved_on :: "DomainContext \<Rightarrow> SpectrumCandidate \<Rightarrow> SlotRange \<Rightarrow> bool" where
  "resolved_on x c sl \<longleftrightarrow>
     (if ctx_conversionRequired x then frequencyOfSlotRange (ctx_grid x) sl = Some (cand_frequency c)
      else sl = cand_slots c)"

text \<open>One iteration either refuses the candidate or records a resolved slot range and goes on.\<close>

lemma place_domains_step:
  assumes "place_domains r i (x # xs) c = (c', ok)"
  obtains (refused) e m where "\<not> ok" "e \<noteq> Eligible"
      "c' = classify c e m \<or> c' = classify (c\<lparr>cand_crossGrid := True\<rparr>) e m"
  | (placed) sl cross where "tunable_on x (cand_frequency c)" "resolved_on x c sl"
      "place_domains r (Suc i) xs
         (c\<lparr>cand_crossGrid := cross, cand_perDomainSlots := (cand_perDomainSlots c)[i := sl]\<rparr>) = (c', ok)"
proof (cases "tunable_on x (cand_frequency c)
    \<and> \<not> (req_slots r > 1 \<and> req_contiguity r = ContiguityNotRequired \<and> \<not> ctx_requiresContiguity x)")
  case False
  then show ?thesis
    using assms refused [of IneligibleOutsideTunable] refused [of IneligibleContiguity]
    by (auto simp: tunable_on_def not_le split: if_splits)
next
  case True
  then have tun: "tunable_on x (cand_frequency c)" by simp
  show ?thesis
  proof (cases "ctx_conversionRequired x")
    case False
    have "c\<lparr>cand_crossGrid := cand_crossGrid c, cand_perDomainSlots := l\<rparr> = c\<lparr>cand_perDomainSlots := l\<rparr>" for l
      by simp
    then show ?thesis
      using assms True False placed [OF tun, of "cand_slots c" "cand_crossGrid c"]
      by (auto simp: tunable_on_def resolved_on_def split: if_splits)
  next
    case conv: True
    show ?thesis
    proof (cases "innerSlotRange (ctx_grid x) (cand_frequency c)")
      case None
      then show ?thesis
        using assms True conv refused [of IneligibleConversionRequired]
        by (auto simp: tunable_on_def Let_def split: if_splits)
    next
      case (Some sl)
      then show ?thesis
        using assms True conv refused [of IneligibleConversionRequired] placed [OF tun, of sl True]
        by (auto simp: tunable_on_def resolved_on_def Let_def split: if_splits)
    qed
  qed
qed

lemma place_domains_frame:
  assumes "place_domains r i xs c = (c', ok)"
  shows "cand_slots c' = cand_slots c \<and> cand_frequency c' = cand_frequency c
    \<and> cand_anchorDomain c' = cand_anchorDomain c \<and> cand_ordinal c' = cand_ordinal c"
    and "if ok then cand_eligibility c' = cand_eligibility c
        \<and> length (cand_perDomainSlots c') = length (cand_perDomainSlots c)
        \<and> (\<forall>x \<in> set xs. tunable_on x (cand_frequency c))
        \<and> (\<forall>j < i. cand_perDomainSlots c' ! j = cand_perDomainSlots c ! j)
      else cand_eligibility c' \<noteq> Eligible"
  using assms
proof (induction xs arbitrary: i c)
  case Nil
  case 1
  then show ?case by simp
  case 2
  then show ?case by simp
next
  case (Cons x xs)
  {
    case 1
    then show ?case
    proof (cases rule: place_domains_step)
      case (refused e m)
      then show ?thesis by auto
    next
      case (placed sl cross)
      then show ?thesis using Cons.IH(1) [OF placed(3)] by simp
    qed
  next
    case 2
    then show ?case
    proof (cases rule: place_domains_step)
      case (refused e m)
      then show ?thesis using classify_not_eligible [OF refused(2)] by auto
    next
      case (placed sl cross)
      then show ?thesis using Cons.IH(2) [OF placed(3)] by auto
    qed
  }
qed

lemma place_domains_resolved:
  assumes "place_domains r i xs c = (c', True)" and "i + length xs \<le> length (cand_perDomainSlots c)"
    and "j < length xs"
  shows "resolved_on (xs ! j) c' (cand_perDomainSlots c' ! (i + j))"
  using assms
proof (induction xs arbitrary: i j c)
  case (Cons x xs)
  from Cons.prems(1) show ?case
  proof (cases rule: place_domains_step)
    case (placed sl cross)
    note frame = place_domains_frame [OF placed(3)]
    show ?thesis
    proof (cases j)
      case 0
      then show ?thesis
        using frame placed(2) Cons.prems(2) by (simp add: resolved_on_def)
    next
      case (Suc k)
      then show ?thesis
        using Cons.IH [OF placed(3), of k] Cons.prems(2,3) by simp
    qed
  qed simp
qed simp

lemma verify_domains_frame:
  assumes "verify_domains s r i xs c = (c', ok)"
  shows "cand_slots c' = cand_slots c" "cand_frequency c' = cand_frequency c"
    "cand_anchorDomain c' = cand_anchorDomain c" "cand_ordinal c' = cand_ordinal c"
    "\<not> ok \<Longrightarrow> cand_eligibility c' \<noteq> Eligible"
    "ok \<Longrightarrow> c' = c"
  using assms
  by (induction s r i xs c rule: verify_domains.induct)
    (auto simp: Let_def classify_not_eligible split: if_splits option.splits)

lemma verify_domains_free:
  assumes "verify_domains s r i xs c = (c', True)"
    and "\<And>j. j < length xs \<Longrightarrow> resolved_on (xs ! j) c (cand_perDomainSlots c ! (i + j))"
  shows "\<forall>x \<in> set xs. scan_free (crossDomainFree s (ctx_id x) (cand_frequency c)
           (req_guardBandMhz r) (req_requestedAt r))"
  using assms
proof (induction s r i xs c rule: verify_domains.induct)
  case (2 s r i x xs c)
  have fr: "(if ctx_conversionRequired x then frequencyOfSlotRange (ctx_grid x) (cand_perDomainSlots c ! i)
      else Some (cand_frequency c)) = Some (cand_frequency c)"
    using "2.prems"(2) [of 0] by (simp add: resolved_on_def)
  have head: "scan_free (crossDomainFree s (ctx_id x) (cand_frequency c) (req_guardBandMhz r) (req_requestedAt r))"
    and tail: "verify_domains s r (Suc i) xs c = (c', True)"
    using "2.prems"(1) fr by (auto simp: Let_def split: if_splits)
  have "resolved_on (xs ! j) c (cand_perDomainSlots c ! (Suc i + j))" if "j < length xs" for j
    using "2.prems"(2) [of "Suc j"] that by simp
  then show ?case
    using "2.IH" [OF fr refl _ tail] head by simp
qed simp

lemma evaluateCandidate_eligible:
  assumes "cand_eligibility (evaluateCandidate s r grid xs start c0) = Eligible"
  defines "c \<equiv> evaluateCandidate s r grid xs start c0"
  shows "cand_slots c = slotRange start (req_slots r)"
    and "slotRangeInGrid grid (cand_slots c)"
    and "frequencyOfSlotRange grid (cand_slots c) = Some (cand_frequency c)"
    and "containsFrequency (req_frequencyWindows r) (cand_frequency c)"
    and "\<forall>x \<in> set (con_excludedSlots (req_constraints r)). \<not> slot_overlaps x (cand_slots c)"
    and "\<forall>x \<in> set (con_excludedFrequencies (req_constraints r)). \<not> freq_overlaps x (cand_frequency c)"
    and "\<forall>x \<in> set xs. tunable_on x (cand_frequency c)"
    and "\<forall>x \<in> set xs. scan_free (crossDomainFree s (ctx_id x) (cand_frequency c)
           (req_guardBandMhz r) (req_requestedAt r))"
    and "length (cand_perDomainSlots c) = length xs"
    and "j < length xs \<Longrightarrow> resolved_on (xs ! j) c (cand_perDomainSlots c ! j)"
    and "cand_anchorDomain c = cand_anchorDomain c0"
proof -
  define b where "b = c0\<lparr>cand_slots := slotRange start (req_slots r)\<rparr>"
  have grid: "slotRangeInGrid grid (cand_slots b)"
    using assms(1) classify_not_eligible [of IneligibleOutsideWindow b]
    by (auto simp: evaluateCandidate_def b_def Let_def split: if_splits)
  obtain f where f: "frequencyOfSlotRange grid (cand_slots b) = Some f"
    using assms(1) grid classify_not_eligible [of IneligibleOutsideWindow b]
    by (auto simp: evaluateCandidate_def b_def Let_def split: option.splits)
  define b1 where "b1 = b\<lparr>cand_frequency := f\<rparr>"
  define b2 where "b2 = b1\<lparr>cand_perDomainSlots := replicate (length xs) default_slots\<rparr>"
  have windows: "containsFrequency (req_frequencyWindows r) f"
    and slots: "\<not> list_ex (\<lambda>x. slot_overlaps x (cand_slots b1)) (con_excludedSlots (req_constraints r))"
    and freqs: "\<not> list_ex (\<lambda>x. freq_overlaps x f) (con_excludedFrequencies (req_constraints r))"
    using assms(1) grid f classify_not_eligible [of IneligibleOutsideWindow b1]
      classify_not_eligible [of IneligibleExcluded b1]
    unfolding evaluateCandidate_def Let_def b_def [symmetric] option.case b1_def [symmetric]
    by (auto split: if_splits simp: f b1_def [symmetric])
  obtain c2 placed where p: "place_domains r 0 xs b2 = (c2, placed)" by fastforce
  obtain c3 verified where v: "verify_domains s r 0 xs c2 = (c3, verified)" by fastforce
  have eq: "evaluateCandidate s r grid xs start c0 =
      (if \<not> placed then c2 else if \<not> verified then c3
       else c3\<lparr>cand_eligibility := Eligible, cand_detail := msg_eligible\<rparr>)"
    unfolding evaluateCandidate_def Let_def b_def [symmetric]
    using grid f windows slots freqs p v by (simp add: b1_def [symmetric] b2_def [symmetric])
  have placed and verified
    using assms(1) eq place_domains_frame(2) [OF p] verify_domains_frame(5) [OF v] by (auto split: if_splits)
  then have c: "c = c3\<lparr>cand_eligibility := Eligible, cand_detail := msg_eligible\<rparr>" and c3: "c3 = c2"
    using eq verify_domains_frame(6) [OF v] by (simp_all add: c_def)
  note pf = place_domains_frame(1) [OF p] and pok = place_domains_frame(2) [OF p]
  have fields: "cand_slots c = cand_slots b" "cand_frequency c = f" "cand_anchorDomain c = cand_anchorDomain c0"
    "cand_perDomainSlots c = cand_perDomainSlots c2"
    using pf by (simp_all add: c c3 b2_def b1_def b_def)
  have resolved: "resolved_on (xs ! j) c2 (cand_perDomainSlots c2 ! (0 + j))" if "j < length xs" for j
    using place_domains_resolved [of r 0 xs b2 c2 j] p \<open>placed\<close> that by (simp add: b2_def)
  show "cand_slots c = slotRange start (req_slots r)" "slotRangeInGrid grid (cand_slots c)"
    "frequencyOfSlotRange grid (cand_slots c) = Some (cand_frequency c)"
    "containsFrequency (req_frequencyWindows r) (cand_frequency c)"
    "cand_anchorDomain c = cand_anchorDomain c0"
    using grid f windows fields by (simp_all add: b_def)
  show "\<forall>x \<in> set (con_excludedSlots (req_constraints r)). \<not> slot_overlaps x (cand_slots c)"
    "\<forall>x \<in> set (con_excludedFrequencies (req_constraints r)). \<not> freq_overlaps x (cand_frequency c)"
    using slots freqs fields by (simp_all add: list_ex_iff b1_def)
  show "\<forall>x \<in> set xs. tunable_on x (cand_frequency c)"
    using pok \<open>placed\<close> fields by (simp add: b2_def b1_def)
  show "\<forall>x \<in> set xs. scan_free (crossDomainFree s (ctx_id x) (cand_frequency c)
      (req_guardBandMhz r) (req_requestedAt r))"
    using verify_domains_free [of s r 0 xs c2 c3] v \<open>verified\<close> resolved fields pf
    by (simp add: b2_def b1_def)
  show "length (cand_perDomainSlots c) = length xs"
    using pok \<open>placed\<close> fields by (simp add: b2_def)
  show "resolved_on (xs ! j) c (cand_perDomainSlots c ! j)" if "j < length xs"
    using resolved [OF that] fields pf by (simp add: resolved_on_def b2_def b1_def)
qed

end
