(* ===== verification/Enumeration.thy ===== *)
theory Enumeration
  imports Candidates
begin

text \<open>
  \<open>runtime_candidates.cpp\<close>, second half: the search window, the blocking intervals, the free runs,
  the ordered candidate list and the full evaluation of a request. Nothing here changes the
  state: enumeration and evaluation are functions of the state and the request alone.
\<close>

section \<open>Evaluation record\<close>

record Evaluation =
  ev_outcome :: AllocationOutcome
  ev_reasons :: "string list"
  ev_rejected :: "SpectrumCandidate list"
  ev_conflicts :: "ReservationId list"
  ev_selected :: SpectrumCandidate
  ev_candidatesEnumerated :: nat
  ev_candidatesRejected :: nat
  ev_candidatesOmitted :: nat
  ev_candidateOrdinal :: nat
  ev_eligible :: bool
  ev_replay :: bool
  ev_replayValue :: SpectrumReservation

definition default_evaluation :: Evaluation where
  "default_evaluation =
     \<lparr>ev_outcome = OutcomeUnknown, ev_reasons = [], ev_rejected = [], ev_conflicts = [],
      ev_selected = default_candidate, ev_candidatesEnumerated = 0, ev_candidatesRejected = 0,
      ev_candidatesOmitted = 0, ev_candidateOrdinal = 0, ev_eligible = False, ev_replay = False,
      ev_replayValue = default_reservation\<rparr>"

definition refuse :: "AllocationOutcome \<Rightarrow> string \<Rightarrow> Evaluation \<Rightarrow> Evaluation" where
  "refuse v reason e =
     e\<lparr>ev_outcome := (if ev_reasons e = [] then v else ev_outcome e),
       ev_reasons := ev_reasons e @ [reason]\<rparr>"

definition noteConflict :: "ReservationId \<Rightarrow> Evaluation \<Rightarrow> Evaluation" where
  "noteConflict i e =
     (if \<not> sv_valid i then e
      else if i \<in> set (ev_conflicts e) then e
      else e\<lparr>ev_conflicts := sort (ev_conflicts e @ [i])\<rparr>)"

definition noteConflicts :: "ReservationId list \<Rightarrow> Evaluation \<Rightarrow> Evaluation" where
  "noteConflicts ids e = fold noteConflict ids e"

section \<open>Search window\<close>

definition msg_no_window :: "SpectrumDomainId \<Rightarrow> string" where
  "msg_no_window d = ''domain '' @ t_domain d @ '' has no allocatable window inside its grid''"
definition msg_no_tunable :: "SpectrumDomainId \<Rightarrow> string" where
  "msg_no_tunable d = ''domain '' @ t_domain d @ '' has no tunable slot inside the request grid''"
definition msg_no_common_slot :: "SpectrumDomainId \<Rightarrow> string" where
  "msg_no_common_slot d = ''domain '' @ t_domain d
     @ '' has no slot that is both allocatable and tunable''"
definition msg_too_many_blocks :: "nat \<Rightarrow> string" where
  "msg_too_many_blocks n = ''request evaluation would examine '' @ nat_to_string n
     @ '' competing reservations, above the supported bound of ''
     @ nat_to_string kMaxBlockedIntervals"

fun search_windows :: "ChannelGrid \<Rightarrow> DomainContext list \<Rightarrow> Refusal + SlotRange list" where
  "search_windows g [] = Inr []"
| "search_windows g (x # xs) =
     (if ctx_conversionRequired x then search_windows g xs
      else
        let window = allocatableWindow (ctx_capability x)
        in if \<not> slotRangeInGrid (ctx_grid x) window
           then Inl (RefusedUnsupported, fail Unsupported (msg_no_window (ctx_id x)))
           else (case innerSlotRange g (frequencyRange (cap_minTunableMhz (ctx_capability x))
                                         (cap_maxTunableMhz (ctx_capability x))) of
               None \<Rightarrow> Inl (RefusedUnsupported, fail Unsupported (msg_no_tunable (ctx_id x)))
             | Some tunableSlots \<Rightarrow>
                 let w = intersectRange window tunableSlots
                 in if slot_empty w
                    then Inl (RefusedUnsupported, fail Unsupported (msg_no_common_slot (ctx_id x)))
                    else (case search_windows g xs of
                        Inl e \<Rightarrow> Inl e
                      | Inr ws \<Rightarrow> Inr (w # ws))))"

definition restrict_windows :: "ChannelGrid \<Rightarrow> FrequencyRange list \<Rightarrow> SlotRange list \<Rightarrow> SlotRange list" where
  "restrict_windows g windows ranges =
     (if windows = [] then ranges
      else let windowRanges = List.map_filter (innerSlotRange g) windows
           in concat (map (\<lambda>base.
                filter (\<lambda>hit. \<not> slot_empty hit) (map (intersectRange base) windowRanges)) ranges))"

section \<open>Blocking intervals\<close>

record Blocked =
  blk_lowMhz :: int
  blk_highMhz :: int
  blk_reservation :: ReservationId
  blk_exclusion :: ExclusionDomainId

text \<open>Inserting or widening the interval of one reservation.\<close>

definition note_block ::
    "ReservationId \<Rightarrow> FrequencyRange \<Rightarrow> ExclusionDomainId \<Rightarrow> (ReservationId, Blocked) omap \<Rightarrow>
     (ReservationId, Blocked) omap" where
  "note_block i expanded exclusion blocks =
     (case map_of blocks i of
        None \<Rightarrow> om_set i \<lparr>blk_lowMhz = lowMhz expanded, blk_highMhz = highMhz expanded,
                  blk_reservation = i, blk_exclusion = exclusion\<rparr> blocks
      | Some b \<Rightarrow> om_set i (b\<lparr>
            blk_lowMhz := (if lowMhz expanded < blk_lowMhz b then lowMhz expanded else blk_lowMhz b),
            blk_highMhz := (if highMhz expanded > blk_highMhz b then highMhz expanded else blk_highMhz b),
            blk_exclusion := (if sv_valid exclusion then exclusion else blk_exclusion b)\<rparr>) blocks)"

definition collectDomainBlocks ::
    "RuntimeState \<Rightarrow> SpectrumDomainId \<Rightarrow> Instant \<Rightarrow> int \<Rightarrow> int \<Rightarrow> ExclusionDomainId \<Rightarrow>
     (ReservationId, Blocked) omap \<Rightarrow> (ReservationId, Blocked) omap" where
  "collectDomainBlocks s d now requestGuard extraGuard exclusion blocks =
     fold (\<lambda>i blocks.
       (case map_of (rs_reservations s) i of
          None \<Rightarrow> blocks
        | Some r \<Rightarrow>
            if \<not> isLiveAt r now then blocks
            else let guard = (case addOverflow (max_guard r requestGuard) extraGuard of
                                None \<Rightarrow> kMaxGuardBandMhz * 4 | Some v \<Rightarrow> v)
                 in note_block i (expandByGuard (res_frequency r) guard) exclusion blocks))
       (live_list (rs_liveByDomain s) d) blocks"

definition collect_all_blocks ::
    "RuntimeState \<Rightarrow> SpectrumRequest \<Rightarrow> DomainContext list \<Rightarrow> (ReservationId, Blocked) omap" where
  "collect_all_blocks s r contexts =
     (let now = req_requestedAt r; guard = req_guardBandMhz r;
          blocks = fold (\<lambda>x blocks.
            fold (\<lambda>(m, extra, e). collectDomainBlocks s m now guard extra e) (siblings s (ctx_id x))
              (collectDomainBlocks s (ctx_id x) now guard 0 sv_none blocks)) contexts []
      in fold (\<lambda>i blocks.
           (case map_of (rs_reservations s) i of
              None \<Rightarrow> blocks
            | Some q \<Rightarrow>
                if \<not> isLiveAt q now then blocks
                else note_block i (expandByGuard (res_frequency q) (max_guard q guard)) sv_none blocks))
           (con_mustNotConflictWith (req_constraints r)) blocks)"

definition blocked_slots :: "ChannelGrid \<Rightarrow> (ReservationId, Blocked) omap \<Rightarrow> SlotRange list" where
  "blocked_slots g blocks =
     mergeRanges (List.map_filter
       (\<lambda>b. outerSlotRange g (frequencyRange (blk_lowMhz b) (blk_highMhz b))) (om_values blocks))"

section \<open>Free runs\<close>

text \<open>One cut applied to the pieces of one window; the parts it hits are remembered.\<close>

definition cut_step :: "SlotRange \<Rightarrow> SlotRange list \<times> SlotRange list \<Rightarrow> SlotRange list \<times> SlotRange list" where
  "cut_step c acc =
     (subtractEach c (fst acc),
      snd acc @ filter (\<lambda>hit. \<not> slot_empty hit)
        (map (\<lambda>piece. intersectRange piece c) (filter (\<lambda>piece. slot_overlaps piece c) (fst acc))))"

definition cut_window :: "SlotRange list \<Rightarrow> SlotRange \<Rightarrow> SlotRange list \<times> SlotRange list" where
  "cut_window blocked base = fold cut_step blocked ([base], [])"

definition free_runs :: "SlotRange list \<Rightarrow> SlotRange list \<Rightarrow> SlotRange list" where
  "free_runs blocked ranges = mergeRanges (concat (map (\<lambda>b. fst (cut_window blocked b)) ranges))"

definition blocked_windows :: "SlotRange list \<Rightarrow> SlotRange list \<Rightarrow> SlotRange list" where
  "blocked_windows blocked ranges = mergeRanges (concat (map (\<lambda>b. snd (cut_window blocked b)) ranges))"

section \<open>Candidate list\<close>

definition run_starts :: "nat \<Rightarrow> SlotRange \<Rightarrow> nat list" where
  "run_starts slots run =
     (if slot_count run < slots then []
      else [slot_first run ..< Suc (u32sub (slot_end run) slots)])"

definition total_starts :: "nat \<Rightarrow> SlotRange list \<Rightarrow> nat" where
  "total_starts slots runs =
     sum_list (map (\<lambda>run. if slot_count run \<ge> slots then slot_count run - slots + 1 else 0) runs)"

definition evaluate_start ::
    "RuntimeState \<Rightarrow> SpectrumRequest \<Rightarrow> ChannelGrid \<Rightarrow> DomainContext list \<Rightarrow> nat \<times> nat \<Rightarrow>
     SpectrumCandidate" where
  "evaluate_start s r g contexts e =
     evaluateCandidate s r g contexts (snd e)
       (default_candidate\<lparr>cand_ordinal := fst e, cand_anchorDomain := ctx_id (hd contexts)\<rparr>)"

definition count_eligible :: "SpectrumCandidate list \<Rightarrow> nat" where
  "count_eligible cs = length (filter (\<lambda>c. isEligible (cand_eligibility c)) cs)"

definition msg_evaluated :: "nat \<Rightarrow> nat \<Rightarrow> string" where
  "msg_evaluated n m = ''evaluated '' @ nat_to_string n @ '' candidate(s), '' @ nat_to_string m
     @ '' eligible''"
definition msg_rejected :: "string \<Rightarrow> string" where
  "msg_rejected m = ''request rejected: '' @ m"

definition refused_set :: "Refusal \<Rightarrow> string \<Rightarrow> CandidateSet \<times> AllocationOutcome" where
  "refused_set e why =
     (default_candidate_set\<lparr>cset_status := snd e, cset_complete := False, cset_summary := why\<rparr>, fst e)"

definition candidate_list ::
    "RuntimeState \<Rightarrow> SpectrumRequest \<Rightarrow> ChannelGrid \<Rightarrow> DomainContext list \<Rightarrow> SlotRange list \<Rightarrow>
     SlotRange list \<Rightarrow> CandidateSet \<times> AllocationOutcome" where
  "candidate_list s r g contexts freeRuns blockedWindows =
     (let limit = cfg_maxCandidatesPerRequest (rs_config s);
          starts = concat (map (run_starts (req_slots r)) freeRuns);
          regular = map (evaluate_start s r g contexts) (enumerate 0 (take limit starts));
          truncated = (length starts > limit);
          omitted = (if truncated then total_starts (req_slots r) freeRuns - length regular else 0);
          diagnostics = (if count_eligible regular = 0 \<and> blockedWindows \<noteq> []
            then map (evaluate_start s r g contexts) (enumerate (length regular)
                   (map slot_first (take kMaxDiagnosticCandidates
                     (filter (\<lambda>w. \<not> slot_count w < req_slots r) blockedWindows))))
            else []);
          all_candidates = regular @ diagnostics;
          eligible = count_eligible all_candidates
      in (\<lparr>cset_status = okStatus, cset_candidates = all_candidates, cset_eligibleCount = eligible,
           cset_omitted = omitted, cset_complete = \<not> truncated,
           cset_summary = msg_evaluated (length all_candidates) eligible\<rparr>,
          if eligible > 0 then Allocated else OutcomeUnknown))"

definition enumerateWithOutcome ::
    "RuntimeState \<Rightarrow> SpectrumRequest \<Rightarrow> CandidateSet \<times> AllocationOutcome" where
  "enumerateWithOutcome s r =
     (let shape = validateRequestShape r
      in if \<not> status_ok shape
         then refused_set (RefusedInvalidRequest, shape) (msg_rejected (message shape))
         else (case prepare s r of
             Inl e \<Rightarrow> refused_set e (message (snd e))
           | Inr contexts \<Rightarrow>
               let g = the (map_of (rs_grids s) (req_grid r))
               in (case search_windows g contexts of
                     Inl e \<Rightarrow> refused_set e (message (snd e))
                   | Inr windows \<Rightarrow>
                       let ranges = mergeRanges (restrict_windows g (req_frequencyWindows r) windows);
                           blocks = collect_all_blocks s r contexts
                       in if length blocks > kMaxBlockedIntervals
                          then let e = (RefusedLimitExceeded,
                                        fail LimitExceeded (msg_too_many_blocks (length blocks)))
                               in refused_set e (message (snd e))
                          else let blocked = blocked_slots g blocks
                               in candidate_list s r g contexts (free_runs blocked ranges)
                                    (blocked_windows blocked ranges))))"

definition enumerateCandidates :: "RuntimeState \<Rightarrow> SpectrumRequest \<Rightarrow> CandidateSet" where
  "enumerateCandidates s r = fst (enumerateWithOutcome s r)"

section \<open>Outcomes\<close>

definition s_became_stale :: string where "s_became_stale = ''a spanned domain or its capability became stale''"
definition s_cap_stale :: string where "s_cap_stale = ''a spanned domain capability generation is stale''"
definition s_unsupported :: string where "s_unsupported = ''a spanned domain is published as UNSUPPORTED''"
definition s_unknown_cap :: string where "s_unknown_cap = ''a spanned domain has an UNKNOWN capability''"
definition s_conversion :: string where
  "s_conversion = ''a spanned domain cannot represent the candidate without conversion''"
definition s_width :: string where "s_width = ''the requested channel width is not representable''"
definition s_excluded :: string where "s_excluded = ''an exclusion domain forbids the candidate''"
definition s_contiguity :: string where
  "s_contiguity = ''the candidate cannot satisfy the stated contiguity requirement''"
definition s_constraint :: string where "s_constraint = ''the candidate does not satisfy a stated constraint''"
definition s_owned :: string where "s_owned = ''the candidate is owned by a live reservation''"

fun noteReason :: "CandidateEligibility \<Rightarrow> Evaluation \<Rightarrow> Evaluation" where
  "noteReason IneligibleStaleDomain e = refuse RefusedStaleGeneration s_became_stale e"
| "noteReason IneligibleStaleCapability e = refuse RefusedStaleCapability s_cap_stale e"
| "noteReason IneligibleUnsupported e = refuse RefusedUnsupported s_unsupported e"
| "noteReason IneligibleUnknownCapability e = refuse RefusedUnknownCapability s_unknown_cap e"
| "noteReason IneligibleConversionRequired e = refuse RefusedConversion s_conversion e"
| "noteReason IneligibleChannelWidth e = refuse RefusedChannelWidth s_width e"
| "noteReason IneligibleExcluded e = refuse RefusedExclusion s_excluded e"
| "noteReason IneligibleContiguity e = refuse RefusedContiguity s_contiguity e"
| "noteReason IneligibleGuardBand e = refuse RefusedConstraint s_constraint e"
| "noteReason IneligibleOutsideWindow e = refuse RefusedConstraint s_constraint e"
| "noteReason IneligibleOutsideTunable e = refuse RefusedConstraint s_constraint e"
| "noteReason IneligibleNoGrid e = refuse RefusedConstraint s_constraint e"
| "noteReason IneligibleUnknown e = refuse RefusedConstraint s_constraint e"
| "noteReason IneligibleConflict e = refuse RefusedConflict s_owned e"
| "noteReason Eligible e = e"

definition dominantOutcome :: "SpectrumCandidate \<Rightarrow> AllocationOutcome" where
  "dominantOutcome c =
     (case cand_eligibility c of
        IneligibleStaleDomain \<Rightarrow> RefusedStaleGeneration
      | IneligibleStaleCapability \<Rightarrow> RefusedStaleCapability
      | IneligibleUnsupported \<Rightarrow> RefusedUnsupported
      | IneligibleUnknownCapability \<Rightarrow> RefusedUnknownCapability
      | IneligibleConversionRequired \<Rightarrow> RefusedConversion
      | IneligibleChannelWidth \<Rightarrow> RefusedChannelWidth
      | IneligibleExcluded \<Rightarrow> if cand_conflicts c = [] then RefusedConstraint else RefusedExclusion
      | IneligibleContiguity \<Rightarrow> RefusedContiguity
      | IneligibleGuardBand \<Rightarrow> RefusedConstraint
      | IneligibleOutsideWindow \<Rightarrow> RefusedConstraint
      | IneligibleOutsideTunable \<Rightarrow> RefusedConstraint
      | IneligibleNoGrid \<Rightarrow> RefusedConstraint
      | IneligibleUnknown \<Rightarrow> RefusedConstraint
      | IneligibleConflict \<Rightarrow> RefusedConflict
      | Eligible \<Rightarrow> Allocated)"

fun outcomeRank :: "AllocationOutcome \<Rightarrow> int" where
  "outcomeRank RefusedStaleGeneration = 100"
| "outcomeRank RefusedStaleCapability = 95"
| "outcomeRank RefusedUnsupported = 90"
| "outcomeRank RefusedUnknownCapability = 85"
| "outcomeRank RefusedConversion = 80"
| "outcomeRank RefusedChannelWidth = 75"
| "outcomeRank RefusedExclusion = 70"
| "outcomeRank RefusedConstraint = 65"
| "outcomeRank RefusedContiguity = 60"
| "outcomeRank RefusedConflict = 55"
| "outcomeRank _ = 10"

definition sameRequestShape :: "SpectrumReservation \<Rightarrow> SpectrumRequest \<Rightarrow> bool" where
  "sameRequestShape q r \<longleftrightarrow>
     res_domains q = req_domains r
     \<and> res_domainGenerations q = req_domainGenerations r
     \<and> res_grid q = req_grid r
     \<and> res_gridGeneration q = req_gridGeneration r
     \<and> res_owner q = req_owner r
     \<and> res_ownerGeneration q = req_ownerGeneration r
     \<and> slot_count (res_slots q) = req_slots r
     \<and> res_guardBandMhz q = req_guardBandMhz r
     \<and> lease_maxRenewals (res_lease q) = req_maxRenewals r
     \<and> res_contiguityRequired q = (req_contiguity r = ContiguityRequired)
     \<and> res_continuityRequired q = (req_continuity r = ContinuityRequired)"

definition msg_already :: "ReservationId \<Rightarrow> string" where
  "msg_already i = ''already committed as '' @ t_reservation i"

definition candidateFromReservation :: "SpectrumReservation \<Rightarrow> SpectrumCandidate" where
  "candidateFromReservation q =
     default_candidate\<lparr>cand_ordinal := 0, cand_anchorDomain := res_anchorDomain q,
       cand_slots := res_slots q, cand_frequency := res_frequency q,
       cand_perDomainSlots := res_perDomainSlots q, cand_crossGrid := res_crossGrid q,
       cand_eligibility := Eligible, cand_detail := msg_already (res_id q)\<rparr>"

fun outcomeForStatus :: "StatusCode \<Rightarrow> AllocationOutcome" where
  "outcomeForStatus Ok = Allocated"
| "outcomeForStatus InvalidArgument = RefusedInvalidRequest"
| "outcomeForStatus NotFound = RefusedUnknownDomain"
| "outcomeForStatus Duplicate = RefusedDuplicate"
| "outcomeForStatus LimitExceeded = RefusedLimitExceeded"
| "outcomeForStatus Unsupported = RefusedUnsupported"
| "outcomeForStatus Unknown = RefusedUnknownCapability"
| "outcomeForStatus StaleGeneration = RefusedStaleGeneration"
| "outcomeForStatus StaleIncarnation = RefusedStaleIncarnation"
| "outcomeForStatus StaleEpoch = RefusedStaleEpoch"
| "outcomeForStatus StaleAuthority = RefusedStaleAuthority"
| "outcomeForStatus IllegalTransition = RefusedNotPermitted"
| "outcomeForStatus Conflict = RefusedConflict"
| "outcomeForStatus Excluded = RefusedExclusion"
| "outcomeForStatus PersistenceFailure = OutcomeUnknown"
| "outcomeForStatus Corruption = OutcomeUnknown"
| "outcomeForStatus IoError = OutcomeUnknown"
| "outcomeForStatus NotPermitted = RefusedConversion"
| "outcomeForStatus Overflow = RefusedLimitExceeded"
| "outcomeForStatus Refused = RefusedConstraint"
| "outcomeForStatus Unavailable = RefusedNoCapacity"

section \<open>Evaluation of a request\<close>

definition msg_request_stale ::
    "AllocationRequestId \<Rightarrow> AllocationRequestGeneration \<Rightarrow> AllocationRequestGeneration \<Rightarrow> string" where
  "msg_request_stale i cur g = ''request '' @ t_request i @ '' is committed at generation ''
     @ raw_to_string cur @ ''; generation '' @ raw_to_string g @ '' is stale''"
definition msg_replay :: "AllocationRequestId \<Rightarrow> SpectrumReservation \<Rightarrow> string" where
  "msg_replay i q = ''idempotent replay: request '' @ t_request i @ '' is already committed as ''
     @ t_reservation (res_id q) @ '' at generation '' @ raw_to_string (res_requestGeneration q)"
definition msg_different_shape :: "AllocationRequestId \<Rightarrow> AllocationRequestGeneration \<Rightarrow> string" where
  "msg_different_shape i g = ''request '' @ t_request i @ '' is already committed at generation ''
     @ raw_to_string g @ '' with a different shape; a matching replay is required''"
definition msg_allocated :: "SlotRange \<Rightarrow> ChannelGridId \<Rightarrow> string" where
  "msg_allocated sl g = ''allocated '' @ nat_to_string (slot_count sl) @ '' slot(s) starting at ''
     @ nat_to_string (slot_first sl) @ '' on grid '' @ t_grid g"
definition msg_no_candidate :: string where
  "msg_no_candidate = ''no candidate satisfies the request''"

text \<open>The scan for the first eligible candidate; the rejected ones before it are recorded.\<close>

definition note_rejected :: "nat \<Rightarrow> SpectrumCandidate \<Rightarrow> Evaluation \<Rightarrow> Evaluation" where
  "note_rejected limit c e =
     (let e1 = noteConflicts (cand_conflicts c)
                 (e\<lparr>ev_candidatesRejected := ev_candidatesRejected e + 1\<rparr>)
      in if length (ev_rejected e1) < limit
         then e1\<lparr>ev_rejected := ev_rejected e1 @ [c]\<rparr> else e1)"

fun select_candidate ::
    "nat \<Rightarrow> ChannelGridId \<Rightarrow> SpectrumCandidate list \<Rightarrow> Evaluation \<Rightarrow> Evaluation \<times> bool" where
  "select_candidate limit g [] e = (e, False)"
| "select_candidate limit g (c # cs) e =
     (if isEligible (cand_eligibility c)
      then (refuse Allocated (msg_allocated (cand_slots c) g)
             (e\<lparr>ev_selected := c, ev_candidateOrdinal := cand_ordinal c, ev_eligible := True,
                ev_outcome := Allocated\<rparr>), True)
      else select_candidate limit g cs (note_rejected limit c e))"

definition best_outcome :: "SpectrumCandidate list \<Rightarrow> AllocationOutcome" where
  "best_outcome cs =
     fst (fold (\<lambda>c (outcome, bestRank).
       if isEligible (cand_eligibility c) then (outcome, bestRank)
       else let o1 = dominantOutcome c; rank = outcomeRank o1
            in if rank > bestRank then (o1, rank) else (outcome, bestRank))
       cs (RefusedNoCapacity, -1))"

definition explain_refusal :: "SpectrumCandidate list \<Rightarrow> Evaluation \<Rightarrow> Evaluation" where
  "explain_refusal cs e =
     (let outcome = best_outcome cs;
          e1 = fold (\<lambda>c e.
            if isEligible (cand_eligibility c) then e
            else if dominantOutcome c \<noteq> outcome then e
            else refuse outcome (cand_detail c) (noteReason (cand_eligibility c) e)) cs e
      in if ev_reasons e1 = [] then refuse outcome msg_no_candidate e1
         else e1\<lparr>ev_outcome := outcome\<rparr>)"

definition evaluate_candidates :: "RuntimeState \<Rightarrow> SpectrumRequest \<Rightarrow> Evaluation" where
  "evaluate_candidates s r =
     (let (candidates, preparedOutcome) = enumerateWithOutcome s r;
          e = default_evaluation\<lparr>ev_candidatesEnumerated := length (cset_candidates candidates),
                ev_candidatesOmitted := cset_omitted candidates\<rparr>
      in if \<not> status_ok (cset_status candidates)
         then let e1 = refuse (if preparedOutcome \<noteq> OutcomeUnknown then preparedOutcome
                               else outcomeForStatus (code (cset_status candidates)))
                         (cset_summary candidates) e
              in e1\<lparr>ev_rejected := take (cfg_maxRejectedExplanations (rs_config s))
                     (cset_candidates candidates)\<rparr>
         else let (e1, found) = select_candidate (cfg_maxRejectedExplanations (rs_config s))
                    (req_grid r) (cset_candidates candidates) e
              in if found then e1 else explain_refusal (cset_candidates candidates) e1)"

definition existing_request :: "RuntimeState \<Rightarrow> SpectrumRequest \<Rightarrow> SpectrumReservation option" where
  "existing_request s r =
     (case map_of (rs_requestIndex s) (req_requestId r) of
        None \<Rightarrow> None
      | Some i \<Rightarrow> map_of (rs_reservations s) i)"

definition evaluate :: "RuntimeState \<Rightarrow> SpectrumRequest \<Rightarrow> Evaluation" where
  "evaluate s r =
     (let shape = validateRequestShape r;
          eligibility = checkEligibilityAuthority (rs_authority s) (req_eligibilityAuthority r);
          reservation = checkReservationAuthority (rs_authority s) (req_reservationAuthority r)
      in if \<not> status_ok shape then refuse RefusedInvalidRequest (message shape) default_evaluation
         else if \<not> status_ok eligibility
         then refuse (outcomeForStatus (code eligibility)) (message eligibility) default_evaluation
         else if \<not> status_ok reservation
         then refuse (outcomeForStatus (code reservation)) (message reservation) default_evaluation
         else (case existing_request s r of
             None \<Rightarrow> evaluate_candidates s r
           | Some q \<Rightarrow>
               if req_requestGeneration r < res_requestGeneration q
               then refuse RefusedStaleGeneration (msg_request_stale (req_requestId r)
                      (res_requestGeneration q) (req_requestGeneration r)) default_evaluation
               else if req_requestGeneration r = res_requestGeneration q
               then (if sameRequestShape q r
                     then refuse Allocated (msg_replay (req_requestId r) q)
                            (default_evaluation\<lparr>ev_replay := True, ev_replayValue := q,
                               ev_eligible := True, ev_outcome := Allocated,
                               ev_selected := candidateFromReservation q,
                               ev_candidatesEnumerated := length (res_perDomainSlots q)\<rparr>)
                     else refuse RefusedDuplicate (msg_different_shape (req_requestId r)
                            (res_requestGeneration q)) default_evaluation)
               else evaluate_candidates s r))"

section \<open>What the preparation establishes\<close>

lemma support_cases: "x \<noteq> SupportUnsupported \<Longrightarrow> x \<noteq> SupportUnknown \<Longrightarrow> x = Supported"
  by (cases x) auto

lemma prepare_domain_Inr:
  assumes "prepare_domain s r d g = Inr c"
  shows "ctx_id c = d"
    and "\<exists>dom cap. map_of (rs_domains s) d = Some dom \<and> dom_generation dom = g
      \<and> map_of (rs_capabilities s) d = Some cap \<and> cap_domainGeneration cap = g
      \<and> cap_support cap = Supported \<and> ctx_capability c = cap
      \<and> map_of (rs_grids s) (dom_grid dom) = Some (ctx_grid c)"
    and "ctx_conversionRequired c \<longleftrightarrow> grid_id (ctx_grid c) \<noteq> req_grid r"
  using assms by (auto simp: prepare_domain_def support_cases split: option.splits if_splits)

lemma prepare_domains_ids: "prepare_domains s r ps = Inr cs \<Longrightarrow> map ctx_id cs = map fst ps"
  by (induction s r ps arbitrary: cs rule: prepare_domains.induct)
    (auto split: sum.splits dest: prepare_domain_Inr(1))

lemma prepare_domains_mem:
  "prepare_domains s r ps = Inr cs \<Longrightarrow> c \<in> set cs \<Longrightarrow> \<exists>p \<in> set ps. prepare_domain s r (fst p) (snd p) = Inr c"
proof (induction ps arbitrary: cs)
  case (Cons p ps)
  then obtain c0 cs0 where "prepare_domain s r (fst p) (snd p) = Inr c0" "prepare_domains s r ps = Inr cs0"
    "cs = c0 # cs0"
    by (cases p) (auto split: sum.splits)
  then show ?case
    using Cons.IH [of cs0] Cons.prems(2) by auto
qed simp

lemma prepare_Inr:
  assumes "prepare s r = Inr contexts"
  obtains g where "map_of (rs_grids s) (req_grid r) = Some g"
    and "grid_generation g = req_gridGeneration r" and "channelWidthSupported g (req_slots r)"
    and "prepare_domains s r (zip (req_domains r) (req_domainGenerations r)) = Inr contexts"
    and "list_ex ctx_conversionRequired contexts \<Longrightarrow> list_all conversion_evidenced contexts"
    and "\<forall>i \<in> set (con_mustNotConflictWith (req_constraints r)). map_of (rs_reservations s) i \<noteq> None"
proof -
  obtain g where g: "map_of (rs_grids s) (req_grid r) = Some g"
    using assms by (auto simp: prepare_def split: option.splits)
  then have "grid_generation g = req_gridGeneration r" "channelWidthSupported g (req_slots r)"
    using assms by (auto simp: prepare_def split: if_splits)
  moreover obtain cs where cs: "prepare_domains s r (zip (req_domains r) (req_domainGenerations r)) = Inr cs"
    using assms g calculation by (auto simp: prepare_def split: sum.splits)
  moreover have conv: "(if list_ex ctx_conversionRequired cs then find (\<lambda>c. \<not> conversion_evidenced c) cs
      else None) = None"
    and conf: "find (\<lambda>i. map_of (rs_reservations s) i = None)
      (con_mustNotConflictWith (req_constraints r)) = None"
    and "contexts = cs"
    using assms g calculation cs by (auto simp: prepare_def split: option.splits)
  ultimately show ?thesis
    using that g by (auto simp: find_None_iff list_all_iff split: if_splits)
qed

lemma prepare_ids:
  assumes "prepare s r = Inr contexts" and "length (req_domainGenerations r) = length (req_domains r)"
  shows "map ctx_id contexts = req_domains r"
proof -
  obtain g where "prepare_domains s r (zip (req_domains r) (req_domainGenerations r)) = Inr contexts"
    using assms(1) by (rule prepare_Inr)
  then show ?thesis
    using prepare_domains_ids assms(2) by (metis map_fst_zip)
qed

text \<open>UNSUPPORTED and UNKNOWN never pass the preparation.\<close>

lemma prepare_supported:
  assumes "prepare s r = Inr contexts" and "c \<in> set contexts"
  shows "map_of (rs_capabilities s) (ctx_id c) = Some (ctx_capability c)"
    and "cap_support (ctx_capability c) = Supported"
proof -
  obtain p where p: "prepare_domain s r (fst p) (snd p) = Inr c"
    using assms prepare_domains_mem by (metis prepare_Inr)
  then show "map_of (rs_capabilities s) (ctx_id c) = Some (ctx_capability c)"
    "cap_support (ctx_capability c) = Supported"
    using prepare_domain_Inr [OF p] by auto
qed

section \<open>What the enumeration returns\<close>

text \<open>A usable candidate list comes from a valid request, a successful preparation, and the
  evaluation of each listed start.\<close>

definition enumerated ::
    "RuntimeState \<Rightarrow> SpectrumRequest \<Rightarrow> DomainContext list \<Rightarrow> ChannelGrid \<Rightarrow> SpectrumCandidate \<Rightarrow> bool" where
  "enumerated s r contexts g c \<longleftrightarrow>
     status_ok (validateRequestShape r) \<and> prepare s r = Inr contexts
     \<and> map_of (rs_grids s) (req_grid r) = Some g
     \<and> (\<exists>e. c = evaluate_start s r g contexts e)"

lemma candidate_list_mem:
  "c \<in> set (cset_candidates (fst (candidate_list s r g contexts free blocked))) \<Longrightarrow>
   \<exists>e. c = evaluate_start s r g contexts e"
  by (auto simp: candidate_list_def Let_def split: if_splits)

lemma refused_set_simps [simp]:
  "cset_candidates (fst (refused_set e w)) = []" "cset_status (fst (refused_set e w)) = snd e"
  "snd (refused_set e w) = fst e"
  by (simp_all add: refused_set_def default_candidate_set_def)

lemma enumerate_mem:
  assumes "c \<in> set (cset_candidates (fst (enumerateWithOutcome s r)))"
  obtains contexts g where "enumerated s r contexts g c"
proof -
  have ok: "status_ok (validateRequestShape r)"
    using assms by (auto simp: enumerateWithOutcome_def Let_def split: if_splits)
  obtain contexts where p: "prepare s r = Inr contexts"
    using assms ok by (auto simp: enumerateWithOutcome_def Let_def split: sum.splits)
  obtain g where g: "map_of (rs_grids s) (req_grid r) = Some g"
    using p by (rule prepare_Inr)
  obtain ws where w: "search_windows g contexts = Inr ws"
    using assms ok p g by (auto simp: enumerateWithOutcome_def Let_def split: sum.splits)
  obtain free blocked where
      "c \<in> set (cset_candidates (fst (candidate_list s r g contexts free blocked)))"
    using assms ok p g w by (auto simp: enumerateWithOutcome_def Let_def split: if_splits)
  then show ?thesis
    using that ok p g candidate_list_mem by (auto simp: enumerated_def)
qed

lemma candidate_list_status: "status_ok (cset_status (fst (candidate_list s r g cs free blocked)))"
  by (simp add: candidate_list_def Let_def)

lemma candidate_list_bound:
  "length (cset_candidates (fst (candidate_list s r g cs free blocked)))
     \<le> cfg_maxCandidatesPerRequest (rs_config s) + kMaxDiagnosticCandidates"
  by (auto simp: candidate_list_def Let_def min_def)

text \<open>The list never exceeds the configured bound plus the diagnostics.\<close>

lemma enumerate_bound:
  "length (cset_candidates (enumerateCandidates s r))
     \<le> cfg_maxCandidatesPerRequest (rs_config s) + kMaxDiagnosticCandidates"
  unfolding enumerateCandidates_def enumerateWithOutcome_def
  by (auto simp: Let_def candidate_list_bound split: sum.split)

section \<open>Selection\<close>

lemma refuse_simps [simp]:
  "ev_eligible (refuse v m e) = ev_eligible e" "ev_replay (refuse v m e) = ev_replay e"
  "ev_selected (refuse v m e) = ev_selected e" "ev_replayValue (refuse v m e) = ev_replayValue e"
  "ev_reasons (refuse v m e) \<noteq> []"
  by (simp_all add: refuse_def)

lemma noteConflicts_simps [simp]:
  "ev_eligible (noteConflicts ids e) = ev_eligible e"
  "ev_replay (noteConflicts ids e) = ev_replay e"
proof -
  have "ev_eligible (noteConflict i e1) = ev_eligible e1" "ev_replay (noteConflict i e1) = ev_replay e1" for i e1
    by (simp_all add: noteConflict_def)
  then show "ev_eligible (noteConflicts ids e) = ev_eligible e" "ev_replay (noteConflicts ids e) = ev_replay e"
    unfolding noteConflicts_def by (induction ids arbitrary: e) auto
qed

lemma note_rejected_simps [simp]:
  "ev_eligible (note_rejected limit c e) = ev_eligible e"
  "ev_replay (note_rejected limit c e) = ev_replay e"
  by (simp_all add: note_rejected_def Let_def)

lemma select_candidate_found:
  assumes "select_candidate limit g cs e = (e', True)"
  obtains pre c post where "cs = pre @ c # post"
    and "\<forall>x \<in> set pre. cand_eligibility x \<noteq> Eligible" and "cand_eligibility c = Eligible"
    and "ev_selected e' = c" and "ev_eligible e'" and "ev_replay e' = ev_replay e"
    and "ev_outcome e' = Allocated"
  using assms
proof (induction cs arbitrary: e thesis)
  case (Cons c cs)
  show ?case
  proof (cases "isEligible (cand_eligibility c)")
    case True
    then show ?thesis
      using Cons.prems(2) by (intro Cons.prems(1) [of "[]" c cs]) (auto simp: isEligible_def refuse_def)
  next
    case False
    then have "select_candidate limit g cs (note_rejected limit c e) = (e', True)"
      using Cons.prems(2) by simp
    then show ?thesis
    proof (rule Cons.IH [rotated])
      fix pre c0 post
      assume "cs = pre @ c0 # post" "\<forall>x \<in> set pre. cand_eligibility x \<noteq> Eligible"
        "cand_eligibility c0 = Eligible" "ev_selected e' = c0" "ev_eligible e'"
        "ev_replay e' = ev_replay (note_rejected limit c e)" "ev_outcome e' = Allocated"
      then show thesis
        using False by (intro Cons.prems(1) [of "c # pre" c0 post]) (auto simp: isEligible_def)
    qed
  qed
qed simp

lemma select_candidate_none:
  "select_candidate limit g cs e = (e', False) \<Longrightarrow>
     ev_eligible e' = ev_eligible e \<and> ev_replay e' = ev_replay e
     \<and> (\<forall>c \<in> set cs. cand_eligibility c \<noteq> Eligible)"
  by (induction cs arbitrary: e) (auto simp: isEligible_def split: if_splits)

lemma noteReason_simps [simp]:
  "ev_eligible (noteReason k e) = ev_eligible e" "ev_replay (noteReason k e) = ev_replay e"
  by (cases k; simp)+

lemma explain_refusal_simps:
  "ev_eligible (explain_refusal cs e) = ev_eligible e \<and> ev_replay (explain_refusal cs e) = ev_replay e"
proof -
  define step where "step = (\<lambda>c e.
     if isEligible (cand_eligibility c) then e
     else if dominantOutcome c \<noteq> best_outcome cs then e
     else refuse (best_outcome cs) (cand_detail c) (noteReason (cand_eligibility c) e))"
  have "ev_eligible (fold step xs e) = ev_eligible e \<and> ev_replay (fold step xs e) = ev_replay e" for xs e
    by (induction xs arbitrary: e) (auto simp: step_def)
  then show ?thesis
    by (simp add: explain_refusal_def Let_def step_def [symmetric])
qed

lemma default_evaluation_simps [simp]:
  "\<not> ev_eligible default_evaluation" "\<not> ev_replay default_evaluation" "ev_reasons default_evaluation = []"
  by (simp_all add: default_evaluation_def)

text \<open>An eligible evaluation that is no replay selects the first eligible enumerated candidate.\<close>

lemma evaluate_candidates_eligible:
  assumes "ev_eligible (evaluate_candidates s r)"
  obtains pre c post where
    "cset_candidates (fst (enumerateWithOutcome s r)) = pre @ c # post"
    "\<forall>x \<in> set pre. cand_eligibility x \<noteq> Eligible" "cand_eligibility c = Eligible"
    "ev_selected (evaluate_candidates s r) = c" "\<not> ev_replay (evaluate_candidates s r)"
    "ev_outcome (evaluate_candidates s r) = Allocated"
proof -
  obtain cs outcome where en: "enumerateWithOutcome s r = (cs, outcome)" by fastforce
  define e where "e = default_evaluation\<lparr>ev_candidatesEnumerated := length (cset_candidates cs),
      ev_candidatesOmitted := cset_omitted cs\<rparr>"
  have e: "\<not> ev_eligible e" "\<not> ev_replay e" by (simp_all add: e_def)
  obtain e1 found where sel: "select_candidate (cfg_maxRejectedExplanations (rs_config s))
      (req_grid r) (cset_candidates cs) e = (e1, found)" by fastforce
  have ok: "status_ok (cset_status cs)"
    using assms en e by (auto simp: evaluate_candidates_def Let_def e_def [symmetric] split: if_splits)
  have eq: "evaluate_candidates s r = (if found then e1 else explain_refusal (cset_candidates cs) e1)"
    using en ok sel by (simp add: evaluate_candidates_def Let_def e_def [symmetric])
  have found
  proof (rule ccontr)
    assume "\<not> found"
    then show False
      using eq assms sel e select_candidate_none explain_refusal_simps by metis
  qed
  then have sel': "select_candidate (cfg_maxRejectedExplanations (rs_config s))
      (req_grid r) (cset_candidates cs) e = (e1, True)" and eq': "evaluate_candidates s r = e1"
    using sel eq by auto
  from sel' show ?thesis
    by (rule select_candidate_found) (rule that, use en eq' e in auto)
qed

lemma evaluate_candidates_replay: "\<not> ev_replay (evaluate_candidates s r)"
proof -
  obtain cs outcome where en: "enumerateWithOutcome s r = (cs, outcome)" by fastforce
  define e where "e = default_evaluation\<lparr>ev_candidatesEnumerated := length (cset_candidates cs),
      ev_candidatesOmitted := cset_omitted cs\<rparr>"
  have e: "\<not> ev_replay e" by (simp add: e_def)
  obtain e1 found where sel: "select_candidate (cfg_maxRejectedExplanations (rs_config s))
      (req_grid r) (cset_candidates cs) e = (e1, found)" by fastforce
  have "\<not> ev_replay e1"
    using sel e select_candidate_none [of _ _ _ e e1] select_candidate_found [of _ _ _ e e1]
    by (cases found) metis+
  then show ?thesis
    using en sel e explain_refusal_simps [of _ e1]
    by (auto simp: evaluate_candidates_def Let_def e_def [symmetric])
qed

text \<open>The checks every eligible evaluation has passed.\<close>

lemma evaluate_eligible:
  assumes "ev_eligible (evaluate s r)"
  shows "status_ok (validateRequestShape r)"
    and "status_ok (checkEligibilityAuthority (rs_authority s) (req_eligibilityAuthority r))"
    and "status_ok (checkReservationAuthority (rs_authority s) (req_reservationAuthority r))"
    and "\<not> ev_replay (evaluate s r) \<Longrightarrow> evaluate s r = evaluate_candidates s r"
    and "ev_replay (evaluate s r) \<Longrightarrow> (\<exists>q. existing_request s r = Some q \<and> sameRequestShape q r
           \<and> req_requestGeneration r = res_requestGeneration q \<and> ev_replayValue (evaluate s r) = q)"
  using assms evaluate_candidates_replay [of s r]
  by (auto simp: evaluate_def Let_def split: if_splits option.splits)

section \<open>Refusals are reported as refusals\<close>

lemma isRefusal_simps [simp]: "\<not> isRefusal Allocated" "\<not> isRefusal OutcomeUnknown"
  "isRefusal RefusedUnsupported" "isRefusal RefusedUnknownCapability" "isRefusal RefusedNoCapacity"
  "isRefusal RefusedConflict" "isRefusal RefusedContiguity" "isRefusal RefusedConversion"
  "isRefusal RefusedConstraint" "isRefusal RefusedExclusion" "isRefusal RefusedStaleGeneration"
  "isRefusal RefusedStaleIncarnation" "isRefusal RefusedStaleEpoch" "isRefusal RefusedStaleCapability"
  "isRefusal RefusedDuplicate" "isRefusal RefusedInvalidRequest" "isRefusal RefusedLimitExceeded"
  "isRefusal RefusedUnknownDomain" "isRefusal RefusedChannelWidth" "isRefusal RefusedStaleAuthority"
  by (simp_all add: isRefusal_def)

lemma prepare_domain_refusal: "prepare_domain s r d g = Inl e \<Longrightarrow> isRefusal (fst e) \<and> \<not> status_ok (snd e)"
  by (auto simp: prepare_domain_def split: option.splits if_splits)

lemma prepare_domains_refusal:
  "prepare_domains s r ps = Inl e \<Longrightarrow> isRefusal (fst e) \<and> \<not> status_ok (snd e)"
  by (induction s r ps rule: prepare_domains.induct)
    (auto split: sum.splits dest: prepare_domain_refusal)

lemma prepare_refusal: "prepare s r = Inl e \<Longrightarrow> isRefusal (fst e) \<and> \<not> status_ok (snd e)"
proof (cases "map_of (rs_grids s) (req_grid r)")
  case (Some g)
  assume "prepare s r = Inl e"
  then show ?thesis
    using Some prepare_domains_refusal [of s r "zip (req_domains r) (req_domainGenerations r)" e]
    by (cases "prepare_domains s r (zip (req_domains r) (req_domainGenerations r))")
      (auto simp: prepare_def split: if_splits option.splits)
qed (auto simp: prepare_def)

lemma search_windows_refusal: "search_windows g xs = Inl e \<Longrightarrow> isRefusal (fst e) \<and> \<not> status_ok (snd e)"
  by (induction g xs rule: search_windows.induct)
    (auto simp: Let_def split: if_splits option.splits sum.splits)

lemma enumerate_refusal:
  assumes "\<not> status_ok (cset_status (fst (enumerateWithOutcome s r)))"
  shows "isRefusal (snd (enumerateWithOutcome s r))"
proof (cases "prepare s r")
  case (Inl e)
  then show ?thesis
    using prepare_refusal [OF Inl] by (simp add: enumerateWithOutcome_def Let_def)
next
  case (Inr contexts)
  then show ?thesis
    using assms candidate_list_status
      search_windows_refusal [of "the (map_of (rs_grids s) (req_grid r))" contexts]
    by (cases "search_windows (the (map_of (rs_grids s) (req_grid r))) contexts")
      (auto simp: enumerateWithOutcome_def Let_def)
qed

lemma refuse_outcome: "ev_reasons e = [] \<Longrightarrow> ev_outcome (refuse v m e) = v"
  by (simp add: refuse_def)

lemma dominantOutcome_refusal: "\<not> isEligible (cand_eligibility c) \<Longrightarrow> isRefusal (dominantOutcome c)"
  by (cases "cand_eligibility c") (auto simp: dominantOutcome_def isEligible_def)

lemma best_outcome_refusal: "isRefusal (best_outcome cs)"
proof -
  define step where "step = (\<lambda>c (outcome, bestRank).
       if isEligible (cand_eligibility c) then (outcome, bestRank)
       else let o1 = dominantOutcome c; rank = outcomeRank o1
            in if rank > bestRank then (o1, rank) else (outcome, bestRank))"
  have "isRefusal (fst a) \<Longrightarrow> isRefusal (fst (fold step xs a))" for xs a
    by (induction xs arbitrary: a)
      (auto simp: step_def Let_def dominantOutcome_refusal split: prod.split)
  then show ?thesis
    by (simp add: best_outcome_def step_def [symmetric])
qed

lemma explain_refusal_outcome: "ev_outcome (explain_refusal cs e) = best_outcome cs"
  by (simp add: explain_refusal_def Let_def refuse_outcome)

lemma explain_refusal_reasons: "ev_reasons (explain_refusal cs e) \<noteq> []"
  by (simp add: explain_refusal_def Let_def)

lemma evaluate_candidates_refusal:
  assumes "\<not> ev_eligible (evaluate_candidates s r)"
  shows "isRefusal (ev_outcome (evaluate_candidates s r)) \<and> ev_reasons (evaluate_candidates s r) \<noteq> []"
proof -
  obtain cs outcome where en: "enumerateWithOutcome s r = (cs, outcome)" by fastforce
  show ?thesis
  proof (cases "status_ok (cset_status cs)")
    case False
    then have "isRefusal outcome"
      using enumerate_refusal [of s r] en by simp
    then show ?thesis
      using False en by (auto simp: evaluate_candidates_def Let_def refuse_outcome)
  next
    case True
    obtain e1 found where sel: "select_candidate (cfg_maxRejectedExplanations (rs_config s)) (req_grid r)
        (cset_candidates cs) (default_evaluation\<lparr>ev_candidatesEnumerated := length (cset_candidates cs),
                ev_candidatesOmitted := cset_omitted cs\<rparr>) = (e1, found)" by fastforce
    have "\<not> found"
      using assms True en sel select_candidate_found [of _ _ _ _ e1]
      by (cases found) (auto simp: evaluate_candidates_def Let_def)
    then show ?thesis
      using True en sel
      by (simp add: evaluate_candidates_def Let_def explain_refusal_outcome best_outcome_refusal
          explain_refusal_reasons)
  qed
qed

lemma authority_refusal:
  "\<not> status_ok (checkEligibilityAuthority a t) \<Longrightarrow> isRefusal (outcomeForStatus (code (checkEligibilityAuthority a t)))"
  "\<not> status_ok (checkReservationAuthority a u) \<Longrightarrow> isRefusal (outcomeForStatus (code (checkReservationAuthority a u)))"
  by (auto simp: checkEligibilityAuthority_def checkReservationAuthority_def Let_def checkFenceFields_def
      checkAuthorityGeneration_def split: if_splits)

text \<open>A request that is not granted is reported as a refusal and with a reason.\<close>

lemma evaluate_refusal:
  assumes "\<not> ev_eligible (evaluate s r)"
  shows "isRefusal (ev_outcome (evaluate s r))" and "ev_reasons (evaluate s r) \<noteq> []"
proof -
  have "isRefusal (ev_outcome (evaluate s r)) \<and> ev_reasons (evaluate s r) \<noteq> []"
    using assms evaluate_candidates_refusal [of s r] authority_refusal
    by (auto simp: evaluate_def Let_def refuse_outcome split: option.splits if_splits)
  then show "isRefusal (ev_outcome (evaluate s r))" "ev_reasons (evaluate s r) \<noteq> []"
    by blast+
qed

end
