(* ===== verification/Text.thy ===== *)
theory Text
  imports Reservation
begin

text \<open>
  \<open>text.cpp\<close>: the stable one-line renderings that audit records, command-line output and
  diagnostics use. Caller-supplied text is sanitised and truncated before it is echoed, derived
  quantities are rendered as a question mark when they are not representable. The lemmas show
  that every rendering consists of printable ASCII only, whatever bytes the caller supplied, so a
  hostile label cannot break a line or forge a second audit record.

  A function that appends to an output string returns the appended characters; a rendering is
  the concatenation of its pieces in the order the source appends them. The broken-down calendar
  time that \<open>gmtime_r\<close> and \<open>strftime\<close> produce is written out (proleptic Gregorian, UTC).
\<close>

section \<open>Pieces\<close>

definition kMaxTextBytes :: nat where "kMaxTextBytes = 128"
definition kMaxListedIdentities :: nat where "kMaxListedIdentities = 8"
definition kMaxListedDomains :: nat where "kMaxListedDomains = 64"
definition kNanosPerMicrosecond :: int where "kNanosPerMicrosecond = 1000"
definition kNanosPerMillisecond :: int where "kNanosPerMillisecond = 1000000"
definition kNanosPerSecond :: int where "kNanosPerSecond = 1000000000"

definition bool_text :: "bool \<Rightarrow> string" where
  "bool_text b = (if b then ''true'' else ''false'')"

definition slotRangeEnd :: "SlotRange \<Rightarrow> int option" where
  "slotRangeEnd r =
     (case addOverflow (int (slot_first r)) (int (slot_count r)) of
        None \<Rightarrow> None
      | Some e \<Rightarrow> if e \<le> 0xFFFFFFFF then Some e else None)"

definition appendSlotBounds :: "SlotRange \<Rightarrow> string" where
  "appendSlotBounds r =
     ''['' @ nat_to_string (slot_first r) @ '',''
     @ (case slotRangeEnd r of Some e \<Rightarrow> int_to_string e | None \<Rightarrow> ''?'') @ '')''"

definition appendSlotRangeDetail :: "SlotRange \<Rightarrow> string" where
  "appendSlotRangeDetail r = appendSlotBounds r @ '' count='' @ nat_to_string (slot_count r)"

definition appendFrequencyBounds :: "FrequencyRange \<Rightarrow> string" where
  "appendFrequencyBounds r =
     ''['' @ int_to_string (lowMhz r) @ '','' @ int_to_string (highMhz r) @ '')''"

definition appendFrequencyDetail :: "FrequencyRange \<Rightarrow> string" where
  "appendFrequencyDetail r =
     appendFrequencyBounds r @ '' width=''
     @ (case subOverflow (highMhz r) (lowMhz r) of None \<Rightarrow> ''?'' | Some w \<Rightarrow> int_to_string w)"

definition printable_char :: "char \<Rightarrow> bool" where
  "printable_char c \<longleftrightarrow> (0x20 :: nat) \<le> of_char c \<and> (of_char c :: nat) \<le> 0x7E"

definition appendText :: "string \<Rightarrow> string" where
  "appendText t =
     (if t = [] then ''-''
      else let limit = min (length t) kMaxTextBytes
           in map (\<lambda>c. if printable_char c then c else CHR ''.'') (take limit t)
              @ (if length t > limit then ''...'' else []))"

fun join_commas :: "string list \<Rightarrow> string" where
  "join_commas [] = []"
| "join_commas [x] = x"
| "join_commas (x # y # xs) = x @ CHR '','' # join_commas (y # xs)"

definition more_text :: "nat \<Rightarrow> string" where
  "more_text n = '',+'' @ nat_to_string n @ '' more''"

definition append_list :: "nat \<Rightarrow> ('a \<Rightarrow> string) \<Rightarrow> 'a list \<Rightarrow> string" where
  "append_list maximum render xs =
     (let listed = min (length xs) maximum
      in ''['' @ join_commas (map render (take listed xs))
         @ (if length xs > listed then more_text (length xs - listed) else []) @ '']'')"

definition appendIdentityList :: "ReservationId list \<Rightarrow> string" where
  "appendIdentityList ids = append_list kMaxListedIdentities raw_to_string ids"

definition appendSlotRangeList :: "SlotRange list \<Rightarrow> string" where
  "appendSlotRangeList rs = append_list kMaxListedIdentities appendSlotRangeDetail rs"

definition addSize :: "nat \<Rightarrow> nat \<Rightarrow> nat option" where
  "addSize l r = (if l > 0xFFFFFFFFFFFFFFFF - r then None else Some (l + r))"

definition appendEvidenceDigest :: "CapabilityEvidence \<Rightarrow> string" where
  "appendEvidenceDigest e = (if evidence_usable e then u64_to_string (evidence_digest e) else ''-'')"

section \<open>Renderings\<close>

definition renderSlotRange :: "SlotRange \<Rightarrow> string" where
  "renderSlotRange r = ''slots='' @ appendSlotRangeDetail r"

definition renderFrequencyRange :: "FrequencyRange \<Rightarrow> string" where
  "renderFrequencyRange r = ''mhz='' @ appendFrequencyDetail r"

definition renderDuration :: "Duration \<Rightarrow> string" where
  "renderDuration nanos =
     (let out = int_to_string nanos @ ''ns'';
          magnitude = (if nanos < 0 then 0 - word_of_int nanos else word_of_int nanos) :: u64
      in if magnitude = 0 then out
         else if magnitude mod word_of_int kNanosPerSecond = 0
         then out @ '' ('' @ int_to_string (nanos sdiv kNanosPerSecond) @ ''s)''
         else if magnitude mod word_of_int kNanosPerMillisecond = 0
         then out @ '' ('' @ int_to_string (nanos sdiv kNanosPerMillisecond) @ ''ms)''
         else if magnitude mod word_of_int kNanosPerMicrosecond = 0
         then out @ '' ('' @ int_to_string (nanos sdiv kNanosPerMicrosecond) @ ''us)''
         else out)"

text \<open>Days since the epoch to a civil date, and the calendar text of a second count.\<close>

definition civil_from_days :: "int \<Rightarrow> int \<times> int \<times> int" where
  "civil_from_days d =
     (let z = d + 719468;
          era = z div 146097;
          doe = z - era * 146097;
          yoe = (doe - doe div 1460 + doe div 36524 - doe div 146096) div 365;
          doy = doe - (365 * yoe + yoe div 4 - yoe div 100);
          mp = (5 * doy + 2) div 153;
          day = doy - (153 * mp + 2) div 5 + 1;
          month = (if mp < 10 then mp + 3 else mp - 9);
          year = yoe + era * 400 + (if month \<le> 2 then 1 else 0)
      in (year, month, day))"

definition two_digits :: "int \<Rightarrow> string" where
  "two_digits n = (if 0 \<le> n \<and> n < 10 then CHR ''0'' # int_to_string n else int_to_string n)"

definition strftime_utc :: "int \<Rightarrow> string" where
  "strftime_utc seconds =
     (let days = seconds div 86400;
          tod = seconds mod 86400;
          (year, month, day) = civil_from_days days
      in int_to_string year @ ''-'' @ two_digits month @ ''-'' @ two_digits day @ ''T''
         @ two_digits (tod div 3600) @ '':'' @ two_digits (tod mod 3600 div 60) @ '':''
         @ two_digits (tod mod 60) @ ''Z'')"

definition renderInstant :: "Instant \<Rightarrow> string" where
  "renderInstant nanos =
     (let out = int_to_string nanos @ ''ns'';
          elapsed = floorDiv nanos kNanosPerSecond
      in if elapsed < kI64Min \<or> elapsed > kI64Max then out
         else out @ '' ('' @ strftime_utc elapsed @ '')'')"

definition renderFence :: "ControllerFence \<Rightarrow> string" where
  "renderFence f =
     ''fence(epoch='' @ raw_to_string (epoch f) @ '',incarnation='' @ raw_to_string (incarnation f)
     @ '',valid='' @ bool_text (fence_valid f) @ '')''"

definition describeGrid :: "ChannelGrid \<Rightarrow> string" where
  "describeGrid g =
     ''grid id='' @ raw_to_string (grid_id g)
     @ '' generation='' @ raw_to_string (grid_generation g)
     @ '' kind='' @ gridKind_toToken (grid_kind g)
     @ '' anchorMhz='' @ int_to_string (anchorMhz g)
     @ '' slotWidthMhz='' @ int_to_string (slotWidthMhz g)
     @ '' slotCount='' @ nat_to_string (slotCount g)
     @ '' endMhz='' @ (case gridEndMhz g of None \<Rightarrow> ''?'' | Some e \<Rightarrow> int_to_string e)
     @ '' minSlotsPerChannel='' @ nat_to_string (minSlotsPerChannel g)
     @ '' maxSlotsPerChannel='' @ nat_to_string (maxSlotsPerChannel g)
     @ '' label='' @ appendText (grid_label g)"

definition describeSlotRange :: "ChannelGrid \<Rightarrow> SlotRange \<Rightarrow> string" where
  "describeSlotRange g r =
     ''slotRange grid='' @ raw_to_string (grid_id g)
     @ '' generation='' @ raw_to_string (grid_generation g)
     @ '' slotCount='' @ nat_to_string (slotCount g)
     @ '' slots='' @ appendSlotRangeDetail r
     @ (case frequencyOfSlotRange g r of
          Some f \<Rightarrow> '' mhz='' @ appendFrequencyDetail f
        | None \<Rightarrow> '' mhz=unrepresentable'')"

definition describeCapability :: "SpectrumCapability \<Rightarrow> string" where
  "describeCapability c =
     ''capability domain='' @ raw_to_string (cap_domain c)
     @ '' domainGeneration='' @ raw_to_string (cap_domainGeneration c)
     @ '' grid='' @ raw_to_string (cap_grid c)
     @ '' gridGeneration='' @ raw_to_string (cap_gridGeneration c)
     @ '' support='' @ support_toToken (cap_support c)
     @ '' window='' @ appendSlotRangeDetail (allocatableWindow c)
     @ '' tunable='' @ appendFrequencyDetail (frequencyRange (cap_minTunableMhz c) (cap_maxTunableMhz c))
     @ '' contiguityEnforced='' @ bool_text (cap_contiguityEnforced c)
     @ '' conversionSupported='' @ bool_text (cap_conversionSupported c)
     @ '' presenceEvidence='' @ appendEvidenceDigest (cap_presenceEvidence c)
     @ '' conversionEvidence='' @ appendEvidenceDigest (cap_conversionEvidence c)
     @ '' capabilityGeneration='' @ raw_to_string (cap_generation c)
     @ '' publisher='' @ raw_to_string (cap_publisher c)
     @ '' '' @ renderFence (cap_fence c)
     @ '' publishedAt='' @ renderInstant (cap_publishedAt c)
     @ '' detail='' @ appendText (cap_detail c)"

fun domain_pairs ::
    "SpectrumDomainId list \<Rightarrow> SpectrumDomainGeneration list \<Rightarrow> string list" where
  "domain_pairs [] gs = []"
| "domain_pairs (d # ds) [] = (raw_to_string d @ ''@?'') # domain_pairs ds []"
| "domain_pairs (d # ds) (g # gs) = (raw_to_string d @ ''@'' @ raw_to_string g) # domain_pairs ds gs"

definition constraint_total :: "SpectrumConstraints \<Rightarrow> nat option" where
  "constraint_total c =
     (case addSize (length (con_excludedSlots c)) (length (con_excludedFrequencies c)) of
        None \<Rightarrow> None
      | Some n \<Rightarrow> addSize n (length (con_mustNotConflictWith c)))"

definition describeRequest :: "SpectrumRequest \<Rightarrow> string" where
  "describeRequest r =
     ''request id='' @ raw_to_string (req_requestId r)
     @ '' generation='' @ raw_to_string (req_requestGeneration r)
     @ '' owner='' @ raw_to_string (req_owner r)
     @ '' ownerGeneration='' @ raw_to_string (req_ownerGeneration r)
     @ '' domains='' @ append_list kMaxListedDomains id
         (domain_pairs (req_domains r) (req_domainGenerations r))
     @ '' grid='' @ raw_to_string (req_grid r)
     @ '' gridGeneration='' @ raw_to_string (req_gridGeneration r)
     @ '' slots='' @ nat_to_string (req_slots r)
     @ '' contiguity='' @ contiguity_toToken (req_contiguity r)
     @ '' continuity='' @ continuity_toToken (req_continuity r)
     @ '' guardBandMhz='' @ int_to_string (req_guardBandMhz r)
     @ '' lease='' @ renderDuration (req_leaseDuration r)
     @ '' maxRenewals='' @ nat_to_string (req_maxRenewals r)
     @ '' frequencyWindows='' @ nat_to_string (length (req_frequencyWindows r))
     @ '' exclusionConstraints='' @ (case constraint_total (req_constraints r) of
          Some n \<Rightarrow> nat_to_string n | None \<Rightarrow> ''?'')
     @ '' excludedSlots='' @ nat_to_string (length (con_excludedSlots (req_constraints r)))
     @ '' excludedFrequencies='' @ nat_to_string (length (con_excludedFrequencies (req_constraints r)))
     @ '' mustNotConflictWith='' @ nat_to_string (length (con_mustNotConflictWith (req_constraints r)))"

definition describeRuntime :: "RuntimeStats \<Rightarrow> string" where
  "describeRuntime s =
     ''runtime allocationsCommitted='' @ u64_to_string (st_allocationsCommitted s)
     @ '' allocationsRefused='' @ u64_to_string (st_allocationsRefused s)
     @ '' candidatesEvaluated='' @ u64_to_string (st_candidatesEvaluated s)
     @ '' enumerationTruncations='' @ u64_to_string (st_enumerationTruncations s)
     @ '' renewals='' @ u64_to_string (st_renewals s)
     @ '' releases='' @ u64_to_string (st_releases s)
     @ '' activations='' @ u64_to_string (st_activations s)
     @ '' deactivations='' @ u64_to_string (st_deactivations s)
     @ '' expirationSweeps='' @ u64_to_string (st_expirationSweeps s)
     @ '' reclamations='' @ u64_to_string (st_reclamations s)
     @ '' persistenceWrites='' @ u64_to_string (st_persistenceWrites s)
     @ '' persistenceFailures='' @ u64_to_string (st_persistenceFailures s)
     @ '' replayRejections='' @ u64_to_string (st_replayRejections s)
     @ '' corruptionDetections='' @ u64_to_string (st_corruptionDetections s)"

definition describeCandidate :: "SpectrumCandidate \<Rightarrow> string" where
  "describeCandidate c =
     ''candidate ordinal='' @ nat_to_string (cand_ordinal c)
     @ '' domain='' @ raw_to_string (cand_anchorDomain c)
     @ '' eligibility='' @ eligibility_toToken (cand_eligibility c)
     @ '' slots='' @ appendSlotRangeDetail (cand_slots c)
     @ '' mhz='' @ appendFrequencyDetail (cand_frequency c)
     @ '' crossGrid='' @ bool_text (cand_crossGrid c)
     @ '' conflicts='' @ appendIdentityList (cand_conflicts c)
     @ '' perDomainSlots='' @ appendSlotRangeList (cand_perDomainSlots c)
     @ '' detail='' @ appendText (cand_detail c)"

definition explanation_summary :: "DecisionExplanation \<Rightarrow> string" where
  "explanation_summary e =
     ''outcome='' @ outcome_toToken (exp_outcome e)
     @ '' reservation='' @ raw_to_string (exp_reservation e)
     @ '' generation='' @ raw_to_string (exp_generation e)
     @ '' '' @ renderFence (exp_fence e)
     @ '' candidatesEnumerated='' @ nat_to_string (exp_candidatesEnumerated e)
     @ '' candidatesRejected='' @ nat_to_string (exp_candidatesRejected e)
     @ '' candidatesOmitted='' @ nat_to_string (exp_candidatesOmitted e)
     @ '' candidateOrdinal='' @ nat_to_string (exp_candidateOrdinal e)
     @ '' rejectedExplained='' @ nat_to_string (length (exp_rejected e))
     @ '' conflicts='' @ appendIdentityList (exp_conflicts e)
     @ '' reasons='' @ nat_to_string (length (exp_reasons e))
     @ '' firstReason='' @ (case exp_reasons e of [] \<Rightarrow> ''-'' | x # _ \<Rightarrow> appendText x)
     @ '' selectedOrdinal='' @ (if exp_outcome e = Allocated
          then nat_to_string (cand_ordinal (exp_selected e)) else ''-'')"

definition describeDecision :: "AllocationDecision \<Rightarrow> string" where
  "describeDecision d =
     ''decision allocated='' @ bool_text (dec_allocated d)
     @ '' status='' @ statusCode_toToken (code (dec_status d))
     @ '' statusMessage='' @ appendText (message (dec_status d))
     @ '' outcome='' @ outcome_toToken (dec_outcome d)
     @ '' reservation='' @ raw_to_string (dec_reservation d)
     @ '' generation='' @ raw_to_string (dec_generation d)
     @ '' '' @ explanation_summary (dec_explanation d)"

definition describeReclaim :: "ReclaimReport \<Rightarrow> string" where
  "describeReclaim r =
     ''reclaim status='' @ statusCode_toToken (code (rep_status r))
     @ '' statusMessage='' @ appendText (message (rep_status r))
     @ '' evaluatedAt='' @ renderInstant (rep_evaluatedAt r)
     @ '' '' @ renderFence (rep_fence r)
     @ '' scanned='' @ nat_to_string (rep_scanned r)
     @ '' expired='' @ nat_to_string (rep_expired r)
     @ '' reclaimed='' @ nat_to_string (length (rep_reclaimed r))
     @ '':'' @ appendIdentityList (rep_reclaimed r)
     @ '' lapsed='' @ nat_to_string (length (rep_lapsed r))
     @ '':'' @ appendIdentityList (rep_lapsed r)"

definition describeRecovery :: "RecoveryReport \<Rightarrow> string" where
  "describeRecovery r =
     ''recovery status='' @ statusCode_toToken (code (rec_status r))
     @ '' statusMessage='' @ appendText (message (rec_status r))
     @ '' recovered='' @ bool_text (rec_recovered r)
     @ '' source='' @ appendText (rec_source r)
     @ '' '' @ renderFence (rec_fence r)
     @ '' runtimeGeneration='' @ raw_to_string (rec_runtimeGeneration r)
     @ '' recoveryGeneration='' @ raw_to_string (rec_recoveryGeneration r)
     @ '' recordsRead='' @ u64_to_string (rec_recordsRead r)
     @ '' recordsAccepted='' @ u64_to_string (rec_recordsAccepted r)
     @ '' recordsRejected='' @ u64_to_string (rec_recordsRejected r)
     @ '' gridsRestored='' @ nat_to_string (rec_gridsRestored r)
     @ '' domainsRestored='' @ nat_to_string (rec_domainsRestored r)
     @ '' exclusionDomainsRestored='' @ nat_to_string (rec_exclusionDomainsRestored r)
     @ '' capabilitiesRestored='' @ nat_to_string (rec_capabilitiesRestored r)
     @ '' reservationsRestored='' @ nat_to_string (rec_reservationsRestored r)
     @ '' auditsRestored='' @ nat_to_string (rec_auditsRestored r)
     @ '' demotedFromActive='' @ nat_to_string (rec_demotedFromActive r)
     @ '' diagnostics='' @ nat_to_string (length (rec_diagnostics r))
     @ '' firstDiagnostic='' @ (case rec_diagnostics r of [] \<Rightarrow> ''-'' | x # _ \<Rightarrow> appendText x)"

definition describeAudit :: "AuditRecord \<Rightarrow> string" where
  "describeAudit a =
     ''audit sequence='' @ raw_to_string (aud_sequence a)
     @ '' at='' @ renderInstant (aud_at a)
     @ '' kind='' @ auditKind_toToken (aud_kind a)
     @ '' '' @ renderFence (aud_fence a)
     @ '' outcome='' @ outcome_toToken (aud_outcome a)
     @ '' reservation='' @ raw_to_string (aud_reservation a)
     @ '' reservationGeneration='' @ raw_to_string (aud_reservationGeneration a)
     @ '' domain='' @ raw_to_string (aud_domain a)
     @ '' slots='' @ appendSlotRangeDetail (aud_slots a)
     @ '' mhz='' @ appendFrequencyDetail (aud_frequency a)
     @ '' detail='' @ appendText (aud_detail a)"

section \<open>Every rendering is one line of printable text\<close>

definition printable :: "string \<Rightarrow> bool" where
  "printable s \<longleftrightarrow> list_all printable_char s"

lemma printable_append [simp]: "printable (s @ t) \<longleftrightarrow> printable s \<and> printable t"
  by (simp add: printable_def)

lemma printable_Nil [simp]: "printable []"
  by (simp add: printable_def)

lemma printable_Cons: "printable (c # s) \<longleftrightarrow> printable_char c \<and> printable s"
  by (simp add: printable_def)

lemma printable_nat [simp]: "printable (nat_to_string n)"
proof (induction n rule: nat_to_string.induct)
  case (1 n)
  have digit: "printable [char_of (48 + d)]" if "d < 10" for d :: nat
    using that by (simp add: printable_Cons printable_char_def of_char_digit)
  show ?case
  proof (cases "n < 10")
    case True
    then show ?thesis
      by (subst nat_to_string.simps) (simp add: digit)
  next
    case False
    then show ?thesis
      using 1 digit [of "n mod 10"] by (subst nat_to_string.simps) simp
  qed
qed

lemmas printable_lit = printable_Cons printable_char_def

lemma printable_int [simp]: "printable (int_to_string n)"
  by (simp add: int_to_string_def printable_lit)

lemma printable_u64 [simp]: "printable (u64_to_string n)" "printable (raw_to_string v)"
  by (simp_all add: u64_to_string_def raw_to_string_def)

lemma printable_text [simp]: "printable (appendText t)"
proof -
  have "list_all printable_char (map (\<lambda>c. if printable_char c then c else CHR ''.'') xs)" for xs
    by (induction xs) (auto simp: printable_char_def)
  then show ?thesis
    by (simp add: appendText_def printable_lit printable_def [symmetric] Let_def)
qed

lemma appendText_bound: "length (appendText t) \<le> kMaxTextBytes + 3"
  by (cases "128 < length t") (simp_all add: appendText_def Let_def kMaxTextBytes_def not_less)

lemma printable_join: "(\<And>x. x \<in> set xs \<Longrightarrow> printable x) \<Longrightarrow> printable (join_commas xs)"
  by (induction xs rule: join_commas.induct) (auto simp: printable_lit)

lemma printable_list: "(\<And>x. x \<in> set xs \<Longrightarrow> printable (render x)) \<Longrightarrow> printable (append_list n render xs)"
proof -
  assume render: "\<And>x. x \<in> set xs \<Longrightarrow> printable (render x)"
  then have "printable (join_commas (map render (take m xs)))" for m
    by (intro printable_join) (auto dest: in_set_takeD)
  then show ?thesis
    by (simp add: append_list_def printable_lit more_text_def Let_def)
qed

lemma printable_bool [simp]: "printable (bool_text b)"
  by (simp add: bool_text_def printable_lit)

lemma printable_slots [simp]: "printable (appendSlotRangeDetail r)"
  by (simp add: appendSlotRangeDetail_def appendSlotBounds_def printable_lit split: option.split)

lemma printable_frequency [simp]: "printable (appendFrequencyDetail r)"
  by (simp add: appendFrequencyDetail_def appendFrequencyBounds_def printable_lit split: option.split)

lemma printable_lists [simp]: "printable (appendIdentityList ids)" "printable (appendSlotRangeList rs)"
  by (simp_all add: appendIdentityList_def appendSlotRangeList_def printable_list)

lemma printable_digest [simp]: "printable (appendEvidenceDigest e)"
  by (simp add: appendEvidenceDigest_def printable_lit)

lemma printable_duration [simp]: "printable (renderDuration d)"
  by (simp add: renderDuration_def printable_lit Let_def)

lemma printable_two_digits [simp]: "printable (two_digits n)"
  by (simp add: two_digits_def printable_lit)

lemma printable_instant [simp]: "printable (renderInstant t)"
  by (simp add: renderInstant_def strftime_utc_def printable_lit Let_def split: prod.split)

lemma printable_fence [simp]: "printable (renderFence f)"
  by (simp add: renderFence_def printable_lit)

lemma printable_kind [simp]: "printable (gridKind_toToken k)"
  by (cases k) (simp_all add: printable_lit)

lemma printable_support [simp]: "printable (support_toToken su)"
  by (cases su) (simp_all add: support_toToken_def kSpectrumSupportTokens_def printable_lit)

lemma printable_requirements [simp]:
  "printable (contiguity_toToken cg)" "printable (continuity_toToken cn)"
  by (cases cg; simp add: contiguity_toToken_def kContiguityTokens_def printable_lit)
    (cases cn; simp add: continuity_toToken_def kContinuityTokens_def printable_lit)

lemma printable_eligibility [simp]: "printable (eligibility_toToken e)"
  by (cases e) (simp_all add: eligibility_toToken_def kCandidateEligibilityTokens_def printable_lit)

lemma printable_outcome [simp]: "printable (outcome_toToken oc)"
  by (cases oc) (simp_all add: outcome_toToken_def kAllocationOutcomeTokens_def printable_lit)

lemma printable_status [simp]: "printable (statusCode_toToken c)"
  by (cases c) (simp_all add: statusCode_toToken_def kStatusCodeTokens_def printable_lit)

lemma printable_audit_kind [simp]: "printable (auditKind_toToken ak)"
  by (cases ak) (simp_all add: auditKind_toToken_def kAuditKindTokens_def printable_lit)

lemma printable_describeGrid: "printable (describeGrid g)"
  by (simp add: describeGrid_def printable_lit split: option.split)

lemma printable_describeCapability: "printable (describeCapability c)"
  by (simp add: describeCapability_def printable_lit)

lemma printable_domain_pairs: "x \<in> set (domain_pairs ds gs) \<Longrightarrow> printable x"
  by (induction ds gs rule: domain_pairs.induct) (auto simp: printable_lit)

lemma printable_describeRequest: "printable (describeRequest r)"
  by (simp add: describeRequest_def printable_lit printable_list printable_domain_pairs split: option.split)

lemma printable_describeRuntime: "printable (describeRuntime s)"
  by (simp add: describeRuntime_def printable_lit)

lemma printable_describeCandidate: "printable (describeCandidate c)"
  by (simp add: describeCandidate_def printable_lit)

lemma printable_explanation [simp]: "printable (explanation_summary e)"
  by (simp add: explanation_summary_def printable_lit split: list.split)

lemma printable_describeDecision: "printable (describeDecision d)"
  by (simp add: describeDecision_def printable_lit)

lemma printable_describeReclaim: "printable (describeReclaim r)"
  by (simp add: describeReclaim_def printable_lit)

lemma printable_describeRecovery: "printable (describeRecovery r)"
  by (simp add: describeRecovery_def printable_lit split: list.split)

lemma printable_describeAudit: "printable (describeAudit a)"
  by (simp add: describeAudit_def printable_lit)

end
