(* ===== verification/Registration.thy ===== *)
theory Registration
  imports Candidates Text
begin

unbundle bit_operations_syntax

text \<open>
  The public operations of \<open>runtime_core.cpp\<close> and \<open>runtime_capability.cpp\<close>: construction with a
  fresh incarnation, advancing the authority, registering grids, spans, ports, domains and
  exclusion domains, publishing a capability, and reset. Each operation takes the wall clock
  reading the code obtains from \<open>systemNow\<close> as its argument \<open>sysNow\<close> and returns the new state
  with the status. Every operation here leaves reservations and the live index alone (reset
  clears both), so ownership is created elsewhere.
\<close>

section \<open>Incarnations\<close>

definition mix64 :: "u64 \<Rightarrow> u64" where
  "mix64 v0 =
     (let v1 = v0 + 0x9E3779B97F4A7C15;
          v2 = (v1 XOR drop_bit 30 v1) * 0xBF58476D1CE4E5B9;
          v3 = (v2 XOR drop_bit 27 v2) * 0x94D049BB133111EB
      in v3 XOR drop_bit 31 v3)"

text \<open>Process id, clock reading and process-local sequence number are what the host supplies.\<close>

definition nextIncarnation :: "u64 \<Rightarrow> u64 \<Rightarrow> u64 \<Rightarrow> u64" where
  "nextIncarnation processId now step =
     (let v = mix64 (processId XOR mix64 now XOR mix64 step) mod kMaxFenceValue
      in if v = 0 then 1 else v)"

section \<open>Construction\<close>

definition normalise_config :: "RuntimeConfig \<Rightarrow> RuntimeConfig" where
  "normalise_config c =
     (let atLeastOne = (\<lambda>n. if n = 0 then 1 else n :: nat);
          candidates = atLeastOne (cfg_maxCandidatesPerRequest c)
      in c\<lparr>cfg_maxCandidatesPerRequest :=
             (if candidates > kMaxCandidatesPerRequest then kMaxCandidatesPerRequest else candidates),
           cfg_maxRejectedExplanations :=
             (if cfg_maxRejectedExplanations c > 256 then 256 else cfg_maxRejectedExplanations c),
           cfg_maxAuditRecords := atLeastOne (cfg_maxAuditRecords c),
           cfg_maxAuditPageSize := atLeastOne (cfg_maxAuditPageSize c),
           cfg_maxReservations := atLeastOne (cfg_maxReservations c),
           cfg_maxGrids := atLeastOne (cfg_maxGrids c),
           cfg_maxDomains := atLeastOne (cfg_maxDomains c),
           cfg_maxExclusionDomains := atLeastOne (cfg_maxExclusionDomains c)\<rparr>)"

definition msg_constructed :: string where "msg_constructed = ''runtime constructed''"
definition msg_cleared :: string where "msg_cleared = ''runtime state cleared''"

definition SpectrumRuntime ::
    "RuntimeConfig \<Rightarrow> u64 \<Rightarrow> Instant \<Rightarrow> (string \<Rightarrow> u8 list option) \<Rightarrow> RuntimeState" where
  "SpectrumRuntime config inc sysNow disk =
     (let fence = \<lparr>epoch = StrongValue 1, incarnation = StrongValue inc\<rparr>
      in auditNote RuntimeOpened sysNow OutcomeUnknown msg_constructed
        \<lparr>rs_config = normalise_config config, rs_fence = fence,
         rs_runtimeGeneration = StrongValue 1, rs_recoveryGeneration = StrongValue 0,
         rs_authority = \<lparr>auth_eligibility = StrongValue 1, auth_reservation = StrongValue 1,
           auth_activation = StrongValue 1, auth_release = StrongValue 1, auth_fence = fence\<rparr>,
         rs_grids = [], rs_spans = [], rs_ports = [], rs_domains = [], rs_exclusionDomains = [],
         rs_domainExclusions = [], rs_capabilities = [], rs_reservations = [],
         rs_liveByDomain = [], rs_requestIndex = [], rs_audit = [],
         rs_auditSequence = StrongValue 0, rs_nextReservationId = StrongValue 1,
         rs_lastActivityAt = 0, rs_stats = default_stats, rs_disk = disk\<rparr>)"

section \<open>Authority\<close>

definition msg_advance_rejected :: "string \<Rightarrow> string" where
  "msg_advance_rejected m = ''authority advance rejected: '' @ m"
definition msg_generations_zero :: string where
  "msg_generations_zero = ''authority generations must be non-zero''"
definition msg_generations_backwards :: string where
  "msg_generations_backwards = ''authority generations never move backwards''"
definition msg_authority_unchanged :: string where
  "msg_authority_unchanged = ''authority state is unchanged''"
definition msg_advanced :: "AuthorityState \<Rightarrow> string" where
  "msg_advanced n = ''eligibility='' @ raw_to_string (auth_eligibility n)
     @ '' reservation='' @ raw_to_string (auth_reservation n)
     @ '' activation='' @ raw_to_string (auth_activation n)
     @ '' release='' @ raw_to_string (auth_release n)"

definition advanceAuthority :: "Instant \<Rightarrow> AuthorityState \<Rightarrow> RuntimeState \<Rightarrow> RuntimeState \<times> Status" where
  "advanceAuthority sysNow n s =
     (let fenceStatus = checkFence (rs_authority s) (auth_fence n); cur = rs_authority s
      in if \<not> status_ok fenceStatus
         then (auditNote ReplayRejected sysNow RefusedStaleAuthority
                 (msg_advance_rejected (message fenceStatus)) s, fenceStatus)
         else if \<not> sv_valid (auth_eligibility n) \<or> \<not> sv_valid (auth_reservation n)
                 \<or> \<not> sv_valid (auth_activation n) \<or> \<not> sv_valid (auth_release n)
         then (s, fail InvalidArgument msg_generations_zero)
         else if auth_eligibility n < auth_eligibility cur
                 \<or> auth_reservation n < auth_reservation cur
                 \<or> auth_activation n < auth_activation cur
                 \<or> auth_release n < auth_release cur
         then (s, fail StaleGeneration msg_generations_backwards)
         else if \<not> (auth_eligibility n \<noteq> auth_eligibility cur
                 \<or> auth_reservation n \<noteq> auth_reservation cur
                 \<or> auth_activation n \<noteq> auth_activation cur
                 \<or> auth_release n \<noteq> auth_release cur)
         then (s, fail Duplicate msg_authority_unchanged)
         else (auditNote AuthorityAdvanced sysNow OutcomeUnknown (msg_advanced n)
                 (s\<lparr>rs_authority := n\<rparr>), okStatus))"

section \<open>Registration\<close>

text \<open>
  The four registries that replace an entry only at a newer generation share this admission
  rule; the messages are built from the name of the resource.
\<close>

definition msg_duplicate :: "string \<Rightarrow> string \<Rightarrow> 'g StrongValue \<Rightarrow> string" where
  "msg_duplicate what name g = what @ name @ '' is already registered at generation '' @ raw_to_string g"
definition msg_registered_at :: "string \<Rightarrow> string \<Rightarrow> 'g StrongValue \<Rightarrow> string" where
  "msg_registered_at what name g = what @ name @ '' is registered at generation '' @ raw_to_string g"
definition msg_registered_stale ::
    "string \<Rightarrow> string \<Rightarrow> 'g StrongValue \<Rightarrow> 'g StrongValue \<Rightarrow> string" where
  "msg_registered_stale what name cur g = msg_registered_at what name cur @ ''; generation ''
     @ raw_to_string g @ '' is stale''"
definition s_grid_sp :: string where "s_grid_sp = ''grid ''"
definition s_span_sp :: string where "s_span_sp = ''span ''"
definition s_port_sp :: string where "s_port_sp = ''port ''"
definition s_domain_sp :: string where "s_domain_sp = ''domain ''"
definition s_exclusion_sp :: string where "s_exclusion_sp = ''exclusion domain ''"
definition msg_grid_bound :: "nat \<Rightarrow> string" where
  "msg_grid_bound n = ''grid registry is at its configured bound of '' @ nat_to_string n"
definition msg_domain_bound :: "nat \<Rightarrow> string" where
  "msg_domain_bound n = ''domain registry is at its configured bound of '' @ nat_to_string n"
definition msg_exclusion_bound :: string where
  "msg_exclusion_bound = ''exclusion domain registry is at its configured bound''"
definition msg_span_registered :: "Span \<Rightarrow> string" where
  "msg_span_registered x = ''span '' @ t_span (span_id x) @ '' generation '' @ raw_to_string (span_generation x)"
definition msg_port_registered :: "OpticalPort \<Rightarrow> string" where
  "msg_port_registered x = ''port '' @ t_port (port_id x) @ '' generation '' @ raw_to_string (port_generation x)"
definition msg_domain_no_grid :: "SpectrumDomain \<Rightarrow> string" where
  "msg_domain_no_grid d = ''domain '' @ t_domain (dom_id d) @ '' references unregistered grid '' @ t_grid (dom_grid d)"
definition msg_domain_grid_stale :: "SpectrumDomain \<Rightarrow> GridGeneration \<Rightarrow> string" where
  "msg_domain_grid_stale d g = ''domain '' @ t_domain (dom_id d) @ '' expects grid generation ''
     @ raw_to_string (dom_gridGeneration d) @ '' but the registered grid is at '' @ raw_to_string g"
definition msg_domain_no_span :: "SpectrumDomain \<Rightarrow> string" where
  "msg_domain_no_span d = ''domain '' @ t_domain (dom_id d) @ '' references unregistered span '' @ t_span (dom_span d)"
definition msg_domain_registered :: "SpectrumDomain \<Rightarrow> string" where
  "msg_domain_registered d = ''domain class='' @ resourceClass_toToken (dom_klass d) @ '' grid=''
     @ t_grid (dom_grid d) @ '' generation '' @ raw_to_string (dom_generation d)"
definition msg_exclusion_no_domain :: "ExclusionDomainId \<Rightarrow> SpectrumDomainId \<Rightarrow> string" where
  "msg_exclusion_no_domain e d = ''exclusion domain '' @ t_exclusion e
     @ '' references unregistered domain '' @ t_domain d"
definition msg_exclusion_full :: "SpectrumDomainId \<Rightarrow> nat \<Rightarrow> string" where
  "msg_exclusion_full d n = ''domain '' @ t_domain d @ '' already belongs to '' @ nat_to_string n
     @ '' exclusion domains''"
definition msg_exclusion_registered :: "ExclusionDomain \<Rightarrow> string" where
  "msg_exclusion_registered e = ''exclusion '' @ t_exclusion (exc_id e) @ '' members=''
     @ nat_to_string (length (exc_members e)) @ '' guard='' @ int_to_string (exc_guardBandMhz e) @ ''MHz''"

definition registerGrid :: "Instant \<Rightarrow> ChannelGrid \<Rightarrow> RuntimeState \<Rightarrow> RuntimeState \<times> Status" where
  "registerGrid sysNow grid s =
     (let shape = validateGrid grid;
          commit = (auditNote GridRegistered sysNow OutcomeUnknown (describeGrid grid)
                     (s\<lparr>rs_grids := om_set (grid_id grid) grid (rs_grids s)\<rparr>), okStatus)
      in if \<not> status_ok shape then (s, shape)
         else (case map_of (rs_grids s) (grid_id grid) of
             Some existing \<Rightarrow>
               if grid_generation grid = grid_generation existing
               then (s, fail Duplicate (msg_duplicate s_grid_sp (t_grid (grid_id grid)) (grid_generation grid)))
               else if grid_generation grid < grid_generation existing
               then (s, fail StaleGeneration (msg_registered_stale s_grid_sp (t_grid (grid_id grid))
                      (grid_generation existing) (grid_generation grid)))
               else commit
           | None \<Rightarrow>
               if length (rs_grids s) \<ge> cfg_maxGrids (rs_config s)
               then (s, fail LimitExceeded (msg_grid_bound (cfg_maxGrids (rs_config s))))
               else commit))"

definition registerSpan :: "Instant \<Rightarrow> Span \<Rightarrow> RuntimeState \<Rightarrow> RuntimeState \<times> Status" where
  "registerSpan sysNow x s =
     (let shape = validateSpan x;
          commit = (auditNote SpanRegistered sysNow OutcomeUnknown (msg_span_registered x)
                     (s\<lparr>rs_spans := om_set (span_id x) x (rs_spans s)\<rparr>), okStatus)
      in if \<not> status_ok shape then (s, shape)
         else (case map_of (rs_spans s) (span_id x) of
             Some existing \<Rightarrow>
               if span_generation x = span_generation existing
               then (s, fail Duplicate (msg_duplicate s_span_sp (t_span (span_id x)) (span_generation x)))
               else if span_generation x < span_generation existing
               then (s, fail StaleGeneration (msg_registered_at s_span_sp (t_span (span_id x))
                      (span_generation existing)))
               else commit
           | None \<Rightarrow> commit))"

definition registerPort :: "Instant \<Rightarrow> OpticalPort \<Rightarrow> RuntimeState \<Rightarrow> RuntimeState \<times> Status" where
  "registerPort sysNow x s =
     (let shape = validatePort x;
          commit = (auditNote PortRegistered sysNow OutcomeUnknown (msg_port_registered x)
                     (s\<lparr>rs_ports := om_set (port_id x) x (rs_ports s)\<rparr>), okStatus)
      in if \<not> status_ok shape then (s, shape)
         else (case map_of (rs_ports s) (port_id x) of
             Some existing \<Rightarrow>
               if port_generation x = port_generation existing
               then (s, fail Duplicate (msg_duplicate s_port_sp (t_port (port_id x)) (port_generation x)))
               else if port_generation x < port_generation existing
               then (s, fail StaleGeneration (msg_registered_at s_port_sp (t_port (port_id x))
                      (port_generation existing)))
               else commit
           | None \<Rightarrow> commit))"

definition registerDomain :: "Instant \<Rightarrow> SpectrumDomain \<Rightarrow> RuntimeState \<Rightarrow> RuntimeState \<times> Status" where
  "registerDomain sysNow d s =
     (let shape = validateDomain d;
          commit = (appendAudit DomainRegistered sysNow OutcomeUnknown sv_none sv_none (dom_id d)
                     default_slots default_frequency (msg_domain_registered d)
                     (s\<lparr>rs_domains := om_set (dom_id d) d (rs_domains s)\<rparr>), okStatus)
      in if \<not> status_ok shape then (s, shape)
         else (case map_of (rs_grids s) (dom_grid d) of
             None \<Rightarrow> (s, fail NotFound (msg_domain_no_grid d))
           | Some grid \<Rightarrow>
               if grid_generation grid \<noteq> dom_gridGeneration d
               then (s, fail StaleGeneration (msg_domain_grid_stale d (grid_generation grid)))
               else if sv_valid (dom_span d) \<and> map_of (rs_spans s) (dom_span d) = None
               then (s, fail NotFound (msg_domain_no_span d))
               else (case map_of (rs_domains s) (dom_id d) of
                   Some existing \<Rightarrow>
                     if dom_generation d = dom_generation existing
                     then (s, fail Duplicate (msg_duplicate s_domain_sp (t_domain (dom_id d)) (dom_generation d)))
                     else if dom_generation d < dom_generation existing
                     then (s, fail StaleGeneration (msg_registered_stale s_domain_sp (t_domain (dom_id d))
                            (dom_generation existing) (dom_generation d)))
                     else commit
                 | None \<Rightarrow>
                     if length (rs_domains s) \<ge> cfg_maxDomains (rs_config s)
                     then (s, fail LimitExceeded (msg_domain_bound (cfg_maxDomains (rs_config s))))
                     else commit)))"

subsection \<open>Exclusion domains\<close>

text \<open>Removing one exclusion domain from the membership lists of its members.\<close>

fun drop_membership ::
    "ExclusionDomainId \<Rightarrow> SpectrumDomainId list \<Rightarrow> (SpectrumDomainId, ExclusionDomainId list) omap \<Rightarrow>
     (SpectrumDomainId, ExclusionDomainId list) omap" where
  "drop_membership e [] m = m"
| "drop_membership e (d # ds) m =
     (case map_of m d of
        None \<Rightarrow> drop_membership e ds m
      | Some ids \<Rightarrow>
          let ids' = filter (\<lambda>x. x \<noteq> e) ids
          in drop_membership e ds (if ids' = [] then om_erase d m else om_set d ids' m))"

text \<open>
  The limit loop: \<open>domainExclusions[member]\<close> inserts an empty list for a member that has none, and
  the first full member stops it. The index it leaves behind is part of the result.
\<close>

fun check_membership ::
    "ExclusionDomainId \<Rightarrow> SpectrumDomainId list \<Rightarrow> (SpectrumDomainId, ExclusionDomainId list) omap \<Rightarrow>
     (SpectrumDomainId, ExclusionDomainId list) omap \<times> (SpectrumDomainId \<times> nat) option" where
  "check_membership e [] m = (m, None)"
| "check_membership e (d # ds) m =
     (let ids = (case map_of m d of None \<Rightarrow> [] | Some l \<Rightarrow> l);
          m' = (case map_of m d of None \<Rightarrow> om_set d [] m | Some l \<Rightarrow> m)
      in if length ids \<ge> kMaxExclusionDomainsPerMember \<and> e \<notin> set ids
         then (m', Some (d, length ids))
         else check_membership e ds m')"

fun add_membership ::
    "ExclusionDomainId \<Rightarrow> SpectrumDomainId list \<Rightarrow> (SpectrumDomainId, ExclusionDomainId list) omap \<Rightarrow>
     (SpectrumDomainId, ExclusionDomainId list) omap" where
  "add_membership e [] m = m"
| "add_membership e (d # ds) m =
     add_membership e ds
       (om_set d (insert_sorted e (case map_of m d of None \<Rightarrow> [] | Some l \<Rightarrow> l)) m)"

definition registerExclusionDomain ::
    "Instant \<Rightarrow> ExclusionDomain \<Rightarrow> RuntimeState \<Rightarrow> RuntimeState \<times> Status" where
  "registerExclusionDomain sysNow x s =
     (let shape = validateExclusionDomain x;
          existing = map_of (rs_exclusionDomains s) (exc_id x);
          proceed =
            (let dropped = (case existing of None \<Rightarrow> rs_domainExclusions s
                  | Some old \<Rightarrow> drop_membership (exc_id x) (exc_members old) (rs_domainExclusions s));
                 (checked, full) = check_membership (exc_id x) (exc_members x) dropped
             in case full of
                  Some (d, n) \<Rightarrow> (s\<lparr>rs_domainExclusions := checked\<rparr>,
                                  fail LimitExceeded (msg_exclusion_full d n))
                | None \<Rightarrow>
                    (auditNote ExclusionDomainRegistered sysNow OutcomeUnknown
                       (msg_exclusion_registered x)
                       (s\<lparr>rs_exclusionDomains := om_set (exc_id x) x (rs_exclusionDomains s),
                          rs_domainExclusions := add_membership (exc_id x) (exc_members x) checked\<rparr>),
                     okStatus))
      in if \<not> status_ok shape then (s, shape)
         else (case find (\<lambda>m. map_of (rs_domains s) m = None) (exc_members x) of
             Some m \<Rightarrow> (s, fail NotFound (msg_exclusion_no_domain (exc_id x) m))
           | None \<Rightarrow> (case existing of
               Some old \<Rightarrow>
                 if exc_generation x = exc_generation old
                 then (s, fail Duplicate (msg_duplicate s_exclusion_sp (t_exclusion (exc_id x)) (exc_generation x)))
                 else if exc_generation x < exc_generation old
                 then (s, fail StaleGeneration (msg_registered_at s_exclusion_sp (t_exclusion (exc_id x))
                        (exc_generation old)))
                 else proceed
             | None \<Rightarrow>
                 if length (rs_exclusionDomains s) \<ge> cfg_maxExclusionDomains (rs_config s)
                 then (s, fail LimitExceeded msg_exclusion_bound)
                 else proceed)))"

section \<open>Capability publication\<close>

definition msg_publication_rejected :: "string \<Rightarrow> string" where
  "msg_publication_rejected m = ''capability publication rejected: '' @ m"
definition msg_cap_no_domain :: "SpectrumDomainId \<Rightarrow> string" where
  "msg_cap_no_domain d = ''capability references unregistered domain '' @ t_domain d"
definition msg_cap_domain_stale :: "SpectrumCapability \<Rightarrow> SpectrumDomainGeneration \<Rightarrow> string" where
  "msg_cap_domain_stale c g = ''capability for domain '' @ t_domain (cap_domain c)
     @ '' names domain generation '' @ raw_to_string (cap_domainGeneration c)
     @ '' but the registered domain is at generation '' @ raw_to_string g"
definition msg_cap_grid_mismatch :: "SpectrumCapability \<Rightarrow> SpectrumDomain \<Rightarrow> string" where
  "msg_cap_grid_mismatch c d = ''capability grid '' @ t_grid (cap_grid c) @ '' generation ''
     @ raw_to_string (cap_gridGeneration c) @ '' must match domain grid '' @ t_grid (dom_grid d)
     @ '' generation '' @ raw_to_string (dom_gridGeneration d)"
definition msg_cap_no_grid :: "ChannelGridId \<Rightarrow> string" where
  "msg_cap_no_grid g = ''capability references unregistered grid '' @ t_grid g"
definition msg_cap_grid_stale :: "SpectrumCapability \<Rightarrow> GridGeneration \<Rightarrow> string" where
  "msg_cap_grid_stale c g = ''capability names grid generation '' @ raw_to_string (cap_gridGeneration c)
     @ '' but the registered grid is at generation '' @ raw_to_string g"
definition msg_cap_leaves_grid :: "SpectrumCapability \<Rightarrow> ChannelGrid \<Rightarrow> string" where
  "msg_cap_leaves_grid c g = ''allocatable window '' @ nat_to_string (cap_firstAllocatableSlot c) @ ''+''
     @ nat_to_string (cap_allocatableSlots c) @ '' leaves grid '' @ t_grid (grid_id g) @ '' with ''
     @ nat_to_string (slotCount g) @ '' slots''"
definition msg_cap_below_anchor :: string where
  "msg_cap_below_anchor = ''minTunableMhz is below the grid anchor frequency''"
definition msg_cap_span_overflow :: string where
  "msg_cap_span_overflow = ''grid frequency span is not representable''"
definition msg_cap_above_end :: string where
  "msg_cap_above_end = ''maxTunableMhz is above the grid end frequency''"
definition msg_cap_no_width :: string where
  "msg_cap_no_width = ''grid does not support any channel width''"
definition msg_cap_duplicate :: "SpectrumCapability \<Rightarrow> string" where
  "msg_cap_duplicate c = ''capability for domain '' @ t_domain (cap_domain c)
     @ '' is already published at generation '' @ raw_to_string (cap_generation c)"
definition msg_cap_stale :: "SpectrumCapability \<Rightarrow> CapabilityGeneration \<Rightarrow> string" where
  "msg_cap_stale c g = ''capability for domain '' @ t_domain (cap_domain c)
     @ '' is published at generation '' @ raw_to_string g @ ''; generation ''
     @ raw_to_string (cap_generation c) @ '' is stale''"

text \<open>The checks of a SUPPORTED claim against the registered grid.\<close>

definition check_supported_window :: "SpectrumCapability \<Rightarrow> ChannelGrid \<Rightarrow> Status" where
  "check_supported_window c g =
     (if cap_firstAllocatableSlot c + cap_allocatableSlots c > slotCount g
      then fail InvalidArgument (msg_cap_leaves_grid c g)
      else if cap_minTunableMhz c < anchorMhz g then fail InvalidArgument msg_cap_below_anchor
      else (case mulOverflow (slotWidthMhz g) (int (slotCount g)) of
          None \<Rightarrow> fail InvalidArgument msg_cap_span_overflow
        | Some span \<Rightarrow>
            (case addOverflow (anchorMhz g) span of
               None \<Rightarrow> fail InvalidArgument msg_cap_span_overflow
             | Some gridEnd \<Rightarrow>
                 if cap_maxTunableMhz c > gridEnd then fail InvalidArgument msg_cap_above_end
                 else if \<not> channelWidthSupported g
                      (if grid_kind g = Fixed then 1 else minSlotsPerChannel g)
                 then fail InvalidArgument msg_cap_no_width
                 else okStatus)))"

definition publishCapability ::
    "Instant \<Rightarrow> SpectrumCapability \<Rightarrow> RuntimeState \<Rightarrow> RuntimeState \<times> Status" where
  "publishCapability sysNow c s =
     (let fenceStatus = checkFence (rs_authority s) (cap_fence c);
          shape = validateCapabilityShape c;
          commit = (appendAudit CapabilityPublished
                      (if cap_publishedAt c = 0 then sysNow else cap_publishedAt c) OutcomeUnknown
                      sv_none sv_none (cap_domain c) (allocatableWindow c)
                      (frequencyRange (cap_minTunableMhz c) (cap_maxTunableMhz c))
                      (describeCapability c)
                      (s\<lparr>rs_capabilities := om_set (cap_domain c) c (rs_capabilities s)\<rparr>), okStatus)
      in if \<not> status_ok fenceStatus
         then (appendAudit ReplayRejected sysNow RefusedStaleAuthority sv_none sv_none (cap_domain c)
                 default_slots default_frequency (msg_publication_rejected (message fenceStatus)) s,
               fenceStatus)
         else if \<not> status_ok shape then (s, shape)
         else (case map_of (rs_domains s) (cap_domain c) of
             None \<Rightarrow> (s, fail NotFound (msg_cap_no_domain (cap_domain c)))
           | Some d \<Rightarrow>
               if dom_generation d \<noteq> cap_domainGeneration c
               then (s, fail StaleGeneration (msg_cap_domain_stale c (dom_generation d)))
               else if dom_grid d \<noteq> cap_grid c \<or> dom_gridGeneration d \<noteq> cap_gridGeneration c
               then (s, fail InvalidArgument (msg_cap_grid_mismatch c d))
               else (case map_of (rs_grids s) (cap_grid c) of
                   None \<Rightarrow> (s, fail NotFound (msg_cap_no_grid (cap_grid c)))
                 | Some g \<Rightarrow>
                     if grid_generation g \<noteq> cap_gridGeneration c
                     then (s, fail StaleGeneration (msg_cap_grid_stale c (grid_generation g)))
                     else
                       let window = (if cap_support c = Supported then check_supported_window c g
                                     else okStatus)
                       in if \<not> status_ok window then (s, window)
                          else (case map_of (rs_capabilities s) (cap_domain c) of
                              Some previous \<Rightarrow>
                                if cap_generation c = cap_generation previous
                                then (s, fail Duplicate (msg_cap_duplicate c))
                                else if cap_generation c < cap_generation previous
                                then (s, fail StaleGeneration (msg_cap_stale c (cap_generation previous)))
                                else commit
                            | None \<Rightarrow> commit))))"

section \<open>Reset\<close>

definition reset :: "Instant \<Rightarrow> RuntimeState \<Rightarrow> RuntimeState \<times> Status" where
  "reset sysNow s =
     (auditNote StateReset sysNow OutcomeUnknown msg_cleared
        (s\<lparr>rs_grids := [], rs_spans := [], rs_ports := [], rs_domains := [],
           rs_exclusionDomains := [], rs_domainExclusions := [], rs_capabilities := [],
           rs_reservations := [], rs_liveByDomain := [], rs_requestIndex := [], rs_audit := [],
           rs_auditSequence := StrongValue 0, rs_nextReservationId := StrongValue 1,
           rs_lastActivityAt := 0, rs_stats := default_stats\<rparr>), okStatus)"

section \<open>What registration leaves alone\<close>

text \<open>No operation of this theory but \<open>reset\<close> touches reservations, the live index or the
  request index.\<close>

definition keeps_leases :: "RuntimeState \<Rightarrow> RuntimeState \<Rightarrow> bool" where
  "keeps_leases s s' \<longleftrightarrow>
     rs_reservations s' = rs_reservations s \<and> rs_liveByDomain s' = rs_liveByDomain s
     \<and> rs_requestIndex s' = rs_requestIndex s \<and> rs_nextReservationId s' = rs_nextReservationId s
     \<and> rs_config s' = rs_config s \<and> rs_disk s' = rs_disk s"

lemma keeps_leases_refl [simp]: "keeps_leases s s"
  by (simp add: keeps_leases_def)

lemma auditNote_keeps [simp]: "keeps_leases s (auditNote k t out x s') \<longleftrightarrow> keeps_leases s s'"
  by (simp add: keeps_leases_def auditNote_def)

lemma appendAudit_keeps [simp]:
  "keeps_leases s (appendAudit k t out i g d sl f x s') \<longleftrightarrow> keeps_leases s s'"
  by (simp add: keeps_leases_def)

lemma update_keeps [simp]:
  "keeps_leases s (s\<lparr>rs_grids := a\<rparr>)" "keeps_leases s (s\<lparr>rs_spans := b\<rparr>)"
  "keeps_leases s (s\<lparr>rs_ports := c\<rparr>)" "keeps_leases s (s\<lparr>rs_domains := d\<rparr>)"
  "keeps_leases s (s\<lparr>rs_capabilities := e\<rparr>)" "keeps_leases s (s\<lparr>rs_domainExclusions := f\<rparr>)"
  "keeps_leases s (s\<lparr>rs_exclusionDomains := g, rs_domainExclusions := f\<rparr>)"
  "keeps_leases s (s\<lparr>rs_authority := h\<rparr>)"
  by (simp_all add: keeps_leases_def)

lemma registration_keeps:
  "keeps_leases s (fst (advanceAuthority t n s))"
  "keeps_leases s (fst (registerGrid t g s))"
  "keeps_leases s (fst (registerSpan t sp s))"
  "keeps_leases s (fst (registerPort t po s))"
  "keeps_leases s (fst (registerDomain t d s))"
  "keeps_leases s (fst (registerExclusionDomain t e s))"
  "keeps_leases s (fst (publishCapability t c s))"
  unfolding advanceAuthority_def registerGrid_def registerSpan_def registerPort_def registerDomain_def
    registerExclusionDomain_def publishCapability_def
  by (simp_all add: Let_def split: option.split prod.split)

lemma auditNote_ok: "audit_ok s \<Longrightarrow> audit_ok (auditNote k t out x s)"
  by (simp add: auditNote_def appendAudit_ok)

lemma update_audit_ok [simp]:
  "audit_ok (s\<lparr>rs_grids := a\<rparr>) \<longleftrightarrow> audit_ok s" "audit_ok (s\<lparr>rs_spans := b\<rparr>) \<longleftrightarrow> audit_ok s"
  "audit_ok (s\<lparr>rs_ports := c\<rparr>) \<longleftrightarrow> audit_ok s" "audit_ok (s\<lparr>rs_domains := d\<rparr>) \<longleftrightarrow> audit_ok s"
  "audit_ok (s\<lparr>rs_capabilities := e\<rparr>) \<longleftrightarrow> audit_ok s"
  "audit_ok (s\<lparr>rs_domainExclusions := f\<rparr>) \<longleftrightarrow> audit_ok s"
  "audit_ok (s\<lparr>rs_exclusionDomains := g, rs_domainExclusions := f\<rparr>) \<longleftrightarrow> audit_ok s"
  "audit_ok (s\<lparr>rs_authority := h\<rparr>) \<longleftrightarrow> audit_ok s"
  "audit_ok (s\<lparr>rs_exclusionDomains := g\<rparr>) \<longleftrightarrow> audit_ok s"
  "audit_ok (s\<lparr>rs_stats := st\<rparr>) \<longleftrightarrow> audit_ok s" "audit_ok (s\<lparr>rs_disk := di\<rparr>) \<longleftrightarrow> audit_ok s"
  "audit_ok (s\<lparr>rs_reservations := r\<rparr>) \<longleftrightarrow> audit_ok s" "audit_ok (s\<lparr>rs_liveByDomain := l\<rparr>) \<longleftrightarrow> audit_ok s"
  "audit_ok (s\<lparr>rs_requestIndex := ri\<rparr>) \<longleftrightarrow> audit_ok s"
  "audit_ok (s\<lparr>rs_lastActivityAt := la\<rparr>) \<longleftrightarrow> audit_ok s"
  "audit_ok (s\<lparr>rs_nextReservationId := ni\<rparr>) \<longleftrightarrow> audit_ok s"
  by (simp_all add: audit_ok_def)

lemma registration_audit:
  assumes "audit_ok s"
  shows "audit_ok (fst (advanceAuthority t n s))"
    and "audit_ok (fst (registerGrid t g s))"
    and "audit_ok (fst (registerSpan t sp s))"
    and "audit_ok (fst (registerPort t po s))"
    and "audit_ok (fst (registerDomain t d s))"
    and "audit_ok (fst (registerExclusionDomain t e s))"
    and "audit_ok (fst (publishCapability t c s))"
  using assms unfolding advanceAuthority_def registerGrid_def registerSpan_def registerPort_def
    registerDomain_def registerExclusionDomain_def publishCapability_def
  by (simp_all add: Let_def auditNote_ok appendAudit_ok split: option.split prod.split)

section \<open>Versioned registries\<close>

text \<open>
  The contract the six registries share: an accepted entry is valid, strictly newer than the one
  it replaces and is stored under its key; a refused one leaves the table as it was.
\<close>

definition registry_ok :: "('k::linorder, 'x) omap \<Rightarrow> ('x \<Rightarrow> 'k) \<Rightarrow> ('x \<Rightarrow> bool) \<Rightarrow> bool" where
  "registry_ok m key valid \<longleftrightarrow> om_ok m \<and> (\<forall>k x. map_of m k = Some x \<longrightarrow> key x = k \<and> valid x)"

locale versioned_registry =
  fixes register :: "Instant \<Rightarrow> 'x \<Rightarrow> RuntimeState \<Rightarrow> RuntimeState \<times> Status"
    and table :: "RuntimeState \<Rightarrow> ('k::linorder, 'x) omap"
    and key :: "'x \<Rightarrow> 'k"
    and gen :: "'x \<Rightarrow> 'g::linorder"
    and valid :: "'x \<Rightarrow> bool"
  assumes accepted: "status_ok (snd (register t x s)) \<Longrightarrow>
      table (fst (register t x s)) = om_set (key x) x (table s) \<and> valid x
      \<and> (\<forall>old. map_of (table s) (key x) = Some old \<longrightarrow> gen old < gen x)"
    and refused: "\<not> status_ok (snd (register t x s)) \<Longrightarrow> table (fst (register t x s)) = table s"
begin

lemma registry_ok_preserved:
  "registry_ok (table s) key valid \<Longrightarrow> registry_ok (table (fst (register t x s))) key valid"
  using accepted [of t x s] refused [of t x s]
  by (cases "status_ok (snd (register t x s))") (auto simp: registry_ok_def)

text \<open>The generation registered under a key never decreases, and no entry disappears.\<close>

lemma generation_monotone:
  assumes "map_of (table s) k = Some old"
  shows "\<exists>new. map_of (table (fst (register t x s))) k = Some new \<and> gen old \<le> gen new"
  using accepted [of t x s] refused [of t x s] assms
  by (cases "status_ok (snd (register t x s))"; cases "k = key x") (auto intro: less_imp_le)

text \<open>Replaying an accepted registration, or any older one, is refused and changes nothing.\<close>

lemma replay_refused:
  assumes "status_ok (snd (register t x s))" and "table s' = table (fst (register t x s))"
    and "key y = key x" and "gen y \<le> gen x"
  shows "\<not> status_ok (snd (register u y s'))" and "table (fst (register u y s')) = table s'"
proof -
  have "map_of (table s') (key y) = Some x"
    using accepted [OF assms(1)] assms(2,3) by simp
  then show "\<not> status_ok (snd (register u y s'))"
    using accepted [of u y s'] assms(4) by (metis not_le)
  then show "table (fst (register u y s')) = table s'"
    by (rule refused)
qed

end

text \<open>The six registries satisfy the contract.\<close>

lemma registerGrid_accepted:
  assumes "status_ok (snd (registerGrid t g s))"
  shows "rs_grids (fst (registerGrid t g s)) = om_set (grid_id g) g (rs_grids s)
    \<and> status_ok (validateGrid g)
    \<and> (\<forall>old. map_of (rs_grids s) (grid_id g) = Some old \<longrightarrow> grid_generation old < grid_generation g)"
  using assms unfolding registerGrid_def
  by (auto simp: Let_def auditNote_def not_less split: option.splits if_splits)

lemma registerSpan_accepted:
  assumes "status_ok (snd (registerSpan t x s))"
  shows "rs_spans (fst (registerSpan t x s)) = om_set (span_id x) x (rs_spans s)
    \<and> status_ok (validateSpan x)
    \<and> (\<forall>old. map_of (rs_spans s) (span_id x) = Some old \<longrightarrow> span_generation old < span_generation x)"
  using assms unfolding registerSpan_def
  by (auto simp: Let_def auditNote_def not_less split: option.splits if_splits)

lemma registerPort_accepted:
  assumes "status_ok (snd (registerPort t x s))"
  shows "rs_ports (fst (registerPort t x s)) = om_set (port_id x) x (rs_ports s)
    \<and> status_ok (validatePort x)
    \<and> (\<forall>old. map_of (rs_ports s) (port_id x) = Some old \<longrightarrow> port_generation old < port_generation x)"
  using assms unfolding registerPort_def
  by (auto simp: Let_def auditNote_def not_less split: option.splits if_splits)

lemma registerDomain_accepted:
  assumes "status_ok (snd (registerDomain t d s))"
  shows "rs_domains (fst (registerDomain t d s)) = om_set (dom_id d) d (rs_domains s)
    \<and> status_ok (validateDomain d)
    \<and> (\<forall>old. map_of (rs_domains s) (dom_id d) = Some old \<longrightarrow> dom_generation old < dom_generation d)"
proof (cases "map_of (rs_grids s) (dom_grid d)")
  case (Some g)
  then show ?thesis
    using assms
    by (cases "map_of (rs_domains s) (dom_id d)") (auto simp: registerDomain_def Let_def split: if_splits)
qed (use assms in \<open>simp add: registerDomain_def Let_def split: if_splits\<close>)

lemma registerExclusionDomain_accepted:
  assumes "status_ok (snd (registerExclusionDomain t x s))"
  shows "rs_exclusionDomains (fst (registerExclusionDomain t x s)) = om_set (exc_id x) x (rs_exclusionDomains s)
    \<and> status_ok (validateExclusionDomain x)
    \<and> (\<forall>old. map_of (rs_exclusionDomains s) (exc_id x) = Some old \<longrightarrow> exc_generation old < exc_generation x)"
proof (cases "find (\<lambda>m. map_of (rs_domains s) m = None) (exc_members x)")
  case None
  note unregistered = this
  show ?thesis
  proof (cases "map_of (rs_exclusionDomains s) (exc_id x)")
    case None
    obtain m full where "check_membership (exc_id x) (exc_members x) (rs_domainExclusions s) = (m, full)"
      by fastforce
    then show ?thesis
      using assms None unregistered
      by (cases full) (auto simp: registerExclusionDomain_def Let_def auditNote_def split: if_splits)
  next
    case (Some old)
    obtain m full where "check_membership (exc_id x) (exc_members x)
        (drop_membership (exc_id x) (exc_members old) (rs_domainExclusions s)) = (m, full)"
      by fastforce
    then show ?thesis
      using assms Some unregistered
      by (cases full) (auto simp: registerExclusionDomain_def Let_def auditNote_def split: if_splits)
  qed
qed (use assms in \<open>auto simp: registerExclusionDomain_def Let_def split: if_splits\<close>)

lemma publishCapability_accepted:
  assumes "status_ok (snd (publishCapability t c s))"
  shows "rs_capabilities (fst (publishCapability t c s)) = om_set (cap_domain c) c (rs_capabilities s)
    \<and> status_ok (validateCapabilityShape c)
    \<and> (\<forall>old. map_of (rs_capabilities s) (cap_domain c) = Some old \<longrightarrow> cap_generation old < cap_generation c)"
proof (cases "map_of (rs_domains s) (cap_domain c)")
  case (Some d)
  note d = this
  show ?thesis
  proof (cases "map_of (rs_grids s) (cap_grid c)")
    case (Some g)
    then show ?thesis
      using assms d
      by (cases "map_of (rs_capabilities s) (cap_domain c)")
        (auto simp: publishCapability_def Let_def split: if_split_asm)
  qed (use assms d in \<open>simp add: publishCapability_def Let_def split: if_split_asm\<close>)
qed (use assms in \<open>simp add: publishCapability_def Let_def split: if_split_asm\<close>)

lemma registration_refused:
  "status_ok (snd (registerGrid t g s)) \<or> fst (registerGrid t g s) = s"
  "status_ok (snd (registerSpan t sp s)) \<or> fst (registerSpan t sp s) = s"
  "status_ok (snd (registerPort t po s)) \<or> fst (registerPort t po s) = s"
  "status_ok (snd (registerDomain t d s)) \<or> fst (registerDomain t d s) = s"
  "status_ok (snd (registerExclusionDomain t e s)) \<or>
     rs_exclusionDomains (fst (registerExclusionDomain t e s)) = rs_exclusionDomains s"
  "status_ok (snd (publishCapability t c s)) \<or>
     rs_capabilities (fst (publishCapability t c s)) = rs_capabilities s"
  unfolding registerGrid_def registerSpan_def registerPort_def registerDomain_def
    registerExclusionDomain_def publishCapability_def
  by (simp_all add: Let_def split: option.split prod.split)

definition valid_grid :: "ChannelGrid \<Rightarrow> bool" where
  "valid_grid g \<longleftrightarrow> status_ok (validateGrid g)"

interpretation grid_registry: versioned_registry registerGrid rs_grids grid_id grid_generation valid_grid
  unfolding valid_grid_def
  by unfold_locales (rule registerGrid_accepted, assumption, metis registration_refused)

interpretation span_registry: versioned_registry registerSpan rs_spans span_id span_generation
    "\<lambda>x. status_ok (validateSpan x)"
  by unfold_locales (rule registerSpan_accepted, assumption, metis registration_refused)

interpretation port_registry: versioned_registry registerPort rs_ports port_id port_generation
    "\<lambda>x. status_ok (validatePort x)"
  by unfold_locales (rule registerPort_accepted, assumption, metis registration_refused)

interpretation domain_registry: versioned_registry registerDomain rs_domains dom_id dom_generation
    "\<lambda>x. status_ok (validateDomain x)"
  by unfold_locales (rule registerDomain_accepted, assumption, metis registration_refused)

interpretation exclusion_registry: versioned_registry registerExclusionDomain rs_exclusionDomains exc_id
    exc_generation "\<lambda>x. status_ok (validateExclusionDomain x)"
  by unfold_locales (rule registerExclusionDomain_accepted, assumption, metis registration_refused)

interpretation capability_registry: versioned_registry publishCapability rs_capabilities cap_domain
    cap_generation "\<lambda>x. status_ok (validateCapabilityShape x)"
  by unfold_locales (rule publishCapability_accepted, assumption, metis registration_refused)

text \<open>What the runtime keeps of its registries: every entry is valid and stored under its key.\<close>

definition grids_ok :: "RuntimeState \<Rightarrow> bool" where
  "grids_ok s \<longleftrightarrow> registry_ok (rs_grids s) grid_id valid_grid"

lemma grids_ok_wf: "grids_ok s \<Longrightarrow> map_of (rs_grids s) i = Some g \<Longrightarrow> grid_wf g \<and> grid_id g = i"
  by (auto simp: grids_ok_def registry_ok_def valid_grid_def validateGrid_iff)

lemma keeps_leases_trans: "keeps_leases s t \<Longrightarrow> keeps_leases t u \<Longrightarrow> keeps_leases s u"
  by (simp add: keeps_leases_def)

text \<open>Every operation but \<open>registerGrid\<close> leaves the grid registry alone.\<close>

lemma registration_grids:
  "rs_grids (fst (advanceAuthority t n s)) = rs_grids s"
  "rs_grids (fst (registerSpan t sp s)) = rs_grids s"
  "rs_grids (fst (registerPort t po s)) = rs_grids s"
  "rs_grids (fst (registerDomain t d s)) = rs_grids s"
  "rs_grids (fst (registerExclusionDomain t e s)) = rs_grids s"
  "rs_grids (fst (publishCapability t c s)) = rs_grids s"
  unfolding advanceAuthority_def registerSpan_def registerPort_def registerDomain_def
    registerExclusionDomain_def publishCapability_def
  by (simp_all add: Let_def auditNote_def split: option.split prod.split)

lemma registration_grids_ok:
  assumes "grids_ok s"
  shows "grids_ok (fst (advanceAuthority t n s))" and "grids_ok (fst (registerGrid t g s))"
    and "grids_ok (fst (registerSpan t sp s))" and "grids_ok (fst (registerPort t po s))"
    and "grids_ok (fst (registerDomain t d s))" and "grids_ok (fst (registerExclusionDomain t e s))"
    and "grids_ok (fst (publishCapability t c s))"
  using assms grid_registry.registry_ok_preserved [of s t g]
  by (simp_all add: grids_ok_def registration_grids)

text \<open>
  Every registry is versioned: registering a grid, span, port, domain, exclusion domain or
  capability never removes an entry and never lowers its generation, whether the operation is
  accepted or refused.
\<close>

lemma registries_move_forward:
  "(map_of (rs_grids s) i = Some g \<longrightarrow> (\<exists>new. map_of (rs_grids (fst (registerGrid t x1 s))) i = Some new
      \<and> grid_generation g \<le> grid_generation new))
   \<and> (map_of (rs_spans s) j = Some sp \<longrightarrow> (\<exists>new. map_of (rs_spans (fst (registerSpan t x2 s))) j = Some new
      \<and> span_generation sp \<le> span_generation new))
   \<and> (map_of (rs_ports s) k = Some po \<longrightarrow> (\<exists>new. map_of (rs_ports (fst (registerPort t x3 s))) k = Some new
      \<and> port_generation po \<le> port_generation new))
   \<and> (map_of (rs_domains s) d = Some domain \<longrightarrow>
      (\<exists>new. map_of (rs_domains (fst (registerDomain t x4 s))) d = Some new
      \<and> dom_generation domain \<le> dom_generation new))
   \<and> (map_of (rs_exclusionDomains s) x = Some e \<longrightarrow>
      (\<exists>new. map_of (rs_exclusionDomains (fst (registerExclusionDomain t x5 s))) x = Some new
      \<and> exc_generation e \<le> exc_generation new))
   \<and> (map_of (rs_capabilities s) d = Some c \<longrightarrow>
      (\<exists>new. map_of (rs_capabilities (fst (publishCapability t x6 s))) d = Some new
      \<and> cap_generation c \<le> cap_generation new))"
  by (intro conjI impI grid_registry.generation_monotone span_registry.generation_monotone
      port_registry.generation_monotone domain_registry.generation_monotone
      exclusion_registry.generation_monotone capability_registry.generation_monotone)

end
