(* ===== verification/Persistence.thy ===== *)
theory Persistence
  imports Encoder Registration
begin

text \<open>
  The saving half of \<open>runtime_persist.cpp\<close>: publishing a byte image through a temporary file and an
  atomic rename, \<open>saveLocked\<close> with its statistics and audit records, and the durable-commit gate
  \<open>persistAfterMutation\<close>. The answers of the file system calls are the argument \<open>io\<close>: whether the
  temporary file opened, how many bytes were written, whether closing it succeeded, and whether
  the rename did. The lemmas show that a save that reports failure leaves the published image as
  it was, and that saving never touches ownership.
\<close>

record FileIo =
  io_open :: bool
  io_written :: nat
  io_close :: bool
  io_rename :: "string option"

record Host =
  host_now :: Instant
  host_io :: FileIo

definition s_tmp :: string where "s_tmp = ''.tmp''"
definition msg_no_path :: string where "msg_no_path = ''no state path configured''"
definition msg_cannot_open :: "string \<Rightarrow> string" where
  "msg_cannot_open p = ''cannot open '' @ p @ '' for writing''"
definition msg_short_write :: "string \<Rightarrow> string" where "msg_short_write p = ''short write to '' @ p"
definition msg_cannot_flush :: "string \<Rightarrow> string" where "msg_cannot_flush p = ''cannot flush '' @ p"
definition msg_cannot_publish :: "string \<Rightarrow> string \<Rightarrow> string" where
  "msg_cannot_publish p e = ''cannot publish '' @ p @ '': '' @ e"
definition msg_runtime_no_path :: string where
  "msg_runtime_no_path = ''the runtime has no configured state path''"
definition msg_encode_failed :: "string \<Rightarrow> string" where
  "msg_encode_failed m = ''encode failed: '' @ m"
definition msg_state_bound :: "nat \<Rightarrow> u64 \<Rightarrow> string" where
  "msg_state_bound n m = ''encoded state is '' @ nat_to_string n
     @ '' bytes, above the configured bound of '' @ u64_to_string m"
definition msg_wrote :: "nat \<Rightarrow> string \<Rightarrow> string" where
  "msg_wrote n p = ''wrote '' @ nat_to_string n @ '' bytes to '' @ p"

text \<open>
  The temporary file exists between \<open>fopen\<close> and the rename only: every failing path removes it.
  \<open>fsync\<close> has no observable effect on the contents.
\<close>

definition writeStateFile ::
    "FileIo \<Rightarrow> string \<Rightarrow> u8 list \<Rightarrow> (string \<Rightarrow> u8 list option) \<Rightarrow>
     (string \<Rightarrow> u8 list option) \<times> Status" where
  "writeStateFile io path bytes disk =
     (let temporary = path @ s_tmp; disk0 = disk(temporary := None)
      in if path = [] then (disk, fail InvalidArgument msg_no_path)
         else if \<not> io_open io then (disk0, fail IoError (msg_cannot_open temporary))
         else
           let disk1 = disk0(temporary := Some (take (io_written io) bytes))
           in if io_written io \<noteq> length bytes
              then (disk1(temporary := None), fail IoError (msg_short_write temporary))
              else if \<not> io_close io
              then (disk1(temporary := None), fail IoError (msg_cannot_flush temporary))
              else (case io_rename io of
                  Some e \<Rightarrow> (disk1(temporary := None), fail IoError (msg_cannot_publish path e))
                | None \<Rightarrow> (disk1(path := disk1 temporary, temporary := None), okStatus)))"

definition note_failure :: "Instant \<Rightarrow> string \<Rightarrow> RuntimeState \<Rightarrow> RuntimeState" where
  "note_failure sysNow m s =
     auditNote PersistenceFailed sysNow OutcomeUnknown m
       (s\<lparr>rs_stats := (rs_stats s)\<lparr>st_persistenceFailures := st_persistenceFailures (rs_stats s) + 1\<rparr>\<rparr>)"

definition saveLocked :: "Host \<Rightarrow> RuntimeState \<Rightarrow> RuntimeState \<times> Status" where
  "saveLocked h s =
     (if cfg_statePath (rs_config s) = [] then (s, fail InvalidArgument msg_runtime_no_path)
      else (case encodeState s of
          Inl encoded \<Rightarrow> (note_failure (host_now h) (msg_encode_failed (message encoded)) s, encoded)
        | Inr bytes \<Rightarrow>
            if length bytes > unat (cfg_maxStateBytes (rs_config s))
            then let status = fail LimitExceeded
                       (msg_state_bound (length bytes) (cfg_maxStateBytes (rs_config s)))
                 in (note_failure (host_now h) (message status) s, status)
            else
              let (disk, written) = writeStateFile (host_io h) (cfg_statePath (rs_config s)) bytes (rs_disk s);
                  s1 = s\<lparr>rs_disk := disk\<rparr>
              in if \<not> status_ok written
                 then (note_failure (host_now h) (message written) s1, written)
                 else (auditNote PersistenceFlushed (host_now h) OutcomeUnknown
                         (msg_wrote (length bytes) (cfg_statePath (rs_config s)))
                         (s1\<lparr>rs_stats := (rs_stats s1)\<lparr>st_persistenceWrites :=
                            st_persistenceWrites (rs_stats s1) + 1\<rparr>\<rparr>), okStatus)))"

definition persistAfterMutation :: "Host \<Rightarrow> RuntimeState \<Rightarrow> RuntimeState \<times> Status" where
  "persistAfterMutation h s =
     (if \<not> cfg_durableCommits (rs_config s) \<or> cfg_statePath (rs_config s) = [] then (s, okStatus)
      else saveLocked h s)"

definition save :: "Host \<Rightarrow> RuntimeState \<Rightarrow> RuntimeState \<times> Status" where
  "save h s = saveLocked h s"

section \<open>Publication is atomic\<close>

lemma path_neq_tmp [simp]: "path @ s_tmp \<noteq> path" "path \<noteq> path @ s_tmp" "s_tmp \<noteq> []"
  by (simp_all add: s_tmp_def)

lemma writeStateFile_failure:
  assumes "\<not> status_ok (snd (writeStateFile io path bytes disk))"
  shows "fst (writeStateFile io path bytes disk) path = disk path"
  using assms by (auto simp: writeStateFile_def Let_def split: option.splits if_splits)

lemma writeStateFile_success:
  assumes "status_ok (snd (writeStateFile io path bytes disk))"
  shows "fst (writeStateFile io path bytes disk) path = Some bytes"
    and "fst (writeStateFile io path bytes disk) (path @ s_tmp) = None"
  using assms by (auto simp: writeStateFile_def Let_def split: option.splits if_splits)

lemma writeStateFile_other:
  "q \<noteq> path \<Longrightarrow> q \<noteq> path @ s_tmp \<Longrightarrow> fst (writeStateFile io path bytes disk) q = disk q"
  by (auto simp: writeStateFile_def Let_def split: option.splits)

section \<open>Saving leaves ownership alone\<close>

lemma auditNote_frame [simp, frame_simps]:
  "rs_config (auditNote k t out x s) = rs_config s"
  "rs_fence (auditNote k t out x s) = rs_fence s"
  "rs_authority (auditNote k t out x s) = rs_authority s"
  "rs_grids (auditNote k t out x s) = rs_grids s"
  "rs_spans (auditNote k t out x s) = rs_spans s"
  "rs_ports (auditNote k t out x s) = rs_ports s"
  "rs_domains (auditNote k t out x s) = rs_domains s"
  "rs_exclusionDomains (auditNote k t out x s) = rs_exclusionDomains s"
  "rs_domainExclusions (auditNote k t out x s) = rs_domainExclusions s"
  "rs_capabilities (auditNote k t out x s) = rs_capabilities s"
  "rs_reservations (auditNote k t out x s) = rs_reservations s"
  "rs_liveByDomain (auditNote k t out x s) = rs_liveByDomain s"
  "rs_requestIndex (auditNote k t out x s) = rs_requestIndex s"
  "rs_auditSequence (auditNote k t out x s) = bump (rs_auditSequence s)"
  "rs_nextReservationId (auditNote k t out x s) = rs_nextReservationId s"
  "rs_lastActivityAt (auditNote k t out x s) = rs_lastActivityAt s"
  "rs_stats (auditNote k t out x s) = rs_stats s"
  "rs_disk (auditNote k t out x s) = rs_disk s"
  by (simp_all add: auditNote_def)

lemma note_failure_frame [simp, frame_simps]:
  "rs_config (note_failure t m s) = rs_config s"
  "rs_fence (note_failure t m s) = rs_fence s"
  "rs_authority (note_failure t m s) = rs_authority s"
  "rs_grids (note_failure t m s) = rs_grids s"
  "rs_domains (note_failure t m s) = rs_domains s"
  "rs_exclusionDomains (note_failure t m s) = rs_exclusionDomains s"
  "rs_domainExclusions (note_failure t m s) = rs_domainExclusions s"
  "rs_capabilities (note_failure t m s) = rs_capabilities s"
  "rs_reservations (note_failure t m s) = rs_reservations s"
  "rs_liveByDomain (note_failure t m s) = rs_liveByDomain s"
  "rs_requestIndex (note_failure t m s) = rs_requestIndex s"
  "rs_nextReservationId (note_failure t m s) = rs_nextReservationId s"
  "rs_lastActivityAt (note_failure t m s) = rs_lastActivityAt s"
  "rs_disk (note_failure t m s) = rs_disk s"
  by (simp_all add: note_failure_def)

text \<open>The part of the state that says who owns what, and under which rules it was granted.\<close>

definition same_ownership :: "RuntimeState \<Rightarrow> RuntimeState \<Rightarrow> bool" where
  "same_ownership s s' \<longleftrightarrow>
     rs_reservations s' = rs_reservations s \<and> rs_liveByDomain s' = rs_liveByDomain s
     \<and> rs_requestIndex s' = rs_requestIndex s \<and> rs_nextReservationId s' = rs_nextReservationId s
     \<and> rs_config s' = rs_config s \<and> rs_fence s' = rs_fence s \<and> rs_authority s' = rs_authority s
     \<and> rs_grids s' = rs_grids s \<and> rs_domains s' = rs_domains s
     \<and> rs_exclusionDomains s' = rs_exclusionDomains s
     \<and> rs_domainExclusions s' = rs_domainExclusions s \<and> rs_capabilities s' = rs_capabilities s
     \<and> rs_lastActivityAt s' = rs_lastActivityAt s"

lemma same_ownership_trans: "same_ownership s t \<Longrightarrow> same_ownership t u \<Longrightarrow> same_ownership s u"
  by (simp add: same_ownership_def)

lemma same_ownership_refl [simp]: "same_ownership s s"
  by (simp add: same_ownership_def)

lemma same_ownership_live: "same_ownership s s' \<Longrightarrow> live_exact s' \<longleftrightarrow> live_exact s"
  by (simp add: same_ownership_def live_exact_def owns_def)

lemma same_ownership_reservations_ok: "same_ownership s s' \<Longrightarrow> reservations_ok s' \<longleftrightarrow> reservations_ok s"
  by (simp add: same_ownership_def reservations_ok_def)

lemma saveLocked_ownership: "same_ownership s (fst (saveLocked h s))"
  by (auto simp: saveLocked_def same_ownership_def Let_def split: sum.split prod.split)

lemma persistAfterMutation_ownership: "same_ownership s (fst (persistAfterMutation h s))"
  by (simp add: persistAfterMutation_def saveLocked_ownership)

lemma persistAfterMutation_off:
  "\<not> cfg_durableCommits (rs_config s) \<Longrightarrow> persistAfterMutation h s = (s, okStatus)"
  by (simp add: persistAfterMutation_def)

text \<open>A failed save leaves the published image untouched; a successful one publishes the encoding.\<close>

lemma saveLocked_failure_disk:
  assumes "\<not> status_ok (snd (saveLocked h s))"
  shows "rs_disk (fst (saveLocked h s)) (cfg_statePath (rs_config s)) = rs_disk s (cfg_statePath (rs_config s))"
proof (cases "encodeState s")
  case (Inr bytes)
  obtain disk written where w: "writeStateFile (host_io h) (cfg_statePath (rs_config s)) bytes (rs_disk s)
      = (disk, written)" by fastforce
  show ?thesis
    using assms Inr w writeStateFile_failure [of "host_io h" "cfg_statePath (rs_config s)" bytes "rs_disk s"]
    by (auto simp: saveLocked_def Let_def split: if_splits)
qed (simp add: saveLocked_def)

lemma saveLocked_success_disk:
  assumes "status_ok (snd (saveLocked h s))"
  obtains bytes where "encodeState s = Inr bytes"
    and "rs_disk (fst (saveLocked h s)) (cfg_statePath (rs_config s)) = Some bytes"
    and "length bytes \<le> unat (cfg_maxStateBytes (rs_config s))"
proof (cases "encodeState s")
  case (Inl st)
  then have "\<not> status_ok st"
    by (auto simp: encodeState_def Let_def split: if_splits)
  then show ?thesis
    using assms Inl by (simp add: saveLocked_def split: if_splits)
next
  case (Inr bytes)
  obtain disk written where w: "writeStateFile (host_io h) (cfg_statePath (rs_config s)) bytes (rs_disk s)
      = (disk, written)" by fastforce
  show ?thesis
    using that [of bytes] assms Inr w
      writeStateFile_success [of "host_io h" "cfg_statePath (rs_config s)" bytes "rs_disk s"]
    by (auto simp: saveLocked_def Let_def split: if_splits)
qed

end
