(* ===== verification/Ownership.thy ===== *)
theory Ownership
  imports Candidates Persistence
begin

text \<open>
  The specification of spectrum ownership. \<open>table_inv\<close> is the consistency of the reservation table,
  the live index and the identity counter; \<open>lease_inv t\<close> says that every recorded placement is well
  formed and that any two reservations that own spectrum at \<open>t\<close> or later and share a domain keep
  the larger of their guard bands apart. Allocation and the lifecycle operations are built from
  the few changes of the table treated here: putting a record back, erasing one, pruning,
  entering a fresh one, and shrinking what is owned.
\<close>

section \<open>Invariants\<close>

definition shares_domain :: "SpectrumReservation \<Rightarrow> SpectrumReservation \<Rightarrow> bool" where
  "shares_domain a b \<longleftrightarrow> (\<exists>d. d \<in> set (res_domains a) \<and> d \<in> set (res_domains b))"

definition common_guard :: "SpectrumReservation \<Rightarrow> SpectrumReservation \<Rightarrow> int" where
  "common_guard a b = max (res_guardBandMhz a) (res_guardBandMhz b)"

definition compatible :: "SpectrumReservation \<Rightarrow> SpectrumReservation \<Rightarrow> bool" where
  "compatible a b \<longleftrightarrow> (shares_domain a b \<longrightarrow>
     \<not> frequencyConflict (res_frequency a) (common_guard a b) (res_frequency b) (common_guard a b))"

definition placed :: "SpectrumReservation \<Rightarrow> bool" where
  "placed r \<longleftrightarrow> frequency_bounded (res_frequency r) \<and> \<not> freq_empty (res_frequency r)
     \<and> 0 \<le> res_guardBandMhz r \<and> res_guardBandMhz r \<le> kMaxGuardBandMhz"

definition ids_below :: "RuntimeState \<Rightarrow> bool" where
  "ids_below s \<longleftrightarrow> sv_valid (rs_nextReservationId s)
     \<and> (\<forall>i. map_of (rs_reservations s) i \<noteq> None \<longrightarrow> i < rs_nextReservationId s)"

text \<open>Between two operations no record is left in a transient state.\<close>

fun resting :: "ReservationState \<Rightarrow> bool" where
  "resting Reserved = True"
| "resting Active = True"
| "resting Released = True"
| "resting Expired = True"
| "resting Reclaimed = True"
| "resting Superseded = True"
| "resting _ = False"

definition states_ok :: "RuntimeState \<Rightarrow> bool" where
  "states_ok s \<longleftrightarrow> (\<forall>i r. map_of (rs_reservations s) i = Some r \<longrightarrow> resting (res_state r))"

definition table_inv :: "RuntimeState \<Rightarrow> bool" where
  "table_inv s \<longleftrightarrow> reservations_ok s \<and> live_exact s \<and> ids_below s \<and> states_ok s"

definition exclusive :: "Instant \<Rightarrow> RuntimeState \<Rightarrow> bool" where
  "exclusive t s \<longleftrightarrow> (\<forall>i j a b. map_of (rs_reservations s) i = Some a \<longrightarrow>
     map_of (rs_reservations s) j = Some b \<longrightarrow> i \<noteq> j \<longrightarrow> isLiveAt a t \<longrightarrow> isLiveAt b t \<longrightarrow>
     compatible a b)"

definition lease_inv :: "Instant \<Rightarrow> RuntimeState \<Rightarrow> bool" where
  "lease_inv t s \<longleftrightarrow>
     (\<forall>i r. map_of (rs_reservations s) i = Some r \<longrightarrow> placed r) \<and> exclusive t s"

lemma shares_domain_sym: "shares_domain a b = shares_domain b a"
  by (auto simp: shares_domain_def)

lemma compatible_sym: "compatible a b = compatible b a"
  by (simp add: compatible_def shares_domain_sym [of a b] frequencyConflict_sym [of "res_frequency a"]
      common_guard_def max.commute)

text \<open>Compatible reservations neither overlap nor conflict in the sense of \<open>reservationsConflict\<close>.\<close>

lemma compatible_no_overlap:
  assumes "compatible a b" and "placed a" and "placed b" and "shares_domain a b"
  shows "\<not> freq_overlaps (res_frequency a) (res_frequency b)" and "\<not> reservationsConflict a b"
proof -
  let ?g = "common_guard a b"
  have g: "0 \<le> ?g" "?g \<le> kMaxGuardBandMhz" "res_guardBandMhz a \<le> ?g" "res_guardBandMhz b \<le> ?g"
    using assms(2,3) by (auto simp: placed_def common_guard_def)
  have no: "\<not> frequencyConflict (res_frequency a) ?g (res_frequency b) ?g"
    using assms(1,4) by (simp add: compatible_def)
  then show "\<not> freq_overlaps (res_frequency a) (res_frequency b)"
    using frequencyConflict_overlap assms(2,3) g(1,2) unfolding placed_def by blast
  have "\<not> frequencyConflict (res_frequency a) (res_guardBandMhz a) (res_frequency b) (res_guardBandMhz b)"
    using no g assms(2,3) by (simp add: placed_def frequencyConflict_eq) linarith
  then show "\<not> reservationsConflict a b"
    by (simp add: reservationsConflict_def)
qed

text \<open>Liveness only goes away as time passes, so the invariant is kept by the clock.\<close>

lemma isLiveAt_antimono: "isLiveAt r u \<Longrightarrow> t \<le> u \<Longrightarrow> isLiveAt r t"
  by (auto simp: isLiveAt_def lease_validAt_def)

lemma lease_inv_later: "lease_inv t s \<Longrightarrow> t \<le> u \<Longrightarrow> lease_inv u s"
  unfolding lease_inv_def exclusive_def using isLiveAt_antimono by blast

section \<open>Changes of the table\<close>

lemma table_inv_frame:
  "table_inv s \<Longrightarrow> rs_reservations s' = rs_reservations s \<Longrightarrow> rs_liveByDomain s' = rs_liveByDomain s \<Longrightarrow>
   rs_nextReservationId s' = rs_nextReservationId s \<Longrightarrow> table_inv s'"
  using live_exact_frame [of s s'] by (simp add: table_inv_def ids_below_def reservations_ok_def states_ok_def)

lemma lease_inv_frame: "lease_inv t s \<Longrightarrow> rs_reservations s' = rs_reservations s \<Longrightarrow> lease_inv t s'"
  by (simp add: lease_inv_def exclusive_def)

lemma table_inv_put:
  assumes "table_inv s" and "sv_valid (res_id r)" and "res_id r < rs_nextReservationId s"
    and "rs_reservations s' = om_set (res_id r) r (rs_reservations s)"
    and "rs_liveByDomain s' = reindex r (rs_liveByDomain s)"
    and "rs_nextReservationId s' = rs_nextReservationId s" and "resting (res_state r)"
  shows "table_inv s'"
  using assms live_exact_put [of s s' r] reservations_ok_put [of s r s']
  by (auto simp: table_inv_def ids_below_def states_ok_def)

lemma table_inv_known:
  assumes "table_inv s" and "map_of (rs_reservations s) i = Some r"
  shows "res_id r = i" and "sv_valid i" and "i < rs_nextReservationId s" and "resting (res_state r)"
  using assms by (auto simp: table_inv_def reservations_ok_def ids_below_def states_ok_def)

lemma table_inv_erase:
  assumes "table_inv s" and "rs_reservations s' = om_erase i (rs_reservations s)"
    and "rs_liveByDomain s' = index_remove i (rs_liveByDomain s)"
    and "rs_nextReservationId s' = rs_nextReservationId s"
  shows "table_inv s'"
  using assms live_exact_erase [of s s' i] reservations_ok_erase [of s s' i]
  by (auto simp: table_inv_def ids_below_def states_ok_def)

lemma table_inv_prune: "table_inv s \<Longrightarrow> table_inv (pruneTerminalReservations s)"
proof -
  assume inv: "table_inv s"
  then have om: "om_ok (rs_reservations s)"
    by (simp add: table_inv_def reservations_ok_def)
  show ?thesis
    using inv prune_live_exact [OF om] prune_reservations_ok [of s] prune_submap [OF om]
    unfolding table_inv_def ids_below_def states_ok_def prune_frame
    by (metis option.exhaust option.distinct(1))
qed

text \<open>Entering a fresh reservation under the next identity.\<close>

lemma table_inv_insert:
  assumes "table_inv s" and "raw (rs_nextReservationId s) < 0xFFFFFFFFFFFFFFFF"
    and "res_id r = rs_nextReservationId s" and "isLiveState (res_state r)" and "resting (res_state r)"
    and "rs_reservations s' = om_emplace (res_id r) r (rs_reservations s)"
    and "rs_liveByDomain s' = index_add (res_id r) (res_domains r) (rs_liveByDomain s)"
    and "rs_nextReservationId s' = bump (rs_nextReservationId s)"
  shows "table_inv s'"
    and "map_of (rs_reservations s) (res_id r) = None"
    and "rs_reservations s' = om_set (res_id r) r (rs_reservations s)"
proof -
  show fresh: "map_of (rs_reservations s) (res_id r) = None"
    using assms(1,3) by (auto simp: table_inv_def ids_below_def)
  then show set: "rs_reservations s' = om_set (res_id r) r (rs_reservations s)"
    using assms(6) by (simp add: om_emplace_def)
  have "\<not> owns s d (res_id r)" for d
    using fresh by (simp add: owns_def)
  then have "reindex r (rs_liveByDomain s) = index_add (res_id r) (res_domains r) (rs_liveByDomain s)"
    using assms(1,4) by (intro reindex_fresh) (auto simp: table_inv_def)
  then have "live_exact s'"
    using assms(1,7) set by (intro live_exact_put [of s s' r]) (auto simp: table_inv_def)
  moreover have "reservations_ok s'"
    using assms(1,3) set by (intro reservations_ok_put [of s r s']) (auto simp: table_inv_def ids_below_def)
  moreover have "ids_below s'"
  proof -
    have next1: "rs_nextReservationId s < bump (rs_nextReservationId s)"
      using assms(2) by (rule bump_greater)
    moreover have "sv_valid (bump (rs_nextReservationId s))"
      using next1 by (simp add: sv_valid_def less_StrongValue_def) (metis word_not_simps(1))
    ultimately show ?thesis
      using assms(1,3,8) set by (auto simp: table_inv_def ids_below_def intro: less_trans)
  qed
  moreover have "states_ok s'"
    using assms(1,5) set by (auto simp: table_inv_def states_ok_def)
  ultimately show "table_inv s'"
    by (simp add: table_inv_def)
qed

lemma lease_inv_insert:
  assumes "lease_inv t s" and "placed r"
    and "rs_reservations s' = om_set (res_id r) r (rs_reservations s)"
    and "\<And>i q. map_of (rs_reservations s) i = Some q \<Longrightarrow> isLiveAt q t \<Longrightarrow> compatible r q"
  shows "lease_inv t s'"
proof -
  have "exclusive t s'"
    unfolding exclusive_def assms(3) map_of_om_set
  proof (intro allI impI)
    fix i j a b
    assume "((map_of (rs_reservations s))(res_id r \<mapsto> r)) i = Some a"
      "((map_of (rs_reservations s))(res_id r \<mapsto> r)) j = Some b" "i \<noteq> j" "isLiveAt a t" "isLiveAt b t"
    then show "compatible a b"
      using assms(1,4) unfolding lease_inv_def exclusive_def
      by (metis compatible_sym fun_upd_apply option.inject)
  qed
  then show ?thesis
    using assms(1-3) by (auto simp: lease_inv_def)
qed

section \<open>Shrinking\<close>

text \<open>Every record of the new table stands for one of the old at the same place that was live if
  the new one is.\<close>

definition same_place :: "SpectrumReservation \<Rightarrow> SpectrumReservation \<Rightarrow> bool" where
  "same_place r q \<longleftrightarrow> res_domains r = res_domains q \<and> res_frequency r = res_frequency q
     \<and> res_guardBandMhz r = res_guardBandMhz q"

definition shrinks :: "Instant \<Rightarrow> RuntimeState \<Rightarrow> RuntimeState \<Rightarrow> bool" where
  "shrinks t s s' \<longleftrightarrow> (\<forall>i r. map_of (rs_reservations s') i = Some r \<longrightarrow>
     (\<exists>q. map_of (rs_reservations s) i = Some q \<and> same_place r q \<and> (isLiveAt r t \<longrightarrow> isLiveAt q t)))"

lemma same_place_refl [simp]: "same_place r r"
  by (simp add: same_place_def)

lemma shrinks_frame: "rs_reservations s' = rs_reservations s \<Longrightarrow> shrinks t s s'"
  by (simp add: shrinks_def)

lemma shrinks_trans: "shrinks t s s' \<Longrightarrow> shrinks t s' s'' \<Longrightarrow> shrinks t s s''"
  unfolding shrinks_def same_place_def by metis

lemma shrinks_put:
  assumes "rs_reservations s' = om_set i r (rs_reservations s)"
    and "map_of (rs_reservations s) i = Some q" and "same_place r q" and "isLiveAt r t \<Longrightarrow> isLiveAt q t"
  shows "shrinks t s s'"
  using assms by (auto simp: shrinks_def)

lemma shrinks_submap:
  "(\<And>i r. map_of (rs_reservations s') i = Some r \<Longrightarrow> map_of (rs_reservations s) i = Some r) \<Longrightarrow> shrinks t s s'"
  unfolding shrinks_def using same_place_refl by blast

lemma shrinks_prune: "om_ok (rs_reservations s) \<Longrightarrow> shrinks t s (pruneTerminalReservations s)"
  using prune_submap by (rule shrinks_submap)

lemma lease_inv_shrinks:
  assumes "lease_inv t s" and "shrinks t s s'"
  shows "lease_inv t s'"
proof -
  have placed_eq: "placed r \<longleftrightarrow> placed q" if "same_place r q" for r q
    using that by (simp add: placed_def same_place_def)
  have comp_eq: "compatible r r' \<longleftrightarrow> compatible q q'" if "same_place r q" "same_place r' q'" for r r' q q'
    using that by (simp add: compatible_def same_place_def shares_domain_def common_guard_def)
  have old: "\<exists>q. map_of (rs_reservations s) i = Some q \<and> same_place r q \<and> (isLiveAt r t \<longrightarrow> isLiveAt q t)"
    if "map_of (rs_reservations s') i = Some r" for i r
    using assms(2) that by (simp add: shrinks_def)
  have "placed r" if "map_of (rs_reservations s') i = Some r" for i r
    using old [OF that] assms(1) placed_eq unfolding lease_inv_def by blast
  moreover have "compatible a b" if ab: "map_of (rs_reservations s') i = Some a"
    "map_of (rs_reservations s') j = Some b" "i \<noteq> j" "isLiveAt a t" "isLiveAt b t" for i j a b
  proof -
    obtain p q where "map_of (rs_reservations s) i = Some p" "same_place a p" "isLiveAt p t"
      "map_of (rs_reservations s) j = Some q" "same_place b q" "isLiveAt q t"
      using old [OF ab(1)] old [OF ab(2)] ab(4,5) by blast
    then show ?thesis
      using assms(1) ab(3) comp_eq [of a p b q] unfolding lease_inv_def exclusive_def by blast
  qed
  ultimately show ?thesis
    unfolding lease_inv_def exclusive_def by blast
qed

lemma table_inv_live: "table_inv s \<Longrightarrow> live_exact s"
  by (simp add: table_inv_def)

lemma table_inv_om: "table_inv s \<Longrightarrow> om_ok (rs_reservations s)"
  by (simp add: table_inv_def reservations_ok_def)

lemma resting_cases:
  "resting st \<Longrightarrow> isLiveState st \<Longrightarrow> st = Reserved \<or> st = Active"
  by (cases st) auto

lemma same_ownership_table: "same_ownership s s' \<Longrightarrow> table_inv s \<Longrightarrow> table_inv s'"
  by (erule table_inv_frame) (simp_all add: same_ownership_def)

section \<open>What an operation on leases leaves alone\<close>

text \<open>No operation on reservations touches the registries, the configuration or the authority.\<close>

definition same_rules :: "RuntimeState \<Rightarrow> RuntimeState \<Rightarrow> bool" where
  "same_rules s s' \<longleftrightarrow>
     rs_config s' = rs_config s \<and> rs_fence s' = rs_fence s \<and> rs_authority s' = rs_authority s
     \<and> rs_grids s' = rs_grids s \<and> rs_domains s' = rs_domains s
     \<and> rs_exclusionDomains s' = rs_exclusionDomains s
     \<and> rs_domainExclusions s' = rs_domainExclusions s \<and> rs_capabilities s' = rs_capabilities s"

lemma same_rules_refl [simp]: "same_rules s s"
  by (simp add: same_rules_def)

lemma same_rules_trans: "same_rules s t \<Longrightarrow> same_rules t u \<Longrightarrow> same_rules s u"
  by (simp add: same_rules_def)

lemma same_ownership_rules: "same_ownership s s' \<Longrightarrow> same_rules s s'"
  by (simp add: same_ownership_def same_rules_def)

lemma same_rules_audit [simp]:
  "same_rules s (appendAudit k t out i g d sl f x s') \<longleftrightarrow> same_rules s s'"
  by (simp add: same_rules_def)

lemma same_rules_grids: "same_rules s s' \<Longrightarrow> grids_ok s' \<longleftrightarrow> grids_ok s"
  by (simp add: same_rules_def grids_ok_def)

lemma saveLocked_audit: "audit_ok s \<Longrightarrow> audit_ok (fst (saveLocked h s))"
  by (auto simp: saveLocked_def note_failure_def Let_def auditNote_ok split: sum.split prod.split)

lemma persistAfterMutation_audit: "audit_ok s \<Longrightarrow> audit_ok (fst (persistAfterMutation h s))"
  by (simp add: persistAfterMutation_def saveLocked_audit)


section \<open>The live index helpers\<close>

lemma add_remove_frame [simp, frame_simps]:
  "rs_reservations (addLiveReservation q s) = rs_reservations s"
  "rs_requestIndex (addLiveReservation q s) = rs_requestIndex s"
  "rs_nextReservationId (addLiveReservation q s) = rs_nextReservationId s"
  "rs_stats (addLiveReservation q s) = rs_stats s" "rs_config (addLiveReservation q s) = rs_config s"
  "same_rules s (addLiveReservation q s)" "audit_ok (addLiveReservation q s) = audit_ok s"
  "rs_lastActivityAt (addLiveReservation q s) = rs_lastActivityAt s"
  "rs_reservations (removeLiveReservation i s) = rs_reservations s"
  "rs_requestIndex (removeLiveReservation i s) = rs_requestIndex s"
  "rs_nextReservationId (removeLiveReservation i s) = rs_nextReservationId s"
  "rs_stats (removeLiveReservation i s) = rs_stats s" "rs_config (removeLiveReservation i s) = rs_config s"
  "same_rules s (removeLiveReservation i s)" "audit_ok (removeLiveReservation i s) = audit_ok s"
  "rs_lastActivityAt (removeLiveReservation i s) = rs_lastActivityAt s"
  by (simp_all add: addLiveReservation_def removeLiveReservation_def same_rules_def)

lemma index_changes:
  "isLiveState (res_state q) \<Longrightarrow>
     rs_liveByDomain (addLiveReservation q s) = index_add (res_id q) (res_domains q) (rs_liveByDomain s)"
  "sv_valid i \<Longrightarrow> rs_liveByDomain (removeLiveReservation i s) = index_remove i (rs_liveByDomain s)"
  by (simp_all add: addLiveReservation_def removeLiveReservation_def)

end
