(* ===== verification/Allocation.thy ===== *)
theory Allocation
  imports Enumeration Ownership
begin

text \<open>
  \<open>runtime_alloc.cpp\<close>: the only operation that creates ownership. \<open>allocate\<close> evaluates the request,
  answers an idempotent replay, refuses, makes room, supersedes an older generation of the same
  request, drives a new reservation through the state machine, commits it to the table and the
  live index, and crosses the durable boundary or rolls back.
\<close>

section \<open>Transitions on the commit path\<close>

definition msg_already_state :: "ReservationState \<Rightarrow> string" where
  "msg_already_state st = ''reservation is already '' @ reservationState_toToken st"
definition msg_not_permitted :: "ReservationState \<Rightarrow> ReservationState \<Rightarrow> string" where
  "msg_not_permitted a b = ''transition from '' @ reservationState_toToken a @ '' to ''
     @ reservationState_toToken b @ '' is not permitted: '' @ illegalTransitionReason a b"

definition alloc_advanceState ::
    "ReservationState \<Rightarrow> RuntimeState \<times> SpectrumReservation \<Rightarrow>
     (RuntimeState \<times> SpectrumReservation) \<times> string option" where
  "alloc_advanceState st sr =
     (case sr of (s, q) \<Rightarrow>
        if res_state q = st then ((s, q), Some (msg_already_state st))
        else if \<not> isLegalTransition (res_state q) st
        then let error = msg_not_permitted (res_state q) st
             in ((appendAudit ReplayRejected (rs_lastActivityAt s) RefusedNotPermitted (res_id q)
                    (res_generation q) (res_anchorDomain q) (res_slots q) (res_frequency q) error s,
                  q), Some error)
        else ((s, q\<lparr>res_state := st\<rparr>), None))"

text \<open>A chain of transitions stops at the first one that is refused.\<close>

fun advance_chain ::
    "ReservationState list \<Rightarrow> RuntimeState \<times> SpectrumReservation \<Rightarrow>
     (RuntimeState \<times> SpectrumReservation) \<times> string option" where
  "advance_chain [] sr = (sr, None)"
| "advance_chain (st # sts) sr =
     (case alloc_advanceState st sr of
        (sr', Some e) \<Rightarrow> (sr', Some e)
      | (sr', None) \<Rightarrow> advance_chain sts sr')"

definition leaseStart :: "SpectrumRequest \<Rightarrow> Instant" where
  "leaseStart r = (if req_notBefore r > req_requestedAt r then req_notBefore r else req_requestedAt r)"

section \<open>Statuses and decisions\<close>

definition s_request_refused :: string where "s_request_refused = ''request refused''"
definition s_refused :: string where "s_refused = ''refused''"

definition first_reason :: "string list \<Rightarrow> string \<Rightarrow> string" where
  "first_reason reasons fallback = (case reasons of [] \<Rightarrow> fallback | x # _ \<Rightarrow> x)"

definition statusForOutcome :: "AllocationOutcome \<Rightarrow> string list \<Rightarrow> Status" where
  "statusForOutcome outcome reasons =
     (let m = first_reason reasons s_request_refused
      in case outcome of
           Allocated \<Rightarrow> okStatus
         | RefusedUnsupported \<Rightarrow> fail Unsupported m
         | RefusedUnknownCapability \<Rightarrow> fail Unknown m
         | RefusedStaleGeneration \<Rightarrow> fail StaleGeneration m
         | RefusedStaleIncarnation \<Rightarrow> fail StaleIncarnation m
         | RefusedStaleEpoch \<Rightarrow> fail StaleEpoch m
         | RefusedStaleAuthority \<Rightarrow> fail StaleAuthority m
         | RefusedStaleCapability \<Rightarrow> fail StaleGeneration m
         | RefusedDuplicate \<Rightarrow> fail Duplicate m
         | RefusedLimitExceeded \<Rightarrow> fail LimitExceeded m
         | RefusedUnknownDomain \<Rightarrow> fail NotFound m
         | RefusedInvalidRequest \<Rightarrow> fail InvalidArgument m
         | RefusedChannelWidth \<Rightarrow> fail InvalidArgument m
         | RefusedConversion \<Rightarrow> fail NotPermitted m
         | RefusedExclusion \<Rightarrow> fail Excluded m
         | RefusedConflict \<Rightarrow> fail Conflict m
         | RefusedContiguity \<Rightarrow> fail Refused m
         | RefusedContinuity \<Rightarrow> fail Refused m
         | RefusedConstraint \<Rightarrow> fail Refused m
         | RefusedNoCapacity \<Rightarrow> fail Unavailable m
         | RefusedLeaseExpired \<Rightarrow> fail Refused m
         | RefusedNotPermitted \<Rightarrow> fail NotPermitted m
         | OutcomeUnknown \<Rightarrow> fail Unknown m)"

definition explanation_of :: "RuntimeState \<Rightarrow> Evaluation \<Rightarrow> DecisionExplanation" where
  "explanation_of s e =
     default_explanation\<lparr>exp_outcome := ev_outcome e, exp_fence := rs_fence s,
       exp_candidatesEnumerated := ev_candidatesEnumerated e,
       exp_candidatesRejected := ev_candidatesRejected e,
       exp_candidatesOmitted := ev_candidatesOmitted e,
       exp_candidateOrdinal := ev_candidateOrdinal e, exp_selected := ev_selected e,
       exp_rejected := ev_rejected e, exp_conflicts := ev_conflicts e, exp_reasons := ev_reasons e\<rparr>"

definition decision_of :: "RuntimeState \<Rightarrow> Evaluation \<Rightarrow> AllocationDecision" where
  "decision_of s e =
     \<lparr>dec_status = okStatus, dec_outcome = ev_outcome e, dec_reservation = sv_none,
      dec_generation = sv_none, dec_explanation = explanation_of s e\<rparr>"

text \<open>Turning a decision into a refusal with a new decisive reason.\<close>

definition refuse_decision ::
    "AllocationOutcome \<Rightarrow> Status \<Rightarrow> string \<Rightarrow> AllocationDecision \<Rightarrow> AllocationDecision" where
  "refuse_decision outcome status reason d =
     d\<lparr>dec_status := status, dec_outcome := outcome,
       dec_explanation := (dec_explanation d)\<lparr>exp_outcome := outcome,
         exp_reasons := reason # exp_reasons (dec_explanation d)\<rparr>\<rparr>"

definition grant_decision :: "ReservationId \<Rightarrow> ReservationGeneration \<Rightarrow> AllocationDecision \<Rightarrow> AllocationDecision" where
  "grant_decision i g d =
     d\<lparr>dec_status := okStatus, dec_reservation := i, dec_generation := g,
       dec_explanation := (dec_explanation d)\<lparr>exp_reservation := i, exp_generation := g\<rparr>\<rparr>"

section \<open>Stages\<close>

definition msg_idempotent :: string where
  "msg_idempotent = ''idempotent replay: the request identity is already committed''"
definition msg_table_bound :: "nat \<Rightarrow> string" where
  "msg_table_bound n = ''reservation table is at its configured bound of '' @ nat_to_string n @ '' records''"
definition msg_superseded :: "AllocationRequestGeneration \<Rightarrow> string" where
  "msg_superseded g = ''superseded by request generation '' @ raw_to_string g"
definition msg_expiry :: string where "msg_expiry = ''lease expiry is not representable''"
definition msg_committed_under :: "ControllerFence \<Rightarrow> string" where
  "msg_committed_under f = ''committed under controller epoch '' @ raw_to_string (epoch f)
     @ '' incarnation '' @ raw_to_string (incarnation f)"
definition msg_committed :: "SpectrumReservation \<Rightarrow> string" where
  "msg_committed q = ''committed '' @ nat_to_string (slot_count (res_slots q)) @ '' slot(s) at ''
     @ nat_to_string (slot_first (res_slots q)) @ '' across '' @ nat_to_string (length (res_domains q))
     @ '' domain(s)''"
definition msg_rolled_back :: "string \<Rightarrow> string" where
  "msg_rolled_back m = ''durable commit failed; the allocation was rolled back and no spectrum is owned: '' @ m"
definition msg_rollback_audit :: "string \<Rightarrow> string" where
  "msg_rollback_audit m = ''durable commit rolled back: '' @ m"

definition count_evaluation :: "Evaluation \<Rightarrow> RuntimeState \<Rightarrow> RuntimeState" where
  "count_evaluation e s =
     s\<lparr>rs_stats := (rs_stats s)\<lparr>
         st_candidatesEvaluated := st_candidatesEvaluated (rs_stats s) + word_of_nat (ev_candidatesEnumerated e),
         st_enumerationTruncations := (if ev_candidatesOmitted e > 0
           then st_enumerationTruncations (rs_stats s) + 1 else st_enumerationTruncations (rs_stats s))\<rparr>\<rparr>"

definition count_refusal :: "RuntimeState \<Rightarrow> RuntimeState" where
  "count_refusal s =
     s\<lparr>rs_stats := (rs_stats s)\<lparr>st_allocationsRefused := st_allocationsRefused (rs_stats s) + 1\<rparr>\<rparr>"

text \<open>Superseding the live reservation of an older generation of the same request.\<close>

definition supersede ::
    "Instant \<Rightarrow> SpectrumRequest \<Rightarrow> RuntimeState \<Rightarrow>
     RuntimeState \<times> (SpectrumReservation option + string)" where
  "supersede at r s =
     (case existing_request s r of
        None \<Rightarrow> (s, Inl None)
      | Some p \<Rightarrow>
          if \<not> isLiveState (res_state p) then (s, Inl None)
          else (case alloc_advanceState Superseded (s, p) of
              ((s1, p1), Some e) \<Rightarrow> (s1, Inr e)
            | ((s1, p1), None) \<Rightarrow>
                let p2 = p1\<lparr>res_updatedAt := at, res_lastOperation := bump (res_lastOperation p1)\<rparr>;
                    s2 = removeLiveReservation (res_id p2)
                           (s1\<lparr>rs_reservations := om_set (res_id p2) p2 (rs_reservations s1)\<rparr>)
                in (appendAudit ReservationSuperseded at OutcomeUnknown (res_id p2) (res_generation p2)
                      (res_anchorDomain p2) (res_slots p2) (res_frequency p2)
                      (msg_superseded (req_requestGeneration r)) s2, Inl (Some p))))"

definition restore_superseded :: "SpectrumReservation option \<Rightarrow> RuntimeState \<Rightarrow> RuntimeState" where
  "restore_superseded prior s =
     (case prior of
        None \<Rightarrow> s
      | Some p \<Rightarrow> addLiveReservation p (s\<lparr>rs_reservations := om_set (res_id p) p (rs_reservations s)\<rparr>))"

definition new_reservation ::
    "RuntimeState \<Rightarrow> SpectrumRequest \<Rightarrow> SpectrumCandidate \<Rightarrow> Instant \<Rightarrow> Instant \<Rightarrow> SpectrumReservation" where
  "new_reservation s r c at expiry =
     default_reservation\<lparr>res_id := rs_nextReservationId s, res_generation := StrongValue 1,
       res_requestId := req_requestId r, res_requestGeneration := req_requestGeneration r,
       res_owner := req_owner r, res_ownerGeneration := req_ownerGeneration r,
       res_domains := req_domains r, res_domainGenerations := req_domainGenerations r,
       res_anchorDomain := cand_anchorDomain c, res_grid := req_grid r,
       res_gridGeneration := req_gridGeneration r, res_slots := cand_slots c,
       res_frequency := cand_frequency c, res_perDomainSlots := cand_perDomainSlots c,
       res_crossGrid := cand_crossGrid c,
       res_contiguityRequired := (req_contiguity r = ContiguityRequired),
       res_continuityRequired := (req_continuity r = ContinuityRequired),
       res_guardBandMhz := req_guardBandMhz r,
       res_lease := \<lparr>lease_generation = StrongValue 1, lease_grantedAt = leaseStart r,
         lease_expiresAt = expiry, lease_renewalCount = 0, lease_maxRenewals = req_maxRenewals r\<rparr>,
       res_createdAt := leaseStart r, res_updatedAt := at, res_commitFence := rs_fence s,
       res_lastOperation := StrongValue 1,
       res_capabilityGeneration := (case map_of (rs_capabilities s) (cand_anchorDomain c) of
         Some cap \<Rightarrow> cap_generation cap | None \<Rightarrow> sv_none),
       res_detail := msg_committed_under (rs_fence s)\<rparr>"

text \<open>Entering the reservation into the table, the request index and the live index.\<close>

definition insert_reservation :: "Instant \<Rightarrow> SpectrumRequest \<Rightarrow> SpectrumReservation \<Rightarrow> RuntimeState \<Rightarrow> RuntimeState" where
  "insert_reservation at r q s =
     (let s1 = s\<lparr>rs_reservations := om_emplace (res_id q) q (rs_reservations s),
                rs_requestIndex := om_set (req_requestId r) (res_id q) (rs_requestIndex s)\<rparr>;
          s2 = addLiveReservation q s1;
          s3 = s2\<lparr>rs_lastActivityAt := at, rs_stats := (rs_stats s2)\<lparr>
                 st_allocationsCommitted := st_allocationsCommitted (rs_stats s2) + 1\<rparr>\<rparr>
      in pruneTerminalReservations
           (appendAudit AllocationCommitted at Allocated (res_id q) (res_generation q)
              (res_anchorDomain q) (res_slots q) (res_frequency q) (msg_committed q) s3))"

text \<open>Undoing a commit whose state image could not be published.\<close>

definition rollback_commit ::
    "SpectrumRequest \<Rightarrow> ReservationId \<Rightarrow> ReservationId option \<Rightarrow> SpectrumReservation option \<Rightarrow>
     RuntimeState \<Rightarrow> RuntimeState" where
  "rollback_commit r i previousIndex prior s =
     (let s1 = removeLiveReservation i (s\<lparr>rs_reservations := om_erase i (rs_reservations s)\<rparr>);
          s2 = s1\<lparr>rs_requestIndex := (case previousIndex of
                 Some p \<Rightarrow> om_set (req_requestId r) p (rs_requestIndex s1)
               | None \<Rightarrow> om_erase (req_requestId r) (rs_requestIndex s1))\<rparr>;
          s3 = restore_superseded prior s2
      in s3\<lparr>rs_stats := (rs_stats s3)\<lparr>
           st_allocationsCommitted := st_allocationsCommitted (rs_stats s3) - 1\<rparr>\<rparr>)"

definition ungrant_decision :: "Status \<Rightarrow> AllocationDecision \<Rightarrow> AllocationDecision" where
  "ungrant_decision saved d =
     d\<lparr>dec_status := saved, dec_outcome := OutcomeUnknown, dec_reservation := sv_none,
       dec_generation := sv_none,
       dec_explanation := (dec_explanation d)\<lparr>exp_outcome := OutcomeUnknown,
         exp_reservation := sv_none, exp_generation := sv_none,
         exp_reasons := msg_rolled_back (message saved) # exp_reasons (dec_explanation d)\<rparr>\<rparr>"

definition commit ::
    "Host \<Rightarrow> Instant \<Rightarrow> SpectrumRequest \<Rightarrow> SpectrumCandidate \<Rightarrow> SpectrumReservation option \<Rightarrow>
     RuntimeState \<Rightarrow> AllocationDecision \<Rightarrow> RuntimeState \<times> AllocationDecision" where
  "commit h at r c prior s d =
     (case addOverflow (leaseStart r) (req_leaseDuration r) of
        None \<Rightarrow> (restore_superseded prior s,
                 refuse_decision RefusedInvalidRequest (fail InvalidArgument msg_expiry) msg_expiry d)
      | Some expiry \<Rightarrow>
          let born = new_reservation s r c at expiry;
              s1 = s\<lparr>rs_nextReservationId := bump (rs_nextReservationId s)\<rparr>
          in (case advance_chain [Requested, Evaluated, Committing, Reserved] (s1, born) of
                ((s2, q), Some e) \<Rightarrow>
                  (restore_superseded prior s2,
                   refuse_decision RefusedNotPermitted (fail IllegalTransition e) e d)
              | ((s2, q), None) \<Rightarrow>
                  let previousIndex = map_of (rs_requestIndex s2) (req_requestId r);
                      s3 = insert_reservation at r q s2;
                      d1 = grant_decision (res_id q) (res_generation q) d
                  in if cfg_durableCommits (rs_config s3) \<and> cfg_statePath (rs_config s3) \<noteq> []
                     then let (s4, saved) = saveLocked h s3
                          in if status_ok saved then (s4, d1)
                             else (appendAudit PersistenceFailed at OutcomeUnknown sv_none sv_none
                                     (res_anchorDomain q) (res_slots q) (res_frequency q)
                                     (msg_rollback_audit (message saved))
                                     (rollback_commit r (res_id q) previousIndex prior s4),
                                   ungrant_decision saved d1)
                     else (s3, d1)))"

section \<open>Allocation\<close>

definition allocate :: "Host \<Rightarrow> SpectrumRequest \<Rightarrow> RuntimeState \<Rightarrow> RuntimeState \<times> AllocationDecision" where
  "allocate h r s =
     (let e = evaluate s r;
          d = decision_of s e;
          s0 = count_evaluation e s;
          at = (if req_requestedAt r = 0 then host_now h else req_requestedAt r)
      in if ev_replay e
         then let q = ev_replayValue e;
                  d1 = grant_decision (res_id q) (res_generation q) d
              in (appendAudit RequestEvaluated at Allocated (res_id q) (res_generation q)
                    (res_anchorDomain q) (res_slots q) (res_frequency q) msg_idempotent s0,
                  d1\<lparr>dec_explanation := (dec_explanation d1)\<lparr>exp_selected := candidateFromReservation q\<rparr>\<rparr>)
         else if \<not> ev_eligible e
         then ((count_refusal (appendAudit AllocationRefused at (ev_outcome e) sv_none sv_none
                  (case req_domains r of [] \<Rightarrow> sv_none | x # _ \<Rightarrow> x) default_slots default_frequency
                  (first_reason (ev_reasons e) s_refused) s0))\<lparr>rs_lastActivityAt := at\<rparr>,
               d\<lparr>dec_status := statusForOutcome (ev_outcome e) (ev_reasons e)\<rparr>)
         else
           let bound = cfg_maxReservations (rs_config s0);
               s1 = (if length (rs_reservations s0) \<ge> bound then pruneTerminalReservations s0 else s0)
           in if length (rs_reservations s1) \<ge> bound
              then (count_refusal (appendAudit AllocationRefused at RefusedLimitExceeded sv_none sv_none
                      (hd (req_domains r)) default_slots default_frequency (msg_table_bound bound) s1),
                    refuse_decision RefusedLimitExceeded (fail LimitExceeded (msg_table_bound bound))
                      (msg_table_bound bound) d)
              else (case supersede at r s1 of
                  (s2, Inr err) \<Rightarrow>
                    (s2, refuse_decision RefusedNotPermitted (fail IllegalTransition err) err d)
                | (s2, Inl prior) \<Rightarrow> commit h at r (ev_selected e) prior s2 d))"

definition explain :: "SpectrumRequest \<Rightarrow> RuntimeState \<Rightarrow> DecisionExplanation" where
  "explain r s =
     (let e = evaluate s r; x = explanation_of s e
      in if ev_replay e
         then x\<lparr>exp_reservation := res_id (ev_replayValue e),
                exp_generation := res_generation (ev_replayValue e),
                exp_selected := candidateFromReservation (ev_replayValue e)\<rparr>
         else x)"

end
