(* ===== verification/Allocation_Facts.thy ===== *)
theory Allocation_Facts
  imports Allocation
begin

text \<open>
  What allocation promises. \<open>admissible\<close> specifies a placement over the registered state and the
  request; the candidate the code selects meets it. The stages of a commit keep the table and
  the lease invariant, an operation that is not granted leaves every live reservation and the
  live index as they were, and a granted one enters exactly one record.
\<close>

section \<open>What a granted placement satisfies\<close>

text \<open>
  The specification of a placement, stated over the registered state and the request alone: it is
  the requested number of slots of the requested grid, meets every constraint of the request, lies
  in the tunable range of every spanned domain, each of which is registered at the named
  generation with a current SUPPORTED capability, and keeps the guard bands to every reservation
  that owns spectrum on a spanned domain or on one of its exclusion siblings.
\<close>

definition domain_admits :: "RuntimeState \<Rightarrow> SpectrumRequest \<Rightarrow> FrequencyRange \<Rightarrow> SpectrumDomainId \<Rightarrow> bool" where
  "domain_admits s r f d \<longleftrightarrow>
     (\<exists>dom cap. map_of (rs_domains s) d = Some dom \<and> map_of (rs_capabilities s) d = Some cap
        \<and> (d, dom_generation dom) \<in> set (zip (req_domains r) (req_domainGenerations r))
        \<and> cap_domainGeneration cap = dom_generation dom \<and> cap_support cap = Supported
        \<and> cap_minTunableMhz cap \<le> lowMhz f \<and> highMhz f \<le> cap_maxTunableMhz cap)
     \<and> (\<forall>q \<in> set (live_on s d (req_requestedAt r)). \<not> blocked_by f (req_guardBandMhz r) 0 q)
     \<and> (\<forall>(m, x, e) \<in> set (siblings s d). \<forall>q \<in> set (live_on s m (req_requestedAt r)).
          \<not> blocked_by f (req_guardBandMhz r) x q)"

definition admissible :: "RuntimeState \<Rightarrow> SpectrumRequest \<Rightarrow> SlotRange \<Rightarrow> FrequencyRange \<Rightarrow> bool" where
  "admissible s r sl f \<longleftrightarrow>
     (\<exists>g. map_of (rs_grids s) (req_grid r) = Some g \<and> grid_generation g = req_gridGeneration r
        \<and> slotRangeInGrid g sl \<and> frequencyOfSlotRange g sl = Some f)
     \<and> slot_count sl = req_slots r
     \<and> containsFrequency (req_frequencyWindows r) f
     \<and> (\<forall>x \<in> set (con_excludedSlots (req_constraints r)). \<not> slot_overlaps x sl)
     \<and> (\<forall>x \<in> set (con_excludedFrequencies (req_constraints r)). \<not> freq_overlaps x f)
     \<and> (\<forall>d \<in> set (req_domains r). domain_admits s r f d)"

lemma prepare_domains_generations:
  assumes "prepare s r = Inr contexts" and "c \<in> set contexts"
  shows "\<exists>dom. map_of (rs_domains s) (ctx_id c) = Some dom
    \<and> (ctx_id c, dom_generation dom) \<in> set (zip (req_domains r) (req_domainGenerations r))
    \<and> cap_domainGeneration (ctx_capability c) = dom_generation dom"
proof -
  obtain p where p: "p \<in> set (zip (req_domains r) (req_domainGenerations r))"
    "prepare_domain s r (fst p) (snd p) = Inr c"
    using assms prepare_domains_mem by (metis prepare_Inr)
  then show ?thesis
    using prepare_domain_Inr [OF p(2)] by (cases p) auto
qed

lemma enumerated_admissible:
  assumes "enumerated s r contexts g c" and "cand_eligibility c = Eligible"
  shows "admissible s r (cand_slots c) (cand_frequency c)"
proof -
  obtain k where shape: "status_ok (validateRequestShape r)" and prep: "prepare s r = Inr contexts"
    and g: "map_of (rs_grids s) (req_grid r) = Some g"
    and c: "c = evaluateCandidate s r g contexts (snd k)
      (default_candidate\<lparr>cand_ordinal := fst k, cand_anchorDomain := ctx_id (hd contexts)\<rparr>)"
    using assms(1) by (auto simp: enumerated_def evaluate_start_def)
  note facts = evaluateCandidate_eligible [OF assms(2) [unfolded c], folded c]
  have ids: "map ctx_id contexts = req_domains r"
    using prepare_ids [OF prep] check_domain_lists_ok(3) [OF validateRequestShape_parts(2) [OF shape]] by simp
  have "domain_admits s r (cand_frequency c) d" if "d \<in> set (req_domains r)" for d
  proof -
    obtain x where x: "x \<in> set contexts" "ctx_id x = d"
      using \<open>d \<in> set (req_domains r)\<close> by (auto simp flip: ids)
    then show ?thesis
      using facts(7,8) prepare_supported [OF prep x(1)] prepare_domains_generations [OF prep x(1)]
      by (auto simp: domain_admits_def tunable_on_def crossDomainFree_iff)
  qed
  moreover have "grid_generation g = req_gridGeneration r"
    using prep g by (metis option.inject prepare_Inr)
  ultimately show ?thesis
    using facts g by (auto simp: admissible_def)
qed

lemma selected_admissible:
  assumes "ev_eligible (evaluate s r)" and "\<not> ev_replay (evaluate s r)"
  defines "c \<equiv> ev_selected (evaluate s r)"
  shows "admissible s r (cand_slots c) (cand_frequency c)"
    and "cand_eligibility c = Eligible"
    and "\<exists>pre post. cset_candidates (enumerateCandidates s r) = pre @ c # post
      \<and> (\<forall>x \<in> set pre. cand_eligibility x \<noteq> Eligible)"
    and "ev_outcome (evaluate s r) = Allocated"
proof -
  have ev: "evaluate s r = evaluate_candidates s r"
    using evaluate_eligible(4) [OF assms(1,2)] .
  obtain pre post where sel: "cset_candidates (fst (enumerateWithOutcome s r)) = pre @ c # post"
    "\<forall>x \<in> set pre. cand_eligibility x \<noteq> Eligible" "cand_eligibility c = Eligible"
    and outcome: "ev_outcome (evaluate s r) = Allocated"
    using evaluate_candidates_eligible [of s r] assms(1) unfolding c_def ev by metis
  then have "c \<in> set (cset_candidates (fst (enumerateWithOutcome s r)))"
    by simp
  then obtain contexts g where "enumerated s r contexts g c"
    by (rule enumerate_mem)
  then show "admissible s r (cand_slots c) (cand_frequency c)"
    using sel(3) by (rule enumerated_admissible)
  show "cand_eligibility c = Eligible" "ev_outcome (evaluate s r) = Allocated"
    by fact+
  show "\<exists>pre post. cset_candidates (enumerateCandidates s r) = pre @ c # post
      \<and> (\<forall>x \<in> set pre. cand_eligibility x \<noteq> Eligible)"
    using sel by (auto simp: enumerateCandidates_def)
qed

text \<open>An admissible placement is compatible with everything that is live at the request instant.\<close>

lemma admissible_compatible:
  assumes "table_inv s" and "admissible s r sl f"
    and "res_domains q = req_domains r" and "res_frequency q = f" and "res_guardBandMhz q = req_guardBandMhz r"
    and "map_of (rs_reservations s) i = Some p" and "isLiveAt p (req_requestedAt r)"
  shows "compatible q p"
  unfolding compatible_def
proof
  assume "shares_domain q p"
  then obtain d where d: "d \<in> set (req_domains r)" "d \<in> set (res_domains p)"
    using assms(3) by (auto simp: shares_domain_def)
  have "p \<in> set (live_on s d (req_requestedAt r))"
    using live_on_iff [OF table_inv_live [OF assms(1)]] assms(6,7) d(2) by blast
  then have "\<not> blocked_by f (req_guardBandMhz r) 0 p"
    using assms(2) d(1) unfolding admissible_def domain_admits_def by blast
  then show "\<not> frequencyConflict (res_frequency q) (common_guard q p) (res_frequency p) (common_guard q p)"
    using assms(4,5) by (cases "res_guardBandMhz p = req_guardBandMhz r")
      (auto simp: blocked_by_def max_guard_def common_guard_def max_def split: if_splits)
qed

lemma admissible_placed:
  assumes "grids_ok s" and "admissible s r sl f" and "status_ok (validateRequestShape r)"
    and "res_frequency q = f" and "res_guardBandMhz q = req_guardBandMhz r"
  shows "placed q"
proof -
  obtain g where g: "map_of (rs_grids s) (req_grid r) = Some g" "frequencyOfSlotRange g sl = Some f"
    using assms(2) by (auto simp: admissible_def)
  then have "grid_wf g"
    using grids_ok_wf [OF assms(1)] by blast
  then show ?thesis
    using frequencyOfSlotRange_Some [OF _ g(2)] assms(4,5)
      check_lease_ok [OF validateRequestShape_parts(4) [OF assms(3)]]
    by (auto simp: placed_def frequency_bounded_def freq_empty_def)
qed

section \<open>Stages of an allocation\<close>

lemma born_chain:
  "res_state q = NoState \<Longrightarrow>
   advance_chain [Requested, Evaluated, Committing, Reserved] (s, q) = ((s, q\<lparr>res_state := Reserved\<rparr>), None)"
  by (simp add: alloc_advanceState_def isLegalTransition_def)

lemma new_reservation_simps [simp]:
  "res_state (new_reservation s r c at e) = NoState" "res_id (new_reservation s r c at e) = rs_nextReservationId s"
  "res_domains (new_reservation s r c at e) = req_domains r"
  "res_frequency (new_reservation s r c at e) = cand_frequency c"
  "res_slots (new_reservation s r c at e) = cand_slots c"
  "res_guardBandMhz (new_reservation s r c at e) = req_guardBandMhz r"
  "res_requestId (new_reservation s r c at e) = req_requestId r"
  by (simp_all add: new_reservation_def default_reservation_def)

definition superseded_record :: "Instant \<Rightarrow> SpectrumReservation \<Rightarrow> SpectrumReservation" where
  "superseded_record at p =
     p\<lparr>res_state := Superseded, res_updatedAt := at, res_lastOperation := bump (res_lastOperation p)\<rparr>"

text \<open>Superseding either finds nothing to do or ends the live reservation of the request.\<close>

lemma supersede_cases:
  assumes "table_inv s" and "supersede at r s = (s', res)"
  obtains (nothing) "s' = s" "res = Inl None"
  | (ended) p where "existing_request s r = Some p" "res = Inl (Some p)"
      "map_of (rs_reservations s) (res_id p) = Some p" "isLiveState (res_state p)" "sv_valid (res_id p)"
      "rs_reservations s' = om_set (res_id p) (superseded_record at p) (rs_reservations s)"
      "rs_liveByDomain s' = index_remove (res_id p) (rs_liveByDomain s)"
      "rs_nextReservationId s' = rs_nextReservationId s" "rs_requestIndex s' = rs_requestIndex s"
      "same_rules s s'" "rs_stats s' = rs_stats s" "audit_ok s \<Longrightarrow> audit_ok s'"
      "rs_disk s' = rs_disk s"
proof (cases "existing_request s r")
  case none: None
  show ?thesis
    using none assms(2) by - (rule nothing, simp_all add: supersede_def)
next
  case (Some p)
  show ?thesis
  proof (cases "isLiveState (res_state p)")
    case False
    show ?thesis
      using False Some assms(2) by - (rule nothing, simp_all add: supersede_def)
  next
    case True
    from Some obtain i where i: "map_of (rs_reservations s) i = Some p"
      by (auto simp: existing_request_def split: option.splits)
    note known = table_inv_known [OF assms(1) i]
    have "res_state p = Reserved \<or> res_state p = Active"
      using known(4) True by (rule resting_cases)
    then have step: "alloc_advanceState Superseded (s, p) = ((s, p\<lparr>res_state := Superseded\<rparr>), None)"
      by (auto simp: alloc_advanceState_def isLegalTransition_def)
    show ?thesis
      using Some True i known assms(2)
      by (intro ended [of p])
        (auto simp: supersede_def step Let_def superseded_record_def removeLiveReservation_def
          same_rules_def appendAudit_ok)
  qed
qed

lemma superseded_record_simps [simp]:
  "res_id (superseded_record at p) = res_id p" "res_state (superseded_record at p) = Superseded"
  "same_place (superseded_record at p) p" "\<not> isLiveAt (superseded_record at p) t"
  by (simp_all add: superseded_record_def same_place_def isLiveAt_def)

lemma supersede_inv:
  assumes "table_inv s" and "supersede at r s = (s', Inl prior)"
  shows "table_inv s'" and "shrinks t s s'" and "same_rules s s'"
    and "rs_nextReservationId s' = rs_nextReservationId s" and "audit_ok s \<Longrightarrow> audit_ok s'"
proof -
  have "table_inv s' \<and> shrinks t s s' \<and> same_rules s s'
      \<and> rs_nextReservationId s' = rs_nextReservationId s \<and> (audit_ok s \<longrightarrow> audit_ok s')"
  proof (cases rule: supersede_cases [OF assms])
    case 1
    then show ?thesis
      using assms(1) by (simp add: shrinks_frame)
  next
    case (2 p)
    note known = table_inv_known [OF assms(1) 2(3)]
    have "table_inv s'"
      using assms(1) known 2
      by (intro table_inv_put [of s "superseded_record at p" s']) (simp_all add: reindex_def)
    moreover have "shrinks t s s'"
      using 2 by (intro shrinks_put [of s' "res_id p" "superseded_record at p" s p]) simp_all
    ultimately show ?thesis
      using 2 by blast
  qed
  then show "table_inv s'" and "shrinks t s s'" and "same_rules s s'"
    and "rs_nextReservationId s' = rs_nextReservationId s" and "audit_ok s \<Longrightarrow> audit_ok s'"
    by blast+
qed

section \<open>Entering and taking back a reservation\<close>

lemma insert_reservation_frame [simp]:
  "same_rules s (insert_reservation at r q s)"
  "rs_nextReservationId (insert_reservation at r q s) = rs_nextReservationId s"
  "rs_config (insert_reservation at r q s) = rs_config s"
proof -
  have "same_rules s (pruneTerminalReservations s') \<longleftrightarrow> same_rules s s'" for s'
    by (simp add: same_rules_def)
  then show "same_rules s (insert_reservation at r q s)"
    by (simp add: insert_reservation_def Let_def) (simp add: same_rules_def addLiveReservation_def)
  show "rs_nextReservationId (insert_reservation at r q s) = rs_nextReservationId s"
    "rs_config (insert_reservation at r q s) = rs_config s"
    by (simp_all add: insert_reservation_def Let_def)
qed

lemma insert_reservation_audit: "audit_ok s \<Longrightarrow> audit_ok (insert_reservation at r q s)"
  by (simp add: insert_reservation_def Let_def prune_audit_ok appendAudit_ok)

lemma insert_reservation_inv:
  fixes r :: SpectrumRequest and at :: Instant
  assumes "table_inv s" and "raw (rs_nextReservationId s) < 0xFFFFFFFFFFFFFFFF"
    and "res_id q = rs_nextReservationId s" and "res_state q = Reserved"
  defines "s' \<equiv> insert_reservation at r q (s\<lparr>rs_nextReservationId := bump (rs_nextReservationId s)\<rparr>)"
  shows "table_inv s'"
    and "map_of (rs_reservations s) (res_id q) = None"
    and "map_of (rs_reservations s') (res_id q) = Some q"
    and "map_of (rs_reservations s') i = Some p \<Longrightarrow> i \<noteq> res_id q \<Longrightarrow> map_of (rs_reservations s) i = Some p"
    and "map_of (rs_reservations s) i = Some p \<Longrightarrow> \<not> isTerminalState (res_state p) \<Longrightarrow>
      map_of (rs_reservations s') i = Some p"
    and "lease_inv t s \<Longrightarrow> placed q \<Longrightarrow>
      (\<And>i p. map_of (rs_reservations s) i = Some p \<Longrightarrow> isLiveAt p t \<Longrightarrow> compatible q p) \<Longrightarrow> lease_inv t s'"
proof -
  obtain w where w: "s' = pruneTerminalReservations w"
    "rs_reservations w = om_emplace (res_id q) q (rs_reservations s)"
    "rs_liveByDomain w = index_add (res_id q) (res_domains q) (rs_liveByDomain s)"
    "rs_nextReservationId w = bump (rs_nextReservationId s)"
    using assms(4) by (auto simp: s'_def insert_reservation_def Let_def addLiveReservation_def)
  have live: "isLiveState (res_state q)" "resting (res_state q)"
    using assms(4) by simp_all
  note ins = table_inv_insert [OF assms(1,2,3) live w(2-4)]
  show "table_inv s'"
    unfolding w(1) by (rule table_inv_prune [OF ins(1)])
  show fresh: "map_of (rs_reservations s) (res_id q) = None"
    by (rule ins(2))
  have om: "om_ok (rs_reservations w)"
    using ins(1) by (rule table_inv_om)
  show "map_of (rs_reservations s') (res_id q) = Some q"
    unfolding w(1) using assms(4) ins(3) by (intro prune_reservation [OF om]) simp_all
  show "map_of (rs_reservations s) i = Some p" if "map_of (rs_reservations s') i = Some p" "i \<noteq> res_id q"
    using prune_submap [OF om that(1) [unfolded w(1)]] that(2) ins(3) by simp
  show "map_of (rs_reservations s') i = Some p"
    if "map_of (rs_reservations s) i = Some p" "\<not> isTerminalState (res_state p)"
    unfolding w(1) using that ins(2,3) by (intro prune_reservation [OF om]) auto
  show "lease_inv t s'" if "lease_inv t s" "placed q"
    "\<And>i p. map_of (rs_reservations s) i = Some p \<Longrightarrow> isLiveAt p t \<Longrightarrow> compatible q p"
    unfolding w(1)
    using lease_inv_insert [OF that(1,2) ins(3) that(3)] shrinks_prune [OF om] by (rule lease_inv_shrinks)
qed

definition restorable :: "SpectrumReservation option \<Rightarrow> RuntimeState \<Rightarrow> bool" where
  "restorable prior s \<longleftrightarrow> (case prior of None \<Rightarrow> True
     | Some p \<Rightarrow> isLiveState (res_state p) \<and> resting (res_state p) \<and> sv_valid (res_id p)
         \<and> res_id p < rs_nextReservationId s \<and> (\<forall>d. \<not> owns s d (res_id p)))"

lemma restore_inv:
  assumes "table_inv s" and "restorable prior s"
  shows "table_inv (restore_superseded prior s)"
proof (cases prior)
  case None
  then show ?thesis
    using assms(1) by (simp add: restore_superseded_def)
next
  case (Some p)
  then have p: "isLiveState (res_state p)" "resting (res_state p)" "sv_valid (res_id p)"
    "res_id p < rs_nextReservationId s" "\<And>d. \<not> owns s d (res_id p)"
    using assms(2) by (simp_all add: restorable_def)
  have "reindex p (rs_liveByDomain s) = index_add (res_id p) (res_domains p) (rs_liveByDomain s)"
    by (rule reindex_fresh [OF table_inv_live [OF assms(1)] p(5,1)])
  then have "rs_liveByDomain (restore_superseded prior s) = reindex p (rs_liveByDomain s)"
    using p(1) Some by (simp add: restore_superseded_def index_changes)
  then show ?thesis
    using Some by (intro table_inv_put [OF assms(1) p(3,4) _ _ _ p(2)]) (simp_all add: restore_superseded_def)
qed

lemma restore_frame [simp]:
  "same_rules s (restore_superseded prior s)"
  "rs_nextReservationId (restore_superseded prior s) = rs_nextReservationId s"
  "audit_ok (restore_superseded prior s) = audit_ok s"
  "rs_reservations (restore_superseded prior s) =
     (case prior of None \<Rightarrow> rs_reservations s | Some p \<Rightarrow> om_set (res_id p) p (rs_reservations s))"
  by (simp_all add: restore_superseded_def same_rules_def addLiveReservation_def split: option.split)

lemma rollback_commit_inv:
  assumes "table_inv s" and "sv_valid i" and "restorable prior s"
  shows "table_inv (rollback_commit r i previousIndex prior s)"
proof -
  define u where "u = (let s1 = removeLiveReservation i (s\<lparr>rs_reservations := om_erase i (rs_reservations s)\<rparr>)
    in s1\<lparr>rs_requestIndex := (case previousIndex of
                 Some p \<Rightarrow> om_set (req_requestId r) p (rs_requestIndex s1)
               | None \<Rightarrow> om_erase (req_requestId r) (rs_requestIndex s1))\<rparr>)"
  have u: "rs_reservations u = om_erase i (rs_reservations s)"
    "rs_liveByDomain u = index_remove i (rs_liveByDomain s)"
    "rs_nextReservationId u = rs_nextReservationId s"
    using assms(2) by (simp_all add: u_def Let_def index_changes)
  have "table_inv u"
    using assms(1) u by (rule table_inv_erase)
  moreover have "owns u d j \<Longrightarrow> owns s d j" for d j
    using u(1) by (auto simp: owns_def split: if_splits)
  then have "restorable prior u"
    using assms(3) u(3) by (auto simp: restorable_def split: option.splits)
  ultimately have "table_inv (restore_superseded prior u)"
    by (rule restore_inv)
  then show ?thesis
    by (rule table_inv_frame) (simp_all add: rollback_commit_def u_def [unfolded Let_def, symmetric] Let_def)
qed

lemma rollback_commit_frame [simp]:
  "same_rules s (rollback_commit r i previousIndex prior s)"
  "audit_ok (rollback_commit r i previousIndex prior s) = audit_ok s"
  "rs_reservations (rollback_commit r i previousIndex prior s) =
     (case prior of None \<Rightarrow> om_erase i (rs_reservations s)
      | Some p \<Rightarrow> om_set (res_id p) p (om_erase i (rs_reservations s)))"
  "rs_nextReservationId (rollback_commit r i previousIndex prior s) = rs_nextReservationId s"
  by (simp_all add: rollback_commit_def restore_superseded_def same_rules_def addLiveReservation_def
      removeLiveReservation_def Let_def split: option.split)

section \<open>The commit\<close>

definition committed_record ::
    "RuntimeState \<Rightarrow> SpectrumRequest \<Rightarrow> SpectrumCandidate \<Rightarrow> Instant \<Rightarrow> Instant \<Rightarrow> SpectrumReservation" where
  "committed_record s r c at expiry = (new_reservation s r c at expiry)\<lparr>res_state := Reserved\<rparr>"

definition committed_state ::
    "Instant \<Rightarrow> SpectrumRequest \<Rightarrow> SpectrumReservation \<Rightarrow> RuntimeState \<Rightarrow> RuntimeState" where
  "committed_state at r q s =
     insert_reservation at r q (s\<lparr>rs_nextReservationId := bump (rs_nextReservationId s)\<rparr>)"

definition durable :: "RuntimeState \<Rightarrow> bool" where
  "durable s \<longleftrightarrow> cfg_durableCommits (rs_config s) \<and> cfg_statePath (rs_config s) \<noteq> []"

lemma committed_record_simps [simp]:
  "res_state (committed_record s r c at e) = Reserved"
  "res_id (committed_record s r c at e) = rs_nextReservationId s"
  "res_generation (committed_record s r c at e) = StrongValue 1"
  "res_domains (committed_record s r c at e) = req_domains r"
  "res_frequency (committed_record s r c at e) = cand_frequency c"
  "res_slots (committed_record s r c at e) = cand_slots c"
  "res_guardBandMhz (committed_record s r c at e) = req_guardBandMhz r"
  "res_requestId (committed_record s r c at e) = req_requestId r"
  by (simp_all add: committed_record_def) (simp add: new_reservation_def)

lemma commit_cases:
  assumes "commit h at r c prior s d = (s', d')"
  obtains (overflow) "addOverflow (leaseStart r) (req_leaseDuration r) = None"
      "s' = restore_superseded prior s"
      "d' = refuse_decision RefusedInvalidRequest (fail InvalidArgument msg_expiry) msg_expiry d"
  | (granted) expiry q u where "addOverflow (leaseStart r) (req_leaseDuration r) = Some expiry"
      "q = committed_record s r c at expiry" "u = committed_state at r q s"
      "s' = u \<and> \<not> durable s \<or> durable s \<and> (\<exists>saved. saveLocked h u = (s', saved) \<and> status_ok saved)"
      "d' = grant_decision (res_id q) (res_generation q) d"
  | (rolled_back) expiry q u v saved where "addOverflow (leaseStart r) (req_leaseDuration r) = Some expiry"
      "q = committed_record s r c at expiry" "u = committed_state at r q s" "durable s"
      "saveLocked h u = (v, saved)" "\<not> status_ok saved"
      "s' = appendAudit PersistenceFailed at OutcomeUnknown sv_none sv_none (res_anchorDomain q) (res_slots q)
          (res_frequency q) (msg_rollback_audit (message saved))
          (rollback_commit r (res_id q) (map_of (rs_requestIndex s) (req_requestId r)) prior v)"
      "d' = ungrant_decision saved (grant_decision (res_id q) (res_generation q) d)"
proof (cases "addOverflow (leaseStart r) (req_leaseDuration r)")
  case None
  show ?thesis
    by (rule overflow) (use None assms in \<open>simp_all add: commit_def\<close>)
next
  case (Some expiry)
  define q where "q = committed_record s r c at expiry"
  define u where "u = committed_state at r q s"
  have chain: "advance_chain [Requested, Evaluated, Committing, Reserved]
      (s\<lparr>rs_nextReservationId := bump (rs_nextReservationId s)\<rparr>, new_reservation s r c at expiry)
      = ((s\<lparr>rs_nextReservationId := bump (rs_nextReservationId s)\<rparr>, q), None)"
    unfolding q_def committed_record_def by (rule born_chain) simp
  have dur: "durable u \<longleftrightarrow> durable s"
    by (simp add: u_def committed_state_def durable_def)
  obtain v saved where sv: "saveLocked h u = (v, saved)" by fastforce
  have result: "(s', d') = (if durable s then (if status_ok saved
        then (v, grant_decision (res_id q) (res_generation q) d)
        else (appendAudit PersistenceFailed at OutcomeUnknown sv_none sv_none (res_anchorDomain q) (res_slots q)
          (res_frequency q) (msg_rollback_audit (message saved))
          (rollback_commit r (res_id q) (map_of (rs_requestIndex s) (req_requestId r)) prior v),
          ungrant_decision saved (grant_decision (res_id q) (res_generation q) d)))
      else (u, grant_decision (res_id q) (res_generation q) d))"
    using assms Some sv dur
    by (simp add: commit_def chain Let_def u_def [unfolded committed_state_def, symmetric]
        durable_def [of u] del: advance_chain.simps) (auto simp: durable_def split: if_splits)
  show ?thesis
  proof (cases "durable s \<and> \<not> status_ok saved")
    case True
    show ?thesis
      by (rule rolled_back [OF Some q_def u_def _ sv]) (use True result in simp_all)
  next
    case False
    show ?thesis
      by (rule granted [OF Some q_def u_def]) (use False result sv in \<open>auto split: if_splits\<close>)
  qed
qed

text \<open>The state after a commit, whichever way it ended, relative to the state before superseding.\<close>

lemma commit_inv:
  assumes "commit h at r c prior s d = (s', d')"
    and "table_inv s" and "raw (rs_nextReservationId s) < 0xFFFFFFFFFFFFFFFF" and "restorable prior s"
  shows "table_inv s'" and "same_rules s s'" and "audit_ok s \<Longrightarrow> audit_ok s'"
proof -
  have ins: "table_inv (committed_state at r q s) \<and> same_rules s (committed_state at r q s)
      \<and> (audit_ok s \<longrightarrow> audit_ok (committed_state at r q s))"
    if "q = committed_record s r c at e" for q e
  proof -
    have "same_rules s (s\<lparr>rs_nextReservationId := bump (rs_nextReservationId s)\<rparr>)"
      by (simp add: same_rules_def)
    then show ?thesis
      using insert_reservation_inv(1) [OF assms(2,3)] that insert_reservation_audit
        insert_reservation_frame(1) same_rules_trans
      unfolding committed_state_def by (metis committed_record_simps(1,2) update_audit_ok(16))
  qed
  have "table_inv s' \<and> same_rules s s' \<and> (audit_ok s \<longrightarrow> audit_ok s')"
    using assms(1)
  proof (cases rule: commit_cases)
    case overflow
    then show ?thesis
      using restore_inv [OF assms(2,4)] by simp
  next
    case (granted e q u)
    then show ?thesis
      using ins [OF granted(2)] saveLocked_ownership [of u h] saveLocked_audit [of u h]
        same_ownership_table same_ownership_rules same_rules_trans by (metis fst_conv)
  next
    case (rolled_back e q u v saved)
    note u = ins [OF rolled_back(2), folded rolled_back(3)]
    have v: "same_ownership u v"
      using saveLocked_ownership [of u h] rolled_back(5) by simp
    have "restorable prior v"
    proof (cases prior)
      case (Some p)
      have owned: "owns u d j \<Longrightarrow> j \<noteq> res_id q \<Longrightarrow> owns s d j" for d j
        using insert_reservation_inv(4) [OF assms(2,3), of q at r] rolled_back(2,3)
        unfolding owns_def committed_state_def by (metis committed_record_simps(1,2))
      have p: "isLiveState (res_state p)" "resting (res_state p)" "sv_valid (res_id p)"
        "res_id p < rs_nextReservationId s" "\<And>d. \<not> owns s d (res_id p)"
        using assms(4) Some by (simp_all add: restorable_def)
      have "rs_nextReservationId v = bump (rs_nextReservationId s)" "owns v d j = owns u d j" for d j
        using v rolled_back(3) by (simp_all add: same_ownership_def committed_state_def owns_def)
      moreover have "\<not> owns u d (res_id p)" for d
        using owned [of d "res_id p"] p(4,5) rolled_back(2) by (metis committed_record_simps(2) less_irrefl)
      ultimately show ?thesis
        using Some p(1-3) less_trans [OF p(4) bump_greater [OF assms(3)]] by (simp add: restorable_def)
    qed (simp add: restorable_def)
    moreover have "sv_valid (res_id q)"
      using assms(2) rolled_back(2) by (simp add: table_inv_def ids_below_def)
    ultimately have "table_inv (rollback_commit r (res_id q) (map_of (rs_requestIndex s) (req_requestId r)) prior v)"
      using same_ownership_table [OF v] u by (intro rollback_commit_inv) blast+
    then have "table_inv s'"
      unfolding rolled_back(7) by (rule table_inv_frame) simp_all
    moreover have "audit_ok s \<longrightarrow> audit_ok v" "same_rules s v"
      using u saveLocked_audit [of u h] rolled_back(5) same_ownership_rules [OF v] same_rules_trans
      by (metis fst_conv)+
    ultimately show ?thesis
      unfolding rolled_back(7) using same_rules_trans [OF _ rollback_commit_frame(1)]
      by (auto intro!: appendAudit_ok)
  qed
  then show "table_inv s'" and "same_rules s s'" and "audit_ok s \<Longrightarrow> audit_ok s'"
    by blast+
qed

lemma shrinks_restore:
  assumes "shrinks t s0 s" and "\<And>p. prior = Some p \<Longrightarrow> map_of (rs_reservations s0) (res_id p) = Some p"
    and "\<And>i r. map_of m i = Some r \<Longrightarrow> map_of (rs_reservations s) i = Some r"
    and "rs_reservations s' = (case prior of None \<Rightarrow> m | Some p \<Rightarrow> om_set (res_id p) p m)"
  shows "shrinks t s0 s'"
  unfolding shrinks_def
proof (intro allI impI)
  fix i r
  assume "map_of (rs_reservations s') i = Some r"
  then consider "map_of m i = Some r" | "prior = Some r" "i = res_id r"
    unfolding assms(4) by (cases prior) (auto split: if_splits)
  then show "\<exists>q. map_of (rs_reservations s0) i = Some q \<and> same_place r q \<and> (isLiveAt r t \<longrightarrow> isLiveAt q t)"
  proof cases
    case 1
    then show ?thesis
      using assms(1,3) unfolding shrinks_def by blast
  next
    case 2
    then show ?thesis
      using assms(2) same_place_refl by blast
  qed
qed

lemma commit_lease:
  assumes "commit h at r c prior s d = (s', d')"
    and "table_inv s" and "raw (rs_nextReservationId s) < 0xFFFFFFFFFFFFFFFF"
    and "lease_inv t s0" and "shrinks t s0 s"
    and "\<And>p. prior = Some p \<Longrightarrow> map_of (rs_reservations s0) (res_id p) = Some p"
    and "\<And>e. placed (committed_record s r c at e)"
    and "\<And>e i p. map_of (rs_reservations s) i = Some p \<Longrightarrow> isLiveAt p t \<Longrightarrow>
      compatible (committed_record s r c at e) p"
  shows "lease_inv t s'"
  using assms(1)
proof (cases rule: commit_cases)
  case overflow
  then have "shrinks t s0 s'"
    by (intro shrinks_restore [OF assms(5), where m = "rs_reservations s" and prior = prior]) (simp_all add: assms(6))
  then show ?thesis
    by (rule lease_inv_shrinks [OF assms(4)])
next
  case (granted e q u)
  have "lease_inv t s"
    using assms(4,5) by (rule lease_inv_shrinks)
  then have "lease_inv t u"
    using insert_reservation_inv(6) [OF assms(2,3), of q] granted(2,3) assms(7,8)
    by (simp add: committed_state_def)
  moreover have "rs_reservations s' = rs_reservations u"
    using granted(4) saveLocked_ownership [of u h] by (auto simp: same_ownership_def)
  ultimately show ?thesis
    by (rule lease_inv_frame)
next
  case (rolled_back e q u v saved)
  have v: "rs_reservations v = rs_reservations u"
    using saveLocked_ownership [of u h] rolled_back(5) by (simp add: same_ownership_def)
  have "shrinks t s0 s'"
  proof (rule shrinks_restore [OF assms(5), where m = "om_erase (res_id q) (rs_reservations v)" and prior = prior])
    show "map_of (rs_reservations s0) (res_id p) = Some p" if "prior = Some p" for p
      using that by (rule assms(6))
    show "map_of (rs_reservations s) i = Some p"
      if "map_of (om_erase (res_id q) (rs_reservations v)) i = Some p" for i p
      using that insert_reservation_inv(4) [OF assms(2,3), of q at r i p] rolled_back(2,3) v
      by (auto simp: committed_state_def split: if_splits)
    show "rs_reservations s' = (case prior of None \<Rightarrow> om_erase (res_id q) (rs_reservations v)
        | Some p \<Rightarrow> om_set (res_id p) p (om_erase (res_id q) (rs_reservations v)))"
      by (simp add: rolled_back(7))
  qed
  then show ?thesis
    by (rule lease_inv_shrinks [OF assms(4)])
qed

section \<open>Allocation\<close>

definition allocation_instant :: "Host \<Rightarrow> SpectrumRequest \<Rightarrow> Instant" where
  "allocation_instant h r = (if req_requestedAt r = 0 then host_now h else req_requestedAt r)"

definition make_room :: "RuntimeState \<Rightarrow> RuntimeState" where
  "make_room s = (if length (rs_reservations s) \<ge> cfg_maxReservations (rs_config s)
     then pruneTerminalReservations s else s)"

lemma count_evaluation_frame [simp]:
  "rs_reservations (count_evaluation e s) = rs_reservations s"
  "rs_liveByDomain (count_evaluation e s) = rs_liveByDomain s"
  "rs_requestIndex (count_evaluation e s) = rs_requestIndex s"
  "rs_nextReservationId (count_evaluation e s) = rs_nextReservationId s"
  "rs_config (count_evaluation e s) = rs_config s"
  "same_rules s (count_evaluation e s)" "audit_ok (count_evaluation e s) = audit_ok s"
  "rs_disk (count_evaluation e s) = rs_disk s"
  "rs_reservations (count_refusal s) = rs_reservations s"
  "rs_liveByDomain (count_refusal s) = rs_liveByDomain s"
  "rs_requestIndex (count_refusal s) = rs_requestIndex s"
  "rs_nextReservationId (count_refusal s) = rs_nextReservationId s"
  "same_rules s' (count_refusal s) = same_rules s' s" "audit_ok (count_refusal s) = audit_ok s"
  "rs_disk (count_refusal s) = rs_disk s"
  by (simp_all add: count_evaluation_def count_refusal_def same_rules_def)

text \<open>The four ways an allocation ends.\<close>

lemma allocate_cases:
  assumes "table_inv s" and "allocate h r s = (s', d)"
  obtains (replay) q where "ev_replay (evaluate s r)" "q = ev_replayValue (evaluate s r)"
      "s' = appendAudit RequestEvaluated (allocation_instant h r) Allocated (res_id q) (res_generation q)
        (res_anchorDomain q) (res_slots q) (res_frequency q) msg_idempotent (count_evaluation (evaluate s r) s)"
      "dec_status d = okStatus" "dec_reservation d = res_id q" "dec_generation d = res_generation q"
      "dec_outcome d = ev_outcome (evaluate s r)"
  | (refused) "\<not> ev_replay (evaluate s r)" "\<not> ev_eligible (evaluate s r)"
      "s' = (count_refusal (appendAudit AllocationRefused (allocation_instant h r) (ev_outcome (evaluate s r))
        sv_none sv_none (case req_domains r of [] \<Rightarrow> sv_none | x # _ \<Rightarrow> x) default_slots default_frequency
        (first_reason (ev_reasons (evaluate s r)) s_refused)
        (count_evaluation (evaluate s r) s)))\<lparr>rs_lastActivityAt := allocation_instant h r\<rparr>"
      "dec_status d = statusForOutcome (ev_outcome (evaluate s r)) (ev_reasons (evaluate s r))"
      "dec_outcome d = ev_outcome (evaluate s r)" "dec_reservation d = sv_none"
  | (full) s1 where "\<not> ev_replay (evaluate s r)" "ev_eligible (evaluate s r)"
      "s1 = make_room (count_evaluation (evaluate s r) s)"
      "cfg_maxReservations (rs_config s) \<le> length (rs_reservations s1)"
      "s' = count_refusal (appendAudit AllocationRefused (allocation_instant h r) RefusedLimitExceeded
        sv_none sv_none (hd (req_domains r)) default_slots default_frequency
        (msg_table_bound (cfg_maxReservations (rs_config s))) s1)"
      "dec_outcome d = RefusedLimitExceeded" "\<not> status_ok (dec_status d)" "dec_reservation d = sv_none"
  | (committing) s1 s2 prior d0 where "\<not> ev_replay (evaluate s r)" "ev_eligible (evaluate s r)"
      "s1 = make_room (count_evaluation (evaluate s r) s)"
      "length (rs_reservations s1) < cfg_maxReservations (rs_config s)"
      "supersede (allocation_instant h r) r s1 = (s2, Inl prior)"
      "commit h (allocation_instant h r) r (ev_selected (evaluate s r)) prior s2 d0 = (s', d)"
      "d0 = decision_of s (evaluate s r)"
proof -
  define e where "e = evaluate s r"
  define s0 where "s0 = count_evaluation e s"
  define s1 where "s1 = make_room s0"
  have t0: "table_inv s0"
    using assms(1) by (rule table_inv_frame) (simp_all add: s0_def)
  then have t1: "table_inv s1"
    by (simp add: s1_def make_room_def table_inv_prune)
  note unf = assms(2) [unfolded allocate_def Let_def, folded allocation_instant_def e_def,
      folded s0_def, folded make_room_def, folded s1_def]
  have config: "rs_config s0 = rs_config s"
    by (simp add: s0_def)
  consider (1) "ev_replay e" | (2) "\<not> ev_replay e" "\<not> ev_eligible e"
    | (3) "\<not> ev_replay e" "ev_eligible e" "cfg_maxReservations (rs_config s) \<le> length (rs_reservations s1)"
    | (4) "\<not> ev_replay e" "ev_eligible e" "length (rs_reservations s1) < cfg_maxReservations (rs_config s)"
    by linarith
  then show ?thesis
  proof cases
    case 1
    show ?thesis
      by (rule replay [of "ev_replayValue e"])
        (use 1 unf in \<open>auto simp: e_def [symmetric] s0_def [symmetric] grant_decision_def decision_of_def\<close>)
  next
    case 2
    show ?thesis
      by (rule refused)
        (use 2 unf in \<open>auto simp: e_def [symmetric] s0_def [symmetric] decision_of_def\<close>)
  next
    case 3
    show ?thesis
      by (rule full [of s1])
        (use 3 unf in \<open>auto simp: e_def [symmetric] s0_def [symmetric] s1_def [symmetric] config
          decision_of_def refuse_decision_def\<close>)
  next
    case 4
    obtain s2 res where sup: "supersede (allocation_instant h r) r s1 = (s2, res)" by fastforce
    obtain prior where res: "res = Inl prior"
      using supersede_cases [OF t1 sup] by metis
    show ?thesis
      by (rule committing [of s1 s2 prior])
        (use 4 unf sup res in \<open>auto simp: e_def [symmetric] s0_def [symmetric] s1_def [symmetric] config\<close>)
  qed
qed

lemma make_room_inv:
  assumes "table_inv s"
  shows "table_inv (make_room (count_evaluation e s))"
    and "shrinks t s (make_room (count_evaluation e s))"
    and "same_rules s (make_room (count_evaluation e s))"
    and "rs_nextReservationId (make_room (count_evaluation e s)) = rs_nextReservationId s"
    and "audit_ok s \<Longrightarrow> audit_ok (make_room (count_evaluation e s))"
    and "map_of (rs_reservations (make_room (count_evaluation e s))) i = Some q \<Longrightarrow>
      map_of (rs_reservations s) i = Some q"
    and "map_of (rs_reservations s) i = Some q \<Longrightarrow> \<not> isTerminalState (res_state q) \<Longrightarrow>
      map_of (rs_reservations (make_room (count_evaluation e s))) i = Some q"
proof -
  have c: "table_inv (count_evaluation e s)"
    using assms by (rule table_inv_frame) simp_all
  note om = table_inv_om [OF c]
  show "table_inv (make_room (count_evaluation e s))"
    using c by (simp add: make_room_def table_inv_prune)
  show submap: "map_of (rs_reservations (make_room (count_evaluation e s))) i = Some q \<Longrightarrow>
      map_of (rs_reservations s) i = Some q"
    for i and q :: SpectrumReservation
    using prune_submap [OF om] by (auto simp: make_room_def split: if_splits)
  then show "shrinks t s (make_room (count_evaluation e s))"
    by (rule shrinks_submap)
  show "map_of (rs_reservations s) i = Some q \<Longrightarrow> \<not> isTerminalState (res_state q) \<Longrightarrow>
      map_of (rs_reservations (make_room (count_evaluation e s))) i = Some q"
    using prune_reservation [OF om] by (auto simp: make_room_def)
  show "same_rules s (make_room (count_evaluation e s))"
    "rs_nextReservationId (make_room (count_evaluation e s)) = rs_nextReservationId s"
    "audit_ok s \<Longrightarrow> audit_ok (make_room (count_evaluation e s))"
    by (simp_all add: make_room_def same_rules_def count_evaluation_def prune_audit_ok)
qed

text \<open>The superseded reservation can be put back, and is what the table held before.\<close>

lemma supersede_restorable:
  assumes "table_inv s" and "supersede at r s = (s', Inl prior)"
  shows "restorable prior s'" and "prior = Some p \<Longrightarrow> map_of (rs_reservations s) (res_id p) = Some p"
    and "prior = Some p \<Longrightarrow> existing_request s r = Some p"
proof -
  have "restorable prior s' \<and> (\<forall>p. prior = Some p \<longrightarrow> map_of (rs_reservations s) (res_id p) = Some p
      \<and> existing_request s r = Some p)"
  proof (cases rule: supersede_cases [OF assms])
    case 1
    then show ?thesis by (simp add: restorable_def)
  next
    case (2 p)
    then show ?thesis
      using table_inv_known [OF assms(1) 2(3)] by (auto simp: restorable_def owns_def)
  qed
  then show "restorable prior s'" "prior = Some p \<Longrightarrow> map_of (rs_reservations s) (res_id p) = Some p"
    "prior = Some p \<Longrightarrow> existing_request s r = Some p"
    by blast+
qed

lemma allocate_table:
  assumes "table_inv s" and "raw (rs_nextReservationId s) < 0xFFFFFFFFFFFFFFFF"
  shows "table_inv (fst (allocate h r s)) \<and> same_rules s (fst (allocate h r s))
    \<and> (audit_ok s \<longrightarrow> audit_ok (fst (allocate h r s)))"
proof -
  obtain s' d where a: "allocate h r s = (s', d)" by fastforce
  note room = make_room_inv [OF assms(1)]
  have "table_inv s' \<and> same_rules s s' \<and> (audit_ok s \<longrightarrow> audit_ok s')"
  proof (cases rule: allocate_cases [OF assms(1) a])
    case (1 q)
    then show ?thesis
      using assms(1) by (auto intro: table_inv_frame appendAudit_ok)
  next
    case 2
    then show ?thesis
      using assms(1) by (auto intro: table_inv_frame appendAudit_ok simp: same_rules_def)
        (simp_all add: count_refusal_def count_evaluation_def)
  next
    case (3 s1)
    have "table_inv s'"
      by (rule table_inv_frame [OF room(1) [of "evaluate s r"]]) (simp_all add: 3)
    then show ?thesis
      using room(3,5) [of "evaluate s r"] 3(3,5) by (auto intro: appendAudit_ok)
  next
    case (4 s1 s2 prior d0)
    have t1: "table_inv s1" "rs_nextReservationId s1 = rs_nextReservationId s"
      using room 4(3) by simp_all
    note sup = supersede_inv [OF t1(1) 4(5)]
    have "raw (rs_nextReservationId s2) < 0xFFFFFFFFFFFFFFFF"
      using sup(4) t1(2) assms(2) by simp
    note com = commit_inv [OF 4(6) sup(1) this supersede_restorable(1) [OF t1(1) 4(5)]]
    show ?thesis
      using com sup(3,5) room(3,5) [of "evaluate s r"] 4(3) same_rules_trans by metis
  qed
  then show ?thesis
    by (simp add: a)
qed

lemma compatible_same_place: "same_place p q \<Longrightarrow> compatible a q \<Longrightarrow> compatible a p"
  by (simp add: same_place_def compatible_def shares_domain_def common_guard_def)

lemma allocate_lease:
  assumes "table_inv s" and "raw (rs_nextReservationId s) < 0xFFFFFFFFFFFFFFFF"
    and "grids_ok s" and "lease_inv t s" and "req_requestedAt r \<le> t"
  shows "lease_inv t (fst (allocate h r s))"
proof -
  obtain s' d where a: "allocate h r s = (s', d)" by fastforce
  note room = make_room_inv [OF assms(1)]
  have "lease_inv t s'"
  proof (cases rule: allocate_cases [OF assms(1) a])
    case (1 q)
    then show ?thesis
      using assms(4) by (auto intro: lease_inv_frame)
  next
    case 2
    then show ?thesis
      using assms(4) by (auto intro: lease_inv_frame)
  next
    case (3 s1)
    then show ?thesis
      using lease_inv_shrinks [OF assms(4) room(2) [of t "evaluate s r"]] by (auto intro: lease_inv_frame)
  next
    case (4 s1 s2 prior d0)
    have t1: "table_inv s1" "rs_nextReservationId s1 = rs_nextReservationId s"
      using room 4(3) by simp_all
    note sup = supersede_inv [OF t1(1) 4(5)]
    have n2: "raw (rs_nextReservationId s2) < 0xFFFFFFFFFFFFFFFF"
      using sup(4) t1(2) assms(2) by simp
    have sh: "shrinks t s s2"
      using room(2) sup(2) 4(3) shrinks_trans by blast
    note adm = selected_admissible(1) [OF 4(2,1)]
    have shape: "status_ok (validateRequestShape r)"
      using evaluate_eligible(1) [OF 4(2)] .
    show ?thesis
    proof (rule commit_lease [OF 4(6) sup(1) n2 assms(4) sh])
      show "map_of (rs_reservations s) (res_id p) = Some p" if "prior = Some p" for p
        using supersede_restorable(2) [OF t1(1) 4(5) that] room(6) 4(3) by blast
      show "placed (committed_record s2 r (ev_selected (evaluate s r)) (allocation_instant h r) e)" for e
        by (rule admissible_placed [OF assms(3) adm shape]) simp_all
      show "compatible (committed_record s2 r (ev_selected (evaluate s r)) (allocation_instant h r) e) p"
        if p: "map_of (rs_reservations s2) i = Some p" "isLiveAt p t" for e i p
      proof -
        obtain q where q: "map_of (rs_reservations s) i = Some q" "same_place p q" "isLiveAt q t"
          using sh p unfolding shrinks_def by blast
        have "isLiveAt q (req_requestedAt r)"
          using q(3) assms(5) by (rule isLiveAt_antimono)
        then show ?thesis
          using admissible_compatible [OF assms(1) adm _ _ _ q(1)] compatible_same_place [OF q(2)] by simp
      qed
    qed
  qed
  then show ?thesis
    by (simp add: a)
qed

section \<open>What a decision means\<close>

lemma statusForOutcome_ok: "status_ok (statusForOutcome v reasons) \<longleftrightarrow> v = Allocated"
  by (cases v) (simp_all add: statusForOutcome_def Let_def)

text \<open>
  A decision that is ok and no replay entered exactly one record: in state RESERVED, under the
  next identity, at the first eligible candidate of the enumeration, which is admissible.
\<close>

definition first_eligible :: "RuntimeState \<Rightarrow> SpectrumRequest \<Rightarrow> SpectrumCandidate \<Rightarrow> bool" where
  "first_eligible s r c \<longleftrightarrow> cand_eligibility c = Eligible
     \<and> (\<exists>pre post. cset_candidates (enumerateCandidates s r) = pre @ c # post
          \<and> (\<forall>x \<in> set pre. cand_eligibility x \<noteq> Eligible))"

lemma allocate_granted:
  assumes "table_inv s" and "raw (rs_nextReservationId s) < 0xFFFFFFFFFFFFFFFF"
    and "allocate h r s = (s', d)" and "status_ok (dec_status d)" and "\<not> ev_replay (evaluate s r)"
  obtains q c where "map_of (rs_reservations s') (dec_reservation d) = Some q"
    and "dec_reservation d = rs_nextReservationId s" and "dec_generation d = StrongValue 1"
    and "dec_outcome d = Allocated" and "first_eligible s r c"
    and "admissible s r (cand_slots c) (cand_frequency c)"
    and "res_state q = Reserved" and "res_domains q = req_domains r" and "res_slots q = cand_slots c"
    and "res_frequency q = cand_frequency c" and "res_guardBandMhz q = req_guardBandMhz r"
    and "lease_expiresAt (res_lease q) = leaseStart r + req_leaseDuration r"
    and "map_of (rs_reservations s) (dec_reservation d) = None"
    and "\<And>i p. map_of (rs_reservations s') i = Some p \<Longrightarrow> i \<noteq> dec_reservation d \<Longrightarrow> isLiveState (res_state p) \<Longrightarrow>
      map_of (rs_reservations s) i = Some p"
proof -
  note room = make_room_inv [OF assms(1)]
  show thesis
  proof (cases rule: allocate_cases [OF assms(1,3)])
    case (4 s1 s2 prior d0)
    have t1: "table_inv s1" "rs_nextReservationId s1 = rs_nextReservationId s"
      using room 4(3) by simp_all
    note sup = supersede_inv [OF t1(1) 4(5)]
    have n2: "raw (rs_nextReservationId s2) < 0xFFFFFFFFFFFFFFFF" "rs_nextReservationId s2 = rs_nextReservationId s"
      using sup(4) t1(2) assms(2) by simp_all
    define c where "c = ev_selected (evaluate s r)"
    note adm = selected_admissible [OF 4(2,1), folded c_def]
    show thesis
      using 4(6)
    proof (cases rule: commit_cases)
      case overflow
      then show thesis
        using assms(4) by (simp add: refuse_decision_def)
    next
      case (rolled_back e q u v saved)
      then show thesis
        using assms(4) by (simp add: ungrant_decision_def)
    next
      case (granted e q u)
      have same: "rs_reservations s' = rs_reservations u"
        using granted(4) saveLocked_ownership [of u h] by (auto simp: same_ownership_def)
      have dec: "dec_reservation d = rs_nextReservationId s" "dec_generation d = StrongValue 1"
        "dec_outcome d = Allocated"
        using granted(2,5) n2(2) adm(4) 4(7) by (simp_all add: grant_decision_def decision_of_def)
      have q: "res_id q = rs_nextReservationId s2" "res_state q = Reserved"
        using granted(2) by simp_all
      note ins = insert_reservation_inv(3,4) [OF sup(1) n2(1) q, where at = "allocation_instant h r" and r = r,
          folded committed_state_def]
      have expiry: "lease_expiresAt (res_lease q) = leaseStart r + req_leaseDuration r"
        using addOverflow_Some [OF granted(1)] granted(2)
        by (simp add: committed_record_def new_reservation_def)
      have old: "map_of (rs_reservations s) i = Some p"
        if p: "map_of (rs_reservations s') i = Some p" "i \<noteq> dec_reservation d" "isLiveState (res_state p)" for i p
      proof -
        have p2: "map_of (rs_reservations s2) i = Some p"
          using ins(2) p(1,2) same granted(3) dec(1) n2(2) q(1) by metis
        show ?thesis
        proof (cases rule: supersede_cases [OF t1(1) 4(5)])
          case 1
          then show ?thesis
            using p2 room(6) 4(3) by simp
        next
          case (2 p0)
          have "i \<noteq> res_id p0"
            using p2 2(6) p(3) by auto
          then show ?thesis
            using p2 2(6) room(6) 4(3) by simp
        qed
      qed
      have fresh: "map_of (rs_reservations s) (dec_reservation d) = None"
        using assms(1) dec(1) by (auto simp: table_inv_def ids_below_def)
      show thesis
      proof (rule that [of q c])
        show "map_of (rs_reservations s') (dec_reservation d) = Some q"
          using ins(1) same granted(3) dec(1) n2(2) q(1) by metis
        show "first_eligible s r c"
          using adm(2,3) by (simp add: first_eligible_def)
        show "admissible s r (cand_slots c) (cand_frequency c)"
          by (rule adm(1))
        show "res_domains q = req_domains r" "res_slots q = cand_slots c" "res_frequency q = cand_frequency c"
          "res_guardBandMhz q = req_guardBandMhz r"
          using granted(2) by (simp_all add: c_def)
      qed (fact dec q(2) expiry fresh old)+
    qed
  next
    case 2
    then show thesis
      using assms(4) evaluate_refusal(1) [of s r] by (auto simp: statusForOutcome_ok)
  qed (use assms in simp_all)
qed

text \<open>
  A decision that is not ok, and likewise a replay, leaves every record that is not terminal
  exactly as it was, enters none, and leaves the live index exactly as it was.
\<close>

definition live_part_same :: "RuntimeState \<Rightarrow> RuntimeState \<Rightarrow> bool" where
  "live_part_same s s' \<longleftrightarrow>
     (\<forall>i p. map_of (rs_reservations s') i = Some p \<longrightarrow> map_of (rs_reservations s) i = Some p)
     \<and> (\<forall>i p. map_of (rs_reservations s) i = Some p \<longrightarrow> \<not> isTerminalState (res_state p) \<longrightarrow>
          map_of (rs_reservations s') i = Some p)
     \<and> rs_liveByDomain s' = rs_liveByDomain s"

lemma live_part_sameI:
  assumes "table_inv s" and "table_inv s'"
    and "\<And>i p. map_of (rs_reservations s') i = Some p \<Longrightarrow> map_of (rs_reservations s) i = Some p"
    and "\<And>i p. map_of (rs_reservations s) i = Some p \<Longrightarrow> \<not> isTerminalState (res_state p) \<Longrightarrow>
      map_of (rs_reservations s') i = Some p"
  shows "live_part_same s s'"
proof -
  have "owns s' d i \<longleftrightarrow> owns s d i" for d i
  proof
    assume "owns s' d i"
    then show "owns s d i"
      using assms(3) unfolding owns_def by blast
  next
    assume "owns s d i"
    then show "owns s' d i"
      using assms(4) live_not_terminal unfolding owns_def by blast
  qed
  then have "rs_liveByDomain s' = rs_liveByDomain s"
  proof (intro live.extensional)
    show "index_wf (rs_liveByDomain s')" "index_wf (rs_liveByDomain s)"
      using assms(1,2) by (simp_all add: table_inv_def live_exact_def)
    show "live_member (rs_liveByDomain s') d i = live_member (rs_liveByDomain s) d i"
      if "\<And>d i. owns s' d i = owns s d i" for d i
      using that table_inv_live [OF assms(1)] table_inv_live [OF assms(2)] by (simp add: live_exact_def)
  qed
  then show ?thesis
    using assms(3,4) unfolding live_part_same_def by blast
qed

definition away :: "SpectrumReservation option \<Rightarrow> ReservationId \<Rightarrow> bool" where
  "away prior i \<longleftrightarrow> (case prior of None \<Rightarrow> True | Some p \<Rightarrow> i \<noteq> res_id p)"

definition only_pruned :: "RuntimeState \<Rightarrow> RuntimeState \<Rightarrow> bool" where
  "only_pruned s s' \<longleftrightarrow>
     (\<forall>i p. map_of (rs_reservations s') i = Some p \<longrightarrow> map_of (rs_reservations s) i = Some p)
     \<and> (\<forall>i p. map_of (rs_reservations s) i = Some p \<longrightarrow> \<not> isTerminalState (res_state p) \<longrightarrow>
          map_of (rs_reservations s') i = Some p)"

lemma restored_part:
  assumes "\<forall>i p. map_of m i = Some p \<longrightarrow> away prior i \<longrightarrow> map_of (rs_reservations s) i = Some p"
    and "\<forall>i p. map_of (rs_reservations s) i = Some p \<longrightarrow> \<not> isTerminalState (res_state p) \<longrightarrow>
      away prior i \<longrightarrow> map_of m i = Some p"
    and "\<forall>p. prior = Some p \<longrightarrow> map_of (rs_reservations s) (res_id p) = Some p"
    and "rs_reservations s' = (case prior of None \<Rightarrow> m | Some p \<Rightarrow> om_set (res_id p) p m)"
  shows "only_pruned s s'"
proof (cases prior)
  case None
  then have "away prior i" and "rs_reservations s' = m" for i
    using assms(4) by (simp_all add: away_def)
  then show ?thesis
    using assms(1,2) unfolding only_pruned_def by blast
next
  case (Some p0)
  have s': "map_of (rs_reservations s') i = (if i = res_id p0 then Some p0 else map_of m i)" for i
    using assms(4) Some by simp
  have p0: "map_of (rs_reservations s) (res_id p0) = Some p0"
    using assms(3) Some by blast
  have far: "away prior i \<longleftrightarrow> i \<noteq> res_id p0" for i
    by (simp add: away_def Some)
  have A: "map_of (rs_reservations s) i = Some p" if "map_of (rs_reservations s') i = Some p" for i p
  proof (cases "i = res_id p0")
    case True
    then show ?thesis using that p0 unfolding s' by (metis)
  next
    case False
    then have "map_of m i = Some p" using that unfolding s' by (simp only: if_False)
    then show ?thesis using assms(1) far False by blast
  qed
  have B: "map_of (rs_reservations s') i = Some p"
    if "map_of (rs_reservations s) i = Some p" "\<not> isTerminalState (res_state p)" for i p
  proof (cases "i = res_id p0")
    case True
    then show ?thesis using that p0 unfolding s' by (metis)
  next
    case False
    then show ?thesis using that assms(2) far unfolding s' by metis
  qed
  show ?thesis
    unfolding only_pruned_def using A B by blast
qed
lemma supersede_away:
  assumes "table_inv s" and "supersede at r s = (s', Inl prior)" and "away prior i"
  shows "map_of (rs_reservations s') i = map_of (rs_reservations s) i"
  using assms(3) by (cases rule: supersede_cases [OF assms(1,2)]) (auto simp: away_def)

text \<open>A commit that failed has put everything back.\<close>

lemma commit_declined:
  assumes "commit h at r c prior s d = (s', d')" and "\<not> status_ok (dec_status d')"
    and "table_inv s" and "raw (rs_nextReservationId s) < 0xFFFFFFFFFFFFFFFF"
    and "\<forall>i p. map_of (rs_reservations s) i = Some p \<longrightarrow> away prior i \<longrightarrow> map_of (rs_reservations s0) i = Some p"
    and "\<forall>i p. map_of (rs_reservations s0) i = Some p \<longrightarrow> \<not> isTerminalState (res_state p) \<longrightarrow>
      away prior i \<longrightarrow> map_of (rs_reservations s) i = Some p"
    and "\<forall>p. prior = Some p \<longrightarrow> map_of (rs_reservations s0) (res_id p) = Some p"
  shows "only_pruned s0 s'"
  using assms(1)
proof (cases rule: commit_cases)
  case overflow
  then show ?thesis
    by (intro restored_part [OF assms(5-7)]) simp
next
  case (granted e q u)
  then show ?thesis
    using assms(2) by (simp add: grant_decision_def)
next
  case (rolled_back e q u v saved)
  have v: "rs_reservations v = rs_reservations u"
    using saveLocked_ownership [of u h] rolled_back(5) by (simp add: same_ownership_def)
  have q: "res_id q = rs_nextReservationId s" "res_state q = Reserved"
    using rolled_back(2) by simp_all
  note ins = insert_reservation_inv(4,5) [OF assms(3,4) q, where at = at and r = r,
      folded committed_state_def, folded rolled_back(3)]
  have fresh: "map_of (rs_reservations s) (res_id q) = None"
    by (rule insert_reservation_inv(2) [OF assms(3,4) q])
  show ?thesis
  proof (rule restored_part [OF _ _ assms(7)])
    show "rs_reservations s' = (case prior of None \<Rightarrow> om_erase (res_id q) (rs_reservations v)
        | Some p \<Rightarrow> om_set (res_id p) p (om_erase (res_id q) (rs_reservations v)))"
      by (simp add: rolled_back(7))
    show "\<forall>i p. map_of (om_erase (res_id q) (rs_reservations v)) i = Some p \<longrightarrow> away prior i \<longrightarrow>
        map_of (rs_reservations s0) i = Some p"
      using ins(1) assms(5) v by (simp split: if_splits)
    show "\<forall>i p. map_of (rs_reservations s0) i = Some p \<longrightarrow> \<not> isTerminalState (res_state p) \<longrightarrow>
        away prior i \<longrightarrow> map_of (om_erase (res_id q) (rs_reservations v)) i = Some p"
      using ins(2) assms(6) fresh v by (metis fun_upd_other map_of_om_erase option.distinct(1))
  qed
qed

text \<open>The whole path from making room to the failed commit.\<close>

lemma committing_declined:
  assumes "table_inv s" and "raw (rs_nextReservationId s) < 0xFFFFFFFFFFFFFFFF"
    and "supersede at r (make_room (count_evaluation e s)) = (s2, Inl prior)"
    and "commit h at r c prior s2 d0 = (s', d)" and "\<not> status_ok (dec_status d)"
  shows "only_pruned s s'"
proof -
  define s1 where "s1 = make_room (count_evaluation e s)"
  note room = make_room_inv [OF assms(1), where e = e, folded s1_def]
  have sup: "supersede at r s1 = (s2, Inl prior)"
    using assms(3) by (simp add: s1_def)
  note inv = supersede_inv [OF room(1) sup]
  have n2: "raw (rs_nextReservationId s2) < 0xFFFFFFFFFFFFFFFF"
    using inv(4) room(4) assms(2) by metis
  have far: "map_of (rs_reservations s2) i = map_of (rs_reservations s1) i" if "away prior i" for i
    by (rule supersede_away [OF room(1) sup that])
  show ?thesis
  proof (rule commit_declined [OF assms(4,5) inv(1) n2]; intro allI impI)
    fix i p
    assume "map_of (rs_reservations s2) i = Some p" "away prior i"
    then show "map_of (rs_reservations s) i = Some p"
      using far room(6) by metis
  next
    fix i p
    assume "map_of (rs_reservations s) i = Some p" "\<not> isTerminalState (res_state p)" "away prior i"
    then show "map_of (rs_reservations s2) i = Some p"
      using far room(7) by metis
  next
    fix p
    assume "prior = Some p"
    then show "map_of (rs_reservations s) (res_id p) = Some p"
      using supersede_restorable(2) [OF room(1) sup] room(6) by blast
  qed
qed

lemma allocate_declined:
  assumes "table_inv s" and "raw (rs_nextReservationId s) < 0xFFFFFFFFFFFFFFFF"
    and "allocate h r s = (s', d)" and "\<not> status_ok (dec_status d) \<or> ev_replay (evaluate s r)"
  shows "live_part_same s s'"
proof -
  have t': "table_inv s'"
    using allocate_table [OF assms(1,2), of h r] assms(3) by simp
  have "only_pruned s s'"
  proof (cases rule: allocate_cases [OF assms(1,3)])
    case (1 q)
    then have "rs_reservations s' = rs_reservations s" by simp
    then show ?thesis by (simp add: only_pruned_def)
  next
    case 2
    then have "rs_reservations s' = rs_reservations s" by simp
    then show ?thesis by (simp add: only_pruned_def)
  next
    case (3 s1)
    then have "rs_reservations s' = rs_reservations (make_room (count_evaluation (evaluate s r) s))"
      by simp
    then show ?thesis
      unfolding only_pruned_def using make_room_inv(6,7) [OF assms(1)] by metis
  next
    case (4 s1 s2 prior d0)
    then show ?thesis
      using committing_declined [OF assms(1,2)] assms(4) by blast
  qed
  then show ?thesis
    using live_part_sameI [OF assms(1) t'] unfolding only_pruned_def by blast
qed

text \<open>An idempotent replay answers with the recorded reservation and changes no record.\<close>

lemma allocate_replay:
  assumes "ev_replay (evaluate s r)" and "allocate h r s = (s', d)"
  shows "\<exists>q. existing_request s r = Some q \<and> sameRequestShape q r
      \<and> req_requestGeneration r = res_requestGeneration q
      \<and> dec_status d = okStatus \<and> dec_reservation d = res_id q \<and> dec_generation d = res_generation q"
    and "rs_reservations s' = rs_reservations s" and "rs_liveByDomain s' = rs_liveByDomain s"
    and "rs_requestIndex s' = rs_requestIndex s"
proof -
  have elig: "ev_eligible (evaluate s r)"
    using assms(1) evaluate_candidates_replay [of s r]
    by (auto simp: evaluate_def Let_def default_evaluation_def split: option.splits if_splits)
  obtain q where q: "existing_request s r = Some q" "sameRequestShape q r"
    "req_requestGeneration r = res_requestGeneration q" "ev_replayValue (evaluate s r) = q"
    using evaluate_eligible(5) [OF elig assms(1)] by blast
  then show "\<exists>q. existing_request s r = Some q \<and> sameRequestShape q r
      \<and> req_requestGeneration r = res_requestGeneration q
      \<and> dec_status d = okStatus \<and> dec_reservation d = res_id q \<and> dec_generation d = res_generation q"
    using assms by (auto simp: allocate_def Let_def grant_decision_def decision_of_def)
  show "rs_reservations s' = rs_reservations s" "rs_liveByDomain s' = rs_liveByDomain s"
    "rs_requestIndex s' = rs_requestIndex s"
    using assms by (auto simp: allocate_def Let_def)
qed

end
