(* ===== verification/Lifecycle.thy ===== *)
theory Lifecycle
  imports Persistence
begin

text \<open>
  \<open>runtime_lifecycle.cpp\<close>: renewing, activating, deactivating and releasing one reservation, and
  the two sweeps over lapsed leases. Every operation checks its own authority token, names the
  generation it acts on, drives the reservation through the state machine, and rolls back when
  the new state cannot be made durable.
\<close>

section \<open>Transitions, lookup, rollback\<close>

definition kMaxLeaseExtensionNanos :: int where
  "kMaxLeaseExtensionNanos = 3650 * 86400 * 1000000000"

definition msg_transition :: "ReservationState \<Rightarrow> ReservationState \<Rightarrow> string" where
  "msg_transition a b = ''transition from '' @ reservationState_toToken a @ '' to ''
     @ reservationState_toToken b @ '' is not permitted''"

definition advanceState ::
    "ReservationState \<Rightarrow> RuntimeState \<times> SpectrumReservation \<Rightarrow>
     (RuntimeState \<times> SpectrumReservation) \<times> string option" where
  "advanceState st sr =
     (case sr of (s, q) \<Rightarrow>
        if \<not> isLegalTransition (res_state q) st
        then let error = msg_transition (res_state q) st
             in ((appendAudit ReplayRejected (res_updatedAt q) RefusedNotPermitted (res_id q)
                    (res_generation q) (res_anchorDomain q) (res_slots q) (res_frequency q) error s,
                  q), Some error)
        else ((s, q\<lparr>res_state := st\<rparr>), None))"

definition advanceTwo ::
    "ReservationState \<Rightarrow> ReservationState \<Rightarrow> RuntimeState \<times> SpectrumReservation \<Rightarrow>
     (RuntimeState \<times> SpectrumReservation) \<times> string option" where
  "advanceTwo a b sr =
     (case advanceState a sr of
        (sr', Some e) \<Rightarrow> (sr', Some e)
      | (sr', None) \<Rightarrow> advanceState b sr')"

text \<open>The operations mutate the table entry in place; \<open>store\<close> writes it back.\<close>

definition store :: "ReservationId \<Rightarrow> SpectrumReservation \<Rightarrow> RuntimeState \<Rightarrow> RuntimeState" where
  "store i q s = s\<lparr>rs_reservations := om_set i q (rs_reservations s)\<rparr>"

definition rollbackReservation :: "SpectrumReservation \<Rightarrow> RuntimeState \<Rightarrow> RuntimeState" where
  "rollbackReservation backup s =
     (let s1 = removeLiveReservation (res_id backup) (store (res_id backup) backup s)
      in if isLiveState (res_state backup) then addLiveReservation backup s1 else s1)"

definition msg_not_known :: "ReservationId \<Rightarrow> string" where
  "msg_not_known i = ''reservation '' @ t_reservation i @ '' is not known to this runtime''"
definition msg_wrong_generation ::
    "ReservationId \<Rightarrow> ReservationGeneration \<Rightarrow> ReservationGeneration \<Rightarrow> string" where
  "msg_wrong_generation i cur g = ''reservation '' @ t_reservation i @ '' is at generation ''
     @ raw_to_string cur @ ''; the operation names generation '' @ raw_to_string g"

definition lookup ::
    "ReservationId \<Rightarrow> ReservationGeneration \<Rightarrow> RuntimeState \<Rightarrow>
     RuntimeState \<times> (Status + SpectrumReservation)" where
  "lookup i g s =
     (case map_of (rs_reservations s) i of
        None \<Rightarrow> (s, Inl (fail NotFound (msg_not_known i)))
      | Some q \<Rightarrow>
          if res_generation q \<noteq> g
          then let status = fail StaleGeneration (msg_wrong_generation i (res_generation q) g)
               in (appendAudit ReplayRejected (res_updatedAt q) RefusedStaleGeneration i g
                     (res_anchorDomain q) (res_slots q) (res_frequency q) (message status) s,
                   Inl status)
          else (s, Inr q))"

text \<open>The common end of the four operations: persist, or restore statistics and reservation.\<close>

definition finish ::
    "Host \<Rightarrow> RuntimeStats \<Rightarrow> SpectrumReservation \<Rightarrow> RuntimeState \<Rightarrow> RuntimeState \<times> Status" where
  "finish h backupStats backup s =
     (case persistAfterMutation h s of
        (s1, persisted) \<Rightarrow>
          if \<not> status_ok persisted
          then (rollbackReservation backup (s1\<lparr>rs_stats := backupStats\<rparr>), persisted)
          else (s1, okStatus))"

definition reject_authority ::
    "ReservationId \<Rightarrow> ReservationGeneration \<Rightarrow> Instant \<Rightarrow> string \<Rightarrow> RuntimeState \<Rightarrow> RuntimeState" where
  "reject_authority i g now m s =
     appendAudit ReplayRejected now RefusedStaleAuthority i g sv_none default_slots default_frequency m s"

definition reject_lapsed ::
    "ReservationId \<Rightarrow> ReservationGeneration \<Rightarrow> Instant \<Rightarrow> SpectrumReservation \<Rightarrow> string \<Rightarrow> RuntimeState \<Rightarrow>
     RuntimeState" where
  "reject_lapsed i g now q m s =
     (let s1 = appendAudit ReplayRejected now RefusedLeaseExpired i g (res_anchorDomain q)
                 (res_slots q) (res_frequency q) m s
      in s1\<lparr>rs_stats := (rs_stats s1)\<lparr>st_replayRejections := st_replayRejections (rs_stats s1) + 1\<rparr>\<rparr>)"

text \<open>Recording a completed operation: statistics, activity instant, audit record.\<close>

definition note_operation ::
    "AuditKind \<Rightarrow> Instant \<Rightarrow> SpectrumReservation \<Rightarrow> string \<Rightarrow> (RuntimeStats \<Rightarrow> RuntimeStats) \<Rightarrow>
     RuntimeState \<Rightarrow> RuntimeState" where
  "note_operation kind now q m counts s =
     appendAudit kind now OutcomeUnknown (res_id q) (res_generation q) (res_anchorDomain q)
       (res_slots q) (res_frequency q) m
       (s\<lparr>rs_stats := counts (rs_stats s), rs_lastActivityAt := now\<rparr>)"

section \<open>Renewal\<close>

definition msg_extension_positive :: string where
  "msg_extension_positive = ''a renewal extension must be a positive duration''"
definition msg_extension_max :: string where
  "msg_extension_max = ''a renewal extension may not exceed 3650 days''"
definition msg_renewal_rejected :: "string \<Rightarrow> string" where
  "msg_renewal_rejected m = ''renewal rejected: '' @ m"
definition msg_cannot :: "ReservationId \<Rightarrow> ReservationState \<Rightarrow> string \<Rightarrow> string" where
  "msg_cannot i st what = ''reservation '' @ t_reservation i @ '' is '' @ reservationState_toToken st @ what"
definition s_cannot_renew :: string where "s_cannot_renew = '' and cannot be renewed''"
definition s_cannot_activate :: string where "s_cannot_activate = '' and cannot be activated''"
definition s_cannot_deactivate :: string where "s_cannot_deactivate = '' and cannot be deactivated''"
definition s_duplicate_release :: string where
  "s_duplicate_release = '' and owns no spectrum; duplicate release never creates capacity''"
definition msg_renew_lapsed_audit :: "Instant \<Rightarrow> string" where
  "msg_renew_lapsed_audit t = ''renewal rejected: the lease lapsed at '' @ int_to_string t @ ''ns''"
definition msg_renew_lapsed :: "Instant \<Rightarrow> string" where
  "msg_renew_lapsed t = ''the lease lapsed at '' @ int_to_string t
     @ ''ns and cannot be renewed; a fresh allocation request is required''"
definition msg_cap_low :: "nat \<Rightarrow> nat \<Rightarrow> string" where
  "msg_cap_low n c = ''the requested renewal cap '' @ nat_to_string n
     @ '' is not above the renewal count '' @ nat_to_string c"
definition msg_cap_reached :: "ReservationId \<Rightarrow> nat \<Rightarrow> string" where
  "msg_cap_reached i n = ''reservation '' @ t_reservation i @ '' reached its renewal cap of '' @ nat_to_string n"
definition msg_renew_overflow :: string where
  "msg_renew_overflow = ''the renewed lease expiry is not representable''"
definition msg_renewed :: "Lease \<Rightarrow> string" where
  "msg_renewed l = ''lease extended to '' @ int_to_string (lease_expiresAt l) @ ''ns; renewal ''
     @ nat_to_string (lease_renewalCount l)"

definition renewed_lease :: "int \<Rightarrow> nat \<Rightarrow> Lease \<Rightarrow> Lease" where
  "renewed_lease newExpiry effectiveCap l =
     l\<lparr>lease_expiresAt := newExpiry, lease_renewalCount := u32add (lease_renewalCount l) 1,
       lease_maxRenewals := effectiveCap, lease_generation := bump (lease_generation l)\<rparr>"

definition renew ::
    "Host \<Rightarrow> ReservationId \<Rightarrow> ReservationGeneration \<Rightarrow> Duration \<Rightarrow> ReservationAuthority \<Rightarrow> Instant \<Rightarrow>
     nat \<Rightarrow> RuntimeState \<Rightarrow> RuntimeState \<times> Status" where
  "renew h i g extension authority now maxRenewals s =
     (let authorityStatus = checkReservationAuthority (rs_authority s) authority
      in if extension \<le> 0 then (s, fail InvalidArgument msg_extension_positive)
         else if extension > kMaxLeaseExtensionNanos then (s, fail InvalidArgument msg_extension_max)
         else if \<not> status_ok authorityStatus
         then (reject_authority i g now (msg_renewal_rejected (message authorityStatus)) s, authorityStatus)
         else (case lookup i g s of
             (s1, Inl status) \<Rightarrow> (s1, status)
           | (s1, Inr q) \<Rightarrow>
               let l = res_lease q;
                   effectiveCap = (if maxRenewals \<noteq> 0 then maxRenewals else lease_maxRenewals l)
               in if res_state q \<noteq> Reserved \<and> res_state q \<noteq> Active
                  then (s1, fail IllegalTransition (msg_cannot i (res_state q) s_cannot_renew))
                  else if \<not> lease_validAt l now
                  then (reject_lapsed i g now q (msg_renew_lapsed_audit (lease_expiresAt l)) s1,
                        fail Refused (msg_renew_lapsed (lease_expiresAt l)))
                  else if maxRenewals \<noteq> 0 \<and> maxRenewals \<le> lease_renewalCount l
                  then (s1, fail LimitExceeded (msg_cap_low maxRenewals (lease_renewalCount l)))
                  else if lease_maxRenewals l \<noteq> 0 \<and> lease_renewalCount l \<ge> lease_maxRenewals l
                  then (s1, fail LimitExceeded (msg_cap_reached i (lease_maxRenewals l)))
                  else (case addOverflow (lease_expiresAt l) extension of
                      None \<Rightarrow> (s1, fail Overflow msg_renew_overflow)
                    | Some newExpiry \<Rightarrow>
                        (case advanceState Renewing (s1, q) of
                           ((s2, q2), Some e) \<Rightarrow> (store i q2 s2, fail IllegalTransition e)
                         | ((s2, q2), None) \<Rightarrow>
                             let q3 = q2\<lparr>res_lease := renewed_lease newExpiry effectiveCap (res_lease q2),
                                        res_generation := bump (res_generation q2),
                                        res_updatedAt := now,
                                        res_lastOperation := bump (res_lastOperation q2)\<rparr>
                             in (case advanceState (res_state q) (s2, q3) of
                                  ((s3, q4), Some e) \<Rightarrow> (store i q4 s3, fail IllegalTransition e)
                                | ((s3, q4), None) \<Rightarrow>
                                    finish h (rs_stats s1) q
                                      (note_operation ReservationRenewed now q4 (msg_renewed (res_lease q4))
                                        (\<lambda>t. t\<lparr>st_renewals := st_renewals t + 1\<rparr>) (store i q4 s3)))))))"

section \<open>Activation and deactivation\<close>

definition msg_activation_rejected :: "string \<Rightarrow> string" where
  "msg_activation_rejected m = ''activation rejected: '' @ m"
definition s_activation_lapsed :: string where
  "s_activation_lapsed = ''activation rejected: the lease lapsed''"
definition msg_activate_lapsed :: "Instant \<Rightarrow> string" where
  "msg_activate_lapsed t = ''the lease lapsed at '' @ int_to_string t @ ''ns and cannot be activated''"
definition msg_activated :: "ControllerFence \<Rightarrow> string" where
  "msg_activated f = ''activated under controller epoch '' @ raw_to_string (epoch f)
     @ '' incarnation '' @ raw_to_string (incarnation f)"
definition msg_deactivation_rejected :: "string \<Rightarrow> string" where
  "msg_deactivation_rejected m = ''deactivation rejected: '' @ m"
definition msg_deactivated :: string where
  "msg_deactivated =
     ''returned to RESERVED; spectrum remains owned until release, expiry or reclamation''"

definition activate ::
    "Host \<Rightarrow> ReservationId \<Rightarrow> ReservationGeneration \<Rightarrow> ActivationAuthority \<Rightarrow> Instant \<Rightarrow>
     RuntimeState \<Rightarrow> RuntimeState \<times> Status" where
  "activate h i g authority now s =
     (let authorityStatus = checkActivationAuthority (rs_authority s) authority
      in if \<not> status_ok authorityStatus
         then (reject_authority i g now (msg_activation_rejected (message authorityStatus)) s, authorityStatus)
         else (case lookup i g s of
             (s1, Inl status) \<Rightarrow> (s1, status)
           | (s1, Inr q) \<Rightarrow>
               if res_state q \<noteq> Reserved
               then (s1, fail IllegalTransition (msg_cannot i (res_state q) s_cannot_activate))
               else if \<not> lease_validAt (res_lease q) now
               then (reject_lapsed i g now q s_activation_lapsed s1,
                     fail Refused (msg_activate_lapsed (lease_expiresAt (res_lease q))))
               else (case advanceTwo Activating Active (s1, q) of
                   ((s2, q2), Some e) \<Rightarrow> (store i q2 s2, fail IllegalTransition e)
                 | ((s2, q2), None) \<Rightarrow>
                     let q3 = q2\<lparr>res_activatedAt := now, res_updatedAt := now,
                                res_needsRevalidation := False,
                                res_lastOperation := bump (res_lastOperation q2)\<rparr>
                     in finish h (rs_stats s1) q
                          (note_operation ReservationActivated now q3 (msg_activated (rs_fence s2))
                            (\<lambda>t. t\<lparr>st_activations := st_activations t + 1\<rparr>) (store i q3 s2)))))"

definition deactivate ::
    "Host \<Rightarrow> ReservationId \<Rightarrow> ReservationGeneration \<Rightarrow> ActivationAuthority \<Rightarrow> Instant \<Rightarrow>
     RuntimeState \<Rightarrow> RuntimeState \<times> Status" where
  "deactivate h i g authority now s =
     (let authorityStatus = checkActivationAuthority (rs_authority s) authority
      in if \<not> status_ok authorityStatus
         then (reject_authority i g now (msg_deactivation_rejected (message authorityStatus)) s, authorityStatus)
         else (case lookup i g s of
             (s1, Inl status) \<Rightarrow> (s1, status)
           | (s1, Inr q) \<Rightarrow>
               if res_state q \<noteq> Active
               then (s1, fail IllegalTransition (msg_cannot i (res_state q) s_cannot_deactivate))
               else (case advanceTwo Deactivating Reserved (s1, q) of
                   ((s2, q2), Some e) \<Rightarrow> (store i q2 s2, fail IllegalTransition e)
                 | ((s2, q2), None) \<Rightarrow>
                     let q3 = q2\<lparr>res_deactivatedAt := now, res_updatedAt := now,
                                res_lastOperation := bump (res_lastOperation q2)\<rparr>
                     in finish h (rs_stats s1) q
                          (note_operation ReservationDeactivated now q3 msg_deactivated
                            (\<lambda>t. t\<lparr>st_deactivations := st_deactivations t + 1\<rparr>) (store i q3 s2)))))"

section \<open>Release\<close>

definition msg_release_rejected :: "string \<Rightarrow> string" where
  "msg_release_rejected m = ''release rejected: '' @ m"
definition msg_slots_at :: "string \<Rightarrow> SlotRange \<Rightarrow> string" where
  "msg_slots_at verb r = verb @ nat_to_string (slot_count r) @ '' slot(s) at '' @ nat_to_string (slot_first r)"
definition s_released :: string where "s_released = ''released ''"
definition s_reclaimed :: string where "s_reclaimed = ''reclaimed ''"

definition release ::
    "Host \<Rightarrow> ReservationId \<Rightarrow> ReservationGeneration \<Rightarrow> ReleaseAuthority \<Rightarrow> Instant \<Rightarrow>
     RuntimeState \<Rightarrow> RuntimeState \<times> Status" where
  "release h i g authority now s =
     (let authorityStatus = checkReleaseAuthority (rs_authority s) authority
      in if \<not> status_ok authorityStatus
         then (reject_authority i g now (msg_release_rejected (message authorityStatus)) s, authorityStatus)
         else (case lookup i g s of
             (s1, Inl status) \<Rightarrow> (s1, status)
           | (s1, Inr q) \<Rightarrow>
               if \<not> isLiveState (res_state q)
               then (s1, fail IllegalTransition (msg_cannot i (res_state q) s_duplicate_release))
               else (case advanceTwo Releasing Released (s1, q) of
                   ((s2, q2), Some e) \<Rightarrow> (store i q2 s2, fail IllegalTransition e)
                 | ((s2, q2), None) \<Rightarrow>
                     let q3 = q2\<lparr>res_releasedAt := now, res_updatedAt := now,
                                res_lastOperation := bump (res_lastOperation q2)\<rparr>
                     in finish h (rs_stats s1) q
                          (note_operation ReservationReleased now q3 (msg_slots_at s_released (res_slots q3))
                            (\<lambda>t. t\<lparr>st_releases := st_releases t + 1\<rparr>)
                            (removeLiveReservation (res_id q3) (store i q3 s2))))))"

section \<open>Sweeps\<close>

definition msg_expired :: "Instant \<Rightarrow> Instant \<Rightarrow> string" where
  "msg_expired t now = ''lease expired at '' @ int_to_string t @ ''ns and was observed at ''
     @ int_to_string now @ ''ns''"

record Sweep =
  sw_state :: RuntimeState
  sw_ids :: "ReservationId list"
  sw_backups :: "SpectrumReservation list"

text \<open>
  One entry of the expiry sweep. As in the source the backup is taken after the state of the entry
  was advanced to \<open>Expired\<close>.
\<close>

definition lapse_entry :: "Instant \<Rightarrow> ReservationId \<Rightarrow> Sweep \<Rightarrow> Sweep" where
  "lapse_entry now i w =
     (case map_of (rs_reservations (sw_state w)) i of
        None \<Rightarrow> w
      | Some q \<Rightarrow>
          if \<not> isLiveState (res_state q) then w
          else if lease_validAt (res_lease q) now then w
          else (case advanceState Expired (sw_state w, q) of
              ((s1, q1), Some e) \<Rightarrow> w\<lparr>sw_state := store i q1 s1\<rparr>
            | ((s1, q1), None) \<Rightarrow>
                let q2 = q1\<lparr>res_updatedAt := now, res_lastOperation := bump (res_lastOperation q1)\<rparr>;
                    s2 = removeLiveReservation (res_id q2) (store i q2 s1)
                in w\<lparr>sw_state := appendAudit ReservationExpired now OutcomeUnknown (res_id q2)
                         (res_generation q2) (res_anchorDomain q2) (res_slots q2) (res_frequency q2)
                         (msg_expired (lease_expiresAt (res_lease q2)) now) s2,
                     sw_ids := sw_ids w @ [res_id q2], sw_backups := sw_backups w @ [q1]\<rparr>))"

definition markLapsed :: "Instant \<Rightarrow> RuntimeState \<Rightarrow> Sweep" where
  "markLapsed now s =
     fold (lapse_entry now) (om_keys (rs_reservations s))
       \<lparr>sw_state = s, sw_ids = [], sw_backups = []\<rparr>"

definition rollbackAll :: "SpectrumReservation list \<Rightarrow> RuntimeState \<Rightarrow> RuntimeState" where
  "rollbackAll backups s = fold rollbackReservation backups s"

definition reclaim_entry :: "Instant \<Rightarrow> ReservationId \<Rightarrow> Sweep \<Rightarrow> Sweep" where
  "reclaim_entry now i w =
     (case map_of (rs_reservations (sw_state w)) i of
        None \<Rightarrow> w
      | Some q \<Rightarrow>
          if res_state q \<noteq> Expired then w
          else
            let w1 = w\<lparr>sw_backups := sw_backups w @ [q]\<rparr>
            in (case advanceTwo Reclaiming Reclaimed (sw_state w, q) of
                 ((s1, q1), Some e) \<Rightarrow> w1\<lparr>sw_state := store i q1 s1\<rparr>
               | ((s1, q1), None) \<Rightarrow>
                   let q2 = q1\<lparr>res_reclaimedAt := now, res_updatedAt := now,
                              res_lastOperation := bump (res_lastOperation q1)\<rparr>;
                       s2 = removeLiveReservation (res_id q2) (store i q2 s1);
                       s3 = s2\<lparr>rs_stats := (rs_stats s2)\<lparr>st_reclamations := st_reclamations (rs_stats s2) + 1\<rparr>\<rparr>
                   in w1\<lparr>sw_state := appendAudit ReservationReclaimed now OutcomeUnknown (res_id q2)
                            (res_generation q2) (res_anchorDomain q2) (res_slots q2) (res_frequency q2)
                            (msg_slots_at s_reclaimed (res_slots q2)) s3,
                         sw_ids := sw_ids w1 @ [res_id q2]\<rparr>))"

definition count_sweep :: "Instant \<Rightarrow> RuntimeState \<Rightarrow> RuntimeState" where
  "count_sweep now s =
     s\<lparr>rs_stats := (rs_stats s)\<lparr>st_expirationSweeps := st_expirationSweeps (rs_stats s) + 1\<rparr>,
       rs_lastActivityAt := now\<rparr>"

definition sweep_report ::
    "Status \<Rightarrow> Instant \<Rightarrow> ControllerFence \<Rightarrow> nat \<Rightarrow> ReservationId list \<Rightarrow> ReservationId list \<Rightarrow> ReclaimReport" where
  "sweep_report status now fence scanned reclaimed lapsed =
     \<lparr>rep_status = status, rep_evaluatedAt = now, rep_fence = fence, rep_scanned = scanned,
      rep_expired = length lapsed, rep_reclaimed = reclaimed, rep_lapsed = lapsed\<rparr>"

definition finish_sweep ::
    "Host \<Rightarrow> Instant \<Rightarrow> ReclaimReport \<Rightarrow> SpectrumReservation list \<Rightarrow> RuntimeState \<Rightarrow>
     RuntimeState \<times> ReclaimReport" where
  "finish_sweep h now report backups s =
     (case persistAfterMutation h (count_sweep now s) of
        (s1, persisted) \<Rightarrow>
          if \<not> status_ok persisted
          then let s2 = rollbackAll backups s1
               in (s2, sweep_report persisted now (rs_fence s2) (rep_scanned report) [] [])
          else (s1, report))"

definition expireLeases :: "Host \<Rightarrow> Instant \<Rightarrow> RuntimeState \<Rightarrow> RuntimeState \<times> ReclaimReport" where
  "expireLeases h now s =
     (let w = markLapsed now s
      in finish_sweep h now
           (sweep_report okStatus now (rs_fence s) (length (rs_reservations s)) [] (sw_ids w))
           (sw_backups w) (sw_state w))"

definition reclaimExpired :: "Host \<Rightarrow> Instant \<Rightarrow> RuntimeState \<Rightarrow> RuntimeState \<times> ReclaimReport" where
  "reclaimExpired h now s =
     (let w = markLapsed now s;
          v = fold (reclaim_entry now) (om_keys (rs_reservations (sw_state w)))
                (w\<lparr>sw_ids := []\<rparr>)
      in finish_sweep h now
           (sweep_report okStatus now (rs_fence s) (length (rs_reservations s)) (sw_ids v) (sw_ids w))
           (sw_backups v) (sw_state v))"

end
