(* ===== verification/Lifecycle_Facts.thy ===== *)
theory Lifecycle_Facts
  imports Lifecycle Ownership
begin

text \<open>
  What the lifecycle operations do. The four operations on one reservation share a contract,
  stated as the locale \<open>lifecycle_operation\<close>: an accepted operation was authorised, named the
  current generation, found the reservation ready, and replaced exactly that record by its effect;
  a declined one (a durable commit that failed included) leaves the table, the live index, the
  request index and the identity counter as they were. Renewal, activation, deactivation and
  release are its interpretations. The sweeps are treated after them, entry by entry.
\<close>

section \<open>The common shape of an operation\<close>

definition untouched :: "RuntimeState \<Rightarrow> RuntimeState \<Rightarrow> bool" where
  "untouched s s' \<longleftrightarrow>
     rs_reservations s' = rs_reservations s \<and> rs_liveByDomain s' = rs_liveByDomain s
     \<and> rs_requestIndex s' = rs_requestIndex s \<and> rs_nextReservationId s' = rs_nextReservationId s
     \<and> same_rules s s'"

definition acted ::
    "RuntimeState \<Rightarrow> ReservationId \<Rightarrow> SpectrumReservation \<Rightarrow> SpectrumReservation \<Rightarrow> RuntimeState \<Rightarrow> bool" where
  "acted s i q q' s' \<longleftrightarrow>
     map_of (rs_reservations s) i = Some q
     \<and> rs_reservations s' = om_set i q' (rs_reservations s)
     \<and> rs_liveByDomain s' = reindex q' (rs_liveByDomain s)
     \<and> rs_requestIndex s' = rs_requestIndex s \<and> rs_nextReservationId s' = rs_nextReservationId s
     \<and> same_rules s s'"

lemma untouched_refl [simp]: "untouched s s"
  by (simp add: untouched_def)

lemma untouched_audit [simp]: "untouched s (appendAudit k t out i g d sl f x s') \<longleftrightarrow> untouched s s'"
  by (simp add: untouched_def)

lemma untouched_table: "table_inv s \<Longrightarrow> untouched s s' \<Longrightarrow> table_inv s'"
  by (erule table_inv_frame) (simp_all add: untouched_def)

lemma acted_ownership: "acted s i q q' u \<Longrightarrow> same_ownership u s' \<Longrightarrow> acted s i q q' s'"
  by (simp add: acted_def same_ownership_def same_rules_def)

lemma acted_table:
  assumes "table_inv s" and "acted s i q q' s'" and "res_id q' = i" and "resting (res_state q')"
  shows "table_inv s'"
proof -
  have "map_of (rs_reservations s) i = Some q"
    using assms(2) by (simp add: acted_def)
  note known = table_inv_known [OF assms(1) this]
  show ?thesis
    using assms known by (intro table_inv_put [of s q' s']) (simp_all add: acted_def)
qed

text \<open>Two consistent states with the same records have the same live index.\<close>

lemma live_index_unique:
  assumes "table_inv s" and "table_inv s'" and "rs_reservations s' = rs_reservations s"
  shows "rs_liveByDomain s' = rs_liveByDomain s"
proof (rule live.extensional)
  show "index_wf (rs_liveByDomain s')" "index_wf (rs_liveByDomain s)"
    using assms(1,2) by (simp_all add: table_inv_def live_exact_def)
  show "live_member (rs_liveByDomain s') d i = live_member (rs_liveByDomain s) d i" for d i
    using table_inv_live [OF assms(1)] table_inv_live [OF assms(2)] assms(3)
    by (simp add: live_exact_def owns_def)
qed

section \<open>Rolling one reservation back\<close>

lemma rollback_frame [simp]:
  "same_rules s (rollbackReservation q s)" "rs_requestIndex (rollbackReservation q s) = rs_requestIndex s"
  "rs_nextReservationId (rollbackReservation q s) = rs_nextReservationId s"
  "audit_ok (rollbackReservation q s) = audit_ok s"
  "rs_reservations (rollbackReservation q s) = om_set (res_id q) q (rs_reservations s)"
  unfolding rollbackReservation_def Let_def store_def addLiveReservation_def removeLiveReservation_def
  by (simp_all add: same_rules_def audit_ok_def)

lemma rollback_index:
  "sv_valid (res_id q) \<Longrightarrow> rs_liveByDomain (rollbackReservation q s) = reindex q (rs_liveByDomain s)"
  by (simp add: rollbackReservation_def Let_def store_def addLiveReservation_def
      removeLiveReservation_def reindex_def)

text \<open>Restoring the record an operation replaced gives back exactly the table and the index.\<close>

lemma rollback_exact:
  assumes "table_inv s" and act: "acted s i q q' u" and "res_id q' = i" and "resting (res_state q')"
  shows "untouched s (rollbackReservation q u)"
proof -
  let ?v = "rollbackReservation q u"
  have at: "map_of (rs_reservations s) i = Some q"
    and u_table: "rs_reservations u = om_set i q' (rs_reservations s)"
    and u_rest: "rs_requestIndex u = rs_requestIndex s" "rs_nextReservationId u = rs_nextReservationId s"
      "same_rules s u"
    using act by (simp_all add: acted_def)
  note known = table_inv_known [OF assms(1) at]
  have u: "table_inv u"
    by (rule acted_table [OF assms])
  have "om_set i q (om_set i q' (rs_reservations s)) = rs_reservations s"
    by (rule omap.restore [OF table_inv_om [OF assms(1)] at])
  then have table: "rs_reservations ?v = rs_reservations s"
    by (simp only: rollback_frame u_table known(1))
  have "table_inv ?v"
    by (rule table_inv_put [OF u, of q]) (simp_all only: rollback_frame rollback_index known u_rest)
  then have "rs_liveByDomain ?v = rs_liveByDomain s"
    by (rule live_index_unique [OF assms(1) _ table])
  moreover have "same_rules s ?v"
    using u_rest(3) rollback_frame(1) by (rule same_rules_trans)
  ultimately show ?thesis
    using table u_rest(1,2) unfolding untouched_def by (simp only: rollback_frame)
qed


section \<open>Building blocks\<close>

lemma advanceState_legal:
  "isLegalTransition (res_state q) st \<Longrightarrow> advanceState st (s, q) = ((s, q\<lparr>res_state := st\<rparr>), None)"
  by (simp add: advanceState_def)

lemma advanceTwo_legal:
  "isLegalTransition (res_state q) a \<Longrightarrow> isLegalTransition a b \<Longrightarrow>
   advanceTwo a b (s, q) = ((s, q\<lparr>res_state := b\<rparr>), None)"
  by (simp add: advanceTwo_def advanceState_def)

lemma lookup_declined:
  assumes "lookup i g s = (s', Inl status)"
  shows "\<not> status_ok status" and "untouched s s'" and "audit_ok s \<Longrightarrow> audit_ok s'"
  using assms by (auto simp: lookup_def Let_def appendAudit_ok split: option.splits if_splits)

lemma lookup_found:
  assumes "lookup i g s = (s', Inr q)"
  shows "s' = s" and "map_of (rs_reservations s) i = Some q" and "res_generation q = g"
  using assms by (auto simp: lookup_def Let_def split: option.splits if_splits)

lemma rejections [simp]:
  "untouched s (reject_authority i g now m s')  \<longleftrightarrow> untouched s s'"
  "untouched s (reject_lapsed i g now q m s') \<longleftrightarrow> untouched s s'"
  by (simp_all add: reject_authority_def reject_lapsed_def Let_def untouched_def same_rules_def)

lemma rejections_audit:
  "audit_ok s \<Longrightarrow> audit_ok (reject_authority i g now m s)"
  "audit_ok s \<Longrightarrow> audit_ok (reject_lapsed i g now q m s)"
  by (auto simp: reject_authority_def reject_lapsed_def Let_def intro: appendAudit_ok audit_ok_frame)

lemma store_frame [simp]:
  "rs_reservations (store i q s) = om_set i q (rs_reservations s)"
  "rs_liveByDomain (store i q s) = rs_liveByDomain s" "rs_requestIndex (store i q s) = rs_requestIndex s"
  "rs_nextReservationId (store i q s) = rs_nextReservationId s"
  "same_rules s' (store i q s) = same_rules s' s" "audit_ok (store i q s) = audit_ok s"
  "rs_stats (store i q s) = rs_stats s"
  by (simp_all add: store_def same_rules_def audit_ok_def)

lemma note_operation_frame [simp]:
  "rs_reservations (note_operation k now q m f s) = rs_reservations s"
  "rs_liveByDomain (note_operation k now q m f s) = rs_liveByDomain s"
  "rs_requestIndex (note_operation k now q m f s) = rs_requestIndex s"
  "rs_nextReservationId (note_operation k now q m f s) = rs_nextReservationId s"
  "same_rules s' (note_operation k now q m f s) = same_rules s' s"
  by (simp_all add: note_operation_def same_rules_def)

lemma note_operation_audit: "audit_ok s \<Longrightarrow> audit_ok (note_operation k now q m f s)"
  by (auto simp: note_operation_def intro: appendAudit_ok audit_ok_frame)

section \<open>The result of an operation\<close>

definition op_result ::
    "RuntimeState \<Rightarrow> ReservationId \<Rightarrow> ReservationGeneration \<Rightarrow> bool \<Rightarrow> (SpectrumReservation \<Rightarrow> bool) \<Rightarrow>
     (SpectrumReservation \<Rightarrow> SpectrumReservation) \<Rightarrow> RuntimeState \<times> Status \<Rightarrow> bool" where
  "op_result s i g authorised ready effect result \<longleftrightarrow>
     (audit_ok s \<longrightarrow> audit_ok (fst result))
     \<and> (if status_ok (snd result)
        then authorised \<and> (\<exists>q. res_generation q = g \<and> ready q \<and> acted s i q (effect q) (fst result))
        else untouched s (fst result))"

lemma op_result_declined:
  "untouched s s' \<Longrightarrow> (audit_ok s \<Longrightarrow> audit_ok s') \<Longrightarrow> \<not> status_ok status \<Longrightarrow>
   op_result s i g authorised ready effect (s', status)"
  by (simp add: op_result_def)

lemma op_result_finish:
  assumes "table_inv s" and act: "acted s i q (effect q) u"
    and "res_id (effect q) = i" and "resting (res_state (effect q))"
    and "res_generation q = g" and "ready q" and "authorised" and audit: "audit_ok s \<Longrightarrow> audit_ok u"
  shows "op_result s i g authorised ready effect (finish h st q u)"
proof (cases "persistAfterMutation h u")
  case (Pair v status)
  have owner: "same_ownership u v"
    using persistAfterMutation_ownership [of u h] Pair by simp
  have av: "audit_ok s \<Longrightarrow> audit_ok v"
    using persistAfterMutation_audit [of u h] Pair audit by simp
  show ?thesis
  proof (cases "status_ok status")
    case True
    then show ?thesis
      using Pair av assms(5-7) acted_ownership [OF act owner] by (auto simp: finish_def op_result_def)
  next
    case False
    have "acted s i q (effect q) (v\<lparr>rs_stats := st\<rparr>)"
      using acted_ownership [OF act owner] by (simp add: acted_def same_rules_def)
    then have "untouched s (rollbackReservation q (v\<lparr>rs_stats := st\<rparr>))"
      by (rule rollback_exact [OF assms(1) _ assms(3,4)])
    moreover have "audit_ok s \<Longrightarrow> audit_ok (v\<lparr>rs_stats := st\<rparr>)"
      using av by (auto intro: audit_ok_frame)
    ultimately show ?thesis
      using Pair False by (simp add: finish_def op_result_def)
  qed
qed

text \<open>The records that stay live keep their index entries; a released one loses them.\<close>

lemma acted_store:
  assumes "table_inv s" and "map_of (rs_reservations s) i = Some q" and "isLiveState (res_state q)"
    and "isLiveState (res_state q')" and "res_domains q' = res_domains q" and "res_id q' = res_id q"
  shows "acted s i q q' (note_operation k now x m f (store i q' s))"
proof -
  have "reindex q' (rs_liveByDomain s) = rs_liveByDomain s"
    using reindex_same [OF table_inv_live [OF assms(1)], of q' q] assms table_inv_known(1) [OF assms(1,2)]
    by simp
  then show ?thesis
    using assms(2) by (simp add: acted_def)
qed

lemma remove_rules [simp]: "same_rules s (removeLiveReservation i s') \<longleftrightarrow> same_rules s s'"
  by (simp add: removeLiveReservation_def same_rules_def)

lemma acted_remove:
  assumes "table_inv s" and "map_of (rs_reservations s) i = Some q"
    and "\<not> isLiveState (res_state q')" and "res_id q' = res_id q"
  shows "acted s i q q' (note_operation k now x m f (removeLiveReservation (res_id q') (store i q' s)))"
proof -
  note known = table_inv_known [OF assms(1,2)]
  show ?thesis
    using assms(2,3,4) known by (simp add: acted_def reindex_def index_changes)
qed


section \<open>The contract of the four operations\<close>

text \<open>The change each operation makes to the record it names.\<close>

definition renewed :: "Duration \<Rightarrow> nat \<Rightarrow> Instant \<Rightarrow> SpectrumReservation \<Rightarrow> SpectrumReservation" where
  "renewed extension maxRenewals now q =
     q\<lparr>res_lease := renewed_lease (lease_expiresAt (res_lease q) + extension)
         (if maxRenewals \<noteq> 0 then maxRenewals else lease_maxRenewals (res_lease q)) (res_lease q),
       res_generation := bump (res_generation q), res_updatedAt := now,
       res_lastOperation := bump (res_lastOperation q)\<rparr>"

definition activated :: "Instant \<Rightarrow> SpectrumReservation \<Rightarrow> SpectrumReservation" where
  "activated now q = q\<lparr>res_state := Active, res_activatedAt := now, res_updatedAt := now,
     res_needsRevalidation := False, res_lastOperation := bump (res_lastOperation q)\<rparr>"

definition deactivated :: "Instant \<Rightarrow> SpectrumReservation \<Rightarrow> SpectrumReservation" where
  "deactivated now q = q\<lparr>res_state := Reserved, res_deactivatedAt := now, res_updatedAt := now,
     res_lastOperation := bump (res_lastOperation q)\<rparr>"

definition released :: "Instant \<Rightarrow> SpectrumReservation \<Rightarrow> SpectrumReservation" where
  "released now q = q\<lparr>res_state := Released, res_releasedAt := now, res_updatedAt := now,
     res_lastOperation := bump (res_lastOperation q)\<rparr>"

text \<open>When the record is ready for the operation.\<close>

definition renewable :: "Duration \<Rightarrow> nat \<Rightarrow> Instant \<Rightarrow> SpectrumReservation \<Rightarrow> bool" where
  "renewable extension maxRenewals now q \<longleftrightarrow>
     (res_state q = Reserved \<or> res_state q = Active) \<and> lease_validAt (res_lease q) now
     \<and> lease_renewable (res_lease q)
     \<and> (maxRenewals \<noteq> 0 \<longrightarrow> lease_renewalCount (res_lease q) < maxRenewals)
     \<and> 0 < extension \<and> extension \<le> kMaxLeaseExtensionNanos
     \<and> addOverflow (lease_expiresAt (res_lease q)) extension \<noteq> None"

definition activatable :: "Instant \<Rightarrow> SpectrumReservation \<Rightarrow> bool" where
  "activatable now q \<longleftrightarrow> res_state q = Reserved \<and> lease_validAt (res_lease q) now"

definition deactivatable :: "Instant \<Rightarrow> SpectrumReservation \<Rightarrow> bool" where
  "deactivatable now q \<longleftrightarrow> res_state q = Active"

definition releasable :: "Instant \<Rightarrow> SpectrumReservation \<Rightarrow> bool" where
  "releasable now q \<longleftrightarrow> isLiveState (res_state q)"

lemmas effects = renewed_def activated_def deactivated_def released_def
lemmas readiness = renewable_def activatable_def deactivatable_def releasable_def

text \<open>Every operation checks the authority, looks the reservation up and tests its readiness.\<close>

lemma op_cases:
  fixes s :: RuntimeState and authorised :: bool and ready_for :: "SpectrumReservation \<Rightarrow> bool"
  assumes "table_inv s"
  obtains (unauthorised) "\<not> authorised"
  | (missing) s1 status where "authorised" "lookup i g s = (s1, Inl status)" "\<not> status_ok status"
      "untouched s s1" "audit_ok s \<Longrightarrow> audit_ok s1"
  | (unready) q where "authorised" "lookup i g s = (s, Inr q)" "\<not> ready_for q"
  | (ready) q where "authorised" "lookup i g s = (s, Inr q)" "ready_for q"
      "map_of (rs_reservations s) i = Some q" "res_generation q = g" "res_id q = i"
      "resting (res_state q)"
proof (cases authorised)
  case auth: True
  obtain s1 found where look: "lookup i g s = (s1, found)"
    by (cases "lookup i g s")
  show thesis
  proof (cases found)
    case (Inl status)
    then show thesis
      using missing auth look lookup_declined by blast
  next
    case (Inr q)
    have "lookup i g s = (s, Inr q)" "map_of (rs_reservations s) i = Some q" "res_generation q = g"
      using lookup_found look Inr by auto
    then show thesis
      using unready ready auth table_inv_known [OF assms] by blast
  qed
qed (rule unauthorised)

lemma advance_live:
  "resting (res_state q) \<Longrightarrow> releasable now q \<Longrightarrow>
   advanceTwo Releasing Released (s, q) = ((s, q\<lparr>res_state := Released\<rparr>), None)"
  using resting_cases [of "res_state q"]
  by (intro advanceTwo_legal) (auto simp: releasable_def isLegalTransition_def)

lemma activate_contract:
  assumes "table_inv s"
  shows "op_result s i g (status_ok (checkActivationAuthority (rs_authority s) a)) (activatable now)
     (activated now) (activate h i g a now s)"
proof (cases rule: op_cases [OF assms, where i = i and g = g and ready_for = "activatable now"
      and authorised = "status_ok (checkActivationAuthority (rs_authority s) a)"])
  case 1
  then show ?thesis
    by (simp add: activate_def Let_def op_result_declined rejections_audit)
next
  case (2 s1 status)
  then show ?thesis
    by (simp add: activate_def Let_def op_result_declined)
next
  case (3 q)
  then show ?thesis
    by (auto simp: activate_def Let_def activatable_def op_result_declined rejections_audit)
next
  case (4 q)
  let ?u = "note_operation ReservationActivated now (activated now q) (msg_activated (rs_fence s))
    (\<lambda>t. t\<lparr>st_activations := st_activations t + 1\<rparr>) (store i (activated now q) s)"
  have step: "advanceTwo Activating Active (s, q) = ((s, q\<lparr>res_state := Active\<rparr>), None)"
    using 4 by (intro advanceTwo_legal) (simp_all add: activatable_def isLegalTransition_def)
  have run: "activate h i g a now s = finish h (rs_stats s) q ?u"
    using 4 by (simp add: activate_def Let_def step activatable_def activated_def)
  have "acted s i q (activated now q) ?u"
    using 4 by (intro acted_store [OF assms]) (simp_all add: activated_def activatable_def)
  then show ?thesis
    unfolding run
    by (rule op_result_finish [OF assms]) (use 4 in \<open>simp_all add: activated_def note_operation_audit\<close>)
qed

lemma deactivate_contract:
  assumes "table_inv s"
  shows "op_result s i g (status_ok (checkActivationAuthority (rs_authority s) a)) (deactivatable now)
     (deactivated now) (deactivate h i g a now s)"
proof (cases rule: op_cases [OF assms, where i = i and g = g and ready_for = "deactivatable now"
      and authorised = "status_ok (checkActivationAuthority (rs_authority s) a)"])
  case 1
  then show ?thesis
    by (simp add: deactivate_def Let_def op_result_declined rejections_audit)
next
  case (2 s1 status)
  then show ?thesis
    by (simp add: deactivate_def Let_def op_result_declined)
next
  case (3 q)
  then show ?thesis
    by (auto simp: deactivate_def Let_def deactivatable_def op_result_declined rejections_audit)
next
  case (4 q)
  let ?u = "note_operation ReservationDeactivated now (deactivated now q) msg_deactivated
    (\<lambda>t. t\<lparr>st_deactivations := st_deactivations t + 1\<rparr>) (store i (deactivated now q) s)"
  have step: "advanceTwo Deactivating Reserved (s, q) = ((s, q\<lparr>res_state := Reserved\<rparr>), None)"
    using 4 by (intro advanceTwo_legal) (simp_all add: deactivatable_def isLegalTransition_def)
  have run: "deactivate h i g a now s = finish h (rs_stats s) q ?u"
    using 4 by (simp add: deactivate_def Let_def step deactivatable_def deactivated_def)
  have "acted s i q (deactivated now q) ?u"
    using 4 by (intro acted_store [OF assms]) (simp_all add: deactivated_def deactivatable_def)
  then show ?thesis
    unfolding run
    by (rule op_result_finish [OF assms]) (use 4 in \<open>simp_all add: deactivated_def note_operation_audit\<close>)
qed

lemma release_contract:
  assumes "table_inv s"
  shows "op_result s i g (status_ok (checkReleaseAuthority (rs_authority s) a)) (releasable now)
     (released now) (release h i g a now s)"
proof (cases rule: op_cases [OF assms, where i = i and g = g and ready_for = "releasable now"
      and authorised = "status_ok (checkReleaseAuthority (rs_authority s) a)"])
  case 1
  then show ?thesis
    by (simp add: release_def Let_def op_result_declined rejections_audit)
next
  case (2 s1 status)
  then show ?thesis
    by (simp add: release_def Let_def op_result_declined)
next
  case (3 q)
  then show ?thesis
    by (auto simp: release_def Let_def releasable_def op_result_declined rejections_audit)
next
  case (4 q)
  let ?u = "note_operation ReservationReleased now (released now q) (msg_slots_at s_released (res_slots q))
    (\<lambda>t. t\<lparr>st_releases := st_releases t + 1\<rparr>) (removeLiveReservation (res_id (released now q)) (store i (released now q) s))"
  have step: "advanceTwo Releasing Released (s, q) = ((s, q\<lparr>res_state := Released\<rparr>), None)"
    using 4 by (elim advance_live)
  have run: "release h i g a now s = finish h (rs_stats s) q ?u"
    using 4 by (simp add: release_def Let_def step releasable_def released_def)
  have "acted s i q (released now q) ?u"
    using 4 by (intro acted_remove [OF assms]) (simp_all add: released_def releasable_def)
  then show ?thesis
    unfolding run
    by (rule op_result_finish [OF assms]) (use 4 in \<open>simp_all add: released_def note_operation_audit\<close>)
qed

lemma renew_contract:
  assumes "table_inv s"
  shows "op_result s i g (status_ok (checkReservationAuthority (rs_authority s) a))
     (renewable extension cap now) (renewed extension cap now) (renew h i g extension a now cap s)"
proof (cases "0 < extension \<and> extension \<le> kMaxLeaseExtensionNanos")
  case False
  then show ?thesis
    by (auto simp: renew_def Let_def op_result_declined)
next
  case bounds: True
  show ?thesis
  proof (cases rule: op_cases [OF assms, where i = i and g = g and ready_for = "renewable extension cap now"
        and authorised = "status_ok (checkReservationAuthority (rs_authority s) a)"])
    case 1
    then show ?thesis
      using bounds by (simp add: renew_def Let_def op_result_declined rejections_audit)
  next
    case (2 s1 status)
    then show ?thesis
      using bounds by (simp add: renew_def Let_def op_result_declined)
  next
    case (3 q)
    then show ?thesis
      using bounds
      by (auto simp: renew_def Let_def renewable_def lease_renewable_def op_result_declined rejections_audit)
  next
    case (4 q)
    let ?q' = "renewed extension cap now q"
    let ?u = "note_operation ReservationRenewed now ?q' (msg_renewed (res_lease ?q'))
      (\<lambda>t. t\<lparr>st_renewals := st_renewals t + 1\<rparr>) (store i ?q' s)"
    have live: "res_state q = Reserved \<or> res_state q = Active"
      and expiry: "addOverflow (lease_expiresAt (res_lease q)) extension
        = Some (lease_expiresAt (res_lease q) + extension)"
      using 4(3) addOverflow_Some by (auto simp: renewable_def)
    have leave: "advanceState Renewing (s, q) = ((s, q\<lparr>res_state := Renewing\<rparr>), None)"
      using live by (intro advanceState_legal) (auto simp: isLegalTransition_def)
    have enter: "res_state x = Renewing \<Longrightarrow>
        advanceState (res_state q) (s, x) = ((s, x\<lparr>res_state := res_state q\<rparr>), None)" for x
      using live by (intro advanceState_legal) (auto simp: isLegalTransition_def)
    have run: "renew h i g extension a now cap s = finish h (rs_stats s) q ?u"
      using 4 bounds live
      by (auto simp: renew_def Let_def leave enter expiry renewed_def renewable_def lease_renewable_def)
    have "acted s i q ?q' ?u"
      using 4 live by (intro acted_store [OF assms]) (auto simp: renewed_def)
    then show ?thesis
      unfolding run
      by (rule op_result_finish [OF assms]) (use 4 live in \<open>auto simp: renewed_def note_operation_audit\<close>)
  qed
qed


section \<open>Lifecycle operations as one interface\<close>

locale lifecycle_operation =
  fixes perform :: "Host \<Rightarrow> ReservationId \<Rightarrow> ReservationGeneration \<Rightarrow> 'a \<Rightarrow> Instant \<Rightarrow> RuntimeState \<Rightarrow>
      RuntimeState \<times> Status"
    and authorised :: "AuthorityState \<Rightarrow> 'a \<Rightarrow> bool"
    and ready :: "Instant \<Rightarrow> SpectrumReservation \<Rightarrow> bool"
    and effect :: "Instant \<Rightarrow> SpectrumReservation \<Rightarrow> SpectrumReservation"
  assumes contract: "table_inv s \<Longrightarrow>
      op_result s i g (authorised (rs_authority s) a) (ready now) (effect now) (perform h i g a now s)"
    and same_id: "res_id (effect now q) = res_id q"
    and rests: "ready now q \<Longrightarrow> resting (res_state q) \<Longrightarrow> resting (res_state (effect now q))"
    and place: "same_place (effect now q) q"
    and no_gain: "ready now q \<Longrightarrow> t \<le> now \<Longrightarrow> isLiveAt (effect now q) t \<Longrightarrow> isLiveAt q t"
begin

lemma accepted:
  assumes "table_inv s" and "status_ok (snd (perform h i g a now s))"
  obtains q where "authorised (rs_authority s) a" "map_of (rs_reservations s) i = Some q"
    "res_generation q = g" "ready now q" "res_id q = i" "resting (res_state q)"
    "rs_reservations (fst (perform h i g a now s)) = om_set i (effect now q) (rs_reservations s)"
    "acted s i q (effect now q) (fst (perform h i g a now s))"
proof -
  obtain q where q: "authorised (rs_authority s) a" "res_generation q = g" "ready now q"
    "acted s i q (effect now q) (fst (perform h i g a now s))"
    using contract [OF assms(1), of i g a now h] assms(2) by (auto simp: op_result_def)
  then have "map_of (rs_reservations s) i = Some q"
    by (simp add: acted_def)
  then show thesis
    using q table_inv_known [OF assms(1)] that by (simp add: acted_def)
qed

lemma declined:
  assumes "table_inv s" and "\<not> status_ok (snd (perform h i g a now s))"
  shows "untouched s (fst (perform h i g a now s))"
  using contract [OF assms(1), of i g a now h] assms(2) by (simp add: op_result_def)

text \<open>A stale or foreign token, an unknown reservation or a stale generation changes nothing.\<close>

lemma fenced:
  assumes "table_inv s"
    and "\<not> authorised (rs_authority s) a \<or> map_of (rs_reservations s) i = None
      \<or> (\<exists>q. map_of (rs_reservations s) i = Some q \<and> (res_generation q \<noteq> g \<or> \<not> ready now q))"
  shows "\<not> status_ok (snd (perform h i g a now s)) \<and> untouched s (fst (perform h i g a now s))"
proof -
  have "\<not> status_ok (snd (perform h i g a now s))"
  proof
    assume "status_ok (snd (perform h i g a now s))"
    then show False
      using assms by (elim accepted [OF assms(1)]) auto
  qed
  then show ?thesis
    using declined [OF assms(1)] by simp
qed

lemma frame:
  assumes "table_inv s" and "j \<noteq> i"
  shows "map_of (rs_reservations (fst (perform h i g a now s))) j = map_of (rs_reservations s) j"
proof (cases "status_ok (snd (perform h i g a now s))")
  case True
  then show ?thesis
    using assms(2) by (elim accepted [OF assms(1)]) simp
next
  case False
  then show ?thesis
    using declined [OF assms(1)] by (simp add: untouched_def)
qed

lemma keeps:
  assumes "table_inv s"
  shows "table_inv (fst (perform h i g a now s))" and "same_rules s (fst (perform h i g a now s))"
    and "rs_nextReservationId (fst (perform h i g a now s)) = rs_nextReservationId s"
    and "audit_ok s \<Longrightarrow> audit_ok (fst (perform h i g a now s))"
    and "t \<le> now \<Longrightarrow> shrinks t s (fst (perform h i g a now s))"
proof -
  let ?s' = "fst (perform h i g a now s)"
  have "table_inv ?s' \<and> same_rules s ?s' \<and> rs_nextReservationId ?s' = rs_nextReservationId s
      \<and> (t \<le> now \<longrightarrow> shrinks t s ?s')"
  proof (cases "status_ok (snd (perform h i g a now s))")
    case True
    then obtain q where q: "map_of (rs_reservations s) i = Some q" "ready now q" "res_id q = i"
      "resting (res_state q)" "acted s i q (effect now q) ?s'"
      by (elim accepted [OF assms])
    then have "table_inv ?s'"
      using acted_table [OF assms q(5)] same_id rests by simp
    moreover have "t \<le> now \<Longrightarrow> shrinks t s ?s'"
      using q place no_gain by (intro shrinks_put [of ?s' i "effect now q" s q]) (simp_all add: acted_def)
    ultimately show ?thesis
      using q(5) by (simp add: acted_def)
  next
    case False
    then have "untouched s ?s'"
      by (rule declined [OF assms])
    then show ?thesis
      using untouched_table [OF assms] by (simp add: untouched_def shrinks_frame)
  qed
  then show "table_inv ?s'" and "same_rules s ?s'" and "rs_nextReservationId ?s' = rs_nextReservationId s"
    and "t \<le> now \<Longrightarrow> shrinks t s ?s'"
    by blast+
  show "audit_ok s \<Longrightarrow> audit_ok ?s'"
    using contract [OF assms, of i g a now h] by (simp add: op_result_def)
qed

text \<open>At the instant of the operation and later, nothing new is owned.\<close>

lemma keeps_separation:
  "table_inv s \<Longrightarrow> lease_inv t s \<Longrightarrow> t \<le> now \<Longrightarrow> lease_inv t (fst (perform h i g a now s))"
  using keeps(5) lease_inv_shrinks by blast

end

interpretation activation_op: lifecycle_operation activate
  "\<lambda>auth a. status_ok (checkActivationAuthority auth a)" activatable activated
  by unfold_locales
    (auto simp: activate_contract activated_def activatable_def same_place_def isLiveAt_def)

interpretation deactivation_op: lifecycle_operation deactivate
  "\<lambda>auth a. status_ok (checkActivationAuthority auth a)" deactivatable deactivated
  by unfold_locales
    (auto simp: deactivate_contract deactivated_def deactivatable_def same_place_def isLiveAt_def)

interpretation release_op: lifecycle_operation release
  "\<lambda>auth a. status_ok (checkReleaseAuthority auth a)" releasable released
  by unfold_locales
    (auto simp: release_contract released_def releasable_def same_place_def isLiveAt_def)

interpretation renewal_op: lifecycle_operation "\<lambda>h i g a now s. renew h i g extension a now cap s"
  "\<lambda>auth a. status_ok (checkReservationAuthority auth a)" "renewable extension cap" "renewed extension cap"
  for extension cap
  by unfold_locales
    (auto simp: renew_contract renewed_def renewable_def same_place_def isLiveAt_def lease_validAt_def)

text \<open>
  Releasing a reservation whose state owns no spectrum (already released, expired, reclaimed or
  superseded) is refused and changes neither the table nor the live index, so a duplicate
  release never creates capacity.
\<close>

lemma duplicate_release_creates_nothing:
  assumes "table_inv s" and "map_of (rs_reservations s) i = Some q" and "\<not> isLiveState (res_state q)"
  shows "\<not> status_ok (snd (release h i g a now s)) \<and> untouched s (fst (release h i g a now s))"
  using release_op.fenced [OF assms(1)] assms(2,3) by (simp add: releasable_def)

end
