(* ===== verification/Sweep_Facts.thy ===== *)
theory Sweep_Facts
  imports Lifecycle_Facts
begin

text \<open>
  The expiry and reclamation sweeps. Both walk over the table and replace the records they hit;
  the locale \<open>sweep\<close> states what one entry does and derives what the whole walk does to the table,
  to the report and to the ownership invariant. It is interpreted on the two entries of the code.
\<close>

section \<open>One entry of a sweep\<close>

text \<open>What stays true while a sweep that started in \<open>s\<close> is under way.\<close>

definition sweep_inv :: "Instant \<Rightarrow> RuntimeState \<Rightarrow> Sweep \<Rightarrow> bool" where
  "sweep_inv t s w \<longleftrightarrow> table_inv (sw_state w) \<and> shrinks t s (sw_state w) \<and> same_rules s (sw_state w)
     \<and> rs_nextReservationId (sw_state w) = rs_nextReservationId s
     \<and> rs_requestIndex (sw_state w) = rs_requestIndex s
     \<and> (audit_ok s \<longrightarrow> audit_ok (sw_state w))
     \<and> (\<forall>b \<in> set (sw_backups w). \<not> isLiveState (res_state b) \<and> resting (res_state b)
          \<and> (\<exists>q. map_of (rs_reservations s) (res_id b) = Some q \<and> same_place b q))"

lemma sweep_table: "sweep_inv t s w \<Longrightarrow> table_inv (sw_state w)"
  by (simp add: sweep_inv_def)

locale sweep =
  fixes entry :: "ReservationId \<Rightarrow> Sweep \<Rightarrow> Sweep"
    and hit :: "SpectrumReservation \<Rightarrow> bool"
    and change :: "SpectrumReservation \<Rightarrow> SpectrumReservation"
    and backup :: "SpectrumReservation \<Rightarrow> SpectrumReservation"
  assumes skip: "(\<And>q. map_of (rs_reservations (sw_state w)) i = Some q \<Longrightarrow> \<not> hit q) \<Longrightarrow> entry i w = w"
    and act: "table_inv (sw_state w) \<Longrightarrow> map_of (rs_reservations (sw_state w)) i = Some q \<Longrightarrow> hit q \<Longrightarrow>
      acted (sw_state w) i q (change q) (sw_state (entry i w))
      \<and> (audit_ok (sw_state w) \<longrightarrow> audit_ok (sw_state (entry i w)))
      \<and> sw_ids (entry i w) = sw_ids w @ [i] \<and> sw_backups (entry i w) = sw_backups w @ [backup q]"
    and change: "hit q \<Longrightarrow> \<not> hit (change q) \<and> \<not> isLiveState (res_state (change q))
      \<and> resting (res_state (change q)) \<and> res_id (change q) = res_id q \<and> same_place (change q) q"
    and backup: "hit q \<Longrightarrow> \<not> isLiveState (res_state (backup q)) \<and> resting (res_state (backup q))
      \<and> res_id (backup q) = res_id q \<and> same_place (backup q) q"
begin

definition swept :: "SpectrumReservation \<Rightarrow> SpectrumReservation" where
  "swept q = (if hit q then change q else q)"

definition hit_at :: "RuntimeState \<Rightarrow> ReservationId \<Rightarrow> bool" where
  "hit_at s i \<longleftrightarrow> (\<exists>q. map_of (rs_reservations s) i = Some q \<and> hit q)"

lemma entry_table:
  assumes "table_inv (sw_state w)"
  shows "map_of (rs_reservations (sw_state (entry i w))) j =
    (if j = i then map_option swept (map_of (rs_reservations (sw_state w)) i)
     else map_of (rs_reservations (sw_state w)) j)"
proof (cases "hit_at (sw_state w) i")
  case True
  then obtain q where q: "map_of (rs_reservations (sw_state w)) i = Some q" "hit q"
    by (auto simp: hit_at_def)
  then show ?thesis
    using act [OF assms q] by (simp add: acted_def swept_def)
next
  case False
  then show ?thesis
    using skip [of w i] by (cases "map_of (rs_reservations (sw_state w)) i") (auto simp: hit_at_def swept_def)
qed

lemma entry_ids:
  "table_inv (sw_state w) \<Longrightarrow>
   sw_ids (entry i w) = sw_ids w @ (if hit_at (sw_state w) i then [i] else [])"
  using act skip [of w i] by (auto simp: hit_at_def)

lemma entry_inv:
  assumes "sweep_inv t s w"
  shows "sweep_inv t s (entry i w)"
proof (cases "hit_at (sw_state w) i")
  case True
  then obtain q where q: "map_of (rs_reservations (sw_state w)) i = Some q" "hit q"
    by (auto simp: hit_at_def)
  have inv: "table_inv (sw_state w)" "shrinks t s (sw_state w)"
    using assms by (simp_all add: sweep_inv_def)
  note known = table_inv_known [OF inv(1) q(1)]
  note a = act [OF inv(1) q]
  have "table_inv (sw_state (entry i w))"
    using a change [OF q(2)] known by (intro acted_table [OF inv(1), of i q "change q"]) simp_all
  moreover have "shrinks t (sw_state w) (sw_state (entry i w))"
    using a q change [OF q(2)] known(1)
    by (intro shrinks_put [of _ i "change q" _ q]) (simp_all add: acted_def isLiveAt_def)
  moreover obtain p where "map_of (rs_reservations s) i = Some p" "same_place q p"
    using inv(2) q(1) unfolding shrinks_def by blast
  ultimately show ?thesis
    using assms a backup [OF q(2)] known(1) shrinks_trans [OF inv(2)] same_rules_trans
    by (auto simp: sweep_inv_def acted_def same_place_def)
next
  case False
  then show ?thesis
    using assms skip [of w i] by (auto simp: hit_at_def)
qed

section \<open>The whole walk\<close>

lemma walk_inv: "sweep_inv t s w \<Longrightarrow> sweep_inv t s (fold entry ks w)"
  by (induction ks arbitrary: w) (simp_all add: entry_inv)

lemma swept_twice: "swept (swept q) = swept q"
  by (simp add: swept_def change)

lemma walk_table:
  assumes "sweep_inv t s w"
  shows "map_of (rs_reservations (sw_state (fold entry ks w))) i =
    (if i \<in> set ks then map_option swept (map_of (rs_reservations (sw_state w)) i)
     else map_of (rs_reservations (sw_state w)) i)"
  using assms
proof (induction ks arbitrary: w)
  case (Cons k ks)
  note inv = entry_inv [OF Cons.prems, of k] sweep_table [OF Cons.prems]
  have twice: "map_option swept (map_option swept x) = map_option swept x" for x
    by (cases x) (simp_all add: swept_twice)
  have "map_of (rs_reservations (sw_state (fold entry (k # ks) w))) i =
      (if i \<in> set ks then map_option swept (map_of (rs_reservations (sw_state (entry k w))) i)
       else map_of (rs_reservations (sw_state (entry k w))) i)"
    using Cons.IH [OF inv(1)] by (simp only: fold_Cons o_apply)
  then show ?case
    by (cases "i = k"; cases "i \<in> set ks") (simp_all only: entry_table [OF inv(2)] twice if_True
        if_False list.set insert_iff simp_thms)
qed simp

lemma walk_ids:
  assumes "sweep_inv t s w" and "distinct ks"
  shows "sw_ids (fold entry ks w) = sw_ids w @ filter (hit_at (sw_state w)) ks"
  using assms
proof (induction ks arbitrary: w)
  case (Cons k ks)
  note inv = entry_inv [OF Cons.prems(1), of k] sweep_table [OF Cons.prems(1)]
  have "hit_at (sw_state (entry k w)) j = hit_at (sw_state w) j" if "j \<in> set ks" for j
  proof -
    have "j \<noteq> k"
      using that Cons.prems(2) by auto
    then show ?thesis
      unfolding hit_at_def entry_table [OF inv(2)] by simp
  qed
  then have same: "filter (hit_at (sw_state (entry k w))) ks = filter (hit_at (sw_state w)) ks"
    by (intro filter_cong) auto
  have "distinct ks"
    using Cons.prems(2) by simp
  then have "sw_ids (fold entry (k # ks) w)
      = sw_ids (entry k w) @ filter (hit_at (sw_state (entry k w))) ks"
    using Cons.IH [OF inv(1)] by (simp only: fold_Cons o_apply)
  then show ?case
    unfolding same entry_ids [OF inv(2)] by simp
qed simp

definition hits :: "ReservationId list \<Rightarrow> RuntimeState \<Rightarrow> SpectrumReservation set" where
  "hits ks s = {q. \<exists>i \<in> set ks. map_of (rs_reservations s) i = Some q \<and> hit q}"

lemma entry_backups:
  "table_inv (sw_state w) \<Longrightarrow>
   set (sw_backups (entry i w)) = set (sw_backups w) \<union> backup ` hits [i] (sw_state w)"
  using act skip [of w i] by (cases "hit_at (sw_state w) i") (auto simp: hit_at_def hits_def)

lemma walk_backups:
  assumes "sweep_inv t s w" and "distinct ks"
  shows "set (sw_backups (fold entry ks w)) = set (sw_backups w) \<union> backup ` hits ks (sw_state w)"
  using assms
proof (induction ks arbitrary: w)
  case (Cons k ks)
  note inv = entry_inv [OF Cons.prems(1), of k] sweep_table [OF Cons.prems(1)]
  have "map_of (rs_reservations (sw_state (entry k w))) j = map_of (rs_reservations (sw_state w)) j"
    if "j \<in> set ks" for j
    using that Cons.prems(2) entry_table [OF inv(2)] by auto
  then have other: "hits ks (sw_state (entry k w)) = hits ks (sw_state w)"
    by (simp add: hits_def cong: bex_cong)
  have "set (sw_backups (fold entry ks (entry k w)))
      = set (sw_backups (entry k w)) \<union> backup ` hits ks (sw_state (entry k w))"
    using Cons.prems(2) by (intro Cons.IH inv) simp
  moreover have "hits (k # ks) (sw_state w) = hits [k] (sw_state w) \<union> hits ks (sw_state w)"
    by (auto simp: hits_def)
  ultimately show ?case
    unfolding entry_backups [OF inv(2)] other by auto
qed (simp add: hits_def)

end

section \<open>The two sweeps\<close>

definition lapsing :: "Instant \<Rightarrow> SpectrumReservation \<Rightarrow> bool" where
  "lapsing now q \<longleftrightarrow> isLiveState (res_state q) \<and> \<not> lease_validAt (res_lease q) now"

definition lapsed :: "Instant \<Rightarrow> SpectrumReservation \<Rightarrow> SpectrumReservation" where
  "lapsed now q = q\<lparr>res_state := Expired, res_updatedAt := now,
     res_lastOperation := bump (res_lastOperation q)\<rparr>"

definition expired :: "SpectrumReservation \<Rightarrow> bool" where
  "expired q \<longleftrightarrow> res_state q = Expired"

definition reclaimed :: "Instant \<Rightarrow> SpectrumReservation \<Rightarrow> SpectrumReservation" where
  "reclaimed now q = q\<lparr>res_state := Reclaimed, res_reclaimedAt := now, res_updatedAt := now,
     res_lastOperation := bump (res_lastOperation q)\<rparr>"

lemma changed_ids [simp]: "res_id (lapsed now q) = res_id q" "res_id (reclaimed now q) = res_id q"
  by (simp_all add: lapsed_def reclaimed_def)

lemma audited_acted [simp]:
  "acted s i q q' (appendAudit k t out j g d sl f x s') \<longleftrightarrow> acted s i q q' s'"
  by (simp add: acted_def)

lemma removed_acted:
  assumes "table_inv s" and "map_of (rs_reservations s) i = Some q"
    and "\<not> isLiveState (res_state q')" and "res_id q' = res_id q"
  shows "acted s i q q' (removeLiveReservation (res_id q') (store i q' s))"
  using assms table_inv_known [OF assms(1,2)] by (simp add: acted_def reindex_def index_changes)

lemma lapse_entry_act:
  assumes "table_inv (sw_state w)" and "map_of (rs_reservations (sw_state w)) i = Some q" and "lapsing now q"
  shows "acted (sw_state w) i q (lapsed now q) (sw_state (lapse_entry now i w))
    \<and> (audit_ok (sw_state w) \<longrightarrow> audit_ok (sw_state (lapse_entry now i w)))
    \<and> sw_ids (lapse_entry now i w) = sw_ids w @ [i]
    \<and> sw_backups (lapse_entry now i w) = sw_backups w @ [q\<lparr>res_state := Expired\<rparr>]"
proof -
  note known = table_inv_known [OF assms(1,2)]
  have st: "isLiveState (res_state q)" "\<not> lease_validAt (res_lease q) now"
    using assms(3) by (simp_all add: lapsing_def)
  have "res_state q = Reserved \<or> res_state q = Active"
    using known(4) st(1) by (rule resting_cases)
  then have "isLegalTransition (res_state q) Expired"
    by (auto simp: isLegalTransition_def)
  then have run: "advanceState Expired (sw_state w, q) = ((sw_state w, q\<lparr>res_state := Expired\<rparr>), None)"
    by (rule advanceState_legal)
  have acted': "acted (sw_state w) i q (lapsed now q)
      (removeLiveReservation (res_id (lapsed now q)) (store i (lapsed now q) (sw_state w)))"
    by (rule removed_acted [OF assms(1,2)]) (simp_all add: lapsed_def)
  show ?thesis
    using acted' assms(2) st known(1)
    by (simp add: lapse_entry_def run Let_def appendAudit_ok flip: lapsed_def)
qed

lemma reclaim_entry_act:
  assumes "table_inv (sw_state w)" and "map_of (rs_reservations (sw_state w)) i = Some q" and "expired q"
  shows "acted (sw_state w) i q (reclaimed now q) (sw_state (reclaim_entry now i w))
    \<and> (audit_ok (sw_state w) \<longrightarrow> audit_ok (sw_state (reclaim_entry now i w)))
    \<and> sw_ids (reclaim_entry now i w) = sw_ids w @ [i]
    \<and> sw_backups (reclaim_entry now i w) = sw_backups w @ [q]"
proof -
  note known = table_inv_known [OF assms(1,2)]
  have st: "res_state q = Expired"
    using assms(3) by (simp add: expired_def)
  have run: "advanceTwo Reclaiming Reclaimed (sw_state w, q)
      = ((sw_state w, q\<lparr>res_state := Reclaimed\<rparr>), None)"
    by (rule advanceTwo_legal) (simp_all add: st isLegalTransition_def)
  let ?u = "removeLiveReservation (res_id (reclaimed now q)) (store i (reclaimed now q) (sw_state w))"
  have acted': "acted (sw_state w) i q (reclaimed now q) ?u"
    by (rule removed_acted [OF assms(1,2)]) (simp_all add: reclaimed_def)
  have counted: "acted (sw_state w) i q (reclaimed now q) (?u\<lparr>rs_stats := st\<rparr>)" for st
    using acted' by (simp add: acted_def same_rules_def)
  have audited: "audit_ok (sw_state w) \<Longrightarrow> audit_ok (?u\<lparr>rs_stats := st\<rparr>)" for st
    by (rule audit_ok_frame [of ?u]) simp_all
  show ?thesis
    using counted audited assms(2) st known(1)
    by (simp add: reclaim_entry_def run Let_def appendAudit_ok flip: reclaimed_def)
qed

interpretation lapse: sweep "lapse_entry now" "lapsing now" "lapsed now" "\<lambda>q. q\<lparr>res_state := Expired\<rparr>"
  for now
proof unfold_locales
  fix w :: Sweep and i
  assume none: "\<And>q. map_of (rs_reservations (sw_state w)) i = Some q \<Longrightarrow> \<not> lapsing now q"
  then show "lapse_entry now i w = w"
    by (auto simp: lapse_entry_def lapsing_def split: option.split)
next
  fix w :: Sweep and i q
  assume "table_inv (sw_state w)" "map_of (rs_reservations (sw_state w)) i = Some q" "lapsing now q"
  then show "acted (sw_state w) i q (lapsed now q) (sw_state (lapse_entry now i w))
      \<and> (audit_ok (sw_state w) \<longrightarrow> audit_ok (sw_state (lapse_entry now i w)))
      \<and> sw_ids (lapse_entry now i w) = sw_ids w @ [i]
      \<and> sw_backups (lapse_entry now i w) = sw_backups w @ [q\<lparr>res_state := Expired\<rparr>]"
    by (rule lapse_entry_act)
qed (simp_all add: lapsing_def lapsed_def same_place_def)

interpretation reclaim: sweep "reclaim_entry now" expired "reclaimed now" "\<lambda>q. q" for now
proof unfold_locales
  fix w :: Sweep and i
  assume none: "\<And>q. map_of (rs_reservations (sw_state w)) i = Some q \<Longrightarrow> \<not> expired q"
  then show "reclaim_entry now i w = w"
    by (auto simp: reclaim_entry_def expired_def split: option.split)
next
  fix w :: Sweep and i q
  assume "table_inv (sw_state w)" "map_of (rs_reservations (sw_state w)) i = Some q" "expired q"
  then show "acted (sw_state w) i q (reclaimed now q) (sw_state (reclaim_entry now i w))
      \<and> (audit_ok (sw_state w) \<longrightarrow> audit_ok (sw_state (reclaim_entry now i w)))
      \<and> sw_ids (reclaim_entry now i w) = sw_ids w @ [i]
      \<and> sw_backups (reclaim_entry now i w) = sw_backups w @ [q]"
    by (rule reclaim_entry_act)
qed (simp_all add: expired_def reclaimed_def same_place_def)


section \<open>Finishing a sweep\<close>

text \<open>What every operation keeps, whatever its outcome.\<close>

definition kept :: "Instant \<Rightarrow> RuntimeState \<Rightarrow> RuntimeState \<Rightarrow> bool" where
  "kept t s s' \<longleftrightarrow> table_inv s' \<and> shrinks t s s' \<and> same_rules s s'
     \<and> rs_nextReservationId s' = rs_nextReservationId s
     \<and> rs_requestIndex s' = rs_requestIndex s \<and> (audit_ok s \<longrightarrow> audit_ok s')"

lemma sweep_kept: "sweep_inv t s w \<Longrightarrow> kept t s (sw_state w)"
  by (simp add: sweep_inv_def kept_def)

lemma kept_ownership:
  "kept t s u \<Longrightarrow> same_ownership u v \<Longrightarrow> (audit_ok u \<Longrightarrow> audit_ok v) \<Longrightarrow> kept t s v"
  using same_ownership_table [of u v]
  by (simp add: kept_def same_ownership_def shrinks_def same_rules_def)

lemma kept_counts [simp]: "kept t s (count_sweep now u) \<longleftrightarrow> kept t s u"
proof -
  have "table_inv (count_sweep now u) = table_inv u"
    by (intro iffI; erule table_inv_frame) (simp_all add: count_sweep_def)
  then show ?thesis
    by (simp add: kept_def count_sweep_def shrinks_def same_rules_def audit_ok_def)
qed

lemma kept_rollback:
  assumes "kept t s u" and "\<not> isLiveState (res_state b)" and "resting (res_state b)"
    and "map_of (rs_reservations s) (res_id b) = Some q" and "same_place b q" and "table_inv s"
  shows "kept t s (rollbackReservation b u)"
proof -
  note known = table_inv_known [OF assms(6,4)]
  have u: "table_inv u" "shrinks t s u" "same_rules s u" "rs_nextReservationId u = rs_nextReservationId s"
    using assms(1) by (simp_all add: kept_def)
  have "table_inv (rollbackReservation b u)"
    by (rule table_inv_put [OF u(1), of b])
      (simp_all only: rollback_frame rollback_index known u(4) assms(3))
  moreover have "shrinks t s (rollbackReservation b u)"
    using u(2) assms(2,4,5) by (auto simp: shrinks_def isLiveAt_def)
  moreover have "same_rules s (rollbackReservation b u)"
    using u(3) rollback_frame(1) by (rule same_rules_trans)
  ultimately show ?thesis
    using assms(1) by (simp add: kept_def)
qed

lemma kept_rollbackAll:
  assumes "table_inv s" and "kept t s u"
    and "\<forall>b \<in> set bs. \<not> isLiveState (res_state b) \<and> resting (res_state b)
      \<and> (\<exists>q. map_of (rs_reservations s) (res_id b) = Some q \<and> same_place b q)"
  shows "kept t s (rollbackAll bs u)"
  using assms(2,3)
proof (induction bs arbitrary: u)
  case (Cons b bs)
  obtain q where "map_of (rs_reservations s) (res_id b) = Some q" "same_place b q"
    using Cons.prems(2) by auto
  then have "kept t s (rollbackReservation b u)"
    using Cons.prems by (intro kept_rollback [of t s u b q]) (simp_all add: assms(1))
  then show ?case
    using Cons.IH [of "rollbackReservation b u"] Cons.prems(2) by (simp add: rollbackAll_def)
qed (simp add: rollbackAll_def)

lemma finish_sweep_kept:
  assumes "table_inv s" and "sweep_inv t s w"
    and "finish_sweep h now report (sw_backups w) (sw_state w) = (s', r)"
  shows "kept t s s'"
    and "status_ok (rep_status r) \<Longrightarrow> status_ok (rep_status report) \<Longrightarrow>
      r = report \<and> rs_reservations s' = rs_reservations (sw_state w)"
    and "\<not> status_ok (rep_status r) \<Longrightarrow> status_ok (rep_status report) \<Longrightarrow>
      rs_reservations s' = rs_reservations (rollbackAll (sw_backups w) (sw_state w))"
    and "\<not> status_ok (rep_status r) \<Longrightarrow> status_ok (rep_status report) \<Longrightarrow> rep_lapsed r = []"
proof -
  obtain v status where persist: "persistAfterMutation h (count_sweep now (sw_state w)) = (v, status)"
    by (cases "persistAfterMutation h (count_sweep now (sw_state w))")
  have owner: "same_ownership (count_sweep now (sw_state w)) v"
    using persistAfterMutation_ownership [of "count_sweep now (sw_state w)" h] persist by simp
  have audited: "audit_ok (count_sweep now (sw_state w)) \<Longrightarrow> audit_ok v"
    using persistAfterMutation_audit [of "count_sweep now (sw_state w)" h] persist by simp
  have v: "kept t s v"
    using sweep_kept [OF assms(2)] by (intro kept_ownership [OF _ owner audited]) simp
  then have rolled: "kept t s (rollbackAll (sw_backups w) v)"
    using assms(2) by (intro kept_rollbackAll [OF assms(1)]) (simp_all add: sweep_inv_def)
  have table: "rs_reservations v = rs_reservations (sw_state w)"
    using owner by (simp add: same_ownership_def count_sweep_def)
  have run: "(s', r) = (if status_ok status then (v, report)
      else (rollbackAll (sw_backups w) v, sweep_report status now
        (rs_fence (rollbackAll (sw_backups w) v)) (rep_scanned report) [] []))"
    using assms(3) by (auto simp: finish_sweep_def persist Let_def split: if_splits)
  show "kept t s s'"
    using run v rolled by (auto split: if_splits)
  show "status_ok (rep_status r) \<Longrightarrow> status_ok (rep_status report) \<Longrightarrow>
      r = report \<and> rs_reservations s' = rs_reservations (sw_state w)"
    using run table by (auto simp: sweep_report_def split: if_splits)
  have same: "rs_reservations (rollbackAll bs a) = rs_reservations (rollbackAll bs b)"
    if "rs_reservations a = rs_reservations b" for bs and a b :: RuntimeState
    using that by (induction bs arbitrary: a b) (simp_all add: rollbackAll_def)
  show "\<not> status_ok (rep_status r) \<Longrightarrow> status_ok (rep_status report) \<Longrightarrow>
      rs_reservations s' = rs_reservations (rollbackAll (sw_backups w) (sw_state w))"
    using run same [OF table] by (auto split: if_splits)
  show "\<not> status_ok (rep_status r) \<Longrightarrow> status_ok (rep_status report) \<Longrightarrow> rep_lapsed r = []"
    using run by (auto simp: sweep_report_def split: if_splits)
qed

section \<open>What the sweeps achieve\<close>

lemma start_inv: "table_inv s \<Longrightarrow> sweep_inv t s \<lparr>sw_state = s, sw_ids = ids, sw_backups = []\<rparr>"
  by (simp add: sweep_inv_def shrinks_frame)

lemma markLapsed_inv: "table_inv s \<Longrightarrow> sweep_inv t s (markLapsed now s)"
  unfolding markLapsed_def by (rule lapse.walk_inv) (rule start_inv)

lemma keys_mem: "i \<in> set (om_keys m) \<longleftrightarrow> map_of m i \<noteq> None"
  by (simp add: om_keys_def map_of_eq_None_iff)

lemma markLapsed_table:
  assumes "table_inv s"
  shows "map_of (rs_reservations (sw_state (markLapsed now s))) i =
    map_option (lapse.swept now) (map_of (rs_reservations s) i)"
  unfolding markLapsed_def using lapse.walk_table [OF start_inv [OF assms]]
  by (cases "map_of (rs_reservations s) i") (simp_all add: keys_mem)

lemma markLapsed_ids:
  assumes "table_inv s"
  shows "sw_ids (markLapsed now s) = filter (lapse.hit_at now s) (om_keys (rs_reservations s))"
  unfolding markLapsed_def
  by (subst lapse.walk_ids [OF start_inv [OF assms]])
    (simp_all add: om_keys_def om_ok_distinct [OF table_inv_om [OF assms]])

lemma expireLeases_kept:
  "table_inv s \<Longrightarrow> kept t s (fst (expireLeases h now s))"
  unfolding expireLeases_def Let_def
  by (rule finish_sweep_kept(1) [OF _ markLapsed_inv prod.collapse [symmetric]])

text \<open>After a published expiry sweep every live reservation has a valid lease; nothing else moved.\<close>

lemma expireLeases_done:
  assumes "table_inv s" and "expireLeases h now s = (s', r)" and "status_ok (rep_status r)"
  shows "map_of (rs_reservations s') i = map_option (lapse.swept now) (map_of (rs_reservations s) i)"
    and "rep_lapsed r = filter (lapse.hit_at now s) (om_keys (rs_reservations s))"
    and "map_of (rs_reservations s') i = Some q \<Longrightarrow> isLiveState (res_state q) \<Longrightarrow> isLiveAt q now"
proof -
  let ?report = "sweep_report okStatus now (rs_fence s) (length (rs_reservations s)) [] (sw_ids (markLapsed now s))"
  note fin = finish_sweep_kept [OF assms(1) markLapsed_inv [OF assms(1)]
      assms(2) [unfolded expireLeases_def Let_def]]
  have fine: "r = ?report" "rs_reservations s' = rs_reservations (sw_state (markLapsed now s))"
    using fin(2) assms(3) by (simp_all add: sweep_report_def)
  show table: "map_of (rs_reservations s') i = map_option (lapse.swept now) (map_of (rs_reservations s) i)"
    unfolding fine(2) by (rule markLapsed_table [OF assms(1)])
  show "rep_lapsed r = filter (lapse.hit_at now s) (om_keys (rs_reservations s))"
    unfolding fine(1) by (simp add: sweep_report_def markLapsed_ids [OF assms(1)])
  assume "map_of (rs_reservations s') i = Some q" "isLiveState (res_state q)"
  then obtain p where p: "q = lapse.swept now p" and live: "isLiveState (res_state q)"
    using table by auto
  have "\<not> lapsing now p"
    using live p lapse.change [of now p] by (auto simp: lapse.swept_def)
  then show "isLiveAt q now"
    using live unfolding p by (simp add: lapse.swept_def) (simp add: lapsing_def isLiveAt_def)
qed


text \<open>Reclamation marks the lapsed leases first and then accounts for every expired record.\<close>

definition settled :: "Instant \<Rightarrow> SpectrumReservation \<Rightarrow> SpectrumReservation" where
  "settled now q = reclaim.swept now (lapse.swept now q)"

lemma reclaim_walk:
  fixes now :: Instant
  assumes "table_inv s"
  defines "w \<equiv> markLapsed now s"
  shows "sweep_inv t s (fold (reclaim_entry now) (om_keys (rs_reservations (sw_state w))) (w\<lparr>sw_ids := []\<rparr>))"
    and "map_of (rs_reservations (sw_state (fold (reclaim_entry now)
      (om_keys (rs_reservations (sw_state w))) (w\<lparr>sw_ids := []\<rparr>)))) i
      = map_option (settled now) (map_of (rs_reservations s) i)"
proof -
  have start: "sweep_inv t s (w\<lparr>sw_ids := []\<rparr>)" for t
    using markLapsed_inv [OF assms(1), of t now] by (simp add: w_def sweep_inv_def)
  show "sweep_inv t s (fold (reclaim_entry now) (om_keys (rs_reservations (sw_state w))) (w\<lparr>sw_ids := []\<rparr>))"
    by (rule reclaim.walk_inv [OF start])
  show "map_of (rs_reservations (sw_state (fold (reclaim_entry now)
      (om_keys (rs_reservations (sw_state w))) (w\<lparr>sw_ids := []\<rparr>)))) i
      = map_option (settled now) (map_of (rs_reservations s) i)"
    using reclaim.walk_table [OF start, of now "om_keys (rs_reservations (sw_state w))" i]
      markLapsed_table [OF assms(1), of now i, folded w_def]
    by (cases "map_of (rs_reservations s) i") (simp_all add: keys_mem settled_def)
qed

lemma reclaimExpired_kept: "table_inv s \<Longrightarrow> kept t s (fst (reclaimExpired h now s))"
  unfolding reclaimExpired_def Let_def
  by (rule finish_sweep_kept(1) [OF _ reclaim_walk(1) prod.collapse [symmetric]])

lemma reclaimExpired_done:
  assumes "table_inv s" and "reclaimExpired h now s = (s', r)" and "status_ok (rep_status r)"
  shows "map_of (rs_reservations s') i = map_option (settled now) (map_of (rs_reservations s) i)"
proof -
  have "rs_reservations s' = rs_reservations (sw_state (fold (reclaim_entry now)
      (om_keys (rs_reservations (sw_state (markLapsed now s)))) (markLapsed now s\<lparr>sw_ids := []\<rparr>)))"
    using finish_sweep_kept(2) [OF assms(1) reclaim_walk(1) [OF assms(1)]
        assms(2) [unfolded reclaimExpired_def Let_def]] assms(3)
    by (simp add: sweep_report_def)
  then show ?thesis
    using reclaim_walk(2) [OF assms(1)] by simp
qed

lemma settled_cases:
  "settled now q =
    (if expired q \<or> lapsing now q then reclaimed now (if lapsing now q then lapsed now q else q) else q)"
  by (auto simp: settled_def reclaim.swept_def lapse.swept_def expired_def lapsing_def lapsed_def)


section \<open>Sweeps that cannot be published\<close>

lemma rollbackAll_table:
  assumes "\<And>b. b \<in> set bs \<Longrightarrow> res_id b = i \<Longrightarrow> b = c"
  shows "map_of (rs_reservations (rollbackAll bs u)) i =
    (if i \<in> res_id ` set bs then Some c else map_of (rs_reservations u) i)"
  using assms
proof (induction bs arbitrary: u)
  case (Cons b bs)
  then show ?case
    using Cons.IH [of "rollbackReservation b u"] by (auto simp: rollbackAll_def)
qed (simp add: rollbackAll_def)

lemma expireLeases_failed:
  assumes "table_inv s" and "expireLeases h now s = (s', r)" and "\<not> status_ok (rep_status r)"
  shows "rep_lapsed r = []"
    and "map_of (rs_reservations s) i = Some q \<Longrightarrow> lapsing now q \<Longrightarrow>
      map_of (rs_reservations s') i = Some (q\<lparr>res_state := Expired\<rparr>)"
proof -
  let ?w = "markLapsed now s"
  note fin = finish_sweep_kept(3,4) [OF assms(1) markLapsed_inv [OF assms(1)]
        assms(2) [unfolded expireLeases_def Let_def] assms(3)]
  show "rep_lapsed r = []"
    by (rule fin(2)) (simp add: sweep_report_def)
  have table: "rs_reservations s' = rs_reservations (rollbackAll (sw_backups ?w) (sw_state ?w))"
    by (rule fin(1)) (simp add: sweep_report_def)
  have "distinct (om_keys (rs_reservations s))"
    by (simp add: om_keys_def om_ok_distinct [OF table_inv_om [OF assms(1)]])
  then have "set (sw_backups ?w) = (\<lambda>q. q\<lparr>res_state := Expired\<rparr>) ` lapse.hits now (om_keys (rs_reservations s)) s"
    unfolding markLapsed_def using lapse.walk_backups [OF start_inv [OF assms(1)]] by simp
  moreover have "lapse.hits now (om_keys (rs_reservations s)) s
      = {q. \<exists>i. map_of (rs_reservations s) i = Some q \<and> lapsing now q}"
    by (auto simp: lapse.hits_def keys_mem)
  ultimately have backups: "set (sw_backups ?w) = (\<lambda>q. q\<lparr>res_state := Expired\<rparr>) `
      {q. \<exists>i. map_of (rs_reservations s) i = Some q \<and> lapsing now q}"
    by simp
  assume q: "map_of (rs_reservations s) i = Some q" "lapsing now q"
  let ?c = "q\<lparr>res_state := Expired\<rparr>"
  have only: "b = ?c" if member: "b \<in> set (sw_backups ?w)" "res_id b = i" for b
  proof -
    obtain p j where p: "b = p\<lparr>res_state := Expired\<rparr>" "map_of (rs_reservations s) j = Some p"
      using member(1) unfolding backups by auto
    then have "j = i"
      using member(2) table_inv_known(1) [OF assms(1) p(2)] p(1) by simp
    then show ?thesis
      using p q(1) by simp
  qed
  have "?c \<in> set (sw_backups ?w)"
    using q unfolding backups by blast
  moreover have "res_id ?c = i"
    using table_inv_known(1) [OF assms(1) q(1)] by simp
  ultimately have "i \<in> res_id ` set (sw_backups ?w)"
    by (rule rev_image_eqI [OF _ sym])
  then show "map_of (rs_reservations s') i = Some ?c"
    unfolding table using rollbackAll_table [of "sw_backups ?w" i ?c "sw_state ?w", OF only] by simp
qed

text \<open>When a sweep can and when it cannot be published.\<close>

lemma saveLocked_closed: "\<not> io_open (host_io h) \<Longrightarrow> \<not> status_ok (snd (saveLocked h s))"
  by (auto simp: saveLocked_def encodeState_def writeStateFile_def Let_def split: if_splits)

lemma finish_sweep_status:
  "status_ok (rep_status (snd (finish_sweep h now report bs u))) \<longleftrightarrow>
     (if status_ok (snd (persistAfterMutation h (count_sweep now u))) then status_ok (rep_status report)
      else False)"
  by (auto simp: finish_sweep_def sweep_report_def Let_def split: prod.split)

lemma sweep_not_durable:
  assumes "table_inv s" and "\<not> cfg_durableCommits (rs_config s)"
  shows "status_ok (rep_status (snd (expireLeases h now s)))"
    and "status_ok (rep_status (snd (reclaimExpired h now s)))"
  using assms(2) markLapsed_inv [OF assms(1), of 0 now] reclaim_walk(1) [OF assms(1), of 0 now]
  by (simp_all add: expireLeases_def reclaimExpired_def Let_def finish_sweep_status
      persistAfterMutation_def count_sweep_def sweep_inv_def same_rules_def sweep_report_def)

lemma sweep_cannot_publish:
  assumes "table_inv s" and "cfg_durableCommits (rs_config s)" and "cfg_statePath (rs_config s) \<noteq> []"
    and "\<not> io_open (host_io h)"
  shows "\<not> status_ok (rep_status (snd (expireLeases h now s)))"
  using assms(2-4) markLapsed_inv [OF assms(1), of 0 now] saveLocked_closed [OF assms(4)]
  by (simp add: expireLeases_def Let_def finish_sweep_status persistAfterMutation_def count_sweep_def
      sweep_inv_def same_rules_def)

end
