(* ===== verification/Runs.thy ===== *)
theory Runs
  imports Allocation_Facts Registration Sweep_Facts
begin

text \<open>
  Runs of the runtime: any sequence of its mutating operations, each under the lock and at an
  instant that does not lie before the previous one. The invariant of the reachable states is the
  point of the whole development: in none of them do two reservations own overlapping spectrum.
\<close>

section \<open>Operations\<close>

datatype Operation =
    AdvanceAuthority AuthorityState
  | RegisterGrid ChannelGrid
  | RegisterSpan Span
  | RegisterPort OpticalPort
  | RegisterDomain SpectrumDomain
  | RegisterExclusion ExclusionDomain
  | PublishCapability SpectrumCapability
  | ResetAll
  | SaveState
  | Allocate SpectrumRequest
  | Renew ReservationId ReservationGeneration Duration ReservationAuthority nat
  | Activate ReservationId ReservationGeneration ActivationAuthority
  | Deactivate ReservationId ReservationGeneration ActivationAuthority
  | Release ReservationId ReservationGeneration ReleaseAuthority
  | ExpireLeases
  | ReclaimExpired

fun perform :: "Host \<Rightarrow> Instant \<Rightarrow> Operation \<Rightarrow> RuntimeState \<Rightarrow> RuntimeState" where
  "perform h now (AdvanceAuthority n) s = fst (advanceAuthority (host_now h) n s)"
| "perform h now (RegisterGrid x) s = fst (registerGrid (host_now h) x s)"
| "perform h now (RegisterSpan x) s = fst (registerSpan (host_now h) x s)"
| "perform h now (RegisterPort x) s = fst (registerPort (host_now h) x s)"
| "perform h now (RegisterDomain x) s = fst (registerDomain (host_now h) x s)"
| "perform h now (RegisterExclusion x) s = fst (registerExclusionDomain (host_now h) x s)"
| "perform h now (PublishCapability x) s = fst (publishCapability (host_now h) x s)"
| "perform h now ResetAll s = fst (reset (host_now h) s)"
| "perform h now SaveState s = fst (save h s)"
| "perform h now (Allocate r) s = fst (allocate h r s)"
| "perform h now (Renew i g extension a cap) s = fst (renew h i g extension a now cap s)"
| "perform h now (Activate i g a) s = fst (activate h i g a now s)"
| "perform h now (Deactivate i g a) s = fst (deactivate h i g a now s)"
| "perform h now (Release i g a) s = fst (release h i g a now s)"
| "perform h now ExpireLeases s = fst (expireLeases h now s)"
| "perform h now ReclaimExpired s = fst (reclaimExpired h now s)"

text \<open>
  A request is evaluated at its own instant, which must not lie in the future of the operation;
  and the identity counter must not be about to wrap.
\<close>

fun timely :: "Instant \<Rightarrow> Operation \<Rightarrow> RuntimeState \<Rightarrow> bool" where
  "timely now (Allocate r) s \<longleftrightarrow>
     req_requestedAt r \<le> now \<and> raw (rs_nextReservationId s) < 0xFFFFFFFFFFFFFFFF"
| "timely now _ s \<longleftrightarrow> True"

inductive reached :: "Instant \<Rightarrow> RuntimeState \<Rightarrow> bool" where
  opened: "reached t (SpectrumRuntime config inc sysNow disk)"
| step: "reached t s \<Longrightarrow> t \<le> now \<Longrightarrow> timely now op s \<Longrightarrow> reached now (perform h now op s)"

inductive_cases reached_cases: "reached t s"

section \<open>The invariant\<close>

definition runtime_inv :: "Instant \<Rightarrow> RuntimeState \<Rightarrow> bool" where
  "runtime_inv t s \<longleftrightarrow> table_inv s \<and> lease_inv t s \<and> grids_ok s \<and> audit_ok s"

lemma empty_table:
  assumes "rs_reservations s = []" and "rs_liveByDomain s = []" and "rs_nextReservationId s = StrongValue 1"
  shows "table_inv s" and "lease_inv t s"
  using assms
  by (simp_all add: table_inv_def reservations_ok_def live_exact_def ids_below_def states_ok_def
      index_wf_def owns_def live_member_def live_list_def lease_inv_def exclusive_def)

lemma opened_inv: "runtime_inv t (SpectrumRuntime config inc sysNow disk)"
proof -
  let ?s = "SpectrumRuntime config inc sysNow disk"
  have "audit_ok ?s"
    unfolding SpectrumRuntime_def Let_def
    by (intro auditNote_ok) (simp add: audit_ok_def normalise_config_def Let_def)
  moreover have "grids_ok ?s"
    by (simp add: SpectrumRuntime_def Let_def auditNote_def grids_ok_def registry_ok_def)
  moreover have "rs_reservations ?s = []" "rs_liveByDomain ?s = []" "rs_nextReservationId ?s = StrongValue 1"
    by (simp_all add: SpectrumRuntime_def Let_def)
  ultimately show ?thesis
    using empty_table [of ?s] by (simp add: runtime_inv_def)
qed

lemma keeps_inv:
  assumes "runtime_inv t s" and "keeps_leases s s'" and "grids_ok s'" and "audit_ok s'"
  shows "runtime_inv t s'"
  using assms table_inv_frame [of s s'] lease_inv_frame [of t s s']
  by (simp add: runtime_inv_def keeps_leases_def)

lemma rules_inv:
  assumes "runtime_inv t s" and "table_inv s'" and "shrinks t s s'" and "same_rules s s'"
    and "audit_ok s \<Longrightarrow> audit_ok s'"
  shows "runtime_inv t s'"
  using assms lease_inv_shrinks [of t s s'] same_rules_grids [of s s'] by (simp add: runtime_inv_def)

lemma kept_inv: "runtime_inv t s \<Longrightarrow> kept t s s' \<Longrightarrow> runtime_inv t s'"
  using rules_inv [of t s s'] by (simp add: kept_def)

lemma reset_inv: "runtime_inv t s \<Longrightarrow> runtime_inv t (fst (reset now s))"
proof -
  assume inv: "runtime_inv t s"
  let ?s = "fst (reset now s)"
  have "rs_reservations ?s = []" "rs_liveByDomain ?s = []" "rs_nextReservationId ?s = StrongValue 1"
    by (simp_all add: reset_def auditNote_def)
  moreover have "grids_ok ?s"
    by (simp add: reset_def auditNote_def grids_ok_def registry_ok_def)
  moreover have "audit_ok ?s"
    using inv unfolding reset_def fst_conv
    by (intro auditNote_ok) (simp add: runtime_inv_def audit_ok_def)
  ultimately show ?thesis
    using empty_table [of ?s] by (simp add: runtime_inv_def)
qed

lemma allocate_inv:
  assumes "runtime_inv t s" and "raw (rs_nextReservationId s) < 0xFFFFFFFFFFFFFFFF"
    and "req_requestedAt r \<le> t"
  shows "runtime_inv t (fst (allocate h r s))"
proof -
  have "table_inv s" "lease_inv t s" "grids_ok s" "audit_ok s"
    using assms(1) by (simp_all add: runtime_inv_def)
  then show ?thesis
    using allocate_table [OF _ assms(2), of h r] allocate_lease [OF _ assms(2) _ _ assms(3), of h]
      same_rules_grids [of s "fst (allocate h r s)"]
    by (simp add: runtime_inv_def)
qed

lemma perform_inv:
  assumes "runtime_inv now s" and "timely now op s"
  shows "runtime_inv now (perform h now op s)"
proof -
  have inv: "table_inv s" "grids_ok s" "audit_ok s"
    using assms(1) by (simp_all add: runtime_inv_def)
  note registered = keeps_inv [OF assms(1) _ registration_grids_ok(1) [OF inv(2)]]
  note kept_by = rules_inv [OF assms(1)]
  show ?thesis
  proof (cases op)
    case (Allocate r)
    then show ?thesis
      using assms by (simp add: allocate_inv)
  next
    case SaveState
    have "shrinks now s (fst (save h s))"
      using saveLocked_ownership [of s h] by (simp add: save_def same_ownership_def shrinks_frame)
    then show ?thesis
      using SaveState saveLocked_ownership [of s h] saveLocked_audit [of s h]
        same_ownership_table [OF _ inv(1)] same_ownership_rules
      by (intro kept_by) (auto simp: save_def)
  qed (simp_all add: keeps_inv [OF assms(1)] registration_keeps registration_grids_ok inv
      registration_audit reset_inv [OF assms(1)] kept_inv [OF assms(1)] expireLeases_kept
      reclaimExpired_kept kept_by activation_op.keeps deactivation_op.keeps release_op.keeps
      renewal_op.keeps)
qed

theorem reached_inv: "reached t s \<Longrightarrow> runtime_inv t s"
proof (induction rule: reached.induct)
  case (step t s now op h)
  then have "runtime_inv now s"
    using lease_inv_later by (auto simp: runtime_inv_def)
  then show ?case
    using step.hyps(3) by (rule perform_inv)
qed (rule opened_inv)


text \<open>No spectrum is owned twice: the headline, for any two reservations owning at the same instant.\<close>

lemma no_double_ownership:
  assumes "reached t s" and "map_of (rs_reservations s) i = Some a" and "map_of (rs_reservations s) j = Some b"
    and "i \<noteq> j" and "isLiveAt a t" and "isLiveAt b t" and "shares_domain a b"
  shows "\<not> freq_overlaps (res_frequency a) (res_frequency b) \<and> \<not> reservationsConflict a b"
proof -
  have inv: "lease_inv t s"
    using reached_inv [OF assms(1)] by (simp add: runtime_inv_def)
  have "compatible a b" "placed a" "placed b"
    using inv assms(2-6) unfolding lease_inv_def exclusive_def by blast+
  then show ?thesis
    using compatible_no_overlap assms(7) by blast
qed

text \<open>The live index lists exactly the reservations whose state owns spectrum.\<close>

lemma index_exact:
  assumes "reached t s"
  shows "i \<in> set (live_list (rs_liveByDomain s) d) \<longleftrightarrow>
    (\<exists>r. map_of (rs_reservations s) i = Some r \<and> isLiveState (res_state r) \<and> d \<in> set (res_domains r))"
proof -
  have "live_exact s"
    using reached_inv [OF assms] by (simp add: runtime_inv_def table_inv_def)
  then show ?thesis
    by (simp add: live_exactD owns_def)
qed


text \<open>The numbers of the audit trail, counted from its oldest record.\<close>

lemma audit_numbered_nth:
  "audit_numbered n as \<Longrightarrow> k < length as \<Longrightarrow> raw (aud_sequence (as ! k)) = n - word_of_nat k"
proof (induction as arbitrary: n k)
  case (Cons a as)
  show ?case
  proof (cases k)
    case (Suc j)
    have "raw (aud_sequence (as ! j)) = n - 1 - word_of_nat j"
      using Cons Suc by simp
    then show ?thesis
      using Suc by simp
  qed (use Cons.prems in simp)
qed simp

lemma reached_audit:
  assumes "reached t s"
  shows "length (rs_audit s) \<le> cfg_maxAuditRecords (rs_config s)"
    and "k < length (rs_audit s) \<Longrightarrow> raw (aud_sequence (rs_audit s ! k))
      = raw (rs_auditSequence s) - word_of_nat (length (rs_audit s) - 1 - k)"
proof -
  have ok: "audit_ok s"
    using reached_inv [OF assms] by (simp add: runtime_inv_def)
  then show "length (rs_audit s) \<le> cfg_maxAuditRecords (rs_config s)"
    by (simp add: audit_ok_def)
  assume k: "k < length (rs_audit s)"
  then have "raw (aud_sequence (rev (rs_audit s) ! (length (rs_audit s) - 1 - k)))
      = raw (rs_auditSequence s) - word_of_nat (length (rs_audit s) - 1 - k)"
    using ok by (intro audit_numbered_nth) (simp_all add: audit_ok_def)
  then show "raw (aud_sequence (rs_audit s ! k))
      = raw (rs_auditSequence s) - word_of_nat (length (rs_audit s) - 1 - k)"
    using k by (simp add: rev_nth)
qed

end
