(* ===== verification/Query.thy ===== *)
theory Query
  imports Enumeration
begin

text \<open>
  \<open>runtime_query.cpp\<close>: the read-only operations. \<open>computeUsage\<close> does the spectrum accounting of one
  domain, \<open>audit\<close> pages through the audit trail, and the remaining queries copy parts of the
  state. The lemmas relate the reported figures to sets of slots.
\<close>

section \<open>Accounting\<close>

text \<open>The allocatable window of a domain, empty unless the published capability is current.\<close>

definition usage_window ::
    "RuntimeState \<Rightarrow> SpectrumDomainId \<Rightarrow> SpectrumDomain \<Rightarrow> ChannelGrid \<Rightarrow> SlotRange" where
  "usage_window s i d g =
     (case map_of (rs_capabilities s) i of
        None \<Rightarrow> default_slots
      | Some c \<Rightarrow>
          if cap_domainGeneration c = dom_generation d \<and> cap_support c = Supported
             \<and> slotRangeInGrid g (allocatableWindow c)
          then allocatableWindow c else default_slots)"

text \<open>The position of a domain in a reservation and the slots the reservation holds there.\<close>

fun position :: "'a \<Rightarrow> 'a list \<Rightarrow> nat option" where
  "position x [] = None"
| "position x (y # ys) = (if y = x then Some 0 else map_option Suc (position x ys))"

definition held_slots :: "SpectrumDomainId \<Rightarrow> SpectrumReservation \<Rightarrow> SlotRange option" where
  "held_slots d r =
     (case position d (res_domains r) of
        None \<Rightarrow> None
      | Some i \<Rightarrow>
          let held = (if i < length (res_perDomainSlots r) then res_perDomainSlots r ! i
                       else res_slots r)
          in if slot_empty held then None else Some held)"

record UsageLists =
  ul_live :: "SlotRange list"
  ul_active :: "SlotRange list"
  ul_reserved :: "SlotRange list"
  ul_lapsed :: "SlotRange list"

definition usage_step ::
    "RuntimeState \<Rightarrow> SpectrumDomainId \<Rightarrow> Instant \<Rightarrow> ReservationId \<Rightarrow> UsageLists \<Rightarrow> UsageLists" where
  "usage_step s d now i u =
     (case map_of (rs_reservations s) i of
        None \<Rightarrow> u
      | Some r \<Rightarrow>
          (case held_slots d r of
             None \<Rightarrow> u
           | Some held \<Rightarrow>
               if \<not> lease_validAt (res_lease r) now
               then u\<lparr>ul_lapsed := ul_lapsed u @ [held]\<rparr>
               else if res_state r = Active
               then u\<lparr>ul_live := ul_live u @ [held], ul_active := ul_active u @ [held]\<rparr>
               else u\<lparr>ul_live := ul_live u @ [held], ul_reserved := ul_reserved u @ [held]\<rparr>))"

definition usage_lists :: "RuntimeState \<Rightarrow> SpectrumDomainId \<Rightarrow> Instant \<Rightarrow> UsageLists" where
  "usage_lists s d now =
     fold (usage_step s d now) (live_list (rs_liveByDomain s) d)
       \<lparr>ul_live = [], ul_active = [], ul_reserved = [], ul_lapsed = []\<rparr>"

definition count_state :: "RuntimeState \<Rightarrow> SpectrumDomainId \<Rightarrow> ReservationState \<Rightarrow> nat" where
  "count_state s d st =
     fold (\<lambda>r n. if d \<in> set (res_domains r) \<and> res_state r = st then u32add n 1 else n)
       (om_values (rs_reservations s)) 0"

definition free_runs_of :: "SlotRange \<Rightarrow> SlotRange list \<Rightarrow> SlotRange list" where
  "free_runs_of window live =
     (if slot_empty window then []
      else mergeRangesUsage (fold subtractRanges (mergeRangesUsage live) [window]))"

definition computeUsage :: "RuntimeState \<Rightarrow> SpectrumDomainId \<Rightarrow> Instant \<Rightarrow> SpectrumUsage option" where
  "computeUsage s i now =
     (case map_of (rs_domains s) i of
        None \<Rightarrow> None
      | Some d \<Rightarrow>
          (case map_of (rs_grids s) (dom_grid d) of
             None \<Rightarrow> None
           | Some g \<Rightarrow>
               let window = usage_window s i d g;
                   u = usage_lists s i now;
                   live = coveredSlots (ul_live u)
               in Some \<lparr>use_domain = i, use_domainGeneration = dom_generation d,
                    use_grid = dom_grid d, use_gridGeneration = dom_gridGeneration d,
                    use_totalSlots = slotCount g, use_allocatableSlots = slot_count window,
                    use_liveSlots = live, use_activeSlots = coveredSlots (ul_active u),
                    use_reservedSlots = coveredSlots (ul_reserved u),
                    use_freeSlots = (if slot_count window > live
                      then u32sub (slot_count window) live else 0),
                    use_lapsedSlots = coveredSlots (ul_lapsed u),
                    use_liveReservations = length (ul_live u) mod kU32Modulus,
                    use_activeReservations = length (ul_active u) mod kU32Modulus,
                    use_lapsedReservations = length (ul_lapsed u) mod kU32Modulus,
                    use_reclaimedReservations = count_state s i Reclaimed,
                    use_releasedReservations = count_state s i Released,
                    use_freeRuns = free_runs_of window (ul_live u)\<rparr>))"

section \<open>Queries\<close>

definition firstEligible :: "CandidateSet \<Rightarrow> SpectrumCandidate option" where
  "firstEligible cs = find (\<lambda>c. isEligible (cand_eligibility c)) (cset_candidates cs)"

definition grid_query :: "RuntimeState \<Rightarrow> ChannelGridId \<Rightarrow> ChannelGrid option" where
  "grid_query s i = map_of (rs_grids s) i"

definition domain_query :: "RuntimeState \<Rightarrow> SpectrumDomainId \<Rightarrow> SpectrumDomain option" where
  "domain_query s i = map_of (rs_domains s) i"

definition exclusionDomain_query :: "RuntimeState \<Rightarrow> ExclusionDomainId \<Rightarrow> ExclusionDomain option" where
  "exclusionDomain_query s i = map_of (rs_exclusionDomains s) i"

definition capability_query :: "RuntimeState \<Rightarrow> SpectrumDomainId \<Rightarrow> SpectrumCapability option" where
  "capability_query s i = map_of (rs_capabilities s) i"

definition reservation_query :: "RuntimeState \<Rightarrow> ReservationId \<Rightarrow> SpectrumReservation option" where
  "reservation_query s i = map_of (rs_reservations s) i"

definition reservations :: "RuntimeState \<Rightarrow> SpectrumReservation list" where
  "reservations s = om_values (rs_reservations s)"

definition reservationsForDomain :: "RuntimeState \<Rightarrow> SpectrumDomainId \<Rightarrow> SpectrumReservation list" where
  "reservationsForDomain s d = filter (\<lambda>r. d \<in> set (res_domains r)) (om_values (rs_reservations s))"

definition domains :: "RuntimeState \<Rightarrow> SpectrumDomain list" where
  "domains s = om_values (rs_domains s)"

definition grids :: "RuntimeState \<Rightarrow> ChannelGrid list" where
  "grids s = om_values (rs_grids s)"

definition exclusionDomains :: "RuntimeState \<Rightarrow> ExclusionDomain list" where
  "exclusionDomains s = om_values (rs_exclusionDomains s)"

definition usage :: "RuntimeState \<Rightarrow> SpectrumDomainId \<Rightarrow> Instant \<Rightarrow> SpectrumUsage option" where
  "usage s i now = computeUsage s i now"

definition usageAll :: "RuntimeState \<Rightarrow> Instant \<Rightarrow> SpectrumUsage list" where
  "usageAll s now = List.map_filter (\<lambda>i. computeUsage s i now) (om_keys (rs_domains s))"

text \<open>The paging loop skips records up to \<open>since\<close> and stops at the page bound.\<close>

fun audit_page :: "AuditSequence \<Rightarrow> nat \<Rightarrow> AuditRecord list \<Rightarrow> AuditRecord list \<Rightarrow> AuditRecord list" where
  "audit_page since bound [] out = out"
| "audit_page since bound (a # as) out =
     (if aud_sequence a \<le> since then audit_page since bound as out
      else if length out \<ge> bound then out
      else audit_page since bound as (out @ [a]))"

definition audit_bound :: "RuntimeState \<Rightarrow> nat \<Rightarrow> nat" where
  "audit_bound s limit =
     (let n = (if limit = 0 then cfg_maxAuditPageSize (rs_config s) else limit)
      in if n > cfg_maxAuditPageSize (rs_config s) then cfg_maxAuditPageSize (rs_config s) else n)"

definition audit :: "RuntimeState \<Rightarrow> AuditSequence \<Rightarrow> nat \<Rightarrow> AuditRecord list" where
  "audit s since limit = audit_page since (audit_bound s limit) (rs_audit s) []"

definition auditSize :: "RuntimeState \<Rightarrow> nat" where
  "auditSize s = length (rs_audit s)"

definition lastAuditSequence :: "RuntimeState \<Rightarrow> AuditSequence" where
  "lastAuditSequence s = rs_auditSequence s"

definition stats :: "RuntimeState \<Rightarrow> RuntimeStats" where
  "stats s = rs_stats s"

section \<open>Accounting is exact\<close>

lemma position_Some: "position x xs = Some i \<Longrightarrow> i < length xs \<and> xs ! i = x"
  by (induction xs arbitrary: i) (auto split: if_splits)

lemma position_None: "position x xs = None \<longleftrightarrow> x \<notin> set xs"
  by (induction xs) auto

text \<open>The three lists as filters over the live reservations of the domain.\<close>

definition held_of ::
    "RuntimeState \<Rightarrow> SpectrumDomainId \<Rightarrow> (SpectrumReservation \<Rightarrow> bool) \<Rightarrow> ReservationId \<Rightarrow> SlotRange list" where
  "held_of s d keep i =
     (case map_of (rs_reservations s) i of None \<Rightarrow> []
      | Some r \<Rightarrow> if keep r then (case held_slots d r of None \<Rightarrow> [] | Some held \<Rightarrow> [held]) else [])"

definition held_by :: "RuntimeState \<Rightarrow> SpectrumDomainId \<Rightarrow> (SpectrumReservation \<Rightarrow> bool) \<Rightarrow> SlotRange list" where
  "held_by s d keep = concat (map (held_of s d keep) (live_list (rs_liveByDomain s) d))"

lemma usage_step_fields:
  "ul_live (usage_step s d now i u) = ul_live u @ held_of s d (\<lambda>r. lease_validAt (res_lease r) now) i"
  "ul_active (usage_step s d now i u) =
     ul_active u @ held_of s d (\<lambda>r. lease_validAt (res_lease r) now \<and> res_state r = Active) i"
  "ul_reserved (usage_step s d now i u) =
     ul_reserved u @ held_of s d (\<lambda>r. lease_validAt (res_lease r) now \<and> res_state r \<noteq> Active) i"
  "ul_lapsed (usage_step s d now i u) = ul_lapsed u @ held_of s d (\<lambda>r. \<not> lease_validAt (res_lease r) now) i"
  by (simp_all add: usage_step_def held_of_def split: option.split)

lemma fold_usage_step:
  "ul_live (fold (usage_step s d now) is u) =
     ul_live u @ concat (map (held_of s d (\<lambda>r. lease_validAt (res_lease r) now)) is)"
  "ul_active (fold (usage_step s d now) is u) =
     ul_active u @ concat (map (held_of s d (\<lambda>r. lease_validAt (res_lease r) now \<and> res_state r = Active)) is)"
  "ul_reserved (fold (usage_step s d now) is u) =
     ul_reserved u @ concat (map (held_of s d (\<lambda>r. lease_validAt (res_lease r) now \<and> res_state r \<noteq> Active)) is)"
  "ul_lapsed (fold (usage_step s d now) is u) =
     ul_lapsed u @ concat (map (held_of s d (\<lambda>r. \<not> lease_validAt (res_lease r) now)) is)"
  by (induction "is" arbitrary: u) (simp_all add: usage_step_fields)

lemma usage_lists_eq:
  "ul_live (usage_lists s d now) = held_by s d (\<lambda>r. lease_validAt (res_lease r) now)"
  "ul_active (usage_lists s d now) = held_by s d (\<lambda>r. lease_validAt (res_lease r) now \<and> res_state r = Active)"
  "ul_reserved (usage_lists s d now) = held_by s d (\<lambda>r. lease_validAt (res_lease r) now \<and> res_state r \<noteq> Active)"
  "ul_lapsed (usage_lists s d now) = held_by s d (\<lambda>r. \<not> lease_validAt (res_lease r) now)"
  by (simp_all add: usage_lists_def fold_usage_step held_by_def)

lemma held_of_mem:
  "held \<in> set (held_of s d keep i) \<longleftrightarrow>
     (\<exists>r. map_of (rs_reservations s) i = Some r \<and> keep r \<and> held_slots d r = Some held)"
proof (cases "map_of (rs_reservations s) i")
  case (Some r)
  then show ?thesis
    by (cases "held_slots d r"; cases "keep r") (auto simp: held_of_def)
qed (simp add: held_of_def)

lemma held_slots_domain: "held_slots d r = Some held \<Longrightarrow> d \<in> set (res_domains r)"
  by (cases "position d (res_domains r)") (auto simp: held_slots_def dest!: position_Some)

lemma held_by_mem:
  assumes "live_exact s"
  shows "held \<in> set (held_by s d keep) \<longleftrightarrow>
    (\<exists>i r. map_of (rs_reservations s) i = Some r \<and> isLiveState (res_state r) \<and> keep r
       \<and> held_slots d r = Some held)"
proof -
  have "held \<in> set (held_by s d keep) \<longleftrightarrow> (\<exists>i. owns s d i \<and> held \<in> set (held_of s d keep i))"
    using live_exactD [OF assms, of _ d] by (auto simp: held_by_def)
  also have "\<dots> \<longleftrightarrow> (\<exists>i r. map_of (rs_reservations s) i = Some r \<and> isLiveState (res_state r) \<and> keep r
       \<and> held_slots d r = Some held)"
  proof
    assume "\<exists>i. owns s d i \<and> held \<in> set (held_of s d keep i)"
    then obtain i r q where "map_of (rs_reservations s) i = Some q" "isLiveState (res_state q)"
      "map_of (rs_reservations s) i = Some r" "keep r" "held_slots d r = Some held"
      unfolding owns_def held_of_mem by blast
    then show "\<exists>i r. map_of (rs_reservations s) i = Some r \<and> isLiveState (res_state r) \<and> keep r
       \<and> held_slots d r = Some held"
      by (metis option.inject)
  next
    assume "\<exists>i r. map_of (rs_reservations s) i = Some r \<and> isLiveState (res_state r) \<and> keep r
       \<and> held_slots d r = Some held"
    then show "\<exists>i. owns s d i \<and> held \<in> set (held_of s d keep i)"
      unfolding owns_def held_of_mem using held_slots_domain by blast
  qed
  finally show ?thesis .
qed

lemma held_slots_nonempty: "held_slots d r = Some held \<Longrightarrow> \<not> slot_empty held"
  by (auto simp: held_slots_def Let_def split: option.splits if_splits)

text \<open>The free runs are the maximal gaps: the window without every slot held by a live lease.\<close>

lemma free_runs_correct:
  assumes "slot_wf window" and "\<forall>r \<in> set live. slot_wf r"
  shows "slots_of_list (free_runs_of window live) = slots_of window - slots_of_list live"
    and "separated (free_runs_of window live)"
proof -
  note merged = mergeRangesUsage_correct [OF assms(2)]
  have cuts: "\<forall>c \<in> set (mergeRangesUsage live). slot_wf c"
    using merged(1) by (simp add: separated_def)
  define pieces where "pieces = fold subtractRanges (mergeRangesUsage live) [window]"
  have wf: "\<forall>p \<in> set pieces. slot_wf p"
    and sl: "slots_of_list pieces = slots_of window - slots_of_list live"
    using usage_cut.fold_cut [OF cuts, of "[window]"] assms(1) merged(2) by (simp_all add: pieces_def)
  show "slots_of_list (free_runs_of window live) = slots_of window - slots_of_list live"
    using mergeRangesUsage_correct [OF wf] sl
    by (auto simp: free_runs_of_def pieces_def [symmetric] slots_of_empty [symmetric])
  show "separated (free_runs_of window live)"
    using mergeRangesUsage_correct [OF wf] by (simp add: free_runs_of_def pieces_def [symmetric])
qed

section \<open>Audit pages\<close>

lemma audit_page_eq:
  "length out \<le> bound \<Longrightarrow> audit_page since bound as out =
     out @ take (bound - length out) (filter (\<lambda>a. since < aud_sequence a) as)"
proof (induction since bound as out rule: audit_page.induct)
  case (2 since bound a as out)
  then show ?case
    by (cases "length out = bound") (auto simp: take_Cons' not_le)
qed simp

lemma audit_eq:
  "audit s since limit = take (audit_bound s limit) (filter (\<lambda>a. since < aud_sequence a) (rs_audit s))"
  by (simp add: audit_def audit_page_eq)

text \<open>The first eligible candidate is the one preceded by ineligible ones only.\<close>

lemma firstEligible_split:
  "cset_candidates cs = pre @ c # post \<Longrightarrow> cand_eligibility c = Eligible \<Longrightarrow>
   \<forall>x \<in> set pre. cand_eligibility x \<noteq> Eligible \<Longrightarrow> firstEligible cs = Some c"
proof -
  assume "cand_eligibility c = Eligible"
  moreover have "\<forall>x \<in> set pre. cand_eligibility x \<noteq> Eligible \<Longrightarrow>
      find (\<lambda>c. isEligible (cand_eligibility c)) (pre @ c # post) =
      find (\<lambda>c. isEligible (cand_eligibility c)) (c # post)"
    by (induction pre) (auto simp: isEligible_def)
  moreover assume "cset_candidates cs = pre @ c # post" "\<forall>x \<in> set pre. cand_eligibility x \<noteq> Eligible"
  ultimately show ?thesis
    by (simp add: firstEligible_def isEligible_def)
qed

end
