(* ===== verification/Server.thy ===== *)
theory Server
  imports Protocol Runs Query
begin

text \<open>
  The server half of \<open>protocol.cpp\<close>: \<open>dispatch\<close> decodes the payload of a request, calls the runtime and
  encodes the reply, and \<open>serveConnection\<close> answers the frames of one connection in order. Several
  workers share the runtime, which locks per call; what the others do between two calls of one
  request is the function \<open>between\<close>, and everything else a connection depends on (the host's
  answers, what happens before a request, the stop flag) is the environment.
\<close>

section \<open>Configuration\<close>

record ServerConfig =
  scf_address :: string
  scf_port :: nat
  scf_maxConnections :: nat
  scf_workerThreads :: nat
  scf_maxPayloadBytes :: nat
  scf_backlog :: nat
  scf_acceptPollMillis :: nat
  scf_allowShutdownOp :: bool

definition SpectrumServer :: "ServerConfig \<Rightarrow> ServerConfig" where
  "SpectrumServer config =
     (let atLeastOne = (\<lambda>n. if n = 0 then 1 else n :: nat)
      in config\<lparr>scf_workerThreads := atLeastOne (scf_workerThreads config),
           scf_maxConnections := atLeastOne (scf_maxConnections config),
           scf_acceptPollMillis := atLeastOne (scf_acceptPollMillis config)\<rparr>)"

section \<open>Dispatch\<close>

definition msg_takes_no_payload :: "OpCode \<Rightarrow> string" where
  "msg_takes_no_payload op = opCode_toToken op @ '' takes no payload''"
definition msg_payload_malformed :: "string \<Rightarrow> string" where
  "msg_payload_malformed what = what @ '' payload is malformed''"
definition msg_disappeared :: string where "msg_disappeared = ''reservation disappeared''"
definition msg_unknown_reservation :: "ReservationId \<Rightarrow> string" where
  "msg_unknown_reservation i = ''reservation '' @ t_reservation i @ '' is not known to this runtime''"
definition msg_domain_absent :: "SpectrumDomainId \<Rightarrow> string" where
  "msg_domain_absent i = ''domain '' @ t_domain i @ '' is not registered''"
definition msg_no_shutdown :: string where
  "msg_no_shutdown = ''this server does not accept shutdown requests''"
definition s_activation_payload :: string where "s_activation_payload = ''activation''"
definition s_sweep_payload :: string where "s_sweep_payload = ''sweep''"

text \<open>The state, the status of the envelope, the data behind it, and whether to shut down.\<close>

type_synonym Dispatched = "RuntimeState \<times> Status \<times> u8 list \<times> bool"

definition answered :: "RuntimeState \<Rightarrow> Status \<Rightarrow> Dispatched" where
  "answered s status = (s, status, [], False)"

definition replied :: "RuntimeState \<Rightarrow> Writer \<Rightarrow> Dispatched" where
  "replied s w = (s, okStatus, payload_of w, False)"

definition no_payload :: "OpCode \<Rightarrow> u8 list \<Rightarrow> RuntimeState \<Rightarrow> Dispatched \<Rightarrow> Dispatched" where
  "no_payload op payload s k =
     (if payload \<noteq> [] then answered s (fail InvalidArgument (msg_takes_no_payload op)) else k)"

definition with_payload ::
    "string \<Rightarrow> 'a Reader \<Rightarrow> u8 list \<Rightarrow> RuntimeState \<Rightarrow> ('a \<Rightarrow> Dispatched) \<Rightarrow> Dispatched" where
  "with_payload what rd payload s k =
     (case decode_whole rd payload of
        None \<Rightarrow> answered s (fail Corruption (msg_payload_malformed what))
      | Some v \<Rightarrow> k v)"

text \<open>The reservation after a successful operation, looked up by a call of its own.\<close>

definition then_reservation ::
    "(RuntimeState \<Rightarrow> RuntimeState) \<Rightarrow> ReservationId \<Rightarrow> RuntimeState \<times> Status \<Rightarrow> Dispatched" where
  "then_reservation between i result =
     (case result of (s, status) \<Rightarrow>
        if \<not> status_ok status then answered s status
        else let s1 = between s
             in (case reservation_query s1 i of
                   None \<Rightarrow> answered s1 (fail NotFound msg_disappeared)
                 | Some q \<Rightarrow> replied s1 (encode_reservation q)))"

text \<open>\<open>describe\<close> makes one call per field, and one per domain for the capabilities.\<close>

definition count_capabilities ::
    "(RuntimeState \<Rightarrow> RuntimeState) \<Rightarrow> SpectrumDomain list \<Rightarrow> RuntimeState \<Rightarrow> nat \<times> RuntimeState" where
  "count_capabilities between ds s =
     fold (\<lambda>d (n, s). let s1 = between s
       in (if capability_query s1 (dom_id d) \<noteq> None then Suc n else n, s1)) ds (0, s)"

definition describe :: "(RuntimeState \<Rightarrow> RuntimeState) \<Rightarrow> RuntimeState \<Rightarrow> ServerDescription \<times> RuntimeState" where
  "describe between s0 =
     (let s1 = between s0; s2 = between s1; s3 = between s2; s4 = between s3; s5 = between s4;
          s6 = between s5; s7 = between s6;
          (n, s8) = count_capabilities between (domains s7) s7;
          s9 = between s8; s10 = between s9; s11 = between s10
      in (\<lparr>srv_fence = rs_fence s0, srv_runtimeGeneration = rs_runtimeGeneration s1,
           srv_recoveryGeneration = rs_recoveryGeneration s2, srv_grids = length (grids s3),
           srv_domains = length (domains s4), srv_exclusionDomains = length (exclusionDomains s5),
           srv_capabilities = n, srv_reservations = length (reservations s6),
           srv_auditRecords = auditSize s9, srv_lastAudit = lastAuditSequence s10,
           srv_stats = stats s11\<rparr>, s11))"

definition usage_args :: "(SpectrumDomainId \<times> Instant) Reader" where
  "usage_args r = do {
     (domain, r) \<leftarrow> rd_id r;
     (now, r) \<leftarrow> rd_i64 r;
     if now < 0 then None else Some ((domain, now), r)}"

fun dispatch ::
    "Host \<Rightarrow> (RuntimeState \<Rightarrow> RuntimeState) \<Rightarrow> ServerConfig \<Rightarrow> OpCode \<Rightarrow> u8 list \<Rightarrow> RuntimeState \<Rightarrow> Dispatched" where
  "dispatch h between c OpPing payload s = no_payload OpPing payload s (answered s okStatus)"
| "dispatch h between c OpDescribe payload s = no_payload OpDescribe payload s
     (case describe between s of (d, s1) \<Rightarrow> replied s1 (writeDescription d))"
| "dispatch h between c OpRegisterGrid payload s =
     with_payload (opCode_toToken OpRegisterGrid) decode_grid payload s
       (\<lambda>x. case registerGrid (host_now h) x s of (s1, status) \<Rightarrow> answered s1 status)"
| "dispatch h between c OpRegisterSpan payload s =
     with_payload (opCode_toToken OpRegisterSpan) decode_span payload s
       (\<lambda>x. case registerSpan (host_now h) x s of (s1, status) \<Rightarrow> answered s1 status)"
| "dispatch h between c OpRegisterPort payload s =
     with_payload (opCode_toToken OpRegisterPort) decode_port payload s
       (\<lambda>x. case registerPort (host_now h) x s of (s1, status) \<Rightarrow> answered s1 status)"
| "dispatch h between c OpRegisterDomain payload s =
     with_payload (opCode_toToken OpRegisterDomain) decode_domain payload s
       (\<lambda>x. case registerDomain (host_now h) x s of (s1, status) \<Rightarrow> answered s1 status)"
| "dispatch h between c OpRegisterExclusionDomain payload s =
     with_payload (opCode_toToken OpRegisterExclusionDomain) decode_exclusion payload s
       (\<lambda>x. case registerExclusionDomain (host_now h) x s of (s1, status) \<Rightarrow> answered s1 status)"
| "dispatch h between c OpPublishCapability payload s =
     with_payload (opCode_toToken OpPublishCapability) decode_capability payload s
       (\<lambda>x. case publishCapability (host_now h) x s of (s1, status) \<Rightarrow> answered s1 status)"
| "dispatch h between c OpEnumerate payload s =
     with_payload (opCode_toToken OpEnumerate) decode_request payload s
       (\<lambda>r. let candidates = enumerateCandidates s r
            in (s, cset_status candidates, payload_of (encode_candidateSet candidates), False))"
| "dispatch h between c OpExplain payload s =
     with_payload (opCode_toToken OpExplain) decode_request payload s
       (\<lambda>r. replied s (encode_explanation (explain r s)))"
| "dispatch h between c OpAllocate payload s =
     with_payload (opCode_toToken OpAllocate) decode_request payload s
       (\<lambda>r. case allocate h r s of (s1, d) \<Rightarrow> (s1, dec_status d, payload_of (encode_decision d), False))"
| "dispatch h between c OpRenew payload s =
     with_payload (opCode_toToken OpRenew) readRenewArgs payload s
       (\<lambda>a. then_reservation between (ren_id a)
          (renew h (ren_id a) (ren_generation a) (ren_extension a) (ren_authority a) (ren_now a)
             (ren_maxRenewals a) s))"
| "dispatch h between c OpActivate payload s =
     with_payload s_activation_payload readActivateArgs payload s
       (\<lambda>a. then_reservation between (act_id a)
          (activate h (act_id a) (act_generation a) (act_authority a) (act_now a) s))"
| "dispatch h between c OpDeactivate payload s =
     with_payload s_activation_payload readActivateArgs payload s
       (\<lambda>a. then_reservation between (act_id a)
          (deactivate h (act_id a) (act_generation a) (act_authority a) (act_now a) s))"
| "dispatch h between c OpRelease payload s =
     with_payload (opCode_toToken OpRelease) readReleaseArgs payload s
       (\<lambda>a. then_reservation between (rel_id a)
          (release h (rel_id a) (rel_generation a) (rel_authority a) (rel_now a) s))"
| "dispatch h between c OpExpireLeases payload s =
     with_payload s_sweep_payload readSweepArgs payload s
       (\<lambda>a. case expireLeases h (swp_now a) s of (s1, report) \<Rightarrow> replied s1 (encode_reclaimReport report))"
| "dispatch h between c OpReclaimExpired payload s =
     with_payload s_sweep_payload readSweepArgs payload s
       (\<lambda>a. case reclaimExpired h (swp_now a) s of (s1, report) \<Rightarrow> replied s1 (encode_reclaimReport report))"
| "dispatch h between c OpQueryReservation payload s =
     with_payload (opCode_toToken OpQueryReservation) rd_id payload s
       (\<lambda>i. case reservation_query s i of
            None \<Rightarrow> answered s (fail NotFound (msg_unknown_reservation i))
          | Some q \<Rightarrow> replied s (encode_reservation q))"
| "dispatch h between c OpQueryReservations payload s = no_payload OpQueryReservations payload s
     (replied s (writeList encode_reservation (reservations s)))"
| "dispatch h between c OpQueryUsage payload s =
     with_payload (opCode_toToken OpQueryUsage) usage_args payload s
       (\<lambda>(i, now). case usage s i now of
            None \<Rightarrow> answered s (fail NotFound (msg_domain_absent i))
          | Some u \<Rightarrow> replied s (encode_usage u))"
| "dispatch h between c OpQueryUsageAll payload s =
     with_payload (opCode_toToken OpQueryUsageAll) readSweepArgs payload s
       (\<lambda>a. replied s (writeList encode_usage (usageAll s (swp_now a))))"
| "dispatch h between c OpQueryAudit payload s =
     with_payload (opCode_toToken OpQueryAudit) readAuditArgs payload s
       (\<lambda>a. replied s (writeList encode_audit (audit s (qry_since a) (qry_limit a))))"
| "dispatch h between c OpQueryStats payload s = no_payload OpQueryStats payload s
     (replied s (writeStats (stats s)))"
| "dispatch h between c OpSave payload s = no_payload OpSave payload s
     (case save h s of (s1, status) \<Rightarrow> answered s1 status)"
| "dispatch h between c OpReset payload s = no_payload OpReset payload s
     (case reset (host_now h) s of (s1, status) \<Rightarrow> answered s1 status)"
| "dispatch h between c OpShutdown payload s = no_payload OpShutdown payload s
     (if \<not> scf_allowShutdownOp c then answered s (fail NotPermitted msg_no_shutdown)
      else (s, okStatus, [], True))"

declare dispatch.simps [simp del]

section \<open>One connection\<close>

record Environment =
  env_host :: "nat \<Rightarrow> Host"
  env_before :: "nat \<Rightarrow> RuntimeState \<Rightarrow> RuntimeState"
  env_between :: "nat \<Rightarrow> RuntimeState \<Rightarrow> RuntimeState"
  env_stop :: "nat \<Rightarrow> bool"

record Connection =
  con_socket :: Socket
  con_state :: RuntimeState
  con_served :: u64
  con_rejected :: u64
  con_stopping :: bool

text \<open>One turn of the loop, and whether there is another one.\<close>

definition serve_frame ::
    "Environment \<Rightarrow> ServerConfig \<Rightarrow> nat \<Rightarrow> Connection \<Rightarrow> Connection \<times> bool" where
  "serve_frame env c i n =
     (case readFrame (con_socket n) (scf_maxPayloadBytes c) of
        (k1, Inl st) \<Rightarrow>
          (n\<lparr>con_socket := k1, con_rejected := (if code st = Corruption then con_rejected n + 1
             else con_rejected n)\<rparr>, False)
      | (k1, Inr f) \<Rightarrow>
          (case dispatch (env_host env i) (env_between env i) c (frame_op f) (frame_payload f)
               (env_before env i (con_state n)) of (s1, status, reply_data, shutdown) \<Rightarrow>
             let reply = \<lparr>frame_op = frame_op f, frame_requestId = frame_requestId f,
                   frame_payload = envelope status reply_data\<rparr>;
                 n1 = n\<lparr>con_state := s1, con_served := con_served n + 1\<rparr>
             in (case writeFrame k1 reply (scf_maxPayloadBytes c) of (k2, written) \<Rightarrow>
                   if \<not> status_ok written then (n1\<lparr>con_socket := k2\<rparr>, False)
                   else if shutdown then (n1\<lparr>con_socket := k2, con_stopping := True\<rparr>, False)
                   else (n1\<lparr>con_socket := k2\<rparr>, True))))"

lemma serve_frame_progress:
  assumes "serve_frame env c i n = (n', True)"
  shows "length (stream (con_socket n')) < length (stream (con_socket n))"
proof -
  obtain k1 f where f: "readFrame (con_socket n) (scf_maxPayloadBytes c) = (k1, Inr f)"
    using assms by (auto simp: serve_frame_def split: prod.splits sum.splits)
  obtain reply k2 written where reply: "writeFrame k1 reply (scf_maxPayloadBytes c) = (k2, written)" "status_ok written"
    "con_socket n' = k2"
    using assms f by (auto simp: serve_frame_def Let_def split: prod.splits if_splits)
  have "stream k2 = stream k1"
    by (rule writeFrame_sent(4) [OF reply(1,2)])
  then show ?thesis
    using readFrame_accepts(1) [OF f] reply(3) by (simp add: frame_bytes_prefix)
qed

function serve_loop :: "Environment \<Rightarrow> ServerConfig \<Rightarrow> nat \<Rightarrow> Connection \<Rightarrow> Connection" where
  "serve_loop env c i n =
     (if env_stop env i \<or> con_stopping n then n
      else case serve_frame env c i n of (n1, again) \<Rightarrow> if again then serve_loop env c (Suc i) n1 else n1)"
  by pat_completeness auto
termination
  by (relation "measure (\<lambda>(env, c, i, n). length (stream (con_socket n)))")
    (auto dest: serve_frame_progress [OF sym])

declare serve_loop.simps [simp del]

definition serveConnection :: "Environment \<Rightarrow> ServerConfig \<Rightarrow> Socket \<Rightarrow> RuntimeState \<Rightarrow> Connection" where
  "serveConnection env c k s =
     serve_loop env c 0 \<lparr>con_socket = k, con_state = s, con_served = 0, con_rejected = 0, con_stopping = False\<rparr>"

end
