(* ===== verification/Endpoint.thy ===== *)
theory Endpoint
  imports Transport
begin

text \<open>
  Opening and accepting connections: \<open>listenTcp\<close>, \<open>acceptTcp\<close> and \<open>connectTcp\<close> of \<open>net.cpp\<close>, the counter
  of the socket library, and \<open>waitUntil\<close> of \<open>protocol.cpp\<close>. Every system call is a field of the record
  of the operating system's answers: either what the call produced, or the text of its error. What
  is the program's own is the order of the calls, the checks before them and the status each failure
  is turned into.
\<close>

section \<open>The socket library\<close>

text \<open>The counter of the users of the library; the platform's start-up is an argument.\<close>

definition initSockets :: "Status \<Rightarrow> u32 \<Rightarrow> u32 \<times> Status" where
  "initSockets started count =
     (if count = 0 \<and> \<not> status_ok started then (count, started) else (count + 1, okStatus))"

definition ensureSockets :: "Status \<Rightarrow> u32 \<Rightarrow> u32 \<times> Status" where
  "ensureSockets started count =
     (if count \<noteq> 0 then (count, okStatus)
      else if \<not> status_ok started then (count, started) else (1, okStatus))"

definition shutdownSockets :: "u32 \<Rightarrow> u32" where
  "shutdownSockets count = (if count \<noteq> 0 then count - 1 else count)"

lemma shutdown_undoes_init:
  "status_ok started \<Longrightarrow> count + 1 \<noteq> 0 \<Longrightarrow> shutdownSockets (fst (initSockets started count)) = count"
  by (simp add: initSockets_def shutdownSockets_def)

section \<open>Listening\<close>

record ListenOptions =
  lst_address :: string
  lst_port :: nat
  lst_backlog :: nat

record ListenOs =
  los_literal :: bool
  los_ready :: Status
  los_socket :: "string + Socket"
  los_reuse :: "string option"
  los_bind :: "string option"
  los_listen :: "nat \<Rightarrow> string option"
  los_name :: "string + nat"

definition msg_listen_address :: string where "msg_listen_address = ''listen address must not be empty''"
definition msg_listen_backlog :: string where "msg_listen_backlog = ''listen backlog must be at least one''"
definition msg_listen_literal :: "string \<Rightarrow> string" where
  "msg_listen_literal a = ''listen address is not an IPv4 literal: '' @ a"
definition s_socket :: string where "s_socket = ''socket''"
definition s_reuse :: string where "s_reuse = ''setsockopt(SO_REUSEADDR)''"
definition s_bind :: string where "s_bind = ''bind''"
definition s_listen :: string where "s_listen = ''listen''"
definition s_getsockname :: string where "s_getsockname = ''getsockname''"

definition listenTcp :: "ListenOptions \<Rightarrow> ListenOs \<Rightarrow> Status + Socket \<times> nat" where
  "listenTcp options os =
     (if lst_address options = [] then Inl (fail InvalidArgument msg_listen_address)
      else if lst_backlog options = 0 then Inl (fail InvalidArgument msg_listen_backlog)
      else if \<not> los_literal os then Inl (fail InvalidArgument (msg_listen_literal (lst_address options)))
      else if \<not> status_ok (los_ready os) then Inl (los_ready os)
      else case los_socket os of
        Inl e \<Rightarrow> Inl (socketFailure s_socket e)
      | Inr owner \<Rightarrow>
          (case los_reuse os of
             Some e \<Rightarrow> Inl (socketFailure s_reuse e)
           | None \<Rightarrow>
               (case los_bind os of
                  Some e \<Rightarrow> Inl (socketFailure s_bind e)
                | None \<Rightarrow>
                    (case los_listen os (min (lst_backlog options) 0x7FFFFFFF) of
                       Some e \<Rightarrow> Inl (socketFailure s_listen e)
                     | None \<Rightarrow>
                         (case los_name os of
                            Inl e \<Rightarrow> Inl (socketFailure s_getsockname e)
                          | Inr port \<Rightarrow> Inr (owner, port))))))"

section \<open>Accepting\<close>

datatype SelectAnswer = SelectReady | SelectTimeout | SelectInterrupted | SelectFailed string

record AcceptOs =
  aos_select :: "nat \<times> nat \<Rightarrow> SelectAnswer"
  aos_accept :: "string + Socket"
  aos_peer :: "(string \<times> nat) option"

definition msg_accept_closed :: string where "msg_accept_closed = ''accept requires an open listening socket''"
definition msg_accept_timeout :: string where "msg_accept_timeout = ''accept poll timed out''"
definition msg_accept_interrupted :: string where "msg_accept_interrupted = ''accept poll was interrupted''"
definition s_select :: string where "s_select = ''select''"
definition s_accept :: string where "s_accept = ''accept''"

definition s_peer_unknown :: string where "s_peer_unknown = ''unknown''"

definition peer_text :: "(string \<times> nat) option \<Rightarrow> string" where
  "peer_text peer = (case peer of Some (a, port) \<Rightarrow> a @ '':'' @ nat_to_string port | None \<Rightarrow> s_peer_unknown)"

text \<open>The poll waits for at most the given milliseconds, as seconds and microseconds.\<close>

definition acceptTcp :: "Socket \<Rightarrow> nat \<Rightarrow> AcceptOs \<Rightarrow> Status + Socket \<times> string" where
  "acceptTcp listener pollMillis os =
     (if \<not> sock_valid listener then Inl (fail InvalidArgument msg_accept_closed)
      else case aos_select os (pollMillis div 1000, pollMillis mod 1000 * 1000) of
        SelectTimeout \<Rightarrow> Inl (fail Unavailable msg_accept_timeout)
      | SelectInterrupted \<Rightarrow> Inl (fail Unavailable msg_accept_interrupted)
      | SelectFailed e \<Rightarrow> Inl (socketFailure s_select e)
      | SelectReady \<Rightarrow>
          (case aos_accept os of
             Inl e \<Rightarrow> Inl (socketFailure s_accept e)
           | Inr owner \<Rightarrow> Inr (owner, peer_text (aos_peer os))))"

section \<open>Connecting\<close>

text \<open>A resolved address is usable when it is present, long enough and of the IPv4 family.\<close>

record Resolved =
  rslv_present :: bool
  rslv_long :: bool
  rslv_inet :: bool
  rslv_address :: string

record ConnectOs =
  cos_ready :: Status
  cos_literal :: "string option"
  cos_resolved :: "Resolved list option"
  cos_socket :: "string + Socket"
  cos_connect :: "string \<Rightarrow> string option"

definition msg_connect_host :: string where "msg_connect_host = ''connect host must not be empty''"
definition msg_connect_port :: string where "msg_connect_port = ''connect port must not be zero''"
definition msg_connect_resolve :: "string \<Rightarrow> string" where
  "msg_connect_resolve h = ''cannot resolve host: '' @ h"
definition msg_connect_family :: "string \<Rightarrow> string" where
  "msg_connect_family h = ''no IPv4 address for host: '' @ h"
definition s_connect :: string where "s_connect = ''connect''"

fun first_inet :: "Resolved list \<Rightarrow> string option" where
  "first_inet [] = None"
| "first_inet (e # es) =
     (if \<not> rslv_present e \<or> \<not> rslv_long e then first_inet es
      else if \<not> rslv_inet e then first_inet es
      else Some (rslv_address e))"

definition connect_address :: "string \<Rightarrow> ConnectOs \<Rightarrow> Status + string" where
  "connect_address host os =
     (case cos_literal os of
        Some a \<Rightarrow> Inr a
      | None \<Rightarrow>
          (case cos_resolved os of
             None \<Rightarrow> Inl (fail NotFound (msg_connect_resolve host))
           | Some es \<Rightarrow>
               if es = [] then Inl (fail NotFound (msg_connect_resolve host))
               else (case first_inet es of
                   None \<Rightarrow> Inl (fail NotFound (msg_connect_family host))
                 | Some a \<Rightarrow> Inr a)))"

definition connectTcp :: "string \<Rightarrow> nat \<Rightarrow> ConnectOs \<Rightarrow> Status + Socket" where
  "connectTcp host port os =
     (if host = [] then Inl (fail InvalidArgument msg_connect_host)
      else if port = 0 then Inl (fail InvalidArgument msg_connect_port)
      else if \<not> status_ok (cos_ready os) then Inl (cos_ready os)
      else case connect_address host os of
        Inl st \<Rightarrow> Inl st
      | Inr address \<Rightarrow>
          (case cos_socket os of
             Inl e \<Rightarrow> Inl (socketFailure s_socket e)
           | Inr owner \<Rightarrow>
               (case cos_connect os address of
                  Some e \<Rightarrow> Inl (socketFailure s_connect e)
                | None \<Rightarrow> Inr owner)))"

text \<open>A failed call reports a failure: no branch returns an ok status instead of a socket.\<close>

lemma endpoint_failures:
  "listenTcp options los = Inl st \<Longrightarrow> \<not> status_ok st"
  "acceptTcp listener millis aos = Inl st' \<Longrightarrow> \<not> status_ok st'"
  "connectTcp host port cos = Inl st'' \<Longrightarrow> \<not> status_ok st''"
  by (auto simp: listenTcp_def acceptTcp_def connectTcp_def connect_address_def socketFailure_def
      split: if_splits sum.splits option.splits SelectAnswer.splits)

lemma first_inet_eq:
  "first_inet es = map_option rslv_address (List.find (\<lambda>e. rslv_present e \<and> rslv_long e \<and> rslv_inet e) es)"
  by (induction es) auto

section \<open>Waiting for an instant\<close>

definition msg_wait_missed :: string where
  "msg_wait_missed = ''the synchronization instant was not reached before the give-up instant''"

text \<open>The loop over the readings of the wall clock; without another reading it has not returned.\<close>

fun waitUntil :: "int \<Rightarrow> int \<Rightarrow> int list \<Rightarrow> Status option" where
  "waitUntil startAt giveUpAt [] = None"
| "waitUntil startAt giveUpAt (now # readings) =
     (if now \<ge> startAt then Some okStatus
      else if now > giveUpAt then Some (fail Unavailable msg_wait_missed)
      else waitUntil startAt giveUpAt readings)"

lemma waitUntil_returns: "waitUntil a b readings \<noteq> None \<longleftrightarrow> (\<exists>t \<in> set readings. a \<le> t \<or> b < t)"
  by (induction readings) auto

lemma waitUntil_ok:
  "waitUntil a b readings = Some st \<Longrightarrow> status_ok st \<Longrightarrow> \<exists>t \<in> set readings. a \<le> t"
  by (induction readings) (auto split: if_splits)

end
