(* ===== verification/Client.thy ===== *)
theory Client
  imports Server Endpoint
begin

text \<open>
  The client half of \<open>protocol.cpp\<close>: \<open>call\<close> sends one frame, reads one frame and opens the envelope;
  the methods encode their arguments and decode the reply. A method returns the client, its status
  and, when the status is ok, the value it fills in. The allocation is the exception of the source:
  it decodes the reply whatever the status of the call.
\<close>

record SpectrumClient =
  cli_socket :: Socket
  cli_maxPayloadBytes :: nat
  cli_nextRequestId :: u64

definition msg_not_connected :: string where "msg_not_connected = ''the client is not connected''"
definition msg_reply_request :: string where
  "msg_reply_request = ''the reply carries a different request identity''"
definition msg_reply_op :: string where "msg_reply_op = ''the reply carries an unexpected operation''"
definition msg_reply_envelope :: string where "msg_reply_envelope = ''the reply envelope is malformed''"
definition msg_reply_malformed :: "OpCode \<Rightarrow> string" where
  "msg_reply_malformed op = ''the '' @ opCode_toToken op @ '' reply is malformed''"

definition client_close :: "SpectrumClient \<Rightarrow> SpectrumClient" where
  "client_close c = c\<lparr>cli_socket := socket_close (cli_socket c)\<rparr>"

text \<open>
  Connecting clamps the bound on payloads. The status of starting the socket library and the
  operating system's answers to opening the connection are arguments.
\<close>

definition client_connect ::
    "Status \<Rightarrow> ConnectOs \<Rightarrow> string \<Rightarrow> nat \<Rightarrow> nat \<Rightarrow> SpectrumClient \<Rightarrow> SpectrumClient \<times> Status" where
  "client_connect initialized os host port maxPayloadBytes c =
     (let bound = (if maxPayloadBytes = 0 then kMaxFramePayloadBytes else maxPayloadBytes);
          c1 = (client_close c)\<lparr>cli_maxPayloadBytes :=
            (if bound > kMaxFramePayloadBytes then kMaxFramePayloadBytes else bound)\<rparr>
      in if \<not> status_ok initialized then (c1, initialized)
         else (case connectTcp host port os of
             Inl st \<Rightarrow> (c1, st)
           | Inr k \<Rightarrow> (c1\<lparr>cli_socket := k\<rparr>, okStatus)))"

definition call :: "OpCode \<Rightarrow> u8 list \<Rightarrow> SpectrumClient \<Rightarrow> SpectrumClient \<times> Status \<times> u8 list" where
  "call op payload c =
     (if \<not> sock_valid (cli_socket c) then (c, fail IoError msg_not_connected, [])
      else
        let f = \<lparr>frame_op = op, frame_requestId = cli_nextRequestId c, frame_payload = payload\<rparr>;
            c1 = c\<lparr>cli_nextRequestId := cli_nextRequestId c + 1\<rparr>
        in (case writeFrame (cli_socket c) f (cli_maxPayloadBytes c) of (k1, written) \<Rightarrow>
              if \<not> status_ok written then (client_close (c1\<lparr>cli_socket := k1\<rparr>), written, [])
              else (case readFrame k1 (cli_maxPayloadBytes c) of
                  (k2, Inl st) \<Rightarrow> (client_close (c1\<lparr>cli_socket := k2\<rparr>), st, [])
                | (k2, Inr response) \<Rightarrow>
                    let c2 = c1\<lparr>cli_socket := k2\<rparr>
                    in if frame_requestId response \<noteq> frame_requestId f
                       then (client_close c2, fail Corruption msg_reply_request, [])
                       else if frame_op response \<noteq> op
                       then (client_close c2, fail Corruption msg_reply_op, [])
                       else (case decode_status (frame_payload response) of
                           None \<Rightarrow> (client_close c2, fail Corruption msg_reply_envelope, [])
                         | Some (status, reply) \<Rightarrow> (c2, status, reply)))))"

text \<open>A method whose reply carries a value.\<close>

definition decode_reply ::
    "OpCode \<Rightarrow> 'a Reader \<Rightarrow> SpectrumClient \<times> Status \<times> u8 list \<Rightarrow> SpectrumClient \<times> Status \<times> 'a option" where
  "decode_reply op rd result =
     (case result of (c, status, reply) \<Rightarrow>
        if \<not> status_ok status then (c, status, None)
        else (case decode_whole rd reply of
            None \<Rightarrow> (client_close c, fail Corruption (msg_reply_malformed op), None)
          | Some v \<Rightarrow> (c, okStatus, Some v)))"

text \<open>A method whose reply is the status alone.\<close>

definition status_only :: "SpectrumClient \<times> Status \<times> u8 list \<Rightarrow> SpectrumClient \<times> Status" where
  "status_only result = (case result of (c, status, _) \<Rightarrow> (c, status))"

definition client_ping :: "SpectrumClient \<Rightarrow> SpectrumClient \<times> Status" where
  "client_ping c = status_only (call OpPing [] c)"

definition client_describe :: "SpectrumClient \<Rightarrow> SpectrumClient \<times> Status \<times> ServerDescription option" where
  "client_describe c = decode_reply OpDescribe readDescription (call OpDescribe [] c)"

definition client_registerGrid :: "ChannelGrid \<Rightarrow> SpectrumClient \<Rightarrow> SpectrumClient \<times> Status" where
  "client_registerGrid v c = status_only (call OpRegisterGrid (payload_of (encode_grid v)) c)"

definition client_registerSpan :: "Span \<Rightarrow> SpectrumClient \<Rightarrow> SpectrumClient \<times> Status" where
  "client_registerSpan v c = status_only (call OpRegisterSpan (payload_of (encode_span v)) c)"

definition client_registerPort :: "OpticalPort \<Rightarrow> SpectrumClient \<Rightarrow> SpectrumClient \<times> Status" where
  "client_registerPort v c = status_only (call OpRegisterPort (payload_of (encode_port v)) c)"

definition client_registerDomain :: "SpectrumDomain \<Rightarrow> SpectrumClient \<Rightarrow> SpectrumClient \<times> Status" where
  "client_registerDomain v c = status_only (call OpRegisterDomain (payload_of (encode_domain v)) c)"

definition client_registerExclusionDomain :: "ExclusionDomain \<Rightarrow> SpectrumClient \<Rightarrow> SpectrumClient \<times> Status" where
  "client_registerExclusionDomain v c = status_only (call OpRegisterExclusionDomain (payload_of (encode_exclusion v)) c)"

definition client_publishCapability :: "SpectrumCapability \<Rightarrow> SpectrumClient \<Rightarrow> SpectrumClient \<times> Status" where
  "client_publishCapability v c = status_only (call OpPublishCapability (payload_of (encode_capability v)) c)"

definition client_enumerate :: "SpectrumRequest \<Rightarrow> SpectrumClient \<Rightarrow> SpectrumClient \<times> Status \<times> CandidateSet option" where
  "client_enumerate v c = decode_reply OpEnumerate decode_candidateSet (call OpEnumerate (payload_of (encode_request v)) c)"

definition client_explain :: "SpectrumRequest \<Rightarrow> SpectrumClient \<Rightarrow> SpectrumClient \<times> Status \<times> DecisionExplanation option" where
  "client_explain v c = decode_reply OpExplain decode_explanation (call OpExplain (payload_of (encode_request v)) c)"

definition client_allocate ::
    "SpectrumRequest \<Rightarrow> SpectrumClient \<Rightarrow> SpectrumClient \<times> Status \<times> AllocationDecision option" where
  "client_allocate v c =
     (case call OpAllocate (payload_of (encode_request v)) c of (c1, status, reply) \<Rightarrow>
        (case decode_whole decode_decision reply of
           None \<Rightarrow> (client_close c1, fail Corruption (msg_reply_malformed OpAllocate), None)
         | Some d \<Rightarrow> (c1, status, Some d)))"

definition client_renew :: "RenewArgs \<Rightarrow> SpectrumClient \<Rightarrow> SpectrumClient \<times> Status \<times> SpectrumReservation option" where
  "client_renew v c = decode_reply OpRenew decode_reservation (call OpRenew (payload_of (writeRenewArgs v)) c)"

definition client_activate :: "ActivateArgs \<Rightarrow> SpectrumClient \<Rightarrow> SpectrumClient \<times> Status \<times> SpectrumReservation option" where
  "client_activate v c = decode_reply OpActivate decode_reservation (call OpActivate (payload_of (writeActivateArgs v)) c)"

definition client_deactivate :: "ActivateArgs \<Rightarrow> SpectrumClient \<Rightarrow> SpectrumClient \<times> Status \<times> SpectrumReservation option" where
  "client_deactivate v c = decode_reply OpDeactivate decode_reservation (call OpDeactivate (payload_of (writeActivateArgs v)) c)"

definition client_release :: "ReleaseArgs \<Rightarrow> SpectrumClient \<Rightarrow> SpectrumClient \<times> Status \<times> SpectrumReservation option" where
  "client_release v c = decode_reply OpRelease decode_reservation (call OpRelease (payload_of (writeReleaseArgs v)) c)"

definition client_expireLeases :: "SweepArgs \<Rightarrow> SpectrumClient \<Rightarrow> SpectrumClient \<times> Status \<times> ReclaimReport option" where
  "client_expireLeases v c = decode_reply OpExpireLeases decode_reclaimReport (call OpExpireLeases (payload_of (writeSweepArgs v)) c)"

definition client_reclaimExpired :: "SweepArgs \<Rightarrow> SpectrumClient \<Rightarrow> SpectrumClient \<times> Status \<times> ReclaimReport option" where
  "client_reclaimExpired v c = decode_reply OpReclaimExpired decode_reclaimReport (call OpReclaimExpired (payload_of (writeSweepArgs v)) c)"

definition client_queryReservation :: "ReservationId \<Rightarrow> SpectrumClient \<Rightarrow> SpectrumClient \<times> Status \<times> SpectrumReservation option" where
  "client_queryReservation v c = decode_reply OpQueryReservation decode_reservation (call OpQueryReservation (payload_of (enc_id v)) c)"

definition client_queryReservations :: "SpectrumClient \<Rightarrow> SpectrumClient \<times> Status \<times> SpectrumReservation list option" where
  "client_queryReservations c = decode_reply OpQueryReservations (readList kMaxReservationListBytes decode_reservation) (call OpQueryReservations [] c)"

definition client_queryUsage ::
    "SpectrumDomainId \<Rightarrow> Instant \<Rightarrow> SpectrumClient \<Rightarrow> SpectrumClient \<times> Status \<times> SpectrumUsage option" where
  "client_queryUsage i now c =
     decode_reply OpQueryUsage decode_usage (call OpQueryUsage (payload_of (enc_seq [enc_id i, enc_i64 now])) c)"

definition client_queryUsageAll ::
    "Instant \<Rightarrow> SpectrumClient \<Rightarrow> SpectrumClient \<times> Status \<times> SpectrumUsage list option" where
  "client_queryUsageAll now c =
     decode_reply OpQueryUsageAll (readList kMaxUsageList decode_usage)
       (call OpQueryUsageAll (payload_of (enc_i64 now)) c)"

definition client_queryAudit :: "AuditArgs \<Rightarrow> SpectrumClient \<Rightarrow> SpectrumClient \<times> Status \<times> AuditRecord list option" where
  "client_queryAudit v c = decode_reply OpQueryAudit (readList kMaxAuditList decode_audit) (call OpQueryAudit (payload_of (writeAuditArgs v)) c)"

definition client_queryStats :: "SpectrumClient \<Rightarrow> SpectrumClient \<times> Status \<times> RuntimeStats option" where
  "client_queryStats c = decode_reply OpQueryStats readStats (call OpQueryStats [] c)"

definition client_save :: "SpectrumClient \<Rightarrow> SpectrumClient \<times> Status" where
  "client_save c = status_only (call OpSave [] c)"

definition client_requestShutdown :: "SpectrumClient \<Rightarrow> SpectrumClient \<times> Status" where
  "client_requestShutdown c = status_only (call OpShutdown [] c)"

end
