(* ===== verification/State_Image.thy ===== *)
theory State_Image
  imports Record_Codec Candidates
begin

text \<open>
  The loading half of \<open>runtime_persist.cpp\<close>: \<open>decodeState\<close> checks the framing of a state image
  (magics, lengths, versions, checksums), reads its records into fresh maps, and validates the
  references and the ownership rule before anything is handed out. The result is the report with
  its diagnostics, and the loaded state when every check passed.
\<close>

section \<open>Framing\<close>

definition kHeaderPrefixBytes :: nat where "kHeaderPrefixBytes = 36"
definition kTrailerMagicOffset :: nat where "kTrailerMagicOffset = 16"
definition kMaxRecords :: u64 where "kMaxRecords = 8388608"
definition kMaxRecordBytes :: nat where "kMaxRecordBytes = 67108864"

definition msg_too_short :: string where
  "msg_too_short = ''state container is shorter than its fixed framing''"
definition msg_bad_magic :: string where "msg_bad_magic = ''state container magic is wrong''"
definition msg_header_truncated :: string where "msg_header_truncated = ''state header is truncated''"
definition msg_header_trailing :: string where
  "msg_header_trailing = ''state header carries trailing fields''"
definition msg_header_size :: string where "msg_header_size = ''state header size field is wrong''"
definition msg_format_version :: "16 word \<Rightarrow> string" where
  "msg_format_version v = ''state format version '' @ nat_to_string (unat v)
     @ '' is not supported by this build (expected '' @ nat_to_string (unat kPersistenceFormatVersion) @ '')''"
definition msg_header_flags :: string where "msg_header_flags = ''state header declares unsupported flags''"
definition msg_header_checksum :: string where
  "msg_header_checksum = ''state header checksum does not match''"
definition msg_too_many_records :: string where
  "msg_too_many_records = ''state declares more records than are supported''"
definition msg_body_length :: string where
  "msg_body_length = ''state body length does not match the container length''"
definition msg_trailer_truncated :: string where "msg_trailer_truncated = ''state trailer is truncated''"
definition msg_trailer_flags :: string where
  "msg_trailer_flags = ''state trailer declares unsupported flags''"
definition msg_body_checksum :: string where "msg_body_checksum = ''state body checksum does not match''"
definition msg_trailer_length :: string where
  "msg_trailer_length = ''state trailer length does not match the file''"
definition msg_trailer_magic :: string where "msg_trailer_magic = ''state trailer magic is wrong''"

record Header =
  hdr_version :: "16 word"
  hdr_flags :: "16 word"
  hdr_headerBytes :: u32
  hdr_reserved :: u32
  hdr_bodyBytes :: u64
  hdr_recordCount :: u64

definition header_fields :: "Header Reader" where
  "header_fields r = do {
     (version, r) \<leftarrow> rd_u16 r;
     (flags, r) \<leftarrow> rd_u16 r;
     (headerBytes, r) \<leftarrow> rd_u32 r;
     (reserved, r) \<leftarrow> rd_u32 r;
     (bodyBytes, r) \<leftarrow> rd_u64 r;
     (recordCount, r) \<leftarrow> rd_u64 r;
     Some (\<lparr>hdr_version = version, hdr_flags = flags, hdr_headerBytes = headerBytes,
       hdr_reserved = reserved, hdr_bodyBytes = bodyBytes, hdr_recordCount = recordCount\<rparr>, r)}"

text \<open>The header, then the length of the body it declares and the number of records.\<close>

definition decode_header :: "u8 list \<Rightarrow> string + (nat \<times> u64)" where
  "decode_header bytes =
     (if length bytes < kHeaderBytes + kTrailerBytes then Inl msg_too_short
      else if take 8 bytes \<noteq> map char_byte kHeaderMagic then Inl msg_bad_magic
      else (case header_fields (take 28 (drop 8 bytes)) of
          None \<Rightarrow> Inl msg_header_truncated
        | Some (h, rest) \<Rightarrow>
            if rest \<noteq> [] then Inl msg_header_trailing
            else if hdr_headerBytes h \<noteq> word_of_nat kHeaderBytes then Inl msg_header_size
            else if hdr_version h \<noteq> kPersistenceFormatVersion then Inl (msg_format_version (hdr_version h))
            else if hdr_flags h \<noteq> 0 then Inl msg_header_flags
            else (case rd_u32 (take 4 (drop kHeaderPrefixBytes bytes)) of
                None \<Rightarrow> Inl msg_header_checksum
              | Some (stored, _) \<Rightarrow>
                  if crc32 (take kHeaderPrefixBytes bytes) \<noteq> stored then Inl msg_header_checksum
                  else if hdr_recordCount h > kMaxRecords then Inl msg_too_many_records
                  else if hdr_bodyBytes h \<noteq> word_of_nat (length bytes - kHeaderBytes - kTrailerBytes)
                  then Inl msg_body_length
                  else Inr (unat (hdr_bodyBytes h), hdr_recordCount h))))"

definition trailer_fields :: "(u32 \<times> u64 \<times> u32) Reader" where
  "trailer_fields r = do {
     (bodyCrc, r) \<leftarrow> rd_u32 r;
     (fileBytes, r) \<leftarrow> rd_u64 r;
     (reserved, r) \<leftarrow> rd_u32 r;
     Some ((bodyCrc, fileBytes, reserved), r)}"

definition check_trailer :: "u8 list \<Rightarrow> u8 list \<Rightarrow> u8 list \<Rightarrow> string option" where
  "check_trailer bytes body trailer =
     (case trailer_fields trailer of
        None \<Rightarrow> Some msg_trailer_truncated
      | Some ((bodyCrc, fileBytes, reserved), _) \<Rightarrow>
          if reserved \<noteq> 0 then Some msg_trailer_flags
          else if crc32 body \<noteq> bodyCrc then Some msg_body_checksum
          else if fileBytes \<noteq> word_of_nat (length bytes) then Some msg_trailer_length
          else if take 8 (drop kTrailerMagicOffset trailer) \<noteq> map char_byte kTrailerMagic
          then Some msg_trailer_magic
          else None)"

section \<open>Records\<close>

record Image =
  img_out :: RuntimeState
  img_metadata :: bool
  img_grids :: "(ChannelGridId, ChannelGrid) omap"
  img_spans :: "(SpanId, Span) omap"
  img_ports :: "(PortId, OpticalPort) omap"
  img_domains :: "(SpectrumDomainId, SpectrumDomain) omap"
  img_exclusionDomains :: "(ExclusionDomainId, ExclusionDomain) omap"
  img_capabilities :: "(SpectrumDomainId, SpectrumCapability) omap"
  img_reservations :: "(ReservationId, SpectrumReservation) omap"
  img_audits :: "AuditRecord list"

definition empty_image :: "RuntimeState \<Rightarrow> Image" where
  "empty_image out = \<lparr>img_out = out, img_metadata = False, img_grids = [], img_spans = [],
     img_ports = [], img_domains = [], img_exclusionDomains = [], img_capabilities = [],
     img_reservations = [], img_audits = []\<rparr>"

text \<open>\<open>emplace(key, value).second\<close>.\<close>

definition emplace_new :: "'k::linorder \<Rightarrow> 'v \<Rightarrow> ('k, 'v) omap \<Rightarrow> ('k, 'v) omap option" where
  "emplace_new k v m = (if map_of m k = None then Some (om_emplace k v m) else None)"

fun isDurableState :: "ReservationState \<Rightarrow> bool" where
  "isDurableState Reserved = True"
| "isDurableState Active = True"
| "isDurableState Expired = True"
| "isDurableState Released = True"
| "isDurableState Reclaimed = True"
| "isDurableState Superseded = True"
| "isDurableState RefusedState = True"
| "isDurableState Retired = True"
| "isDurableState _ = False"

text \<open>The metadata record. The controller identity is read and dropped.\<close>

record Metadata =
  md_version :: "16 word"
  md_reserved :: "16 word"
  md_fence :: ControllerFence
  md_runtimeGeneration :: RuntimeGeneration
  md_recoveryGeneration :: RecoveryGeneration
  md_nextReservationId :: ReservationId
  md_auditSequence :: AuditSequence
  md_lastActivityAt :: Instant
  md_controller :: ControllerId
  md_eligibility :: EligibilityAuthorityGeneration
  md_reservation :: ReservationAuthorityGeneration
  md_activation :: ActivationAuthorityGeneration
  md_release :: ReleaseAuthorityGeneration

definition decode_metadata :: "Metadata Reader" where
  "decode_metadata r = do {
     (version, r) \<leftarrow> rd_u16 r;
     (reserved, r) \<leftarrow> rd_u16 r;
     (epoch, r) \<leftarrow> rd_id r;
     (incarnation, r) \<leftarrow> rd_id r;
     (runtimeGeneration, r) \<leftarrow> rd_id r;
     (recoveryGeneration, r) \<leftarrow> rd_id r;
     (nextReservation, r) \<leftarrow> rd_id r;
     (auditSequence, r) \<leftarrow> rd_id r;
     (lastActivity, r) \<leftarrow> rd_i64 r;
     (controller, r) \<leftarrow> rd_id r;
     (eligibility, r) \<leftarrow> rd_id r;
     (reservation, r) \<leftarrow> rd_id r;
     (activation, r) \<leftarrow> rd_id r;
     (release, r) \<leftarrow> rd_id r;
     Some (\<lparr>md_version = version, md_reserved = reserved,
       md_fence = \<lparr>epoch = epoch, incarnation = incarnation\<rparr>,
       md_runtimeGeneration = runtimeGeneration, md_recoveryGeneration = recoveryGeneration,
       md_nextReservationId = nextReservation, md_auditSequence = auditSequence,
       md_lastActivityAt = lastActivity, md_controller = controller, md_eligibility = eligibility,
       md_reservation = reservation, md_activation = activation, md_release = release\<rparr>, r)}"

definition apply_metadata :: "Metadata \<Rightarrow> RuntimeState \<Rightarrow> RuntimeState" where
  "apply_metadata m s = s\<lparr>rs_fence := md_fence m, rs_runtimeGeneration := md_runtimeGeneration m,
     rs_recoveryGeneration := md_recoveryGeneration m, rs_nextReservationId := md_nextReservationId m,
     rs_auditSequence := md_auditSequence m, rs_lastActivityAt := md_lastActivityAt m,
     rs_authority := (rs_authority s)\<lparr>auth_eligibility := md_eligibility m,
       auth_reservation := md_reservation m, auth_activation := md_activation m,
       auth_release := md_release m\<rparr>\<rparr>"

text \<open>The switch over the record kind.\<close>

definition load_record :: "u8 \<Rightarrow> u8 list \<Rightarrow> Image \<Rightarrow> Image option" where
  "load_record kind payload m =
     (if kind = recordKind_code MetadataRecord then do {
        v \<leftarrow> decode_whole decode_metadata payload;
        if md_version v \<noteq> kPersistenceFormatVersion \<or> md_reserved v \<noteq> 0 then None
        else Some (m\<lparr>img_out := apply_metadata v (img_out m), img_metadata := True\<rparr>)}
      else if kind = recordKind_code GridRecord then do {
        v \<leftarrow> decode_whole decode_grid payload;
        if \<not> sv_valid (grid_id v) then None
        else do { l \<leftarrow> emplace_new (grid_id v) v (img_grids m); Some (m\<lparr>img_grids := l\<rparr>)}}
      else if kind = recordKind_code SpanRecord then do {
        v \<leftarrow> decode_whole decode_span payload;
        if \<not> sv_valid (span_id v) then None
        else do { l \<leftarrow> emplace_new (span_id v) v (img_spans m); Some (m\<lparr>img_spans := l\<rparr>)}}
      else if kind = recordKind_code PortRecord then do {
        v \<leftarrow> decode_whole decode_port payload;
        if \<not> sv_valid (port_id v) then None
        else do { l \<leftarrow> emplace_new (port_id v) v (img_ports m); Some (m\<lparr>img_ports := l\<rparr>)}}
      else if kind = recordKind_code DomainRecord then do {
        v \<leftarrow> decode_whole decode_domain payload;
        if \<not> sv_valid (dom_id v) then None
        else do { l \<leftarrow> emplace_new (dom_id v) v (img_domains m); Some (m\<lparr>img_domains := l\<rparr>)}}
      else if kind = recordKind_code ExclusionRecord then do {
        v \<leftarrow> decode_whole decode_exclusion payload;
        if \<not> sv_valid (exc_id v) then None
        else do { l \<leftarrow> emplace_new (exc_id v) v (img_exclusionDomains m);
                  Some (m\<lparr>img_exclusionDomains := l\<rparr>)}}
      else if kind = recordKind_code CapabilityRecord then do {
        v \<leftarrow> decode_whole decode_capability payload;
        if \<not> sv_valid (cap_domain v) then None
        else do { l \<leftarrow> emplace_new (cap_domain v) v (img_capabilities m);
                  Some (m\<lparr>img_capabilities := l\<rparr>)}}
      else if kind = recordKind_code ReservationRecord then do {
        v \<leftarrow> decode_whole decode_reservation payload;
        if \<not> sv_valid (res_id v) \<or> \<not> isDurableState (res_state v) then None
        else do { l \<leftarrow> emplace_new (res_id v) v (img_reservations m);
                  Some (m\<lparr>img_reservations := l\<rparr>)}}
      else if kind = recordKind_code AuditRecordKind then do {
        v \<leftarrow> decode_whole decode_audit payload;
        if \<not> sv_valid (aud_sequence v) \<or> aud_at v < 0 then None
        else Some (m\<lparr>img_audits := img_audits m @ [v]\<rparr>)}
      else None)"

definition msg_record_truncated :: string where
  "msg_record_truncated = ''state record header is truncated''"
definition msg_record_flags :: string where
  "msg_record_flags = ''state record declares unsupported flags''"
definition msg_record_length :: string where
  "msg_record_length = ''state record length is out of range''"
definition msg_record_payload :: string where
  "msg_record_payload = ''state record payload is truncated''"
definition msg_record_checksum :: string where
  "msg_record_checksum = ''state record checksum does not match''"
definition msg_record_malformed :: "u64 \<Rightarrow> u8 \<Rightarrow> string" where
  "msg_record_malformed n kind = ''state record '' @ u64_to_string n @ '' (kind ''
     @ nat_to_string (unat kind) @ '') is malformed or duplicated''"

definition record_header :: "(u8 \<times> u8 \<times> u32 \<times> u32) Reader" where
  "record_header r = do {
     (kind, r) \<leftarrow> rd_u8 r;
     (flags, r) \<leftarrow> rd_u8 r;
     (payloadBytes, r) \<leftarrow> rd_u32 r;
     (payloadCrc, r) \<leftarrow> rd_u32 r;
     Some ((kind, flags, payloadBytes, payloadCrc), r)}"

text \<open>One record: its kind and payload, and what follows it.\<close>

definition next_record :: "u8 list \<Rightarrow> string + (u8 \<times> u8 list \<times> u8 list)" where
  "next_record r =
     (case record_header r of
        None \<Rightarrow> Inl msg_record_truncated
      | Some ((kind, flags, payloadBytes, payloadCrc), r) \<Rightarrow>
          if flags \<noteq> 0 then Inl msg_record_flags
          else if unat payloadBytes > kMaxRecordBytes \<or> unat payloadBytes > length r
          then Inl msg_record_length
          else (case rd_bytes kMaxRecordBytes r of
              None \<Rightarrow> Inl msg_record_payload
            | Some (payload, r) \<Rightarrow>
                if crc32 payload \<noteq> payloadCrc then Inl msg_record_checksum
                else Inr (kind, payload, r)))"

text \<open>Reading never gives back more bytes than it was given, so the loop over the body ends.\<close>

lemma rd_u8_rest: "rd_u8 r = Some (b, r') \<Longrightarrow> length r' < length r"
  by (cases r) auto

lemma rd_le_rest: "rd_le k n v r = Some (w, r') \<Longrightarrow> length r' \<le> length r"
proof (induction n arbitrary: k v r)
  case (Suc n)
  then obtain b s where b: "rd_u8 r = Some (b, s)" "rd_le (k + 8) n (v OR push_bit k (ucast b)) s = Some (w, r')"
    by (auto simp: bind_eq_Some_conv)
  show ?case
    using rd_u8_rest [OF b(1)] Suc.IH [OF b(2)] by simp
qed simp

lemma next_record_rest:
  assumes "next_record r = Inr (kind, payload, r')"
  shows "length r' < length r"
proof -
  obtain h s where h: "record_header r = Some (h, s)" and p: "rd_bytes kMaxRecordBytes s = Some (payload, r')"
    using assms by (auto simp: next_record_def split: option.splits if_splits)
  have "length s < length r"
    using h by (auto simp: record_header_def rd_u32_def bind_eq_Some_conv dest!: rd_u8_rest rd_le_rest)
  moreover have "length r' \<le> length s"
    using p by (auto simp: rd_bytes_def rd_u32_def bind_eq_Some_conv split: if_splits dest!: rd_le_rest)
  ultimately show ?thesis
    by simp
qed

definition diagnose :: "string \<Rightarrow> RecoveryReport \<Rightarrow> RecoveryReport" where
  "diagnose e report = report\<lparr>rec_diagnostics := rec_diagnostics report @ [e]\<rparr>"

function load_records ::
    "u8 list \<Rightarrow> u64 \<Rightarrow> Image \<Rightarrow> RecoveryReport \<Rightarrow> RecoveryReport \<times> (u64 \<times> Image) option" where
  "load_records r seen m report =
     (if r = [] then (report, Some (seen, m))
      else (case next_record r of
          Inl e \<Rightarrow> (diagnose e report, None)
        | Inr (kind, payload, rest) \<Rightarrow>
            let seen1 = seen + 1;
                report1 = report\<lparr>rec_recordsRead := rec_recordsRead report + 1\<rparr>
            in (case load_record kind payload m of
                  None \<Rightarrow> (diagnose (msg_record_malformed seen1 kind) report1, None)
                | Some m1 \<Rightarrow> load_records rest seen1 m1
                    (report1\<lparr>rec_recordsAccepted := rec_recordsAccepted report1 + 1\<rparr>))))"
  by pat_completeness auto
termination
  by (relation "measure (\<lambda>(r, _). length r)") (auto dest: next_record_rest)

declare load_records.simps [simp del]

section \<open>Semantic validation\<close>

definition s_not_present_state :: string where
  "s_not_present_state = '' that is not present in the state''"
definition msg_domain_grid :: "SpectrumDomain \<Rightarrow> string" where
  "msg_domain_grid d = ''domain '' @ t_domain (dom_id d) @ '' references grid '' @ t_grid (dom_grid d)
     @ s_not_present_state"
definition msg_domain_grid_generation :: "SpectrumDomain \<Rightarrow> string" where
  "msg_domain_grid_generation d = ''domain '' @ t_domain (dom_id d)
     @ '' has a grid generation that does not match''"
definition msg_domain_span_absent :: "SpectrumDomain \<Rightarrow> string" where
  "msg_domain_span_absent d = ''domain '' @ t_domain (dom_id d)
     @ '' references a span that is not present in the state''"
definition msg_exclusion_dangling :: "ExclusionDomainId \<Rightarrow> string" where
  "msg_exclusion_dangling x = ''exclusion domain '' @ t_exclusion x
     @ '' references a domain that is not present in the state''"
definition msg_capability_domain :: string where
  "msg_capability_domain = ''capability references a domain that is not present''"
definition msg_capability_grid :: string where
  "msg_capability_grid = ''capability grid does not match its domain grid''"
definition msg_reservation_vectors :: "SpectrumReservation \<Rightarrow> string" where
  "msg_reservation_vectors q = ''reservation '' @ t_reservation (res_id q)
     @ '' has inconsistent domain vectors''"
definition msg_reservation_domain :: "SpectrumReservation \<Rightarrow> string" where
  "msg_reservation_domain q = ''reservation '' @ t_reservation (res_id q)
     @ '' references a domain that is not present''"
definition msg_reservation_generation :: "SpectrumReservation \<Rightarrow> string" where
  "msg_reservation_generation q = ''reservation '' @ t_reservation (res_id q)
     @ '' names a domain generation that does not match the state''"
definition msg_counter_regressed :: string where
  "msg_counter_regressed = ''reservation identity counter regressed''"
definition msg_conflicting :: string where
  "msg_conflicting = ''state contains two conflicting live reservations; refusing to load it''"
definition msg_audit_order :: string where
  "msg_audit_order = ''audit history is not strictly increasing''"
definition msg_no_metadata :: string where
  "msg_no_metadata = ''state container has no metadata record''"
definition msg_record_count :: string where
  "msg_record_count = ''state record count does not match the header''"

text \<open>The first diagnostic of a walk over a container.\<close>

fun first_fault :: "('a \<Rightarrow> string option) \<Rightarrow> 'a list \<Rightarrow> string option" where
  "first_fault check [] = None"
| "first_fault check (x # xs) = (case check x of Some e \<Rightarrow> Some e | None \<Rightarrow> first_fault check xs)"

definition domain_fault :: "Image \<Rightarrow> SpectrumDomain \<Rightarrow> string option" where
  "domain_fault m d =
     (case map_of (img_grids m) (dom_grid d) of
        None \<Rightarrow> Some (msg_domain_grid d)
      | Some g \<Rightarrow>
          if grid_generation g \<noteq> dom_gridGeneration d then Some (msg_domain_grid_generation d)
          else if sv_valid (dom_span d) \<and> map_of (img_spans m) (dom_span d) = None
          then Some (msg_domain_span_absent d) else None)"

definition exclusion_fault :: "Image \<Rightarrow> ExclusionDomainId \<times> ExclusionDomain \<Rightarrow> string option" where
  "exclusion_fault m e =
     (if list_ex (\<lambda>d. map_of (img_domains m) d = None) (exc_members (snd e))
      then Some (msg_exclusion_dangling (fst e)) else None)"

definition capability_fault :: "Image \<Rightarrow> SpectrumCapability \<Rightarrow> string option" where
  "capability_fault m c =
     (case map_of (img_domains m) (cap_domain c) of
        None \<Rightarrow> Some msg_capability_domain
      | Some d \<Rightarrow>
          if cap_grid c \<noteq> dom_grid d \<or> cap_gridGeneration c \<noteq> dom_gridGeneration d
          then Some msg_capability_grid else None)"

definition reservation_domain_fault ::
    "Image \<Rightarrow> SpectrumReservation \<Rightarrow> SpectrumDomainId \<times> SpectrumDomainGeneration \<Rightarrow> string option" where
  "reservation_domain_fault m q dg =
     (case map_of (img_domains m) (fst dg) of
        None \<Rightarrow> Some (msg_reservation_domain q)
      | Some d \<Rightarrow> if dom_generation d \<noteq> snd dg then Some (msg_reservation_generation q) else None)"

definition reservation_fault :: "Image \<Rightarrow> SpectrumReservation \<Rightarrow> string option" where
  "reservation_fault m q =
     (if length (res_domains q) \<noteq> length (res_domainGenerations q)
         \<or> length (res_domains q) \<noteq> length (res_perDomainSlots q)
      then Some (msg_reservation_vectors q)
      else (case first_fault (reservation_domain_fault m q) (zip (res_domains q) (res_domainGenerations q)) of
          Some e \<Rightarrow> Some e
        | None \<Rightarrow>
            if raw (res_id q) \<ge> raw (rs_nextReservationId (img_out m))
            then Some msg_counter_regressed else None))"

definition checkAt :: "Image \<Rightarrow> Instant" where
  "checkAt m = fold (\<lambda>q t. if res_updatedAt q > t then res_updatedAt q else t)
     (om_values (img_reservations m)) (rs_lastActivityAt (img_out m))"

fun conflicting_pair :: "SpectrumReservation list \<Rightarrow> bool" where
  "conflicting_pair [] = False"
| "conflicting_pair (q # qs) = (list_ex (reservationsConflict q) qs \<or> conflicting_pair qs)"

fun audit_fault :: "AuditSequence \<Rightarrow> AuditRecord list \<Rightarrow> string option" where
  "audit_fault previous [] = None"
| "audit_fault previous (a # as) =
     (if aud_sequence a \<le> previous then Some msg_audit_order else audit_fault (aud_sequence a) as)"

definition image_fault :: "Image \<Rightarrow> string option" where
  "image_fault m =
     (case first_fault (domain_fault m) (om_values (img_domains m)) of Some e \<Rightarrow> Some e | None \<Rightarrow>
      case first_fault (exclusion_fault m) (img_exclusionDomains m) of Some e \<Rightarrow> Some e | None \<Rightarrow>
      case first_fault (capability_fault m) (om_values (img_capabilities m)) of Some e \<Rightarrow> Some e | None \<Rightarrow>
      case first_fault (reservation_fault m) (om_values (img_reservations m)) of Some e \<Rightarrow> Some e | None \<Rightarrow>
        if conflicting_pair (filter (\<lambda>q. isLiveAt q (checkAt m)) (om_values (img_reservations m)))
        then Some msg_conflicting
        else audit_fault (StrongValue 0) (img_audits m))"

section \<open>The loaded state\<close>

definition last_sequence :: "AuditRecord list \<Rightarrow> AuditSequence" where
  "last_sequence as = (if as = [] then StrongValue 0 else aud_sequence (last as))"

definition install_image :: "Image \<Rightarrow> RuntimeState" where
  "install_image m =
     (let s = img_out m; top = last_sequence (img_audits m)
      in s\<lparr>rs_auditSequence := (if rs_auditSequence s < top then top else rs_auditSequence s),
          rs_grids := img_grids m, rs_spans := img_spans m, rs_ports := img_ports m,
          rs_domains := img_domains m, rs_exclusionDomains := img_exclusionDomains m,
          rs_capabilities := img_capabilities m, rs_reservations := img_reservations m,
          rs_audit := img_audits m\<rparr>)"

definition count_restored :: "RuntimeState \<Rightarrow> RecoveryReport \<Rightarrow> RecoveryReport" where
  "count_restored s report = report\<lparr>rec_gridsRestored := length (rs_grids s),
     rec_domainsRestored := length (rs_domains s),
     rec_exclusionDomainsRestored := length (rs_exclusionDomains s),
     rec_capabilitiesRestored := length (rs_capabilities s),
     rec_reservationsRestored := length (rs_reservations s),
     rec_auditsRestored := length (rs_audit s)\<rparr>"

definition decodeState ::
    "u8 list \<Rightarrow> RuntimeState \<Rightarrow> RecoveryReport \<Rightarrow> RecoveryReport \<times> RuntimeState option" where
  "decodeState bytes out report =
     (case decode_header bytes of
        Inl e \<Rightarrow> (diagnose e report, None)
      | Inr (bodyBytes, recordCount) \<Rightarrow>
          let body = take bodyBytes (drop kHeaderBytes bytes);
              trailer = drop (kHeaderBytes + bodyBytes) bytes
          in (case check_trailer bytes body trailer of
                Some e \<Rightarrow> (diagnose e report, None)
              | None \<Rightarrow>
                  (case load_records body 0 (empty_image out) report of
                     (report1, None) \<Rightarrow> (report1, None)
                   | (report1, Some (seen, m)) \<Rightarrow>
                       if \<not> img_metadata m then (diagnose msg_no_metadata report1, None)
                       else if seen \<noteq> recordCount then (diagnose msg_record_count report1, None)
                       else (case image_fault m of
                           Some e \<Rightarrow> (diagnose e report1, None)
                         | None \<Rightarrow> (count_restored (install_image m) report1, Some (install_image m))))))"

end
