(* ===== verification/Recovery.thy ===== *)
theory Recovery
  imports State_Image Persistence Ownership
begin

text \<open>
  \<open>SpectrumRuntime::recover\<close> and \<open>readStateFile\<close>: read the published image, decode it into a fresh
  state, and only when every check passed replace the runtime's registries, reservations, audit
  history and counters by the loaded ones, under the next controller epoch and a fresh incarnation.
  Activation evidence is not durable: what was Active comes back Reserved. The answers of the file
  system are the argument \<open>io\<close>, the incarnation \<open>nextIncarnation\<close> draws is the argument \<open>inc\<close>.
\<close>

record ReadIo =
  rio_exists :: bool
  rio_sizeError :: "string option"
  rio_open :: bool
  rio_gcount :: nat

definition msg_no_state :: "string \<Rightarrow> string" where
  "msg_no_state p = ''no durable state exists at '' @ p"
definition msg_cannot_size :: "string \<Rightarrow> string \<Rightarrow> string" where
  "msg_cannot_size p e = ''cannot size '' @ p @ '': '' @ e"
definition msg_state_too_big :: "string \<Rightarrow> nat \<Rightarrow> u64 \<Rightarrow> string" where
  "msg_state_too_big p n m = ''durable state at '' @ p @ '' is '' @ nat_to_string n
     @ '' bytes, above the configured bound of '' @ u64_to_string m"
definition msg_cannot_read :: "string \<Rightarrow> string" where
  "msg_cannot_read p = ''cannot open '' @ p @ '' for reading''"
definition msg_short_read :: "string \<Rightarrow> string" where "msg_short_read p = ''short read from '' @ p"

definition readStateFile ::
    "ReadIo \<Rightarrow> string \<Rightarrow> u64 \<Rightarrow> (string \<Rightarrow> u8 list option) \<Rightarrow> Status + u8 list" where
  "readStateFile io path maxBytes disk =
     (if path = [] then Inl (fail InvalidArgument msg_no_path)
      else (case (if rio_exists io then disk path else None) of
          None \<Rightarrow> Inl (fail NotFound (msg_no_state path))
        | Some content \<Rightarrow>
            (case rio_sizeError io of
               Some e \<Rightarrow> Inl (fail IoError (msg_cannot_size path e))
             | None \<Rightarrow>
                 let size = length content
                 in if size > unat maxBytes
                    then Inl (fail LimitExceeded (msg_state_too_big path size maxBytes))
                    else if \<not> rio_open io then Inl (fail IoError (msg_cannot_read path))
                    else if size > 0 \<and> rio_gcount io \<noteq> size
                    then Inl (fail IoError (msg_short_read path))
                    else Inr content)))"

definition default_recovery :: "string \<Rightarrow> ControllerFence \<Rightarrow> RecoveryReport" where
  "default_recovery source fence =
     \<lparr>rec_status = okStatus, rec_recovered = False, rec_source = source, rec_fence = fence,
      rec_runtimeGeneration = sv_none, rec_recoveryGeneration = sv_none, rec_recordsRead = 0,
      rec_recordsAccepted = 0, rec_recordsRejected = 0, rec_gridsRestored = 0,
      rec_domainsRestored = 0, rec_exclusionDomainsRestored = 0, rec_capabilitiesRestored = 0,
      rec_reservationsRestored = 0, rec_auditsRestored = 0, rec_demotedFromActive = 0,
      rec_diagnostics = []\<rparr>"

text \<open>The default-constructed state the image is decoded into.\<close>

definition fresh_state :: "RuntimeConfig \<Rightarrow> RuntimeState" where
  "fresh_state config =
     (let fence = \<lparr>epoch = sv_none, incarnation = sv_none\<rparr>
      in \<lparr>rs_config = config, rs_fence = fence, rs_runtimeGeneration = sv_none,
          rs_recoveryGeneration = sv_none,
          rs_authority = \<lparr>auth_eligibility = sv_none, auth_reservation = sv_none,
            auth_activation = sv_none, auth_release = sv_none, auth_fence = fence\<rparr>,
          rs_grids = [], rs_spans = [], rs_ports = [], rs_domains = [], rs_exclusionDomains = [],
          rs_domainExclusions = [], rs_capabilities = [], rs_reservations = [],
          rs_liveByDomain = [], rs_requestIndex = [], rs_audit = [], rs_auditSequence = sv_none,
          rs_nextReservationId = StrongValue 1, rs_lastActivityAt = 0, rs_stats = default_stats,
          rs_disk = Map.empty\<rparr>)"

definition msg_state_rejected :: string where "msg_state_rejected = ''state rejected''"
definition msg_durable_rejected :: string where "msg_durable_rejected = ''durable state was rejected''"
definition msg_epoch_exhausted :: string where
  "msg_epoch_exhausted = ''controller epoch space is exhausted''"
definition msg_demoted :: string where
  "msg_demoted = ''demoted from ACTIVE during recovery; fresh activation authority is ''
     @ ''required before the reservation is active again''"
definition msg_recovered :: "nat \<Rightarrow> string \<Rightarrow> ControllerFence \<Rightarrow> string" where
  "msg_recovered n p f = ''recovered '' @ nat_to_string n @ '' reservation(s) from '' @ p
     @ '' into epoch '' @ raw_to_string (epoch f) @ '' incarnation '' @ raw_to_string (incarnation f)"

definition last_diagnostic :: "string \<Rightarrow> RecoveryReport \<Rightarrow> string" where
  "last_diagnostic fallback report =
     (if rec_diagnostics report = [] then fallback else last (rec_diagnostics report))"

definition note_corruption :: "Instant \<Rightarrow> string \<Rightarrow> RuntimeState \<Rightarrow> RuntimeState" where
  "note_corruption sysNow m s =
     auditNote CorruptionDetected sysNow OutcomeUnknown m
       (s\<lparr>rs_stats := (rs_stats s)\<lparr>st_corruptionDetections := st_corruptionDetections (rs_stats s) + 1\<rparr>\<rparr>)"

text \<open>Taking over the loaded state under a new fence.\<close>

definition adopt :: "RuntimeState \<Rightarrow> u64 \<Rightarrow> u64 \<Rightarrow> RuntimeState \<Rightarrow> RuntimeState" where
  "adopt loaded nextEpoch inc s =
     (let fence = \<lparr>epoch = StrongValue nextEpoch, incarnation = StrongValue inc\<rparr>
      in s\<lparr>rs_grids := rs_grids loaded, rs_spans := rs_spans loaded, rs_ports := rs_ports loaded,
          rs_domains := rs_domains loaded, rs_exclusionDomains := rs_exclusionDomains loaded,
          rs_capabilities := rs_capabilities loaded, rs_reservations := rs_reservations loaded,
          rs_audit := rs_audit loaded, rs_auditSequence := rs_auditSequence loaded,
          rs_nextReservationId := rs_nextReservationId loaded,
          rs_lastActivityAt := rs_lastActivityAt loaded,
          rs_runtimeGeneration := StrongValue (raw (rs_runtimeGeneration loaded) + 1),
          rs_recoveryGeneration := StrongValue (raw (rs_recoveryGeneration loaded) + 1),
          rs_fence := fence, rs_authority := (rs_authority loaded)\<lparr>auth_fence := fence\<rparr>\<rparr>)"

definition demoted :: "Instant \<Rightarrow> SpectrumReservation \<Rightarrow> SpectrumReservation" where
  "demoted sysNow q = q\<lparr>res_state := Reserved, res_needsRevalidation := True,
     res_generation := bump (res_generation q), res_updatedAt := sysNow\<rparr>"

definition demote_entry :: "Instant \<Rightarrow> ReservationId \<Rightarrow> RuntimeState \<times> nat \<Rightarrow> RuntimeState \<times> nat" where
  "demote_entry sysNow i sn =
     (case map_of (rs_reservations (fst sn)) i of
        None \<Rightarrow> sn
      | Some q \<Rightarrow>
          if res_state q \<noteq> Active then sn
          else
            let q1 = demoted sysNow q
            in (appendAudit ReservationDeactivated (res_updatedAt q1) OutcomeUnknown (res_id q1)
                  (res_generation q1) (res_anchorDomain q1) (res_slots q1) (res_frequency q1) msg_demoted
                  ((fst sn)\<lparr>rs_reservations := om_set i q1 (rs_reservations (fst sn))\<rparr>), Suc (snd sn)))"

definition demote_active :: "Instant \<Rightarrow> RuntimeState \<Rightarrow> RuntimeState \<times> nat" where
  "demote_active sysNow s = fold (demote_entry sysNow) (om_keys (rs_reservations s)) (s, 0)"

definition recover :: "Instant \<Rightarrow> ReadIo \<Rightarrow> u64 \<Rightarrow> RuntimeState \<Rightarrow> RuntimeState \<times> RecoveryReport" where
  "recover sysNow io inc s =
     (let path = cfg_statePath (rs_config s);
          report = default_recovery path (rs_fence s)
      in if path = []
         then (s, report\<lparr>rec_status := fail InvalidArgument msg_runtime_no_path\<rparr>)
         else (case readStateFile io path (cfg_maxStateBytes (rs_config s)) (rs_disk s) of
             Inl st \<Rightarrow>
               if code st = NotFound
               then (s, diagnose (message st) (report\<lparr>rec_status := st\<rparr>))
               else (note_corruption sysNow (message st) s, report\<lparr>rec_status := st\<rparr>)
           | Inr bytes \<Rightarrow>
               (case decodeState bytes (fresh_state (rs_config s)) report of
                  (report1, None) \<Rightarrow>
                    (note_corruption sysNow (last_diagnostic msg_state_rejected report1) s,
                     report1\<lparr>rec_status := fail Corruption (last_diagnostic msg_durable_rejected report1)\<rparr>)
                | (report1, Some loaded) \<Rightarrow>
                    let nextEpoch = raw (epoch (rs_fence loaded)) + 1
                    in if nextEpoch > kMaxFenceValue
                       then (s, report1\<lparr>rec_status := fail LimitExceeded msg_epoch_exhausted\<rparr>)
                       else
                         let (s1, demotions) = demote_active sysNow (adopt loaded nextEpoch inc s);
                             s2 = auditNote RecoveryPerformed sysNow OutcomeUnknown
                               (msg_recovered (rec_reservationsRestored report1) path (rs_fence s1))
                               (rebuildIndices s1)
                         in (s2, report1\<lparr>rec_demotedFromActive := demotions, rec_recovered := True,
                               rec_status := okStatus, rec_fence := rs_fence s2,
                               rec_runtimeGeneration := rs_runtimeGeneration s2,
                               rec_recoveryGeneration := rs_recoveryGeneration s2\<rparr>))))"

end
