(* ===== verification/Cli.thy ===== *)
theory Cli
  imports Cli_Parse Client Recovery
begin

text \<open>
  The commands of \<open>wfcli.cpp\<close> over a session, which is a runtime in the same process or a client of a
  server, and \<open>main\<close>. A command returns the session and the exit code; what it prints is not
  modelled. The clock is read once: one invocation of the tool happens at one host instant.
\<close>

section \<open>Sessions\<close>

definition msg_no_candidate_list :: string where
  "msg_no_candidate_list = ''the server returned the enumeration status without an encoded candidate set''"
definition msg_recover_remote :: string where
  "msg_recover_remote = ''recover is not exposed by the transport protocol''"
definition msg_request_identities :: string where
  "msg_request_identities = ''the request identity space is exhausted''"

datatype Session = LocalSession RuntimeState | RemoteSession SpectrumClient

record SessionInfo =
  si_remote :: bool
  si_fence :: ControllerFence
  si_runtimeGeneration :: RuntimeGeneration
  si_recoveryGeneration :: RecoveryGeneration
  si_authority :: AuthorityState
  si_authorityKnown :: bool
  si_grids :: nat
  si_domains :: nat
  si_exclusionDomains :: nat
  si_capabilities :: nat
  si_reservations :: nat
  si_auditRecords :: nat
  si_lastAudit :: AuditSequence
  si_stats :: RuntimeStats

definition makeConfig :: "string \<Rightarrow> RuntimeConfig" where
  "makeConfig statePath = default_config\<lparr>cfg_statePath := statePath, cfg_durableCommits := (statePath \<noteq> [])\<rparr>"

definition reconstructedAuthority :: "ControllerFence \<Rightarrow> AuthorityState" where
  "reconstructedAuthority fence =
     \<lparr>auth_eligibility = StrongValue 1, auth_reservation = StrongValue 1,
      auth_activation = StrongValue 1, auth_release = StrongValue 1, auth_fence = fence\<rparr>"

definition local_info :: "RuntimeState \<Rightarrow> SessionInfo" where
  "local_info s =
     \<lparr>si_remote = False, si_fence = rs_fence s, si_runtimeGeneration = rs_runtimeGeneration s,
      si_recoveryGeneration = rs_recoveryGeneration s, si_authority = rs_authority s, si_authorityKnown = True,
      si_grids = length (grids s), si_domains = length (domains s),
      si_exclusionDomains = length (exclusionDomains s),
      si_capabilities = length (filter (\<lambda>d. capability_query s (dom_id d) \<noteq> None) (domains s)),
      si_reservations = length (reservations s), si_auditRecords = auditSize s,
      si_lastAudit = lastAuditSequence s, si_stats = stats s\<rparr>"

definition remote_info :: "ServerDescription \<Rightarrow> SessionInfo" where
  "remote_info d =
     \<lparr>si_remote = True, si_fence = srv_fence d, si_runtimeGeneration = srv_runtimeGeneration d,
      si_recoveryGeneration = srv_recoveryGeneration d, si_authority = reconstructedAuthority (srv_fence d),
      si_authorityKnown = False, si_grids = srv_grids d, si_domains = srv_domains d,
      si_exclusionDomains = srv_exclusionDomains d, si_capabilities = srv_capabilities d,
      si_reservations = srv_reservations d, si_auditRecords = srv_auditRecords d,
      si_lastAudit = srv_lastAudit d, si_stats = srv_stats d\<rparr>"

text \<open>A call whose result is a status, and one whose result carries a value.\<close>

definition on_session ::
    "(RuntimeState \<Rightarrow> RuntimeState \<times> Status) \<Rightarrow> (SpectrumClient \<Rightarrow> SpectrumClient \<times> Status)
      \<Rightarrow> Session \<Rightarrow> Session \<times> Status" where
  "on_session local remote session =
     (case session of
        LocalSession s \<Rightarrow> (case local s of (s1, status) \<Rightarrow> (LocalSession s1, status))
      | RemoteSession c \<Rightarrow> (case remote c of (c1, status) \<Rightarrow> (RemoteSession c1, status)))"

definition from_session ::
    "(RuntimeState \<Rightarrow> RuntimeState \<times> Status \<times> 'a) \<Rightarrow> (SpectrumClient \<Rightarrow> SpectrumClient \<times> Status \<times> 'a)
      \<Rightarrow> Session \<Rightarrow> Session \<times> Status \<times> 'a" where
  "from_session local remote session =
     (case session of
        LocalSession s \<Rightarrow> (case local s of (s1, status, v) \<Rightarrow> (LocalSession s1, status, v))
      | RemoteSession c \<Rightarrow> (case remote c of (c1, status, v) \<Rightarrow> (RemoteSession c1, status, v)))"

definition session_remote :: "Session \<Rightarrow> bool" where
  "session_remote session = (case session of LocalSession s \<Rightarrow> False | RemoteSession c \<Rightarrow> True)"

definition session_info :: "Session \<Rightarrow> Session \<times> Status \<times> SessionInfo option" where
  "session_info = from_session (\<lambda>s. (s, okStatus, Some (local_info s)))
     (\<lambda>c. case client_describe c of (c1, status, d) \<Rightarrow> (c1, status, map_option remote_info d))"

definition session_lookup :: "Session \<Rightarrow> SpectrumDomainId \<Rightarrow> SpectrumDomainGeneration option" where
  "session_lookup session i =
     (case session of
        LocalSession s \<Rightarrow> map_option dom_generation (domain_query s i)
      | RemoteSession c \<Rightarrow> None)"

definition local_reservation :: "ReservationId \<Rightarrow> RuntimeState \<Rightarrow> RuntimeState \<times> Status \<times> SpectrumReservation option" where
  "local_reservation i s =
     (case reservation_query s i of
        None \<Rightarrow> (s, fail NotFound (msg_unknown_reservation i), None)
      | Some q \<Rightarrow> (s, okStatus, Some q))"

definition local_operation ::
    "ReservationId \<Rightarrow> RuntimeState \<times> Status \<Rightarrow> RuntimeState \<times> Status \<times> SpectrumReservation option" where
  "local_operation i result =
     (case result of (s1, status) \<Rightarrow> if \<not> status_ok status then (s1, status, None) else local_reservation i s1)"

definition session_enumerate :: "SpectrumRequest \<Rightarrow> Session \<Rightarrow> Session \<times> Status \<times> CandidateSet option" where
  "session_enumerate r = from_session
     (\<lambda>s. let candidates = enumerateCandidates s r in (s, cset_status candidates, Some candidates))
     (\<lambda>c. case client_enumerate r c of (c1, status, v) \<Rightarrow>
        if code status \<noteq> Corruption then (c1, status, v) else (c1, fail Unavailable msg_no_candidate_list, v))"

definition session_explain :: "SpectrumRequest \<Rightarrow> Session \<Rightarrow> Session \<times> Status \<times> DecisionExplanation option" where
  "session_explain r = from_session (\<lambda>s. (s, okStatus, Some (explain r s))) (client_explain r)"

definition session_allocate ::
    "Host \<Rightarrow> SpectrumRequest \<Rightarrow> Session \<Rightarrow> Session \<times> Status \<times> AllocationDecision option" where
  "session_allocate h r = from_session
     (\<lambda>s. case allocate h r s of (s1, d) \<Rightarrow> (s1, dec_status d, Some d)) (client_allocate r)"

definition session_renew ::
    "Host \<Rightarrow> RenewArgs \<Rightarrow> Session \<Rightarrow> Session \<times> Status \<times> SpectrumReservation option" where
  "session_renew h a = from_session
     (\<lambda>s. local_operation (ren_id a) (renew h (ren_id a) (ren_generation a) (ren_extension a) (ren_authority a)
        (ren_now a) (ren_maxRenewals a) s)) (client_renew a)"

definition session_activate ::
    "Host \<Rightarrow> ActivateArgs \<Rightarrow> Session \<Rightarrow> Session \<times> Status \<times> SpectrumReservation option" where
  "session_activate h a = from_session
     (\<lambda>s. local_operation (act_id a) (activate h (act_id a) (act_generation a) (act_authority a) (act_now a) s))
     (client_activate a)"

definition session_deactivate ::
    "Host \<Rightarrow> ActivateArgs \<Rightarrow> Session \<Rightarrow> Session \<times> Status \<times> SpectrumReservation option" where
  "session_deactivate h a = from_session
     (\<lambda>s. local_operation (act_id a) (deactivate h (act_id a) (act_generation a) (act_authority a) (act_now a) s))
     (client_deactivate a)"

definition session_release ::
    "Host \<Rightarrow> ReleaseArgs \<Rightarrow> Session \<Rightarrow> Session \<times> Status \<times> SpectrumReservation option" where
  "session_release h a = from_session
     (\<lambda>s. local_operation (rel_id a) (release h (rel_id a) (rel_generation a) (rel_authority a) (rel_now a) s))
     (client_release a)"

definition session_sweep :: "Host \<Rightarrow> bool \<Rightarrow> SweepArgs \<Rightarrow> Session \<Rightarrow> Session \<times> Status \<times> ReclaimReport option" where
  "session_sweep h reclaiming a = from_session
     (\<lambda>s. case (if reclaiming then reclaimExpired h (swp_now a) s else expireLeases h (swp_now a) s) of (s1, report) \<Rightarrow>
        (s1, rep_status report, Some report))
     (if reclaiming then client_reclaimExpired a else client_expireLeases a)"

definition session_reservations :: "Session \<Rightarrow> Session \<times> Status \<times> SpectrumReservation list option" where
  "session_reservations = from_session (\<lambda>s. (s, okStatus, Some (reservations s))) client_queryReservations"

definition session_reservation :: "ReservationId \<Rightarrow> Session \<Rightarrow> Session \<times> Status \<times> SpectrumReservation option" where
  "session_reservation i = from_session (local_reservation i) (client_queryReservation i)"

definition session_usageAll :: "Instant \<Rightarrow> Session \<Rightarrow> Session \<times> Status \<times> SpectrumUsage list option" where
  "session_usageAll now = from_session (\<lambda>s. (s, okStatus, Some (usageAll s now))) (client_queryUsageAll now)"

definition session_audit :: "AuditSequence \<Rightarrow> nat \<Rightarrow> Session \<Rightarrow> Session \<times> Status \<times> AuditRecord list option" where
  "session_audit since limit = from_session (\<lambda>s. (s, okStatus, Some (audit s since limit)))
     (client_queryAudit \<lparr>qry_since = since, qry_limit = limit\<rparr>)"

definition session_save :: "Host \<Rightarrow> Session \<Rightarrow> Session \<times> Status" where
  "session_save h = on_session (save h) client_save"

definition session_reset :: "Host \<Rightarrow> Session \<Rightarrow> Session \<times> Status" where
  "session_reset h = on_session (reset (host_now h)) (\<lambda>c. status_only (call OpReset [] c))"

definition session_recover :: "Instant \<Rightarrow> ReadIo \<Rightarrow> u64 \<Rightarrow> Session \<Rightarrow> Session \<times> Status \<times> RecoveryReport option" where
  "session_recover sysNow io inc = from_session
     (\<lambda>s. case recover sysNow io inc s of (s1, report) \<Rightarrow> (s1, rec_status report, Some report))
     (\<lambda>c. (c, fail NotPermitted msg_recover_remote, None))"

section \<open>Requests\<close>

definition nextRequestId :: "Session \<Rightarrow> Session \<times> (Status + AllocationRequestId)" where
  "nextRequestId session =
     (case session_reservations session of
        (session1, status, existing) \<Rightarrow>
          if \<not> status_ok status then (session1, Inl status)
          else
            let maximum = fold (\<lambda>q m. max m (raw (res_requestId q))) (case existing of Some qs \<Rightarrow> qs | None \<Rightarrow> []) 0
            in if maximum = 0xFFFFFFFFFFFFFFFF then (session1, Inl (fail LimitExceeded msg_request_identities))
               else (session1, Inr (StrongValue (maximum + 1))))"

definition default_info :: SessionInfo where
  "default_info = remote_info (\<lparr>srv_fence = \<lparr>epoch = sv_none, incarnation = sv_none\<rparr>,
     srv_runtimeGeneration = sv_none, srv_recoveryGeneration = sv_none, srv_grids = 0, srv_domains = 0,
     srv_exclusionDomains = 0, srv_capabilities = 0, srv_reservations = 0, srv_auditRecords = 0,
     srv_lastAudit = sv_none, srv_stats = default_stats\<rparr>)"

definition request_of :: "RequestSpec \<Rightarrow> AllocationRequestId \<Rightarrow> SessionInfo \<Rightarrow> Instant \<Rightarrow> SpectrumRequest" where
  "request_of spec i info at =
     \<lparr>req_requestId = i, req_requestGeneration = StrongValue 1, req_owner = StrongValue 1,
      req_ownerGeneration = StrongValue 1, req_domains = rqs_domains spec,
      req_domainGenerations = rqs_domainGenerations spec, req_grid = rqs_grid spec,
      req_gridGeneration = rqs_gridGeneration spec, req_slots = rqs_slots spec,
      req_contiguity = rqs_contiguity spec, req_continuity = rqs_continuity spec,
      req_frequencyWindows = [], req_guardBandMhz = 0, req_leaseDuration = rqs_lease spec,
      req_maxRenewals = 0, req_requestedAt = at, req_notBefore = 0, req_policyGeneration = sv_none,
      req_priorityGeneration = sv_none,
      req_constraints = \<lparr>con_excludedSlots = [], con_excludedFrequencies = [], con_mustNotConflictWith = []\<rparr>,
      req_eligibilityAuthority = \<lparr>tok_generation = auth_eligibility (si_authority info), tok_fence = si_fence info\<rparr>,
      req_reservationAuthority = \<lparr>tok_generation = auth_reservation (si_authority info), tok_fence = si_fence info\<rparr>\<rparr>"

definition buildRequest :: "RequestSpec \<Rightarrow> Instant \<Rightarrow> Session \<Rightarrow> Session \<times> (Status + SpectrumRequest)" where
  "buildRequest spec at session =
     (case session_info session of
        (session1, status, info) \<Rightarrow>
          if \<not> status_ok status then (session1, Inl status)
          else (case nextRequestId session1 of
              (session2, Inl st) \<Rightarrow> (session2, Inl st)
            | (session2, Inr i) \<Rightarrow>
                (session2, Inr (request_of spec i (case info of Some v \<Rightarrow> v | None \<Rightarrow> default_info) at))))"

section \<open>Commands\<close>

datatype Exit = ExitOk | ExitRefused | ExitUsage

definition commandInstant :: "Host \<Rightarrow> Command \<Rightarrow> Instant" where
  "commandInstant h c = (case cmd_at c of Some at \<Rightarrow> at | None \<Rightarrow> host_now h)"

definition exit_of :: "Session \<times> Status \<Rightarrow> Session \<times> Exit" where
  "exit_of result = (case result of (session, status) \<Rightarrow> (session, if status_ok status then ExitOk else ExitRefused))"

definition exit_of_value :: "Session \<times> Status \<times> 'a \<Rightarrow> Session \<times> Exit" where
  "exit_of_value result = (case result of (session, status, v) \<Rightarrow> exit_of (session, status))"

text \<open>A command with one specification, and the calls that follow when it is usable.\<close>

definition with_spec ::
    "(string \<Rightarrow> 'a option) \<Rightarrow> Command \<Rightarrow> Session \<Rightarrow> ('a \<Rightarrow> Session \<times> Exit) \<Rightarrow> Session \<times> Exit" where
  "with_spec parse c session k =
     (case cmd_args c of
        [spec] \<Rightarrow> (case parse spec of None \<Rightarrow> (session, ExitUsage) | Some v \<Rightarrow> k v)
      | _ \<Rightarrow> (session, ExitUsage))"

definition with_info :: "Session \<Rightarrow> (Session \<Rightarrow> SessionInfo \<Rightarrow> Session \<times> Exit) \<Rightarrow> Session \<times> Exit" where
  "with_info session k =
     (case session_info session of
        (session1, status, info) \<Rightarrow>
          if \<not> status_ok status then (session1, ExitRefused)
          else k session1 (case info of Some v \<Rightarrow> v | None \<Rightarrow> default_info))"

definition commandRegisterGrid :: "Host \<Rightarrow> Session \<Rightarrow> Command \<Rightarrow> Session \<times> Exit" where
  "commandRegisterGrid h session c = with_spec grid_spec c session
     (\<lambda>g. exit_of (on_session (registerGrid (host_now h) g) (client_registerGrid g) session))"

definition commandRegisterDomain :: "Host \<Rightarrow> Session \<Rightarrow> Command \<Rightarrow> Session \<times> Exit" where
  "commandRegisterDomain h session c = with_spec domain_spec c session
     (\<lambda>d. exit_of (on_session (registerDomain (host_now h) d) (client_registerDomain d) session))"

definition commandRegisterExclusion :: "Host \<Rightarrow> Session \<Rightarrow> Command \<Rightarrow> Session \<times> Exit" where
  "commandRegisterExclusion h session c = with_spec exclusion_spec c session
     (\<lambda>e. exit_of (on_session (registerExclusionDomain (host_now h) e) (client_registerExclusionDomain e) session))"

definition commandPublishCapability :: "Host \<Rightarrow> Session \<Rightarrow> Command \<Rightarrow> Session \<times> Exit" where
  "commandPublishCapability h session c = with_spec
     (\<lambda>spec. if length (split_fields CHR '':'' spec) = 9 then Some spec else None) c session
     (\<lambda>spec. with_info session (\<lambda>session1 info.
        let at = commandInstant h c
        in if at \<le> 0 then (session1, ExitUsage)
           else (case capability_spec spec (si_fence info) at of
               None \<Rightarrow> (session1, ExitUsage)
             | Some v \<Rightarrow> exit_of (on_session (publishCapability (host_now h) v) (client_publishCapability v) session1))))"

text \<open>The three commands on a request specification.\<close>

definition with_request ::
    "Host \<Rightarrow> Session \<Rightarrow> Command \<Rightarrow> (Session \<Rightarrow> SpectrumRequest \<Rightarrow> Session \<times> Exit) \<Rightarrow> Session \<times> Exit" where
  "with_request h session c k = with_spec (parseRequestSpec (session_lookup session)) c session
     (\<lambda>spec. let at = commandInstant h c
        in if at \<le> 0 then (session, ExitUsage)
           else (case buildRequest spec at session of
               (session1, Inl st) \<Rightarrow> (session1, ExitRefused)
             | (session1, Inr r) \<Rightarrow> k session1 r))"

definition commandEnumerate :: "Host \<Rightarrow> Session \<Rightarrow> Command \<Rightarrow> Session \<times> Exit" where
  "commandEnumerate h session c = with_request h session c (\<lambda>session1 r. exit_of_value (session_enumerate r session1))"

definition commandExplain :: "Host \<Rightarrow> Session \<Rightarrow> Command \<Rightarrow> Session \<times> Exit" where
  "commandExplain h session c = with_request h session c
     (\<lambda>session1 r. case session_explain r session1 of (session2, status, explanation) \<Rightarrow>
        (session2, if \<not> status_ok status then ExitRefused
          else case explanation of
              Some x \<Rightarrow> if exp_outcome x = Allocated then ExitOk else ExitRefused
            | None \<Rightarrow> ExitRefused))"

definition commandAllocate :: "Host \<Rightarrow> Session \<Rightarrow> Command \<Rightarrow> Session \<times> Exit" where
  "commandAllocate h session c = with_request h session c
     (\<lambda>session1 r. case session_allocate h r session1 of (session2, status, decision) \<Rightarrow>
        (case decision of
           Some d \<Rightarrow>
             if \<not> dec_allocated d then (session2, ExitRefused)
             else (fst (session_reservation (dec_reservation d) session2), ExitOk)
         | None \<Rightarrow> (session2, ExitRefused)))"

definition commandRenew :: "Host \<Rightarrow> Session \<Rightarrow> Command \<Rightarrow> Session \<times> Exit" where
  "commandRenew h session c = with_spec renewal_spec c session
     (\<lambda>(i, g, extension). with_info session (\<lambda>session1 info.
        exit_of_value (session_renew h \<lparr>ren_id = i, ren_generation = g, ren_extension = extension,
          ren_authority = \<lparr>tok_generation = auth_reservation (si_authority info), tok_fence = si_fence info\<rparr>,
          ren_now = commandInstant h c, ren_maxRenewals = 0\<rparr> session1)))"

definition commandActivation :: "Host \<Rightarrow> bool \<Rightarrow> Session \<Rightarrow> Command \<Rightarrow> Session \<times> Exit" where
  "commandActivation h activating session c = with_spec reservation_spec c session
     (\<lambda>(i, g). with_info session (\<lambda>session1 info.
        let a = \<lparr>act_id = i, act_generation = g,
              act_authority = \<lparr>tok_generation = auth_activation (si_authority info), tok_fence = si_fence info\<rparr>,
              act_now = commandInstant h c\<rparr>
        in exit_of_value (if activating then session_activate h a session1 else session_deactivate h a session1)))"

definition commandRelease :: "Host \<Rightarrow> Session \<Rightarrow> Command \<Rightarrow> Session \<times> Exit" where
  "commandRelease h session c = with_spec reservation_spec c session
     (\<lambda>(i, g). with_info session (\<lambda>session1 info.
        exit_of_value (session_release h \<lparr>rel_id = i, rel_generation = g,
          rel_authority = \<lparr>tok_generation = auth_release (si_authority info), tok_fence = si_fence info\<rparr>,
          rel_now = commandInstant h c\<rparr> session1)))"

definition sweepInstant :: "Host \<Rightarrow> Command \<Rightarrow> Instant option" where
  "sweepInstant h c =
     (case cmd_at c of
        Some at \<Rightarrow> Some at
      | None \<Rightarrow>
          (case cmd_args c of
             [] \<Rightarrow> Some (host_now h)
           | [token] \<Rightarrow> parseInstant token
           | _ \<Rightarrow> None))"

definition commandSweep :: "Host \<Rightarrow> bool \<Rightarrow> Session \<Rightarrow> Command \<Rightarrow> Session \<times> Exit" where
  "commandSweep h reclaiming session c =
     (case sweepInstant h c of
        None \<Rightarrow> (session, ExitUsage)
      | Some now \<Rightarrow> exit_of_value (session_sweep h reclaiming \<lparr>swp_now = now\<rparr> session))"

definition commandShow :: "Host \<Rightarrow> Session \<Rightarrow> Command \<Rightarrow> Session \<times> Exit" where
  "commandShow h session c =
     (case cmd_args c of
        [subject] \<Rightarrow>
          if subject = ''reservations'' then exit_of_value (session_reservations session)
          else if subject = ''usage'' then exit_of_value (session_usageAll (commandInstant h c) session)
          else if subject = ''audit''
          then with_info session (\<lambda>session1 info.
            let newest = raw (si_lastAudit info); since = (if newest > 256 then newest - 256 else 0)
            in exit_of_value (session_audit (StrongValue since) 0 session1))
          else if subject = ''stats'' \<or> subject = ''fence'' then with_info session (\<lambda>session1 info. (session1, ExitOk))
          else (session, ExitUsage)
      | _ \<Rightarrow> (session, ExitUsage))"

definition without_args :: "Command \<Rightarrow> Session \<Rightarrow> Session \<times> Exit \<Rightarrow> Session \<times> Exit" where
  "without_args c session k = (if cmd_args c \<noteq> [] then (session, ExitUsage) else k)"

definition commandSave :: "Host \<Rightarrow> Session \<Rightarrow> Command \<Rightarrow> Session \<times> Exit" where
  "commandSave h session c = without_args c session (exit_of (session_save h session))"

definition commandRecover :: "Host \<Rightarrow> ReadIo \<Rightarrow> u64 \<Rightarrow> Session \<Rightarrow> Command \<Rightarrow> Session \<times> Exit" where
  "commandRecover h io inc session c = without_args c session
     (if session_remote session then (session, ExitUsage)
      else exit_of_value (session_recover (host_now h) io inc session))"

definition commandReset :: "Host \<Rightarrow> Session \<Rightarrow> Command \<Rightarrow> Session \<times> Exit" where
  "commandReset h session c = without_args c session (exit_of (session_reset h session))"

definition commandInit :: "Session \<Rightarrow> Command \<Rightarrow> Session \<times> Exit" where
  "commandInit session c = without_args c session (with_info session (\<lambda>session1 info. (session1, ExitOk)))"

section \<open>Self test\<close>

definition selfTestRequest :: "RuntimeState \<Rightarrow> AllocationRequestId \<Rightarrow> nat \<Rightarrow> Instant \<Rightarrow> Duration \<Rightarrow> SpectrumRequest" where
  "selfTestRequest s i slots at lease =
     \<lparr>req_requestId = i, req_requestGeneration = StrongValue 1, req_owner = StrongValue 1,
      req_ownerGeneration = StrongValue 1, req_domains = [StrongValue 900],
      req_domainGenerations = [StrongValue 1], req_grid = StrongValue 900, req_gridGeneration = StrongValue 1,
      req_slots = slots, req_contiguity = ContiguityRequired, req_continuity = ContinuityRequired,
      req_frequencyWindows = [], req_guardBandMhz = 0, req_leaseDuration = lease, req_maxRenewals = 0,
      req_requestedAt = at, req_notBefore = 0, req_policyGeneration = sv_none, req_priorityGeneration = sv_none,
      req_constraints = \<lparr>con_excludedSlots = [], con_excludedFrequencies = [], con_mustNotConflictWith = []\<rparr>,
      req_eligibilityAuthority =
        \<lparr>tok_generation = auth_eligibility (rs_authority s), tok_fence = auth_fence (rs_authority s)\<rparr>,
      req_reservationAuthority =
        \<lparr>tok_generation = auth_reservation (rs_authority s), tok_fence = auth_fence (rs_authority s)\<rparr>\<rparr>"

definition self_grid :: ChannelGrid where
  "self_grid = \<lparr>grid_id = StrongValue 900, grid_generation = StrongValue 1, grid_kind = Flex,
     anchorMhz = 191400000, slotWidthMhz = 50000, slotCount = 8, minSlotsPerChannel = 1,
     maxSlotsPerChannel = 4, grid_label = []\<rparr>"

definition self_domain :: SpectrumDomain where
  "self_domain = \<lparr>dom_id = StrongValue 900, dom_generation = StrongValue 1, dom_klass = AbstractDomain,
     dom_grid = StrongValue 900, dom_gridGeneration = StrongValue 1, dom_span = sv_none,
     dom_spanGeneration = sv_none, dom_portA = sv_none, dom_portAGeneration = sv_none, dom_portB = sv_none,
     dom_portBGeneration = sv_none, dom_requiresContiguity = True, dom_label = []\<rparr>"

definition self_capability :: "ControllerFence \<Rightarrow> Instant \<Rightarrow> SpectrumCapability" where
  "self_capability fence at =
     \<lparr>cap_domain = StrongValue 900, cap_domainGeneration = StrongValue 1, cap_grid = StrongValue 900,
      cap_gridGeneration = StrongValue 1, cap_support = Supported, cap_firstAllocatableSlot = 0,
      cap_allocatableSlots = 8, cap_minTunableMhz = 191400000, cap_maxTunableMhz = grid_endMhz self_grid,
      cap_contiguityEnforced = True, cap_conversionSupported = False,
      cap_conversionEvidence = default_evidence,
      cap_presenceEvidence = \<lparr>evidence_present = True, evidence_digest = 1,
        evidence_source = ''wfcli selftest''\<rparr>,
      cap_generation = StrongValue 1, cap_publisher = StrongValue 1, cap_fence = fence,
      cap_publishedAt = at, cap_detail = []\<rparr>"

definition self_instant :: Instant where "self_instant = 1700000000000000000"
definition self_lease :: Duration where "self_lease = 10000000000"

text \<open>The seven checks, in order, over the states in between.\<close>

definition self_registered :: "Host \<Rightarrow> u64 \<Rightarrow> RuntimeState \<times> bool list" where
  "self_registered h inc =
     (let s0 = SpectrumRuntime default_config inc (host_now h) (\<lambda>_. None);
          (s1, gridStatus) = registerGrid (host_now h) self_grid s0;
          (s2, domainStatus) = registerDomain (host_now h) self_domain s1;
          (s3, capabilityStatus) = publishCapability (host_now h) (self_capability (rs_fence s2) self_instant) s2
      in (s3, [status_ok gridStatus, status_ok domainStatus, status_ok capabilityStatus]))"

definition self_contended :: "Host \<Rightarrow> RuntimeState \<Rightarrow> RuntimeState \<times> bool list" where
  "self_contended h s3 =
     (let (s4, first) = allocate h (selfTestRequest s3 (StrongValue 1) 1 self_instant self_lease) s3;
          conflicting = (selfTestRequest s4 (StrongValue 2) 1 self_instant self_lease)
            \<lparr>req_frequencyWindows := [cand_frequency (exp_selected (dec_explanation first))]\<rparr>;
          (s5, refused) = allocate h conflicting s4
      in (s5, [dec_allocated first \<and> dec_reservation first = StrongValue 1,
            \<not> dec_allocated refused \<and> dec_outcome refused = RefusedConflict
            \<and> exp_conflicts (dec_explanation refused) = [StrongValue 1]]))"

definition self_settled :: "Host \<Rightarrow> RuntimeState \<Rightarrow> bool list" where
  "self_settled h s5 =
     (let (s6, released) = release h (StrongValue 1) (StrongValue 1)
            \<lparr>tok_generation = auth_release (rs_authority s5), tok_fence = auth_fence (rs_authority s5)\<rparr> self_instant s5;
          (s7, third) = allocate h (selfTestRequest s6 (StrongValue 3) 2 self_instant self_lease) s6;
          later_instant = self_instant + 11000000000;
          (s8, report) = reclaimExpired h later_instant s7
      in [status_ok released \<and> map_option res_state (reservation_query s6 (StrongValue 1)) = Some Released,
          dec_allocated third,
          rep_reclaimed report = [dec_reservation third]
          \<and> (case usage s8 (StrongValue 900) later_instant of
               None \<Rightarrow> False
             | Some u \<Rightarrow> use_freeSlots u = 8 \<and> use_liveSlots u = 0)])"

definition self_test :: "Host \<Rightarrow> u64 \<Rightarrow> bool list" where
  "self_test h inc =
     (case self_registered h inc of (s3, registered) \<Rightarrow>
        case self_contended h s3 of (s5, contended) \<Rightarrow> registered @ contended @ self_settled h s5)"

definition commandSelfTest :: "Host \<Rightarrow> u64 \<Rightarrow> Session \<Rightarrow> Command \<Rightarrow> Session \<times> Exit" where
  "commandSelfTest h inc session c = without_args c session
     (if session_remote session then (session, ExitUsage)
      else (session, if list_all (\<lambda>b. b) (self_test h inc) then ExitOk else ExitRefused))"

section \<open>The program\<close>

definition isMutatingCommand :: "string \<Rightarrow> bool" where
  "isMutatingCommand name \<longleftrightarrow> name \<in> set [''register-grid'', ''register-domain'', ''register-exclusion'',
     ''publish-capability'', ''renew'', ''activate'', ''deactivate'', ''release'', ''expire'', ''reclaim'']"

text \<open>
  What the process of one invocation finds: the host for the command and for the final save, the
  answers to reading the image, the generated incarnations, the files, and the answers to
  connecting.
\<close>

record Process =
  prc_command :: Host
  prc_persist :: Host
  prc_read :: ReadIo
  prc_incarnation :: u64
  prc_recoveryIncarnation :: u64
  prc_selfIncarnation :: u64
  prc_disk :: "string \<Rightarrow> u8 list option"
  prc_initialized :: Status
  prc_connect :: ConnectOs

definition cli_dispatch :: "Process \<Rightarrow> Session \<Rightarrow> Command \<Rightarrow> Session \<times> Exit" where
  "cli_dispatch e session c =
     (let h = prc_command e; name = cmd_name c
      in if name = ''init'' then commandInit session c
         else if name = ''register-grid'' then commandRegisterGrid h session c
         else if name = ''register-domain'' then commandRegisterDomain h session c
         else if name = ''register-exclusion'' then commandRegisterExclusion h session c
         else if name = ''publish-capability'' then commandPublishCapability h session c
         else if name = ''enumerate'' then commandEnumerate h session c
         else if name = ''explain'' then commandExplain h session c
         else if name = ''allocate'' then commandAllocate h session c
         else if name = ''renew'' then commandRenew h session c
         else if name = ''activate'' then commandActivation h True session c
         else if name = ''deactivate'' then commandActivation h False session c
         else if name = ''release'' then commandRelease h session c
         else if name = ''expire'' then commandSweep h False session c
         else if name = ''reclaim'' then commandSweep h True session c
         else if name = ''show'' then commandShow h session c
         else if name = ''save'' then commandSave h session c
         else if name = ''recover'' then commandRecover h (prc_read e) (prc_recoveryIncarnation e) session c
         else if name = ''reset'' then commandReset h session c
         else if name = ''selftest'' then commandSelfTest h (prc_selfIncarnation e) session c
         else (session, ExitUsage))"

text \<open>A durable session starts from its image; a missing image is its first run.\<close>

definition local_load :: "Process \<Rightarrow> RuntimeState \<Rightarrow> RuntimeState \<times> Status" where
  "local_load e s =
     (if cfg_statePath (rs_config s) = [] then (s, okStatus)
      else case recover (host_now (prc_command e)) (prc_read e) (prc_recoveryIncarnation e) s of (s1, report) \<Rightarrow>
        (s1, if code (rec_status report) = NotFound then okStatus else rec_status report))"

definition open_session :: "Process \<Rightarrow> Invocation \<Rightarrow> Session \<times> Status" where
  "open_session e v =
     (case inv_mode v of
        LocalMode \<Rightarrow>
          let s = SpectrumRuntime (makeConfig (inv_statePath v)) (prc_incarnation e) (host_now (prc_command e)) (prc_disk e)
          in if cmd_name (inv_command v) \<noteq> ''recover''
             then (case local_load e s of (s1, status) \<Rightarrow> (LocalSession s1, status))
             else (LocalSession s, okStatus)
      | ServerMode \<Rightarrow>
          (case client_connect (prc_initialized e) (prc_connect e) (inv_host v) (inv_port v) kMaxFramePayloadBytes
               \<lparr>cli_socket = \<lparr>sock_valid = False, sock_sends = [], sock_recvs = [], sock_sent = []\<rparr>,
                cli_maxPayloadBytes = kMaxFramePayloadBytes, cli_nextRequestId = 1\<rparr> of
             (c, status) \<Rightarrow> (RemoteSession c, status)))"

definition finish :: "Process \<Rightarrow> Invocation \<Rightarrow> Session \<times> Exit \<Rightarrow> Session \<times> Exit" where
  "finish e v result =
     (case result of (session, exit) \<Rightarrow>
        if exit = ExitOk \<and> inv_statePath v \<noteq> [] \<and> isMutatingCommand (cmd_name (inv_command v))
        then exit_of (session_save (prc_persist e) session)
        else (session, exit))"

definition run_invocation :: "Process \<Rightarrow> Invocation \<Rightarrow> Session \<times> Exit" where
  "run_invocation e v =
     (case open_session e v of (session, status) \<Rightarrow>
        if \<not> status_ok status then (session, ExitRefused)
        else finish e v (cli_dispatch e session (inv_command v)))"

definition main :: "Process \<Rightarrow> string list \<Rightarrow> Session option \<times> Exit" where
  "main e arguments =
     (case parse_command_line arguments of
        PrintUsage asked \<Rightarrow> (None, if asked then ExitOk else ExitUsage)
      | UsageError \<Rightarrow> (None, ExitUsage)
      | Invoke v \<Rightarrow> (case run_invocation e v of (session, exit) \<Rightarrow> (Some session, exit)))"

end
