(* ===== verification/Recovery_Facts.thy ===== *)
theory Recovery_Facts
  imports Recovery
begin

text \<open>
  What recovery guarantees for any image it accepts, and what a refused recovery leaves alone. The
  accepted image is re-validated: keys match their records, the identity counter is ahead of every
  reservation, and no two live reservations conflict; the rebuilt live index is exact; nothing is
  Active any more; the fence is new. What recovery forgets is the index of exclusion domains.
\<close>

section \<open>Rebuilding the indices\<close>

definition reindex_entry :: "ReservationId \<times> SpectrumReservation \<Rightarrow> RuntimeState \<Rightarrow> RuntimeState" where
  "reindex_entry e s = addLiveReservation (snd e)
     (s\<lparr>rs_requestIndex := om_set (res_requestId (snd e)) (res_id (snd e)) (rs_requestIndex s)\<rparr>)"

lemma rebuild_entries:
  "rebuildIndices s = fold reindex_entry (rs_reservations s) (s\<lparr>rs_liveByDomain := [], rs_requestIndex := []\<rparr>)"
  by (simp add: rebuildIndices_def reindex_entry_def [abs_def])

lemma reindex_entry_frame [simp]:
  "rs_reservations (reindex_entry e s) = rs_reservations s"
  "rs_nextReservationId (reindex_entry e s) = rs_nextReservationId s"
  "rs_fence (reindex_entry e s) = rs_fence s" "rs_authority (reindex_entry e s) = rs_authority s"
  "rs_exclusionDomains (reindex_entry e s) = rs_exclusionDomains s"
  "rs_domainExclusions (reindex_entry e s) = rs_domainExclusions s"
  "rs_domains (reindex_entry e s) = rs_domains s" "rs_grids (reindex_entry e s) = rs_grids s"
  "rs_config (reindex_entry e s) = rs_config s" "rs_disk (reindex_entry e s) = rs_disk s"
  "rs_runtimeGeneration (reindex_entry e s) = rs_runtimeGeneration s"
  "rs_recoveryGeneration (reindex_entry e s) = rs_recoveryGeneration s"
  "rs_spans (reindex_entry e s) = rs_spans s" "rs_ports (reindex_entry e s) = rs_ports s"
  "rs_capabilities (reindex_entry e s) = rs_capabilities s"
  "rs_audit (reindex_entry e s) = rs_audit s" "rs_auditSequence (reindex_entry e s) = rs_auditSequence s"
  "rs_lastActivityAt (reindex_entry e s) = rs_lastActivityAt s" "rs_stats (reindex_entry e s) = rs_stats s"
  by (simp_all add: reindex_entry_def addLiveReservation_def)

lemma fold_reindex_frame [simp]:
  "rs_reservations (fold reindex_entry es s) = rs_reservations s"
  "rs_nextReservationId (fold reindex_entry es s) = rs_nextReservationId s"
  "rs_fence (fold reindex_entry es s) = rs_fence s"
  "rs_authority (fold reindex_entry es s) = rs_authority s"
  "rs_exclusionDomains (fold reindex_entry es s) = rs_exclusionDomains s"
  "rs_domainExclusions (fold reindex_entry es s) = rs_domainExclusions s"
  "rs_domains (fold reindex_entry es s) = rs_domains s" "rs_grids (fold reindex_entry es s) = rs_grids s"
  "rs_config (fold reindex_entry es s) = rs_config s" "rs_disk (fold reindex_entry es s) = rs_disk s"
  "rs_runtimeGeneration (fold reindex_entry es s) = rs_runtimeGeneration s"
  "rs_recoveryGeneration (fold reindex_entry es s) = rs_recoveryGeneration s"
  "rs_spans (fold reindex_entry es s) = rs_spans s" "rs_ports (fold reindex_entry es s) = rs_ports s"
  "rs_capabilities (fold reindex_entry es s) = rs_capabilities s"
  "rs_audit (fold reindex_entry es s) = rs_audit s"
  "rs_auditSequence (fold reindex_entry es s) = rs_auditSequence s"
  "rs_lastActivityAt (fold reindex_entry es s) = rs_lastActivityAt s"
  "rs_stats (fold reindex_entry es s) = rs_stats s"
  by (induction es arbitrary: s) simp_all

lemma rebuild_frame [simp]:
  "rs_reservations (rebuildIndices s) = rs_reservations s"
  "rs_nextReservationId (rebuildIndices s) = rs_nextReservationId s"
  "rs_fence (rebuildIndices s) = rs_fence s" "rs_authority (rebuildIndices s) = rs_authority s"
  "rs_exclusionDomains (rebuildIndices s) = rs_exclusionDomains s"
  "rs_domainExclusions (rebuildIndices s) = rs_domainExclusions s"
  "rs_domains (rebuildIndices s) = rs_domains s" "rs_grids (rebuildIndices s) = rs_grids s"
  "rs_config (rebuildIndices s) = rs_config s" "rs_disk (rebuildIndices s) = rs_disk s"
  "rs_runtimeGeneration (rebuildIndices s) = rs_runtimeGeneration s"
  "rs_recoveryGeneration (rebuildIndices s) = rs_recoveryGeneration s"
  "rs_spans (rebuildIndices s) = rs_spans s" "rs_ports (rebuildIndices s) = rs_ports s"
  "rs_capabilities (rebuildIndices s) = rs_capabilities s"
  "rs_audit (rebuildIndices s) = rs_audit s" "rs_auditSequence (rebuildIndices s) = rs_auditSequence s"
  "rs_lastActivityAt (rebuildIndices s) = rs_lastActivityAt s" "rs_stats (rebuildIndices s) = rs_stats s"
  by (simp_all add: rebuild_entries)

lemma fold_reindex_live:
  "index_wf (rs_liveByDomain s) \<Longrightarrow> index_wf (rs_liveByDomain (fold reindex_entry es s))
   \<and> (live_member (rs_liveByDomain (fold reindex_entry es s)) d i \<longleftrightarrow> live_member (rs_liveByDomain s) d i
      \<or> (\<exists>e \<in> set es. isLiveState (res_state (snd e)) \<and> res_id (snd e) = i \<and> d \<in> set (res_domains (snd e))))"
proof (induction es arbitrary: s)
  case (Cons e es)
  have "index_wf (rs_liveByDomain (reindex_entry e s))"
    "live_member (rs_liveByDomain (reindex_entry e s)) d i \<longleftrightarrow> live_member (rs_liveByDomain s) d i
      \<or> (isLiveState (res_state (snd e)) \<and> res_id (snd e) = i \<and> d \<in> set (res_domains (snd e)))"
    using Cons.prems by (auto simp: reindex_entry_def addLiveReservation_def index_wf_add live_member_index_add)
  then show ?case
    using Cons.IH [of "reindex_entry e s"] by auto
qed simp

text \<open>The rebuilt live index lists exactly the owners.\<close>

lemma rebuild_live_exact:
  assumes "reservations_ok s"
  shows "live_exact (rebuildIndices s)"
proof -
  let ?s = "s\<lparr>rs_liveByDomain := [], rs_requestIndex := []\<rparr>"
  have wf: "index_wf (rs_liveByDomain ?s)"
    by (simp add: index_wf_def)
  have om: "om_ok (rs_reservations s)"
    and key: "\<And>i r. map_of (rs_reservations s) i = Some r \<Longrightarrow> res_id r = i"
    using assms by (auto simp: reservations_ok_def)
  have "live_member (rs_liveByDomain (rebuildIndices s)) d i \<longleftrightarrow> owns s d i" for d i
  proof -
    have "live_member (rs_liveByDomain (rebuildIndices s)) d i \<longleftrightarrow> (\<exists>e \<in> set (rs_reservations s).
        isLiveState (res_state (snd e)) \<and> res_id (snd e) = i \<and> d \<in> set (res_domains (snd e)))"
      using fold_reindex_live [OF wf, of "rs_reservations s" d i]
      by (simp add: rebuild_entries live_member_def live_list_def)
    also have "\<dots> \<longleftrightarrow> owns s d i"
    proof
      assume "\<exists>e \<in> set (rs_reservations s). isLiveState (res_state (snd e)) \<and> res_id (snd e) = i
        \<and> d \<in> set (res_domains (snd e))"
      then obtain j q where q: "(j, q) \<in> set (rs_reservations s)" "isLiveState (res_state q)" "res_id q = i"
        "d \<in> set (res_domains q)"
        by auto
      then have "map_of (rs_reservations s) j = Some q" and "j = i"
        using om_in_set [OF om] key by blast+
      then show "owns s d i"
        using q unfolding owns_def by blast
    next
      assume "owns s d i"
      then obtain q where q: "map_of (rs_reservations s) i = Some q" "isLiveState (res_state q)"
        "d \<in> set (res_domains q)"
        unfolding owns_def by blast
      then show "\<exists>e \<in> set (rs_reservations s). isLiveState (res_state (snd e)) \<and> res_id (snd e) = i
        \<and> d \<in> set (res_domains (snd e))"
        using key [OF q(1)] map_of_SomeD [OF q(1)] by (intro bexI [of _ "(i, q)"]) simp_all
    qed
    finally show ?thesis .
  qed
  moreover have "index_wf (rs_liveByDomain (rebuildIndices s))"
    using fold_reindex_live [OF wf] by (simp add: rebuild_entries)
  ultimately show ?thesis
    by (simp add: live_exact_def owns_def)
qed

section \<open>What an accepted image satisfies\<close>

definition image_ok :: "Image \<Rightarrow> bool" where
  "image_ok m \<longleftrightarrow> om_ok (img_reservations m)
     \<and> (\<forall>i q. map_of (img_reservations m) i = Some q \<longrightarrow>
          res_id q = i \<and> sv_valid i \<and> isDurableState (res_state q))"

lemma image_ok_frame: "img_reservations m' = img_reservations m \<Longrightarrow> image_ok m \<Longrightarrow> image_ok m'"
  by (simp add: image_ok_def)

lemma image_ok_put:
  assumes "image_ok m" and "img_reservations m' = om_emplace (res_id q) q (img_reservations m)"
    and "map_of (img_reservations m) (res_id q) = None" and "sv_valid (res_id q)" and "isDurableState (res_state q)"
  shows "image_ok m'"
  using assms by (auto simp: image_ok_def om_emplace_def)

lemma load_record_ok: "load_record kind payload m = Some m' \<Longrightarrow> image_ok m \<Longrightarrow> image_ok m'"
  unfolding load_record_def
  by (auto simp: bind_eq_Some_conv emplace_new_def split: if_splits intro: image_ok_frame image_ok_put)

lemma load_records_ok:
  "load_records r seen m report = (report', Some (seen', m')) \<Longrightarrow> image_ok m \<Longrightarrow> image_ok m'"
proof (induction r seen m report rule: load_records.induct)
  case (1 r seen m report)
  show ?case
  proof (cases "r = []")
    case True
    then show ?thesis
      using "1.prems" by (simp add: load_records.simps)
  next
    case False
    then obtain kind payload rest where next_r: "next_record r = Inr (kind, payload, rest)"
      using "1.prems"(1) by (auto simp: load_records.simps [of r] split: sum.splits)
    then obtain m1 where m1: "load_record kind payload m = Some m1"
      using "1.prems"(1) False by (auto simp: load_records.simps [of r] Let_def split: option.splits)
    show ?thesis
      using "1.IH" [OF False next_r _ _ refl refl m1] "1.prems" load_record_ok [OF m1] next_r m1 False
      by (simp add: load_records.simps [of r] Let_def)
  qed
qed

lemma first_fault_None: "first_fault check xs = None \<longleftrightarrow> (\<forall>x \<in> set xs. check x = None)"
  by (induction xs) (auto split: option.splits)

lemma conflicting_pair_iff:
  "\<not> conflicting_pair qs \<longleftrightarrow> (\<forall>i j. i < j \<longrightarrow> j < length qs \<longrightarrow> \<not> reservationsConflict (qs ! i) (qs ! j))"
proof (induction qs)
  case (Cons q qs)
  have "(\<forall>i j. i < j \<longrightarrow> j < length (q # qs) \<longrightarrow> \<not> reservationsConflict ((q # qs) ! i) ((q # qs) ! j))
      \<longleftrightarrow> (\<forall>j < length qs. \<not> reservationsConflict q (qs ! j))
        \<and> (\<forall>i j. i < j \<longrightarrow> j < length qs \<longrightarrow> \<not> reservationsConflict (qs ! i) (qs ! j))"
    (is "?l \<longleftrightarrow> ?r")
  proof
    assume all: ?l
    show ?r
    proof (intro conjI allI impI)
      show "\<not> reservationsConflict q (qs ! j)" if "j < length qs" for j
        using all [rule_format, of 0 "Suc j"] that by simp
      show "\<not> reservationsConflict (qs ! i) (qs ! j)" if "i < j" "j < length qs" for i j
        using all [rule_format, of "Suc i" "Suc j"] that by simp
    qed
  next
    assume parts: ?r
    show ?l
    proof (intro allI impI)
      fix i j
      assume "i < j" "j < length (q # qs)"
      then show "\<not> reservationsConflict ((q # qs) ! i) ((q # qs) ! j)"
        using parts by (cases i; cases j) auto
    qed
  qed
  then show ?case
    using Cons.IH by (simp add: list_ex_iff all_set_conv_all_nth)
qed simp

lemma decodeState_image:
  assumes "decodeState bytes out report = (report', Some loaded)"
  obtains m where "loaded = install_image m" "image_ok m" "image_fault m = None"
proof -
  obtain n k where head: "decode_header bytes = Inr (n, k)"
    using assms by (auto simp: decodeState_def split: sum.splits)
  obtain report1 seen m where body: "load_records (take n (drop kHeaderBytes bytes)) 0 (empty_image out) report
      = (report1, Some (seen, m))" and rest: "loaded = install_image m" "image_fault m = None"
    using assms head by (auto simp: decodeState_def Let_def split: option.splits prod.splits if_splits)
  have "image_ok (empty_image out)"
    by (simp add: image_ok_def empty_image_def)
  then have "image_ok m"
    by (rule load_records_ok [OF body])
  then show ?thesis
    using rest that by blast
qed

lemma image_fault_None:
  assumes "image_fault m = None"
  shows "q \<in> set (om_values (img_reservations m)) \<Longrightarrow> reservation_fault m q = None"
    and "d \<in> set (om_values (img_domains m)) \<Longrightarrow> domain_fault m d = None"
    and "\<not> conflicting_pair (filter (\<lambda>q. isLiveAt q (checkAt m)) (om_values (img_reservations m)))"
    and "audit_fault (StrongValue 0) (img_audits m) = None"
  using assms by (auto simp: image_fault_def first_fault_None split: option.splits if_splits)

lemma nth_pair:
  "x \<in> set xs \<Longrightarrow> y \<in> set xs \<Longrightarrow> x \<noteq> y \<Longrightarrow> \<exists>i j. i < j \<and> j < length xs \<and> {xs ! i, xs ! j} = {x, y}"
proof -
  assume "x \<in> set xs" "y \<in> set xs" "x \<noteq> y"
  then obtain i j where "i < length xs" "xs ! i = x" "j < length xs" "xs ! j = y" "i \<noteq> j"
    by (auto simp: in_set_conv_nth)
  then show ?thesis
    by (cases "i < j") (metis insert_commute linorder_neqE_nat)+
qed

lemma not_conflicting_pair:
  assumes "\<not> conflicting_pair qs" and "a \<in> set qs" and "b \<in> set qs" and "a \<noteq> b"
  shows "\<not> reservationsConflict a b"
proof -
  obtain i j where "i < j" "j < length qs" "{qs ! i, qs ! j} = {a, b}"
    using nth_pair [OF assms(2-4)] by blast
  then show ?thesis
    using assms(1) unfolding conflicting_pair_iff by (metis doubleton_eq_iff reservationsConflict_sym)
qed

text \<open>The instant of the check lies after every recorded activity.\<close>

lemma checkAt_bounds:
  "rs_lastActivityAt (img_out m) \<le> checkAt m"
  "q \<in> set (om_values (img_reservations m)) \<Longrightarrow> res_updatedAt q \<le> checkAt m"
proof -
  let ?step = "\<lambda>q t. if res_updatedAt q > t then res_updatedAt q else t :: Instant"
  have "t \<le> fold ?step qs t \<and> (\<forall>q \<in> set qs. res_updatedAt q \<le> fold ?step qs t)" for qs t
  proof (induction qs arbitrary: t)
    case (Cons q qs)
    have "t \<le> ?step q t" "res_updatedAt q \<le> ?step q t"
      by auto
    then show ?case
      using Cons.IH [of "?step q t"] unfolding fold_Cons o_apply list.set
      by (blast intro: order_trans)
  qed simp
  then show "rs_lastActivityAt (img_out m) \<le> checkAt m"
    "q \<in> set (om_values (img_reservations m)) \<Longrightarrow> res_updatedAt q \<le> checkAt m"
    unfolding checkAt_def by blast+
qed

definition admitted :: "Instant \<Rightarrow> RuntimeState \<Rightarrow> bool" where
  "admitted t s \<longleftrightarrow> reservations_ok s
     \<and> (\<forall>i q. map_of (rs_reservations s) i = Some q \<longrightarrow> isDurableState (res_state q)
          \<and> raw i < raw (rs_nextReservationId s) \<and> res_updatedAt q \<le> t)
     \<and> (\<forall>i j a b. map_of (rs_reservations s) i = Some a \<longrightarrow> map_of (rs_reservations s) j = Some b \<longrightarrow>
          i \<noteq> j \<longrightarrow> isLiveAt a t \<longrightarrow> isLiveAt b t \<longrightarrow> \<not> reservationsConflict a b)"

lemma decodeState_admitted:
  assumes "decodeState bytes out report = (report', Some loaded)"
  obtains t where "admitted t loaded" "rs_lastActivityAt loaded \<le> t"
proof -
  obtain m where m: "loaded = install_image m" "image_ok m" "image_fault m = None"
    using decodeState_image [OF assms] .
  have om: "om_ok (img_reservations m)"
    using m(2) by (simp add: image_ok_def)
  have fields: "rs_reservations loaded = img_reservations m"
    "rs_nextReservationId loaded = rs_nextReservationId (img_out m)"
    "rs_lastActivityAt loaded = rs_lastActivityAt (img_out m)"
    by (simp_all add: m(1) install_image_def Let_def)
  have listed: "q \<in> set (om_values (img_reservations m))" if "map_of (img_reservations m) i = Some q" for i q
    using that om_values_mem [OF om] by blast
  have known: "res_id q = i \<and> sv_valid i \<and> isDurableState (res_state q)"
    if "map_of (img_reservations m) i = Some q" for i q
    using that m(2) unfolding image_ok_def by blast
  have below: "raw i < raw (rs_nextReservationId (img_out m))" if q: "map_of (img_reservations m) i = Some q" for i q
    using image_fault_None(1) [OF m(3) listed [OF q]] known [OF q]
    by (auto simp: reservation_fault_def split: if_splits option.splits)
  have apart: "\<not> reservationsConflict a b"
    if "map_of (img_reservations m) i = Some a" "map_of (img_reservations m) j = Some b" "i \<noteq> j"
      "isLiveAt a (checkAt m)" "isLiveAt b (checkAt m)" for i j a b
  proof (rule not_conflicting_pair [OF image_fault_None(3) [OF m(3)]])
    show "a \<noteq> b"
      using that(1-3) known by blast
  qed (use that listed in simp_all)
  have "admitted (checkAt m) loaded"
    unfolding admitted_def reservations_ok_def fields
    using om known below apart checkAt_bounds(2) listed by blast
  then show ?thesis
    using that checkAt_bounds(1) unfolding fields(3) by simp
qed

section \<open>Demotion\<close>

definition demotion :: "Instant \<Rightarrow> SpectrumReservation \<Rightarrow> SpectrumReservation" where
  "demotion now q = (if res_state q = Active then demoted now q else q)"

lemma demote_entry_table:
  "map_of (rs_reservations (fst (demote_entry now i sn))) j =
    (if j = i then map_option (demotion now) (map_of (rs_reservations (fst sn)) i)
     else map_of (rs_reservations (fst sn)) j)"
  by (auto simp: demote_entry_def demotion_def Let_def split: option.split)

lemma demotion_twice: "demotion now (demotion now q) = demotion now q"
  by (simp add: demotion_def demoted_def)

lemma demote_entry_frame [simp]:
  "rs_nextReservationId (fst (demote_entry now i sn)) = rs_nextReservationId (fst sn)"
  "rs_fence (fst (demote_entry now i sn)) = rs_fence (fst sn)"
  "rs_authority (fst (demote_entry now i sn)) = rs_authority (fst sn)"
  "rs_exclusionDomains (fst (demote_entry now i sn)) = rs_exclusionDomains (fst sn)"
  "rs_domainExclusions (fst (demote_entry now i sn)) = rs_domainExclusions (fst sn)"
  "rs_config (fst (demote_entry now i sn)) = rs_config (fst sn)"
  "rs_domains (fst (demote_entry now i sn)) = rs_domains (fst sn)"
  "rs_grids (fst (demote_entry now i sn)) = rs_grids (fst sn)"
  "rs_disk (fst (demote_entry now i sn)) = rs_disk (fst sn)"
  "om_ok (rs_reservations (fst sn)) \<Longrightarrow> om_ok (rs_reservations (fst (demote_entry now i sn)))"
  by (auto simp: demote_entry_def Let_def split: option.split)

lemma fold_demote_frame [simp]:
  "rs_nextReservationId (fst (fold (demote_entry now) ks sn)) = rs_nextReservationId (fst sn)"
  "rs_fence (fst (fold (demote_entry now) ks sn)) = rs_fence (fst sn)"
  "rs_authority (fst (fold (demote_entry now) ks sn)) = rs_authority (fst sn)"
  "rs_exclusionDomains (fst (fold (demote_entry now) ks sn)) = rs_exclusionDomains (fst sn)"
  "rs_domainExclusions (fst (fold (demote_entry now) ks sn)) = rs_domainExclusions (fst sn)"
  "rs_config (fst (fold (demote_entry now) ks sn)) = rs_config (fst sn)"
  "rs_domains (fst (fold (demote_entry now) ks sn)) = rs_domains (fst sn)"
  "rs_grids (fst (fold (demote_entry now) ks sn)) = rs_grids (fst sn)"
  "rs_disk (fst (fold (demote_entry now) ks sn)) = rs_disk (fst sn)"
  "om_ok (rs_reservations (fst sn)) \<Longrightarrow> om_ok (rs_reservations (fst (fold (demote_entry now) ks sn)))"
  by (induction ks arbitrary: sn) simp_all

lemma fold_demote_table:
  "map_of (rs_reservations (fst (fold (demote_entry now) ks sn))) i =
    (if i \<in> set ks then map_option (demotion now) (map_of (rs_reservations (fst sn)) i)
     else map_of (rs_reservations (fst sn)) i)"
proof (induction ks arbitrary: sn)
  case (Cons k ks)
  have twice: "map_option (demotion now) (map_option (demotion now) x) = map_option (demotion now) x" for x
    by (cases x) (simp_all add: demotion_twice)
  show ?case
    unfolding fold_Cons o_apply Cons.IH [of "demote_entry now k sn"] demote_entry_table
    by (cases "i = k"; cases "i \<in> set ks") (simp_all add: twice del: option.map_comp)
qed simp

lemma demote_active_table:
  "map_of (rs_reservations (fst (demote_active now s))) i = map_option (demotion now) (map_of (rs_reservations s) i)"
  unfolding demote_active_def fold_demote_table om_keys_def
  by (cases "map_of (rs_reservations s) i") (simp_all add: map_of_eq_None_iff [symmetric])

section \<open>Recovery\<close>

lemma readStateFile_result:
  shows "readStateFile io path maxBytes disk = Inl st \<Longrightarrow> \<not> status_ok st"
    and "readStateFile io path maxBytes disk = Inr bytes \<Longrightarrow>
      disk path = Some bytes \<and> length bytes \<le> unat maxBytes"
  by (auto simp: readStateFile_def Let_def split: if_splits option.splits)

lemma diagnose_recovered [simp]: "rec_recovered (diagnose e report) = rec_recovered report"
  by (simp add: diagnose_def)

lemma load_records_recovered: "rec_recovered (fst (load_records r seen m report)) = rec_recovered report"
proof (induction r seen m report rule: load_records.induct)
  case (1 r seen m report)
  show ?case
  proof (cases "r = []")
    case False
    then show ?thesis
      using 1 by (subst load_records.simps) (auto simp: Let_def split: sum.split option.split)
  qed (simp add: load_records.simps)
qed

lemma decodeState_recovered:
  "decodeState bytes out report = (report', res) \<Longrightarrow> rec_recovered report' = rec_recovered report"
  using load_records_recovered
  by (auto simp: decodeState_def Let_def count_restored_def split: sum.splits option.splits prod.splits if_splits)
    (metis fst_conv)+

lemma same_ownership_note [simp]:
  "same_ownership s (note_corruption now m s')  \<longleftrightarrow> same_ownership s s'"
  by (simp add: note_corruption_def same_ownership_def)

lemma recover_cases:
  assumes "recover now io inc s = (s', report)"
  obtains (refused) "\<not> rec_recovered report" "\<not> status_ok (rec_status report)" "same_ownership s s'"
  | (accepted) bytes report1 loaded where "rec_recovered report" "status_ok (rec_status report)"
      "rs_disk s (cfg_statePath (rs_config s)) = Some bytes"
      "decodeState bytes (fresh_state (rs_config s))
        (default_recovery (cfg_statePath (rs_config s)) (rs_fence s)) = (report1, Some loaded)"
      "raw (epoch (rs_fence loaded)) + 1 \<le> kMaxFenceValue"
      "s' = auditNote RecoveryPerformed now OutcomeUnknown
        (msg_recovered (rec_reservationsRestored report1) (cfg_statePath (rs_config s))
          (rs_fence (fst (demote_active now (adopt loaded (raw (epoch (rs_fence loaded)) + 1) inc s)))))
        (rebuildIndices (fst (demote_active now (adopt loaded (raw (epoch (rs_fence loaded)) + 1) inc s))))"
proof -
  let ?path = "cfg_statePath (rs_config s)"
  let ?report = "default_recovery ?path (rs_fence s)"
  have start: "\<not> rec_recovered ?report"
    by (simp add: default_recovery_def)
  show ?thesis
  proof (cases "?path = []")
    case True
    show ?thesis
      by (rule refused) (use True assms start in \<open>auto simp: recover_def same_ownership_refl\<close>)
  next
    case path: False
    show ?thesis
    proof (cases "readStateFile io ?path (cfg_maxStateBytes (rs_config s)) (rs_disk s)")
      case (Inl st)
      show ?thesis
        by (rule refused) (use path Inl assms start readStateFile_result(1) [OF Inl] in
            \<open>auto simp: recover_def Let_def diagnose_def same_ownership_refl split: if_splits\<close>)
    next
      case (Inr bytes)
      obtain report1 res where dec: "decodeState bytes (fresh_state (rs_config s)) ?report = (report1, res)"
        by fastforce
      then have "\<not> rec_recovered report1"
        using decodeState_recovered start by blast
      note facts = path Inr dec this
      show ?thesis
      proof (cases res)
        case None
        show ?thesis
          by (rule refused) (use facts None assms in \<open>auto simp: recover_def same_ownership_refl\<close>)
      next
        case (Some loaded)
        show ?thesis
        proof (cases "raw (epoch (rs_fence loaded)) + 1 > kMaxFenceValue")
          case True
          show ?thesis
            by (rule refused) (use facts Some True assms in \<open>auto simp: recover_def Let_def same_ownership_refl\<close>)
        next
          case False
          show ?thesis
            by (rule accepted [of bytes report1 loaded])
              (use facts Some False assms readStateFile_result(2) [OF Inr] in
                \<open>auto simp: recover_def Let_def case_prod_unfold\<close>)
        qed
      qed
    qed
  qed
qed

text \<open>
  A recovery that reports success has replaced the state by an admitted image: the table is keyed by
  the identities, every reservation is durable and below the counter, none is Active, the live index
  is exact, no two live ones conflict, and the fence is new in every authority.
\<close>

lemma live_demotion: "isLiveAt (demotion now q) t \<longleftrightarrow> isLiveAt q t"
  by (simp add: demotion_def demoted_def isLiveAt_def)

lemma conflict_demotion: "reservationsConflict (demotion now a) (demotion now b) \<longleftrightarrow> reservationsConflict a b"
  by (simp add: demotion_def demoted_def reservationsConflict_def)

definition recovered_ok :: "Instant \<Rightarrow> RuntimeState \<Rightarrow> bool" where
  "recovered_ok t s \<longleftrightarrow> reservations_ok s \<and> live_exact s
     \<and> (\<forall>i q. map_of (rs_reservations s) i = Some q \<longrightarrow> isDurableState (res_state q) \<and> res_state q \<noteq> Active
          \<and> raw i < raw (rs_nextReservationId s))
     \<and> (\<forall>i j a b. map_of (rs_reservations s) i = Some a \<longrightarrow> map_of (rs_reservations s) j = Some b \<longrightarrow>
          i \<noteq> j \<longrightarrow> isLiveAt a t \<longrightarrow> isLiveAt b t \<longrightarrow> \<not> reservationsConflict a b)
     \<and> auth_fence (rs_authority s) = rs_fence s"

lemma adopt_fields [simp]:
  "rs_reservations (adopt loaded n inc s) = rs_reservations loaded"
  "rs_nextReservationId (adopt loaded n inc s) = rs_nextReservationId loaded"
  "rs_fence (adopt loaded n inc s) = \<lparr>epoch = StrongValue n, incarnation = StrongValue inc\<rparr>"
  "auth_fence (rs_authority (adopt loaded n inc s)) = \<lparr>epoch = StrongValue n, incarnation = StrongValue inc\<rparr>"
  "rs_exclusionDomains (adopt loaded n inc s) = rs_exclusionDomains loaded"
  "rs_domainExclusions (adopt loaded n inc s) = rs_domainExclusions s"
  "rs_domains (adopt loaded n inc s) = rs_domains loaded" "rs_grids (adopt loaded n inc s) = rs_grids loaded"
  by (simp_all add: adopt_def Let_def)

lemma demote_active_frame [simp]:
  "rs_nextReservationId (fst (demote_active now s)) = rs_nextReservationId s"
  "rs_fence (fst (demote_active now s)) = rs_fence s"
  "rs_authority (fst (demote_active now s)) = rs_authority s"
  "rs_exclusionDomains (fst (demote_active now s)) = rs_exclusionDomains s"
  "rs_domainExclusions (fst (demote_active now s)) = rs_domainExclusions s"
  "rs_domains (fst (demote_active now s)) = rs_domains s"
  "rs_grids (fst (demote_active now s)) = rs_grids s"
  "om_ok (rs_reservations s) \<Longrightarrow> om_ok (rs_reservations (fst (demote_active now s)))"
  by (simp_all add: demote_active_def)

lemma note_fields [simp]:
  "rs_reservations (auditNote k t out m s) = rs_reservations s"
  "rs_liveByDomain (auditNote k t out m s) = rs_liveByDomain s"
  "rs_nextReservationId (auditNote k t out m s) = rs_nextReservationId s"
  "rs_fence (auditNote k t out m s) = rs_fence s"
  "rs_authority (auditNote k t out m s) = rs_authority s"
  "rs_exclusionDomains (auditNote k t out m s) = rs_exclusionDomains s"
  "rs_domainExclusions (auditNote k t out m s) = rs_domainExclusions s"
  "rs_domains (auditNote k t out m s) = rs_domains s" "rs_grids (auditNote k t out m s) = rs_grids s"
  by (simp_all add: auditNote_def)

lemma recover_accepted:
  assumes "recover now io inc s = (s', report)" and "status_ok (rec_status report)"
  obtains bytes report1 loaded t where
    "rs_disk s (cfg_statePath (rs_config s)) = Some bytes"
    "decodeState bytes (fresh_state (rs_config s))
      (default_recovery (cfg_statePath (rs_config s)) (rs_fence s)) = (report1, Some loaded)"
    "admitted t loaded" "recovered_ok t s'"
    "\<And>i. map_of (rs_reservations s') i = map_option (demotion now) (map_of (rs_reservations loaded) i)"
    "rs_fence s' = \<lparr>epoch = StrongValue (raw (epoch (rs_fence loaded)) + 1), incarnation = StrongValue inc\<rparr>"
    "rs_domains s' = rs_domains loaded" "rs_grids s' = rs_grids loaded"
    "rs_exclusionDomains s' = rs_exclusionDomains loaded" "rs_domainExclusions s' = rs_domainExclusions s"
    "rs_nextReservationId s' = rs_nextReservationId loaded"
proof (cases rule: recover_cases [OF assms(1)])
  case 1
  then show ?thesis
    using assms(2) by simp
next
  case (2 bytes report1 loaded)
  obtain t where t: "admitted t loaded"
    using decodeState_admitted [OF 2(4)] by blast
  let ?a = "adopt loaded (raw (epoch (rs_fence loaded)) + 1) inc s"
  let ?d = "fst (demote_active now ?a)"
  have table: "map_of (rs_reservations ?d) i = map_option (demotion now) (map_of (rs_reservations loaded) i)" for i
    by (simp add: demote_active_table)
  have origin: "\<exists>p. map_of (rs_reservations loaded) i = Some p \<and> q = demotion now p"
    if "map_of (rs_reservations ?d) i = Some q" for i q
    using that unfolding table by auto
  have loaded: "om_ok (rs_reservations loaded)"
    "\<And>i q. map_of (rs_reservations loaded) i = Some q \<Longrightarrow> res_id q = i \<and> sv_valid i
      \<and> isDurableState (res_state q) \<and> raw i < raw (rs_nextReservationId loaded)"
    using t unfolding admitted_def reservations_ok_def by blast+
  have ok: "reservations_ok ?d"
    using loaded origin unfolding reservations_ok_def by (auto simp: demotion_def demoted_def dest!: origin)
  have "recovered_ok t s'"
    unfolding recovered_ok_def
  proof (intro conjI allI impI)
    show "reservations_ok s'"
      using ok by (simp add: 2(6) reservations_ok_def)
    show "live_exact s'"
      using rebuild_live_exact [OF ok] live_exact_frame [of "rebuildIndices ?d" s'] by (simp add: 2(6))
    show "auth_fence (rs_authority s') = rs_fence s'"
      by (simp add: 2(6))
  next
    fix i q
    assume "map_of (rs_reservations s') i = Some q"
    then obtain p where p: "map_of (rs_reservations loaded) i = Some p" "q = demotion now p"
      using origin by (auto simp: 2(6))
    then show "isDurableState (res_state q)" "res_state q \<noteq> Active" "raw i < raw (rs_nextReservationId s')"
      using loaded(2) [OF p(1)] by (auto simp: demotion_def demoted_def 2(6))
  next
    fix i j a b
    assume ab: "map_of (rs_reservations s') i = Some a" "map_of (rs_reservations s') j = Some b" "i \<noteq> j"
      "isLiveAt a t" "isLiveAt b t"
    obtain p where p: "map_of (rs_reservations loaded) i = Some p" "a = demotion now p"
      using ab(1) origin by (auto simp: 2(6))
    obtain q where q: "map_of (rs_reservations loaded) j = Some q" "b = demotion now q"
      using ab(2) origin by (auto simp: 2(6))
    have "isLiveAt p t" "isLiveAt q t"
      using ab(4,5) p(2) q(2) by (simp_all add: live_demotion)
    then show "\<not> reservationsConflict a b"
      using t p(1) q(1) ab(3) unfolding p(2) q(2) conflict_demotion admitted_def by blast
  qed
  then show ?thesis
    using that [OF 2(3,4) t] table by (simp add: 2(6))
qed

end
