(* ===== verification/Image_Facts.thy ===== *)
theory Image_Facts
  imports Record_Size Recovery_Facts
begin

text \<open>
  The round trip of the state image. What \<open>encodeState\<close> writes passes every check of the framing,
  every checksum and every record decoder, so that whether \<open>decodeState\<close> accepts it depends only on
  the semantic validation of the state itself, and what it then loads are the registries,
  reservations, audit records and counters that were saved.
\<close>

section \<open>One record\<close>

definition record_bytes :: "RecordKind \<times> u8 list \<Rightarrow> u8 list" where
  "record_bytes kp = [recordKind_code (fst kp), 0] @ le_bytes 4 (word_of_nat (length (snd kp)) :: u32)
     @ le_bytes 4 (crc32 (snd kp)) @ le_bytes 4 (word_of_nat (length (snd kp)) :: u32) @ snd kp"

lemma length_record_bytes: "length (record_bytes kp) = 14 + length (snd kp)"
  by (simp add: record_bytes_def)

lemma appends_u8: "appends (enc_u8 v) [v]"
  by (simp add: enc_u8_def appends_raw)

lemma appends_words:
  "appends (enc_u16 a) (le_bytes 2 a)" "appends (enc_u32 b) (le_bytes 4 b)" "appends (enc_u64 c) (le_bytes 8 c)"
  "appends (enc_nat32 n) (le_bytes 4 (word_of_nat n :: u32))"
  by (simp_all add: enc_u16_def enc_u32_def enc_u64_def enc_nat32_def appends_each)

lemma appends_bytes:
  "length v \<le> kMaxEncodedBytes \<Longrightarrow> appends (enc_bytes v) (le_bytes 4 (word_of_nat (length v) :: u32) @ v)"
  using appends_then [OF appends_words(2) appends_raw] by (simp add: enc_bytes_def [abs_def])

lemma appends_record:
  assumes "length payload \<le> kMaxEncodedBytes"
  shows "appends (appendRecord kind payload) (record_bytes (kind, payload))"
proof -
  have "appends (appendRecord kind payload) (concat [[recordKind_code kind], [0],
      le_bytes 4 (word_of_nat (length payload) :: u32), le_bytes 4 (crc32 payload),
      le_bytes 4 (word_of_nat (length payload) :: u32) @ payload])"
    unfolding appendRecord_def
    by (rule appends_seq) (simp add: appends_u8 appends_words appends_bytes assms)
  then show ?thesis
    by (simp add: record_bytes_def)
qed

text \<open>Reading a record that was appended gives its kind and payload back.\<close>

lemma next_record_bytes:
  assumes "length payload \<le> kMaxEncodedBytes"
  shows "next_record (record_bytes (kind, payload) @ rest) = Inr (recordKind_code kind, payload, rest)"
proof -
  have n: "unat (word_of_nat (length payload) :: u32) = length payload"
    by (rule small_count [OF assms])
  have "length payload \<le> kMaxRecordBytes"
    using assms by (simp add: kMaxEncodedBytes_def kMaxRecordBytes_def)
  moreover have "record_header (record_bytes (kind, payload) @ rest)
      = Some ((recordKind_code kind, 0, word_of_nat (length payload), crc32 payload),
          le_bytes 4 (word_of_nat (length payload) :: u32) @ payload @ rest)"
    by (simp add: record_header_def record_bytes_def rd_word_bytes)
  ultimately show ?thesis
    by (simp add: next_record_def rd_bytes_def rd_word_bytes n)
qed

section \<open>All records\<close>

fun load_all :: "(RecordKind \<times> u8 list) list \<Rightarrow> Image \<Rightarrow> Image option" where
  "load_all [] m = Some m"
| "load_all (kp # kps) m = Option.bind (load_record (recordKind_code (fst kp)) (snd kp) m) (load_all kps)"

lemma load_all_append: "load_all (xs @ ys) m = Option.bind (load_all xs m) (load_all ys)"
  by (induction xs arbitrary: m) (auto split: bind_splits)

definition count_records :: "nat \<Rightarrow> RecoveryReport \<Rightarrow> RecoveryReport" where
  "count_records n report = report\<lparr>rec_recordsRead := rec_recordsRead report + of_nat n,
     rec_recordsAccepted := rec_recordsAccepted report + of_nat n\<rparr>"

lemma load_records_all:
  assumes "\<And>kp. kp \<in> set kps \<Longrightarrow> length (snd kp) \<le> kMaxEncodedBytes" and "load_all kps m = Some m'"
  shows "load_records (concat (map record_bytes kps)) seen m report
    = (count_records (length kps) report, Some (seen + word_of_nat (length kps), m'))"
  using assms
proof (induction kps arbitrary: seen m report)
  case Nil
  then show ?case
    by (simp add: load_records.simps count_records_def)
next
  case (Cons kp kps)
  obtain kind payload where kp: "kp = (kind, payload)"
    by fastforce
  obtain m1 where m1: "load_record (recordKind_code kind) payload m = Some m1" "load_all kps m1 = Some m'"
    using Cons.prems(2) by (auto simp: kp bind_eq_Some_conv)
  let ?report = "count_records 1 report"
  have small: "length payload \<le> kMaxEncodedBytes"
    using Cons.prems(1) [of kp] by (simp add: kp)
  have "load_records (concat (map record_bytes (kp # kps))) seen m report
      = load_records (concat (map record_bytes kps)) (seen + 1) m1 ?report"
    using next_record_bytes [OF small, of kind "concat (map record_bytes kps)"] m1(1)
    by (subst load_records.simps) (simp add: kp record_bytes_def count_records_def Let_def)
  also have "\<dots> = (count_records (length kps) ?report, Some (seen + 1 + word_of_nat (length kps), m'))"
    using Cons.prems(1) m1(2) by (intro Cons.IH) simp_all
  finally show ?case
    by (simp add: count_records_def algebra_simps)
qed

section \<open>Tables\<close>

lemma om_set_last: "\<forall>j \<in> fst ` set p. j < k \<Longrightarrow> om_set k v p = p @ [(k, v)]"
  by (induction k v p rule: om_set.induct) (auto dest: not_less_iff_gr_or_eq [THEN iffD1])

lemma om_emplace_last:
  assumes "om_ok (p @ (k, v) # t)"
  shows "map_of p k = None \<and> om_emplace k v p = p @ [(k, v)]"
proof -
  have "\<forall>j \<in> fst ` set p. j < k"
    using assms by (induction p) (auto simp: om_ok_Cons)
  moreover from this have "map_of p k = None"
    by (auto simp: map_of_eq_None_iff)
  ultimately show ?thesis
    by (simp add: om_emplace_def om_set_last)
qed

text \<open>
  The records of one registry: written in the order of its keys, each is decoded, checked and
  inserted behind the ones before it, so the table that results is the registry itself.
\<close>

definition table_wf :: "('v \<Rightarrow> 'k::linorder) \<Rightarrow> ('v \<Rightarrow> bool) \<Rightarrow> ('k, 'v) omap \<Rightarrow> bool" where
  "table_wf key good t \<longleftrightarrow> om_ok t \<and> list_all (\<lambda>(k, v). key v = k \<and> good v) t"

definition table_payloads :: "RecordKind \<Rightarrow> ('v \<Rightarrow> Writer) \<Rightarrow> ('k, 'v) omap \<Rightarrow> (RecordKind \<times> u8 list) list" where
  "table_payloads kind wr t = map (\<lambda>v. (kind, payload_of (wr v))) (om_values t)"

locale stored_table = stored wr rd storable
  for wr :: "'v \<Rightarrow> Writer" and rd :: "'v Reader" and storable :: "'v \<Rightarrow> bool" +
  fixes kind :: RecordKind and key :: "'v \<Rightarrow> 'k::linorder" and good :: "'v \<Rightarrow> bool"
    and get :: "Image \<Rightarrow> ('k, 'v) omap" and put :: "('k, 'v) omap \<Rightarrow> Image \<Rightarrow> Image"
  assumes loads: "decode_whole rd payload = Some v \<Longrightarrow> good v \<Longrightarrow> map_of (get m) (key v) = None \<Longrightarrow>
      load_record (recordKind_code kind) payload m = Some (put (om_emplace (key v) v (get m)) m)"
    and get_put: "get (put l m) = l" and put_put: "put l (put l' m) = put l m"
begin

lemma payloads_small: "table_wf key (\<lambda>v. good v \<and> storable v) t \<Longrightarrow> kp \<in> set (table_payloads kind wr t) \<Longrightarrow> length (snd kp) \<le> kRecordBound"
  by (auto simp: table_wf_def table_payloads_def om_values_def list_all_iff payload_small)

lemma load_suffix:
  "om_ok (p @ t) \<Longrightarrow> list_all (\<lambda>(k, v). key v = k \<and> good v \<and> storable v) t \<Longrightarrow>
   load_all (table_payloads kind wr t) (put p m) = Some (put (p @ t) m)"
proof (induction t arbitrary: p)
  case Nil
  then show ?case
    by (simp add: table_payloads_def om_values_def)
next
  case (Cons e t)
  obtain k v where e: "e = (k, v)" "key v = k" "good v" "storable v"
    using Cons.prems(2) by (cases e) auto
  have fresh: "map_of p k = None" and last: "om_emplace k v p = p @ [(k, v)]"
    using om_emplace_last [of p k v t] Cons.prems(1) by (simp_all add: e(1))
  have "load_record (recordKind_code kind) (payload_of (wr v)) (put p m) = Some (put (p @ [e]) m)"
    using loads [OF payload_decodes [OF e(4)] e(3), of "put p m"] fresh last
    by (simp add: get_put put_put e(1,2))
  moreover have "load_all (table_payloads kind wr t) (put (p @ [e]) m) = Some (put ((p @ [e]) @ t) m)"
    using Cons.prems by (intro Cons.IH) simp_all
  ultimately show ?case
    by (simp add: table_payloads_def om_values_def e(1))
qed

lemma load_table:
  "table_wf key (\<lambda>v. good v \<and> storable v) t \<Longrightarrow> put [] m = m \<Longrightarrow> load_all (table_payloads kind wr t) m = Some (put t m)"
  using load_suffix [of "[]" t m] by (simp add: table_wf_def)

end

interpretation stored_grids: stored_table encode_grid decode_grid storable_grid GridRecord grid_id
    "\<lambda>v. sv_valid (grid_id v)" img_grids "\<lambda>l m. m\<lparr>img_grids := l\<rparr>"
  by unfold_locales (simp_all add: fits_grid load_record_def emplace_new_def)

interpretation stored_spans: stored_table encode_span decode_span storable_span SpanRecord span_id
    "\<lambda>v. sv_valid (span_id v)" img_spans "\<lambda>l m. m\<lparr>img_spans := l\<rparr>"
  by unfold_locales (simp_all add: fits_span load_record_def emplace_new_def)

interpretation stored_ports: stored_table encode_port decode_port storable_port PortRecord port_id
    "\<lambda>v. sv_valid (port_id v)" img_ports "\<lambda>l m. m\<lparr>img_ports := l\<rparr>"
  by unfold_locales (simp_all add: fits_port load_record_def emplace_new_def)

interpretation stored_domains: stored_table encode_domain decode_domain storable_domain DomainRecord dom_id
    "\<lambda>v. sv_valid (dom_id v)" img_domains "\<lambda>l m. m\<lparr>img_domains := l\<rparr>"
  by unfold_locales (simp_all add: fits_domain load_record_def emplace_new_def)

interpretation stored_exclusions: stored_table encode_exclusion decode_exclusion storable_exclusion
    ExclusionRecord exc_id "\<lambda>v. sv_valid (exc_id v)" img_exclusionDomains "\<lambda>l m. m\<lparr>img_exclusionDomains := l\<rparr>"
  by unfold_locales (simp_all add: fits_exclusion load_record_def emplace_new_def)

interpretation stored_capabilities: stored_table encode_capability decode_capability storable_capability
    CapabilityRecord cap_domain "\<lambda>v. sv_valid (cap_domain v)" img_capabilities "\<lambda>l m. m\<lparr>img_capabilities := l\<rparr>"
  by unfold_locales (simp_all add: fits_capability load_record_def emplace_new_def)

interpretation stored_reservations: stored_table encode_reservation decode_reservation storable_reservation
    ReservationRecord res_id "\<lambda>v. sv_valid (res_id v) \<and> isDurableState (res_state v)" img_reservations
    "\<lambda>l m. m\<lparr>img_reservations := l\<rparr>"
  by unfold_locales (simp_all add: fits_reservation load_record_def emplace_new_def)

interpretation stored_audits: stored encode_audit decode_audit storable_audit
  by unfold_locales (rule fits_audit)

section \<open>The image of a state\<close>

definition metadata_of :: "RuntimeState \<Rightarrow> Metadata" where
  "metadata_of s = \<lparr>md_version = kPersistenceFormatVersion, md_reserved = 0, md_fence = rs_fence s,
     md_runtimeGeneration = rs_runtimeGeneration s, md_recoveryGeneration = rs_recoveryGeneration s,
     md_nextReservationId = rs_nextReservationId s, md_auditSequence = rs_auditSequence s,
     md_lastActivityAt = rs_lastActivityAt s, md_controller = cfg_controller (rs_config s),
     md_eligibility = auth_eligibility (rs_authority s), md_reservation = auth_reservation (rs_authority s),
     md_activation = auth_activation (rs_authority s), md_release = auth_release (rs_authority s)\<rparr>"

definition image_of :: "RuntimeState \<Rightarrow> RuntimeState \<Rightarrow> Image" where
  "image_of s out = \<lparr>img_out = apply_metadata (metadata_of s) out, img_metadata = True,
     img_grids = rs_grids s, img_spans = rs_spans s, img_ports = rs_ports s, img_domains = rs_domains s,
     img_exclusionDomains = rs_exclusionDomains s, img_capabilities = rs_capabilities s,
     img_reservations = rs_reservations s, img_audits = rs_audit s\<rparr>"

definition storable_state :: "RuntimeState \<Rightarrow> bool" where
  "storable_state s \<longleftrightarrow> is_i64 (rs_lastActivityAt s)
     \<and> table_wf grid_id (\<lambda>v. sv_valid (grid_id v) \<and> storable_grid v) (rs_grids s)
     \<and> table_wf span_id (\<lambda>v. sv_valid (span_id v) \<and> storable_span v) (rs_spans s)
     \<and> table_wf port_id (\<lambda>v. sv_valid (port_id v) \<and> storable_port v) (rs_ports s)
     \<and> table_wf dom_id (\<lambda>v. sv_valid (dom_id v) \<and> storable_domain v) (rs_domains s)
     \<and> table_wf exc_id (\<lambda>v. sv_valid (exc_id v) \<and> storable_exclusion v) (rs_exclusionDomains s)
     \<and> table_wf cap_domain (\<lambda>v. sv_valid (cap_domain v) \<and> storable_capability v) (rs_capabilities s)
     \<and> table_wf res_id (\<lambda>v. (sv_valid (res_id v) \<and> isDurableState (res_state v)) \<and> storable_reservation v)
         (rs_reservations s)
     \<and> list_all (\<lambda>a. sv_valid (aud_sequence a) \<and> storable_audit a) (rs_audit s)"

definition state_payloads :: "RuntimeState \<Rightarrow> (RecordKind \<times> u8 list) list" where
  "state_payloads s = (MetadataRecord, payload_of (metadata_writer s)) #
     table_payloads GridRecord encode_grid (rs_grids s)
     @ table_payloads SpanRecord encode_span (rs_spans s)
     @ table_payloads PortRecord encode_port (rs_ports s)
     @ table_payloads DomainRecord encode_domain (rs_domains s)
     @ table_payloads ExclusionRecord encode_exclusion (rs_exclusionDomains s)
     @ table_payloads CapabilityRecord encode_capability (rs_capabilities s)
     @ table_payloads ReservationRecord encode_reservation (rs_reservations s)
     @ map (\<lambda>a. (AuditRecordKind, payload_of (encode_audit a))) (rs_audit s)"

text \<open>The metadata record.\<close>

lemma codes_metadata: "is_i64 (rs_lastActivityAt s) \<Longrightarrow> codes (metadata_writer s) decode_metadata (metadata_of s)"
  unfolding metadata_writer_def decode_metadata_def [abs_def] metadata_of_def
  by (rule codes_steps | (simp; fail)[1])+

lemma fits_metadata: "fits (metadata_writer s) 100"
  unfolding metadata_writer_def by (rule fits_mono, (rule fits_steps)+) simp

lemma metadata_payload:
  "length (payload_of (metadata_writer s)) \<le> 100" "\<not> enc_overflowed (metadata_writer s new_encoder)"
  using fits_payload [OF fits_metadata, of s] by (simp_all add: payload_of_def kMaxBufferBytes_def)

lemma metadata_loads:
  assumes "is_i64 (rs_lastActivityAt s)"
  shows "load_record (recordKind_code MetadataRecord) (payload_of (metadata_writer s)) m
    = Some (m\<lparr>img_out := apply_metadata (metadata_of s) (img_out m), img_metadata := True\<rparr>)"
proof -
  obtain bs where bs: "appends (metadata_writer s) bs" "\<And>rest. decode_metadata (bs @ rest) = Some (metadata_of s, rest)"
    using codes_metadata [OF assms] unfolding codes_def by blast
  have "payload_of (metadata_writer s) = bs"
    using bs(1) metadata_payload(2) by (simp add: appends_def payload_of_def new_encoder_def)
  then have "decode_whole decode_metadata (payload_of (metadata_writer s)) = Some (metadata_of s)"
    using bs(2) [of "[]"] by (simp add: decode_whole_def)
  then show ?thesis
    by (simp add: load_record_def metadata_of_def)
qed

lemma audits_load:
  "list_all (\<lambda>a. sv_valid (aud_sequence a) \<and> storable_audit a) as \<Longrightarrow>
   load_all (map (\<lambda>a. (AuditRecordKind, payload_of (encode_audit a))) as) m = Some (m\<lparr>img_audits := img_audits m @ as\<rparr>)"
proof (induction as arbitrary: m)
  case (Cons a as)
  then have "decode_whole decode_audit (payload_of (encode_audit a)) = Some a" "0 \<le> aud_at a" "sv_valid (aud_sequence a)"
    by (simp_all add: stored_audits.payload_decodes storable_audit_def storable_instant_def)
  then have "load_record (recordKind_code AuditRecordKind) (payload_of (encode_audit a)) m
      = Some (m\<lparr>img_audits := img_audits m @ [a]\<rparr>)"
    by (simp add: load_record_def)
  then show ?case
    using Cons by simp
qed simp

lemma state_loads:
  assumes "storable_state s"
  shows "load_all (state_payloads s) (empty_image out) = Some (image_of s out)"
  using assms unfolding storable_state_def
  by (simp add: state_payloads_def load_all_append metadata_loads stored_grids.load_table stored_spans.load_table
      stored_ports.load_table stored_domains.load_table stored_exclusions.load_table
      stored_capabilities.load_table stored_reservations.load_table audits_load empty_image_def image_of_def
      del: recordKind_code.simps conj_assoc)

lemma state_payloads_small:
  assumes "storable_state s" and "kp \<in> set (state_payloads s)"
  shows "length (snd kp) \<le> kRecordBound"
proof -
  note ok = assms(1) [unfolded storable_state_def]
  consider "kp = (MetadataRecord, payload_of (metadata_writer s))"
    | "kp \<in> set (table_payloads GridRecord encode_grid (rs_grids s))"
    | "kp \<in> set (table_payloads SpanRecord encode_span (rs_spans s))"
    | "kp \<in> set (table_payloads PortRecord encode_port (rs_ports s))"
    | "kp \<in> set (table_payloads DomainRecord encode_domain (rs_domains s))"
    | "kp \<in> set (table_payloads ExclusionRecord encode_exclusion (rs_exclusionDomains s))"
    | "kp \<in> set (table_payloads CapabilityRecord encode_capability (rs_capabilities s))"
    | "kp \<in> set (table_payloads ReservationRecord encode_reservation (rs_reservations s))"
    | a where "a \<in> set (rs_audit s)" "kp = (AuditRecordKind, payload_of (encode_audit a))"
    using assms(2) unfolding state_payloads_def by auto
  then show ?thesis
  proof cases
    case 1
    then show ?thesis
      using metadata_payload(1) [of s] by (simp add: kRecordBound_def)
  next
    case (9 a)
    then show ?thesis
      using ok stored_audits.payload_small by (simp add: list_all_iff)
  qed (use ok in \<open>blast dest: stored_grids.payloads_small stored_spans.payloads_small stored_ports.payloads_small
        stored_domains.payloads_small stored_exclusions.payloads_small stored_capabilities.payloads_small
        stored_reservations.payloads_small\<close>)+
qed

section \<open>Framing\<close>

definition body_bytes :: "RuntimeState \<Rightarrow> u8 list" where
  "body_bytes s = concat (map record_bytes (state_payloads s))"

lemma state_payloads_records:
  "state_payloads s = (MetadataRecord, payload_of (metadata_writer s))
     # map (\<lambda>(k, w). (k, payload_of w)) (state_records s)"
  by (simp add: state_payloads_def state_records_def table_payloads_def comp_def)

lemma written: "appends w bs \<Longrightarrow> \<not> enc_overflowed (w new_encoder) \<Longrightarrow> enc_buffer (w new_encoder) = bs"
  by (simp add: appends_def new_encoder_def)

lemma payload_written: "appends w bs \<Longrightarrow> fits w n \<Longrightarrow> n \<le> kMaxBufferBytes \<Longrightarrow> enc_buffer (w new_encoder) = bs"
  using written fits_payload by blast

text \<open>The body is the concatenation of the records, and the buffer bounds its length.\<close>

definition body_writer :: "RuntimeState \<Rightarrow> Writer" where
  "body_writer s = fold (\<lambda>kp. appendRecord (fst kp) (snd kp)) (state_payloads s)"

lemma body_writer_emits:
  "fold (\<lambda>(kind, w). emit kind w) (state_records s)
     (appendRecord MetadataRecord (enc_buffer (metadata_writer s new_encoder)) e) = body_writer s e"
proof -
  have "fold (\<lambda>(kind, w). emit kind w) rs e = fold (\<lambda>kp. appendRecord (fst kp) (snd kp)) (map (\<lambda>(k, w). (k, payload_of w)) rs) e"
    for rs e by (induction rs arbitrary: e) (auto simp: emit_def [abs_def] payload_of_def)
  then show ?thesis
    by (simp add: body_writer_def state_payloads_records payload_of_def)
qed

lemma appends_body: "storable_state s \<Longrightarrow> appends (body_writer s) (body_bytes s)"
  unfolding body_writer_def body_bytes_def
proof (rule appends_fold)
  fix kp
  assume "storable_state s" "kp \<in> set (state_payloads s)"
  then have "length (snd kp) \<le> kMaxEncodedBytes"
    using state_payloads_small by (fastforce simp: kRecordBound_def kMaxEncodedBytes_def)
  then show "appends (appendRecord (fst kp) (snd kp)) (record_bytes kp)"
    using appends_record [of "snd kp" "fst kp"] by simp
qed

text \<open>No writer leaves more than the bound in the buffer.\<close>

definition bounded_writer :: "Writer \<Rightarrow> bool" where
  "bounded_writer w \<longleftrightarrow> (\<forall>e. length (enc_buffer e) \<le> kMaxBufferBytes \<longrightarrow> length (enc_buffer (w e)) \<le> kMaxBufferBytes)"

lemma bounded_raw: "bounded_writer (enc_raw bs)"
  by (auto simp: bounded_writer_def enc_raw_def)

lemma bounded_fold: "(\<And>x. bounded_writer (f x)) \<Longrightarrow> bounded_writer (fold f xs)"
proof (induction xs)
  case (Cons x xs)
  then have "bounded_writer (f x)" "bounded_writer (fold f xs)"
    by blast+
  then show ?case
    by (simp add: bounded_writer_def)
qed (simp add: bounded_writer_def)

lemma bounded_words: "bounded_writer (enc_u8 a)" "bounded_writer (enc_u32 b)"
proof -
  show byte: "bounded_writer (enc_u8 a)" for a
    by (simp add: enc_u8_def bounded_raw)
  then show "bounded_writer (enc_u32 b)"
    using bounded_fold [of enc_u8 "le_bytes 4 b"] by (simp add: enc_u32_def enc_each_def [abs_def])
qed

lemma bounded_record: "bounded_writer (appendRecord kind payload)"
  using bounded_words bounded_raw
  by (auto simp: bounded_writer_def appendRecord_def enc_seq_def enc_bytes_def)

lemma body_bounded: "length (enc_buffer (body_writer s new_encoder)) \<le> kMaxBufferBytes"
  using bounded_fold [of "\<lambda>kp. appendRecord (fst kp) (snd kp)" "state_payloads s"] bounded_record
  by (auto simp: body_writer_def bounded_writer_def new_encoder_def)

text \<open>Every record takes at least fourteen bytes, so a body within the buffer has few enough records.\<close>

lemma body_count: "14 * length (state_payloads s) \<le> length (body_bytes s)"
proof -
  have "14 * length kps \<le> length (concat (map record_bytes kps))" for kps
    by (induction kps) (simp_all add: length_record_bytes)
  then show ?thesis
    by (simp add: body_bytes_def)
qed

text \<open>The bytes of the header and the trailer.\<close>

definition header_image :: "nat \<Rightarrow> nat \<Rightarrow> u8 list" where
  "header_image bodyBytes records = map char_byte kHeaderMagic @ le_bytes 2 kPersistenceFormatVersion
     @ le_bytes 2 (0 :: 16 word) @ le_bytes 4 (word_of_nat kHeaderBytes :: u32) @ le_bytes 4 (0 :: u32)
     @ le_bytes 8 (word_of_nat bodyBytes :: u64) @ le_bytes 8 (word_of_nat records :: u64)"

definition trailer_image :: "u8 list \<Rightarrow> u8 list" where
  "trailer_image body = le_bytes 4 (crc32 body)
     @ le_bytes 8 (word_of_nat (kHeaderBytes + length body + kTrailerBytes) :: u64) @ le_bytes 4 (0 :: u32)
     @ map char_byte kTrailerMagic"

lemma header_bytes_image: "header_bytes body n = header_image (length body) n"
proof -
  let ?w = "enc_seq (map (\<lambda>c. enc_u8 (char_byte c)) kHeaderMagic @ [enc_u16 kPersistenceFormatVersion, enc_u16 0,
    enc_nat32 kHeaderBytes, enc_u32 0, enc_u64 (word_of_nat (length body)), enc_u64 (word_of_nat n)])"
  have "appends ?w (concat (map (\<lambda>c. [char_byte c]) kHeaderMagic @ [le_bytes 2 kPersistenceFormatVersion,
      le_bytes 2 (0 :: 16 word), le_bytes 4 (word_of_nat kHeaderBytes :: u32), le_bytes 4 (0 :: u32),
      le_bytes 8 (word_of_nat (length body) :: u64), le_bytes 8 (word_of_nat n :: u64)]))"
    by (rule appends_seq) (simp add: kHeaderMagic_def appends_u8 appends_words)
  moreover have "fits ?w 36"
    unfolding kHeaderMagic_def list.map append.simps by (rule fits_mono, (rule fits_steps)+) simp
  ultimately have "enc_buffer (?w new_encoder) = concat (map (\<lambda>c. [char_byte c]) kHeaderMagic
      @ [le_bytes 2 kPersistenceFormatVersion, le_bytes 2 (0 :: 16 word), le_bytes 4 (word_of_nat kHeaderBytes :: u32),
         le_bytes 4 (0 :: u32), le_bytes 8 (word_of_nat (length body) :: u64), le_bytes 8 (word_of_nat n :: u64)])"
    by (rule payload_written) (simp add: kMaxBufferBytes_def)
  then show ?thesis
    by (simp add: header_bytes_def header_image_def)
qed

lemma trailer_bytes_image: "trailer_bytes body = trailer_image body"
proof -
  let ?w = "enc_seq ([enc_u32 (crc32 body), enc_u64 (word_of_nat (kHeaderBytes + length body + kTrailerBytes)),
    enc_u32 0] @ map (\<lambda>c. enc_u8 (char_byte c)) kTrailerMagic)"
  have "appends ?w (concat ([le_bytes 4 (crc32 body),
      le_bytes 8 (word_of_nat (kHeaderBytes + length body + kTrailerBytes) :: u64), le_bytes 4 (0 :: u32)]
      @ map (\<lambda>c. [char_byte c]) kTrailerMagic))"
    by (rule appends_seq) (simp add: kTrailerMagic_def appends_u8 appends_words)
  moreover have "fits ?w 24"
    unfolding kTrailerMagic_def list.map append.simps by (rule fits_mono, (rule fits_steps)+) simp
  ultimately have "enc_buffer (?w new_encoder) = concat ([le_bytes 4 (crc32 body),
      le_bytes 8 (word_of_nat (kHeaderBytes + length body + kTrailerBytes) :: u64), le_bytes 4 (0 :: u32)]
      @ map (\<lambda>c. [char_byte c]) kTrailerMagic)"
    by (rule payload_written) (simp add: kMaxBufferBytes_def)
  then show ?thesis
    by (simp add: trailer_bytes_def trailer_image_def)
qed

lemma length_header_image: "length (header_image b n) = 36"
  by (simp add: header_image_def kHeaderMagic_def)

lemma length_trailer_image: "length (trailer_image body) = 24"
  by (simp add: trailer_image_def kTrailerMagic_def)

lemma encodeState_bytes:
  assumes "storable_state s" and "encodeState s = Inr bytes"
  shows "bytes = header_image (length (body_bytes s)) (length (state_payloads s))
      @ le_bytes 4 (crc32 (header_image (length (body_bytes s)) (length (state_payloads s))))
      @ body_bytes s @ trailer_image (body_bytes s)"
    and "length (body_bytes s) \<le> kMaxBufferBytes"
proof -
  have "\<not> enc_overflowed (body_writer s new_encoder)"
    using assms(2) by (auto simp: encodeState_def Let_def body_writer_emits split: if_splits)
  then have body: "enc_buffer (body_writer s new_encoder) = body_bytes s"
    using written appends_body assms(1) by blast
  have crc: "enc_buffer (enc_u32 c new_encoder) = le_bytes 4 c" for c
    using fits_fixed(3) by (rule payload_written [OF appends_words(2)]) (simp add: kMaxBufferBytes_def)
  show "length (body_bytes s) \<le> kMaxBufferBytes"
    using body_bounded [of s] body by simp
  show "bytes = header_image (length (body_bytes s)) (length (state_payloads s))
      @ le_bytes 4 (crc32 (header_image (length (body_bytes s)) (length (state_payloads s))))
      @ body_bytes s @ trailer_image (body_bytes s)"
    using assms(2) by (auto simp: encodeState_def Let_def body_writer_emits body header_bytes_image
        trailer_bytes_image crc state_payloads_records split: if_splits)
qed

section \<open>Every check passes\<close>

lemma header_fields_image:
  "header_fields (drop 8 (header_image b n)) = Some (\<lparr>hdr_version = kPersistenceFormatVersion, hdr_flags = 0,
     hdr_headerBytes = word_of_nat kHeaderBytes, hdr_reserved = 0, hdr_bodyBytes = word_of_nat b,
     hdr_recordCount = word_of_nat n\<rparr>, [])"
proof -
  have "drop 8 (header_image b n) = le_bytes 2 kPersistenceFormatVersion @ le_bytes 2 (0 :: 16 word)
     @ le_bytes 4 (word_of_nat kHeaderBytes :: u32) @ le_bytes 4 (0 :: u32)
     @ le_bytes 8 (word_of_nat b :: u64) @ le_bytes 8 (word_of_nat n :: u64) @ []"
    by (simp add: header_image_def kHeaderMagic_def)
  then show ?thesis
    by (simp only: header_fields_def rd_word_bytes bind.bind_lunit prod.case)
qed

lemma decode_header_image:
  assumes "length body \<le> kMaxBufferBytes" and "14 * n \<le> length body" and "length trailer = 24"
  shows "decode_header (header_image (length body) n @ le_bytes 4 (crc32 (header_image (length body) n)) @ body @ trailer)
    = Inr (length body, word_of_nat n)"
proof -
  let ?h = "header_image (length body) n"
  let ?bytes = "?h @ le_bytes 4 (crc32 ?h) @ body @ trailer"
  note len = length_header_image [of "length body" n]
  have magic: "take 8 ?bytes = map char_byte kHeaderMagic"
    by (simp add: header_image_def kHeaderMagic_def)
  have fields: "take 28 (drop 8 ?bytes) = drop 8 ?h" and prefix: "take kHeaderPrefixBytes ?bytes = ?h"
    and crc: "take 4 (drop kHeaderPrefixBytes ?bytes) = le_bytes 4 (crc32 ?h) @ []"
    by (simp_all add: len kHeaderPrefixBytes_def)
  have count: "\<not> (word_of_nat n :: u64) > kMaxRecords"
    using assms(1,2) by (simp add: kMaxRecords_def kMaxBufferBytes_def word_less_nat_alt unat_of_nat)
  have "unat (word_of_nat (length body) :: u64) = length body"
    using assms(1) by (simp add: kMaxBufferBytes_def unat_of_nat)
  then show ?thesis
    unfolding decode_header_def magic fields header_fields_image crc prefix
    using count assms(3) by (simp add: len kHeaderBytes_def kTrailerBytes_def rd_word_bytes [of _ "[]", simplified])
qed

lemma trailer_fields_image:
  "trailer_fields (trailer_image body) = Some ((crc32 body, word_of_nat (kHeaderBytes + length body + kTrailerBytes), 0),
     map char_byte kTrailerMagic)"
  by (simp add: trailer_fields_def trailer_image_def rd_word_bytes)

lemma check_trailer_image:
  assumes "length bytes = kHeaderBytes + length body + kTrailerBytes"
  shows "check_trailer bytes body (trailer_image body) = None"
proof -
  have "take 8 (drop kTrailerMagicOffset (trailer_image body)) = map char_byte kTrailerMagic"
    by (simp add: trailer_image_def kTrailerMagicOffset_def kTrailerMagic_def)
  then show ?thesis
    by (simp add: check_trailer_def trailer_fields_image assms)
qed

text \<open>
  Decoding what was encoded: the framing and the records pass, the metadata record is there and the
  counts agree. Only the semantic validation decides, and what it accepts is the saved image.
\<close>

lemma decode_encoded:
  assumes "storable_state s" and "encodeState s = Inr bytes"
  shows "decodeState bytes out report =
    (let report1 = count_records (length (state_payloads s)) report; m = image_of s out
     in (case image_fault m of
           Some e \<Rightarrow> (diagnose e report1, None)
         | None \<Rightarrow> (count_restored (install_image m) report1, Some (install_image m))))"
proof -
  let ?body = "body_bytes s" and ?n = "length (state_payloads s)"
  let ?h = "header_image (length ?body) ?n"
  have bytes: "bytes = ?h @ le_bytes 4 (crc32 ?h) @ ?body @ trailer_image ?body"
    and small: "length ?body \<le> kMaxBufferBytes"
    by (rule encodeState_bytes [OF assms])+
  have head: "decode_header bytes = Inr (length ?body, word_of_nat ?n)"
    unfolding bytes by (rule decode_header_image [OF small body_count length_trailer_image])
  have body: "take (length ?body) (drop kHeaderBytes bytes) = ?body"
    and trailer: "drop (kHeaderBytes + length ?body) bytes = trailer_image ?body"
    by (simp_all add: bytes length_header_image kHeaderBytes_def)
  have framed: "check_trailer bytes ?body (trailer_image ?body) = None"
    by (rule check_trailer_image)
      (simp add: bytes length_header_image length_trailer_image kHeaderBytes_def kTrailerBytes_def)
  have "length (snd kp) \<le> kMaxEncodedBytes" if "kp \<in> set (state_payloads s)" for kp
    using state_payloads_small [OF assms(1) that] by (simp add: kRecordBound_def kMaxEncodedBytes_def)
  then have "load_records ?body 0 (empty_image out) report
      = (count_records ?n report, Some (word_of_nat ?n, image_of s out))"
    using load_records_all [OF _ state_loads [OF assms(1)]] by (simp add: body_bytes_def)
  then show ?thesis
    by (simp add: decodeState_def head body trailer framed Let_def image_of_def)
qed

text \<open>A state with a bounded number of records is always encoded.\<close>

lemma fits_record: "length payload \<le> kRecordBound \<Longrightarrow> fits (appendRecord kind payload) (14 + kRecordBound)"
  unfolding appendRecord_def
  by (rule fits_mono, (rule fits_steps fits_bytes | assumption | (simp add: kRecordBound_def kMaxEncodedBytes_def; fail))+)

lemma encodeState_returns:
  assumes "storable_state s" and "length (state_payloads s) \<le> 1000"
  shows "\<exists>bytes. encodeState s = Inr bytes"
proof -
  have "fits (body_writer s) (length (state_payloads s) * (14 + kRecordBound))"
    unfolding body_writer_def by (rule fits_fold) (use state_payloads_small [OF assms(1)] fits_record in blast)
  then have "\<not> enc_overflowed (body_writer s new_encoder)"
    using fits_payload assms(2) by (simp add: kRecordBound_def kMaxBufferBytes_def)
  then show ?thesis
    using metadata_payload(2) [of s] by (simp add: encodeState_def Let_def body_writer_emits)
qed

lemma encodeState_length:
  assumes "storable_state s" and "encodeState s = Inr bytes"
  shows "length bytes \<le> 64 + kMaxBufferBytes"
  using encodeState_bytes [OF assms] by (simp add: length_header_image length_trailer_image)

lemma length_state_payloads:
  "length (state_payloads s) = 1 + length (rs_grids s) + length (rs_spans s) + length (rs_ports s)
     + length (rs_domains s) + length (rs_exclusionDomains s) + length (rs_capabilities s)
     + length (rs_reservations s) + length (rs_audit s)"
  by (simp add: state_payloads_def table_payloads_def om_values_def)

end
