(* ===== verification/Restart.thy ===== *)
theory Restart
  imports Image_Facts
begin

text \<open>
  A restart: one runtime saves, another one, configured alike and reading the same file, recovers.
  The validation of the image looks at the saved state only, so a state that passes it comes back
  with its registries and reservations, under the next epoch and with its active reservations
  demoted.
\<close>

definition consistent :: "RuntimeState \<Rightarrow> bool" where
  "consistent s \<longleftrightarrow> image_fault (image_of s s) = None"

lemma image_of_fields [simp]:
  "img_domains (image_of s out) = rs_domains s" "img_grids (image_of s out) = rs_grids s"
  "img_spans (image_of s out) = rs_spans s" "img_exclusionDomains (image_of s out) = rs_exclusionDomains s"
  "img_capabilities (image_of s out) = rs_capabilities s" "img_reservations (image_of s out) = rs_reservations s"
  "img_audits (image_of s out) = rs_audit s" "img_ports (image_of s out) = rs_ports s"
  "rs_nextReservationId (img_out (image_of s out)) = rs_nextReservationId s"
  "rs_lastActivityAt (img_out (image_of s out)) = rs_lastActivityAt s"
  "rs_fence (img_out (image_of s out)) = rs_fence s"
  by (simp_all add: image_of_def apply_metadata_def metadata_of_def)

lemma validation_of_saved:
  "domain_fault (image_of s out) = domain_fault (image_of s s)"
  "exclusion_fault (image_of s out) = exclusion_fault (image_of s s)"
  "capability_fault (image_of s out) = capability_fault (image_of s s)"
  "reservation_fault (image_of s out) = reservation_fault (image_of s s)"
  "checkAt (image_of s out) = checkAt (image_of s s)"
  unfolding domain_fault_def [abs_def] exclusion_fault_def [abs_def] capability_fault_def [abs_def]
    reservation_fault_def [abs_def] reservation_domain_fault_def [abs_def] checkAt_def image_of_fields
  by (rule refl)+

lemma image_fault_saved: "image_fault (image_of s out) = image_fault (image_of s s)"
  unfolding image_fault_def image_of_fields validation_of_saved [of s out] by (rule refl)

lemma install_image_fields [simp]:
  "rs_reservations (install_image m) = img_reservations m" "rs_domains (install_image m) = img_domains m"
  "rs_grids (install_image m) = img_grids m" "rs_exclusionDomains (install_image m) = img_exclusionDomains m"
  "rs_capabilities (install_image m) = img_capabilities m"
  "rs_nextReservationId (install_image m) = rs_nextReservationId (img_out m)"
  "rs_fence (install_image m) = rs_fence (img_out m)"
  by (simp_all add: install_image_def Let_def)

text \<open>Reading works when the file is there and every call succeeds.\<close>

definition reads_all :: "ReadIo \<Rightarrow> u8 list \<Rightarrow> bool" where
  "reads_all io bytes \<longleftrightarrow> rio_exists io \<and> rio_sizeError io = None \<and> rio_open io \<and> rio_gcount io = length bytes"

lemma readStateFile_all:
  "reads_all io bytes \<Longrightarrow> path \<noteq> [] \<Longrightarrow> disk path = Some bytes \<Longrightarrow> length bytes \<le> unat maxBytes \<Longrightarrow>
   readStateFile io path maxBytes disk = Inr bytes"
  by (simp add: readStateFile_def reads_all_def)

lemma count_recovered [simp]: "rec_status (count_restored s report) = rec_status report"
  by (simp add: count_restored_def)

definition restored :: "Instant \<Rightarrow> u64 \<Rightarrow> RuntimeState \<Rightarrow> RuntimeState \<Rightarrow> bool" where
  "restored now inc s r \<longleftrightarrow> rs_grids r = rs_grids s \<and> rs_domains r = rs_domains s
     \<and> rs_exclusionDomains r = rs_exclusionDomains s
     \<and> (\<forall>i. map_of (rs_reservations r) i = map_option (demotion now) (map_of (rs_reservations s) i))
     \<and> rs_nextReservationId r = rs_nextReservationId s
     \<and> rs_fence r = \<lparr>epoch = StrongValue (raw (epoch (rs_fence s)) + 1), incarnation = StrongValue inc\<rparr>
     \<and> rs_authority r = (rs_authority s)\<lparr>auth_fence := rs_fence r\<rparr> \<and> live_exact r"

text \<open>The generations of the authority are the loaded ones, under the new fence.\<close>

lemma recover_authority:
  assumes "recover now io inc s = (s', report)" and "status_ok (rec_status report)"
    and "rs_disk s (cfg_statePath (rs_config s)) = Some bytes"
    and "decodeState bytes (fresh_state (rs_config s))
      (default_recovery (cfg_statePath (rs_config s)) (rs_fence s)) = (report1, Some loaded)"
  shows "rs_authority s' = (rs_authority loaded)\<lparr>auth_fence := rs_fence s'\<rparr>"
proof (cases rule: recover_cases [OF assms(1)])
  case (2 bytes' report2 loaded')
  then have "loaded' = loaded"
    using assms(3,4) by simp
  then show ?thesis
    by (simp add: 2(6)) (simp add: adopt_def Let_def)
qed (use assms(2) in simp)

lemma restart:
  assumes "storable_state s" and "consistent s" and "encodeState s = Inr bytes"
    and "raw (epoch (rs_fence s)) + 1 \<le> kMaxFenceValue"
    and "cfg_statePath (rs_config r) \<noteq> []" and "rs_disk r (cfg_statePath (rs_config r)) = Some bytes"
    and "length bytes \<le> unat (cfg_maxStateBytes (rs_config r))" and "reads_all io bytes"
  obtains r' report where "recover now io inc r = (r', report)" "rec_status report = okStatus" "restored now inc s r'"
    "rs_domainExclusions r' = rs_domainExclusions r"
proof -
  let ?report = "default_recovery (cfg_statePath (rs_config r)) (rs_fence r)"
  let ?m = "image_of s (fresh_state (rs_config r))"
  let ?loaded = "install_image ?m"
  have read: "readStateFile io (cfg_statePath (rs_config r)) (cfg_maxStateBytes (rs_config r)) (rs_disk r) = Inr bytes"
    using assms(5-8) by (intro readStateFile_all)
  have "image_fault ?m = None"
    using assms(2) unfolding consistent_def by (rule trans [OF image_fault_saved])
  then obtain report1 where dec: "decodeState bytes (fresh_state (rs_config r)) ?report = (report1, Some ?loaded)"
    unfolding decode_encoded [OF assms(1,3)] Let_def by simp
  have epoch: "\<not> kMaxFenceValue < raw (epoch (rs_fence s)) + 1"
    using assms(4) by (simp add: not_less)
  obtain r' report where run: "recover now io inc r = (r', report)"
    by fastforce
  have "rec_status (snd (recover now io inc r)) = okStatus"
    unfolding recover_def Let_def using assms(5) by (simp add: read dec epoch case_prod_unfold)
  then have ok: "rec_status report = okStatus"
    by (simp add: run)
  then have "status_ok (rec_status report)"
    by simp
  then obtain bytes' report2 loaded t where out: "rs_disk r (cfg_statePath (rs_config r)) = Some bytes'"
    "decodeState bytes' (fresh_state (rs_config r)) ?report = (report2, Some loaded)" "recovered_ok t r'"
    "\<And>i. map_of (rs_reservations r') i = map_option (demotion now) (map_of (rs_reservations loaded) i)"
    "rs_fence r' = \<lparr>epoch = StrongValue (raw (epoch (rs_fence loaded)) + 1), incarnation = StrongValue inc\<rparr>"
    "rs_domains r' = rs_domains loaded" "rs_grids r' = rs_grids loaded"
    "rs_exclusionDomains r' = rs_exclusionDomains loaded" "rs_domainExclusions r' = rs_domainExclusions r"
    "rs_nextReservationId r' = rs_nextReservationId loaded"
    by (rule recover_accepted [OF run]) blast
  moreover have "loaded = ?loaded"
    using out(1,2) assms(6) dec by simp
  moreover have "rs_authority r' = (rs_authority ?loaded)\<lparr>auth_fence := rs_fence r'\<rparr>"
    using recover_authority [OF run _ assms(6) dec] ok by simp
  moreover have "(rs_authority ?loaded)\<lparr>auth_fence := f\<rparr> = (rs_authority s)\<lparr>auth_fence := f\<rparr>" for f
    by (simp add: install_image_def Let_def image_of_def apply_metadata_def metadata_of_def)
  ultimately show ?thesis
    using that [OF run ok] by (simp add: restored_def recovered_ok_def)
qed

text \<open>
  The membership index of the exclusion domains is not part of the image and is not rebuilt: a
  runtime that starts from an image registers the exclusion domains but scans none of them.
\<close>

lemma no_membership: "rs_domainExclusions s = [] \<Longrightarrow> siblings s d = []"
  by (simp add: siblings_def exclusion_list_def)

lemma save_then_recover:
  assumes "storable_state s" and "consistent s" and "status_ok (snd (save h s))"
    and "raw (epoch (rs_fence s)) + 1 \<le> kMaxFenceValue"
    and "cfg_statePath (rs_config r) = cfg_statePath (rs_config s)"
    and "cfg_maxStateBytes (rs_config r) = cfg_maxStateBytes (rs_config s)"
    and "rs_disk r = rs_disk (fst (save h s))"
    and "reads_all io (the (rs_disk r (cfg_statePath (rs_config r))))"
  obtains r' report where "recover now io inc r = (r', report)" "rec_status report = okStatus" "restored now inc s r'"
    "rs_domainExclusions r' = rs_domainExclusions r"
proof -
  have path: "cfg_statePath (rs_config s) \<noteq> []"
    using assms(3) by (auto simp: save_def saveLocked_def)
  obtain bytes where bytes: "encodeState s = Inr bytes"
    "rs_disk r (cfg_statePath (rs_config r)) = Some bytes" "length bytes \<le> unat (cfg_maxStateBytes (rs_config r))"
    using saveLocked_success_disk [of h s] assms(3,5-7) by (metis save_def)
  show ?thesis
    by (rule restart [OF assms(1,2) bytes(1) assms(4) _ bytes(2,3)])
      (use path assms(5,8) bytes(2) that in simp_all)
qed

text \<open>
  The converse: an image whose references are not consistent is written all the same, and is refused
  when it is read. Registering a grid again at a newer generation makes it so, because the domains on
  that grid go on naming the older generation.
\<close>

lemma inconsistent_is_refused:
  assumes "storable_state s" and "\<not> consistent s" and "status_ok (snd (save h s))"
    and "cfg_statePath (rs_config r) = cfg_statePath (rs_config s)"
    and "cfg_maxStateBytes (rs_config r) = cfg_maxStateBytes (rs_config s)"
    and "rs_disk r = rs_disk (fst (save h s))"
    and "reads_all io (the (rs_disk r (cfg_statePath (rs_config r))))"
  shows "code (rec_status (snd (recover now io inc r))) = Corruption"
proof -
  let ?report = "default_recovery (cfg_statePath (rs_config r)) (rs_fence r)"
  let ?m = "image_of s (fresh_state (rs_config r))"
  have path: "cfg_statePath (rs_config s) \<noteq> []"
    using assms(3) by (auto simp: save_def saveLocked_def)
  obtain bytes where bytes: "encodeState s = Inr bytes"
    "rs_disk r (cfg_statePath (rs_config r)) = Some bytes" "length bytes \<le> unat (cfg_maxStateBytes (rs_config r))"
    using saveLocked_success_disk [of h s] assms(3-6) by (metis save_def)
  have read: "readStateFile io (cfg_statePath (rs_config r)) (cfg_maxStateBytes (rs_config r)) (rs_disk r) = Inr bytes"
    using path bytes assms(4,7) by (intro readStateFile_all) simp_all
  have "image_fault ?m \<noteq> None"
    using assms(2) unfolding consistent_def image_fault_saved [of s "fresh_state (rs_config r)"] .
  then obtain report1 where "decodeState bytes (fresh_state (rs_config r)) ?report = (report1, None)"
    unfolding decode_encoded [OF assms(1) bytes(1)] Let_def by auto
  then show ?thesis
    using path read assms(4) by (simp add: recover_def Let_def)
qed

lemma consistent_grid:
  assumes "consistent s" and "map_of (rs_domains s) i = Some d"
  obtains g where "map_of (rs_grids s) (dom_grid d) = Some g" "grid_generation g = dom_gridGeneration d"
proof -
  have "d \<in> set (om_values (rs_domains s))"
    using map_of_SomeD [OF assms(2)] by (force simp: om_values_def)
  then have "domain_fault (image_of s s) d = None"
    using assms(1) by (auto simp: consistent_def image_fault_None first_fault_None)
  then show ?thesis
    using that by (auto simp: domain_fault_def split: option.splits if_splits)
qed

lemma superseded_grid:
  assumes "consistent s" and "status_ok (snd (registerGrid t g s))"
    and "map_of (rs_domains s) i = Some d" and "dom_grid d = grid_id g"
  shows "\<not> consistent (fst (registerGrid t g s))"
proof
  assume new: "consistent (fst (registerGrid t g s))"
  obtain old where old: "map_of (rs_grids s) (dom_grid d) = Some old" "grid_generation old = dom_gridGeneration d"
    by (rule consistent_grid [OF assms(1,3)])
  have "rs_domains (fst (registerGrid t g s)) = rs_domains s"
    using assms(2) by (auto simp: registerGrid_def Let_def split: option.splits if_splits)
  then obtain now where "map_of (rs_grids (fst (registerGrid t g s))) (dom_grid d) = Some now"
    "grid_generation now = dom_gridGeneration d"
    using consistent_grid [OF new, of i d] assms(3) by auto
  then show False
    using registerGrid_accepted [OF assms(2)] old assms(4) by auto
qed

end
