(* ===== verification/Cli_Facts.thy ===== *)
theory Cli_Facts
  imports Cli Restart
begin

text \<open>
  What the tool keeps of a durable runtime. The configuration of the runtime, and with it the path
  of its image, is fixed when the session opens: no command changes it. A mutating command that
  exits successfully has therefore saved the state it left under the path it was given, and the
  next invocation with that path opens a session on that state.
\<close>

section \<open>No operation changes the configuration\<close>

lemma note_operation_config: "rs_config (note_operation k now q m f s) = rs_config s"
  by (simp add: note_operation_def)

lemma reject_config: "rs_config (reject_authority i g now m s) = rs_config s"
  "rs_config (reject_lapsed i g now q m s) = rs_config s"
  by (simp_all add: reject_authority_def reject_lapsed_def Let_def)

lemma store_config: "rs_config (store i q s) = rs_config s"
  by (simp add: store_def)

lemma rollback_config: "rs_config (rollbackReservation b s) = rs_config s"
  by (simp add: rollbackReservation_def Let_def store_config)

lemma advanceState_config: "advanceState st (s, q) = ((s1, q1), e) \<Longrightarrow> rs_config s1 = rs_config s"
  by (auto simp: advanceState_def Let_def split: if_splits)

lemma advanceTwo_config: "advanceTwo a b (s, q) = ((s1, q1), e) \<Longrightarrow> rs_config s1 = rs_config s"
  by (auto simp: advanceTwo_def split: prod.splits option.splits dest!: advanceState_config)

lemma lookup_config: "lookup i g s = (s1, r) \<Longrightarrow> rs_config s1 = rs_config s"
  by (auto simp: lookup_def Let_def split: option.splits if_splits)

lemma persist_config: "persistAfterMutation h s = (s1, st) \<Longrightarrow> rs_config s1 = rs_config s"
  using persistAfterMutation_ownership [of s h] by (simp add: same_ownership_def)

lemma finish_config: "rs_config (fst (Lifecycle.finish h t b s)) = rs_config s"
  by (auto simp: Lifecycle.finish_def rollback_config split: prod.splits dest!: persist_config)

lemmas config_simps = note_operation_config reject_config store_config rollback_config finish_config
lemmas config_dests = advanceState_config advanceTwo_config lookup_config persist_config

text \<open>The operations are trees of tests, lookups and transitions whose leaves keep the configuration.\<close>

definition keeps_config :: "RuntimeState \<Rightarrow> RuntimeState \<times> 'a \<Rightarrow> bool" where
  "keeps_config s r \<longleftrightarrow> rs_config (fst r) = rs_config s"

lemma keeps_pair: "rs_config s1 = rs_config s \<Longrightarrow> keeps_config s (s1, x)"
  by (simp add: keeps_config_def)

lemma keeps_if: "keeps_config s x \<Longrightarrow> keeps_config s y \<Longrightarrow> keeps_config s (if b then x else y)"
  by simp

lemma keeps_option:
  "keeps_config s x \<Longrightarrow> (\<And>v. keeps_config s (f v)) \<Longrightarrow> keeps_config s (case r of None \<Rightarrow> x | Some v \<Rightarrow> f v)"
  by (simp split: option.split)

lemma keeps_lookup:
  "(\<And>s1 st. rs_config s1 = rs_config s \<Longrightarrow> keeps_config s (f s1 st)) \<Longrightarrow>
   (\<And>s1 q. rs_config s1 = rs_config s \<Longrightarrow> keeps_config s (k s1 q)) \<Longrightarrow>
   keeps_config s (case lookup i g s of (s1, Inl st) \<Rightarrow> f s1 st | (s1, Inr q) \<Rightarrow> k s1 q)"
  by (auto split: prod.split sum.split dest: lookup_config)

lemma keeps_advance:
  "rs_config s1 = rs_config s \<Longrightarrow>
   (\<And>s2 q2 e. rs_config s2 = rs_config s \<Longrightarrow> keeps_config s (f s2 q2 e)) \<Longrightarrow>
   (\<And>s2 q2. rs_config s2 = rs_config s \<Longrightarrow> keeps_config s (k s2 q2)) \<Longrightarrow>
   keeps_config s (case advanceState st (s1, q) of ((s2, q2), Some e) \<Rightarrow> f s2 q2 e | ((s2, q2), None) \<Rightarrow> k s2 q2)"
  by (auto split: prod.split option.split dest: advanceState_config)

lemma keeps_advanceTwo:
  "rs_config s1 = rs_config s \<Longrightarrow>
   (\<And>s2 q2 e. rs_config s2 = rs_config s \<Longrightarrow> keeps_config s (f s2 q2 e)) \<Longrightarrow>
   (\<And>s2 q2. rs_config s2 = rs_config s \<Longrightarrow> keeps_config s (k s2 q2)) \<Longrightarrow>
   keeps_config s (case advanceTwo a b (s1, q) of ((s2, q2), Some e) \<Rightarrow> f s2 q2 e | ((s2, q2), None) \<Rightarrow> k s2 q2)"
  by (auto split: prod.split option.split dest: advanceTwo_config)

lemma keeps_finish: "rs_config s1 = rs_config s \<Longrightarrow> keeps_config s (Lifecycle.finish h t b s1)"
  by (simp add: keeps_config_def finish_config)

lemmas keeps_intros = keeps_if keeps_option keeps_lookup keeps_advance keeps_advanceTwo keeps_finish keeps_pair

lemma activate_config: "keeps_config s (activate h i g a now s)"
  unfolding activate_def Let_def by (intro keeps_intros) (simp_all add: config_simps)

lemma deactivate_config: "keeps_config s (deactivate h i g a now s)"
  unfolding deactivate_def Let_def by (intro keeps_intros) (simp_all add: config_simps)

lemma release_config: "keeps_config s (release h i g a now s)"
  unfolding release_def Let_def by (intro keeps_intros) (simp_all add: config_simps)

lemma renew_config: "keeps_config s (renew h i g x a now n s)"
  unfolding renew_def Let_def by (intro keeps_intros) (simp_all add: config_simps)

lemma lapse_config: "rs_config (sw_state (lapse_entry now i w)) = rs_config (sw_state w)"
  by (auto simp: lapse_entry_def Let_def config_simps split: prod.splits option.splits dest!: config_dests)

lemma reclaim_entry_config: "rs_config (sw_state (reclaim_entry now i w)) = rs_config (sw_state w)"
  by (auto simp: reclaim_entry_def Let_def config_simps split: prod.splits option.splits dest!: config_dests)

lemma fold_config:
  assumes "\<And>i w. rs_config (sw_state (f i w)) = rs_config (sw_state w)"
  shows "rs_config (sw_state (fold f is w)) = rs_config (sw_state w)"
  using assms by (induction "is" arbitrary: w) simp_all

lemma markLapsed_config: "rs_config (sw_state (markLapsed now s)) = rs_config s"
  by (simp add: markLapsed_def fold_config lapse_config)

lemma rollbackAll_config: "rs_config (rollbackAll bs s) = rs_config s"
  unfolding rollbackAll_def by (induction bs arbitrary: s) (simp_all add: rollback_config)

lemma finish_sweep_config: "rs_config (fst (finish_sweep h now r bs s)) = rs_config s"
  by (auto simp: finish_sweep_def Let_def rollbackAll_config count_sweep_def split: prod.splits dest!: persist_config)

lemma sweep_config: "keeps_config s (expireLeases h now s)" "keeps_config s (reclaimExpired h now s)"
  by (simp_all add: keeps_config_def expireLeases_def reclaimExpired_def Let_def finish_sweep_config
      markLapsed_config fold_config reclaim_entry_config)

lemma rebuild_config: "rs_config (rebuildIndices s) = rs_config s"
  by simp

lemma adopt_config: "rs_config (adopt loaded e inc s) = rs_config s"
  by (simp add: adopt_def Let_def)

lemma demote_config: "rs_config (fst (demote_active now s)) = rs_config s"
  by (simp add: demote_active_def)

lemma recover_config: "keeps_config s (recover now io inc s)"
proof -
  obtain s' report where run: "recover now io inc s = (s', report)"
    by fastforce
  then have "rs_config s' = rs_config s"
    by (cases rule: recover_cases) (auto simp: same_ownership_def adopt_config demote_config)
  then show ?thesis
    by (simp add: run keeps_config_def)
qed

section \<open>Commands of a local session\<close>

definition stays_local :: "RuntimeState \<Rightarrow> Session \<times> 'a \<Rightarrow> bool" where
  "stays_local s0 r \<longleftrightarrow> (\<exists>s. fst r = LocalSession s \<and> rs_config s = rs_config s0)"

lemma stays_here: "stays_local s (LocalSession s, x)"
  by (simp add: stays_local_def)

lemma stays_on: "keeps_config s (local s) \<Longrightarrow> stays_local s (exit_of (on_session local remote (LocalSession s)))"
  by (auto simp: stays_local_def keeps_config_def exit_of_def on_session_def split: prod.split)

lemma stays_from:
  "keeps_config s (local s) \<Longrightarrow> stays_local s (exit_of_value (from_session local remote (LocalSession s)))"
  by (auto simp: stays_local_def keeps_config_def exit_of_def exit_of_value_def from_session_def split: prod.split)

lemma stays_spec: "(\<And>v. stays_local s (k v)) \<Longrightarrow> stays_local s (with_spec parse c (LocalSession s) k)"
  by (simp add: with_spec_def stays_here split: list.split option.split)

lemma with_info_local: "with_info (LocalSession s) k = k (LocalSession s) (local_info s)"
  by (simp add: with_info_def session_info_def from_session_def)

lemma keeps_reservation: "rs_config s1 = rs_config s \<Longrightarrow> keeps_config s (local_reservation i s1)"
  by (simp add: local_reservation_def keeps_config_def split: option.split)

lemma keeps_operation: "keeps_config s r \<Longrightarrow> keeps_config s (local_operation i r)"
  by (auto simp: local_operation_def keeps_config_def keeps_reservation [unfolded keeps_config_def] split: prod.split)

lemma registration_config:
  "keeps_config s (registerGrid t g s)" "keeps_config s (registerDomain t d s)"
  "keeps_config s (registerExclusionDomain t e s)" "keeps_config s (publishCapability t c s)"
  using registration_keeps(2) [of s t g] registration_keeps(5) [of s t d]
    registration_keeps(6) [of s t e] registration_keeps(7) [of s t c]
  by (simp_all add: keeps_config_def keeps_leases_def)

lemma sweep_session_config: "stays_local s (exit_of_value (session_sweep h reclaiming a (LocalSession s)))"
  unfolding session_sweep_def using sweep_config [of s h "swp_now a"]
  by (intro stays_from) (auto simp: keeps_config_def split: prod.split)

lemma operation_session_config:
  "stays_local s (exit_of_value (session_renew h a1 (LocalSession s)))"
  "stays_local s (exit_of_value (session_activate h a2 (LocalSession s)))"
  "stays_local s (exit_of_value (session_deactivate h a2 (LocalSession s)))"
  "stays_local s (exit_of_value (session_release h a3 (LocalSession s)))"
  unfolding session_renew_def session_activate_def session_deactivate_def session_release_def
  by (intro stays_from keeps_operation renew_config activate_config deactivate_config release_config)+

lemma mutating_stays_local:
  assumes "isMutatingCommand (cmd_name c)"
  shows "stays_local s (cli_dispatch e (LocalSession s) c)"
proof -
  have "stays_local s (commandRegisterGrid h (LocalSession s) c)" for h
    unfolding commandRegisterGrid_def by (intro stays_spec stays_on registration_config)
  moreover have "stays_local s (commandRegisterDomain h (LocalSession s) c)" for h
    unfolding commandRegisterDomain_def by (intro stays_spec stays_on registration_config)
  moreover have "stays_local s (commandRegisterExclusion h (LocalSession s) c)" for h
    unfolding commandRegisterExclusion_def by (intro stays_spec stays_on registration_config)
  moreover have "stays_local s (commandPublishCapability h (LocalSession s) c)" for h
    unfolding commandPublishCapability_def with_info_local Let_def
    by (rule stays_spec) (auto simp: stays_here intro: stays_on registration_config split: option.split)
  moreover have "stays_local s (commandRenew h (LocalSession s) c)" for h
    unfolding commandRenew_def with_info_local
    by (rule stays_spec) (simp add: operation_session_config split: prod.split)
  moreover have "stays_local s (commandActivation h b (LocalSession s) c)" for h b
    unfolding commandActivation_def with_info_local Let_def
    by (rule stays_spec) (simp add: operation_session_config split: prod.split)
  moreover have "stays_local s (commandRelease h (LocalSession s) c)" for h
    unfolding commandRelease_def with_info_local
    by (rule stays_spec) (simp add: operation_session_config split: prod.split)
  moreover have "stays_local s (commandSweep h b (LocalSession s) c)" for h b
    unfolding commandSweep_def by (simp add: stays_here sweep_session_config split: option.split)
  ultimately show ?thesis
    using assms unfolding isMutatingCommand_def cli_dispatch_def Let_def by auto
qed

section \<open>Opening and closing a durable session\<close>

definition on_image :: "Invocation \<Rightarrow> bool" where
  "on_image v \<longleftrightarrow> inv_mode v = LocalMode \<and> inv_statePath v \<noteq> []"

definition opened :: "Process \<Rightarrow> Invocation \<Rightarrow> RuntimeState" where
  "opened e v = SpectrumRuntime (makeConfig (inv_statePath v)) (prc_incarnation e) (host_now (prc_command e)) (prc_disk e)"

lemma opened_fields:
  "cfg_statePath (rs_config (opened e v)) = inv_statePath v"
  "cfg_maxStateBytes (rs_config (opened e v)) = 268435456"
  "rs_disk (opened e v) = prc_disk e" "rs_domainExclusions (opened e v) = []"
  by (simp_all add: opened_def SpectrumRuntime_def Let_def normalise_config_def makeConfig_def default_config_def)

lemma open_durable:
  assumes "on_image v" and "open_session e v = (session, status)"
  obtains s0 where "session = LocalSession s0" "rs_config s0 = rs_config (opened e v)"
proof -
  have "\<exists>s0. session = LocalSession s0 \<and> rs_config s0 = rs_config (opened e v)"
    using assms recover_config [of "opened e v" "host_now (prc_command e)" "prc_read e" "prc_recoveryIncarnation e"]
    by (auto simp: on_image_def open_session_def opened_def [symmetric] local_load_def keeps_config_def Let_def
        split: if_splits prod.splits)
  then show ?thesis
    using that by blast
qed

lemma run_durable:
  assumes "on_image v" and "isMutatingCommand (cmd_name (inv_command v))"
    and "run_invocation e v = (session, ExitOk)"
  obtains s0 s status where "open_session e v = (LocalSession s0, status)" "status_ok status"
    "cli_dispatch e (LocalSession s0) (inv_command v) = (LocalSession s, ExitOk)"
    "session = LocalSession (fst (save (prc_persist e) s))" "status_ok (snd (save (prc_persist e) s))"
    "rs_config s = rs_config (opened e v)"
proof -
  obtain session0 status where start: "open_session e v = (session0, status)"
    by fastforce
  obtain s0 where local: "session0 = LocalSession s0" "rs_config s0 = rs_config (opened e v)"
    by (rule open_durable [OF assms(1) start])
  obtain session1 x where dispatch: "cli_dispatch e (LocalSession s0) (inv_command v) = (session1, x)"
    by fastforce
  obtain s where s: "session1 = LocalSession s" "rs_config s = rs_config s0"
    using mutating_stays_local [OF assms(2), of s0 e] dispatch by (auto simp: stays_local_def)
  have ok: "status_ok status"
    using assms(3) by (auto simp: run_invocation_def start split: if_splits)
  then have run: "run_invocation e v = finish e v (LocalSession s, x)"
    by (simp add: run_invocation_def start local dispatch s)
  then have "x = ExitOk"
    using assms(3) by (auto simp: finish_def split: if_splits)
  moreover have "session = LocalSession (fst (save (prc_persist e) s)) \<and> status_ok (snd (save (prc_persist e) s))"
    using assms run \<open>x = ExitOk\<close>
    by (auto simp: finish_def on_image_def session_save_def on_session_def exit_of_def split: prod.splits if_splits)
  ultimately show ?thesis
    using that start ok local dispatch s by simp
qed

lemma next_session:
  assumes "on_image w" and "inv_statePath w = cfg_statePath (rs_config s)" and "cmd_name (inv_command w) \<noteq> ''recover''"
    and "storable_state s" and "consistent s" and "status_ok (snd (save h s))"
    and "raw (epoch (rs_fence s)) + 1 \<le> kMaxFenceValue" and "cfg_maxStateBytes (rs_config s) = 268435456"
    and "prc_disk e = rs_disk (fst (save h s))"
    and "reads_all (prc_read e) (the (prc_disk e (inv_statePath w)))"
  shows "\<exists>r. open_session e w = (LocalSession r, okStatus)
     \<and> restored (host_now (prc_command e)) (prc_recoveryIncarnation e) s r \<and> rs_domainExclusions r = []"
proof -
  obtain r report where "recover (host_now (prc_command e)) (prc_read e) (prc_recoveryIncarnation e) (opened e w) = (r, report)"
    "rec_status report = okStatus" "restored (host_now (prc_command e)) (prc_recoveryIncarnation e) s r"
    "rs_domainExclusions r = rs_domainExclusions (opened e w)"
    by (rule save_then_recover [OF assms(4-7), of "opened e w"]) (use assms opened_fields in \<open>auto simp: opened_fields\<close>)
  then show ?thesis
    using assms(1,3) by (auto simp: open_session_def on_image_def opened_def [symmetric] local_load_def opened_fields okStatus_def Let_def)
qed

text \<open>A mutating command in one invocation, and any other invocation on the same image afterwards.\<close>

lemma durable_run:
  assumes "on_image v" and "isMutatingCommand (cmd_name (inv_command v))"
    and "run_invocation e v = (LocalSession s1, ExitOk)"
    and "fst (open_session e v) = LocalSession s0"
    and "fst (cli_dispatch e (LocalSession s0) (inv_command v)) = LocalSession s"
  shows "s1 = fst (save (prc_persist e) s)" and "status_ok (snd (save (prc_persist e) s))"
    and "rs_config s = rs_config (opened e v)"
proof -
  obtain s0' s' status where run: "open_session e v = (LocalSession s0', status)"
    "cli_dispatch e (LocalSession s0') (inv_command v) = (LocalSession s', ExitOk)"
    "LocalSession s1 = LocalSession (fst (save (prc_persist e) s'))" "status_ok (snd (save (prc_persist e) s'))"
    "rs_config s' = rs_config (opened e v)"
    by (rule run_durable [OF assms(1-3)]) blast
  then have "s' = s"
    using assms(4,5) by simp
  then show "s1 = fst (save (prc_persist e) s)" "status_ok (snd (save (prc_persist e) s))"
    "rs_config s = rs_config (opened e v)"
    using run by simp_all
qed

section \<open>An example\<close>

definition demo_invocation :: Invocation where
  "demo_invocation = \<lparr>inv_mode = LocalMode, inv_statePath = ''p'', inv_host = [], inv_port = 0,
     inv_command = \<lparr>cmd_name = ''register-grid'', cmd_args = [''fixed:1:1:191400000:50000:8''], cmd_at = None\<rparr>\<rparr>"

lemma demo_command_line:
  "parse_command_line [''--state'', ''p'', ''register-grid'', ''fixed:1:1:191400000:50000:8''] = Invoke demo_invocation"
  by code_simp

text \<open>
  The first process finds no image, and a disk that takes \<open>n\<close> bytes for the image it saves; the second
  one reads that image and does anything but recover.
\<close>

definition demo_answers :: "nat \<Rightarrow> FileIo" where
  "demo_answers n = \<lparr>io_open = True, io_written = n, io_close = True, io_rename = None\<rparr>"

definition demo_process :: "nat \<Rightarrow> (string \<Rightarrow> u8 list option) \<Rightarrow> ReadIo \<Rightarrow> Process" where
  "demo_process n disk reads =
     \<lparr>prc_command = \<lparr>host_now = 10, host_io = demo_answers n\<rparr>, prc_persist = \<lparr>host_now = 11, host_io = demo_answers n\<rparr>,
      prc_read = reads, prc_incarnation = 7, prc_recoveryIncarnation = 8, prc_selfIncarnation = 9, prc_disk = disk,
      prc_initialized = okStatus,
      prc_connect = \<lparr>cos_ready = okStatus, cos_literal = None, cos_resolved = None, cos_socket = Inl [],
        cos_connect = (\<lambda>_. None)\<rparr>\<rparr>"

definition no_file :: ReadIo where
  "no_file = \<lparr>rio_exists = False, rio_sizeError = None, rio_open = False, rio_gcount = 0\<rparr>"

definition demo_session :: "Session \<times> Exit" where
  "demo_session = (let e = demo_process 0 (\<lambda>_. None) no_file
     in cli_dispatch e (fst (open_session e demo_invocation)) (inv_command demo_invocation))"

definition demo_kept :: RuntimeState where
  "demo_kept = (case fst demo_session of LocalSession s \<Rightarrow> s)"

lemma demo_session_facts:
  "case open_session (demo_process 0 (\<lambda>_. None) no_file) demo_invocation of (session, status) \<Rightarrow> status_ok status
     \<and> (case cli_dispatch (demo_process 0 (\<lambda>_. None) no_file) session (inv_command demo_invocation) of
          (LocalSession s, x) \<Rightarrow> x = ExitOk \<and> storable_state s \<and> consistent s
            \<and> 1 + length (rs_grids s) + length (rs_spans s) + length (rs_ports s) + length (rs_domains s)
              + length (rs_exclusionDomains s) + length (rs_capabilities s) + length (rs_reservations s)
              + length (rs_audit s) \<le> 1000
            \<and> raw (epoch (rs_fence s)) + 1 \<le> kMaxFenceValue \<and> length (rs_grids s) = 1
        | _ \<Rightarrow> False)"
  by code_simp

lemma demo_process_fields:
  "host_now (prc_command (demo_process n d r)) = 10" "prc_read (demo_process n d r) = r"
  "prc_incarnation (demo_process n d r) = 7" "prc_recoveryIncarnation (demo_process n d r) = 8"
  "prc_disk (demo_process n d r) = d" "prc_initialized (demo_process n d r) = okStatus"
  "prc_connect (demo_process n d r) = prc_connect (demo_process 0 d r)"
  by (simp_all add: demo_process_def)

lemma demo_process_same:
  "open_session (demo_process n d r) demo_invocation = open_session (demo_process 0 d r) demo_invocation"
  "cli_dispatch (demo_process n d r) session (inv_command demo_invocation)
     = cli_dispatch (demo_process 0 d r) session (inv_command demo_invocation)"
proof -
  show "open_session (demo_process n d r) demo_invocation = open_session (demo_process 0 d r) demo_invocation"
    unfolding open_session_def local_load_def demo_process_fields(1-6) demo_process_fields(7) [of n] by (rule refl)
  show "cli_dispatch (demo_process n d r) session (inv_command demo_invocation)
      = cli_dispatch (demo_process 0 d r) session (inv_command demo_invocation)"
    by (simp add: cli_dispatch_def demo_invocation_def commandRegisterGrid_def demo_process_fields)
qed

definition demo_first_process :: Process where
  "demo_first_process = demo_process (case encodeState demo_kept of Inr bytes \<Rightarrow> length bytes | Inl _ \<Rightarrow> 0) (\<lambda>_. None) no_file"

lemma demo_durable: "on_image demo_invocation" "isMutatingCommand (cmd_name (inv_command demo_invocation))"
  by (simp_all add: on_image_def demo_invocation_def isMutatingCommand_def)

lemma demo_run_first:
  obtains s0 status where "open_session demo_first_process demo_invocation = (LocalSession s0, status)" "status_ok status"
    "cli_dispatch demo_first_process (LocalSession s0) (inv_command demo_invocation) = (LocalSession demo_kept, ExitOk)"
    "storable_state demo_kept" "consistent demo_kept" "length (state_payloads demo_kept) \<le> 1000"
    "raw (epoch (rs_fence demo_kept)) + 1 \<le> kMaxFenceValue" "length (rs_grids demo_kept) = 1"
proof -
  let ?e = "demo_process 0 (\<lambda>_. None) no_file"
  obtain session status where start: "open_session ?e demo_invocation = (session, status)"
    by fastforce
  obtain s0 where s0: "session = LocalSession s0"
    by (rule open_durable [OF demo_durable(1) start])
  obtain session1 x where dispatch: "cli_dispatch ?e session (inv_command demo_invocation) = (session1, x)"
    by fastforce
  obtain s where s: "session1 = LocalSession s"
    using mutating_stays_local [OF demo_durable(2), of s0 ?e] dispatch s0 by (auto simp: stays_local_def)
  have kept: "demo_kept = s"
    by (simp add: demo_kept_def demo_session_def start dispatch s)
  have facts: "status_ok status" "x = ExitOk" "storable_state s" "consistent s"
    "length (state_payloads s) \<le> 1000" "raw (epoch (rs_fence s)) + 1 \<le> kMaxFenceValue" "length (rs_grids s) = 1"
    using demo_session_facts unfolding start prod.case dispatch s Session.case length_state_payloads by simp_all
  have same: "open_session demo_first_process demo_invocation = open_session ?e demo_invocation"
    "cli_dispatch demo_first_process (LocalSession s0) (inv_command demo_invocation)
      = cli_dispatch ?e (LocalSession s0) (inv_command demo_invocation)"
    unfolding demo_first_process_def by (rule demo_process_same)+
  show ?thesis
    by (rule that [of s0 status]) (use start dispatch s s0 facts in \<open>simp_all add: kept same\<close>)
qed

lemma demo_kept_config:
  "cfg_statePath (rs_config demo_kept) = ''p''" "cfg_maxStateBytes (rs_config demo_kept) = 268435456"
proof -
  obtain s0 status where run: "open_session demo_first_process demo_invocation = (LocalSession s0, status)"
    "cli_dispatch demo_first_process (LocalSession s0) (inv_command demo_invocation) = (LocalSession demo_kept, ExitOk)"
    by (rule demo_run_first)
  obtain s0' where s0': "LocalSession s0 = LocalSession s0'" "rs_config s0' = rs_config (opened demo_first_process demo_invocation)"
    by (rule open_durable [OF demo_durable(1) run(1)])
  have "stays_local s0 (cli_dispatch demo_first_process (LocalSession s0) (inv_command demo_invocation))"
    by (rule mutating_stays_local [OF demo_durable(2)])
  then have "rs_config demo_kept = rs_config (opened demo_first_process demo_invocation)"
    using s0' run(2) by (auto simp: stays_local_def)
  then show "cfg_statePath (rs_config demo_kept) = ''p''" "cfg_maxStateBytes (rs_config demo_kept) = 268435456"
    by (simp_all add: opened_fields demo_invocation_def)
qed

lemma demo_kept_saves: "status_ok (snd (save (prc_persist demo_first_process) demo_kept))"
proof -
  have ok: "storable_state demo_kept" "length (state_payloads demo_kept) \<le> 1000"
    by (rule demo_run_first; assumption)+
  obtain bytes where bytes: "encodeState demo_kept = Inr bytes"
    using encodeState_returns [OF ok] by blast
  have "length bytes \<le> 67108928"
    using encodeState_length [OF ok(1) bytes] by (simp add: kMaxBufferBytes_def)
  then show ?thesis
    by (simp add: save_def saveLocked_def demo_kept_config bytes demo_first_process_def demo_process_def demo_answers_def
        writeStateFile_def)
qed

definition demo_saved :: RuntimeState where
  "demo_saved = fst (save (prc_persist demo_first_process) demo_kept)"

lemma demo_first_exits: "run_invocation demo_first_process demo_invocation = (LocalSession demo_saved, ExitOk)"
proof -
  obtain s0 status where run: "open_session demo_first_process demo_invocation = (LocalSession s0, status)" "status_ok status"
    "cli_dispatch demo_first_process (LocalSession s0) (inv_command demo_invocation) = (LocalSession demo_kept, ExitOk)"
    by (rule demo_run_first)
  show ?thesis
    using demo_durable demo_kept_saves
    by (auto simp: run_invocation_def run finish_def on_image_def session_save_def on_session_def exit_of_def demo_saved_def
        split: prod.split)
qed

definition demo_next :: Invocation where
  "demo_next = demo_invocation\<lparr>inv_command := \<lparr>cmd_name = ''show'', cmd_args = [''fence''], cmd_at = None\<rparr>\<rparr>"

definition demo_second_process :: Process where
  "demo_second_process = demo_process 0 (rs_disk demo_saved)
     \<lparr>rio_exists = True, rio_sizeError = None, rio_open = True, rio_gcount = length (the (rs_disk demo_saved ''p''))\<rparr>"

end
