(* ===== verification/Worker_Pool.thy ===== *)
theory Worker_Pool
  imports Server Endpoint "HOL-Library.Multiset"
begin

text \<open>
  The threads of the server: \<open>start\<close>, the accept loop \<open>serve\<close>, \<open>workerLoop\<close> and \<open>stop\<close> as a step relation. One
  step is one action on the shared state: a test of the stop flag, a critical section of the mutex,
  a notification, an addition to the counter. A worker whose predicate was false holds the mutex
  until it blocks; it blocks in a step of its own, because \<open>stop\<close> sets the flag and notifies without
  the mutex. The history variables record the connections admitted, taken and finished.
\<close>

section \<open>State\<close>

text \<open>
  A worker tests its predicate, is about to block with the mutex held, is blocked, has taken a
  connection, serves it, has set the stop flag for it and not yet notified, leaves it, or returned.
\<close>

datatype Worker =
    Testing | Waiting | Blocked | Taken Socket | Serving Socket | Announcing Socket | Leaving Socket | Returned

datatype Acceptor = Looping | Accepting | Pushing Socket | Notifying | Draining | Joining | Finished

record Pool =
  pool_config :: ServerConfig
  pool_pending :: "Socket list"
  pool_stopping :: bool
  pool_active :: nat
  pool_peak :: nat
  pool_workers :: "Worker list"
  pool_acceptor :: Acceptor
  pool_stops :: nat
  pool_admitted :: "Socket list"
  pool_taken :: "Socket list"
  pool_finished :: "Socket list"

definition msg_already_started :: string where "msg_already_started = ''the server is already started''"

definition start :: "bool \<Rightarrow> Status \<Rightarrow> ListenOs \<Rightarrow> ServerConfig \<Rightarrow> Status + Pool \<times> Socket \<times> nat" where
  "start started initialized os c =
     (if started then Inl (fail Duplicate msg_already_started)
      else if \<not> status_ok initialized then Inl initialized
      else case listenTcp \<lparr>lst_address = scf_address c, lst_port = scf_port c, lst_backlog = scf_backlog c\<rparr> os of
        Inl st \<Rightarrow> Inl st
      | Inr (listener, port) \<Rightarrow>
          Inr (\<lparr>pool_config = c, pool_pending = [], pool_stopping = False, pool_active = 0, pool_peak = 0,
             pool_workers = replicate (scf_workerThreads c) Testing, pool_acceptor = Looping, pool_stops = 0,
             pool_admitted = [], pool_taken = [], pool_finished = []\<rparr>, listener, port))"

section \<open>Actions\<close>

definition mutex_free :: "Pool \<Rightarrow> bool" where
  "mutex_free p \<longleftrightarrow> Waiting \<notin> set (pool_workers p)"

definition set_worker :: "nat \<Rightarrow> Worker \<Rightarrow> Pool \<Rightarrow> Pool" where
  "set_worker i w p = p\<lparr>pool_workers := (pool_workers p)[i := w]\<rparr>"

definition notify_all :: "Pool \<Rightarrow> Pool" where
  "notify_all p = p\<lparr>pool_workers := map (\<lambda>w. if w = Blocked then Testing else w) (pool_workers p)\<rparr>"

text \<open>The critical section of a worker: its predicate, and the connection at the front.\<close>

definition take_turn :: "nat \<Rightarrow> Pool \<Rightarrow> Pool" where
  "take_turn i p =
     (case pool_pending p of
        [] \<Rightarrow> set_worker i (if pool_stopping p then Returned else Waiting) p
      | k # ks \<Rightarrow> set_worker i (Taken k) (p\<lparr>pool_pending := ks, pool_taken := pool_taken p @ [k]\<rparr>))"

text \<open>The critical section of the acceptor: a full queue drops the connection.\<close>

definition push :: "Socket \<Rightarrow> Pool \<Rightarrow> Pool" where
  "push k p =
     (if length (pool_pending p) < scf_maxConnections (pool_config p)
      then let pending = pool_pending p @ [k]
           in p\<lparr>pool_pending := pending, pool_peak := max (pool_peak p) (length pending + pool_active p),
                pool_admitted := pool_admitted p @ [k], pool_acceptor := Notifying\<rparr>
      else p\<lparr>pool_acceptor := Notifying\<rparr>)"

text \<open>What the accept loop does with the answer to its poll.\<close>

definition accepted :: "Status + Socket \<times> string \<Rightarrow> bool \<Rightarrow> Acceptor" where
  "accepted answer stopping =
     (case answer of
        Inl st \<Rightarrow> if code st = Unavailable then Looping else if stopping then Draining else Looping
      | Inr (k, peer) \<Rightarrow> Pushing k)"

text \<open>The connection asked the server to stop: a shutdown request was answered on it.\<close>

definition asked_to_stop :: "ServerConfig \<Rightarrow> Socket \<Rightarrow> bool \<Rightarrow> bool" where
  "asked_to_stop c k b \<longleftrightarrow> (\<exists>env s. con_stopping (serveConnection env c k s) = b)"

datatype Actor = TheAcceptor | TheWorker nat | StopCalled | StopNotified | SpuriousWakeup nat

inductive pool_step :: "Pool \<Rightarrow> Actor \<Rightarrow> Pool \<Rightarrow> bool" where
  loop_test: "pool_acceptor p = Looping \<Longrightarrow>
     pool_step p TheAcceptor (p\<lparr>pool_acceptor := if pool_stopping p then Draining else Accepting\<rparr>)"
| accept_answer: "pool_acceptor p = Accepting \<Longrightarrow>
     pool_step p TheAcceptor (p\<lparr>pool_acceptor :=
       accepted (acceptTcp listener (scf_acceptPollMillis (pool_config p)) os) (pool_stopping p)\<rparr>)"
| accept_push: "pool_acceptor p = Pushing k \<Longrightarrow> mutex_free p \<Longrightarrow> pool_step p TheAcceptor (push k p)"
| notify_none: "pool_acceptor p = Notifying \<Longrightarrow> Blocked \<notin> set (pool_workers p) \<Longrightarrow>
     pool_step p TheAcceptor (p\<lparr>pool_acceptor := Looping\<rparr>)"
| notify_one: "pool_acceptor p = Notifying \<Longrightarrow> i < length (pool_workers p) \<Longrightarrow> pool_workers p ! i = Blocked \<Longrightarrow>
     pool_step p TheAcceptor (set_worker i Testing (p\<lparr>pool_acceptor := Looping\<rparr>))"
| drain: "pool_acceptor p = Draining \<Longrightarrow> pool_step p TheAcceptor (notify_all (p\<lparr>pool_acceptor := Joining\<rparr>))"
| join: "pool_acceptor p = Joining \<Longrightarrow> set (pool_workers p) \<subseteq> {Returned} \<Longrightarrow>
     pool_step p TheAcceptor (p\<lparr>pool_acceptor := Finished\<rparr>)"
| turn: "i < length (pool_workers p) \<Longrightarrow> pool_workers p ! i = Testing \<Longrightarrow> mutex_free p \<Longrightarrow>
     pool_step p (TheWorker i) (take_turn i p)"
| block: "i < length (pool_workers p) \<Longrightarrow> pool_workers p ! i = Waiting \<Longrightarrow>
     pool_step p (TheWorker i) (set_worker i Blocked p)"
| enter: "i < length (pool_workers p) \<Longrightarrow> pool_workers p ! i = Taken k \<Longrightarrow>
     pool_step p (TheWorker i) (set_worker i (Serving k) (p\<lparr>pool_active := pool_active p + 1\<rparr>))"
| served: "i < length (pool_workers p) \<Longrightarrow> pool_workers p ! i = Serving k \<Longrightarrow>
     asked_to_stop (pool_config p) k False \<Longrightarrow> pool_step p (TheWorker i) (set_worker i (Leaving k) p)"
| served_stop: "i < length (pool_workers p) \<Longrightarrow> pool_workers p ! i = Serving k \<Longrightarrow>
     asked_to_stop (pool_config p) k True \<Longrightarrow>
     pool_step p (TheWorker i) (set_worker i (Announcing k) (p\<lparr>pool_stopping := True\<rparr>))"
| announce: "i < length (pool_workers p) \<Longrightarrow> pool_workers p ! i = Announcing k \<Longrightarrow>
     pool_step p (TheWorker i) (notify_all (set_worker i (Leaving k) p))"
| leave: "i < length (pool_workers p) \<Longrightarrow> pool_workers p ! i = Leaving k \<Longrightarrow>
     pool_step p (TheWorker i) (set_worker i Testing
       (p\<lparr>pool_active := pool_active p - 1, pool_finished := pool_finished p @ [k]\<rparr>))"
| stop_store: "pool_step p StopCalled (p\<lparr>pool_stopping := True, pool_stops := Suc (pool_stops p)\<rparr>)"
| stop_notify: "0 < pool_stops p \<Longrightarrow>
     pool_step p StopNotified (notify_all (p\<lparr>pool_stops := pool_stops p - 1\<rparr>))"
| spurious: "i < length (pool_workers p) \<Longrightarrow> pool_workers p ! i = Blocked \<Longrightarrow>
     pool_step p (SpuriousWakeup i) (set_worker i Testing p)"

inductive pool_reach :: "Pool \<Rightarrow> bool" where
  started: "start False initialized os (SpectrumServer c) = Inr (p, listener, port) \<Longrightarrow> pool_reach p"
| moved: "pool_reach p \<Longrightarrow> pool_step p a p' \<Longrightarrow> pool_reach p'"

section \<open>Invariant\<close>

text \<open>What a worker contributes to the counter of active connections, and the connections it holds.\<close>

fun busy :: "Worker \<Rightarrow> nat" where
  "busy (Serving k) = 1"
| "busy (Announcing k) = 1"
| "busy (Leaving k) = 1"
| "busy _ = 0"

fun holds :: "Worker \<Rightarrow> Socket multiset" where
  "holds (Taken k) = {#k#}"
| "holds (Serving k) = {#k#}"
| "holds (Announcing k) = {#k#}"
| "holds (Leaving k) = {#k#}"
| "holds _ = {#}"

fun about_to_block :: "Worker \<Rightarrow> nat" where
  "about_to_block Waiting = 1"
| "about_to_block _ = 0"

definition over_workers :: "(Worker \<Rightarrow> 'a::comm_monoid_add) \<Rightarrow> Pool \<Rightarrow> 'a" where
  "over_workers f p = sum_list (map f (pool_workers p))"

definition pool_inv :: "Pool \<Rightarrow> bool" where
  "pool_inv p \<longleftrightarrow> length (pool_workers p) = scf_workerThreads (pool_config p)
     \<and> length (pool_pending p) \<le> scf_maxConnections (pool_config p)
     \<and> pool_active p = over_workers busy p
     \<and> pool_peak p \<le> scf_maxConnections (pool_config p) + scf_workerThreads (pool_config p)
     \<and> pool_admitted p = pool_taken p @ pool_pending p
     \<and> mset (pool_taken p) = mset (pool_finished p) + over_workers holds p
     \<and> over_workers about_to_block p \<le> 1"

lemma sum_list_update:
  fixes f :: "'b \<Rightarrow> 'a::comm_monoid_add"
  shows "i < length xs \<Longrightarrow> sum_list (map f (xs[i := y])) + f (xs ! i) = sum_list (map f xs) + f y"
proof (induction xs arbitrary: i)
  case (Cons x xs)
  show ?case
  proof (cases i)
    case (Suc j)
    then have "sum_list (map f (xs[j := y])) + f (xs ! j) = sum_list (map f xs) + f y"
      using Cons by simp
    then show ?thesis
      using Suc by (simp add: add.assoc)
  qed (simp add: ac_simps)
qed simp

lemma over_set_worker:
  "i < length (pool_workers p) \<Longrightarrow>
     over_workers f (set_worker i w p) + f (pool_workers p ! i) = over_workers f p + f w"
  by (simp add: over_workers_def set_worker_def sum_list_update)

lemma over_notify_all:
  "f Blocked = f Testing \<Longrightarrow> over_workers f (notify_all p) = over_workers f p"
  unfolding over_workers_def notify_all_def by (simp add: comp_def cong: if_cong) (metis (full_types))

lemma over_frame [simp]:
  "over_workers f (p\<lparr>pool_pending := ks\<rparr>) = over_workers f p"
  "over_workers f (p\<lparr>pool_stopping := b\<rparr>) = over_workers f p"
  "over_workers f (p\<lparr>pool_active := n\<rparr>) = over_workers f p"
  "over_workers f (p\<lparr>pool_peak := n\<rparr>) = over_workers f p"
  "over_workers f (p\<lparr>pool_acceptor := a\<rparr>) = over_workers f p"
  "over_workers f (p\<lparr>pool_stops := n\<rparr>) = over_workers f p"
  "over_workers f (p\<lparr>pool_admitted := ks\<rparr>) = over_workers f p"
  "over_workers f (p\<lparr>pool_taken := ks\<rparr>) = over_workers f p"
  "over_workers f (p\<lparr>pool_finished := ks\<rparr>) = over_workers f p"
  by (simp_all add: over_workers_def)

lemma set_worker_frame [simp]:
  "pool_config (set_worker i w p) = pool_config p" "pool_pending (set_worker i w p) = pool_pending p"
  "pool_stopping (set_worker i w p) = pool_stopping p" "pool_active (set_worker i w p) = pool_active p"
  "pool_peak (set_worker i w p) = pool_peak p" "pool_acceptor (set_worker i w p) = pool_acceptor p"
  "pool_stops (set_worker i w p) = pool_stops p" "pool_admitted (set_worker i w p) = pool_admitted p"
  "pool_taken (set_worker i w p) = pool_taken p" "pool_finished (set_worker i w p) = pool_finished p"
  "pool_workers (set_worker i w p) = (pool_workers p)[i := w]"
  by (simp_all add: set_worker_def)

lemma set_worker_commute [simp]:
  "set_worker i w (p\<lparr>pool_pending := ks\<rparr>) = (set_worker i w p)\<lparr>pool_pending := ks\<rparr>"
  "set_worker i w (p\<lparr>pool_taken := ts\<rparr>) = (set_worker i w p)\<lparr>pool_taken := ts\<rparr>"
  "set_worker i w (p\<lparr>pool_finished := fs\<rparr>) = (set_worker i w p)\<lparr>pool_finished := fs\<rparr>"
  "set_worker i w (p\<lparr>pool_active := n\<rparr>) = (set_worker i w p)\<lparr>pool_active := n\<rparr>"
  "set_worker i w (p\<lparr>pool_stopping := b\<rparr>) = (set_worker i w p)\<lparr>pool_stopping := b\<rparr>"
  "set_worker i w (p\<lparr>pool_acceptor := a\<rparr>) = (set_worker i w p)\<lparr>pool_acceptor := a\<rparr>"
  by (simp_all add: set_worker_def)

lemma notify_all_frame [simp]:
  "pool_config (notify_all p) = pool_config p" "pool_pending (notify_all p) = pool_pending p"
  "pool_stopping (notify_all p) = pool_stopping p" "pool_active (notify_all p) = pool_active p"
  "pool_peak (notify_all p) = pool_peak p" "pool_acceptor (notify_all p) = pool_acceptor p"
  "pool_stops (notify_all p) = pool_stops p" "pool_admitted (notify_all p) = pool_admitted p"
  "pool_taken (notify_all p) = pool_taken p" "pool_finished (notify_all p) = pool_finished p"
  "pool_workers (notify_all p) = map (\<lambda>w. if w = Blocked then Testing else w) (pool_workers p)"
  by (simp_all add: notify_all_def)

lemma mutex_free_count: "mutex_free p \<longleftrightarrow> over_workers about_to_block p = 0"
proof -
  have "about_to_block w = 0 \<longleftrightarrow> w \<noteq> Waiting" for w
    by (cases w) simp_all
  then show ?thesis
    by (auto simp: mutex_free_def over_workers_def)
qed

lemma busy_bound: "over_workers busy p \<le> length (pool_workers p)"
proof -
  have "busy w \<le> 1" for w
    by (cases w) simp_all
  then have "sum_list (map busy ws) \<le> length ws" for ws
    by (induction ws) (simp, metis add_mono length_Cons list.simps(9) plus_1_eq_Suc sum_list.Cons)
  then show ?thesis
    by (simp add: over_workers_def)
qed

lemma notify_all_inv: "pool_inv p \<Longrightarrow> pool_inv (notify_all p)"
  by (simp add: pool_inv_def over_notify_all)

lemma pool_inv_frame [simp]:
  "pool_inv (p\<lparr>pool_stopping := b\<rparr>) = pool_inv p" "pool_inv (p\<lparr>pool_acceptor := a\<rparr>) = pool_inv p"
  "pool_inv (p\<lparr>pool_stops := n\<rparr>) = pool_inv p"
  by (simp_all add: pool_inv_def)

lemma mutex_free_frame [simp]:
  "mutex_free (p\<lparr>pool_stopping := b\<rparr>) = mutex_free p" "mutex_free (p\<lparr>pool_acceptor := a\<rparr>) = mutex_free p"
  by (simp_all add: mutex_free_def)

text \<open>A worker changes its own entry, and the bookkeeping follows.\<close>

lemma set_worker_inv:
  assumes "pool_inv p" and "i < length (pool_workers p)"
    and "busy w = busy (pool_workers p ! i)" and "holds w = holds (pool_workers p ! i)"
    and "about_to_block w \<le> about_to_block (pool_workers p ! i) \<or> mutex_free p"
  shows "pool_inv (set_worker i w p)"
proof -
  have "about_to_block w \<le> 1"
    by (cases w) simp_all
  then show ?thesis
    using assms over_set_worker [OF assms(2), of busy w] over_set_worker [OF assms(2), of holds w]
      over_set_worker [OF assms(2), of about_to_block w]
    by (auto simp: pool_inv_def mutex_free_count)
qed

lemma pool_step_inv:
  assumes "pool_step p a p'" and "pool_inv p"
  shows "pool_inv p'"
  using assms
proof cases
  case (turn i)
  show ?thesis
  proof (cases "pool_pending p")
    case Nil
    then show ?thesis
      using turn assms(2) set_worker_inv [OF assms(2) turn(3)] by (simp add: take_turn_def)
  next
    case (Cons k ks)
    then show ?thesis
      using turn assms(2) over_set_worker [OF turn(3), of busy "Taken k"]
        over_set_worker [OF turn(3), of holds "Taken k"] over_set_worker [OF turn(3), of about_to_block "Taken k"]
      by (simp add: take_turn_def pool_inv_def)
  qed
next
  case (accept_push k)
  have "pool_active p \<le> scf_workerThreads (pool_config p)"
    using busy_bound [of p] assms(2) by (simp add: pool_inv_def)
  then show ?thesis
    using accept_push assms(2) by (auto simp: push_def pool_inv_def Let_def)
next
  case (enter i k)
  then show ?thesis
    using assms(2) over_set_worker [OF enter(3), of busy "Serving k"]
      over_set_worker [OF enter(3), of holds "Serving k"] over_set_worker [OF enter(3), of about_to_block "Serving k"]
    by (simp add: pool_inv_def)
next
  case (leave i k)
  then show ?thesis
    using assms(2) over_set_worker [OF leave(3), of busy Testing]
      over_set_worker [OF leave(3), of holds Testing] over_set_worker [OF leave(3), of about_to_block Testing]
    by (auto simp: pool_inv_def)
qed (use assms(2) in \<open>auto intro!: set_worker_inv notify_all_inv\<close>)

lemma sum_list_zeros [simp]: "sum_list (replicate n (0 :: 'a::comm_monoid_add)) = 0"
  by (induction n) simp_all

lemma pool_start_inv:
  assumes "start False initialized os c = Inr (p, listener, port)"
  shows "pool_inv p" and "pool_workers p = replicate (scf_workerThreads c) Testing" and "pool_config p = c"
proof -
  have p: "p = \<lparr>pool_config = c, pool_pending = [], pool_stopping = False, pool_active = 0, pool_peak = 0,
      pool_workers = replicate (scf_workerThreads c) Testing, pool_acceptor = Looping, pool_stops = 0,
      pool_admitted = [], pool_taken = [], pool_finished = []\<rparr>"
    using assms by (auto simp: start_def split: if_splits sum.splits)
  show "pool_inv p" "pool_workers p = replicate (scf_workerThreads c) Testing" "pool_config p = c"
    by (simp_all add: p pool_inv_def over_workers_def)
qed

lemma pool_reach_inv: "pool_reach p \<Longrightarrow> pool_inv p"
  by (induction rule: pool_reach.induct) (auto dest: pool_start_inv(1) pool_step_inv)

section \<open>Shutting down\<close>

text \<open>The actions of the program, without further calls of \<open>stop\<close> and spurious wakeups.\<close>

fun program :: "Actor \<Rightarrow> bool" where
  "program StopCalled = False"
| "program (SpuriousWakeup i) = False"
| "program a = True"

definition program_step :: "Pool \<Rightarrow> Pool \<Rightarrow> bool" where
  "program_step p p' \<longleftrightarrow> (\<exists>a. program a \<and> pool_step p a p')"

definition settling :: "Pool \<Rightarrow> bool" where
  "settling p \<longleftrightarrow> pool_stopping p \<and> Waiting \<notin> set (pool_workers p) \<and> Blocked \<notin> set (pool_workers p)"

lemma notified_settling: "pool_stopping p \<Longrightarrow> mutex_free p \<Longrightarrow> settling (notify_all p)"
  by (auto simp: settling_def mutex_free_def)

fun worker_work :: "Worker \<Rightarrow> nat" where
  "worker_work (Taken k) = 5"
| "worker_work (Serving k) = 4"
| "worker_work (Announcing k) = 3"
| "worker_work (Leaving k) = 2"
| "worker_work Testing = 1"
| "worker_work _ = 0"

fun acceptor_work :: "Acceptor \<Rightarrow> nat" where
  "acceptor_work Accepting = 11"
| "acceptor_work (Pushing k) = 10"
| "acceptor_work Notifying = 4"
| "acceptor_work Looping = 3"
| "acceptor_work Draining = 2"
| "acceptor_work Joining = 1"
| "acceptor_work Finished = 0"

definition pool_work :: "Pool \<Rightarrow> nat" where
  "pool_work p = 5 * length (pool_pending p) + over_workers worker_work p + acceptor_work (pool_acceptor p) + pool_stops p"

lemma notify_all_none: "Blocked \<notin> set (pool_workers p) \<Longrightarrow> notify_all p = p"
proof -
  assume "Blocked \<notin> set (pool_workers p)"
  then have "map (\<lambda>w. if w = Blocked then Testing else w) (pool_workers p) = pool_workers p"
    by (intro map_idI) auto
  then show ?thesis
    by (simp add: notify_all_def)
qed

lemma settling_notify: "settling p \<Longrightarrow> notify_all p = p"
  by (simp add: settling_def notify_all_none)

lemma settling_frame [simp]:
  "settling (p\<lparr>pool_acceptor := a\<rparr>) = settling p" "settling (p\<lparr>pool_stops := n\<rparr>) = settling p"
  "settling (p\<lparr>pool_active := n\<rparr>) = settling p" "settling (p\<lparr>pool_pending := ks\<rparr>) = settling p"
  "settling (p\<lparr>pool_taken := ks\<rparr>) = settling p" "settling (p\<lparr>pool_finished := ks\<rparr>) = settling p"
  "settling (p\<lparr>pool_admitted := ks\<rparr>) = settling p" "settling (p\<lparr>pool_peak := n\<rparr>) = settling p"
  by (simp_all add: settling_def)

lemma settling_worker: "settling p \<Longrightarrow> w \<noteq> Waiting \<Longrightarrow> w \<noteq> Blocked \<Longrightarrow> settling (set_worker i w p)"
  unfolding settling_def using set_update_subset_insert [of "pool_workers p" i w] by (auto simp del: set_update_subset_insert)

lemma accepted_work: "acceptor_work (accepted answer True) < 11"
  by (auto simp: accepted_def split: sum.splits)

lemma settling_step:
  assumes "pool_step p a p'" and "program a" and "settling p"
  shows "settling p' \<and> pool_work p' < pool_work p"
  using assms
proof cases
  case (turn i)
  then show ?thesis
    using assms(3) over_set_worker [OF turn(3), of worker_work Returned]
      over_set_worker [OF turn(3), of worker_work "Taken (hd (pool_pending p))"]
    by (cases "pool_pending p") (auto simp: take_turn_def settling_worker pool_work_def settling_def [of p])
next
  case (accept_push k)
  then show ?thesis
    using assms(3) by (auto simp: push_def pool_work_def Let_def)
next
  case (accept_answer listener os)
  then show ?thesis
    using assms(3) accepted_work [of "acceptTcp listener (scf_acceptPollMillis (pool_config p)) os"]
    by (simp add: pool_work_def settling_def [of p])
next
  case (enter i k)
  then show ?thesis
    using assms(3) over_set_worker [OF enter(3), of worker_work "Serving k"]
    by (simp add: settling_worker pool_work_def)
next
  case (served i k)
  then show ?thesis
    using assms(3) over_set_worker [OF served(3), of worker_work "Leaving k"]
    by (simp add: settling_worker pool_work_def)
next
  case (served_stop i k)
  then show ?thesis
    using assms(3) over_set_worker [OF served_stop(3), of worker_work "Announcing k"]
      settling_worker [of p "Announcing k" i]
    by (simp add: settling_def pool_work_def)
next
  case (announce i k)
  then show ?thesis
    using assms(3) over_set_worker [OF announce(3), of worker_work "Leaving k"]
    by (simp add: settling_worker settling_notify pool_work_def)
next
  case (leave i k)
  then show ?thesis
    using assms(3) over_set_worker [OF leave(3), of worker_work Testing]
    by (simp add: settling_worker pool_work_def)
qed (use assms(2,3) in \<open>auto simp: settling_notify pool_work_def dest: nth_mem simp: settling_def [of p]\<close>)

text \<open>Serving a connection can return without a shutdown: when the flag is already set.\<close>

lemma asked_not: "asked_to_stop c k False"
proof -
  let ?env = "\<lparr>env_host = undefined, env_before = undefined, env_between = undefined, env_stop = \<lambda>_. True\<rparr>"
  have "\<not> con_stopping (serveConnection ?env c k s)" for s
    by (simp add: serveConnection_def serve_loop.simps)
  then show ?thesis
    unfolding asked_to_stop_def by blast
qed

lemma worker_progress:
  assumes "settling p" and "i < length (pool_workers p)" and "pool_workers p ! i \<noteq> Returned"
  shows "\<exists>p'. pool_step p (TheWorker i) p'"
proof -
  have free: "mutex_free p"
    using assms(1) by (simp add: settling_def mutex_free_def)
  show ?thesis
    using assms pool_step.turn [OF assms(2) _ free] pool_step.enter [OF assms(2)]
      pool_step.served [OF assms(2) _ asked_not] pool_step.announce [OF assms(2)] pool_step.leave [OF assms(2)]
      nth_mem [OF assms(2)] unfolding settling_def
    by (cases "pool_workers p ! i") (blast | metis)+
qed

lemma settling_progress:
  assumes "settling p" and "pool_acceptor p \<noteq> Finished"
  shows "\<exists>p'. program_step p p'"
proof -
  have free: "mutex_free p" "Blocked \<notin> set (pool_workers p)"
    using assms(1) by (simp_all add: settling_def mutex_free_def)
  show ?thesis
  proof (cases "pool_acceptor p = Joining")
    case True
    show ?thesis
    proof (cases "set (pool_workers p) \<subseteq> {Returned}")
      case all: True
      then show ?thesis
        using pool_step.join [OF True] unfolding program_step_def by (metis program.simps(3))
    next
      case False
      then obtain w where "w \<in> set (pool_workers p)" "w \<noteq> Returned"
        by blast
      then obtain i where "i < length (pool_workers p)" "pool_workers p ! i \<noteq> Returned"
        by (metis in_set_conv_nth)
      then show ?thesis
        using worker_progress [OF assms(1)] unfolding program_step_def by (metis program.simps(4))
    qed
  next
    case False
    then have "\<exists>p'. pool_step p TheAcceptor p'"
      using assms(2) free by (cases "pool_acceptor p")
        (blast intro: pool_step.loop_test pool_step.accept_answer pool_step.accept_push pool_step.notify_none pool_step.drain)+
    then show ?thesis
      unfolding program_step_def by (metis program.simps(3))
  qed
qed

lemma settling_run: "(program_step ^^ n) p q \<Longrightarrow> settling p \<Longrightarrow> settling q \<and> pool_work q + n \<le> pool_work p"
proof (induction n arbitrary: q)
  case (Suc n)
  then obtain r where r: "(program_step ^^ n) p r" "program_step r q"
    by auto
  then show ?case
    using Suc.IH [OF r(1) Suc.prems(2)] settling_step [of r _ q] unfolding program_step_def by fastforce
qed simp

text \<open>Once the flag is set and no worker is about to block, the notification ends the server.\<close>

lemma shutdown_completes:
  assumes "pool_stopping p" and "mutex_free p" and "(program_step ^^ n) (notify_all p) q"
  shows "n \<le> pool_work (notify_all p)" and "\<nexists>r. program_step q r \<Longrightarrow> pool_acceptor q = Finished"
proof -
  note run = settling_run [OF assms(3) notified_settling [OF assms(1,2)]]
  show "n \<le> pool_work (notify_all p)"
    using run by simp
  show "\<nexists>r. program_step q r \<Longrightarrow> pool_acceptor q = Finished"
    using settling_progress [of q] run by blast
qed

section \<open>A lost wakeup\<close>

text \<open>
  With the flag set and the notifications sent between the test of a worker and its blocking, the
  worker sleeps and the accept loop waits for it.
\<close>

definition asleep :: "Pool \<Rightarrow> Pool" where
  "asleep p = p\<lparr>pool_workers := [Blocked], pool_stopping := True, pool_acceptor := Joining\<rparr>"

lemma lost_wakeup_reached:
  assumes "pool_reach p" and "pool_workers p = [Testing]" and "pool_pending p = []" and "\<not> pool_stopping p"
    and "pool_acceptor p = Looping" and "pool_stops p = 0"
  shows "pool_reach (asleep p)"
proof -
  let ?p1 = "p\<lparr>pool_workers := [Waiting]\<rparr>"
  let ?p2 = "?p1\<lparr>pool_stopping := True, pool_stops := 1\<rparr>"
  let ?p3 = "?p2\<lparr>pool_stops := 0\<rparr>"
  let ?p4 = "?p3\<lparr>pool_acceptor := Draining\<rparr>"
  let ?p5 = "?p4\<lparr>pool_acceptor := Joining\<rparr>"
  have "pool_step p (TheWorker 0) ?p1"
    using pool_step.turn [of 0 p] assms(2,3,4) by (simp add: mutex_free_def take_turn_def set_worker_def)
  with assms(1) have "pool_reach ?p1"
    by (rule pool_reach.moved)
  moreover have "pool_step ?p1 StopCalled ?p2"
    using pool_step.stop_store [of ?p1] assms(6) by simp
  ultimately have "pool_reach ?p2"
    by (rule pool_reach.moved)
  moreover have "pool_step ?p2 StopNotified ?p3"
    using pool_step.stop_notify [of ?p2] by (cases p) (simp add: notify_all_def)
  ultimately have "pool_reach ?p3"
    by (rule pool_reach.moved)
  moreover have "pool_step ?p3 TheAcceptor ?p4"
    using pool_step.loop_test [of ?p3] assms(5) by simp
  ultimately have "pool_reach ?p4"
    by (rule pool_reach.moved)
  moreover have "pool_step ?p4 TheAcceptor ?p5"
    using pool_step.drain [of ?p4] by (cases p) (simp add: notify_all_def)
  ultimately have "pool_reach ?p5"
    by (rule pool_reach.moved)
  moreover have "pool_step ?p5 (TheWorker 0) (asleep p)"
    using pool_step.block [of 0 ?p5] assms(6) by (cases p) (simp add: set_worker_def asleep_def)
  ultimately show ?thesis
    by (rule pool_reach.moved)
qed

inductive_cases pool_step_cases: "pool_step p a p'"

lemma asleep_stuck: "pool_stops p = 0 \<Longrightarrow> \<not> program_step (asleep p) q"
  unfolding program_step_def asleep_def
  by (auto elim!: pool_step_cases simp: nth_Cons' split: if_splits)

text \<open>
  A connection accepted while the server stops: the workers return on the empty queue before the
  acceptor pushes it, and nobody serves it.
\<close>

definition stranded :: "Socket \<Rightarrow> Pool \<Rightarrow> Pool" where
  "stranded k p = p\<lparr>pool_workers := [Returned], pool_stopping := True, pool_stops := 1, pool_pending := [k],
     pool_admitted := [k], pool_peak := max (pool_peak p) (Suc (pool_active p)), pool_acceptor := Finished\<rparr>"

lemma stranded_reached:
  assumes "pool_reach p" and "pool_workers p = [Testing]" and "pool_pending p = []" and "\<not> pool_stopping p"
    and "pool_acceptor p = Looping" and "pool_stops p = 0" and "pool_admitted p = []"
    and "0 < scf_maxConnections (pool_config p)"
    and "acceptTcp listener (scf_acceptPollMillis (pool_config p)) os = Inr (k, peer)"
  shows "pool_reach (stranded k p)"
proof -
  let ?p1 = "p\<lparr>pool_acceptor := Accepting\<rparr>"
  let ?p2 = "p\<lparr>pool_acceptor := Pushing k\<rparr>"
  let ?p3 = "?p2\<lparr>pool_stopping := True, pool_stops := Suc 0\<rparr>"
  let ?p4 = "?p3\<lparr>pool_workers := [Returned]\<rparr>"
  let ?p5 = "push k ?p4"
  let ?p6 = "?p5\<lparr>pool_acceptor := Looping\<rparr>"
  let ?p7 = "?p5\<lparr>pool_acceptor := Draining\<rparr>"
  let ?p8 = "?p5\<lparr>pool_acceptor := Joining\<rparr>"
  have p5: "?p5 = ?p4\<lparr>pool_pending := [k], pool_admitted := [k], pool_peak := max (pool_peak p) (Suc (pool_active p)),
      pool_acceptor := Notifying\<rparr>"
    using assms(3,7,8) by (cases p) (simp add: push_def Let_def)
  have "pool_step p TheAcceptor ?p1"
    using pool_step.loop_test [of p] assms(4,5) by simp
  with assms(1) have "pool_reach ?p1"
    by (rule pool_reach.moved)
  moreover have "pool_step ?p1 TheAcceptor ?p2"
    using pool_step.accept_answer [of ?p1 listener os] assms(9) by (simp add: accepted_def)
  ultimately have "pool_reach ?p2"
    by (rule pool_reach.moved)
  moreover have "pool_step ?p2 StopCalled ?p3"
    using pool_step.stop_store [of ?p2] assms(6) by simp
  ultimately have "pool_reach ?p3"
    by (rule pool_reach.moved)
  moreover have "pool_step ?p3 (TheWorker 0) ?p4"
    using pool_step.turn [of 0 ?p3] assms(2,3) by (simp add: mutex_free_def take_turn_def set_worker_def)
  ultimately have "pool_reach ?p4"
    by (rule pool_reach.moved)
  moreover have "pool_step ?p4 TheAcceptor ?p5"
    using pool_step.accept_push [of ?p4 k] by (simp add: mutex_free_def)
  ultimately have "pool_reach ?p5"
    by (rule pool_reach.moved)
  moreover have "pool_step ?p5 TheAcceptor ?p6"
    using pool_step.notify_none [of ?p5] by (simp add: p5)
  ultimately have "pool_reach ?p6"
    by (rule pool_reach.moved)
  moreover have "pool_step ?p6 TheAcceptor ?p7"
    using pool_step.loop_test [of ?p6] by (simp add: p5)
  ultimately have "pool_reach ?p7"
    by (rule pool_reach.moved)
  moreover have "pool_step ?p7 TheAcceptor ?p8"
    using pool_step.drain [of ?p7] by (simp add: notify_all_none p5)
  ultimately have "pool_reach ?p8"
    by (rule pool_reach.moved)
  moreover have "?p8\<lparr>pool_acceptor := Finished\<rparr> = stranded k p"
    unfolding p5 stranded_def by (cases p) simp
  then have "pool_step ?p8 TheAcceptor (stranded k p)"
    using pool_step.join [of ?p8] by (simp add: p5)
  ultimately show ?thesis
    by (rule pool_reach.moved)
qed

lemma settling_finishes:
  assumes "settling p"
  shows "\<exists>q. program_step\<^sup>*\<^sup>* p q \<and> pool_acceptor q = Finished"
  using assms
proof (induction "pool_work p" arbitrary: p rule: less_induct)
  case less
  show ?case
  proof (cases "pool_acceptor p = Finished")
    case False
    then obtain r where r: "program_step p r"
      using settling_progress [OF less.prems] by blast
    then have "settling r" "pool_work r < pool_work p"
      using settling_step [OF _ _ less.prems] unfolding program_step_def by blast+
    then show ?thesis
      using less.hyps r by (meson converse_rtranclp_into_rtranclp)
  qed blast
qed

end
