(* ===== verification/Daemon.thy ===== *)
theory Daemon
  imports Worker_Pool Child_Process Cli_Parse Recovery
begin

text \<open>
  The server process, \<open>wavelengthd_main.cpp\<close>: its options, and what it does before it serves. It
  constructs the runtime, recovers the image when the file is there, and starts the server; every
  failure ends it with its own exit code before a connection is accepted.
\<close>

section \<open>Options\<close>

record DaemonOptions =
  dmo_address :: string
  dmo_port :: nat
  dmo_statePath :: string
  dmo_workers :: nat
  dmo_durable :: bool
  dmo_fsync :: bool
  dmo_allowShutdown :: bool

definition default_options :: DaemonOptions where
  "default_options = \<lparr>dmo_address = ''127.0.0.1'', dmo_port = 0, dmo_statePath = [], dmo_workers = 4,
     dmo_durable = False, dmo_fsync = True, dmo_allowShutdown = True\<rparr>"

text \<open>Digits are taken one by one, and refused before the 64-bit result would overflow.\<close>

fun unsigned_loop :: "nat \<Rightarrow> nat \<Rightarrow> string \<Rightarrow> nat option" where
  "unsigned_loop bound n [] = Some n"
| "unsigned_loop bound n (c # cs) =
     (if \<not> is_digit c then None
      else
        let digit = of_char c - 48
        in if n > (bound - digit) div 10 then None else unsigned_loop bound (n * 10 + digit) cs)"

definition parseUnsigned :: "string \<Rightarrow> nat option" where
  "parseUnsigned input = (if input = [] then None else unsigned_loop 0xFFFFFFFFFFFFFFFF 0 input)"

fun daemon_options :: "string list \<Rightarrow> DaemonOptions \<Rightarrow> DaemonOptions option" where
  "daemon_options [] d = Some d"
| "daemon_options [argument] d =
     (if argument = ''--durable'' then Some (d\<lparr>dmo_durable := True\<rparr>)
      else if argument = ''--no-fsync'' then Some (d\<lparr>dmo_fsync := False\<rparr>)
      else if argument = ''--no-shutdown-op'' then Some (d\<lparr>dmo_allowShutdown := False\<rparr>)
      else None)"
| "daemon_options (argument # following # arguments) d =
     (if argument = ''--address'' then daemon_options arguments (d\<lparr>dmo_address := following\<rparr>)
      else if argument = ''--port''
      then (case parseUnsigned following of
              None \<Rightarrow> None
            | Some n \<Rightarrow> if n > 65535 then None else daemon_options arguments (d\<lparr>dmo_port := n\<rparr>))
      else if argument = ''--state'' then daemon_options arguments (d\<lparr>dmo_statePath := following\<rparr>)
      else if argument = ''--workers''
      then (case parseUnsigned following of
              None \<Rightarrow> None
            | Some n \<Rightarrow> if n = 0 \<or> n > 256 then None else daemon_options arguments (d\<lparr>dmo_workers := n\<rparr>))
      else if argument = ''--durable'' then daemon_options (following # arguments) (d\<lparr>dmo_durable := True\<rparr>)
      else if argument = ''--no-fsync'' then daemon_options (following # arguments) (d\<lparr>dmo_fsync := False\<rparr>)
      else if argument = ''--no-shutdown-op'' then daemon_options (following # arguments) (d\<lparr>dmo_allowShutdown := False\<rparr>)
      else None)"

section \<open>Booting\<close>

definition daemon_config :: "DaemonOptions \<Rightarrow> RuntimeConfig" where
  "daemon_config d = default_config\<lparr>cfg_statePath := dmo_statePath d,
     cfg_durableCommits := (dmo_durable d \<and> dmo_statePath d \<noteq> []), cfg_fsyncState := dmo_fsync d\<rparr>"

definition daemon_server :: "DaemonOptions \<Rightarrow> ServerConfig" where
  "daemon_server d = SpectrumServer \<lparr>scf_address = dmo_address d, scf_port = dmo_port d, scf_maxConnections = 64,
     scf_workerThreads = dmo_workers d, scf_maxPayloadBytes = kMaxFramePayloadBytes, scf_backlog = 16,
     scf_acceptPollMillis = 50, scf_allowShutdownOp = dmo_allowShutdown d\<rparr>"

record DaemonOs =
  dos_now :: Instant
  dos_recoveryNow :: Instant
  dos_incarnation :: u64
  dos_recoveryIncarnation :: u64
  dos_disk :: "string \<Rightarrow> u8 list option"
  dos_stat :: "string \<Rightarrow> bool"
  dos_read :: ReadIo
  dos_initialized :: Status
  dos_listen :: ListenOs

datatype Daemon =
    DaemonUsage
  | RecoverFailed RecoveryReport
  | StartFailed "RecoveryReport option" Status
  | Serving "RecoveryReport option" RuntimeState Pool Socket nat

definition daemon_runtime :: "DaemonOs \<Rightarrow> DaemonOptions \<Rightarrow> RuntimeState" where
  "daemon_runtime os d = SpectrumRuntime (daemon_config d) (dos_incarnation os) (dos_now os) (dos_disk os)"

definition daemon_start :: "DaemonOs \<Rightarrow> DaemonOptions \<Rightarrow> RecoveryReport option \<Rightarrow> RuntimeState \<Rightarrow> Daemon" where
  "daemon_start os d recovered s =
     (case start False (dos_initialized os) (dos_listen os) (daemon_server d) of
        Inl st \<Rightarrow> StartFailed recovered st
      | Inr (pool, listener, port) \<Rightarrow> Serving recovered s pool listener port)"

definition daemon_boot :: "DaemonOs \<Rightarrow> DaemonOptions \<Rightarrow> Daemon" where
  "daemon_boot os d =
     (let s = daemon_runtime os d
      in if dmo_statePath d \<noteq> [] \<and> pathExists (dos_stat os) (dmo_statePath d)
         then (case recover (dos_recoveryNow os) (dos_read os) (dos_recoveryIncarnation os) s of (s1, report) \<Rightarrow>
           if \<not> rec_recovered report then RecoverFailed report else daemon_start os d (Some report) s1)
         else daemon_start os d None s)"

definition daemon_main :: "DaemonOs \<Rightarrow> string list \<Rightarrow> Daemon" where
  "daemon_main os arguments =
     (case daemon_options arguments default_options of None \<Rightarrow> DaemonUsage | Some d \<Rightarrow> daemon_boot os d)"

text \<open>The exit code; a daemon that serves ends with success when it has been stopped.\<close>

definition daemon_exit :: "Daemon \<Rightarrow> int" where
  "daemon_exit d = (case d of DaemonUsage \<Rightarrow> 2 | RecoverFailed _ \<Rightarrow> 3 | StartFailed _ _ \<Rightarrow> 4 | Serving _ _ _ _ _ \<Rightarrow> 0)"

section \<open>Output\<close>

text \<open>What the daemon has printed when it serves or has failed; the process that started it reads this.\<close>

definition s_newline :: string where "s_newline = [CHR 0x0A]"

definition ready_line :: "RuntimeState \<Rightarrow> nat \<Rightarrow> string" where
  "ready_line s port = ''READY '' @ nat_to_string port @ '' '' @ raw_to_string (epoch (rs_fence s)) @ '' ''
     @ raw_to_string (incarnation (rs_fence s)) @ s_newline"

definition recovered_line :: "RecoveryReport \<Rightarrow> string" where
  "recovered_line report = ''RECOVERED reservations='' @ nat_to_string (rec_reservationsRestored report)
     @ '' demoted='' @ nat_to_string (rec_demotedFromActive report) @ s_newline"

definition failed_line :: "string \<Rightarrow> Status \<Rightarrow> string" where
  "failed_line what st = what @ '' '' @ statusCode_toToken (code st) @ '' '' @ message st @ s_newline"

definition recovered_text :: "RecoveryReport option \<Rightarrow> string" where
  "recovered_text recovered = (case recovered of None \<Rightarrow> [] | Some report \<Rightarrow> recovered_line report)"

definition daemon_output :: "Daemon \<Rightarrow> string" where
  "daemon_output b = (case b of
     DaemonUsage \<Rightarrow> []
   | RecoverFailed report \<Rightarrow> failed_line ''RECOVER-FAILED'' (rec_status report)
   | StartFailed recovered st \<Rightarrow> recovered_text recovered @ failed_line ''START-FAILED'' st
   | Serving recovered s pool listener port \<Rightarrow> recovered_text recovered @ ready_line s port)"

section \<open>Facts\<close>

text \<open>The digit loop accepts exactly the numbers up to its bound, and agrees with \<open>std::from_chars\<close>.\<close>

lemma digits_value_mono: "n \<le> digits_value n cs"
proof (induction cs arbitrary: n)
  case (Cons c cs)
  show ?case
    using Cons [of "n * 10 + (of_char c - 48)"] by simp
qed simp

lemma digits_value_step: "n \<le> m \<Longrightarrow> digits_value n cs \<le> digits_value m cs"
proof (induction cs arbitrary: n m)
  case (Cons c cs)
  show ?case
    using Cons(1) [of "n * 10 + (of_char c - 48)" "m * 10 + (of_char c - 48)"] Cons(2) by simp
qed simp

lemma unsigned_loop_exact:
  assumes "9 \<le> bound" and "n \<le> bound"
  shows "unsigned_loop bound n cs = (if list_all is_digit cs \<and> digits_value n cs \<le> bound then Some (digits_value n cs) else None)"
  using assms(2)
proof (induction cs arbitrary: n)
  case (Cons c cs)
  show ?case
  proof (cases "is_digit c")
    case True
    define digit :: nat where "digit = of_char c - 48"
    have digit: "digit \<le> 9"
      using True by (auto simp: digit_def is_digit_def)
    show ?thesis
    proof (cases "n > (bound - digit) div 10")
      case True
      then have "bound < n * 10 + digit"
        using digit assms(1) by linarith
      then have "bound < digits_value n (c # cs)"
        using digits_value_mono [of "n * 10 + digit" cs] by (simp add: digit_def)
      then show ?thesis
        using True by (simp add: digit_def Let_def)
    next
      case False
      then have "n * 10 + digit \<le> bound"
        using digit assms(1) by linarith
      then show ?thesis
        using Cons.IH [of "n * 10 + digit"] False \<open>is_digit c\<close> by (simp add: digit_def Let_def)
    qed
  qed simp
qed simp

lemma parseUnsigned_exact:
  "parseUnsigned input = (if digits input \<and> digits_value 0 input < 18446744073709551616 then Some (digits_value 0 input) else None)"
  by (simp add: parseUnsigned_def unsigned_loop_exact digits_def less_Suc_eq_le [symmetric] del: digits_value.simps)

lemma parsers_agree: "parseU64 input = map_option word_of_nat (parseUnsigned input)"
  by (simp add: parseU64_def parseUnsigned_exact)

text \<open>A daemon serves only when nothing failed; the runtime it serves is fresh or the recovered one.\<close>

lemma daemon_serving:
  assumes "daemon_boot os d = Serving recovered s pool listener port"
  shows "recovered = None \<and> s = daemon_runtime os d \<and> \<not> (dmo_statePath d \<noteq> [] \<and> dos_stat os (dmo_statePath d))
    \<or> (\<exists>report. recovered = Some report \<and> rec_recovered report
        \<and> recover (dos_recoveryNow os) (dos_read os) (dos_recoveryIncarnation os) (daemon_runtime os d) = (s, report))"
  using assms
  by (auto simp: daemon_boot_def daemon_start_def pathExists_def Let_def split: if_splits sum.splits prod.splits)

lemma daemon_runtime_fields:
  "cfg_statePath (rs_config (daemon_runtime os d)) = dmo_statePath d"
  "cfg_maxStateBytes (rs_config (daemon_runtime os d)) = 268435456"
  "rs_disk (daemon_runtime os d) = dos_disk os" "rs_domainExclusions (daemon_runtime os d) = []"
  by (simp_all add: daemon_runtime_def SpectrumRuntime_def Let_def normalise_config_def daemon_config_def default_config_def)

end
