(* ===== verification/Sound_Image.thy ===== *)
theory Sound_Image
  imports Restart Runs
begin

text \<open>
  The image that a durable allocation writes is one the recovery accepts: allocation keeps every
  cross-reference, the disjointness and the audit order that the recovery checks, and whatever a
  working file system was told to write is published.
\<close>

section \<open>What the recovery checks\<close>

definition registries_sound :: "RuntimeState \<Rightarrow> bool" where
  "registries_sound s \<longleftrightarrow> (\<forall>d \<in> set (om_values (rs_domains s)). domain_fault (image_of s s) d = None)
     \<and> (\<forall>e \<in> set (rs_exclusionDomains s). exclusion_fault (image_of s s) e = None)
     \<and> (\<forall>c \<in> set (om_values (rs_capabilities s)). capability_fault (image_of s s) c = None)"

definition record_sound :: "RuntimeState \<Rightarrow> SpectrumReservation \<Rightarrow> bool" where
  "record_sound s q \<longleftrightarrow> length (res_domainGenerations q) = length (res_domains q)
     \<and> length (res_perDomainSlots q) = length (res_domains q)
     \<and> (\<forall>(i, g) \<in> set (zip (res_domains q) (res_domainGenerations q)).
          map_option dom_generation (map_of (rs_domains s) i) = Some g)
     \<and> raw (res_id q) < raw (rs_nextReservationId s)"

definition check_instant :: "RuntimeState \<Rightarrow> Instant" where
  "check_instant s = checkAt (image_of s s)"

definition owners_apart :: "RuntimeState \<Rightarrow> bool" where
  "owners_apart s \<longleftrightarrow>
     \<not> conflicting_pair (filter (\<lambda>q. isLiveAt q (check_instant s)) (om_values (rs_reservations s)))"

definition audit_ascending :: "RuntimeState \<Rightarrow> bool" where
  "audit_ascending s \<longleftrightarrow> audit_fault (StrongValue 0) (rs_audit s) = None"

lemma reservation_fault_None: "reservation_fault (image_of s s) q = None \<longleftrightarrow> record_sound s q"
proof -
  have "reservation_domain_fault (image_of s s) q e = None
      \<longleftrightarrow> map_option dom_generation (map_of (rs_domains s) (fst e)) = Some (snd e)" for e
    by (auto simp: reservation_domain_fault_def split: option.splits)
  then have faults: "first_fault (reservation_domain_fault (image_of s s) q) (zip (res_domains q) (res_domainGenerations q)) = None
      \<longleftrightarrow> (\<forall>(i, g) \<in> set (zip (res_domains q) (res_domainGenerations q)).
            map_option dom_generation (map_of (rs_domains s) i) = Some g)"
    unfolding first_fault_None by (simp add: case_prod_unfold del: map_option_eq_Some)
  show ?thesis
    unfolding record_sound_def faults [symmetric] by (auto simp: reservation_fault_def not_le split: option.splits)
qed

lemma consistent_iff:
  "consistent s \<longleftrightarrow> registries_sound s \<and> (\<forall>q \<in> set (om_values (rs_reservations s)). record_sound s q)
     \<and> owners_apart s \<and> audit_ascending s"
proof -
  have "image_fault m = None \<longleftrightarrow> first_fault (domain_fault m) (om_values (img_domains m)) = None
      \<and> first_fault (exclusion_fault m) (img_exclusionDomains m) = None
      \<and> first_fault (capability_fault m) (om_values (img_capabilities m)) = None
      \<and> first_fault (reservation_fault m) (om_values (img_reservations m)) = None
      \<and> \<not> conflicting_pair (filter (\<lambda>q. isLiveAt q (checkAt m)) (om_values (img_reservations m)))
      \<and> audit_fault (StrongValue 0) (img_audits m) = None" for m
    by (simp add: image_fault_def split: option.split)
  then show ?thesis
    unfolding consistent_def registries_sound_def owners_apart_def audit_ascending_def check_instant_def
      reservation_fault_None [symmetric] first_fault_None image_of_fields by (simp only: conj_assoc image_of_fields)
qed

section \<open>Registries\<close>

lemma registries_sound_frame:
  assumes "same_rules s s'" and "rs_spans s' = rs_spans s"
  shows "registries_sound s' \<longleftrightarrow> registries_sound s"
proof -
  have same: "rs_grids s' = rs_grids s" "rs_domains s' = rs_domains s"
    "rs_exclusionDomains s' = rs_exclusionDomains s" "rs_capabilities s' = rs_capabilities s"
    using assms(1) by (simp_all add: same_rules_def)
  have "domain_fault (image_of s' s') = domain_fault (image_of s s)"
    "exclusion_fault (image_of s' s') = exclusion_fault (image_of s s)"
    "capability_fault (image_of s' s') = capability_fault (image_of s s)"
    unfolding domain_fault_def [abs_def] exclusion_fault_def [abs_def] capability_fault_def [abs_def]
      image_of_fields same assms(2) by (rule refl)+
  then show ?thesis
    by (simp add: registries_sound_def same)
qed

section \<open>Owners\<close>

text \<open>The recovery looks for a conflict at the latest instant of the image.\<close>

lemma owners_apartI:
  assumes "reservations_ok s" and "lease_inv t s" and "t \<le> check_instant s"
  shows "owners_apart s"
proof -
  let ?live = "filter (\<lambda>e. isLiveAt (snd e) (check_instant s)) (rs_reservations s)"
  have om: "om_ok (rs_reservations s)"
    using assms(1) by (simp add: reservations_ok_def)
  have keys: "distinct (map fst ?live)"
    using om by (auto simp: om_ok_def strict_sorted_iff intro!: distinct_map_filter)
  have list: "filter (\<lambda>q. isLiveAt q (check_instant s)) (om_values (rs_reservations s)) = map snd ?live"
    by (simp add: om_values_def filter_map o_def)
  show ?thesis
    unfolding owners_apart_def list conflicting_pair_iff
  proof (intro allI impI)
    fix i j
    assume ij: "i < j" "j < length (map snd ?live)"
    define e f where "e = ?live ! i" and "f = ?live ! j"
    have mem: "e \<in> set ?live" "f \<in> set ?live"
      unfolding e_def f_def by (rule nth_mem, use ij in simp)+
    have ne: "fst e \<noteq> fst f"
      using nth_eq_iff_index_eq [OF keys, of i j] ij by (simp add: e_def f_def)
    have tab: "map_of (rs_reservations s) (fst e) = Some (snd e)" "map_of (rs_reservations s) (fst f) = Some (snd f)"
      using mem om_in_set [OF om] by (metis filter_is_subset prod.collapse subsetD)+
    have live: "isLiveAt (snd e) t" "isLiveAt (snd f) t"
      using mem assms(3) by (auto intro: isLiveAt_antimono)
    have "compatible (snd e) (snd f)" "placed (snd e)" "placed (snd f)"
      using assms(2) tab ne live unfolding lease_inv_def exclusive_def by blast+
    then have "\<not> reservationsConflict (snd e) (snd f)" if "shares_domain (snd e) (snd f)"
      using compatible_no_overlap(2) that by blast
    moreover have "\<not> reservationsConflict (snd e) (snd f)" if "\<not> shares_domain (snd e) (snd f)"
      using that by (auto simp: reservationsConflict_def shares_domain_def list_ex_iff)
    ultimately show "\<not> reservationsConflict (map snd ?live ! i) (map snd ?live ! j)"
      using ij by (auto simp: e_def f_def)
  qed
qed

section \<open>The trail\<close>

text \<open>The trail holds at most as many records as numbers were handed out, until they wrap.\<close>

definition audit_fits :: "RuntimeState \<Rightarrow> bool" where
  "audit_fits s \<longleftrightarrow> audit_ok s \<and> length (rs_audit s) \<le> unat (raw (rs_auditSequence s))"

lemma audit_fault_sorted:
  "audit_fault p as = None \<longleftrightarrow> sorted_wrt (<) (p # map aud_sequence as)"
  by (induction p as rule: audit_fault.induct) (auto intro: less_trans)

lemma below_not_zero:
  fixes n :: u64
  assumes "m < unat n"
  shows "n - word_of_nat m \<noteq> 0"
proof
  assume "n - word_of_nat m = 0"
  then have "unat n = m mod 2 ^ 64"
    by (simp add: unat_of_nat)
  also have "\<dots> \<le> m"
    by simp
  finally show False
    using assms by simp
qed

lemma audit_fits_ascending:
  assumes "audit_fits s"
  shows "audit_ascending s"
proof -
  have ok: "audit_ok s" and len: "length (rs_audit s) \<le> unat (raw (rs_auditSequence s))"
    using assms by (simp_all add: audit_fits_def)
  have up: "sorted_wrt (<) (map aud_sequence (rs_audit s))"
    by (rule audit_ok_increasing [OF ok]) (use len in simp)
  have "StrongValue 0 < aud_sequence a" if a: "a \<in> set (rs_audit s)" for a
  proof -
    obtain k where k: "k < length (rev (rs_audit s))" "a = rev (rs_audit s) ! k"
      using a by (metis in_set_conv_nth set_rev)
    then have "raw (aud_sequence a) = raw (rs_auditSequence s) - word_of_nat k"
      using audit_numbered_nth [of "raw (rs_auditSequence s)" "rev (rs_audit s)" k] ok unfolding audit_ok_def by metis
    moreover have "k < unat (raw (rs_auditSequence s))"
      using k(1) len unfolding length_rev by (rule less_le_trans)
    ultimately have "raw (aud_sequence a) \<noteq> 0"
      by (simp only: below_not_zero not_False_eq_True)
    then show ?thesis
      unfolding less_StrongValue_def by (simp add: word_neq_0_conv)
  qed
  then show ?thesis
    using up unfolding audit_ascending_def audit_fault_sorted by simp
qed

lemma audit_fits_append:
  assumes "audit_fits s" and "raw (rs_auditSequence s) \<noteq> - 1"
  shows "audit_fits (appendAudit k t out i g d sl f x s)"
proof -
  have len: "length (trim_front n xs) \<le> length xs" for n and xs :: "AuditRecord list"
    by (induction n xs rule: trim_front.induct) auto
  have "unat (raw (rs_auditSequence s) + 1) = unat (raw (rs_auditSequence s)) + 1"
    using unatSuc [of "raw (rs_auditSequence s)"] assms(2) by (simp add: add_eq_0_iff add.commute)
  then show ?thesis
    using assms(1) len [of "cfg_maxAuditRecords (rs_config s)" "rs_audit s"] appendAudit_ok
    by (auto simp: audit_fits_def appendAudit_def Let_def bump_def intro: le_trans)
qed

section \<open>What an allocation does to the image\<close>

lemma prune_spans [simp]: "rs_spans (pruneTerminalReservations s) = rs_spans s"
proof -
  have "rs_spans (prune_loop n s) = rs_spans s" for n
    by (induction n s rule: prune_loop.induct)
      (auto simp: prune_one_def Let_def split: option.split)
  then show ?thesis
    by (simp add: pruneTerminalReservations_def)
qed

lemma count_image [simp]:
  "rs_spans (count_evaluation e s) = rs_spans s" "rs_spans (make_room s) = rs_spans s"
  "rs_audit (count_evaluation e s) = rs_audit s" "rs_audit (make_room s) = rs_audit s"
  "rs_auditSequence (count_evaluation e s) = rs_auditSequence s"
  "rs_auditSequence (make_room s) = rs_auditSequence s"
  by (simp_all add: count_evaluation_def make_room_def)

lemma saveLocked_image:
  "rs_spans (fst (saveLocked h s)) = rs_spans s"
  by (auto simp: saveLocked_def note_failure_def Let_def split: sum.split prod.split)

text \<open>Every record keeps its identity and its lists; at most two numbers of the trail are used.\<close>

definition same_vectors :: "SpectrumReservation \<Rightarrow> SpectrumReservation \<Rightarrow> bool" where
  "same_vectors p q \<longleftrightarrow> res_id p = res_id q \<and> res_domains p = res_domains q
     \<and> res_domainGenerations p = res_domainGenerations q \<and> res_perDomainSlots p = res_perDomainSlots q"

lemma record_sound_frame:
  assumes "record_sound s q" and "same_vectors p q" and "rs_domains s' = rs_domains s"
    and "rs_nextReservationId s \<le> rs_nextReservationId s'"
  shows "record_sound s' p"
  using assms by (auto simp: record_sound_def same_vectors_def less_eq_StrongValue_def)

definition trail_room :: "nat \<Rightarrow> RuntimeState \<Rightarrow> bool" where
  "trail_room n s \<longleftrightarrow> audit_fits s \<and> unat (raw (rs_auditSequence s)) + n < 2 ^ 64"

lemma trail_room_append:
  assumes "trail_room (Suc n) s"
  shows "trail_room n (appendAudit k t out i g d sl f x s)"
proof -
  have bound: "unat (raw (rs_auditSequence s)) + 1 < 2 ^ 64"
    using assms by (simp add: trail_room_def)
  have "unat (raw (rs_auditSequence s) + 1) = unat (raw (rs_auditSequence s)) + 1"
    by (subst unat_add_lem [THEN iffD1]) (use bound in simp_all)
  moreover have "raw (rs_auditSequence s) \<noteq> - 1"
    using bound by (auto simp: unsigned_minus_1_eq_mask mask_eq_exp_minus_1)
  ultimately show ?thesis
    using assms audit_fits_append by (simp add: trail_room_def)
qed

lemma trail_room_frame:
  "trail_room n s \<Longrightarrow> rs_audit s' = rs_audit s \<Longrightarrow> rs_auditSequence s' = rs_auditSequence s \<Longrightarrow>
   rs_config s' = rs_config s \<Longrightarrow> trail_room n s'"
  by (simp add: trail_room_def audit_fits_def audit_ok_def)

text \<open>The trail after an operation: what is left of the old one, and the new records.\<close>

definition grown :: "nat \<Rightarrow> RuntimeState \<Rightarrow> RuntimeState \<Rightarrow> bool" where
  "grown n s s' \<longleftrightarrow> (\<exists>k new. rs_audit s' = drop k (rs_audit s) @ new \<and> length new \<le> n)"

lemma grown_frame: "rs_audit s' = rs_audit s \<Longrightarrow> grown n s s'"
  unfolding grown_def by (intro exI [of _ 0] exI [of _ "[]"]) simp

lemma grown_append:
  assumes "grown n s s'"
  shows "grown (Suc n) s (appendAudit k t out i g d sl f x s')"
proof -
  obtain j new where old: "rs_audit s' = drop j (rs_audit s) @ new" "length new \<le> n"
    using assms by (auto simp: grown_def)
  obtain pre where "rs_audit s' = pre @ trim_front (cfg_maxAuditRecords (rs_config s')) (rs_audit s')"
    using trim_front_suffix by blast
  then have "trim_front (cfg_maxAuditRecords (rs_config s')) (rs_audit s') = drop (length pre) (rs_audit s')"
    by (metis append_eq_conv_conj)
  then have "rs_audit (appendAudit k t out i g d sl f x s')
      = drop (length pre + j) (rs_audit s) @ drop (length pre - length (drop j (rs_audit s))) new @ [last (rs_audit (appendAudit k t out i g d sl f x s'))]"
    by (simp add: appendAudit_def Let_def old(1) add.commute)
  moreover have "length (drop (length pre - length (drop j (rs_audit s))) new @ [last (rs_audit (appendAudit k t out i g d sl f x s'))]) \<le> Suc n"
    using old(2) by simp
  ultimately show ?thesis
    unfolding grown_def by blast
qed

lemma grown_on: "grown n s t \<Longrightarrow> rs_audit t' = rs_audit t \<Longrightarrow> grown n s t'"
  by (simp add: grown_def)

lemma supersede_image:
  assumes "table_inv s" and "supersede at r s = (s', Inl prior)"
  shows "rs_spans s' = rs_spans s" and "trail_room (Suc n) s \<Longrightarrow> trail_room n s'"
    and "grown m t s \<Longrightarrow> grown (Suc m) t s'"
    and "map_of (rs_reservations s') i = Some p \<Longrightarrow> \<exists>q. map_of (rs_reservations s) i = Some q \<and> same_vectors p q"
proof -
  show "rs_spans s' = rs_spans s"
    using assms(2)
    by (auto simp: supersede_def alloc_advanceState_def removeLiveReservation_def Let_def
        split: option.splits if_splits)
next
  assume room: "trail_room (Suc n) s"
  then have "trail_room n s"
    by (simp add: trail_room_def)
  then show "trail_room n s'"
    using assms(2) trail_room_append [OF trail_room_frame [OF room]]
    by (auto simp: supersede_def alloc_advanceState_def removeLiveReservation_def Let_def
        split: option.splits if_splits)
next
  assume old: "grown m t s"
  then have "grown (Suc m) t s"
    by (auto simp: grown_def intro: le_SucI)
  then show "grown (Suc m) t s'"
    using assms(2) grown_append [OF grown_on [OF old]]
    by (auto simp: supersede_def alloc_advanceState_def removeLiveReservation_def Let_def
        split: option.splits if_splits)
next
  assume p: "map_of (rs_reservations s') i = Some p"
  show "\<exists>q. map_of (rs_reservations s) i = Some q \<and> same_vectors p q"
  proof (cases rule: supersede_cases [OF assms])
    case (2 q)
    then show ?thesis
      using p by (cases "i = res_id q") (auto simp: same_vectors_def superseded_record_def)
  qed (use p in \<open>auto simp: same_vectors_def\<close>)
qed

lemma insert_image:
  "rs_spans (insert_reservation at r q s) = rs_spans s"
  "rs_lastActivityAt (insert_reservation at r q s) = at"
  "trail_room (Suc n) s \<Longrightarrow> trail_room n (insert_reservation at r q s)"
  "grown n t s \<Longrightarrow> grown (Suc n) t (insert_reservation at r q s)"
proof -
  show "rs_spans (insert_reservation at r q s) = rs_spans s"
    by (simp add: insert_reservation_def addLiveReservation_def Let_def)
  have "rs_lastActivityAt (pruneTerminalReservations s) = rs_lastActivityAt s" for s
    by simp
  then show "rs_lastActivityAt (insert_reservation at r q s) = at"
    by (simp add: insert_reservation_def Let_def)
  show "trail_room n (insert_reservation at r q s)" if "trail_room (Suc n) s"
  proof -
    have "trail_room n (pruneTerminalReservations s) \<longleftrightarrow> trail_room n s" for s
      by (simp add: trail_room_def audit_fits_def audit_ok_def)
    then show ?thesis
      unfolding insert_reservation_def Let_def
      by (simp only:) (rule trail_room_append, rule trail_room_frame [OF that], simp_all add: addLiveReservation_def)
  qed
  show "grown (Suc n) t (insert_reservation at r q s)" if "grown n t s"
    unfolding insert_reservation_def Let_def
    by (rule grown_on [OF _ prune_frame(8)], rule grown_append, rule grown_on [OF that])
      (simp add: addLiveReservation_def)
qed


text \<open>The vectors of the selected candidate fit the request, and the generations are the registered ones.\<close>

lemma enumerated_sound:
  assumes "enumerated s r contexts g c" and "cand_eligibility c = Eligible"
  shows "length (req_domainGenerations r) = length (req_domains r)"
    and "length (cand_perDomainSlots c) = length (req_domains r)"
    and "\<forall>(i, n) \<in> set (zip (req_domains r) (req_domainGenerations r)).
           map_option dom_generation (map_of (rs_domains s) i) = Some n"
proof -
  obtain k where shape: "status_ok (validateRequestShape r)" and prep: "prepare s r = Inr contexts"
    and c: "c = evaluateCandidate s r g contexts (snd k)
      (default_candidate\<lparr>cand_ordinal := fst k, cand_anchorDomain := ctx_id (hd contexts)\<rparr>)"
    using assms(1) by (auto simp: enumerated_def evaluate_start_def)
  note facts = evaluateCandidate_eligible [OF assms(2) [unfolded c], folded c]
  note lists = check_domain_lists_ok [OF validateRequestShape_parts(2) [OF shape]]
  show len: "length (req_domainGenerations r) = length (req_domains r)"
    by (rule lists(3))
  have ids: "map ctx_id contexts = req_domains r"
    using prepare_ids [OF prep len] .
  then show "length (cand_perDomainSlots c) = length (req_domains r)"
    using facts(9) by (metis length_map)
  show "\<forall>(i, n) \<in> set (zip (req_domains r) (req_domainGenerations r)).
      map_option dom_generation (map_of (rs_domains s) i) = Some n"
  proof (intro ballI, unfold case_prod_unfold)
    fix p
    assume p: "p \<in> set (zip (req_domains r) (req_domainGenerations r))"
    then have "fst p \<in> set (req_domains r)"
      by (metis prod.collapse set_zip_leftD)
    then obtain x where x: "x \<in> set contexts" "ctx_id x = fst p"
      by (auto simp flip: ids)
    obtain dom where dom: "map_of (rs_domains s) (fst p) = Some dom"
      "(fst p, dom_generation dom) \<in> set (zip (req_domains r) (req_domainGenerations r))"
      using prepare_domains_generations [OF prep x(1)] x(2) by auto
    have "distinct (req_domains r)"
      using lists(5) by (simp add: strict_sorted_iff)
    then have "snd p = dom_generation dom"
      using dom(2) p len by (metis map_fst_zip map_of_eq_Some_iff option.inject prod.collapse)
    then show "map_option dom_generation (map_of (rs_domains s) (fst p)) = Some (snd p)"
      by (simp add: dom(1))
  qed
qed

lemma selected_sound:
  assumes "ev_eligible (evaluate s r)" and "\<not> ev_replay (evaluate s r)"
  defines "c \<equiv> ev_selected (evaluate s r)"
  shows "length (req_domainGenerations r) = length (req_domains r)"
    and "length (cand_perDomainSlots c) = length (req_domains r)"
    and "\<forall>(i, n) \<in> set (zip (req_domains r) (req_domainGenerations r)).
           map_option dom_generation (map_of (rs_domains s) i) = Some n"
proof -
  obtain pre post where sel: "cset_candidates (enumerateCandidates s r) = pre @ c # post"
    using selected_admissible(3) [OF assms(1,2)] c_def by blast
  then have "c \<in> set (cset_candidates (fst (enumerateWithOutcome s r)))"
    by (simp add: enumerateCandidates_def)
  then obtain contexts g where "enumerated s r contexts g c"
    by (rule enumerate_mem)
  note enumerated_sound [OF this selected_admissible(2) [OF assms(1,2), folded c_def]]
  then show "length (req_domainGenerations r) = length (req_domains r)"
    and "length (cand_perDomainSlots c) = length (req_domains r)"
    and "\<forall>(i, n) \<in> set (zip (req_domains r) (req_domainGenerations r)).
           map_option dom_generation (map_of (rs_domains s) i) = Some n"
    by blast+
qed


text \<open>
  A grant that was made durable: the state that was encoded is consistent, and what the operation
  returns differs from it by the record of the save only.
\<close>

lemma durable_grant:
  assumes "table_inv s" and "grids_ok s" and "lease_inv (req_requestedAt r) s" and "consistent s"
    and "raw (rs_nextReservationId s) < 0xFFFFFFFFFFFFFFFF" and "trail_room 2 s" and "durable s"
    and "allocate h r s = (s', d)" and "status_ok (dec_status d)" and "\<not> ev_replay (evaluate s r)"
  obtains u saved q where "saveLocked h u = (s', saved)" "status_ok saved" "consistent u" "rs_config u = rs_config s"
    "rs_fence u = rs_fence s" "rs_authority u = rs_authority s" "grown 2 s u" "audit_ok u"
    "map_of (rs_reservations s') (dec_reservation d) = Some q" "res_state q = Reserved"
    "dec_reservation d = rs_nextReservationId s" "rs_nextReservationId u = bump (rs_nextReservationId s)"
    "status_ok (validateRequestShape r)" "sameRequestShape q r"
    "res_requestId q = req_requestId r" "res_requestGeneration q = req_requestGeneration r"
proof (cases rule: allocate_cases [OF assms(1,8)])
  case (4 s1 s2 prior d0)
  note room = make_room_inv [OF assms(1)]
  have t1: "table_inv s1" "rs_nextReservationId s1 = rs_nextReservationId s"
    using room 4(3) by simp_all
  note sup = supersede_inv [OF t1(1) 4(5)]
  note img = supersede_image [OF t1(1) 4(5)]
  have n2: "raw (rs_nextReservationId s2) < 0xFFFFFFFFFFFFFFFF" "rs_nextReservationId s2 = rs_nextReservationId s"
    using sup(4) t1(2) assms(5) by simp_all
  define c where "c = ev_selected (evaluate s r)"
  have shape: "status_ok (validateRequestShape r)"
    using evaluate_eligible(1) [OF 4(2)] .
  then have at: "allocation_instant h r = req_requestedAt r"
    using check_lease_ok [OF validateRequestShape_parts(4) [OF shape]] by (simp add: allocation_instant_def)
  have config: "rs_config s2 = rs_config s" "same_rules s s2"
    using room(3) sup(3) 4(3) same_rules_trans by (auto simp: same_rules_def)
  show thesis
    using 4(6)
  proof (cases rule: commit_cases)
    case overflow
    then show thesis
      using assms(9) by (simp add: refuse_decision_def)
  next
    case (rolled_back e q u v saved)
    then show thesis
      using assms(9) by (simp add: ungrant_decision_def)
  next
    case (granted e q u)
    have q: "res_id q = rs_nextReservationId s2" "res_state q = Reserved"
      using granted(2) by simp_all
    obtain saved where saved: "saveLocked h u = (s', saved)" "status_ok saved"
      using granted(4) assms(7) config(1) by (auto simp: durable_def)
    note ins = insert_reservation_inv(1,3,4) [OF sup(1) n2(1) q, where at = "allocation_instant h r" and r = r,
        folded committed_state_def, folded granted(3)]
    have same: "rs_reservations s' = rs_reservations u"
      using saved(1) saveLocked_ownership [of u h] by (simp add: same_ownership_def)
    have rules: "same_rules s u" "rs_spans u = rs_spans s" "rs_lastActivityAt u = req_requestedAt r"
      and next_id: "rs_nextReservationId u = bump (rs_nextReservationId s)"
    proof -
      have "same_rules s2 u"
        using insert_reservation_frame(1) [of "s2\<lparr>rs_nextReservationId := bump (rs_nextReservationId s2)\<rparr>"
            "allocation_instant h r" r q]
        by (simp add: granted(3) committed_state_def same_rules_def)
      then show "same_rules s u"
        by (rule same_rules_trans [OF config(2)])
      show "rs_spans u = rs_spans s" "rs_lastActivityAt u = req_requestedAt r"
        "rs_nextReservationId u = bump (rs_nextReservationId s)"
        by (simp_all add: granted(3) committed_state_def insert_image(1,2) img(1) 4(3) n2(2) at)
    qed
    have trail: "trail_room 0 u"
    proof -
      have "trail_room 2 s1"
        by (rule trail_room_frame [OF assms(6)]) (use 4(3) room(3) in \<open>simp_all add: same_rules_def\<close>)
      then have "trail_room (Suc 0) s2"
        using img(2) [of "Suc 0"] by (simp add: numeral_2_eq_2)
      then have "trail_room (Suc 0) (s2\<lparr>rs_nextReservationId := bump (rs_nextReservationId s2)\<rparr>)"
        by (rule trail_room_frame) simp_all
      then show ?thesis
        unfolding granted(3) committed_state_def by (rule insert_image(3))
    qed
    have trace: "grown 2 s u"
    proof -
      have "grown (Suc 0) s s2"
        by (rule img(3), rule grown_frame) (simp add: 4(3))
      then have "grown (Suc (Suc 0)) s u"
        unfolding granted(3) committed_state_def by (intro insert_image(4)) (erule grown_on, simp)
      then show ?thesis
        by (simp add: numeral_2_eq_2)
    qed
    have lease: "lease_inv (req_requestedAt r) u"
      using allocate_lease [OF assms(1,5,2,3), of r h] assms(8) same by (auto intro: lease_inv_frame)
    have recent: "req_requestedAt r \<le> check_instant u"
      using checkAt_bounds(1) [of "image_of u u"] rules(3) by (simp add: check_instant_def)
    have sound: "record_sound u p" if p: "p \<in> set (om_values (rs_reservations u))" for p
    proof -
      obtain i where i: "map_of (rs_reservations u) i = Some p"
        using p om_values_mem [OF table_inv_om [OF ins(1)]] by blast
      show ?thesis
      proof (cases "i = res_id q")
        case True
        then have "p = q"
          using i ins(2) by simp
        then show ?thesis
          using selected_sound [OF 4(2,1), folded c_def] granted(2) rules(1) next_id n2 bump_greater [OF assms(5)]
          by (simp add: record_sound_def same_rules_def committed_record_def new_reservation_def less_StrongValue_def
              c_def [symmetric] del: map_option_eq_Some)
      next
        case False
        obtain p2 where p2: "map_of (rs_reservations s1) i = Some p2" "same_vectors p p2"
          using img(4) [OF ins(3) [OF i False]] by blast
        then have old: "map_of (rs_reservations s) i = Some p2"
          using room(6) 4(3) by simp
        then have "record_sound s p2"
          using assms(4) om_values_mem [OF table_inv_om [OF assms(1)]] by (auto simp: consistent_iff)
        then show ?thesis
          by (rule record_sound_frame [OF _ p2(2)])
            (use rules(1) next_id bump_greater [OF assms(5)] in \<open>simp_all add: same_rules_def less_imp_le\<close>)
      qed
    qed
    have "consistent u"
      unfolding consistent_iff
      using registries_sound_frame [OF rules(1,2)] assms(4) sound owners_apartI [OF _ lease recent]
        audit_fits_ascending trail ins(1)
      by (auto simp: consistent_iff trail_room_def table_inv_def)
    moreover have "map_of (rs_reservations s') (dec_reservation d) = Some q" "dec_reservation d = rs_nextReservationId s"
      using ins(2) same granted(5) q(1) n2(2) by (simp_all add: grant_decision_def)
    moreover have "slot_count (cand_slots c) = req_slots r"
      using selected_admissible(1) [OF 4(2,1), folded c_def] by (simp add: admissible_def)
    then have "sameRequestShape q r" "res_requestId q = req_requestId r"
      "res_requestGeneration q = req_requestGeneration r"
      by (simp_all add: granted(2) committed_record_def sameRequestShape_def c_def) (simp_all add: new_reservation_def c_def)
    ultimately show thesis
      using that [OF saved] rules(1,2) next_id trace trail q(2) shape by (simp add: same_rules_def trail_room_def audit_fits_def)
  qed
next
  case 2
  then show thesis
    using assms(9) evaluate_refusal(1) [of s r] by (auto simp: statusForOutcome_ok)
qed (use assms in simp_all)


section \<open>What was encoded can be read back\<close>

lemma saveLocked_success:
  assumes "saveLocked h u = (s', saved)" and "status_ok saved"
  obtains disk stats k t out x where "s' = auditNote k t out x (u\<lparr>rs_disk := disk, rs_stats := stats\<rparr>)"
proof (cases "encodeState u")
  case (Inl st)
  then have "\<not> status_ok st"
    by (auto simp: encodeState_def Let_def split: if_splits)
  then show ?thesis
    using assms Inl by (auto simp: saveLocked_def split: if_splits)
next
  case (Inr bytes)
  obtain disk written where w: "writeStateFile (host_io h) (cfg_statePath (rs_config u)) bytes (rs_disk u)
      = (disk, written)" by fastforce
  show ?thesis
    using assms Inr w that [of PersistenceFlushed "host_now h" OutcomeUnknown] by (auto simp: saveLocked_def Let_def split: if_splits)
qed

text \<open>
  The trail that was encoded: at most its oldest record has left the trail since, and that one had
  been there before the operation.
\<close>

lemma encoded_trail:
  assumes "grown 2 s u" and "length (rs_audit u) \<le> m" and "3 \<le> m"
    and "a \<in> set (rs_audit u)"
  shows "a \<in> set (rs_audit s) \<or> a \<in> set (trim_front m (rs_audit u))"
proof (cases "length (rs_audit u) < m")
  case True
  then show ?thesis
    using assms(4) by (simp add: trim_front_id)
next
  case False
  then have len: "length (rs_audit u) = m"
    using assms(2) by simp
  then obtain b bs where list: "rs_audit u = b # bs"
    using assms(3) by (cases "rs_audit u") auto
  then have trimmed: "trim_front m (rs_audit u) = bs"
    using len by (simp add: trim_front_id)
  obtain k new where old: "rs_audit u = drop k (rs_audit s) @ new" "length new \<le> 2"
    using assms(1) by (auto simp: grown_def)
  then have "drop k (rs_audit s) \<noteq> []"
    using len assms(3) by auto
  then have "b = hd (drop k (rs_audit s))"
    using old(1) list by (metis hd_append2 list.sel(1))
  then have "b \<in> set (rs_audit s)"
    using \<open>drop k (rs_audit s) \<noteq> []\<close> by (metis hd_in_set in_set_dropD)
  moreover have "a = b \<or> a \<in> set (trim_front m (rs_audit u))"
    using assms(4) unfolding trimmed by (simp add: list)
  ultimately show ?thesis
    by blast
qed

lemma storable_encoded:
  assumes "saveLocked h u = (s', saved)" and "status_ok saved" and "storable_state s" and "storable_state s'"
    and "grown 2 s u" and "audit_ok u" and "3 \<le> cfg_maxAuditRecords (rs_config u)"
  shows "storable_state u"
proof -
  obtain disk stats k t out x where s': "s' = auditNote k t out x (u\<lparr>rs_disk := disk, rs_stats := stats\<rparr>)"
    by (rule saveLocked_success [OF assms(1,2)])
  have "rs_ports s' = rs_ports u" "rs_spans s' = rs_spans u"
    by (simp_all add: s')
  moreover have "list_all (\<lambda>a. sv_valid (aud_sequence a) \<and> storable_audit a) (rs_audit u)"
    unfolding list_all_iff
  proof
    fix a
    assume "a \<in> set (rs_audit u)"
    then consider "a \<in> set (rs_audit s)" | "a \<in> set (trim_front (cfg_maxAuditRecords (rs_config u)) (rs_audit u))"
      using encoded_trail [OF assms(5) _ assms(7)] assms(6) by (auto simp: audit_ok_def)
    then have "a \<in> set (rs_audit s) \<or> a \<in> set (rs_audit s')"
      by cases (simp_all add: s' auditNote_def appendAudit_def Let_def)
    then show "sv_valid (aud_sequence a) \<and> storable_audit a"
      using assms(3,4) by (auto simp: storable_state_def list_all_iff)
  qed
  moreover have "rs_lastActivityAt s' = rs_lastActivityAt u" "rs_grids s' = rs_grids u" "rs_domains s' = rs_domains u"
    "rs_exclusionDomains s' = rs_exclusionDomains u" "rs_capabilities s' = rs_capabilities u"
    "rs_reservations s' = rs_reservations u"
    by (simp_all add: s')
  ultimately show ?thesis
    using assms(4) by (simp add: storable_state_def)
qed

text \<open>A trail that ascends from zero holds no more records than numbers were handed out.\<close>

lemma ascending_length:
  fixes p :: "'tag StrongValue"
  shows "sorted_wrt (<) (p # ns) \<Longrightarrow> unat (raw p) + length ns \<le> unat (raw (last (p # ns)))"
proof (induction ns arbitrary: p)
  case (Cons n ns)
  have "unat (raw p) < unat (raw n)"
    using Cons.prems by (simp add: less_StrongValue_def word_less_nat_alt)
  then show ?case
    using Cons.IH [of n] Cons.prems by simp
qed simp

lemma consistent_trail:
  assumes "audit_ok s" and "consistent s" and "unat (raw (rs_auditSequence s)) + n < 2 ^ 64"
  shows "trail_room n s"
proof (cases "rs_audit s = []")
  case False
  have "unat (raw (StrongValue 0 :: AuditSequence)) + length (map aud_sequence (rs_audit s))
      \<le> unat (raw (last (StrongValue 0 # map aud_sequence (rs_audit s))))"
    by (rule ascending_length) (use assms(2) in \<open>simp add: consistent_iff audit_ascending_def audit_fault_sorted\<close>)
  moreover have "raw (aud_sequence (last (rs_audit s))) = raw (rs_auditSequence s)"
    using assms(1) False by (cases "rev (rs_audit s)") (auto simp: audit_ok_def rev_eq_Cons_iff)
  ultimately show ?thesis
    using assms(1,3) False by (simp add: trail_room_def audit_fits_def last_map)
qed (use assms in \<open>simp add: trail_room_def audit_fits_def\<close>)

section \<open>Saving works when the file system does\<close>

lemma length_nat_to_string: "n < 10 ^ Suc k \<Longrightarrow> length (nat_to_string n) \<le> Suc k"
proof (induction k arbitrary: n)
  case (Suc k)
  show ?case
  proof (cases "n < 10")
    case False
    then show ?thesis
      using Suc.IH [of "n div 10"] Suc.prems by (subst nat_to_string.simps) simp
  qed (subst nat_to_string.simps, simp)
qed (subst nat_to_string.simps, simp)

text \<open>The state an allocation encodes.\<close>

definition encoded_by :: "SpectrumRequest \<Rightarrow> RuntimeState \<Rightarrow> RuntimeState option" where
  "encoded_by r s =
     (let e = evaluate s r; s1 = make_room (count_evaluation e s)
      in if ev_replay e \<or> \<not> ev_eligible e \<or> cfg_maxReservations (rs_config s) \<le> length (rs_reservations s1) then None
         else (case supersede (req_requestedAt r) r s1 of
             (s2, Inr _) \<Rightarrow> None
           | (s2, Inl _) \<Rightarrow> map_option
               (\<lambda>expiry. committed_state (req_requestedAt r) r (committed_record s2 r (ev_selected e) (req_requestedAt r) expiry) s2)
               (addOverflow (leaseStart r) (req_leaseDuration r))))"

lemma allocate_saves:
  assumes "table_inv s" and "encoded_by r s = Some u" and "durable s" and "encodeState u = Inr bytes"
    and "length bytes \<le> unat (cfg_maxStateBytes (rs_config u))" and "rs_config u = rs_config s"
    and "io_open (host_io h)" and "io_written (host_io h) = length bytes" and "io_close (host_io h)"
    and "io_rename (host_io h) = None"
    and "allocate h r s = (s', d)"
  shows "saveLocked h u = (s', okStatus)" and "status_ok (dec_status d)" and "\<not> ev_replay (evaluate s r)"
proof -
  have path: "cfg_statePath (rs_config u) \<noteq> []"
    using assms(3,6) by (simp add: durable_def)
  have wrote: "snd (saveLocked h u) = okStatus"
    using path assms(4,5,7-10) by (simp add: saveLocked_def writeStateFile_def Let_def)
  note enc = assms(2) [unfolded encoded_by_def Let_def]
  have "saveLocked h u = (s', okStatus) \<and> status_ok (dec_status d) \<and> \<not> ev_replay (evaluate s r)"
  proof (cases rule: allocate_cases [OF assms(1,11)])
    case (4 s1 s2 prior d0)
    have at: "allocation_instant h r = req_requestedAt r"
      using check_lease_ok [OF validateRequestShape_parts(4) [OF evaluate_eligible(1) [OF 4(2)]]]
      by (simp add: allocation_instant_def)
    obtain expiry where u: "addOverflow (leaseStart r) (req_leaseDuration r) = Some expiry"
      "u = committed_state (req_requestedAt r) r
        (committed_record s2 r (ev_selected (evaluate s r)) (req_requestedAt r) expiry) s2"
      using enc 4(1-5) at by (auto split: if_splits)
    have "rs_config s2 = rs_config s"
      using make_room_inv(1,3) [OF assms(1)] supersede_inv(3) [OF _ 4(5)] 4(3) by (simp add: same_rules_def)
    then have dur: "durable s2"
      using assms(3) by (simp add: durable_def)
    show ?thesis
      using 4(6)
    proof (cases rule: commit_cases)
      case (granted e q v)
      then show ?thesis
        using u at dur wrote 4(1) by (auto simp: grant_decision_def)
    next
      case (rolled_back e q v w saved)
      then show ?thesis
        using u at wrote by auto
    qed (use u in simp)
  qed (use enc in auto)
  then show "saveLocked h u = (s', okStatus)" and "status_ok (dec_status d)" and "\<not> ev_replay (evaluate s r)"
    by blast+
qed

lemma storable_after_save:
  assumes "storable_state u" and "saveLocked h u = (s', saved)" and "status_ok saved"
    and "storable_instant (host_now h)" and "storable_fence (rs_fence u)" and "sv_valid (bump (rs_auditSequence u))"
    and "length (cfg_statePath (rs_config u)) \<le> 1000"
  shows "storable_state s'"
proof -
  obtain bytes where bytes: "encodeState u = Inr bytes"
    using saveLocked_success_disk [of h u] assms(2,3) by (metis snd_conv)
  have "length bytes < 10 ^ Suc 7"
    using encodeState_length [OF assms(1) bytes] by (simp add: kMaxBufferBytes_def)
  then have "length (nat_to_string (length bytes)) \<le> 8"
    using length_nat_to_string by fastforce
  then have detail: "length (msg_wrote (length bytes) (cfg_statePath (rs_config u))) \<le> kMaxDetailBytes"
    using assms(7) by (simp add: msg_wrote_def kMaxDetailBytes_def)
  obtain disk written where w: "writeStateFile (host_io h) (cfg_statePath (rs_config u)) bytes (rs_disk u)
      = (disk, written)" by fastforce
  obtain disk stats where s': "s' = auditNote PersistenceFlushed (host_now h) OutcomeUnknown
      (msg_wrote (length bytes) (cfg_statePath (rs_config u))) (u\<lparr>rs_disk := disk, rs_stats := stats\<rparr>)"
    using assms(2,3) bytes w by (auto simp: saveLocked_def Let_def split: if_splits)
  have old: "list_all (\<lambda>a. sv_valid (aud_sequence a) \<and> storable_audit a) (rs_audit u)"
    using assms(1) by (simp add: storable_state_def)
  have "set (trim_front n (rs_audit u)) \<subseteq> set (rs_audit u)" for n
    by (metis trim_front_suffix set_append sup_ge2)
  then have "list_all (\<lambda>a. sv_valid (aud_sequence a) \<and> storable_audit a) (rs_audit s')"
    using old assms(4-6) detail
    by (auto simp: s' auditNote_def appendAudit_def Let_def list_all_iff storable_audit_def default_slots_def
        default_frequency_def storable_slots_def storable_frequency_def is_u32_def kU32Modulus_def kMaxFrequencyMhz_def)
  then show ?thesis
    using assms(1) by (simp add: s' storable_state_def)
qed


end
