(* ===== verification/Crash.thy ===== *)
theory Crash
  imports Daemon Sound_Image
begin

text \<open>
  A crash right after an acknowledged allocation. A server that is started on the file the allocation
  was committed to serves the reservation whose grant was acknowledged, still owning its spectrum.
\<close>

section \<open>The rebuilt request index\<close>

text \<open>
  The request index is rebuilt in the order of the identities, so a request leads to its newest
  reservation.
\<close>

lemma om_greatest_last:
  assumes "om_ok m" and "map_of m i = Some q" and "\<And>j. map_of m j \<noteq> None \<Longrightarrow> j \<le> i"
  obtains xs where "m = xs @ [(i, q)]"
proof -
  have mem: "(i, q) \<in> set m"
    using assms(2) by (rule map_of_SomeD)
  then obtain xs ys where split: "m = xs @ (i, q) # ys"
    by (meson split_list)
  have "ys = []"
  proof (rule ccontr)
    assume "ys \<noteq> []"
    then obtain j v where j: "(j, v) \<in> set ys"
      by (metis list.set_intros(1) neq_Nil_conv surj_pair)
    then have "i < j"
      using assms(1) by (auto simp: om_ok_def split sorted_wrt_append)
    moreover have "j \<le> i"
    proof (rule assms(3))
      have "(j, v) \<in> set m"
        using j by (simp add: split)
      then show "map_of m j \<noteq> None"
        using om_in_set [OF assms(1)] by (metis option.distinct(1))
    qed
    ultimately show False
      by simp
  qed
  then show ?thesis
    using that split by blast
qed

lemma below_bump: "j < bump i \<Longrightarrow> j \<le> i"
proof -
  assume "j < bump i"
  then have "unat (raw j) < (unat (raw i) + 1) mod 2 ^ 64"
    by (simp add: less_StrongValue_def bump_def word_less_nat_alt unat_word_ariths)
  also have "\<dots> \<le> unat (raw i) + 1"
    by simp
  finally show "j \<le> i"
    by (simp add: less_eq_StrongValue_def word_le_nat_alt)
qed

lemma rebuilt_request:
  assumes "reservations_ok s" and "map_of (rs_reservations s) i = Some q"
    and "\<And>j. map_of (rs_reservations s) j \<noteq> None \<Longrightarrow> j \<le> i"
  shows "map_of (rs_requestIndex (rebuildIndices s)) (res_requestId q) = Some i"
proof -
  have "om_ok (rs_reservations s)" "res_id q = i"
    using assms(1,2) by (auto simp: reservations_ok_def)
  then obtain xs where "rs_reservations s = xs @ [(i, q)]"
    using om_greatest_last [OF _ assms(2,3)] by blast
  then show ?thesis
    using \<open>res_id q = i\<close> by (simp add: rebuild_entries reindex_entry_def addLiveReservation_def)
qed

lemma recovered_request:
  assumes "recover now io inc s = (s', report)" and "status_ok (rec_status report)"
    and "map_of (rs_reservations s') i = Some q" and "\<And>j. map_of (rs_reservations s') j \<noteq> None \<Longrightarrow> j \<le> i"
  shows "map_of (rs_requestIndex s') (res_requestId q) = Some i" and "auth_fence (rs_authority s') = rs_fence s'"
proof -
  obtain t where ok: "recovered_ok t s'"
    by (rule recover_accepted [OF assms(1,2)])
  then show "auth_fence (rs_authority s') = rs_fence s'"
    by (simp add: recovered_ok_def)
  have "\<exists>x k u m. s' = auditNote k now u m (rebuildIndices x)"
    by (rule recover_cases [OF assms(1)]) (use assms(2) in auto)
  then obtain x k u m where x: "s' = auditNote k now u m (rebuildIndices x)"
    by blast
  then have same: "rs_reservations s' = rs_reservations x"
    by simp
  then have "reservations_ok x"
    using ok by (simp add: recovered_ok_def reservations_ok_def)
  then show "map_of (rs_requestIndex s') (res_requestId q) = Some i"
    using rebuilt_request [of x i q] assms(3,4) by (simp add: x)
qed

section \<open>The crash\<close>

text \<open>The states of a daemon that was started with these options.\<close>

definition daemon_state :: "DaemonOptions \<Rightarrow> RuntimeState \<Rightarrow> bool" where
  "daemon_state d s \<longleftrightarrow> rs_config s = normalise_config (daemon_config d)"

lemma daemon_config_fields:
  assumes "daemon_state d s"
  shows "cfg_statePath (rs_config s) = dmo_statePath d" "cfg_maxStateBytes (rs_config s) = 268435456"
    "cfg_maxAuditRecords (rs_config s) = 65536"
    "durable s \<longleftrightarrow> dmo_durable d \<and> dmo_statePath d \<noteq> []"
  using assms
  by (auto simp: daemon_state_def durable_def normalise_config_def daemon_config_def default_config_def)

text \<open>A daemon that finds an image it accepts serves what it recovered, or fails to listen.\<close>

lemma daemon_boot_recovered:
  assumes "recover (dos_recoveryNow os) (dos_read os) (dos_recoveryIncarnation os) (daemon_runtime os d) = (r, report)"
    and "rec_recovered report" and "dmo_statePath d \<noteq> []" and "dos_stat os (dmo_statePath d)"
  shows "daemon_boot os d = daemon_start os d (Some report) r"
  using assms by (simp add: daemon_boot_def pathExists_def)

text \<open>
  A durable daemon in operation: its state has the invariants of the reachable states, its image would
  be accepted, no counter is about to wrap, and every value has the width and the length it has in
  the image.
\<close>

definition in_operation :: "DaemonOptions \<Rightarrow> Instant \<Rightarrow> RuntimeState \<Rightarrow> bool" where
  "in_operation d t s \<longleftrightarrow> daemon_state d s \<and> dmo_durable d \<and> dmo_statePath d \<noteq> []
     \<and> runtime_inv t s \<and> consistent s \<and> storable_state s
     \<and> raw (rs_nextReservationId s) < 0xFFFFFFFFFFFFFFFF \<and> unat (raw (rs_auditSequence s)) + 2 < 2 ^ 64
     \<and> raw (epoch (rs_fence s)) + 1 \<le> kMaxFenceValue"

text \<open>A daemon is started on the file another one has left, and can read it.\<close>

definition started_on :: "DaemonOptions \<Rightarrow> RuntimeState \<Rightarrow> DaemonOs \<Rightarrow> bool" where
  "started_on d s os \<longleftrightarrow> dos_disk os = rs_disk s \<and> dos_stat os (dmo_statePath d)
     \<and> reads_all (dos_read os) (the (rs_disk s (dmo_statePath d)))"

lemma crash:
  assumes "in_operation d (req_requestedAt r) s"
    and "allocate h r s = (s', dec)" and "status_ok (dec_status dec)" and "\<not> ev_replay (evaluate s r)"
    and "storable_state s'" and "started_on d s' os"
  obtains q r' report where "map_of (rs_reservations s') (dec_reservation dec) = Some q" "res_state q = Reserved"
    "daemon_boot os d = daemon_start os d (Some report) r'"
    "map_of (rs_reservations r') (dec_reservation dec) = Some q" "live_exact r'"
    "rs_fence r' = \<lparr>epoch = StrongValue (raw (epoch (rs_fence s)) + 1), incarnation = StrongValue (dos_recoveryIncarnation os)\<rparr>"
    "rs_authority r' = (rs_authority s)\<lparr>auth_fence := rs_fence r'\<rparr>"
    "status_ok (validateRequestShape r)" "sameRequestShape q r" "res_requestGeneration q = req_requestGeneration r"
    "map_of (rs_requestIndex r') (req_requestId r) = Some (dec_reservation dec)" "res_id q = dec_reservation dec"
proof -
  have inv: "table_inv s" "grids_ok s" "lease_inv (req_requestedAt r) s" "consistent s" "storable_state s"
    "raw (rs_nextReservationId s) < 0xFFFFFFFFFFFFFFFF" "trail_room 2 s" "raw (epoch (rs_fence s)) + 1 \<le> kMaxFenceValue"
    and d: "daemon_state d s" "dmo_durable d" "dmo_statePath d \<noteq> []"
    using assms(1) consistent_trail by (simp_all add: in_operation_def runtime_inv_def)
  note fields = daemon_config_fields [OF d(1)]
  have dur: "durable s"
    using fields(4) d(2,3) by simp
  obtain u saved q where u: "saveLocked h u = (s', saved)" "status_ok saved" "consistent u" "rs_config u = rs_config s"
    "rs_fence u = rs_fence s" "rs_authority u = rs_authority s" "grown 2 s u" "audit_ok u"
    and q: "map_of (rs_reservations s') (dec_reservation dec) = Some q" "res_state q = Reserved"
    and id: "dec_reservation dec = rs_nextReservationId s" "rs_nextReservationId u = bump (rs_nextReservationId s)"
    and shape: "status_ok (validateRequestShape r)"
    and req: "sameRequestShape q r" "res_requestId q = req_requestId r" "res_requestGeneration q = req_requestGeneration r"
    by (rule durable_grant [OF inv(1-4,6,7) dur assms(2-4)])
  have same: "rs_reservations u = rs_reservations s'" "rs_nextReservationId u = rs_nextReservationId s'"
    using saveLocked_ownership [of u h] u(1) by (simp_all add: same_ownership_def)
  have storable: "storable_state u"
    using storable_encoded [OF u(1,2) inv(5) assms(5) u(7,8)] fields(3) u(4) by simp
  let ?r = "daemon_runtime os d"
  have saves: "status_ok (snd (save h u))" "fst (save h u) = s'"
    using u(1,2) by (simp_all add: save_def)
  have rt: "cfg_statePath (rs_config ?r) = cfg_statePath (rs_config u)"
    "cfg_maxStateBytes (rs_config ?r) = cfg_maxStateBytes (rs_config u)"
    "rs_disk ?r = rs_disk (fst (save h u))"
    "reads_all (dos_read os) (the (rs_disk ?r (cfg_statePath (rs_config ?r))))"
    using daemon_runtime_fields [of os d] fields(1,2) u(4) assms(6) saves(2) by (simp_all add: started_on_def)
  obtain r' report where rec: "recover (dos_recoveryNow os) (dos_read os) (dos_recoveryIncarnation os) ?r = (r', report)"
    "rec_status report = okStatus" "restored (dos_recoveryNow os) (dos_recoveryIncarnation os) u r'"
    by (rule save_then_recover [OF storable u(3) saves(1) _ rt, where now = "dos_recoveryNow os"
        and inc = "dos_recoveryIncarnation os"]) (use inv(8) u(5) in simp)
  have "rec_recovered report"
    by (rule recover_cases [OF rec(1)]) (use rec(2) in simp_all)
  then have boot: "daemon_boot os d = daemon_start os d (Some report) r'"
    using daemon_boot_recovered [OF rec(1)] d(3) assms(6) by (simp add: started_on_def)
  have kept: "map_of (rs_reservations r') (dec_reservation dec) = Some q"
    using rec(3) q by (simp add: restored_def same demotion_def)
  have table: "table_inv s'"
    using allocate_table [OF inv(1,6), of h r] assms(2) by simp
  then have own: "res_id q = dec_reservation dec"
    using q(1) by (simp add: table_inv_def reservations_ok_def)
  have newest: "j \<le> dec_reservation dec" if j: "map_of (rs_reservations r') j \<noteq> None" for j
  proof -
    have "map_of (rs_reservations s') j \<noteq> None"
      using rec(3) j by (simp add: restored_def same)
    then have "j < rs_nextReservationId s'"
      using table by (simp add: table_inv_def ids_below_def)
    then show ?thesis
      unfolding same(2) [symmetric] id by (rule below_bump)
  qed
  have "map_of (rs_requestIndex r') (req_requestId r) = Some (dec_reservation dec)"
    using recovered_request(1) [OF rec(1) _ kept newest] rec(2) req(2) by simp
  then show thesis
    using that [OF q boot kept _ _ _ shape req(1,3) _ own] rec(3) u(5,6) by (simp add: restored_def)
qed

text \<open>What the started daemon serves.\<close>

definition serves :: "Daemon \<Rightarrow> ReservationId \<Rightarrow> SpectrumReservation \<Rightarrow> bool" where
  "serves b i q \<longleftrightarrow> (case b of
     Serving _ s _ _ _ \<Rightarrow> map_of (rs_reservations s) i = Some q
       \<and> (\<forall>d \<in> set (res_domains q). i \<in> set (live_list (rs_liveByDomain s) d))
   | StartFailed _ _ \<Rightarrow> True
   | RecoverFailed _ \<Rightarrow> False
   | DaemonUsage \<Rightarrow> False)"

lemma serves_start:
  assumes "live_exact s" and "map_of (rs_reservations s) i = Some q" and "isLiveState (res_state q)"
  shows "serves (daemon_start os d recovered s) i q"
  using assms by (auto simp: serves_def daemon_start_def live_exactD owns_def split: sum.split)

section \<open>A lost acknowledgement\<close>

text \<open>The same request again, with other authority.\<close>

definition retried :: "EligibilityAuthority \<Rightarrow> ReservationAuthority \<Rightarrow> SpectrumRequest \<Rightarrow> SpectrumRequest" where
  "retried e a r = r\<lparr>req_eligibilityAuthority := e, req_reservationAuthority := a\<rparr>"

lemma retried_fields [simp]:
  "req_requestId (retried e a r) = req_requestId r" "req_requestGeneration (retried e a r) = req_requestGeneration r"
  "req_owner (retried e a r) = req_owner r" "req_ownerGeneration (retried e a r) = req_ownerGeneration r"
  "req_domains (retried e a r) = req_domains r" "req_domainGenerations (retried e a r) = req_domainGenerations r"
  "req_grid (retried e a r) = req_grid r" "req_gridGeneration (retried e a r) = req_gridGeneration r"
  "req_slots (retried e a r) = req_slots r" "req_contiguity (retried e a r) = req_contiguity r"
  "req_continuity (retried e a r) = req_continuity r" "req_frequencyWindows (retried e a r) = req_frequencyWindows r"
  "req_guardBandMhz (retried e a r) = req_guardBandMhz r" "req_leaseDuration (retried e a r) = req_leaseDuration r"
  "req_maxRenewals (retried e a r) = req_maxRenewals r" "req_requestedAt (retried e a r) = req_requestedAt r"
  "req_notBefore (retried e a r) = req_notBefore r" "req_constraints (retried e a r) = req_constraints r"
  "req_eligibilityAuthority (retried e a r) = e" "req_reservationAuthority (retried e a r) = a"
  by (simp_all add: retried_def)

lemma retried_checks:
  "check_identity (retried e a r) = check_identity r" "check_domain_lists (retried e a r) = check_domain_lists r"
  "check_channel (retried e a r) = check_channel r" "check_lease (retried e a r) = check_lease r"
  "sameRequestShape q (retried e a r) = sameRequestShape q r"
  unfolding check_identity_def check_domain_lists_def check_channel_def check_lease_def
    sameRequestShape_def retried_fields
  by simp_all

lemma retried_shape:
  assumes "status_ok (validateRequestShape r)" and "tok_valid e" and "tok_valid a"
  shows "status_ok (validateRequestShape (retried e a r))"
proof -
  have "status_ok (check_explicit r) \<Longrightarrow> status_ok (check_explicit (retried e a r))"
    using assms(2,3) by (auto simp: check_explicit_def split: if_splits)
  then show ?thesis
    using assms(1) unfolding validateRequestShape_def first_failure_ok retried_checks retried_fields by simp
qed

lemma retry_replays:
  assumes "status_ok (validateRequestShape r)"
    and "status_ok (checkEligibilityAuthority (rs_authority s) e)"
    and "status_ok (checkReservationAuthority (rs_authority s) a)"
    and "map_of (rs_requestIndex s) (req_requestId r) = Some i" and "map_of (rs_reservations s) i = Some q"
    and "sameRequestShape q r" and "res_requestGeneration q = req_requestGeneration r"
  shows "ev_replay (evaluate s (retried e a r))"
proof -
  have "status_ok (validateRequestShape (retried e a r))"
    using assms(2,3) by (intro retried_shape assms(1)) (simp_all add: eligibility.accepts reservation.accepts)
  then show ?thesis
    using assms by (simp add: evaluate_def existing_request_def retried_checks refuse_def Let_def)
qed

end
