(* ===== verification/Tenancy.thy ===== *)
theory Tenancy
  imports Runs
begin

text \<open>
  The abstract specification of the runtime: a ledger of tenancies. A tenancy says on which domains,
  in which frequency range, with which guard band and until when spectrum is held; everything else
  of the runtime (grids, candidates, statuses, indices, audit, persistence, state machine) is
  forgotten. The ledger changes by a handful of moves, each of which keeps the valid tenancies
  apart; the runtime refines the ledger: every operation of a run is one of these moves.
\<close>

section \<open>The ledger\<close>

record Tenancy =
  ten_domains :: "SpectrumDomainId list"
  ten_frequency :: FrequencyRange
  ten_guard :: int
  ten_until :: Instant

type_synonym Ledger = "ReservationId \<Rightarrow> Tenancy option"

definition ten_valid :: "Instant \<Rightarrow> Tenancy \<Rightarrow> bool" where
  "ten_valid now u \<longleftrightarrow> now < ten_until u"

definition apart :: "Tenancy \<Rightarrow> Tenancy \<Rightarrow> bool" where
  "apart u v \<longleftrightarrow> (\<exists>d. d \<in> set (ten_domains u) \<and> d \<in> set (ten_domains v)) \<longrightarrow>
     \<not> frequencyConflict (ten_frequency u) (max (ten_guard u) (ten_guard v))
         (ten_frequency v) (max (ten_guard u) (ten_guard v))"

definition separated_ledger :: "Instant \<Rightarrow> Ledger \<Rightarrow> bool" where
  "separated_ledger now A \<longleftrightarrow> (\<forall>i j u v. A i = Some u \<longrightarrow> A j = Some v \<longrightarrow> i \<noteq> j \<longrightarrow>
     ten_valid now u \<longrightarrow> ten_valid now v \<longrightarrow> apart u v)"

text \<open>
  The moves. A grant may end at most one older tenancy, which is the one it supersedes; a tenancy
  that is still valid ends only by a grant that supersedes it, by surrender, or by clearing the ledger;
  time alone ends only what has run out.
\<close>

inductive ledger_step :: "Instant \<Rightarrow> Ledger \<Rightarrow> Ledger \<Rightarrow> bool" for now where
  stay: "ledger_step now A A"
| grant: "A i = None \<Longrightarrow> B \<subseteq>\<^sub>m A \<Longrightarrow> (\<And>j. j \<noteq> k \<Longrightarrow> B j = A j) \<Longrightarrow>
    (\<And>j v. B j = Some v \<Longrightarrow> ten_valid now v \<Longrightarrow> ten_valid now u \<Longrightarrow> apart u v) \<Longrightarrow>
    ledger_step now A (B(i \<mapsto> u))"
| extend: "A i = Some u \<Longrightarrow> ten_valid now u \<Longrightarrow> ten_until u \<le> until \<Longrightarrow>
    ledger_step now A (A(i \<mapsto> u\<lparr>ten_until := until\<rparr>))"
| surrender: "ledger_step now A (A(i := None))"
| lapse: "B \<subseteq>\<^sub>m A \<Longrightarrow> (\<And>i u. A i = Some u \<Longrightarrow> ten_valid now u \<Longrightarrow> B i = Some u) \<Longrightarrow> ledger_step now A B"
| clear: "ledger_step now A Map.empty"

inductive ledger_run :: "Instant \<Rightarrow> Ledger \<Rightarrow> bool" where
  blank: "ledger_run t Map.empty"
| move: "ledger_run t A \<Longrightarrow> t \<le> now \<Longrightarrow> ledger_step now A B \<Longrightarrow> ledger_run now B"

lemma apart_sym: "apart u v = apart v u"
  by (auto simp: apart_def frequencyConflict_sym [of "ten_frequency u"] max.commute)

lemma ten_valid_antimono: "ten_valid u t \<Longrightarrow> now \<le> u \<Longrightarrow> ten_valid now t"
  by (simp add: ten_valid_def)

lemma separated_later: "separated_ledger t A \<Longrightarrow> t \<le> now \<Longrightarrow> separated_ledger now A"
  unfolding separated_ledger_def using ten_valid_antimono by blast

lemma separated_sub: "separated_ledger now A \<Longrightarrow> B \<subseteq>\<^sub>m A \<Longrightarrow> separated_ledger now B"
  unfolding separated_ledger_def map_le_def by (metis domI)

lemma separated_put:
  assumes "separated_ledger now A"
    and "\<And>j v. A j = Some v \<Longrightarrow> j \<noteq> i \<Longrightarrow> ten_valid now v \<Longrightarrow> ten_valid now u \<Longrightarrow> apart u v"
  shows "separated_ledger now (A(i \<mapsto> u))"
  using assms unfolding separated_ledger_def by (simp add: apart_sym)

text \<open>Every move keeps the valid tenancies apart.\<close>

lemma ledger_step_separated:
  "ledger_step now A B \<Longrightarrow> separated_ledger now A \<Longrightarrow> separated_ledger now B"
proof (induction rule: ledger_step.induct)
  case (grant A i B k u)
  then show ?case
    by (intro separated_put) (auto intro: separated_sub)
next
  case (extend A i u until)
  have "apart (u\<lparr>ten_until := until\<rparr>) v = apart u v" for v
    by (simp add: apart_def)
  then show ?case
    using extend by (intro separated_put) (auto simp: separated_ledger_def)
next
  case (surrender A i)
  then show ?case
    by (rule separated_sub) (auto simp: map_le_def split: if_splits)
next
  case (lapse B A)
  then show ?case
    by (blast intro: separated_sub)
next
  case (clear A)
  then show ?case
    by (simp add: separated_ledger_def)
qed

lemma ledger_run_separated: "ledger_run t A \<Longrightarrow> separated_ledger t A"
proof (induction rule: ledger_run.induct)
  case (move t A now B)
  then show ?case
    using ledger_step_separated separated_later by blast
qed (simp add: separated_ledger_def)

section \<open>What a sweep takes away\<close>

text \<open>
  Between two states the table fades: what owns spectrum afterwards owned it before, unchanged, and
  what owns spectrum under a valid lease is still there.
\<close>

definition fades :: "Instant \<Rightarrow> RuntimeState \<Rightarrow> RuntimeState \<Rightarrow> bool" where
  "fades now s u \<longleftrightarrow>
     (\<forall>i q. map_of (rs_reservations u) i = Some q \<longrightarrow> isLiveState (res_state q) \<longrightarrow>
        map_of (rs_reservations s) i = Some q)
     \<and> (\<forall>i q. map_of (rs_reservations s) i = Some q \<longrightarrow> isLiveAt q now \<longrightarrow>
        map_of (rs_reservations u) i = Some q)"

definition spent_backup :: "Instant \<Rightarrow> RuntimeState \<Rightarrow> SpectrumReservation \<Rightarrow> bool" where
  "spent_backup now s b \<longleftrightarrow> \<not> isLiveState (res_state b)
     \<and> (\<exists>q. map_of (rs_reservations s) (res_id b) = Some q \<and> \<not> isLiveAt q now)"

definition fading :: "Instant \<Rightarrow> RuntimeState \<Rightarrow> Sweep \<Rightarrow> bool" where
  "fading now s w \<longleftrightarrow> fades now s (sw_state w) \<and> (\<forall>b \<in> set (sw_backups w). spent_backup now s b)"

lemma fades_frame: "rs_reservations u' = rs_reservations u \<Longrightarrow> fades now s u' \<longleftrightarrow> fades now s u"
  by (simp only: fades_def)

lemma fadesI:
  assumes "\<And>i q. map_of (rs_reservations u) i = Some q \<Longrightarrow> isLiveState (res_state q) \<Longrightarrow>
      map_of (rs_reservations s) i = Some q"
    and "\<And>i q. map_of (rs_reservations s) i = Some q \<Longrightarrow> isLiveAt q now \<Longrightarrow>
      map_of (rs_reservations u) i = Some q"
  shows "fades now s u"
  unfolding fades_def using assms by blast

lemma fadesD:
  assumes "fades now s u"
  shows "map_of (rs_reservations u) i = Some q \<Longrightarrow> isLiveState (res_state q) \<Longrightarrow>
      map_of (rs_reservations s) i = Some q"
    and "map_of (rs_reservations s) i = Some q \<Longrightarrow> isLiveAt q now \<Longrightarrow>
      map_of (rs_reservations u) i = Some q"
  using assms unfolding fades_def by blast+

lemma fades_refl: "fades now s s"
  by (rule fadesI)

lemma fades_put:
  assumes "fades now s u" and "rs_reservations u' = om_set i b (rs_reservations u)"
    and "\<not> isLiveState (res_state b)" and "map_of (rs_reservations s) i = Some q" and "\<not> isLiveAt q now"
  shows "fades now s u'"
proof (rule fadesI)
  fix j p
  assume p: "map_of (rs_reservations u') j = Some p" "isLiveState (res_state p)"
  then have "j \<noteq> i"
    using assms(2,3) by auto
  then show "map_of (rs_reservations s) j = Some p"
    using p assms(2) fadesD(1) [OF assms(1)] by simp
next
  fix j p
  assume p: "map_of (rs_reservations s) j = Some p" "isLiveAt p now"
  then have "j \<noteq> i"
    using assms(4,5) by auto
  then show "map_of (rs_reservations u') j = Some p"
    using fadesD(2) [OF assms(1) p] assms(2) by simp
qed

lemma fades_rollbackAll:
  assumes "fades now s u" and "\<forall>b \<in> set bs. spent_backup now s b"
  shows "fades now s (rollbackAll bs u)"
  using assms
proof (induction bs arbitrary: u)
  case (Cons b bs)
  then obtain q where q: "map_of (rs_reservations s) (res_id b) = Some q" "\<not> isLiveAt q now"
    "\<not> isLiveState (res_state b)"
    by (auto simp: spent_backup_def)
  have "fades now s (rollbackReservation b u)"
    by (rule fades_put [OF Cons.prems(1) _ q(3,1,2)]) simp
  moreover have "rollbackAll (b # bs) u = rollbackAll bs (rollbackReservation b u)"
    by (simp add: rollbackAll_def)
  ultimately show ?case
    using Cons.IH [of "rollbackReservation b u"] Cons.prems(2) by simp
qed (simp add: rollbackAll_def)

locale fading_sweep = sweep +
  fixes now :: Instant
  assumes spent: "hit q \<Longrightarrow> \<not> isLiveAt q now"
begin

lemma entry_fading:
  assumes "sweep_inv t s w" and "fading now s w"
  shows "fading now s (entry i w)"
proof (cases "hit_at (sw_state w) i")
  case False
  then show ?thesis
    using assms(2) skip [of w i] by (auto simp: hit_at_def)
next
  case True
  then obtain q where q: "map_of (rs_reservations (sw_state w)) i = Some q" "hit q"
    by (auto simp: hit_at_def)
  have inv: "table_inv (sw_state w)" "shrinks t s (sw_state w)"
    using assms(1) by (simp_all add: sweep_inv_def)
  note a = act [OF inv(1) q]
  obtain p where p: "map_of (rs_reservations s) i = Some p"
    using inv(2) q(1) unfolding shrinks_def by blast
  have gone: "\<not> isLiveAt p now"
  proof
    assume live: "isLiveAt p now"
    have "fades now s (sw_state w)"
      using assms(2) by (simp add: fading_def)
    from fadesD(2) [OF this p live] show False
      using q live spent [OF q(2)] by simp
  qed
  have "fades now s (sw_state (entry i w))"
  proof (rule fades_put [where u = "sw_state w" and i = i and b = "change q" and q = p])
    show "fades now s (sw_state w)"
      using assms(2) by (simp add: fading_def)
    show "rs_reservations (sw_state (entry i w)) = om_set i (change q) (rs_reservations (sw_state w))"
      using a by (simp add: acted_def)
  qed (use change [OF q(2)] p gone in simp_all)
  moreover have "spent_backup now s (backup q)"
    using backup [OF q(2)] table_inv_known(1) [OF inv(1) q(1)] p gone by (simp add: spent_backup_def)
  ultimately show ?thesis
    using assms(2) a by (auto simp: fading_def)
qed

lemma walk_fading: "sweep_inv t s w \<Longrightarrow> fading now s w \<Longrightarrow> fading now s (fold entry ks w)"
  by (induction ks arbitrary: w) (simp_all add: entry_fading entry_inv)

end

interpretation fading_lapse: fading_sweep "lapse_entry now" "lapsing now" "lapsed now"
    "\<lambda>q. q\<lparr>res_state := Expired\<rparr>" now for now
  by unfold_locales (simp add: lapsing_def isLiveAt_def)

interpretation fading_reclaim: fading_sweep "reclaim_entry now" expired "reclaimed now" "\<lambda>q. q" now for now
  by unfold_locales (simp add: expired_def isLiveAt_def)

lemma finish_fades:
  assumes "table_inv s" and "sweep_inv t s w" and "fading now s w" and "status_ok (rep_status report)"
  shows "fades now s (fst (finish_sweep h now report (sw_backups w) (sw_state w)))"
proof -
  obtain s' r where run: "finish_sweep h now report (sw_backups w) (sw_state w) = (s', r)"
    by fastforce
  note fin = finish_sweep_kept [OF assms(1,2) run]
  have w: "fades now s (sw_state w)" "fades now s (rollbackAll (sw_backups w) (sw_state w))"
    using assms(3) fades_rollbackAll unfolding fading_def by blast+
  have "fades now s s'"
  proof (cases "status_ok (rep_status r)")
    case True
    then show ?thesis
      using fades_frame fin(2) [OF True assms(4)] w(1) by blast
  next
    case False
    show ?thesis
      using fades_frame fin(3) [OF False assms(4)] w(2) by blast
  qed
  then show ?thesis
    unfolding run by simp
qed

lemma start_fading: "fading now s \<lparr>sw_state = s, sw_ids = ids, sw_backups = []\<rparr>"
  by (simp add: fading_def fades_refl)

lemma markLapsed_fading: "table_inv s \<Longrightarrow> fading now s (markLapsed now s)"
  unfolding markLapsed_def by (rule fading_lapse.walk_fading [OF start_inv start_fading])

lemma expireLeases_fades: "table_inv s \<Longrightarrow> fades now s (fst (expireLeases h now s))"
  unfolding expireLeases_def Let_def
  by (rule finish_fades [OF _ markLapsed_inv markLapsed_fading]) (simp_all add: sweep_report_def)

lemma reclaimExpired_fades: "table_inv s \<Longrightarrow> fades now s (fst (reclaimExpired h now s))"
proof -
  assume inv: "table_inv s"
  have "sweep_inv now s (markLapsed now s\<lparr>sw_ids := []\<rparr>)" "fading now s (markLapsed now s\<lparr>sw_ids := []\<rparr>)"
    using markLapsed_inv [OF inv, of now now] markLapsed_fading [OF inv]
    by (simp_all add: sweep_inv_def fading_def)
  note fading_reclaim.walk_fading [OF this]
  then show ?thesis
    unfolding reclaimExpired_def Let_def
    by (rule finish_fades [OF inv reclaim_walk(1) [OF inv]]) (simp add: sweep_report_def)
qed

section \<open>The ledger of a runtime\<close>

definition tenancy :: "SpectrumReservation \<Rightarrow> Tenancy" where
  "tenancy q = \<lparr>ten_domains = res_domains q, ten_frequency = res_frequency q,
     ten_guard = res_guardBandMhz q, ten_until = lease_expiresAt (res_lease q)\<rparr>"

definition held_by_record :: "SpectrumReservation \<Rightarrow> Tenancy option" where
  "held_by_record q = (if isLiveState (res_state q) then Some (tenancy q) else None)"

definition ledger :: "RuntimeState \<Rightarrow> Ledger" where
  "ledger s i = Option.bind (map_of (rs_reservations s) i) held_by_record"

lemma ledger_same: "rs_reservations s' = rs_reservations s \<Longrightarrow> ledger s' = ledger s"
  by (rule ext) (simp add: ledger_def)

lemma ledger_Some:
  "ledger s i = Some u \<longleftrightarrow>
    (\<exists>q. map_of (rs_reservations s) i = Some q \<and> isLiveState (res_state q) \<and> u = tenancy q)"
  by (auto simp: ledger_def held_by_record_def bind_eq_Some_conv)

lemma ten_valid_live: "isLiveState (res_state q) \<Longrightarrow> ten_valid now (tenancy q) \<longleftrightarrow> isLiveAt q now"
  by (simp add: ten_valid_def tenancy_def isLiveAt_def lease_validAt_def)

lemma apart_compatible: "apart (tenancy a) (tenancy b) \<longleftrightarrow> compatible a b"
  by (simp add: apart_def compatible_def shares_domain_def common_guard_def tenancy_def)

lemma ledger_acted:
  "rs_reservations s' = om_set i q' (rs_reservations s) \<Longrightarrow> ledger s' = (ledger s)(i := held_by_record q')"
  by (rule ext) (simp add: ledger_def)

lemma ledger_declined:
  assumes "live_part_same s s'"
  shows "ledger s' = ledger s"
proof -
  have "ledger s' i = Some u \<longleftrightarrow> ledger s i = Some u" for i u
    using assms live_not_terminal unfolding ledger_Some live_part_same_def by blast
  then show ?thesis
    by (intro ext) (metis option.exhaust)
qed

lemma ledger_fades:
  assumes "fades now s s'"
  shows "ledger_step now (ledger s) (ledger s')"
proof (rule ledger_step.lapse)
  show "ledger s' \<subseteq>\<^sub>m ledger s"
    unfolding map_le_def by (metis domD fadesD(1) [OF assms] ledger_Some)
  fix i u
  assume "ledger s i = Some u" "ten_valid now u"
  then obtain q where q: "map_of (rs_reservations s) i = Some q" "isLiveState (res_state q)" "u = tenancy q"
    "isLiveAt q now"
    using ten_valid_live unfolding ledger_Some by blast
  then show "ledger s' i = Some u"
    using fadesD(2) [OF assms] unfolding ledger_Some by blast
qed

text \<open>A granted allocation spares every owner but the one it supersedes.\<close>

lemma allocate_granted_spares:
  assumes "table_inv s" and "raw (rs_nextReservationId s) < 0xFFFFFFFFFFFFFFFF"
    and "allocate h r s = (s', d)" and "status_ok (dec_status d)" and "\<not> ev_replay (evaluate s r)"
  obtains k where "\<And>j p. map_of (rs_reservations s) j = Some p \<Longrightarrow> isLiveState (res_state p) \<Longrightarrow> j \<noteq> k \<Longrightarrow>
    map_of (rs_reservations s') j = Some p"
proof -
  note room = make_room_inv [OF assms(1)]
  show thesis
  proof (cases rule: allocate_cases [OF assms(1,3)])
    case (4 s1 s2 prior d0)
    have t1: "table_inv s1" "rs_nextReservationId s1 = rs_nextReservationId s"
      using room 4(3) by simp_all
    note sup = supersede_inv [OF t1(1) 4(5)]
    have n2: "raw (rs_nextReservationId s2) < 0xFFFFFFFFFFFFFFFF"
      using sup(4) t1(2) assms(2) by simp
    obtain k where k: "\<And>j p. map_of (rs_reservations s1) j = Some p \<Longrightarrow> j \<noteq> k \<Longrightarrow>
        map_of (rs_reservations s2) j = Some p"
    proof (cases rule: supersede_cases [OF t1(1) 4(5)])
      case 1
      then show ?thesis
        using that by simp
    next
      case (2 p0)
      then show ?thesis
        using that [of "res_id p0"] by simp
    qed
    show thesis
      using 4(6)
    proof (cases rule: commit_cases)
      case (granted e q u)
      have same: "rs_reservations s' = rs_reservations u"
        using granted(4) saveLocked_ownership [of u h] by (auto simp: same_ownership_def)
      have q: "res_id q = rs_nextReservationId s2" "res_state q = Reserved"
        using granted(2) by simp_all
      note stays = insert_reservation_inv(5) [OF sup(1) n2 q, where at = "allocation_instant h r" and r = r,
          folded committed_state_def]
      show thesis
      proof (rule that [of k])
        fix j p
        assume p: "map_of (rs_reservations s) j = Some p" "isLiveState (res_state p)" "j \<noteq> k"
        then have "map_of (rs_reservations s1) j = Some p"
          using room(7) live_not_terminal 4(3) by blast
        then show "map_of (rs_reservations s') j = Some p"
          unfolding same granted(3) using k p stays live_not_terminal by blast
      qed
    qed (use assms(4) in \<open>simp_all add: refuse_decision_def ungrant_decision_def\<close>)
  next
    case 2
    then show thesis
      using assms(4) evaluate_refusal(1) [of s r] by (auto simp: statusForOutcome_ok)
  qed (use assms in simp_all)
qed

section \<open>Refinement\<close>

text \<open>An operation on one reservation declines, or replaces what that reservation holds.\<close>

context lifecycle_operation
begin

lemma ledger_cases:
  assumes "table_inv s"
  obtains (stays) "ledger (fst (perform h i g a now s)) = ledger s"
  | (moves) q where "map_of (rs_reservations s) i = Some q" "ready now q"
      "ledger (fst (perform h i g a now s)) = (ledger s)(i := held_by_record (effect now q))"
proof (cases "status_ok (snd (perform h i g a now s))")
  case True
  then obtain q where q: "map_of (rs_reservations s) i = Some q" "ready now q"
    "rs_reservations (fst (perform h i g a now s)) = om_set i (effect now q) (rs_reservations s)"
    by (elim accepted [OF assms])
  show ?thesis
    by (rule moves [OF q(1,2) ledger_acted [OF q(3)]])
next
  case False
  then show ?thesis
    using declined [OF assms False] by (intro stays ledger_same) (simp add: untouched_def)
qed

lemma ledger_unmoved:
  assumes "table_inv s"
    and "\<And>q. ready now q \<Longrightarrow> isLiveState (res_state q) \<and> isLiveState (res_state (effect now q))
      \<and> tenancy (effect now q) = tenancy q"
  shows "ledger (fst (perform h i g a now s)) = ledger s"
proof (cases rule: ledger_cases [OF assms(1), of h i g a now])
  case (2 q)
  then show ?thesis
    using assms(2) [OF 2(2)] by (intro ext) (simp add: ledger_def held_by_record_def)
qed

end

lemma activate_ledger: "table_inv s \<Longrightarrow> ledger (fst (activate h i g a now s)) = ledger s"
  by (rule activation_op.ledger_unmoved) (simp_all add: activatable_def activated_def tenancy_def)

lemma deactivate_ledger: "table_inv s \<Longrightarrow> ledger (fst (deactivate h i g a now s)) = ledger s"
  by (rule deactivation_op.ledger_unmoved) (simp_all add: deactivatable_def deactivated_def tenancy_def)

lemma release_ledger:
  assumes "table_inv s"
  shows "ledger_step now (ledger s) (ledger (fst (release h i g a now s)))"
proof (cases rule: release_op.ledger_cases [OF assms, where h = h and i = i and g = g and a = a and now = now])
  case (2 q)
  then have "ledger (fst (release h i g a now s)) = (ledger s)(i := None)"
    by (simp add: held_by_record_def released_def)
  then show ?thesis
    by (metis ledger_step.surrender)
qed (simp add: ledger_step.stay)

lemma renew_ledger:
  assumes "table_inv s"
  shows "ledger_step now (ledger s) (ledger (fst (renew h i g extension a now cap s)))"
proof (cases rule: renewal_op.ledger_cases [OF assms, where h = h and i = i and g = g and a = a
      and now = now and extension = extension and cap = cap])
  case (2 q)
  have q: "isLiveState (res_state q)" "ten_valid now (tenancy q)" "0 < extension"
    using 2(2) by (auto simp: renewable_def ten_valid_def tenancy_def lease_validAt_def)
  then have held: "ledger s i = Some (tenancy q)"
    using 2(1) by (simp add: ledger_def held_by_record_def)
  have new: "held_by_record (renewed extension cap now q)
      = Some ((tenancy q)\<lparr>ten_until := lease_expiresAt (res_lease q) + extension\<rparr>)"
    using q(1) by (simp add: held_by_record_def renewed_def tenancy_def renewed_lease_def)
  show ?thesis
    unfolding 2(3) new using q by (intro ledger_step.extend [where A = "ledger s", OF held]) (simp_all add: tenancy_def)
qed (simp add: ledger_step.stay)

lemma allocate_ledger:
  assumes "runtime_inv now s" and "raw (rs_nextReservationId s) < 0xFFFFFFFFFFFFFFFF"
    and "req_requestedAt r \<le> now"
  shows "ledger_step now (ledger s) (ledger (fst (allocate h r s)))"
proof -
  have inv: "table_inv s"
    using assms(1) by (simp add: runtime_inv_def)
  obtain s' d where run: "allocate h r s = (s', d)"
    by fastforce
  show ?thesis
  proof (cases "status_ok (dec_status d) \<and> \<not> ev_replay (evaluate s r)")
    case False
    then have "ledger s' = ledger s"
      using allocate_declined [OF inv assms(2) run] by (intro ledger_declined) blast
    then show ?thesis
      by (simp add: run ledger_step.stay)
  next
    case True
    define i where "i = dec_reservation d"
    obtain q where q: "map_of (rs_reservations s') i = Some q" "res_state q = Reserved"
      "map_of (rs_reservations s) i = None"
      "\<And>j p. map_of (rs_reservations s') j = Some p \<Longrightarrow> j \<noteq> i \<Longrightarrow> isLiveState (res_state p) \<Longrightarrow>
        map_of (rs_reservations s) j = Some p"
      using allocate_granted [OF inv assms(2) run] True unfolding i_def by metis
    obtain k where k: "\<And>j p. map_of (rs_reservations s) j = Some p \<Longrightarrow> isLiveState (res_state p) \<Longrightarrow>
        j \<noteq> k \<Longrightarrow> map_of (rs_reservations s') j = Some p"
      using allocate_granted_spares [OF inv assms(2) run] True by blast
    have lease: "lease_inv now s'"
      using allocate_inv [OF assms, of h] by (simp add: runtime_inv_def run)
    define B where "B = (ledger s')(i := None)"
    have new: "ledger s' i = Some (tenancy q)" "isLiveState (res_state q)"
      using q(1,2) by (auto simp: ledger_def held_by_record_def)
    then have "ledger s' = B(i \<mapsto> tenancy q)"
      by (auto simp: B_def)
    moreover have "ledger_step now (ledger s) (B(i \<mapsto> tenancy q))"
    proof (rule ledger_step.grant [where k = k])
      show "ledger s i = None"
        using q(3) by (simp add: ledger_def)
      have sub: "ledger s j = Some v" if "B j = Some v" for j v
        using that q(4) unfolding B_def ledger_Some fun_upd_apply by (metis ledger_Some option.distinct(1))
      then show "B \<subseteq>\<^sub>m ledger s"
        unfolding map_le_def by (metis domD)
      fix j
      assume "j \<noteq> k"
      then have "B j = Some v" if "ledger s j = Some v" for v
        using that k q(3) unfolding B_def ledger_Some fun_upd_apply by (metis ledger_Some option.distinct(1))
      then show "B j = ledger s j"
        using sub by (metis option.exhaust)
    next
      fix j v
      assume v: "B j = Some v" "ten_valid now v" "ten_valid now (tenancy q)"
      then obtain p where p: "map_of (rs_reservations s') j = Some p" "isLiveState (res_state p)"
        "v = tenancy p" "j \<noteq> i"
        by (auto simp: B_def ledger_Some split: if_splits)
      have "isLiveAt p now" "isLiveAt q now"
        using v(2,3) p(2,3) new(2) ten_valid_live by blast+
      then show "apart (tenancy q) v"
        using lease p q(1) unfolding apart_compatible p(3) lease_inv_def exclusive_def by metis
    qed
    ultimately show ?thesis
      by (simp add: run)
  qed
qed

text \<open>Every operation of a run is a move of the ledger, so every reachable runtime refines a ledger run.\<close>

lemma perform_ledger:
  assumes "runtime_inv now s" and "timely now op s"
  shows "ledger_step now (ledger s) (ledger (perform h now op s))"
proof -
  have inv: "table_inv s"
    using assms(1) by (simp add: runtime_inv_def)
  have same: "ledger_step now (ledger s) (ledger s')" if "rs_reservations s' = rs_reservations s" for s'
    using ledger_same [OF that] by (simp add: ledger_step.stay)
  have registered: "ledger_step now (ledger s) (ledger s')" if "keeps_leases s s'" for s'
    using that by (intro same) (simp add: keeps_leases_def)
  show ?thesis
  proof (cases op)
    case ResetAll
    have "ledger (fst (reset (host_now h) s)) = Map.empty"
      by (rule ext) (simp add: ledger_def reset_def auditNote_def)
    then show ?thesis
      using ResetAll by (simp add: ledger_step.clear)
  next
    case SaveState
    then show ?thesis
      using saveLocked_ownership [of s h] by (intro same) (simp add: save_def same_ownership_def)
  next
    case (Allocate r)
    then show ?thesis
      using allocate_ledger [OF assms(1), of r h] assms(2) by simp
  qed (simp_all add: registered registration_keeps inv release_ledger renew_ledger activate_ledger
      deactivate_ledger ledger_step.stay ledger_fades expireLeases_fades reclaimExpired_fades)
qed

theorem reached_ledger: "reached t s \<Longrightarrow> ledger_run t (ledger s)"
proof (induction rule: reached.induct)
  case (opened t config inc sysNow disk)
  have "ledger (SpectrumRuntime config inc sysNow disk) = Map.empty"
    by (rule ext) (simp add: ledger_def SpectrumRuntime_def Let_def)
  then show ?case
    by (simp add: ledger_run.blank)
next
  case (step t s now op h)
  then have "runtime_inv now s"
    using reached_inv [OF step.hyps(1)] lease_inv_later [OF _ step.hyps(2)] by (simp add: runtime_inv_def)
  then show ?case
    using step perform_ledger ledger_run.move by blast
qed

end
