(* ===== verification/Query_Facts.thy ===== *)
theory Query_Facts
  imports Query Ownership Registration
begin

text \<open>
  Usage accounting against the reservation table: the slots a domain reports as used are those of
  the reservations that own spectrum on it, and its free runs are the rest of its window.
\<close>

lemma usage_window_wf: "slotCount g \<le> 1048576 \<Longrightarrow> slot_wf (usage_window s i d g)"
  using slotRangeInGrid_wf(1) [of g]
  by (auto simp: usage_window_def slot_wf_def default_slots_def is_u32_def kU32Modulus_def split: option.split)


text \<open>The slots a domain has in use, and its free runs, in terms of the reservation table.\<close>

lemma usage_accounting:
  assumes "table_inv s" and "grids_ok s" and "computeUsage s d now = Some u"
    and wf: "\<And>i q held. map_of (rs_reservations s) i = Some q \<Longrightarrow> held_slots d q = Some held \<Longrightarrow> slot_wf held"
  shows "\<exists>dom g. map_of (rs_domains s) d = Some dom \<and> map_of (rs_grids s) (dom_grid dom) = Some g
    \<and> use_totalSlots u = slotCount g
    \<and> slots_of_list (use_freeRuns u) = slots_of (usage_window s d dom g)
        - {x. \<exists>i q held. map_of (rs_reservations s) i = Some q \<and> isLiveAt q now
              \<and> held_slots d q = Some held \<and> x \<in> slots_of held}
    \<and> separated (use_freeRuns u)"
proof -
  let ?live = "held_by s d (\<lambda>r. lease_validAt (res_lease r) now)"
  obtain dom g where at: "map_of (rs_domains s) d = Some dom" "map_of (rs_grids s) (dom_grid dom) = Some g"
    and u: "use_totalSlots u = slotCount g" "use_freeRuns u = free_runs_of (usage_window s d dom g) ?live"
    using assms(3) by (auto simp: computeUsage_def Let_def usage_lists_eq split: option.splits)
  have member: "held \<in> set ?live \<longleftrightarrow> (\<exists>i r. map_of (rs_reservations s) i = Some r \<and> isLiveAt r now
      \<and> held_slots d r = Some held)" for held
    using held_by_mem [OF table_inv_live [OF assms(1)]] by (auto simp: isLiveAt_def)
  have "slot_wf (usage_window s d dom g)"
    using usage_window_wf grids_ok_wf [OF assms(2) at(2)] by (simp add: grid_wf_def bound_defs)
  moreover have "\<forall>r \<in> set ?live. slot_wf r"
    using member wf by blast
  ultimately have "slots_of_list (use_freeRuns u) = slots_of (usage_window s d dom g) - slots_of_list ?live"
    "separated (use_freeRuns u)"
    unfolding u(2) by (rule free_runs_correct)+
  moreover have "slots_of_list ?live = {x. \<exists>i q held. map_of (rs_reservations s) i = Some q \<and> isLiveAt q now
              \<and> held_slots d q = Some held \<and> x \<in> slots_of held}"
    unfolding slots_of_list_def using member by blast
  ultimately show ?thesis
    using at u(1) by blast
qed
end
