(* ===== verification/Pruning.thy ===== *)
theory Pruning
  imports Ownership
begin

text \<open>
  What making room in a full table removes, exactly: \<open>pruneTerminalReservations\<close> is the loop of the
  code; \<open>without_oldest\<close> is its specification, the table without its oldest terminal records. The
  guard of the loop (a million rounds) is enough while the table is less than that above its bound.
\<close>

fun without_oldest ::
    "nat \<Rightarrow> (ReservationId, SpectrumReservation) omap \<Rightarrow> (ReservationId, SpectrumReservation) omap" where
  "without_oldest 0 m = m"
| "without_oldest (Suc k) [] = []"
| "without_oldest (Suc k) (e # m) =
     (if isTerminalState (res_state (snd e)) then without_oldest k m else e # without_oldest (Suc k) m)"

abbreviation terminal_count :: "(ReservationId, SpectrumReservation) omap \<Rightarrow> nat" where
  "terminal_count m \<equiv> length (filter (\<lambda>e. isTerminalState (res_state (snd e))) m)"

lemma without_oldest_none: "first_terminal m = None \<Longrightarrow> without_oldest k m = m"
  by (induction k m rule: without_oldest.induct) (auto split: if_splits)

lemma om_erase_fresh: "k \<notin> fst ` set m \<Longrightarrow> om_erase k m = m"
  by (induction m) (auto simp: om_erase_def)

lemma length_om_erase: "om_ok m \<Longrightarrow> e \<in> set m \<Longrightarrow> Suc (length (om_erase (fst e) m)) = length m"
proof (induction m)
  case (Cons a m)
  show ?case
  proof (cases "e = a")
    case True
    then have "fst a \<notin> fst ` set m"
      using Cons.prems by (auto simp: om_ok_Cons)
    then show ?thesis
      using True om_erase_fresh [of "fst a" m] by (simp add: om_erase_def)
  next
    case False
    then show ?thesis
      using Cons by (auto simp: om_ok_Cons om_erase_def)
  qed
qed simp

lemma without_oldest_erase:
  "om_ok m \<Longrightarrow> first_terminal m = Some e \<Longrightarrow> without_oldest k (om_erase (fst e) m) = without_oldest (Suc k) m"
proof (induction m)
  case (Cons a m)
  show ?case
  proof (cases "isTerminalState (res_state (snd a))")
    case True
    then have "e = a" "fst a \<notin> fst ` set m"
      using Cons.prems by (auto simp: om_ok_Cons)
    then show ?thesis
      using True om_erase_fresh [of "fst a" m] by (simp add: om_erase_def)
  next
    case False
    then have e: "first_terminal m = Some e" "fst e \<noteq> fst a"
      using Cons.prems first_terminal_Some [of m e] by (auto simp: om_ok_Cons)
    then have "om_erase (fst e) (a # m) = a # om_erase (fst e) m"
      by (simp add: om_erase_def)
    then show ?thesis
      using False Cons.IH [OF _ e(1)] Cons.prems(1) by (cases k) (auto simp: om_ok_Cons)
  qed
qed simp

lemma length_without_oldest: "length (without_oldest k m) = length m - min k (terminal_count m)"
proof (induction k m rule: without_oldest.induct)
  case (3 k e m)
  have le: "terminal_count m \<le> length m"
    by simp
  show ?case
  proof (cases "isTerminalState (res_state (snd e))")
    case True
    then show ?thesis
      using 3(1) by simp
  next
    case False
    then have "length (without_oldest (Suc k) m) = length m - min (Suc k) (terminal_count m)"
      by (rule 3(2))
    then show ?thesis
      using False by (simp add: min_def) (use le in arith)
  qed
qed simp_all

lemma terminal_count_without: "terminal_count (without_oldest k m) = terminal_count m - k"
  by (induction k m rule: without_oldest.induct) auto

lemma prune_loop_exact:
  "om_ok (rs_reservations s) \<Longrightarrow> rs_reservations (prune_loop n s) =
     without_oldest (min n (Suc (length (rs_reservations s)) - cfg_maxReservations (rs_config s)))
       (rs_reservations s)"
proof (induction n s rule: prune_loop.induct)
  case (2 n s)
  let ?m = "rs_reservations s" and ?b = "cfg_maxReservations (rs_config s)"
  consider (below) "length ?m < ?b" | (none) "?b \<le> length ?m" "first_terminal ?m = None"
    | (some) e where "?b \<le> length ?m" "first_terminal ?m = Some e"
    by (cases "first_terminal ?m") fastforce+
  then show ?case
  proof cases
    case (some e)
    have len: "Suc (length (om_erase (fst e) ?m)) = length ?m"
      using length_om_erase [OF 2(2)] first_terminal_Some [OF some(2)] by simp
    have "min (Suc n) (Suc (length ?m) - ?b) = Suc (min n (Suc (length (om_erase (fst e) ?m)) - ?b))"
      using some(1) len by auto
    then show ?thesis
      using 2(1) [OF some] some 2(2) without_oldest_erase [OF 2(2) some(2)] by simp
  qed (simp_all add: without_oldest_none)
qed simp

lemma prune_exact:
  assumes "om_ok (rs_reservations s)"
    and "length (rs_reservations s) < cfg_maxReservations (rs_config s) + 1000000"
  shows "rs_reservations (pruneTerminalReservations s) = without_oldest
      (Suc (length (rs_reservations s)) - cfg_maxReservations (rs_config s)) (rs_reservations s)"
proof -
  have "min 1000000 (Suc (length (rs_reservations s)) - cfg_maxReservations (rs_config s))
      = Suc (length (rs_reservations s)) - cfg_maxReservations (rs_config s)"
    using assms(2) by (intro min_absorb2) linarith
  then show ?thesis
    unfolding pruneTerminalReservations_def prune_loop_exact [OF assms(1)] by (simp only:)
qed

lemma prune_room:
  assumes "om_ok (rs_reservations s)"
    and "length (rs_reservations s) < cfg_maxReservations (rs_config s) + 1000000"
  shows "length (rs_reservations (pruneTerminalReservations s)) < cfg_maxReservations (rs_config s)
    \<or> (\<forall>e \<in> set (rs_reservations (pruneTerminalReservations s)). \<not> isTerminalState (res_state (snd e)))"
proof -
  let ?m = "rs_reservations s" and ?k = "Suc (length (rs_reservations s)) - cfg_maxReservations (rs_config s)"
  note exact = prune_exact [OF assms]
  show ?thesis
  proof (cases "?k \<le> terminal_count ?m")
    case True
    have "terminal_count ?m \<le> length ?m"
      by simp
    then have "length ?m - ?k < cfg_maxReservations (rs_config s)"
      using True by linarith
    then show ?thesis
      using True unfolding exact length_without_oldest by (simp add: min_absorb1)
  next
    case False
    then have "terminal_count (without_oldest ?k ?m) = 0"
      unfolding terminal_count_without by simp
    then show ?thesis
      unfolding exact by (auto simp: filter_empty_conv)
  qed
qed

text \<open>
  Making room in a full table removes terminal records only: every reservation that is not
  terminal stays recorded unchanged, nothing is added, and the live index is not touched.
\<close>

lemma pruning_spares_owners:
  assumes "table_inv s"
  shows "(\<forall>i q. map_of (rs_reservations s) i = Some q \<longrightarrow> \<not> isTerminalState (res_state q) \<longrightarrow>
      map_of (rs_reservations (pruneTerminalReservations s)) i = Some q)
    \<and> (\<forall>i q. map_of (rs_reservations (pruneTerminalReservations s)) i = Some q \<longrightarrow>
      map_of (rs_reservations s) i = Some q)
    \<and> rs_liveByDomain (pruneTerminalReservations s) = rs_liveByDomain s"
  using prune_reservation [OF table_inv_om [OF assms]] prune_submap [OF table_inv_om [OF assms]]
    prune_frame(2) by blast

end
