(* ===== verification/Scenario.thy ===== *)
theory Scenario
  imports Tenancy Query_Facts Pruning
begin

text \<open>
  A small running example, for the witnesses of the properties: a runtime with one flexible grid of
  four slots, one fibre-span domain on it and a published capability, all entered through the
  registration operations, and a request for two of the four slots.
\<close>

definition demo_config :: RuntimeConfig where
  "demo_config = default_config\<lparr>cfg_maxReservations := 4, cfg_maxAuditRecords := 1\<rparr>"

definition demo_fence :: ControllerFence where
  "demo_fence = \<lparr>epoch = StrongValue 1, incarnation = StrongValue 7\<rparr>"

definition demo_grid :: ChannelGrid where
  "demo_grid = \<lparr>grid_id = StrongValue 1, grid_generation = StrongValue 1, grid_kind = Flex,
     anchorMhz = 100, slotWidthMhz = 10, slotCount = 4, minSlotsPerChannel = 1,
     maxSlotsPerChannel = 4, grid_label = []\<rparr>"

definition demo_domain :: SpectrumDomain where
  "demo_domain = \<lparr>dom_id = StrongValue 1, dom_generation = StrongValue 1, dom_klass = FiberSpan,
     dom_grid = StrongValue 1, dom_gridGeneration = StrongValue 1, dom_span = sv_none,
     dom_spanGeneration = sv_none, dom_portA = sv_none, dom_portAGeneration = sv_none,
     dom_portB = sv_none, dom_portBGeneration = sv_none, dom_requiresContiguity = True,
     dom_label = []\<rparr>"

definition demo_capability :: SpectrumCapability where
  "demo_capability = \<lparr>cap_domain = StrongValue 1, cap_domainGeneration = StrongValue 1,
     cap_grid = StrongValue 1, cap_gridGeneration = StrongValue 1, cap_support = Supported,
     cap_firstAllocatableSlot = 0, cap_allocatableSlots = 4, cap_minTunableMhz = 100,
     cap_maxTunableMhz = 140, cap_contiguityEnforced = True, cap_conversionSupported = False,
     cap_conversionEvidence = default_evidence,
     cap_presenceEvidence = \<lparr>evidence_present = True, evidence_digest = 1, evidence_source = []\<rparr>,
     cap_generation = StrongValue 1, cap_publisher = StrongValue 1, cap_fence = demo_fence,
     cap_publishedAt = 1, cap_detail = []\<rparr>"

definition demo_request :: SpectrumRequest where
  "demo_request = \<lparr>req_requestId = StrongValue 1, req_requestGeneration = StrongValue 1,
     req_owner = StrongValue 1, req_ownerGeneration = StrongValue 1, req_domains = [StrongValue 1],
     req_domainGenerations = [StrongValue 1], req_grid = StrongValue 1,
     req_gridGeneration = StrongValue 1, req_slots = 2, req_contiguity = ContiguityRequired,
     req_continuity = ContinuityRequired, req_frequencyWindows = [], req_guardBandMhz = 0,
     req_leaseDuration = 100, req_maxRenewals = 0, req_requestedAt = 10, req_notBefore = 0,
     req_policyGeneration = sv_none, req_priorityGeneration = sv_none,
     req_constraints = \<lparr>con_excludedSlots = [], con_excludedFrequencies = [],
       con_mustNotConflictWith = []\<rparr>,
     req_eligibilityAuthority = \<lparr>tok_generation = StrongValue 1, tok_fence = demo_fence\<rparr>,
     req_reservationAuthority = \<lparr>tok_generation = StrongValue 1, tok_fence = demo_fence\<rparr>\<rparr>"

definition demo_host :: Host where
  "demo_host = \<lparr>host_now = 10, host_io = \<lparr>io_open = True, io_written = 0, io_close = True,
     io_rename = None\<rparr>\<rparr>"

definition demo_open :: RuntimeState where
  "demo_open = SpectrumRuntime demo_config 7 1 (\<lambda>_. None)"

definition demo_state :: RuntimeState where
  "demo_state = fst (publishCapability 4 demo_capability (fst (registerDomain 3 demo_domain
     (fst (registerGrid 2 demo_grid demo_open)))))"

definition demo_allocated :: RuntimeState where
  "demo_allocated = fst (allocate demo_host demo_request demo_state)"

text \<open>The registered scene satisfies every invariant the properties ask for.\<close>

lemma demo_keeps: "keeps_leases demo_open demo_state"
  unfolding demo_state_def
  by (meson registration_keeps keeps_leases_trans)

lemma demo_empty:
  "rs_reservations demo_state = []" "rs_liveByDomain demo_state = []"
  "rs_nextReservationId demo_state = StrongValue 1"
  using demo_keeps by (simp_all add: keeps_leases_def demo_open_def SpectrumRuntime_def Let_def)

lemma demo_table: "table_inv demo_state"
  by (simp add: table_inv_def reservations_ok_def live_exact_def ids_below_def states_ok_def
      demo_empty index_wf_def owns_def live_member_def live_list_def)

lemma demo_lease: "lease_inv t demo_state"
  by (simp add: lease_inv_def exclusive_def demo_empty)

lemma demo_grids: "grids_ok demo_state"
proof -
  have "grids_ok demo_open"
    by (simp add: demo_open_def SpectrumRuntime_def Let_def auditNote_def grids_ok_def registry_ok_def)
  then show ?thesis
    unfolding demo_state_def by (intro registration_grids_ok)
qed

lemma demo_audit: "audit_ok demo_state"
proof -
  have "audit_ok demo_open"
    unfolding demo_open_def SpectrumRuntime_def Let_def
    by (intro auditNote_ok) (simp add: audit_ok_def normalise_config_def Let_def demo_config_def)
  then show ?thesis
    unfolding demo_state_def by (intro registration_audit)
qed

lemma demo_registries:
  "map_of (rs_grids demo_state) (StrongValue 1) = Some demo_grid"
  "map_of (rs_domains demo_state) (StrongValue 1) = Some demo_domain"
  "dom_grid demo_domain = StrongValue 1"
  by code_simp+

lemma demo_next: "raw (rs_nextReservationId demo_state) < 0xFFFFFFFFFFFFFFFF"
  by (simp add: demo_empty)


text \<open>Running the request on the scene grants the first two slots.\<close>

lemma demo_run:
  "case allocate demo_host demo_request demo_state of (s, d) \<Rightarrow>
     status_ok (dec_status d) \<and> dec_outcome d = Allocated \<and> dec_reservation d = StrongValue 1
     \<and> slot_count (cand_slots (exp_selected (dec_explanation d))) = 2
     \<and> map_of (rs_requestIndex s) (StrongValue 1) = Some (StrongValue 1)
     \<and> live_list (rs_liveByDomain s) (StrongValue 1) = [StrongValue 1]"
  by code_simp

lemma demo_replay:
  "case allocate demo_host demo_request demo_state of (s, d) \<Rightarrow> ev_replay (evaluate s demo_request)"
  by code_simp

lemma demo_not_replay: "\<not> ev_replay (evaluate demo_state demo_request)"
  by code_simp


lemma allocate_granted_demo:
  "\<exists>q. map_of (rs_reservations demo_allocated) (StrongValue 1) = Some q \<and> res_state q = Reserved"
proof -
  obtain s d where run: "allocate demo_host demo_request demo_state = (s, d)"
    by (cases "allocate demo_host demo_request demo_state")
  then have ok: "status_ok (dec_status d)" "dec_reservation d = StrongValue 1"
    using demo_run by simp_all
  show ?thesis
    by (rule allocate_granted [OF demo_table demo_next run ok(1) demo_not_replay])
      (use run ok(2) in \<open>auto simp: demo_allocated_def\<close>)
qed

lemma demo_usage: "computeUsage demo_state (StrongValue 1) 10 \<noteq> None"
  by code_simp

section \<open>A second tenant\<close>

text \<open>A second request takes the other two slots; both leases end at instant 110.\<close>

definition demo_second :: SpectrumRequest where
  "demo_second = demo_request\<lparr>req_requestId := StrongValue 2\<rparr>"

definition demo_two :: RuntimeState where
  "demo_two = fst (allocate demo_host demo_second demo_allocated)"

definition demo_release :: ReleaseAuthority where
  "demo_release = \<lparr>tok_generation = StrongValue 1, tok_fence = demo_fence\<rparr>"

definition demo_released :: RuntimeState where
  "demo_released = fst (release demo_host (StrongValue 1) (StrongValue 1) demo_release 11 demo_two)"

lemma demo_state_reached: "reached 10 demo_state"
proof -
  have "reached 0 demo_open"
    unfolding demo_open_def by (rule reached.opened)
  then have "reached 1 (perform (demo_host\<lparr>host_now := 2\<rparr>) 1 (RegisterGrid demo_grid) demo_open)"
    by (rule reached.step) simp_all
  then have "reached 2 (perform (demo_host\<lparr>host_now := 3\<rparr>) 2 (RegisterDomain demo_domain)
      (perform (demo_host\<lparr>host_now := 2\<rparr>) 1 (RegisterGrid demo_grid) demo_open))"
    by (rule reached.step) simp_all
  then have "reached 10 (perform (demo_host\<lparr>host_now := 4\<rparr>) 10 (PublishCapability demo_capability)
      (perform (demo_host\<lparr>host_now := 3\<rparr>) 2 (RegisterDomain demo_domain)
        (perform (demo_host\<lparr>host_now := 2\<rparr>) 1 (RegisterGrid demo_grid) demo_open)))"
    by (rule reached.step) simp_all
  then show ?thesis
    by (simp add: demo_state_def demo_host_def)
qed

lemma demo_allocated_next: "raw (rs_nextReservationId demo_allocated) < 0xFFFFFFFFFFFFFFFF"
  by code_simp

lemma demo_allocated_reached: "reached 10 demo_allocated"
  using reached.step [OF demo_state_reached, of 10 "Allocate demo_request" demo_host] demo_next
  by (simp add: demo_allocated_def demo_request_def)

lemma demo_two_reached: "reached 10 demo_two"
  using reached.step [OF demo_allocated_reached, of 10 "Allocate demo_second" demo_host]
    demo_allocated_next by (simp add: demo_two_def demo_second_def demo_request_def)

lemma demo_released_reached: "reached 11 demo_released"
  using reached.step [OF demo_two_reached, of 11 "Release (StrongValue 1) (StrongValue 1) demo_release" demo_host]
  by (simp add: demo_released_def)

definition demo_holds :: "RuntimeState \<Rightarrow> ReservationId \<Rightarrow> bool" where
  "demo_holds s i = (case map_of (rs_reservations s) i of None \<Rightarrow> False
     | Some q \<Rightarrow> isLiveAt q 10 \<and> \<not> isLiveAt q 500 \<and> isLiveState (res_state q)
         \<and> res_domains q = [StrongValue 1] \<and> res_generation q = StrongValue 1)"

lemma demo_two_run:
  "demo_holds demo_two (StrongValue 1) \<and> demo_holds demo_two (StrongValue 2)
   \<and> \<not> cfg_durableCommits (rs_config demo_two)"
proof -
  have "case allocate demo_host demo_second demo_allocated of (s, d) \<Rightarrow>
      demo_holds s (StrongValue 1) \<and> demo_holds s (StrongValue 2) \<and> \<not> cfg_durableCommits (rs_config s)"
    by code_simp
  then show ?thesis
    by (simp add: demo_two_def split: prod.splits)
qed

lemma demo_two_release:
  "case release demo_host (StrongValue 1) (StrongValue 1) demo_release 11 demo_two of (s, status) \<Rightarrow>
     status_ok status \<and> (case map_of (rs_reservations s) (StrongValue 1) of
       None \<Rightarrow> False | Some q \<Rightarrow> res_state q = Released)"
  by code_simp

text \<open>The same scene under durable commits, and a host that cannot open the state file.\<close>

definition demo_durable :: RuntimeState where
  "demo_durable = demo_two\<lparr>rs_config := (rs_config demo_two)\<lparr>cfg_durableCommits := True,
     cfg_statePath := ''p''\<rparr>\<rparr>"

definition demo_broken :: Host where
  "demo_broken = demo_host\<lparr>host_io := (host_io demo_host)\<lparr>io_open := False\<rparr>\<rparr>"

text \<open>A table of one released record at its bound.\<close>

definition demo_crowded :: RuntimeState where
  "demo_crowded = demo_state\<lparr>
     rs_reservations := [(StrongValue 1,
       default_reservation\<lparr>res_id := StrongValue 1, res_state := Released\<rparr>)],
     rs_nextReservationId := StrongValue 2,
     rs_config := (rs_config demo_state)\<lparr>cfg_maxReservations := 1\<rparr>\<rparr>"

lemma demo_crowded_table: "table_inv demo_crowded"
  by (auto simp: demo_crowded_def table_inv_def reservations_ok_def live_exact_def ids_below_def states_ok_def
      demo_empty index_wf_def owns_def live_member_def live_list_def om_ok_Cons)

end
