(* ===== verification/Crash_Scenario.thy ===== *)
theory Crash_Scenario
  imports Crash Scenario
begin

text \<open>
  The running example on a durable daemon: it starts on a path with no file, the scene is registered,
  the request is committed to the file, and a second daemon is started on it.
\<close>

definition demo_daemon :: DaemonOptions where
  "demo_daemon = default_options\<lparr>dmo_statePath := ''p'', dmo_durable := True\<rparr>"

definition demo_arguments :: "string list" where
  "demo_arguments = [''--state'', ''p'', ''--durable'']"

lemma demo_daemon_options: "daemon_options demo_arguments default_options = Some demo_daemon"
  by code_simp

definition demo_listener :: Socket where
  "demo_listener = \<lparr>sock_valid = True, sock_sends = [], sock_recvs = [], sock_sent = []\<rparr>"

definition demo_listens :: ListenOs where
  "demo_listens = \<lparr>los_literal = True, los_ready = okStatus, los_socket = Inr demo_listener, los_reuse = None, los_bind = None,
     los_listen = (\<lambda>_. None), los_name = Inr 4000\<rparr>"

definition demo_first_os :: DaemonOs where
  "demo_first_os = \<lparr>dos_now = 1, dos_recoveryNow = 1, dos_incarnation = 7, dos_recoveryIncarnation = 7,
     dos_disk = (\<lambda>_. None), dos_stat = (\<lambda>_. False),
     dos_read = \<lparr>rio_exists = False, rio_sizeError = None, rio_open = False, rio_gcount = 0\<rparr>,
     dos_initialized = okStatus, dos_listen = demo_listens\<rparr>"

definition demo_served :: RuntimeState where
  "demo_served = fst (publishCapability 4 demo_capability (fst (registerDomain 3 demo_domain
     (fst (registerGrid 2 demo_grid (daemon_runtime demo_first_os demo_daemon))))))"

lemma demo_served_inv: "runtime_inv t demo_served"
proof -
  have start: "runtime_inv t (daemon_runtime demo_first_os demo_daemon)"
    unfolding daemon_runtime_def by (rule opened_inv)
  have grids: "grids_ok (daemon_runtime demo_first_os demo_daemon)" "audit_ok (daemon_runtime demo_first_os demo_daemon)"
    using start by (simp_all add: runtime_inv_def)
  show ?thesis
    unfolding demo_served_def
    by (rule keeps_inv [OF start])
      (meson registration_keeps keeps_leases_trans, intro registration_grids_ok grids, intro registration_audit grids)
qed

lemma demo_served_facts:
  "case (demo_served, ()) of (s, _) \<Rightarrow> storable_state s \<and> consistent s
     \<and> unat (raw (rs_auditSequence s)) = 4 \<and> raw (rs_nextReservationId s) = 1
     \<and> rs_fence s = demo_fence \<and> rs_config s = normalise_config (daemon_config demo_daemon)"
  by code_simp

lemma demo_encoded_facts:
  "case encoded_by demo_request demo_served of None \<Rightarrow> False | Some u \<Rightarrow>
     storable_state u \<and> rs_config u = normalise_config (daemon_config demo_daemon) \<and> rs_fence u = demo_fence
     \<and> raw (rs_auditSequence u) = 5
     \<and> 1 + length (rs_grids u) + length (rs_spans u) + length (rs_ports u) + length (rs_domains u)
       + length (rs_exclusionDomains u) + length (rs_capabilities u) + length (rs_reservations u)
       + length (rs_audit u) \<le> 1000"
  by code_simp

text \<open>The commit on a working file system, and the daemon that is started on the file.\<close>

definition demo_encoded :: RuntimeState where
  "demo_encoded = the (encoded_by demo_request demo_served)"

definition demo_commit :: Host where
  "demo_commit = (let bytes = (case encodeState demo_encoded of Inr bytes \<Rightarrow> bytes | Inl _ \<Rightarrow> [])
     in \<lparr>host_now = 10, host_io = \<lparr>io_open = True, io_written = length bytes, io_close = True, io_rename = None\<rparr>\<rparr>)"

definition demo_acknowledged :: "RuntimeState \<times> AllocationDecision" where
  "demo_acknowledged = allocate demo_commit demo_request demo_served"

definition demo_second_os :: DaemonOs where
  "demo_second_os = demo_first_os\<lparr>dos_now := 20, dos_recoveryNow := 21, dos_incarnation := 8, dos_recoveryIncarnation := 9,
     dos_disk := rs_disk (fst demo_acknowledged), dos_stat := (\<lambda>p. p = ''p''),
     dos_read := \<lparr>rio_exists = True, rio_sizeError = None, rio_open = True,
       rio_gcount = length (the (rs_disk (fst demo_acknowledged) ''p''))\<rparr>\<rparr>"

lemma demo_encoded_by:
  "encoded_by demo_request demo_served = Some demo_encoded" "storable_state demo_encoded"
  "rs_config demo_encoded = normalise_config (daemon_config demo_daemon)" "rs_fence demo_encoded = demo_fence"
  "raw (rs_auditSequence demo_encoded) = 5" "length (state_payloads demo_encoded) \<le> 1000"
  using demo_encoded_facts unfolding length_state_payloads by (auto simp: demo_encoded_def split: option.splits)

lemma demo_daemon_state: "daemon_state demo_daemon demo_served"
  using demo_served_facts by (simp add: daemon_state_def)

lemma demo_commit_saves:
  "saveLocked demo_commit demo_encoded = (fst demo_acknowledged, okStatus)"
  "status_ok (dec_status (snd demo_acknowledged))" "\<not> ev_replay (evaluate demo_served demo_request)"
proof -
  obtain bytes where bytes: "encodeState demo_encoded = Inr bytes"
    using encodeState_returns [OF demo_encoded_by(2,6)] by blast
  have small: "length bytes \<le> unat (cfg_maxStateBytes (rs_config demo_encoded))"
    using encodeState_length [OF demo_encoded_by(2) bytes] daemon_config_fields(2) [of demo_daemon demo_encoded]
    by (simp add: kMaxBufferBytes_def daemon_state_def demo_encoded_by(3))
  have "table_inv demo_served" "durable demo_served"
    using demo_served_inv [of 0] daemon_config_fields(4) [OF demo_daemon_state]
    by (simp_all add: runtime_inv_def demo_daemon_def)
  note saves = allocate_saves [OF this(1) demo_encoded_by(1) this(2) bytes small, of demo_commit
      "fst demo_acknowledged" "snd demo_acknowledged"]
  have "rs_config demo_encoded = rs_config demo_served"
    using demo_served_facts by (simp add: demo_encoded_by(3))
  then show "saveLocked demo_commit demo_encoded = (fst demo_acknowledged, okStatus)"
    "status_ok (dec_status (snd demo_acknowledged))" "\<not> ev_replay (evaluate demo_served demo_request)"
    using saves by (simp_all add: demo_commit_def bytes demo_acknowledged_def)
qed

lemma demo_allocates: "allocate demo_commit demo_request demo_served = (fst demo_acknowledged, snd demo_acknowledged)"
  by (simp add: demo_acknowledged_def)

lemma demo_acknowledged_storable: "storable_state (fst demo_acknowledged)"
proof (rule storable_after_save [OF demo_encoded_by(2) demo_commit_saves(1)])
  show "sv_valid (bump (rs_auditSequence demo_encoded))"
    using demo_encoded_by(5) by (simp add: bump_def sv_valid_def)
  show "length (cfg_statePath (rs_config demo_encoded)) \<le> 1000"
    using daemon_config_fields(1) [of demo_daemon demo_encoded]
    by (simp add: daemon_state_def demo_encoded_by(3) demo_daemon_def)
qed (simp_all add: demo_commit_def storable_instant_def storable_fence_def demo_encoded_by(4) demo_fence_def
    kMaxFenceValue_def i64_defs)

lemma demo_in_operation: "in_operation demo_daemon t demo_served"
  using demo_served_facts demo_served_inv [of t] demo_daemon_state
  by (simp add: in_operation_def demo_fence_def kMaxFenceValue_def) (simp add: demo_daemon_def)

lemma demo_started_on: "started_on demo_daemon (fst demo_acknowledged) demo_second_os"
  by (simp add: started_on_def demo_second_os_def demo_daemon_def reads_all_def)

text \<open>The second daemon listens, so it serves.\<close>

lemma demo_listening:
  "\<exists>pool. daemon_start demo_second_os demo_daemon recovered s = Serving recovered s pool demo_listener 4000"
proof -
  have "case start False okStatus demo_listens (daemon_server demo_daemon) of Inl _ \<Rightarrow> False
    | Inr (pool, listener, port) \<Rightarrow> listener = demo_listener \<and> port = 4000"
    by code_simp
  then show ?thesis
    by (auto simp: daemon_start_def demo_second_os_def demo_first_os_def split: sum.splits)
qed

definition demo_next_fence :: ControllerFence where
  "demo_next_fence = \<lparr>epoch = StrongValue 2, incarnation = StrongValue 9\<rparr>"

definition demo_next_eligibility :: EligibilityAuthority where
  "demo_next_eligibility = \<lparr>tok_generation = StrongValue 1, tok_fence = demo_next_fence\<rparr>"

definition demo_next_reservation :: ReservationAuthority where
  "demo_next_reservation = \<lparr>tok_generation = StrongValue 1, tok_fence = demo_next_fence\<rparr>"

lemma demo_served_authority:
  "auth_eligibility (rs_authority demo_served) = StrongValue 1" "auth_reservation (rs_authority demo_served) = StrongValue 1"
  by code_simp+

text \<open>The authority of the second controller, under which the request is sent again.\<close>

lemma demo_second_controller:
  obtains r' report where
    "daemon_boot demo_second_os demo_daemon = daemon_start demo_second_os demo_daemon (Some report) r'"
    "status_ok (checkEligibilityAuthority (rs_authority r') demo_next_eligibility)"
    "status_ok (checkReservationAuthority (rs_authority r') demo_next_reservation)"
proof -
  obtain r' report where boot:
    "daemon_boot demo_second_os demo_daemon = daemon_start demo_second_os demo_daemon (Some report) r'"
    and fence: "rs_fence r' = \<lparr>epoch = StrongValue (raw (epoch (rs_fence demo_served)) + 1),
      incarnation = StrongValue (dos_recoveryIncarnation demo_second_os)\<rparr>"
    and authority: "rs_authority r' = (rs_authority demo_served)\<lparr>auth_fence := rs_fence r'\<rparr>"
    by (rule crash [OF demo_in_operation demo_allocates demo_commit_saves(2,3) demo_acknowledged_storable demo_started_on])
  have "rs_fence r' = demo_next_fence"
    using demo_served_facts unfolding fence by (simp add: demo_next_fence_def demo_fence_def demo_second_os_def)
  then have "status_ok (checkEligibilityAuthority (rs_authority r') demo_next_eligibility)"
    "status_ok (checkReservationAuthority (rs_authority r') demo_next_reservation)"
    unfolding eligibility.accepts reservation.accepts authority
    by (simp_all add: demo_next_eligibility_def demo_next_reservation_def demo_served_authority tok_valid_def
        fence_valid_def sv_valid_def demo_next_fence_def)
  then show thesis
    by (rule that [OF boot])
qed

end
