(* ===== verification/Mp_Client.thy ===== *)
theory Mp_Client
  imports Client Daemon
begin

text \<open>
  The independent client process of the distributed proof, \<open>mp_client_main.cpp\<close>: its options, the
  request it builds, the frame it abandons, the allocation it waits for, and the report it leaves in
  a file for the process that started it.
\<close>

section \<open>Options\<close>

record ClientOptions =
  mpo_host :: string
  mpo_port :: nat
  mpo_out :: string
  mpo_requestId :: u64
  mpo_requestGeneration :: u64
  mpo_owner :: u64
  mpo_ownerGeneration :: u64
  mpo_domainGeneration :: u64
  mpo_grid :: u64
  mpo_gridGeneration :: u64
  mpo_slots :: nat
  mpo_startAt :: int
  mpo_giveUpAt :: int
  mpo_requestedAt :: int
  mpo_leaseSeconds :: int
  mpo_windowLow :: int
  mpo_windowHigh :: int
  mpo_eligibilityGeneration :: u64
  mpo_reservationGeneration :: u64
  mpo_fenceEpoch :: u64
  mpo_fenceIncarnation :: u64
  mpo_domains :: "u64 list"
  mpo_abandon :: bool

definition default_client :: ClientOptions where
  "default_client = \<lparr>mpo_host = ''127.0.0.1'', mpo_port = 0, mpo_out = [], mpo_requestId = 1,
     mpo_requestGeneration = 1, mpo_owner = 1, mpo_ownerGeneration = 1, mpo_domainGeneration = 1,
     mpo_grid = 1, mpo_gridGeneration = 1, mpo_slots = 1, mpo_startAt = 0, mpo_giveUpAt = 0,
     mpo_requestedAt = 0, mpo_leaseSeconds = 600, mpo_windowLow = -1, mpo_windowHigh = -1,
     mpo_eligibilityGeneration = 1, mpo_reservationGeneration = 1, mpo_fenceEpoch = 0,
     mpo_fenceIncarnation = 0, mpo_domains = [], mpo_abandon = False\<rparr>"

definition parseSigned :: "string \<Rightarrow> int option" where
  "parseSigned text =
     (case text of
        [] \<Rightarrow> None
      | c # cs \<Rightarrow>
          let negative = c = CHR ''-''; ds = (if negative then cs else text)
          in if ds = [] then None
             else map_option (\<lambda>n. if negative then - int n else int n) (unsigned_loop 0x7FFFFFFFFFFFFFFF 0 ds))"

fun domain_fields :: "string \<Rightarrow> string \<Rightarrow> u64 list \<Rightarrow> u64 list option" where
  "domain_fields current [] found =
     (if current = [] then None
      else case parseUnsigned current of None \<Rightarrow> None | Some n \<Rightarrow> Some (found @ [word_of_nat n]))"
| "domain_fields current (c # cs) found =
     (if c = CHR '','' then
        (if current = [] then None
         else case parseUnsigned current of
           None \<Rightarrow> None | Some n \<Rightarrow> domain_fields [] cs (found @ [word_of_nat n]))
      else domain_fields (current @ [c]) cs found)"

definition parseDomains :: "string \<Rightarrow> u64 list \<Rightarrow> u64 list option" where
  "parseDomains text found =
     (case domain_fields [] text found of
        None \<Rightarrow> None | Some ds \<Rightarrow> if ds = [] then None else Some ds)"

definition with_unsigned :: "string \<Rightarrow> (u64 \<Rightarrow> ClientOptions) \<Rightarrow> ClientOptions option" where
  "with_unsigned text k = map_option (\<lambda>n. k (word_of_nat n)) (parseUnsigned text)"

definition with_signed :: "string \<Rightarrow> (int \<Rightarrow> ClientOptions) \<Rightarrow> ClientOptions option" where
  "with_signed text k = map_option k (parseSigned text)"

text \<open>An option with its value. The number of slots is cut to 32 bits after the check for zero.\<close>

definition client_option :: "string \<Rightarrow> string \<Rightarrow> ClientOptions \<Rightarrow> ClientOptions option" where
  "client_option argument following d =
     (if argument = ''--host'' then Some (d\<lparr>mpo_host := following\<rparr>)
      else if argument = ''--port''
      then (case parseUnsigned following of
              None \<Rightarrow> None | Some n \<Rightarrow> if n > 65535 then None else Some (d\<lparr>mpo_port := n\<rparr>))
      else if argument = ''--out'' then Some (d\<lparr>mpo_out := following\<rparr>)
      else if argument = ''--request-id'' then with_unsigned following (\<lambda>n. d\<lparr>mpo_requestId := n\<rparr>)
      else if argument = ''--request-generation'' then with_unsigned following (\<lambda>n. d\<lparr>mpo_requestGeneration := n\<rparr>)
      else if argument = ''--owner'' then with_unsigned following (\<lambda>n. d\<lparr>mpo_owner := n\<rparr>)
      else if argument = ''--domain-generation'' then with_unsigned following (\<lambda>n. d\<lparr>mpo_domainGeneration := n\<rparr>)
      else if argument = ''--grid'' then with_unsigned following (\<lambda>n. d\<lparr>mpo_grid := n\<rparr>)
      else if argument = ''--grid-generation'' then with_unsigned following (\<lambda>n. d\<lparr>mpo_gridGeneration := n\<rparr>)
      else if argument = ''--slots''
      then (case parseUnsigned following of
              None \<Rightarrow> None | Some n \<Rightarrow> if n = 0 then None else Some (d\<lparr>mpo_slots := n mod 2 ^ 32\<rparr>))
      else if argument = ''--start-at'' then with_signed following (\<lambda>i. d\<lparr>mpo_startAt := i\<rparr>)
      else if argument = ''--give-up-at'' then with_signed following (\<lambda>i. d\<lparr>mpo_giveUpAt := i\<rparr>)
      else if argument = ''--requested-at'' then with_signed following (\<lambda>i. d\<lparr>mpo_requestedAt := i\<rparr>)
      else if argument = ''--lease-seconds''
      then (case parseSigned following of
              None \<Rightarrow> None | Some i \<Rightarrow> if i \<le> 0 then None else Some (d\<lparr>mpo_leaseSeconds := i\<rparr>))
      else if argument = ''--window-low'' then with_signed following (\<lambda>i. d\<lparr>mpo_windowLow := i\<rparr>)
      else if argument = ''--window-high'' then with_signed following (\<lambda>i. d\<lparr>mpo_windowHigh := i\<rparr>)
      else if argument = ''--eligibility-generation''
      then with_unsigned following (\<lambda>n. d\<lparr>mpo_eligibilityGeneration := n\<rparr>)
      else if argument = ''--reservation-generation''
      then with_unsigned following (\<lambda>n. d\<lparr>mpo_reservationGeneration := n\<rparr>)
      else if argument = ''--fence-epoch'' then with_unsigned following (\<lambda>n. d\<lparr>mpo_fenceEpoch := n\<rparr>)
      else if argument = ''--fence-incarnation'' then with_unsigned following (\<lambda>n. d\<lparr>mpo_fenceIncarnation := n\<rparr>)
      else if argument = ''--domains''
      then map_option (\<lambda>ds. d\<lparr>mpo_domains := ds\<rparr>) (parseDomains following (mpo_domains d))
      else None)"

fun client_options :: "string list \<Rightarrow> ClientOptions \<Rightarrow> ClientOptions option" where
  "client_options [] d =
     (if mpo_port d \<noteq> 0 \<and> mpo_out d \<noteq> [] \<and> mpo_domains d \<noteq> [] then Some d else None)"
| "client_options [argument] d =
     (if argument = ''--abandon'' then client_options [] (d\<lparr>mpo_abandon := True\<rparr>) else None)"
| "client_options (argument # following # arguments) d =
     (if argument = ''--abandon'' then client_options (following # arguments) (d\<lparr>mpo_abandon := True\<rparr>)
      else case client_option argument following d of
             None \<Rightarrow> None | Some d1 \<Rightarrow> client_options arguments d1)"

section \<open>The request\<close>

definition client_fence :: "ClientOptions \<Rightarrow> ControllerFence \<Rightarrow> ControllerFence" where
  "client_fence d described =
     (let f = (if mpo_fenceEpoch d \<noteq> 0 then described\<lparr>epoch := StrongValue (mpo_fenceEpoch d)\<rparr> else described)
      in if mpo_fenceIncarnation d \<noteq> 0 then f\<lparr>incarnation := StrongValue (mpo_fenceIncarnation d)\<rparr> else f)"

definition client_request :: "ClientOptions \<Rightarrow> ControllerFence \<Rightarrow> SpectrumRequest" where
  "client_request d fence =
     \<lparr>req_requestId = StrongValue (mpo_requestId d), req_requestGeneration = StrongValue (mpo_requestGeneration d),
      req_owner = StrongValue (mpo_owner d), req_ownerGeneration = StrongValue (mpo_ownerGeneration d),
      req_domains = map StrongValue (mpo_domains d),
      req_domainGenerations = map (\<lambda>_. StrongValue (mpo_domainGeneration d)) (mpo_domains d),
      req_grid = StrongValue (mpo_grid d), req_gridGeneration = StrongValue (mpo_gridGeneration d),
      req_slots = mpo_slots d,
      req_contiguity = (if mpo_slots d > 1 then ContiguityRequired else ContiguityUnspecified),
      req_continuity = (if length (mpo_domains d) > 1 then ContinuityRequired else ContinuityUnspecified),
      req_frequencyWindows = (if mpo_windowLow d \<ge> 0 \<and> mpo_windowHigh d > mpo_windowLow d
        then [\<lparr>lowMhz = mpo_windowLow d, highMhz = mpo_windowHigh d\<rparr>] else []),
      req_guardBandMhz = 0, req_leaseDuration = duration_seconds (mpo_leaseSeconds d), req_maxRenewals = 0,
      req_requestedAt = mpo_requestedAt d, req_notBefore = 0, req_policyGeneration = StrongValue 1,
      req_priorityGeneration = StrongValue 1,
      req_constraints = \<lparr>con_excludedSlots = [], con_excludedFrequencies = [], con_mustNotConflictWith = []\<rparr>,
      req_eligibilityAuthority = \<lparr>tok_generation = StrongValue (mpo_eligibilityGeneration d), tok_fence = fence\<rparr>,
      req_reservationAuthority = \<lparr>tok_generation = StrongValue (mpo_reservationGeneration d), tok_fence = fence\<rparr>\<rparr>"

section \<open>The process\<close>

definition sanitise :: "string \<Rightarrow> string" where
  "sanitise text = take 400 (map (\<lambda>c. if c = CHR 0x0A \<or> c = CHR 0x0D then CHR '' '' else c) text)"

definition failure_report :: "string \<Rightarrow> Status \<Rightarrow> string" where
  "failure_report kind st = ''transport='' @ kind @ '' reason='' @ sanitise (message st) @ s_newline"

definition default_decision :: AllocationDecision where
  "default_decision = \<lparr>dec_status = okStatus, dec_outcome = OutcomeUnknown, dec_reservation = sv_none,
     dec_generation = sv_none, dec_explanation = default_explanation\<rparr>"

definition report_line :: "string \<Rightarrow> string \<Rightarrow> string" where
  "report_line key text = key @ ''='' @ text @ s_newline"

definition client_report :: "Status \<Rightarrow> ControllerFence \<Rightarrow> AllocationDecision \<Rightarrow> string" where
  "client_report st fence d =
     report_line ''transport'' (statusCode_toToken (code st))
     @ report_line ''outcome'' (outcome_toToken (dec_outcome d))
     @ report_line ''reservation'' (raw_to_string (dec_reservation d))
     @ report_line ''generation'' (raw_to_string (dec_generation d))
     @ report_line ''request'' (raw_to_string (exp_reservation (dec_explanation d)))
     @ report_line ''slots_first'' (nat_to_string (slot_first (cand_slots (exp_selected (dec_explanation d)))))
     @ report_line ''slots_count'' (nat_to_string (slot_count (cand_slots (exp_selected (dec_explanation d)))))
     @ report_line ''epoch'' (raw_to_string (epoch fence))
     @ report_line ''incarnation'' (raw_to_string (incarnation fence))
     @ (case exp_reasons (dec_explanation d) of [] \<Rightarrow> [] | x # _ \<Rightarrow> report_line ''reason'' (sanitise x))"

definition new_client :: SpectrumClient where
  "new_client = \<lparr>cli_socket = \<lparr>sock_valid = False, sock_sends = [], sock_recvs = [], sock_sent = []\<rparr>,
     cli_maxPayloadBytes = kMaxFramePayloadBytes, cli_nextRequestId = 1\<rparr>"

text \<open>
  What the operating system answers, and what the process leaves: its exit code, the text of its
  report if it wrote one, its connection, and the raw connection it abandoned. Exit code 7 is
  \<open>std::_Exit\<close> with the frame sent and no report.
\<close>

record ClientOs =
  mos_initialized :: Status
  mos_connect :: ConnectOs
  mos_rawInitialized :: Status
  mos_rawConnect :: ConnectOs
  mos_clock :: "int list"

record ClientRun =
  run_exit :: int
  run_report :: "string option"
  run_client :: SpectrumClient
  run_raw :: "Socket option"

definition gives_up :: "SpectrumClient \<Rightarrow> string \<Rightarrow> Status \<Rightarrow> ClientRun" where
  "gives_up c kind st = \<lparr>run_exit = 3, run_report = Some (failure_report kind st), run_client = c, run_raw = None\<rparr>"

definition abandon_request :: "ClientOs \<Rightarrow> ClientOptions \<Rightarrow> SpectrumRequest \<Rightarrow> SpectrumClient \<Rightarrow> ClientRun" where
  "abandon_request os d request c =
     (if \<not> status_ok (mos_rawInitialized os) then gives_up c ''sockets-failed'' (mos_rawInitialized os)
      else (case connectTcp (mpo_host d) (mpo_port d) (mos_rawConnect os) of
          Inl st \<Rightarrow> gives_up c ''connect-failed'' st
        | Inr k \<Rightarrow>
            (case writeFrame k \<lparr>frame_op = OpAllocate, frame_requestId = 1,
                frame_payload = payload_of (encode_request request)\<rparr> kMaxFramePayloadBytes of (k1, written) \<Rightarrow>
               if \<not> status_ok written then (gives_up c ''write-failed'' written)\<lparr>run_raw := Some k1\<rparr>
               else \<lparr>run_exit = 7, run_report = None, run_client = c, run_raw = Some k1\<rparr>)))"

text \<open>The decision is filled in whenever it decodes, even when bytes follow it or the status is not ok.\<close>

definition decided :: "u8 list \<Rightarrow> AllocationDecision" where
  "decided reply = (case decode_decision reply of None \<Rightarrow> default_decision | Some (d, _) \<Rightarrow> d)"

definition request_allocation :: "SpectrumRequest \<Rightarrow> ControllerFence \<Rightarrow> SpectrumClient \<Rightarrow> ClientRun" where
  "request_allocation request fence c =
     (case client_allocate request c of (c1, status, _) \<Rightarrow>
        \<lparr>run_exit = 0,
         run_report = Some (client_report status fence
           (decided (snd (snd (call OpAllocate (payload_of (encode_request request)) c))))),
         run_client = c1, run_raw = None\<rparr>)"

text \<open>The run after the options are read; \<open>None\<close> when the wait has not ended.\<close>

definition client_run :: "ClientOs \<Rightarrow> ClientOptions \<Rightarrow> ClientRun option" where
  "client_run os d =
     (case client_connect (mos_initialized os) (mos_connect os) (mpo_host d) (mpo_port d) kMaxFramePayloadBytes new_client of
        (c, connected) \<Rightarrow>
          if \<not> status_ok connected then Some (gives_up c ''connect-failed'' connected)
          else (case client_describe c of (c1, described, description) \<Rightarrow>
            (case description of
               None \<Rightarrow> Some (gives_up c1 ''describe-failed'' described)
             | Some v \<Rightarrow>
                 let request = client_request d (client_fence d (srv_fence v))
                 in if mpo_abandon d then Some (abandon_request os d request c1)
                    else (case waitUntil (mpo_startAt d) (mpo_giveUpAt d) (mos_clock os) of
                        None \<Rightarrow> None
                      | Some st \<Rightarrow>
                          if \<not> status_ok st then Some (gives_up c1 ''sync-failed'' st)
                          else Some (request_allocation request (srv_fence v) c1)))))"

text \<open>\<open>main\<close>; a usage error writes no report.\<close>

definition client_main :: "ClientOs \<Rightarrow> string list \<Rightarrow> ClientRun option" where
  "client_main os arguments =
     (case client_options arguments default_client of
        None \<Rightarrow> Some \<lparr>run_exit = 2, run_report = None, run_client = new_client, run_raw = None\<rparr>
      | Some d \<Rightarrow> client_run os d)"

end
