(* ===== verification/Mp_Scenario.thy ===== *)
theory Mp_Scenario
  imports Mp_Client
begin

text \<open>
  The helpers of the distributed proof, \<open>mp_scenario.cpp\<close>: the arguments it passes to the server and
  client processes, the request it builds itself, how it recognises that a server is ready, and how
  it reads the report of a client. The lemmas relate them to what those programs parse and print.
\<close>

section \<open>What the scenario passes on\<close>

definition kBaseInstant :: int where "kBaseInstant = 1800000000000000000"
definition kSlotWidthMhz :: int where "kSlotWidthMhz = 50000"
definition kAnchorMhz :: int where "kAnchorMhz = 191300000"
definition kSlotCount :: nat where "kSlotCount = 8"

definition serverArgs :: "nat \<Rightarrow> string \<Rightarrow> bool \<Rightarrow> string list" where
  "serverArgs port statePath durably =
     [''--port'', nat_to_string port, ''--workers'', ''4'']
     @ (if statePath \<noteq> [] then [''--state'', statePath] else [])
     @ (if durably then [''--durable''] else [])"

definition clientArgs :: "nat \<Rightarrow> string \<Rightarrow> string \<Rightarrow> u64 \<Rightarrow> int \<Rightarrow> int \<Rightarrow> string list" where
  "clientArgs port out targets requestId windowLow windowHigh =
     [''--port'', nat_to_string port, ''--out'', out, ''--domains'', targets, ''--grid'', ''1'',
      ''--owner'', u64_to_string requestId, ''--request-id'', u64_to_string requestId, ''--slots'', ''1'',
      ''--requested-at'', int_to_string kBaseInstant, ''--lease-seconds'', ''600'']
     @ (if windowLow \<ge> 0 \<and> windowHigh > windowLow
        then [''--window-low'', int_to_string windowLow, ''--window-high'', int_to_string windowHigh] else [])"

definition slotLow :: "nat \<Rightarrow> int" where
  "slotLow slot = kAnchorMhz + int slot * kSlotWidthMhz"

definition scenario_request ::
    "u64 \<Rightarrow> u64 \<Rightarrow> u64 \<Rightarrow> nat \<Rightarrow> ControllerFence \<Rightarrow> u64 \<Rightarrow> int \<Rightarrow> SpectrumRequest" where
  "scenario_request requestId owner domain slot fence requestGeneration requestedAt =
     \<lparr>req_requestId = StrongValue requestId, req_requestGeneration = StrongValue requestGeneration,
      req_owner = StrongValue owner, req_ownerGeneration = StrongValue 1,
      req_domains = [StrongValue domain], req_domainGenerations = [StrongValue 1],
      req_grid = StrongValue 1, req_gridGeneration = StrongValue 1, req_slots = 1,
      req_contiguity = ContiguityUnspecified, req_continuity = ContinuityUnspecified,
      req_frequencyWindows = [\<lparr>lowMhz = slotLow slot, highMhz = slotLow slot + kSlotWidthMhz\<rparr>],
      req_guardBandMhz = 0, req_leaseDuration = duration_seconds 600, req_maxRenewals = 0,
      req_requestedAt = requestedAt, req_notBefore = 0, req_policyGeneration = StrongValue 1,
      req_priorityGeneration = StrongValue 1,
      req_constraints = \<lparr>con_excludedSlots = [], con_excludedFrequencies = [], con_mustNotConflictWith = []\<rparr>,
      req_eligibilityAuthority = \<lparr>tok_generation = StrongValue 1, tok_fence = fence\<rparr>,
      req_reservationAuthority = \<lparr>tok_generation = StrongValue 1, tok_fence = fence\<rparr>\<rparr>"

fun scenario_liveSlots :: "SpectrumUsage list \<Rightarrow> SpectrumDomainId \<Rightarrow> nat" where
  "scenario_liveSlots [] domain = 0"
| "scenario_liveSlots (entry # entries) domain =
     (if use_domain entry = domain then use_liveSlots entry else scenario_liveSlots entries domain)"

section \<open>Reading the report of a client\<close>

definition strip_cr :: "string \<Rightarrow> string" where
  "strip_cr line = (if line \<noteq> [] \<and> last line = CHR 0x0D then butlast line else line)"

text \<open>The lines that \<open>std::getline\<close> delivers: an unfinished last line counts when it is not empty.\<close>

definition text_lines :: "string \<Rightarrow> string list" where
  "text_lines text = (let fields = split_fields (CHR 0x0A) text
     in if last fields = [] then butlast fields else fields)"

definition read_line_into :: "string \<Rightarrow> (string \<rightharpoonup> string) \<Rightarrow> (string \<rightharpoonup> string)" where
  "read_line_into line result =
     (let l = strip_cr line
      in if CHR ''='' \<in> set l
         then result(takeWhile (\<lambda>c. c \<noteq> CHR ''='') l \<mapsto> tl (dropWhile (\<lambda>c. c \<noteq> CHR ''='') l))
         else result)"

definition parseResult :: "string \<Rightarrow> (string \<rightharpoonup> string)" where
  "parseResult text = fold read_line_into (text_lines text) Map.empty"

definition valueIn :: "(string \<rightharpoonup> string) \<Rightarrow> string \<Rightarrow> string" where
  "valueIn result key = (case result key of None \<Rightarrow> ''<missing>'' | Some v \<Rightarrow> v)"

section \<open>Recognising a server\<close>

fun find_text :: "string \<Rightarrow> string \<Rightarrow> nat option" where
  "find_text sub [] = (if sub = [] then Some 0 else None)"
| "find_text sub (c # cs) = (if take (length sub) (c # cs) = sub then Some 0 else map_option Suc (find_text sub cs))"

text \<open>
  \<open>std::istream\<close> reading an unsigned 64-bit number: leading white space, an optional sign, decimal
  digits; a value out of range fails, a minus sign negates modulo two to the 64.
\<close>

definition is_space :: "char \<Rightarrow> bool" where
  "is_space c \<longleftrightarrow> c = CHR '' '' \<or> c \<in> {CHR 0x09, CHR 0x0A, CHR 0x0B, CHR 0x0C, CHR 0x0D}"

definition stream_u64 :: "string \<Rightarrow> (u64 \<times> string) option" where
  "stream_u64 text =
     (let t = dropWhile is_space text;
          signed = t \<noteq> [] \<and> hd t \<in> {CHR ''+'', CHR ''-''};
          t1 = (if signed then tl t else t);
          ds = takeWhile is_digit t1; n = digits_value 0 ds
      in if ds = [] \<or> n \<ge> 2 ^ 64 then None
         else Some (if signed \<and> hd t = CHR ''-'' then - word_of_nat n else word_of_nat n, dropWhile is_digit t1))"

definition ready_port :: "string \<Rightarrow> nat option" where
  "ready_port text =
     (case find_text ''READY '' text of
        None \<Rightarrow> None
      | Some i \<Rightarrow> (case stream_u64 (drop (i + 6) text) of
            None \<Rightarrow> None
          | Some (port, t1) \<Rightarrow> (case stream_u64 t1 of
                None \<Rightarrow> None
              | Some (_, t2) \<Rightarrow> (case stream_u64 t2 of
                    None \<Rightarrow> None
                  | Some _ \<Rightarrow> if port > 0 \<and> port \<le> 65535 then Some (unat port) else None))))"

datatype Startup = Ready | StartupRecoverFailed | StartupStartFailed | Indeterminate

record ServerHandle =
  hnd_port :: nat
  hnd_epoch :: u64
  hnd_incarnation :: u64
  hnd_output :: string

text \<open>One attempt: the text captured so far, and what the operating system answers to the probe.\<close>

record Attempt =
  att_text :: string
  att_initialized :: Status
  att_connect :: ConnectOs

definition probe :: "Attempt \<Rightarrow> nat \<Rightarrow> ServerDescription option" where
  "probe a port =
     (case client_connect (att_initialized a) (att_connect a) ''127.0.0.1'' port kMaxFramePayloadBytes new_client of
        (c, st) \<Rightarrow> if status_ok st then snd (snd (client_describe c)) else None)"

definition attempt_ready :: "Attempt \<Rightarrow> (nat \<times> ServerDescription) option" where
  "attempt_ready a =
     (case ready_port (att_text a) of
        None \<Rightarrow> None
      | Some port \<Rightarrow> map_option (\<lambda>v. (port, v)) (probe a port))"

fun ready_loop :: "Attempt list \<Rightarrow> string \<Rightarrow> ServerHandle \<Rightarrow> Startup \<times> ServerHandle" where
  "ready_loop [] final h = (Indeterminate, h\<lparr>hnd_output := final\<rparr>)"
| "ready_loop (a # attempts) final h =
     (if find_text ''RECOVER-FAILED'' (att_text a) \<noteq> None
      then (StartupRecoverFailed, h\<lparr>hnd_output := att_text a\<rparr>)
      else if find_text ''START-FAILED'' (att_text a) \<noteq> None
      then (StartupStartFailed, h\<lparr>hnd_output := att_text a\<rparr>)
      else (case attempt_ready a of
          None \<Rightarrow> ready_loop attempts final h
        | Some (port, v) \<Rightarrow> (Ready, h\<lparr>hnd_port := port, hnd_epoch := raw (epoch (srv_fence v)),
            hnd_incarnation := raw (incarnation (srv_fence v)), hnd_output := att_text a\<rparr>)))"

definition waitForReady :: "Attempt list \<Rightarrow> string \<Rightarrow> ServerHandle \<Rightarrow> Startup \<times> ServerHandle" where
  "waitForReady attempts final h = ready_loop (take 1200 attempts) final h"

end
