(* ===== verification/Mp_Facts.thy ===== *)
theory Mp_Facts
  imports Mp_Scenario
begin

text \<open>
  The programs of the distributed proof understand each other: the arguments one process passes are
  the options the other reads, the report of a client is read back field by field, and a server is
  recognised as ready, under its own port, from any part of its output.
\<close>

section \<open>Numbers\<close>

lemma parseUnsigned_print: "n < 18446744073709551616 \<Longrightarrow> parseUnsigned (nat_to_string n) = Some n"
  by (simp add: parseUnsigned_exact digits_nat_to_string digits_value_nat_to_string)

lemma parseUnsigned_print_u64: "parseUnsigned (u64_to_string w) = Some (unat w)"
proof -
  have "unat w < 18446744073709551616"
    using unsigned_less [of w] by simp
  then show ?thesis
    by (simp add: u64_to_string_def parseUnsigned_print)
qed

lemma printed_digits: "list_all is_digit (nat_to_string n)"
  using digits_nat_to_string by (simp add: digits_def)

lemma parseSigned_print:
  assumes "\<bar>i\<bar> \<le> 0x7FFFFFFFFFFFFFFF"
  shows "parseSigned (int_to_string i) = Some i"
proof -
  have loop: "unsigned_loop 0x7FFFFFFFFFFFFFFF 0 (nat_to_string (nat \<bar>i\<bar>)) = Some (nat \<bar>i\<bar>)"
    using assms by (simp add: unsigned_loop_exact printed_digits digits_value_nat_to_string)
  obtain c cs where shown: "nat_to_string (nat \<bar>i\<bar>) = c # cs"
    using nat_to_string_nonempty by (cases "nat_to_string (nat \<bar>i\<bar>)") blast+
  have "is_digit c"
    using printed_digits [of "nat \<bar>i\<bar>"] by (simp add: shown)
  then have "c \<noteq> CHR ''-''"
    by (auto simp: is_digit_def)
  then show ?thesis
    using loop shown by (cases "i < 0") (simp_all add: parseSigned_def int_to_string_def)
qed

section \<open>Arguments\<close>

lemma server_arguments:
  assumes "port \<le> 65535"
  shows "daemon_options (serverArgs port path durably) default_options
    = Some (default_options\<lparr>dmo_port := port, dmo_workers := 4, dmo_statePath := path, dmo_durable := durably\<rparr>)"
proof -
  have "parseUnsigned (nat_to_string port) = Some port"
    using assms by (intro parseUnsigned_print) simp
  moreover have "parseUnsigned ''4'' = Some 4"
    by code_simp
  ultimately show ?thesis
    using assms by (simp add: serverArgs_def default_options_def)
qed

lemma client_arguments:
  assumes "port \<le> 65535" and "port \<noteq> 0" and "out \<noteq> []" and "parseDomains targets [] = Some ds"
    and "windowHigh \<le> 0x7FFFFFFFFFFFFFFF"
  shows "client_options (clientArgs port out targets requestId windowLow windowHigh) default_client
    = Some (default_client\<lparr>mpo_port := port, mpo_out := out, mpo_domains := ds, mpo_owner := requestId,
        mpo_requestId := requestId, mpo_requestedAt := kBaseInstant,
        mpo_windowLow := (if 0 \<le> windowLow \<and> windowLow < windowHigh then windowLow else -1),
        mpo_windowHigh := (if 0 \<le> windowLow \<and> windowLow < windowHigh then windowHigh else -1)\<rparr>)"
proof -
  have "parseUnsigned (nat_to_string port) = Some port"
    using assms(1) by (intro parseUnsigned_print) simp
  moreover have "parseUnsigned ''1'' = Some 1" "parseSigned ''600'' = Some 600"
    by code_simp+
  moreover have "parseSigned (int_to_string kBaseInstant) = Some kBaseInstant"
    by (rule parseSigned_print) (simp add: kBaseInstant_def)
  moreover have "parseSigned (int_to_string windowLow) = Some windowLow"
    "parseSigned (int_to_string windowHigh) = Some windowHigh" if "0 \<le> windowLow" "windowLow < windowHigh"
    using that assms(5) by (simp_all add: parseSigned_print)
  moreover have "ds \<noteq> []"
    using assms(4) by (auto simp: parseDomains_def split: option.splits if_splits)
  ultimately show ?thesis
    using assms(1-4) parseUnsigned_print_u64 [of requestId]
    by (auto simp: clientArgs_def client_option_def with_unsigned_def with_signed_def default_client_def)
qed

section \<open>Reports\<close>

definition one_line :: "string \<Rightarrow> bool" where
  "one_line text \<longleftrightarrow> CHR 0x0A \<notin> set text \<and> CHR 0x0D \<notin> set text"

lemma split_fields_line: "sep \<notin> set xs \<Longrightarrow> split_fields sep (xs @ sep # ys) = xs # split_fields sep ys"
  by (induction xs) auto

lemma text_lines_line:
  assumes "CHR 0x0A \<notin> set line"
  shows "text_lines (line @ s_newline @ rest) = line # text_lines rest"
  using assms by (simp add: text_lines_def s_newline_def split_fields_line Let_def)

lemma read_line_report:
  assumes "CHR ''='' \<notin> set key" and "one_line v"
  shows "read_line_into (key @ ''='' @ v) m = m(key \<mapsto> v)"
proof -
  have "last (key @ CHR ''='' # v) \<noteq> CHR 0x0D"
  proof (cases "v = []")
    case False
    then have "last v \<noteq> CHR 0x0D"
      using assms(2) unfolding one_line_def by (metis last_in_set)
    then show ?thesis
      using False by simp
  qed simp
  then have "strip_cr (key @ CHR ''='' # v) = key @ CHR ''='' # v"
    by (simp add: strip_cr_def)
  moreover have "takeWhile (\<lambda>c. c \<noteq> CHR ''='') (key @ CHR ''='' # v) = key"
    "dropWhile (\<lambda>c. c \<noteq> CHR ''='') (key @ CHR ''='' # v) = CHR ''='' # v"
    using assms(1) by (induction key) auto
  ultimately show ?thesis
    by (simp add: read_line_into_def Let_def)
qed

definition read_lines :: "string \<Rightarrow> (string \<rightharpoonup> string) \<Rightarrow> (string \<rightharpoonup> string)" where
  "read_lines text m = fold read_line_into (text_lines text) m"

lemma read_lines_report:
  assumes "CHR ''='' \<notin> set key" and "one_line key" and "one_line v"
  shows "read_lines (report_line key v @ rest) m = read_lines rest (m(key \<mapsto> v))"
proof -
  have "CHR 0x0A \<notin> set (key @ ''='' @ v)"
    using assms(2,3) by (simp add: one_line_def)
  then show ?thesis
    using text_lines_line [of "key @ ''='' @ v" rest] read_line_report [OF assms(1,3)]
    by (simp add: read_lines_def report_line_def)
qed

lemma read_lines_end [simp]: "read_lines [] m = m"
  by (simp add: read_lines_def text_lines_def)

lemma one_line_number [simp]: "one_line (nat_to_string n)" "one_line (raw_to_string i)"
proof -
  have line: "one_line (nat_to_string n)" for n
    using printed_digits [of n] by (auto simp: one_line_def list_all_iff is_digit_def)
  then show "one_line (nat_to_string n)" "one_line (raw_to_string i)"
    by (simp_all add: raw_to_string_def u64_to_string_def)
qed

lemma one_line_tokens:
  "list_all (\<lambda>p. one_line (snd p)) kStatusCodeTokens" "list_all (\<lambda>p. one_line (snd p)) kAllocationOutcomeTokens"
  by code_simp+

lemma one_line_tokenOf: "list_all (\<lambda>p. one_line (snd p)) table \<Longrightarrow> one_line fb \<Longrightarrow> one_line (tokenOf v table fb)"
  by (induction v table fb rule: tokenOf.induct) simp_all

lemma one_line_token [simp]: "one_line (statusCode_toToken st)" "one_line (outcome_toToken x)"
  unfolding statusCode_toToken_def outcome_toToken_def
  by (rule one_line_tokenOf [OF one_line_tokens(1)], code_simp, rule one_line_tokenOf [OF one_line_tokens(2)], code_simp)

lemma one_line_sanitise [simp]: "one_line (sanitise text)"
  by (auto simp: one_line_def sanitise_def dest!: in_set_takeD)

lemma report_read_back:
  "parseResult (client_report st fence d) =
     (let m = [''transport'' \<mapsto> statusCode_toToken (code st), ''outcome'' \<mapsto> outcome_toToken (dec_outcome d),
        ''reservation'' \<mapsto> raw_to_string (dec_reservation d), ''generation'' \<mapsto> raw_to_string (dec_generation d),
        ''request'' \<mapsto> raw_to_string (exp_reservation (dec_explanation d)),
        ''slots_first'' \<mapsto> nat_to_string (slot_first (cand_slots (exp_selected (dec_explanation d)))),
        ''slots_count'' \<mapsto> nat_to_string (slot_count (cand_slots (exp_selected (dec_explanation d)))),
        ''epoch'' \<mapsto> raw_to_string (epoch fence), ''incarnation'' \<mapsto> raw_to_string (incarnation fence)]
      in case exp_reasons (dec_explanation d) of [] \<Rightarrow> m | x # _ \<Rightarrow> m(''reason'' \<mapsto> sanitise x))"
proof -
  have keys: "CHR ''='' \<notin> set k \<and> one_line k" if "k \<in> {''transport'', ''outcome'', ''reservation'',
      ''generation'', ''request'', ''slots_first'', ''slots_count'', ''epoch'', ''incarnation'', ''reason''}" for k
    using that by (auto simp: one_line_def)
  have reason: "read_lines (report_line ''reason'' (sanitise x)) m = m(''reason'' \<mapsto> sanitise x)" for x m
    using read_lines_report [of "''reason''" "sanitise x" "[]"] keys by simp
  show ?thesis
    unfolding parseResult_def read_lines_def [symmetric] client_report_def
    by (simp add: read_lines_report keys reason Let_def split: list.split)
qed

section \<open>Readiness\<close>

lemma find_text_bound: "find_text sub t = Some i \<Longrightarrow> i + length sub \<le> length t \<and> take (length sub) (drop i t) = sub"
proof (induction t arbitrary: i)
  case (Cons c cs)
  show ?case
  proof (cases "take (length sub) (c # cs) = sub")
    case True
    then have "length sub \<le> length (c # cs)"
      by (metis length_take min.cobounded1)
    then show ?thesis
      using True Cons.prems by simp
  next
    case False
    then obtain j where "find_text sub cs = Some j" "i = Suc j"
      using Cons.prems by auto
    then show ?thesis
      using Cons.IH by auto
  qed
qed (simp split: if_splits)

text \<open>What is found in a part of the output that has been read is found in the whole of it.\<close>

lemma find_text_take: "find_text sub (take k t) = Some i \<Longrightarrow> find_text sub t = Some i"
proof (induction t arbitrary: i k)
  case (Cons c cs)
  have bound: "i + length sub \<le> length (take k (c # cs))"
    using find_text_bound [OF Cons.prems] by blast
  show ?case
  proof (cases k)
    case 0
    then show ?thesis
      using Cons.prems by (simp split: if_splits)
  next
    case (Suc j)
    have "length sub \<le> k"
      using bound by simp
    then have same: "take (length sub) (take k (c # cs)) = take (length sub) (c # cs)"
      by (simp add: min_def)
    show ?thesis
    proof (cases "take (length sub) (c # cs) = sub")
      case True
      then show ?thesis
        using Cons.prems same Suc by simp
    next
      case False
      then obtain l where "find_text sub (take j cs) = Some l" "i = Suc l"
        using Cons.prems same Suc by auto
      then show ?thesis
        using Cons.IH [of j l] False by simp
    qed
  qed
qed simp

lemma find_text_take_None: "find_text sub t = None \<Longrightarrow> find_text sub (take k t) = None"
  by (cases "find_text sub (take k t)") (auto dest: find_text_take)

lemma find_text_miss: "take (length sub) (c # cs) \<noteq> sub \<Longrightarrow> find_text sub (c # cs) = map_option Suc (find_text sub cs)"
  by simp

lemma find_text_step: "sub \<noteq> [] \<Longrightarrow> c \<noteq> hd sub \<Longrightarrow> find_text sub (c # cs) = map_option Suc (find_text sub cs)"
  by (rule find_text_miss) (cases sub; auto)

declare find_text.simps(2) [simp del]

lemma find_text_absent: "sub \<noteq> [] \<Longrightarrow> hd sub \<notin> set t \<Longrightarrow> find_text sub t = None"
  by (induction t) (auto simp: find_text_step)

lemma find_text_skip:
  "sub \<noteq> [] \<Longrightarrow> hd sub \<notin> set xs \<Longrightarrow> find_text sub (xs @ ys) = map_option (\<lambda>i. length xs + i) (find_text sub ys)"
proof (induction xs)
  case Nil
  show ?case
    by (cases "find_text sub ys") simp_all
next
  case (Cons x xs)
  then show ?case
    by (cases "find_text sub ys") (auto simp: find_text_step)
qed

lemma no_letter: "CHR ''R'' \<notin> set (nat_to_string n)" "CHR ''S'' \<notin> set (nat_to_string n)"
  using printed_digits [of n] by (auto simp: list_all_iff is_digit_def)

definition ready_numbers :: "RuntimeState \<Rightarrow> nat \<Rightarrow> string" where
  "ready_numbers s port = nat_to_string port @ '' '' @ raw_to_string (epoch (rs_fence s)) @ '' ''
     @ raw_to_string (incarnation (rs_fence s)) @ s_newline"

lemma ready_line_numbers: "ready_line s port = ''READY '' @ ready_numbers s port"
  by (simp add: ready_line_def ready_numbers_def)

lemma numbers_letters: "CHR ''R'' \<notin> set (ready_numbers s port)" "CHR ''S'' \<notin> set (ready_numbers s port)"
  by (simp_all add: ready_numbers_def raw_to_string_def u64_to_string_def no_letter s_newline_def)

text \<open>The line of a recovery is passed over by both searches.\<close>

definition recovered_rest :: "RecoveryReport \<Rightarrow> string" where
  "recovered_rest report = ''ED reservations='' @ nat_to_string (rec_reservationsRestored report)
     @ '' demoted='' @ nat_to_string (rec_demotedFromActive report) @ s_newline"

lemma recovered_split: "recovered_line report = CHR ''R'' # ''ECOVE'' @ CHR ''R'' # recovered_rest report"
  by (simp add: recovered_line_def recovered_rest_def)

lemma rest_letters: "CHR ''R'' \<notin> set (recovered_rest report)" "CHR ''S'' \<notin> set (recovered_rest report)"
  by (simp_all add: recovered_rest_def no_letter s_newline_def)

lemma recovered_skip:
  assumes "sub = ''READY '' \<or> sub = ''RECOVER-FAILED''"
  shows "find_text sub (recovered_line report @ t) = map_option (\<lambda>i. length (recovered_line report) + i) (find_text sub t)"
proof -
  have sub: "sub \<noteq> []" "hd sub = CHR ''R''"
    using assms by auto
  have first: "take (length sub) (CHR ''R'' # ''ECOVE'' @ CHR ''R'' # recovered_rest report @ t) \<noteq> sub"
    using assms by (auto simp: recovered_rest_def)
  have second: "take (length sub) (CHR ''R'' # recovered_rest report @ t) \<noteq> sub"
    using assms by (auto simp: recovered_rest_def)
  have tail: "find_text sub (CHR ''R'' # recovered_rest report @ t) = map_option (\<lambda>i. Suc (length (recovered_rest report) + i)) (find_text sub t)"
    using find_text_miss [OF second] find_text_skip [OF sub(1), of "recovered_rest report" t] rest_letters(1) sub(2)
    by (simp add: option.map_comp o_def)
  have "find_text sub (''ECOVE'' @ CHR ''R'' # recovered_rest report @ t)
      = map_option (\<lambda>i. Suc (Suc (Suc (Suc (Suc i))))) (find_text sub (CHR ''R'' # recovered_rest report @ t))"
    using find_text_skip [OF sub(1), of "''ECOVE''" "CHR ''R'' # recovered_rest report @ t"] sub(2) by simp
  then show ?thesis
    using find_text_miss [OF first] tail by (simp add: recovered_split option.map_comp o_def)
qed


lemma recovered_text_skip:
  assumes "sub = ''READY '' \<or> sub = ''RECOVER-FAILED''"
  shows "find_text sub (recovered_text recovered @ t) = map_option (\<lambda>i. length (recovered_text recovered) + i) (find_text sub t)"
  using recovered_skip [OF assms]
  by (cases recovered; cases "find_text sub t") (simp_all add: recovered_text_def)

text \<open>In the output of a daemon that serves there is no failure, and \<open>READY\<close> stands where its line begins.\<close>

lemma output_searches:
  fixes recovered :: "RecoveryReport option" and s :: RuntimeState and port :: nat
  defines "w \<equiv> recovered_text recovered @ ready_line s port"
  shows "find_text ''RECOVER-FAILED'' w = None" "find_text ''START-FAILED'' w = None"
    "find_text ''READY '' w = Some (length (recovered_text recovered))"
proof -
  have "take 14 (''READY '' @ ready_numbers s port) \<noteq> ''RECOVER-FAILED''"
    by simp
  then have "find_text ''RECOVER-FAILED'' (CHR ''R'' # ''EADY '' @ ready_numbers s port) = None"
    using find_text_miss [of "''RECOVER-FAILED''" "CHR ''R''" "''EADY '' @ ready_numbers s port"]
      find_text_absent [of "''RECOVER-FAILED''" "''EADY '' @ ready_numbers s port"] numbers_letters(1) by simp
  then show "find_text ''RECOVER-FAILED'' w = None"
    by (simp add: w_def recovered_text_skip ready_line_numbers)
  have "CHR ''S'' \<notin> set (recovered_text recovered)"
    using rest_letters(2) by (cases recovered) (simp_all add: recovered_text_def recovered_split)
  then have "CHR ''S'' \<notin> set w"
    using numbers_letters(2) by (simp add: w_def ready_line_numbers)
  then show "find_text ''START-FAILED'' w = None"
    by (intro find_text_absent) simp_all
  have "find_text ''READY '' (''READY '' @ ready_numbers s port) = Some 0"
    by (simp add: find_text.simps(2))
  then show "find_text ''READY '' w = Some (length (recovered_text recovered))"
    unfolding w_def ready_line_numbers
    using recovered_text_skip [of "''READY ''" recovered "''READY '' @ ready_numbers s port"] by simp
qed

section \<open>The port\<close>

lemma digit_no_space: "is_digit c \<Longrightarrow> \<not> is_space c" "is_digit c \<Longrightarrow> c \<noteq> CHR ''+'' \<and> c \<noteq> CHR ''-''"
  by (auto simp: is_digit_def is_space_def)

text \<open>A number cut off at the end of the text is followed by nothing.\<close>

lemma stream_digits:
  assumes "list_all is_digit ds" and "rest = [] \<or> \<not> is_digit (hd rest)"
  shows "stream_u64 (ds @ rest) = (if ds = [] then stream_u64 rest
    else if digits_value 0 ds \<ge> 2 ^ 64 then None else Some (word_of_nat (digits_value 0 ds), rest))"
proof (cases ds)
  case (Cons c cs)
  have c: "is_digit c" "list_all is_digit cs"
    using assms(1) by (simp_all add: Cons)
  have "dropWhile is_space (ds @ rest) = ds @ rest"
    using digit_no_space(1) [OF c(1)] by (simp add: Cons)
  moreover have "takeWhile is_digit (ds @ rest) = ds" "dropWhile is_digit (ds @ rest) = rest"
  proof -
    have "takeWhile is_digit rest = []" "dropWhile is_digit rest = rest"
      using assms(2) by (cases rest; simp)+
    then show "takeWhile is_digit (ds @ rest) = ds" "dropWhile is_digit (ds @ rest) = rest"
      using assms(1) by (simp_all add: list_all_iff)
  qed
  moreover have "hd (ds @ rest) \<notin> {CHR ''+'', CHR ''-''}"
    using digit_no_space(2) [OF c(1)] by (simp add: Cons)
  ultimately show ?thesis
    by (simp add: stream_u64_def Let_def Cons)
qed simp


lemma stream_nothing [simp]: "stream_u64 [] = None"
  by (simp add: stream_u64_def Let_def)

lemma stream_port:
  assumes "0 < port" and "port \<le> 65535"
  shows "stream_u64 (take j (ready_numbers s port)) = None
    \<or> (\<exists>w. stream_u64 (take j (ready_numbers s port)) = Some (w, []))
    \<or> (\<exists>t. stream_u64 (take j (ready_numbers s port)) = Some (word_of_nat port, t))"
proof -
  define rest where "rest = raw_to_string (epoch (rs_fence s)) @ '' '' @ raw_to_string (incarnation (rs_fence s)) @ s_newline"
  let ?p = "nat_to_string port"
  have split: "ready_numbers s port = ?p @ CHR '' '' # rest"
    by (simp add: ready_numbers_def rest_def)
  show ?thesis
  proof (cases "j \<le> length ?p")
    case True
    have "list_all is_digit (take j ?p)"
      using printed_digits [of port] by (auto simp: list_all_iff dest: in_set_takeD)
    then show ?thesis
      using True stream_digits [of "take j ?p" "[]"] by (auto simp: split)
  next
    case False
    then have cut: "take j (ready_numbers s port) = ?p @ CHR '' '' # take (j - Suc (length ?p)) rest"
      by (simp add: split take_Cons')
    have "\<not> is_digit (CHR '' '')"
      by (simp add: is_digit_def)
    then show ?thesis
      using stream_digits [OF printed_digits, of "CHR '' '' # take (j - Suc (length ?p)) rest" port] assms(2)
      unfolding cut by (auto simp: digits_value_nat_to_string)
  qed
qed

lemma ready_port_take:
  assumes "0 < port" and "port \<le> 65535" and "ready_port (take k (recovered_text recovered @ ready_line s port)) = Some n"
  shows "n = port"
proof -
  let ?w = "recovered_text recovered @ ready_line s port"
  let ?n = "length (recovered_text recovered)"
  obtain i where i: "find_text ''READY '' (take k ?w) = Some i"
    using assms(3) by (auto simp: ready_port_def split: option.splits)
  have at: "i = ?n"
    using find_text_take [OF i] output_searches(3) by simp
  have cut: "drop (i + 6) (take k ?w) = take (k - (?n + 6)) (ready_numbers s port)"
  proof -
    have "drop (?n + 6) ?w = ready_numbers s port"
      by (simp add: ready_line_numbers)
    then show ?thesis
      unfolding at drop_take by simp
  qed
  have port: "unat (word_of_nat port :: u64) = port"
    using assms(2) by (simp add: unat_of_nat)
  show ?thesis
    using assms(3) stream_port [OF assms(1,2), of "k - (?n + 6)" s] i cut port
    by (auto simp: ready_port_def split: option.splits if_splits prod.splits)
qed

lemma stream_space: "stream_u64 (CHR '' '' # t) = stream_u64 t"
  by (simp add: stream_u64_def is_space_def)

lemma stream_number:
  assumes "n < 2 ^ 64" and "\<not> is_digit (hd rest)"
  shows "stream_u64 (nat_to_string n @ rest) = Some (word_of_nat n, rest)"
  using stream_digits [OF printed_digits, of rest n] assms by (simp add: digits_value_nat_to_string)

lemma stream_raw: "\<not> is_digit (hd rest) \<Longrightarrow> stream_u64 (raw_to_string i @ rest) = Some (raw i, rest)"
  using stream_number [of "unat (raw i)" rest] unsigned_less [of "raw i"]
  by (simp add: raw_to_string_def u64_to_string_def)

lemma ready_port_full:
  assumes "0 < port" and "port \<le> 65535"
  shows "ready_port (recovered_text recovered @ ready_line s port) = Some port"
proof -
  have port: "unat (word_of_nat port :: u64) = port"
    using assms(2) by (simp add: unat_of_nat)
  then have word: "(word_of_nat port :: u64) > 0" "(word_of_nat port :: u64) \<le> 65535"
    using assms by (simp_all add: word_gt_0 word_le_nat_alt) (metis unat_0 less_irrefl)
  have space: "\<not> is_digit (CHR '' '')" "\<not> is_digit (hd s_newline)"
    by (simp_all add: is_digit_def s_newline_def)
  have "stream_u64 (ready_numbers s port) = Some (word_of_nat port, CHR '' '' # raw_to_string (epoch (rs_fence s)) @ '' ''
      @ raw_to_string (incarnation (rs_fence s)) @ s_newline)"
    unfolding ready_numbers_def using stream_number [of port] assms(2) space(1) by simp
  moreover have "drop (length (recovered_text recovered) + 6) (recovered_text recovered @ ready_line s port) = ready_numbers s port"
    by (simp add: ready_line_numbers)
  ultimately show ?thesis
    using output_searches(3) [of recovered s port] word port space
    by (simp add: ready_port_def stream_space stream_raw)
qed

section \<open>Waiting for a server\<close>

text \<open>Every attempt has read some part of the output from its beginning.\<close>

definition reads_from :: "Daemon \<Rightarrow> Attempt \<Rightarrow> bool" where
  "reads_from b a \<longleftrightarrow> (\<exists>k. att_text a = take k (daemon_output b))"

lemma ready_loop_serving:
  assumes "b = Serving recovered s pool listener port" and "0 < port" and "port \<le> 65535"
    and "list_all (reads_from b) attempts" and "ready_loop attempts final h = (st, h')"
  shows "st = Ready \<and> hnd_port h' = port
      \<and> (\<exists>a v. a \<in> set attempts \<and> probe a port = Some v \<and> hnd_epoch h' = raw (epoch (srv_fence v))
          \<and> hnd_incarnation h' = raw (incarnation (srv_fence v)))
    \<or> st = Indeterminate \<and> (\<forall>a \<in> set attempts. att_text a = daemon_output b \<longrightarrow> probe a port = None)"
  using assms(4,5)
proof (induction attempts)
  case (Cons a attempts)
  let ?w = "recovered_text recovered @ ready_line s port"
  have out: "daemon_output b = ?w"
    by (simp add: assms(1) daemon_output_def)
  obtain k where k: "att_text a = take k ?w"
    using Cons.prems(1) by (auto simp: reads_from_def out)
  have "find_text ''RECOVER-FAILED'' (att_text a) = None" "find_text ''START-FAILED'' (att_text a) = None"
    unfolding k by (rule find_text_take_None, rule output_searches)+
  note step = this
  show ?case
  proof (cases "attempt_ready a")
    case None
    then have "ready_loop attempts final h = (st, h')"
      using Cons.prems(2) step by simp
    moreover have "probe a port = None" if "att_text a = daemon_output b"
      using None ready_port_full [OF assms(2,3), of recovered s] that
      by (simp add: attempt_ready_def out)
    ultimately show ?thesis
      using Cons.IH Cons.prems(1) by auto
  next
    case (Some pv)
    then obtain v where v: "pv = (port, v)" "probe a port = Some v"
      using ready_port_take [OF assms(2,3), of k recovered s] k
      by (auto simp: attempt_ready_def split: option.splits)
    show ?thesis
      using Cons.prems(2) step Some v by auto
  qed
qed simp

lemma ready_loop_refused:
  assumes "b = RecoverFailed report" and "list_all (reads_from b) attempts" and "ready_loop attempts final h = (st, h')"
  shows "st = StartupRecoverFailed \<or> st = Indeterminate"
  using assms(2,3)
proof (induction attempts)
  case (Cons a attempts)
  obtain t where out: "daemon_output b = ''RECOVER-FAILED'' @ t"
    by (simp add: assms(1) daemon_output_def failed_line_def)
  obtain k where k: "att_text a = take k (''RECOVER-FAILED'' @ t)"
    using Cons.prems(1) by (auto simp: reads_from_def out)
  show ?case
  proof (cases "14 \<le> k")
    case True
    then have "length ''RECOVER-FAILED'' \<le> k"
      by simp
    then have "att_text a = ''RECOVER-FAILED'' @ take (k - length ''RECOVER-FAILED'') t"
      unfolding k take_append by (simp only: take_all)
    then have "find_text ''RECOVER-FAILED'' (att_text a) = Some 0"
      by (simp add: find_text.simps(2) del: take_append)
    then show ?thesis
      using Cons.prems(2) by auto
  next
    case False
    then have "k \<le> length ''RECOVER-FAILED''"
      by simp
    then have part: "att_text a = take k ''RECOVER-FAILED''"
      unfolding k take_append by simp
    have "find_text ''START-FAILED'' ''RECOVER-FAILED'' = None" "find_text ''READY '' ''RECOVER-FAILED'' = None"
      by code_simp+
    then have "find_text ''START-FAILED'' (att_text a) = None" "find_text ''READY '' (att_text a) = None"
      unfolding part by (simp_all only: find_text_take_None)
    then have "ready_loop (a # attempts) final h = (if find_text ''RECOVER-FAILED'' (att_text a) \<noteq> None
        then (StartupRecoverFailed, h\<lparr>hnd_output := att_text a\<rparr>) else ready_loop attempts final h)"
      by (simp add: attempt_ready_def ready_port_def)
    then show ?thesis
      using Cons by (cases "find_text ''RECOVER-FAILED'' (att_text a)") auto
  qed
qed simp

section \<open>Tokens and numbers are read back\<close>

lemma raw_read: "parseU64 (raw_to_string i) = Some (raw i)"
  by (simp add: raw_to_string_def parseU64_print)

lemma statusCode_read: "statusCodeFromToken (statusCode_toToken c) = c"
  by (simp add: statusCodeFromToken_def statusCode_toToken_def status_tokens.value_of_token)

lemma outcome_read: "allocationOutcomeFromToken (outcome_toToken x) = x"
  by (simp add: allocationOutcomeFromToken_def outcome_toToken_def outcome_tokens.value_of_token)

text \<open>The check for zero slots is made before the number is cut to 32 bits.\<close>

lemma slots_cut: "client_option ''--slots'' ''4294967296'' d = Some (d\<lparr>mpo_slots := 0\<rparr>)"
proof -
  have "parseUnsigned ''4294967296'' = Some 4294967296"
    by code_simp
  then show ?thesis
    by (simp add: client_option_def)
qed

end
