(* ===== verification/Remote_Facts.thy ===== *)
theory Remote_Facts
  imports Client
begin

text \<open>
  What travels is what was meant. A request whose payload does not decode changes nothing; every
  other request acts on the runtime as one of its operations, or not at all; and a client whose
  frames arrive gets exactly the status and the data the server's dispatch produced.
\<close>

section \<open>Requests as operations\<close>

text \<open>The payloads an operation takes.\<close>

fun accepts :: "OpCode \<Rightarrow> u8 list \<Rightarrow> bool" where
  "accepts OpRegisterGrid p = (decode_whole decode_grid p \<noteq> None)"
| "accepts OpRegisterSpan p = (decode_whole decode_span p \<noteq> None)"
| "accepts OpRegisterPort p = (decode_whole decode_port p \<noteq> None)"
| "accepts OpRegisterDomain p = (decode_whole decode_domain p \<noteq> None)"
| "accepts OpRegisterExclusionDomain p = (decode_whole decode_exclusion p \<noteq> None)"
| "accepts OpPublishCapability p = (decode_whole decode_capability p \<noteq> None)"
| "accepts OpEnumerate p = (decode_whole decode_request p \<noteq> None)"
| "accepts OpExplain p = (decode_whole decode_request p \<noteq> None)"
| "accepts OpAllocate p = (decode_whole decode_request p \<noteq> None)"
| "accepts OpRenew p = (decode_whole readRenewArgs p \<noteq> None)"
| "accepts OpActivate p = (decode_whole readActivateArgs p \<noteq> None)"
| "accepts OpDeactivate p = (decode_whole readActivateArgs p \<noteq> None)"
| "accepts OpRelease p = (decode_whole readReleaseArgs p \<noteq> None)"
| "accepts OpExpireLeases p = (decode_whole readSweepArgs p \<noteq> None)"
| "accepts OpReclaimExpired p = (decode_whole readSweepArgs p \<noteq> None)"
| "accepts OpQueryReservation p = (decode_whole (rd_id :: ReservationId Reader) p \<noteq> None)"
| "accepts OpQueryUsage p = (decode_whole usage_args p \<noteq> None)"
| "accepts OpQueryUsageAll p = (decode_whole readSweepArgs p \<noteq> None)"
| "accepts OpQueryAudit p = (decode_whole readAuditArgs p \<noteq> None)"
| "accepts _ p = (p = [])"

definition untouched_reply :: "RuntimeState \<Rightarrow> Dispatched \<Rightarrow> bool" where
  "untouched_reply s d = (case d of (s', status, reply, shutdown) \<Rightarrow>
     s' = s \<and> \<not> status_ok status \<and> reply = [] \<and> \<not> shutdown)"

lemma dispatch_malformed:
  assumes "\<not> accepts op payload"
  shows "untouched_reply s (dispatch h between c op payload s)"
  using assms
  by (cases op) (auto simp: dispatch.simps with_payload_def no_payload_def answered_def untouched_reply_def
      split: option.splits)

text \<open>
  The operation a request asks for, if it asks for one, and the state it leads to: that operation of
  the runtime, and then whatever the other connections did during the calls that only read.
\<close>

fun requested :: "OpCode \<Rightarrow> u8 list \<Rightarrow> (Instant \<times> Operation) option" where
  "requested OpRegisterGrid p = map_option (\<lambda>x. (0, RegisterGrid x)) (decode_whole decode_grid p)"
| "requested OpRegisterSpan p = map_option (\<lambda>x. (0, RegisterSpan x)) (decode_whole decode_span p)"
| "requested OpRegisterPort p = map_option (\<lambda>x. (0, RegisterPort x)) (decode_whole decode_port p)"
| "requested OpRegisterDomain p = map_option (\<lambda>x. (0, RegisterDomain x)) (decode_whole decode_domain p)"
| "requested OpRegisterExclusionDomain p =
     map_option (\<lambda>x. (0, RegisterExclusion x)) (decode_whole decode_exclusion p)"
| "requested OpPublishCapability p =
     map_option (\<lambda>x. (0, PublishCapability x)) (decode_whole decode_capability p)"
| "requested OpAllocate p = map_option (\<lambda>r. (0, Allocate r)) (decode_whole decode_request p)"
| "requested OpRenew p = map_option (\<lambda>a. (ren_now a, Renew (ren_id a) (ren_generation a) (ren_extension a)
     (ren_authority a) (ren_maxRenewals a))) (decode_whole readRenewArgs p)"
| "requested OpActivate p = map_option (\<lambda>a. (act_now a, Activate (act_id a) (act_generation a) (act_authority a)))
     (decode_whole readActivateArgs p)"
| "requested OpDeactivate p = map_option (\<lambda>a. (act_now a, Deactivate (act_id a) (act_generation a) (act_authority a)))
     (decode_whole readActivateArgs p)"
| "requested OpRelease p = map_option (\<lambda>a. (rel_now a, Release (rel_id a) (rel_generation a) (rel_authority a)))
     (decode_whole readReleaseArgs p)"
| "requested OpExpireLeases p = map_option (\<lambda>a. (swp_now a, ExpireLeases)) (decode_whole readSweepArgs p)"
| "requested OpReclaimExpired p = map_option (\<lambda>a. (swp_now a, ReclaimExpired)) (decode_whole readSweepArgs p)"
| "requested OpSave p = (if p = [] then Some (0, SaveState) else None)"
| "requested OpReset p = (if p = [] then Some (0, ResetAll) else None)"
| "requested _ p = None"

definition requested_state :: "Host \<Rightarrow> OpCode \<Rightarrow> u8 list \<Rightarrow> RuntimeState \<Rightarrow> RuntimeState" where
  "requested_state h op p s = (case requested op p of None \<Rightarrow> s | Some (now, action) \<Rightarrow> perform h now action s)"

definition later :: "(RuntimeState \<Rightarrow> RuntimeState) \<Rightarrow> RuntimeState \<Rightarrow> RuntimeState \<Rightarrow> bool" where
  "later between s s' \<longleftrightarrow> (\<exists>n. s' = (between ^^ n) s)"

lemma later_refl [simp]: "later between s s"
  unfolding later_def by (intro exI [of _ 0]) simp

lemma later_between: "later between s s' \<Longrightarrow> later between s (between s')"
  unfolding later_def by (metis comp_apply funpow.simps(2))

lemma count_capabilities_state:
  "later between s t \<Longrightarrow> later between s (snd (count_capabilities between ds t))"
proof -
  let ?f = "\<lambda>d (n, s). let s1 = between s in (if capability_query s1 (dom_id d) \<noteq> None then Suc n else n, s1)"
  have "later between s (snd nt) \<Longrightarrow> later between s (snd (fold ?f ds nt))" for nt
  proof (induction ds arbitrary: nt)
    case (Cons d ds)
    have "later between s (snd (?f d nt))"
      using Cons.prems later_between by (simp add: case_prod_unfold Let_def)
    then show ?case
      using Cons.IH by simp
  qed simp
  then show "later between s t \<Longrightarrow> later between s (snd (count_capabilities between ds t))"
    by (simp add: count_capabilities_def)
qed

lemma describe_state: "later between s (snd (describe between s))"
  unfolding describe_def Let_def case_prod_unfold snd_conv
  by (intro later_between count_capabilities_state later_refl)

lemma then_reservation_state: "later between (fst result) (fst (then_reservation between i result))"
  by (auto simp: then_reservation_def answered_def replied_def Let_def later_between
      split: prod.splits option.splits)

lemma dispatch_steps: "later between (requested_state h op payload s) (fst (dispatch h between c op payload s))"
proof (cases "accepts op payload")
  case False
  then have "fst (dispatch h between c op payload s) = s"
    using dispatch_malformed [OF False, of s h between c] by (auto simp: untouched_reply_def)
  moreover have "requested op payload = None"
    using False by (cases op) auto
  ultimately show ?thesis
    by (simp add: requested_state_def)
next
  case True
  note unfold = requested_state_def dispatch.simps with_payload_def no_payload_def answered_def replied_def
    Let_def case_prod_unfold
  show ?thesis
  proof (cases op)
    case OpDescribe
    then show ?thesis
      using True describe_state by (simp add: unfold)
  qed (use True in \<open>auto simp: unfold then_reservation_state split: option.splits prod.splits\<close>)
qed

section \<open>A call arrives\<close>

definition request_frame :: "OpCode \<Rightarrow> u8 list \<Rightarrow> SpectrumClient \<Rightarrow> Frame" where
  "request_frame op payload c = \<lparr>frame_op = op, frame_requestId = cli_nextRequestId c, frame_payload = payload\<rparr>"

text \<open>
  The delivery of a call: the client's frame was sent, the server found its bytes at the front of
  its stream and answered it, and the answer is at the front of the client's stream.
\<close>

definition delivered ::
    "Environment \<Rightarrow> ServerConfig \<Rightarrow> nat \<Rightarrow> OpCode \<Rightarrow> u8 list \<Rightarrow> SpectrumClient \<Rightarrow> Connection \<Rightarrow> Connection \<Rightarrow> bool" where
  "delivered env cfg i op payload c n n' \<longleftrightarrow>
     (\<exists>request answer unread rest.
        status_ok (snd (writeFrame (cli_socket c) (request_frame op payload c) (cli_maxPayloadBytes c)))
      \<and> sock_sent (fst (writeFrame (cli_socket c) (request_frame op payload c) (cli_maxPayloadBytes c)))
          = sock_sent (cli_socket c) @ request
      \<and> stream (con_socket n) = request @ unread
      \<and> serve_frame env cfg i n = (n', True)
      \<and> sock_sent (con_socket n') = sock_sent (con_socket n) @ answer
      \<and> stream (cli_socket c) = answer @ rest)"

lemma frame_bytes_empty: "frame_bytes f \<noteq> []"
  using frame_bytes_prefix [of f] by (metis append_is_Nil_conv list.size(3) zero_neq_numeral)

lemma serve_frame_answers:
  assumes "sock_valid (con_socket n)" and "stream (con_socket n) = frame_bytes f @ unread"
    and "frame_fits (scf_maxPayloadBytes cfg) f" and "serve_frame env cfg i n = (n', True)"
    and "dispatch (env_host env i) (env_between env i) cfg (frame_op f) (frame_payload f)
      (env_before env i (con_state n)) = (s1, status, reply, shutdown)"
  shows "con_state n' = s1" and "\<not> shutdown"
    and "sock_sent (con_socket n') = sock_sent (con_socket n)
      @ frame_bytes \<lparr>frame_op = frame_op f, frame_requestId = frame_requestId f, frame_payload = envelope status reply\<rparr>"
    and "frame_fits (scf_maxPayloadBytes cfg)
      \<lparr>frame_op = frame_op f, frame_requestId = frame_requestId f, frame_payload = envelope status reply\<rparr>"
proof -
  obtain k1 where k1: "readFrame (con_socket n) (scf_maxPayloadBytes cfg) = (k1, Inr f)"
    "sock_sent k1 = sock_sent (con_socket n)"
    by (rule readFrame_arrives [OF assms(1-3)])
  let ?reply = "\<lparr>frame_op = frame_op f, frame_requestId = frame_requestId f, frame_payload = envelope status reply\<rparr>"
  obtain k2 written where reply: "writeFrame k1 ?reply (scf_maxPayloadBytes cfg) = (k2, written)"
    by fastforce
  have out: "status_ok written" "\<not> shutdown" "con_state n' = s1" "con_socket n' = k2"
    using assms(4,5) k1 reply by (auto simp: serve_frame_def Let_def split: if_splits)
  show "con_state n' = s1" "\<not> shutdown" "frame_fits (scf_maxPayloadBytes cfg) ?reply"
    "sock_sent (con_socket n') = sock_sent (con_socket n) @ frame_bytes ?reply"
    using out writeFrame_sent [OF reply out(1)] k1(2) by simp_all
qed

lemma call_returns:
  assumes "writeFrame (cli_socket c) (request_frame op payload c) (cli_maxPayloadBytes c) = (k1, written)"
    and "status_ok written" and "sock_valid (cli_socket c)"
    and "stream (cli_socket c) = frame_bytes \<lparr>frame_op = op, frame_requestId = cli_nextRequestId c,
      frame_payload = envelope status reply\<rparr> @ rest"
    and "frame_fits (cli_maxPayloadBytes c) \<lparr>frame_op = op, frame_requestId = cli_nextRequestId c,
      frame_payload = envelope status reply\<rparr>"
    and "storable_status status"
  obtains c' where "call op payload c = (c', status, reply)" "sock_valid (cli_socket c')"
    "stream (cli_socket c') = rest" "cli_nextRequestId c' = cli_nextRequestId c + 1"
proof -
  have k1: "sock_valid k1" "stream k1 = stream (cli_socket c)"
    using writeFrame_sent [OF assms(1,2)] assms(3) by simp_all
  obtain k2 where k2: "readFrame k1 (cli_maxPayloadBytes c) = (k2, Inr \<lparr>frame_op = op,
      frame_requestId = cli_nextRequestId c, frame_payload = envelope status reply\<rparr>)" "sock_valid k2" "stream k2 = rest"
    by (rule readFrame_arrives [OF k1(1) _ assms(5)]) (use k1(2) assms(4) in auto)
  have "call op payload c = (c\<lparr>cli_nextRequestId := cli_nextRequestId c + 1, cli_socket := k2\<rparr>, status, reply)"
    using assms(1-3) k2(1) by (simp add: call_def request_frame_def decode_envelope [OF assms(6)])
  then show ?thesis
    using that k2 by simp
qed

text \<open>The call of a client returns what the server's dispatch produced.\<close>

lemma remote_call:
  assumes "delivered env cfg i op payload c n n'" and "sock_valid (cli_socket c)" and "sock_valid (con_socket n)"
    and "cli_maxPayloadBytes c = scf_maxPayloadBytes cfg"
    and "dispatch (env_host env i) (env_between env i) cfg op payload (env_before env i (con_state n))
      = (s1, status, reply, shutdown)"
    and "storable_status status"
  obtains c' where "call op payload c = (c', status, reply)" "con_state n' = s1" "sock_valid (cli_socket c')"
    "cli_nextRequestId c' = cli_nextRequestId c + 1"
proof -
  let ?f = "request_frame op payload c"
  obtain k1 written where w: "writeFrame (cli_socket c) ?f (cli_maxPayloadBytes c) = (k1, written)"
    by fastforce
  obtain request answer unread rest where d: "status_ok written" "sock_sent k1 = sock_sent (cli_socket c) @ request"
    "stream (con_socket n) = request @ unread" "serve_frame env cfg i n = (n', True)"
    "sock_sent (con_socket n') = sock_sent (con_socket n) @ answer" "stream (cli_socket c) = answer @ rest"
    using assms(1) w by (auto simp: delivered_def)
  have sent: "request = frame_bytes ?f" "frame_fits (cli_maxPayloadBytes c) ?f"
    using writeFrame_sent [OF w d(1)] d(2) by simp_all
  let ?reply = "\<lparr>frame_op = op, frame_requestId = cli_nextRequestId c, frame_payload = envelope status reply\<rparr>"
  have served: "con_state n' = s1" "sock_sent (con_socket n') = sock_sent (con_socket n) @ frame_bytes ?reply"
    "frame_fits (scf_maxPayloadBytes cfg) ?reply"
    using serve_frame_answers [OF assms(3) _ _ d(4), of ?f unread s1 status reply shutdown] d(3) sent assms(4,5)
    by (simp_all add: request_frame_def)
  obtain c' where "call op payload c = (c', status, reply)" "sock_valid (cli_socket c')"
    "cli_nextRequestId c' = cli_nextRequestId c + 1"
    by (rule call_returns [OF w d(1) assms(2) _ _ assms(6), of reply rest]) (use d(5,6) served assms(4) in auto)
  then show ?thesis
    using that served(1) by blast
qed

text \<open>An allocation by a client is the runtime's allocation: the decision arrives as it was taken.\<close>

lemma remote_allocation:
  assumes "delivered env cfg i OpAllocate (payload_of (encode_request r)) c n n'"
    and "sock_valid (cli_socket c)" and "sock_valid (con_socket n)" and "cli_maxPayloadBytes c = scf_maxPayloadBytes cfg"
    and "storable_request r" and "\<not> enc_overflowed (encode_request r new_encoder)"
    and "allocate (env_host env i) r (env_before env i (con_state n)) = (s1, d)"
    and "storable_decision d" and "\<not> enc_overflowed (encode_decision d new_encoder)"
  shows "\<exists>c'. client_allocate r c = (c', dec_status d, Some d) \<and> sock_valid (cli_socket c') \<and> con_state n' = s1"
proof -
  have request: "decode_whole decode_request (payload_of (encode_request r)) = Some r"
    using requests.read_back [OF assms(5,6)] by (simp add: decode_whole_def payload_of_def)
  have decision: "decode_whole decode_decision (payload_of (encode_decision d)) = Some d"
    using decisions.read_back [OF assms(8,9)] by (simp add: decode_whole_def payload_of_def)
  have "dispatch (env_host env i) (env_between env i) cfg OpAllocate (payload_of (encode_request r))
      (env_before env i (con_state n)) = (s1, dec_status d, payload_of (encode_decision d), False)"
    by (simp add: dispatch.simps with_payload_def request assms(7))
  then obtain c' where "call OpAllocate (payload_of (encode_request r)) c
      = (c', dec_status d, payload_of (encode_decision d))" "con_state n' = s1" "sock_valid (cli_socket c')"
    using remote_call [OF assms(1-4)] assms(8) unfolding storable_decision_def by blast
  then show ?thesis
    by (simp add: client_allocate_def decision)
qed

section \<open>A working connection\<close>

text \<open>
  Sockets over which the next frame arrives in one segment and two frames can be sent: with them, a
  call whose frames fit the bounds is delivered.
\<close>

definition wire :: "u8 list \<Rightarrow> Socket" where
  "wire bs = \<lparr>sock_valid = True, sock_sends = [Sent 5000000, Sent 5000000], sock_recvs = [Received bs],
     sock_sent = []\<rparr>"

lemma wire_stream [simp]: "sock_valid (wire bs)" "stream (wire bs) = bs" "sock_sent (wire bs) = []"
  by (simp_all add: wire_def stream_def)

lemma wire_sends: "sock_sends (wire bs) = [Sent 5000000, Sent 5000000]"
  by (simp add: wire_def)

lemma send_loop_whole: "length data \<le> n \<Longrightarrow> data \<noteq> [] \<Longrightarrow> send_loop (Sent n # as) data = (data, as, okStatus)"
  by (cases data) simp_all

lemma writeFrame_works:
  assumes "sock_valid k" and "sock_sends k = [Sent 5000000, Sent 5000000]" and "frame_fits m f"
  shows "status_ok (snd (writeFrame k f m))"
proof -
  have sizes: "length (frame_prefix f) = 24" "frame_prefix f \<noteq> []" "length (frame_payload f) \<le> 4194304"
    using assms(3) frame_bytes_prefix(2) [of f] by (auto simp: frame_fits_def kMaxFramePayloadBytes_def)
  have "sendAll k (frame_prefix f) = (k\<lparr>sock_sends := [Sent 5000000], sock_sent := sock_sent k @ frame_prefix f\<rparr>, okStatus)"
    using assms(1,2) sizes(1,2) by (simp add: sendAll_def send_loop_whole kMaxTransferBytes_def)
  then show ?thesis
    using assms(1,3) sizes(3)
    by (simp add: writeFrame_def frame_header_written frame_fits_def sendAll_def send_loop_whole kMaxTransferBytes_def)
qed

definition calling :: "nat \<Rightarrow> u8 list \<Rightarrow> SpectrumClient" where
  "calling m incoming_bytes = \<lparr>cli_socket = wire incoming_bytes, cli_maxPayloadBytes = m, cli_nextRequestId = 1\<rparr>"

definition serving :: "RuntimeState \<Rightarrow> u8 list \<Rightarrow> Connection" where
  "serving s incoming_bytes = \<lparr>con_socket = wire incoming_bytes, con_state = s, con_served = 0, con_rejected = 0,
     con_stopping = False\<rparr>"

definition reply_frame :: "OpCode \<Rightarrow> Status \<Rightarrow> u8 list \<Rightarrow> Frame" where
  "reply_frame op status reply = \<lparr>frame_op = op, frame_requestId = 1, frame_payload = envelope status reply\<rparr>"

definition asking_frame :: "OpCode \<Rightarrow> u8 list \<Rightarrow> Frame" where
  "asking_frame op payload = \<lparr>frame_op = op, frame_requestId = 1, frame_payload = payload\<rparr>"

lemma wire_delivers:
  assumes "dispatch (env_host env i) (env_between env i) cfg op payload (env_before env i s) = (s1, status, reply, False)"
    and "frame_fits (scf_maxPayloadBytes cfg) (asking_frame op payload)"
    and "frame_fits (scf_maxPayloadBytes cfg) (reply_frame op status reply)"
  shows "\<exists>n'. delivered env cfg i op payload
    (calling (scf_maxPayloadBytes cfg) (frame_bytes (reply_frame op status reply)))
    (serving s (frame_bytes (asking_frame op payload))) n'"
proof -
  let ?m = "scf_maxPayloadBytes cfg" and ?f = "asking_frame op payload" and ?g = "reply_frame op status reply"
  let ?c = "calling ?m (frame_bytes ?g)" and ?n = "serving s (frame_bytes ?f)"
  have f: "request_frame op payload ?c = ?f"
    by (simp add: request_frame_def calling_def asking_frame_def)
  obtain k1 written where w: "writeFrame (wire (frame_bytes ?g)) ?f ?m = (k1, written)"
    by fastforce
  have sent: "status_ok written" "sock_sent k1 = frame_bytes ?f"
    using writeFrame_works [of "wire (frame_bytes ?g)" ?m ?f] writeFrame_sent(1) [OF w] assms(2) w
    by (simp_all add: wire_def)
  obtain k2 where k2: "readFrame (wire (frame_bytes ?f)) ?m = (k2, Inr ?f)" "sock_valid k2" "stream k2 = []"
    "sock_sends k2 = [Sent 5000000, Sent 5000000]" "sock_sent k2 = []"
    by (rule readFrame_arrives [of "wire (frame_bytes ?f)" ?f "[]" ?m]) (use assms(2) in \<open>auto simp: wire_sends\<close>)
  obtain k3 answered where k3: "writeFrame k2 ?g ?m = (k3, answered)"
    by fastforce
  have answer: "status_ok answered" "sock_sent k3 = frame_bytes ?g"
    using writeFrame_works [OF k2(2,4) assms(3)] writeFrame_sent(1) [OF k3] k3 k2(5) by simp_all
  have "serve_frame env cfg i ?n = (?n\<lparr>con_state := s1, con_served := 1, con_socket := k3\<rparr>, True)"
    using k2(1) k3 answer(1) assms(1)
    by (simp add: serve_frame_def serving_def asking_frame_def reply_frame_def Let_def)
  then show ?thesis
    unfolding delivered_def f using w sent answer
    by (intro exI [of _ "?n\<lparr>con_state := s1, con_served := 1, con_socket := k3\<rparr>"] exI [of _ "frame_bytes ?f"]
        exI [of _ "frame_bytes ?g"] exI [of _ "[]"]) (simp add: calling_def serving_def)
qed

end
