(* ===== verification/Remote_Scenario.thy ===== *)
theory Remote_Scenario
  imports Remote_Facts Worker_Pool Scenario
begin

text \<open>
  The running example behind a server: the scene with its registered grid, and a client whose
  request for two slots travels over a working connection.
\<close>

definition demo_environment :: Environment where
  "demo_environment = \<lparr>env_host = (\<lambda>_. demo_host), env_before = (\<lambda>_ s. s), env_between = (\<lambda>_ s. s),
     env_stop = (\<lambda>_. False)\<rparr>"

definition demo_server :: ServerConfig where
  "demo_server = SpectrumServer \<lparr>scf_address = ''127.0.0.1'', scf_port = 0, scf_maxConnections = 64,
     scf_workerThreads = 4, scf_maxPayloadBytes = kMaxFramePayloadBytes, scf_backlog = 16,
     scf_acceptPollMillis = 50, scf_allowShutdownOp = True\<rparr>"

lemma demo_server_bound [simp]: "scf_maxPayloadBytes demo_server = kMaxFramePayloadBytes"
  by (simp add: demo_server_def SpectrumServer_def Let_def)

lemma demo_environment_fields [simp]:
  "env_host demo_environment i = demo_host" "env_before demo_environment i s = s" "env_between demo_environment i s = s"
  by (simp_all add: demo_environment_def)

definition demo_decision :: AllocationDecision where
  "demo_decision = snd (allocate demo_host demo_request demo_state)"

lemma demo_decides: "allocate demo_host demo_request demo_state = (demo_allocated, demo_decision)"
  by (simp add: demo_allocated_def demo_decision_def)

lemma demo_decision_travels:
  "case allocate demo_host demo_request demo_state of (s, d) \<Rightarrow>
     status_ok (dec_status d) \<and> dec_outcome d = Allocated \<and> storable_decision d
     \<and> \<not> enc_overflowed (encode_decision d new_encoder)
     \<and> length (envelope (dec_status d) (payload_of (encode_decision d))) \<le> kMaxFramePayloadBytes"
  by code_simp

lemma demo_request_travels:
  "storable_request demo_request" "\<not> enc_overflowed (encode_request demo_request new_encoder)"
  "length (payload_of (encode_request demo_request)) \<le> kMaxFramePayloadBytes"
  by code_simp+

lemma demo_dispatched:
  "dispatch demo_host (env_between demo_environment 0) demo_server OpAllocate (payload_of (encode_request demo_request))
     demo_state = (demo_allocated, dec_status demo_decision, payload_of (encode_decision demo_decision), False)"
proof -
  have "decode_whole decode_request (payload_of (encode_request demo_request)) = Some demo_request"
    using requests.read_back [OF demo_request_travels(1,2)] by (simp add: decode_whole_def payload_of_def)
  then show ?thesis
    by (simp add: dispatch.simps with_payload_def demo_decides)
qed

lemma demo_delivered:
  "\<exists>n'. delivered demo_environment demo_server 0 OpAllocate (payload_of (encode_request demo_request))
     (calling kMaxFramePayloadBytes
       (frame_bytes (reply_frame OpAllocate (dec_status demo_decision) (payload_of (encode_decision demo_decision)))))
     (serving demo_state (frame_bytes (asking_frame OpAllocate (payload_of (encode_request demo_request))))) n'"
proof -
  note fits = demo_decision_travels [unfolded demo_decides prod.case]
  show ?thesis
    using wire_delivers [of demo_environment 0 demo_server OpAllocate "payload_of (encode_request demo_request)" demo_state
        demo_allocated "dec_status demo_decision" "payload_of (encode_decision demo_decision)"]
      demo_dispatched fits demo_request_travels(3)
    by (simp add: frame_fits_def asking_frame_def reply_frame_def)
qed

text \<open>The server with a single worker, started on a listening socket.\<close>

definition demo_single :: ServerConfig where
  "demo_single = demo_server\<lparr>scf_workerThreads := 1\<rparr>"

definition demo_listening :: ListenOs where
  "demo_listening = \<lparr>los_literal = True, los_ready = okStatus, los_socket = Inr (wire []), los_reuse = None,
     los_bind = None, los_listen = (\<lambda>_. None), los_name = Inr 7000\<rparr>"

definition demo_accepting :: AcceptOs where
  "demo_accepting = \<lparr>aos_select = (\<lambda>_. SelectReady), aos_accept = Inr (wire []), aos_peer = None\<rparr>"

definition demo_pool :: Pool where
  "demo_pool = \<lparr>pool_config = demo_single, pool_pending = [], pool_stopping = False, pool_active = 0, pool_peak = 0,
     pool_workers = [Testing], pool_acceptor = Looping, pool_stops = 0, pool_admitted = [], pool_taken = [],
     pool_finished = []\<rparr>"

lemma demo_started: "start False okStatus demo_listening (SpectrumServer demo_single) = Inr (demo_pool, wire [], 7000)"
  by (simp add: start_def demo_single_def demo_server_def SpectrumServer_def listenTcp_def demo_listening_def
      demo_pool_def Let_def)

lemma demo_pool_reached: "pool_reach demo_pool"
  by (rule pool_reach.started [OF demo_started])

lemma demo_accepts: "acceptTcp (wire []) n demo_accepting = Inr (wire [], ''unknown'')"
  by (simp add: acceptTcp_def demo_accepting_def peer_text_def s_peer_unknown_def)

end
