(* ===== verification/Restart_Scenario.thy ===== *)
theory Restart_Scenario
  imports Restart Scenario
begin

text \<open>
  The running example with a restart: the allocated reservation is activated, a second domain is
  registered that excludes the first, and the state is saved and recovered by a fresh runtime.
\<close>

definition demo_activation :: ActivationAuthority where
  "demo_activation = \<lparr>tok_generation = StrongValue 1, tok_fence = demo_fence\<rparr>"

definition demo_sibling :: SpectrumDomain where
  "demo_sibling = demo_domain\<lparr>dom_id := StrongValue 2\<rparr>"

definition demo_exclusion :: ExclusionDomain where
  "demo_exclusion = \<lparr>exc_id = StrongValue 1, exc_generation = StrongValue 1, exc_label = [],
     exc_members = [StrongValue 1, StrongValue 2], exc_guardBandMhz = 0\<rparr>"

definition demo_active :: RuntimeState where
  "demo_active = fst (activate demo_host (StrongValue 1) (StrongValue 1) demo_activation 11 demo_allocated)"

definition demo_shared :: RuntimeState where
  "demo_shared = (let s = fst (registerExclusionDomain 13 demo_exclusion
       (fst (registerDomain 12 demo_sibling demo_active)))
     in s\<lparr>rs_config := (rs_config s)\<lparr>cfg_statePath := ''p''\<rparr>\<rparr>)"

lemma demo_shared_facts:
  "case (demo_shared, ()) of (s, _) \<Rightarrow> storable_state s \<and> consistent s
     \<and> 1 + length (rs_grids s) + length (rs_spans s) + length (rs_ports s) + length (rs_domains s)
       + length (rs_exclusionDomains s) + length (rs_capabilities s) + length (rs_reservations s)
       + length (rs_audit s) \<le> 1000
     \<and> raw (epoch (rs_fence s)) + 1 \<le> kMaxFenceValue
     \<and> cfg_statePath (rs_config s) = ''p'' \<and> cfg_maxStateBytes (rs_config s) = 268435456
     \<and> map_option res_state (map_of (rs_reservations s) (StrongValue 1)) = Some Active
     \<and> siblings s (StrongValue 2) = [(StrongValue 1, 0, StrongValue 1)]"
  by code_simp

text \<open>A host whose file system works, the runtime after the save, and a runtime started afresh.\<close>

definition demo_disk :: Host where
  "demo_disk = (let bytes = (case encodeState demo_shared of Inr bytes \<Rightarrow> bytes | Inl _ \<Rightarrow> [])
     in \<lparr>host_now = 14, host_io = \<lparr>io_open = True, io_written = length bytes, io_close = True,
          io_rename = None\<rparr>\<rparr>)"

definition demo_restarted :: RuntimeState where
  "demo_restarted = SpectrumRuntime (rs_config demo_shared) 8 15 (rs_disk (fst (save demo_disk demo_shared)))"

definition demo_reads :: ReadIo where
  "demo_reads = \<lparr>rio_exists = True, rio_sizeError = None, rio_open = True,
     rio_gcount = length (the (rs_disk demo_restarted ''p''))\<rparr>"

lemma demo_saves: "status_ok (snd (save demo_disk demo_shared))"
proof -
  have ok: "storable_state demo_shared" "length (state_payloads demo_shared) \<le> 1000"
    "cfg_statePath (rs_config demo_shared) = ''p''" "cfg_maxStateBytes (rs_config demo_shared) = 268435456"
    using demo_shared_facts unfolding length_state_payloads by simp_all
  obtain bytes where bytes: "encodeState demo_shared = Inr bytes"
    using encodeState_returns [OF ok(1,2)] by blast
  have "length bytes \<le> 67108928"
    using encodeState_length [OF ok(1) bytes] by (simp add: kMaxBufferBytes_def)
  then show ?thesis
    by (simp add: save_def saveLocked_def ok(3,4) bytes demo_disk_def writeStateFile_def)
qed

text \<open>The fresh runtime has the configuration and the file, and no exclusion index.\<close>

lemma demo_restarted_fields:
  "cfg_statePath (rs_config demo_restarted) = cfg_statePath (rs_config demo_shared)"
  "cfg_maxStateBytes (rs_config demo_restarted) = cfg_maxStateBytes (rs_config demo_shared)"
  "rs_disk demo_restarted = rs_disk (fst (save demo_disk demo_shared))"
  "rs_domainExclusions demo_restarted = []"
  by (simp_all add: demo_restarted_def SpectrumRuntime_def Let_def normalise_config_def)

lemma demo_reads_all: "reads_all demo_reads (the (rs_disk demo_restarted (cfg_statePath (rs_config demo_restarted))))"
  using demo_shared_facts by (simp add: reads_all_def demo_reads_def demo_restarted_fields(1))

lemma demo_recovers:
  "rec_status (snd (recover 20 demo_reads 8 demo_restarted)) = okStatus
   \<and> restored 20 8 demo_shared (fst (recover 20 demo_reads 8 demo_restarted))"
proof -
  have facts: "storable_state demo_shared" "consistent demo_shared"
    "raw (epoch (rs_fence demo_shared)) + 1 \<le> kMaxFenceValue"
    using demo_shared_facts by simp_all
  obtain r' report where "recover 20 demo_reads 8 demo_restarted = (r', report)"
    "rec_status report = okStatus" "restored 20 8 demo_shared r'"
    by (rule save_then_recover [OF facts(1,2) demo_saves facts(3) demo_restarted_fields(1-3) demo_reads_all])
  then show ?thesis
    by simp
qed

lemma demo_two_path: "cfg_statePath (rs_config demo_two) = []"
proof -
  have "case (demo_two, ()) of (s, _) \<Rightarrow> cfg_statePath (rs_config s) = []"
    by code_simp
  then show ?thesis
    by simp
qed

text \<open>The same state after its grid has been registered again at a newer generation, saved and recovered.\<close>

definition demo_newer_grid :: ChannelGrid where
  "demo_newer_grid = demo_grid\<lparr>grid_generation := StrongValue 2\<rparr>"

definition demo_bricked :: RuntimeState where
  "demo_bricked = fst (registerGrid 14 demo_newer_grid demo_shared)"

definition demo_bricked_disk :: Host where
  "demo_bricked_disk = (let bytes = (case encodeState demo_bricked of Inr bytes \<Rightarrow> bytes | Inl _ \<Rightarrow> [])
     in \<lparr>host_now = 15, host_io = \<lparr>io_open = True, io_written = length bytes, io_close = True,
          io_rename = None\<rparr>\<rparr>)"

definition demo_bricked_restarted :: RuntimeState where
  "demo_bricked_restarted = SpectrumRuntime (rs_config demo_shared) 8 15 (rs_disk (fst (save demo_bricked_disk demo_bricked)))"

definition demo_bricked_reads :: ReadIo where
  "demo_bricked_reads = \<lparr>rio_exists = True, rio_sizeError = None, rio_open = True,
     rio_gcount = length (the (rs_disk demo_bricked_restarted ''p''))\<rparr>"

lemma demo_bricked_run:
  "case (demo_shared, ()) of (s, _) \<Rightarrow>
     map_option (\<lambda>d. dom_grid d = grid_id demo_newer_grid) (map_of (rs_domains s) (StrongValue 1)) = Some True
     \<and> (case registerGrid 14 demo_newer_grid s of (s1, st) \<Rightarrow> status_ok st \<and> storable_state s1
       \<and> 1 + length (rs_grids s1) + length (rs_spans s1) + length (rs_ports s1) + length (rs_domains s1)
         + length (rs_exclusionDomains s1) + length (rs_capabilities s1) + length (rs_reservations s1)
         + length (rs_audit s1) \<le> 1000)"
  by code_simp

lemma demo_bricked_facts: "storable_state demo_bricked" "length (state_payloads demo_bricked) \<le> 1000"
  using demo_bricked_run unfolding prod.case demo_bricked_def length_state_payloads by (simp_all add: case_prod_unfold)

lemma demo_bricked_before:
  "consistent demo_shared"
  "map_of (rs_domains demo_shared) (StrongValue 1) = Some (the (map_of (rs_domains demo_shared) (StrongValue 1)))"
  "dom_grid (the (map_of (rs_domains demo_shared) (StrongValue 1))) = grid_id demo_newer_grid"
  "status_ok (snd (registerGrid 14 demo_newer_grid demo_shared))"
  using demo_bricked_run demo_shared_facts by (auto simp: case_prod_unfold)

lemma demo_bricked_config: "rs_config demo_bricked = rs_config demo_shared"
  using registration_keeps(2) [of demo_shared 14 demo_newer_grid] by (simp add: keeps_leases_def demo_bricked_def)

lemma demo_bricked_saves: "status_ok (snd (save demo_bricked_disk demo_bricked))"
proof -
  have path: "cfg_statePath (rs_config demo_bricked) = ''p''" "cfg_maxStateBytes (rs_config demo_bricked) = 268435456"
    using demo_shared_facts unfolding demo_bricked_config by simp_all
  obtain bytes where bytes: "encodeState demo_bricked = Inr bytes"
    using encodeState_returns [OF demo_bricked_facts] by blast
  have "length bytes \<le> 67108928"
    using encodeState_length [OF demo_bricked_facts(1) bytes] by (simp add: kMaxBufferBytes_def)
  then show ?thesis
    by (simp add: save_def saveLocked_def path bytes demo_bricked_disk_def writeStateFile_def)
qed

lemma demo_bricked_fields:
  "cfg_statePath (rs_config demo_bricked_restarted) = cfg_statePath (rs_config demo_shared)"
  "cfg_maxStateBytes (rs_config demo_bricked_restarted) = cfg_maxStateBytes (rs_config demo_shared)"
  "rs_disk demo_bricked_restarted = rs_disk (fst (save demo_bricked_disk demo_bricked))"
  "reads_all demo_bricked_reads (the (rs_disk demo_bricked_restarted (cfg_statePath (rs_config demo_bricked_restarted))))"
  using demo_shared_facts
  by (simp_all add: demo_bricked_restarted_def SpectrumRuntime_def Let_def normalise_config_def reads_all_def
      demo_bricked_reads_def)

end
