(* ===== verification/Spec2Isabelle.thy ===== *)
theory Spec2Isabelle
  imports Child_Facts Cli_Facts Crash_Scenario Mp_Facts Remote_Scenario Restart_Scenario
begin

text \<open>
  A verification of Wavelength Fabric, a C++ control plane that hands out optical spectrum: channel
  slots of a grid, on chains of domains (fibre spans and switching nodes), to owners, under leases.
  This file imports the development and states the properties C1 to C40. The theories translate the
  sources under \<open>src/src\<close> and \<open>src/include/wavelength_fabric\<close>; the names of functions, types and
  fields are those of the code, with a suffix or a prefix where they clash.

  The program and its model, in the order of the imports.

  \<^item> Values. \<open>Prelude\<close> holds decimal printing and the 32-bit helpers; \<open>Ordered_Map\<close> is \<open>std::map\<close> as a
    sorted association list with the locale \<open>ordered_map\<close>. \<open>Identity\<close> (\<open>identity.hpp\<close>, \<open>error.hpp\<close>) has the
    identities, which are 64-bit words with 0 as the invalid value, fences and statuses; \<open>Quantity\<close> and
    \<open>Ranges\<close> (\<open>quantity.hpp\<close>) the checked 64-bit arithmetic and the slot and frequency ranges with their
    merging and subtraction; \<open>Time_Model\<close> instants, durations and leases; \<open>Tokens\<close> the enumerators and
    their texts.
  \<^item> The data model (\<open>model.cpp\<close>, \<open>grid.cpp\<close>). \<open>Grid\<close>, \<open>Resource\<close>, \<open>Capability\<close>, \<open>Authority\<close>, \<open>Request\<close>,
    \<open>Reservation\<close> and \<open>Lifecycle_State\<close>: one record per struct, with its validation as a status, the
    conversion between slots and frequencies, and the state machine of a reservation with its table of
    transitions. \<open>Text\<close> (\<open>text.cpp\<close>) renders them for operators.
  \<^item> The runtime. \<open>Runtime_State\<close> (\<open>impl.hpp\<close>, \<open>runtime_core.cpp\<close>) is the state behind the mutex: the
    registries, the reservation table, the live index per domain, the request index, the audit trail,
    the counters and the published state files. Every public function takes the mutex once, so one
    call is one function from state to state. \<open>Registration\<close> (\<open>runtime_core.cpp\<close>,
    \<open>runtime_capability.cpp\<close>) enters grids, spans, ports, domains, exclusion domains and capabilities
    and advances the authority; \<open>Candidates\<close> and \<open>Enumeration\<close> (\<open>runtime_candidates.cpp\<close>) evaluate one
    placement and search all of them; \<open>Allocation\<close> (\<open>runtime_alloc.cpp\<close>) commits one, with pruning,
    replay, persistence and rollback; \<open>Lifecycle\<close> (\<open>runtime_lifecycle.cpp\<close>) renews, activates,
    deactivates and releases reservations and sweeps lapsed leases; \<open>Query\<close> (\<open>runtime_query.cpp\<close>) reads.
  \<^item> Persistence (\<open>codec.cpp\<close>, \<open>runtime_persist.cpp\<close>). \<open>Encoder\<close> and \<open>Decoder\<close> are the bounded byte
    writer, the reader and the checksum; \<open>Record_Codec\<close> and \<open>Wire_Codec\<close> the format of every type;
    \<open>Persistence\<close> publishes an image through a temporary file and a rename; \<open>State_Image\<close> validates and
    loads an image; \<open>Recovery\<close> replaces the state by it.
  \<^item> The network (\<open>net.cpp\<close>, \<open>protocol.cpp\<close>). \<open>Transport\<close> sends and receives exact byte counts, \<open>Endpoint\<close>
    opens and accepts connections, \<open>Protocol\<close> has the operation codes, the frames and the arguments,
    \<open>Server\<close> dispatches requests to the runtime and serves a connection, \<open>Worker_Pool\<close> is the accept
    loop and the worker threads as a step relation, \<open>Client\<close> is the calling side.
  \<^item> The programs. \<open>Cli_Parse\<close> and \<open>Cli\<close> (\<open>wfcli.cpp\<close>) are the command line tool: the numbers and
    specifications it reads, its commands over a runtime in the process or a client of a server, and
    one invocation from loading the image to saving it. \<open>Daemon\<close> (\<open>wavelengthd_main.cpp\<close>) is the server
    process until it serves, \<open>Mp_Client\<close> (\<open>mp_client_main.cpp\<close>) the independent client and \<open>Mp_Scenario\<close> the
    helpers of \<open>mp_scenario.cpp\<close> that start both. \<open>Child_Process\<close> (\<open>process.cpp\<close>) is a child process with its captured output,
    its command line and its release.

  How effects are modelled. A function that changes the runtime returns the changed state. Fallible
  functions return a status, an option (a \<open>bool\<close> with an output parameter) or a sum. Identities and
  counters of 64 bits are words; signed 64-bit quantities are integers whose overflow is written out
  by the checked operations, as in the source; 32-bit slot numbers are natural numbers with their
  wrap-around written out in \<open>u32add\<close> and \<open>u32sub\<close>. The clock (\<open>systemNow\<close>), the generator of
  incarnations, the file system and the sockets are parameters: records with the answers the
  operating system gives, successful or not. The threads of the server appear in two ways: the effect
  of other connections between the runtime calls of one request is the function \<open>between\<close> of
  \<open>dispatch\<close>, and \<open>Worker_Pool\<close> interleaves the single actions of the threads.

  What the lemmas show. \<open>Ownership\<close> states the invariant of the table (\<open>table_inv\<close>) and of the leases
  (\<open>lease_inv\<close>: no two reservations own overlapping spectrum at the same instant); \<open>Allocation_Facts\<close>,
  \<open>Lifecycle_Facts\<close>, \<open>Sweep_Facts\<close> and \<open>Pruning\<close> give each operation its specification and its
  preservation of the invariants; \<open>Runs\<close> is the set of reachable states, and \<open>Tenancy\<close> the abstract
  ledger of tenancies that the runtime refines, with the locale \<open>fading_sweep\<close>. \<open>Query_Facts\<close> accounts for every slot of
  a domain. \<open>Record_Size\<close> bounds the size of every record, \<open>Image_Facts\<close> and \<open>Restart\<close> prove that a saved
  state comes back, \<open>Recovery_Facts\<close> what any accepted image guarantees, \<open>Sound_Image\<close> that a durable
  allocation writes such an image, and \<open>Crash\<close> that a daemon started on it serves the grant and answers
  the repeated request with it. \<open>Remote_Facts\<close> relates a call
  of a client to the call on the runtime, \<open>Cli_Facts\<close> one invocation of the tool to the next,
  \<open>Child_Facts\<close> the life of a child process to the balance of its descriptors and signals, and \<open>Mp_Facts\<close> what
  one program of the distributed proof writes to what another reads. The locales are the interfaces: \<open>ordered_map\<close>,
  \<open>token_table\<close>, \<open>authority_check\<close>, \<open>range_cutter\<close>, \<open>live_index\<close>, \<open>versioned_registry\<close>,
  \<open>lifecycle_operation\<close>, \<open>sweep\<close> and \<open>fading_sweep\<close>, \<open>codec\<close>, \<open>stored\<close> and \<open>stored_table\<close>, each interpreted on
  the definitions of the model. \<open>Scenario\<close>, \<open>Restart_Scenario\<close>, \<open>Crash_Scenario\<close> and \<open>Remote_Scenario\<close> are a small running
  example, entered through the operations themselves, on which the witnesses are evaluated.

  Bounds. No function of the model has fuel that the source does not have: the loops are structural
  recursions or have a termination proof; the one guard in the source, a million rounds of
  \<open>pruneTerminalReservations\<close>, is kept, and C27 says for which tables it suffices. \<open>serve_loop\<close> ends
  because every frame takes bytes from the stream; the loop of \<open>waitUntil\<close> runs over the readings of the clock it is given, and
  has not returned when they are exhausted. \<open>kRecordBound\<close> (64 KiB) is proved to bound every
  storable record; C13 and C17 ask for storable states, that is, for the string lengths and counts
  the decoder accepts.

  Assumptions that the properties name: instants given to the operations do not run backwards and a
  request is not from the future (\<open>timely\<close>), the identity counter does not wrap, the operating
  system reads back the file in full (\<open>reads_all\<close>), and a frame that was sent arrives (\<open>delivered\<close>).

  Not modelled. The texts of messages are kept where they are short and otherwise opaque constants;
  message contents carry no property, and what the command line tool prints is left out. Of \<open>net.cpp\<close>
  the calls that only wrap a system call (\<open>setNoDelay\<close>, \<open>shutdownBoth\<close>, the clock); of \<open>process.cpp\<close> the
  Windows branch, except for the quoting of arguments; the memory orders of the atomics, which the
  step relation takes as sequentially consistent; running out of memory, except where the source
  answers it with a status. The script of the distributed scenario (its \<open>main\<close>), the consumer, the examples, the
  benchmarks and the tests are programs that call what is modelled here and look at the answers.
\<close>

section \<open>Properties\<close>

text \<open>C1. In every state the runtime can reach, whatever the interleaving of registrations, allocations, renewals, activations, releases, sweeps, saves and resets, two different reservations that are live at the current instant and share an optical domain have disjoint frequency ranges and do not conflict in the sense of reservationsConflict.\<close>

theorem spectrum_never_owned_twice:
  assumes "reached t s" and "map_of (rs_reservations s) i = Some a" and "map_of (rs_reservations s) j = Some b"
    and "i \<noteq> j" and "isLiveAt a t" and "isLiveAt b t"
    and "d \<in> set (res_domains a)" and "d \<in> set (res_domains b)"
  shows "\<not> freq_overlaps (res_frequency a) (res_frequency b) \<and> \<not> reservationsConflict a b"
  by (rule no_double_ownership [OF assms(1-6)]) (use assms(7,8) in \<open>auto simp: shares_domain_def\<close>)

theorem spectrum_never_owned_twice_witness:
  "\<exists>a b. map_of (rs_reservations demo_two) (StrongValue 1) = Some a
     \<and> map_of (rs_reservations demo_two) (StrongValue 2) = Some b
     \<and> \<not> freq_overlaps (res_frequency a) (res_frequency b) \<and> \<not> reservationsConflict a b"
proof -
  obtain a b where "map_of (rs_reservations demo_two) (StrongValue 1) = Some a"
    "map_of (rs_reservations demo_two) (StrongValue 2) = Some b" "isLiveAt a 10" "isLiveAt b 10"
    "res_domains a = [StrongValue 1]" "res_domains b = [StrongValue 1]"
    using demo_two_run by (auto simp: demo_holds_def split: option.splits)
  then show ?thesis
    using spectrum_never_owned_twice [OF demo_two_reached, of "StrongValue 1" a "StrongValue 2" b "StrongValue 1"]
    by auto
qed

text \<open>C2. The runtime refines the abstract ledger of tenancies, in which a tenancy is only granted apart from every valid one, extended while it is valid, surrendered, superseded by at most one grant, cleared, or ended because its time is over: every reachable state stands for a ledger reached by those moves, and every next operation is one of them.\<close>

theorem runtime_refines_ledger:
  assumes "reached t s" and "t \<le> now" and "timely now op s"
  shows "ledger_run t (ledger s) \<and> separated_ledger t (ledger s)
    \<and> ledger_step now (ledger s) (ledger (perform h now op s))"
proof -
  have "runtime_inv now s"
    using reached_inv [OF assms(1)] lease_inv_later [OF _ assms(2)] by (simp add: runtime_inv_def)
  then show ?thesis
    using reached_ledger [OF assms(1)] ledger_run_separated perform_ledger [OF _ assms(3)] by blast
qed

theorem runtime_refines_ledger_witness:
  "ledger_step 11 (ledger demo_two) (ledger (perform demo_host 11 ExpireLeases demo_two))
   \<and> ledger demo_two (StrongValue 1) \<noteq> None"
proof -
  obtain q where "map_of (rs_reservations demo_two) (StrongValue 1) = Some q" "isLiveState (res_state q)"
    using demo_two_run by (auto simp: demo_holds_def split: option.splits)
  then have "ledger demo_two (StrongValue 1) \<noteq> None"
    by (auto simp: ledger_Some)
  then show ?thesis
    using runtime_refines_ledger [OF demo_two_reached, of 11 ExpireLeases demo_host] by simp
qed

text \<open>C3. Allocation preserves spectrum ownership. In a consistent table whose reservations are pairwise separated by their guard bands on shared domains, an allocation request with any outcome (granted, refused, replayed, rolled back after a failed durable commit) leads to a table that is consistent and separated again.\<close>

theorem allocate_preserves_ownership:
  assumes "table_inv s" and "raw (rs_nextReservationId s) < 0xFFFFFFFFFFFFFFFF"
    and "grids_ok s" and "lease_inv t s" and "req_requestedAt r \<le> t"
  shows "table_inv (fst (allocate h r s)) \<and> lease_inv t (fst (allocate h r s))"
  using allocate_table [OF assms(1,2)] allocate_lease [OF assms] by blast

theorem allocate_preserves_ownership_witness:
  "table_inv demo_allocated \<and> lease_inv 10 demo_allocated"
  unfolding demo_allocated_def
  by (rule allocate_preserves_ownership [OF demo_table demo_next demo_grids demo_lease])
    (simp add: demo_request_def)



text \<open>C5. An allocation that is not granted, or that replays a committed request, changes no ownership: no reservation appears, every reservation that is not terminal is still recorded unchanged, and the live index is the same. Only terminal records may have been pruned.\<close>

theorem allocate_declined_keeps_owners:
  assumes "table_inv s" and "raw (rs_nextReservationId s) < 0xFFFFFFFFFFFFFFFF"
    and "allocate h r s = (s', d)" and "\<not> status_ok (dec_status d) \<or> ev_replay (evaluate s r)"
  shows "live_part_same s s'"
  by (rule allocate_declined [OF assms])

theorem allocate_declined_keeps_owners_witness:
  "live_part_same demo_open (fst (allocate demo_host demo_request demo_open))"
proof (rule allocate_declined_keeps_owners [OF _ _ prod.collapse [symmetric]])
  show "table_inv demo_open" and "raw (rs_nextReservationId demo_open) < 0xFFFFFFFFFFFFFFFF"
    using demo_table demo_next demo_keeps by (auto simp: keeps_leases_def intro: table_inv_frame)
  have "\<not> status_ok (dec_status (snd (allocate demo_host demo_request demo_open)))"
    by code_simp
  then show "\<not> status_ok (dec_status (snd (allocate demo_host demo_request demo_open)))
     \<or> ev_replay (evaluate demo_open demo_request)"
    by simp
qed

text \<open>C6. In every reachable state the per-domain live index holds exactly the reservations whose state owns spectrum on that domain, so conflict scans that only look at the index miss nothing.\<close>

theorem live_index_is_exact:
  assumes "reached t s"
  shows "i \<in> set (live_list (rs_liveByDomain s) d) \<longleftrightarrow>
    (\<exists>r. map_of (rs_reservations s) i = Some r \<and> isLiveState (res_state r) \<and> d \<in> set (res_domains r))"
  by (rule index_exact [OF assms])

theorem live_index_is_exact_witness:
  "StrongValue 2 \<in> set (live_list (rs_liveByDomain demo_two) (StrongValue 1))"
proof -
  have "\<exists>r. map_of (rs_reservations demo_two) (StrongValue 2) = Some r \<and> isLiveState (res_state r)
      \<and> StrongValue 1 \<in> set (res_domains r)"
    using demo_two_run by (auto simp: demo_holds_def split: option.splits)
  then show ?thesis
    using live_index_is_exact [OF demo_two_reached] by blast
qed



text \<open>C8. A request that is not eligible always ends in one of the refusal outcomes, never in Allocated or Unknown, and carries at least one reason.\<close>

theorem refusal_is_explained:
  assumes "\<not> ev_eligible (evaluate s r)"
  shows "isRefusal (ev_outcome (evaluate s r)) \<and> ev_reasons (evaluate s r) \<noteq> []"
  using evaluate_refusal [OF assms] by blast

theorem refusal_is_explained_witness:
  "isRefusal (ev_outcome (evaluate demo_open demo_request))"
  using refusal_is_explained [of demo_open demo_request] by code_simp

text \<open>C9. Renewal, activation, deactivation and release are fenced: with an authority token that is not the current one, an unknown reservation or a generation that is not the current one, each operation reports a failure and leaves every reservation, the live index and the request index untouched.\<close>

theorem stale_operations_are_fenced:
  assumes "table_inv s"
  shows "(\<not> status_ok (checkReservationAuthority (rs_authority s) reservation)
        \<or> (\<forall>q. map_of (rs_reservations s) i = Some q \<longrightarrow> res_generation q \<noteq> g)
      \<longrightarrow> \<not> status_ok (snd (renew h i g extension reservation now cap s)) \<and> untouched s (fst (renew h i g extension reservation now cap s)))
    \<and> (\<not> status_ok (checkActivationAuthority (rs_authority s) activation)
        \<or> (\<forall>q. map_of (rs_reservations s) i = Some q \<longrightarrow> res_generation q \<noteq> g)
      \<longrightarrow> \<not> status_ok (snd (activate h i g activation now s)) \<and> untouched s (fst (activate h i g activation now s)))
    \<and> (\<not> status_ok (checkActivationAuthority (rs_authority s) activation)
        \<or> (\<forall>q. map_of (rs_reservations s) i = Some q \<longrightarrow> res_generation q \<noteq> g)
      \<longrightarrow> \<not> status_ok (snd (deactivate h i g activation now s)) \<and> untouched s (fst (deactivate h i g activation now s)))
    \<and> (\<not> status_ok (checkReleaseAuthority (rs_authority s) releasing)
        \<or> (\<forall>q. map_of (rs_reservations s) i = Some q \<longrightarrow> res_generation q \<noteq> g)
      \<longrightarrow> \<not> status_ok (snd (release h i g releasing now s)) \<and> untouched s (fst (release h i g releasing now s)))"
proof -
  have "map_of (rs_reservations s) i = None \<or> (\<exists>q. map_of (rs_reservations s) i = Some q \<and> res_generation q \<noteq> g)"
    if "\<forall>q. map_of (rs_reservations s) i = Some q \<longrightarrow> res_generation q \<noteq> g"
    using that by (cases "map_of (rs_reservations s) i") auto
  then show ?thesis
    using renewal_op.fenced [OF assms(1), of reservation i g extension cap now h]
      activation_op.fenced [OF assms(1), of activation i g now h]
      deactivation_op.fenced [OF assms(1), of activation i g now h]
      release_op.fenced [OF assms(1), of releasing i g now h]
    by blast
qed

theorem stale_operations_are_fenced_witness:
  "\<not> status_ok (snd (release demo_host (StrongValue 1) (StrongValue 9) demo_release 11 demo_two))
   \<and> untouched demo_two (fst (release demo_host (StrongValue 1) (StrongValue 9) demo_release 11 demo_two))"
proof -
  have "table_inv demo_two"
    using reached_inv [OF demo_two_reached] by (simp add: runtime_inv_def)
  moreover have "res_generation q \<noteq> StrongValue 9"
    if "map_of (rs_reservations demo_two) (StrongValue 1) = Some q" for q
    using that demo_two_run by (auto simp: demo_holds_def)
  ultimately show ?thesis
    using stale_operations_are_fenced [of demo_two _ "StrongValue 1" "StrongValue 9" demo_host _ 11 _ _ demo_release]
    by blast
qed

text \<open>C10. A lifecycle operation that reports success found the named generation in a state that permits it and replaced exactly that record: activation and deactivation move it between Reserved and Active, release ends it, renewal extends its lease by exactly the extension and advances its generation; no other record changes.\<close>

theorem lifecycle_effects:
  assumes "table_inv s"
  shows "(status_ok (snd (activate h i g activation now s)) \<longrightarrow> (\<exists>q. map_of (rs_reservations s) i = Some q
      \<and> res_generation q = g \<and> activatable now q
      \<and> rs_reservations (fst (activate h i g activation now s)) = om_set i (activated now q) (rs_reservations s)))
    \<and> (status_ok (snd (deactivate h i g activation now s)) \<longrightarrow> (\<exists>q. map_of (rs_reservations s) i = Some q
      \<and> res_generation q = g \<and> deactivatable now q
      \<and> rs_reservations (fst (deactivate h i g activation now s)) = om_set i (deactivated now q) (rs_reservations s)))
    \<and> (status_ok (snd (release h i g releasing now s)) \<longrightarrow> (\<exists>q. map_of (rs_reservations s) i = Some q
      \<and> res_generation q = g \<and> releasable now q
      \<and> rs_reservations (fst (release h i g releasing now s)) = om_set i (released now q) (rs_reservations s)))
    \<and> (status_ok (snd (renew h i g extension reservation now cap s)) \<longrightarrow> (\<exists>q. map_of (rs_reservations s) i = Some q
      \<and> res_generation q = g \<and> renewable extension cap now q
      \<and> rs_reservations (fst (renew h i g extension reservation now cap s))
          = om_set i (renewed extension cap now q) (rs_reservations s)))"
proof (intro conjI impI, goal_cases)
  case 1
  then show ?case
    by (elim activation_op.accepted [OF assms]) blast
next
  case 2
  then show ?case
    by (elim deactivation_op.accepted [OF assms]) blast
next
  case 3
  then show ?case
    by (elim release_op.accepted [OF assms]) blast
next
  case 4
  then show ?case
    by (elim renewal_op.accepted [OF assms]) blast
qed

theorem lifecycle_effects_witness:
  "\<exists>q. map_of (rs_reservations demo_two) (StrongValue 1) = Some q
     \<and> rs_reservations (fst (release demo_host (StrongValue 1) (StrongValue 1) demo_release 11 demo_two))
       = om_set (StrongValue 1) (released 11 q) (rs_reservations demo_two)"
proof -
  have inv: "table_inv demo_two"
    using reached_inv [OF demo_two_reached] by (simp add: runtime_inv_def)
  have "status_ok (snd (release demo_host (StrongValue 1) (StrongValue 1) demo_release 11 demo_two))"
    using demo_two_release by (simp add: case_prod_unfold)
  then show ?thesis
    using lifecycle_effects [OF inv, of demo_host "StrongValue 1" "StrongValue 1" _ 11 demo_release] by blast
qed



text \<open>C12. A request whose acknowledgement was lost is granted once. After a durable daemon has committed a fresh allocation and another daemon serves from the same file, the same request, sent again with the authority of the new controller, succeeds with the reservation the first daemon entered and enters no other.\<close>

theorem lost_acknowledgements_are_replayed:
  assumes "in_operation d (req_requestedAt r) s"
    and "allocate h r s = (s', dec)" and "status_ok (dec_status dec)" and "\<not> ev_replay (evaluate s r)"
    and "storable_state s'" and "started_on d s' os"
    and "daemon_boot os d = Serving recovered r' pool listener port"
    and "status_ok (checkEligibilityAuthority (rs_authority r') e)"
    and "status_ok (checkReservationAuthority (rs_authority r') a)"
    and "allocate h' (retried e a r) r' = (r'', again)"
  shows "dec_status again = okStatus \<and> dec_reservation again = dec_reservation dec
    \<and> rs_reservations r'' = rs_reservations r' \<and> rs_liveByDomain r'' = rs_liveByDomain r'"
proof -
  obtain q r1 report where boot: "daemon_boot os d = daemon_start os d (Some report) r1"
    and r1: "map_of (rs_reservations r1) (dec_reservation dec) = Some q" "status_ok (validateRequestShape r)"
      "sameRequestShape q r" "res_requestGeneration q = req_requestGeneration r"
      "map_of (rs_requestIndex r1) (req_requestId r) = Some (dec_reservation dec)" "res_id q = dec_reservation dec"
    by (rule crash [OF assms(1-6)])
  have same: "r1 = r'"
    using assms(7) boot by (auto simp: daemon_start_def split: sum.splits)
  have "ev_replay (evaluate r' (retried e a r))"
    using retry_replays [OF r1(2) assms(8,9)] r1 by (simp add: same)
  moreover have "existing_request r' (retried e a r) = Some q"
    using r1(1,5) by (simp add: existing_request_def same)
  ultimately show ?thesis
    using allocate_replay [OF _ assms(10)] r1(6) by auto
qed

theorem lost_acknowledgements_are_replayed_witness:
  "\<exists>r'. (\<exists>recovered pool. daemon_boot demo_second_os demo_daemon = Serving recovered r' pool demo_listener 4000)
    \<and> (case allocate demo_host (retried demo_next_eligibility demo_next_reservation demo_request) r' of (r'', again) \<Rightarrow>
        dec_status again = okStatus \<and> dec_reservation again = dec_reservation (snd demo_acknowledged)
        \<and> rs_reservations r'' = rs_reservations r')"
proof -
  note history = demo_in_operation demo_allocates demo_commit_saves(2,3) demo_acknowledged_storable demo_started_on
  obtain r' report where boot: "daemon_boot demo_second_os demo_daemon = daemon_start demo_second_os demo_daemon (Some report) r'"
    and accepted: "status_ok (checkEligibilityAuthority (rs_authority r') demo_next_eligibility)"
      "status_ok (checkReservationAuthority (rs_authority r') demo_next_reservation)"
    by (rule demo_second_controller)
  obtain pool where serving: "daemon_boot demo_second_os demo_daemon = Serving (Some report) r' pool demo_listener 4000"
    using demo_listening boot by metis
  obtain r'' again where retry: "allocate demo_host (retried demo_next_eligibility demo_next_reservation demo_request) r' = (r'', again)"
    by fastforce
  show ?thesis
    using lost_acknowledgements_are_replayed [OF history serving accepted retry] serving retry by auto
qed

text \<open>C13. A restart loses nothing durable. When a runtime whose records are storable and whose references are consistent saves successfully, any runtime that is configured with the same path and bound and reads that file back in full recovers successfully: it has the same grids, domains and exclusion domains, the same reservation counter, exactly the saved reservations with those that were Active demoted to Reserved, the next controller epoch, and an exact live index.\<close>

theorem saved_state_comes_back:
  assumes "storable_state s" and "consistent s" and "status_ok (snd (save h s))"
    and "raw (epoch (rs_fence s)) + 1 \<le> kMaxFenceValue"
    and "cfg_statePath (rs_config r) = cfg_statePath (rs_config s)"
    and "cfg_maxStateBytes (rs_config r) = cfg_maxStateBytes (rs_config s)"
    and "rs_disk r = rs_disk (fst (save h s))"
    and "reads_all io (the (rs_disk r (cfg_statePath (rs_config r))))"
  shows "rec_status (snd (recover now io inc r)) = okStatus \<and> restored now inc s (fst (recover now io inc r))"
  by (rule save_then_recover [OF assms, of now inc]) simp

theorem saved_state_comes_back_witness:
  "rec_status (snd (recover 20 demo_reads 8 demo_restarted)) = okStatus
     \<and> map_option res_state (map_of (rs_reservations (fst (recover 20 demo_reads 8 demo_restarted))) (StrongValue 1))
       = Some Reserved"
proof -
  have facts: "storable_state demo_shared" "consistent demo_shared"
    "raw (epoch (rs_fence demo_shared)) + 1 \<le> kMaxFenceValue"
    "map_option res_state (map_of (rs_reservations demo_shared) (StrongValue 1)) = Some Active"
    using demo_shared_facts by simp_all
  have "rec_status (snd (recover 20 demo_reads 8 demo_restarted)) = okStatus
      \<and> restored 20 8 demo_shared (fst (recover 20 demo_reads 8 demo_restarted))"
    by (rule saved_state_comes_back [OF facts(1,2) demo_saves facts(3) demo_restarted_fields(1-3) demo_reads_all])
  then show ?thesis
    using facts(4) by (auto simp: restored_def demotion_def demoted_def)
qed





text \<open>C16. A server does to the runtime what the request asks for and nothing else. A request whose payload does not decode in full is answered by an error, without data, without a shutdown and without touching the runtime; and every other request leaves the runtime in the state after the one operation its operation code and payload name (or in the same state, for a request that only reads), up to what the other connections do between the calls of the same request.\<close>

theorem served_requests_are_operations:
  "(\<not> accepts op payload \<longrightarrow> untouched_reply s (dispatch h between c op payload s))
   \<and> later between (requested_state h op payload s) (fst (dispatch h between c op payload s))"
  using dispatch_malformed dispatch_steps by blast

theorem served_requests_are_operations_witness:
  "untouched_reply demo_state (dispatch demo_host (\<lambda>s. s) demo_server OpSave [1] demo_state)
   \<and> fst (dispatch demo_host (\<lambda>s. s) demo_server OpReset [] demo_state) = fst (reset 10 demo_state)"
proof -
  have "later (\<lambda>s. s) (requested_state demo_host OpReset [] demo_state)
      (fst (dispatch demo_host (\<lambda>s. s) demo_server OpReset [] demo_state))"
    using served_requests_are_operations by blast
  moreover have "((\<lambda>s. s) ^^ n) t = t" for n and t :: RuntimeState
    by (induction n) simp_all
  ultimately have "fst (dispatch demo_host (\<lambda>s. s) demo_server OpReset [] demo_state) = fst (reset 10 demo_state)"
    by (simp add: later_def requested_state_def demo_host_def)
  then show ?thesis
    using served_requests_are_operations [of OpSave "[1]"] by simp
qed

text \<open>C17. The framing of the image never refuses what the runtime wrote. Decoding the encoding of a state with storable records is exactly the semantic validation of that state: every magic, length, version, checksum, record and count check passes, the diagnostic is the first semantic fault if there is one, and otherwise the saved tables, audit records and counters are loaded.\<close>

theorem validation_decides_alone:
  assumes "storable_state s" and "encodeState s = Inr bytes"
  shows "decodeState bytes out report =
    (let report1 = count_records (length (state_payloads s)) report; m = image_of s out
     in (case image_fault m of
           Some e \<Rightarrow> (diagnose e report1, None)
         | None \<Rightarrow> (count_restored (install_image m) report1, Some (install_image m))))"
  by (rule decode_encoded [OF assms])

theorem validation_decides_alone_witness:
  "\<exists>bytes loaded. encodeState demo_shared = Inr bytes
     \<and> snd (decodeState bytes demo_open (default_recovery [] demo_fence)) = Some loaded
     \<and> rs_reservations loaded = rs_reservations demo_shared \<and> rs_domains loaded = rs_domains demo_shared"
proof -
  have facts: "storable_state demo_shared" "consistent demo_shared" "length (state_payloads demo_shared) \<le> 1000"
    using demo_shared_facts unfolding length_state_payloads by simp_all
  obtain bytes where bytes: "encodeState demo_shared = Inr bytes"
    using encodeState_returns [OF facts(1,3)] by blast
  have "image_fault (image_of demo_shared demo_open) = None"
    using facts(2) unfolding consistent_def by (rule trans [OF image_fault_saved])
  then show ?thesis
    using bytes validation_decides_alone [OF facts(1) bytes, of demo_open "default_recovery [] demo_fence"]
    by (simp add: Let_def)
qed

text \<open>C18. After an expiry sweep whose result could be published, every reservation whose state owns spectrum holds a lease that is valid at the sweep instant, the lapsed ones are Expired and listed in the report, and every other record is as it was.\<close>

theorem expiry_sweep_ends_lapsed_leases:
  assumes "table_inv s" and "expireLeases h now s = (s', r)" and "status_ok (rep_status r)"
  shows "(\<forall>i q. map_of (rs_reservations s') i = Some q \<longrightarrow> isLiveState (res_state q) \<longrightarrow> isLiveAt q now)
    \<and> (\<forall>i. map_of (rs_reservations s') i = map_option (\<lambda>q. if lapsing now q then lapsed now q else q)
          (map_of (rs_reservations s) i))
    \<and> set (rep_lapsed r) = {i. \<exists>q. map_of (rs_reservations s) i = Some q \<and> lapsing now q}"
proof -
  note fine = expireLeases_done [OF assms]
  have "set (rep_lapsed r) = {i. \<exists>q. map_of (rs_reservations s) i = Some q \<and> lapsing now q}"
    unfolding fine(2) by (auto simp: lapse.hit_at_def keys_mem)
  moreover have "lapse.swept now = (\<lambda>q. if lapsing now q then lapsed now q else q)"
    by (rule ext) (simp add: lapse.swept_def)
  ultimately show ?thesis
    using fine(1,3) by auto
qed

theorem expiry_sweep_ends_lapsed_leases_witness:
  "set (rep_lapsed (snd (expireLeases demo_host 500 demo_two)))
     = {i. \<exists>q. map_of (rs_reservations demo_two) i = Some q \<and> lapsing 500 q}"
proof -
  have inv: "table_inv demo_two"
    using reached_inv [OF demo_two_reached] by (simp add: runtime_inv_def)
  have "status_ok (rep_status (snd (expireLeases demo_host 500 demo_two)))"
    using sweep_not_durable(1) [OF inv] demo_two_run by blast
  then show ?thesis
    using expiry_sweep_ends_lapsed_leases [OF inv prod.collapse [symmetric]] by blast
qed



text \<open>C20. A reclamation that could be published turns every expired and every lapsed reservation into Reclaimed, stamps the instant, and leaves every other record as it was, so afterwards no Expired record remains.\<close>

theorem reclamation_settles_everything:
  assumes "table_inv s" and "reclaimExpired h now s = (s', r)" and "status_ok (rep_status r)"
  shows "(\<forall>i. map_of (rs_reservations s') i = map_option (\<lambda>q. if expired q \<or> lapsing now q
        then reclaimed now (if lapsing now q then lapsed now q else q) else q) (map_of (rs_reservations s) i))
    \<and> (\<forall>i q. map_of (rs_reservations s') i = Some q \<longrightarrow> res_state q \<noteq> Expired)"
proof -
  have table: "map_of (rs_reservations s') i = map_option (settled now) (map_of (rs_reservations s) i)" for i
    by (rule reclaimExpired_done [OF assms])
  have "res_state (settled now q) \<noteq> Expired" for q
    by (simp add: settled_cases expired_def) (simp add: reclaimed_def)
  then have "\<forall>i q. map_of (rs_reservations s') i = Some q \<longrightarrow> res_state q \<noteq> Expired"
    unfolding table by auto
  moreover have "settled now = (\<lambda>q. if expired q \<or> lapsing now q
      then reclaimed now (if lapsing now q then lapsed now q else q) else q)"
    by (rule ext) (rule settled_cases)
  ultimately show ?thesis
    using table by simp
qed

theorem reclamation_settles_everything_witness:
  "\<nexists>i q. map_of (rs_reservations (fst (reclaimExpired demo_host 500 demo_two))) i = Some q
     \<and> res_state q = Expired"
proof -
  have inv: "table_inv demo_two"
    using reached_inv [OF demo_two_reached] by (simp add: runtime_inv_def)
  have "status_ok (rep_status (snd (reclaimExpired demo_host 500 demo_two)))"
    using sweep_not_durable(2) [OF inv] demo_two_run by blast
  then show ?thesis
    using reclamation_settles_everything [OF inv prod.collapse [symmetric]] by blast
qed

text \<open>C21. In every reachable state the audit trail is within its configured bound and its sequence numbers count up to the last one handed out without a gap, so evicting old records never hides a later one.\<close>

theorem audit_trail_bounded_and_gapless:
  assumes "reached t s" and "k < length (rs_audit s)"
  shows "length (rs_audit s) \<le> cfg_maxAuditRecords (rs_config s)
    \<and> raw (aud_sequence (rs_audit s ! k))
        = raw (rs_auditSequence s) - word_of_nat (length (rs_audit s) - 1 - k)"
  using reached_audit [OF assms(1)] assms(2) by blast

theorem audit_trail_bounded_and_gapless_witness:
  "raw (aud_sequence (rs_audit demo_open ! 0)) = raw (rs_auditSequence demo_open)"
proof -
  have "reached 0 demo_open" and one: "length (rs_audit demo_open) = 1"
    unfolding demo_open_def by (rule reached.opened) code_simp
  then show ?thesis
    using audit_trail_bounded_and_gapless [of 0 demo_open 0] by simp
qed


text \<open>C23. On a valid grid, converting a slot range to its frequency range and back returns the slot range, and two slot ranges overlap exactly when their frequency ranges do, so slot ownership and frequency ownership are the same thing.\<close>

theorem slots_and_frequencies_correspond:
  assumes "status_ok (validateGrid g)" and "frequencyOfSlotRange g r = Some f"
    and "frequencyOfSlotRange g s = Some h"
  shows "slotRangeForFrequency g f = Some (slotRange (slot_first r) (slot_count r))
    \<and> (slot_overlaps r s \<longleftrightarrow> freq_overlaps f h)"
  using slot_frequency_roundtrip [OF _ assms(2)] slots_overlap_iff_frequencies_overlap [OF _ assms(2,3)]
    assms(1) by (simp add: validateGrid_iff)

theorem slots_and_frequencies_correspond_witness:
  "slotRangeForFrequency demo_grid (frequencyRange 110 130) = Some (slotRange 1 2)"
proof -
  have "frequencyOfSlotRange demo_grid (slotRange 1 2) = Some (frequencyRange 110 130)"
    and "status_ok (validateGrid demo_grid)"
    by code_simp+
  then show ?thesis
    using slots_and_frequencies_correspond by fastforce
qed







text \<open>C27. Making room ends with room: the guarded loop removes exactly the oldest terminal records, as many as the bound asks for, and stops with the table below its bound unless no terminal record is left; the guard of a million rounds is never what stops it while the table is less than that above its bound.\<close>

theorem pruning_makes_room:
  assumes "table_inv s" and "length (rs_reservations s) < cfg_maxReservations (rs_config s) + 1000000"
  shows "rs_reservations (pruneTerminalReservations s) = without_oldest
      (Suc (length (rs_reservations s)) - cfg_maxReservations (rs_config s)) (rs_reservations s)
    \<and> (length (rs_reservations (pruneTerminalReservations s)) < cfg_maxReservations (rs_config s)
      \<or> (\<forall>e \<in> set (rs_reservations (pruneTerminalReservations s)). \<not> isTerminalState (res_state (snd e))))"
  using prune_exact [OF table_inv_om [OF assms(1)] assms(2)] prune_room [OF table_inv_om [OF assms(1)] assms(2)]
  by blast

theorem pruning_makes_room_witness:
  "rs_reservations (pruneTerminalReservations demo_crowded) = []"
  using pruning_makes_room [OF demo_crowded_table] by (simp add: demo_crowded_def)

text \<open>C28. Publishing the state is atomic: a save that reports a failure leaves the published image exactly as it was, a save that succeeds leaves exactly the encoded state within the configured size, and neither touches what is owned.\<close>

theorem saving_is_atomic:
  "(status_ok (snd (saveLocked h s)) \<longrightarrow> (\<exists>bytes. encodeState s = Inr bytes
      \<and> rs_disk (fst (saveLocked h s)) (cfg_statePath (rs_config s)) = Some bytes
      \<and> length bytes \<le> unat (cfg_maxStateBytes (rs_config s))))
   \<and> (\<not> status_ok (snd (saveLocked h s)) \<longrightarrow>
      rs_disk (fst (saveLocked h s)) (cfg_statePath (rs_config s)) = rs_disk s (cfg_statePath (rs_config s)))
   \<and> same_ownership s (fst (saveLocked h s))"
  using saveLocked_success_disk saveLocked_failure_disk saveLocked_ownership by metis

theorem saving_is_atomic_witness:
  "rs_disk (fst (saveLocked demo_broken demo_durable)) ''p'' = rs_disk demo_durable ''p''"
proof -
  have "\<not> status_ok (snd (saveLocked demo_broken demo_durable))"
    by (rule saveLocked_closed) (simp add: demo_broken_def)
  moreover have "cfg_statePath (rs_config demo_durable) = ''p''"
    by (simp add: demo_durable_def)
  ultimately show ?thesis
    using saving_is_atomic [of demo_broken demo_durable] by simp
qed

text \<open>C29. In every reachable state of the threads of the server, under any interleaving, the queue of accepted connections is within its bound, connections are taken in the order in which they were admitted, every admitted connection is in the queue, held by exactly one worker or finished, and never two of these, the counter of active connections is the number of workers between its two updates and never exceeds the number of threads, and at most one worker is about to block.\<close>

theorem worker_pool_serves_each_connection_once:
  assumes "pool_reach p"
  shows "length (pool_pending p) \<le> scf_maxConnections (pool_config p)
    \<and> pool_admitted p = pool_taken p @ pool_pending p
    \<and> mset (pool_taken p) = mset (pool_finished p) + over_workers holds p
    \<and> pool_active p = over_workers busy p \<and> pool_active p \<le> scf_workerThreads (pool_config p)
    \<and> pool_peak p \<le> scf_maxConnections (pool_config p) + scf_workerThreads (pool_config p)
    \<and> over_workers about_to_block p \<le> 1"
  using pool_reach_inv [OF assms] busy_bound [of p] by (simp add: pool_inv_def)

theorem worker_pool_serves_each_connection_once_witness:
  "pool_taken (stranded (wire []) demo_pool) = [] \<and> length (pool_pending (stranded (wire []) demo_pool)) \<le> 64"
proof -
  have "pool_reach (stranded (wire []) demo_pool)"
    by (rule stranded_reached [OF demo_pool_reached _ _ _ _ _ _ _ demo_accepts])
      (simp_all add: demo_pool_def demo_single_def demo_server_def SpectrumServer_def)
  from worker_pool_serves_each_connection_once [OF this] show ?thesis
    by (simp add: stranded_def demo_pool_def demo_single_def demo_server_def SpectrumServer_def)
qed



text \<open>C31. The condition variable can lose the wakeup of a stop, and the shutdown then hangs: there is a reachable state in which stop has set the flag and notified, the accept loop has notified and waits for its workers, and no thread of the server can take another step. And a connection that is accepted while the server stops can be queued after the last worker has returned: there is a reachable state in which serve has returned and an admitted connection was never taken.\<close>

theorem shutdown_can_lose_a_wakeup:
  "(\<exists>p. pool_reach p \<and> pool_stopping p \<and> pool_stops p = 0 \<and> pool_acceptor p = Joining
      \<and> (\<nexists>q. program_step p q))
   \<and> (\<exists>p. pool_reach p \<and> pool_acceptor p = Finished \<and> pool_pending p \<noteq> [])"
proof -
  have "pool_reach (asleep demo_pool)"
    by (rule lost_wakeup_reached [OF demo_pool_reached]) (simp_all add: demo_pool_def)
  moreover have "\<nexists>q. program_step (asleep demo_pool) q"
    by (simp add: asleep_stuck demo_pool_def)
  moreover have "pool_stopping (asleep demo_pool)" "pool_stops (asleep demo_pool) = 0"
    "pool_acceptor (asleep demo_pool) = Joining"
    by (simp_all add: asleep_def demo_pool_def)
  moreover have "pool_reach (stranded (wire []) demo_pool)"
    by (rule stranded_reached [OF demo_pool_reached _ _ _ _ _ _ _ demo_accepts])
      (simp_all add: demo_pool_def demo_single_def demo_server_def SpectrumServer_def)
  moreover have "pool_acceptor (stranded (wire []) demo_pool) = Finished" "pool_pending (stranded (wire []) demo_pool) \<noteq> []"
    by (simp_all add: stranded_def)
  ultimately show ?thesis
    by blast
qed





text \<open>C34. The framing is exact in both directions. A frame that writeFrame reports as sent has been handed over in full and fits the bounds; and, however the bytes are cut into segments, readFrame returns a frame exactly when the socket is open, the frame fits the bounds and the stream starts with the bytes of that frame, and it then leaves exactly the rest of the stream. So no other byte sequence (a wrong magic, version, operation, length or checksum, or a truncated payload) is ever accepted as a frame.\<close>

theorem frame_acceptance_is_exact:
  "((\<exists>k'. readFrame k m = (k', Inr f) \<and> stream k' = rest)
      \<longleftrightarrow> sock_valid k \<and> frame_fits m f \<and> stream k = frame_bytes f @ rest)
   \<and> (status_ok (snd (writeFrame k f m))
      \<longrightarrow> frame_fits m f \<and> sock_sent (fst (writeFrame k f m)) = sock_sent k @ frame_bytes f)"
proof -
  have "(\<exists>k'. readFrame k m = (k', Inr f) \<and> stream k' = rest)
      \<longleftrightarrow> sock_valid k \<and> frame_fits m f \<and> stream k = frame_bytes f @ rest"
    using readFrame_accepts [of k m _ f] readFrame_arrives [of k f rest m] by metis
  then show ?thesis
    using writeFrame_sent [of k f m "fst (writeFrame k f m)" "snd (writeFrame k f m)"] by simp
qed

theorem frame_acceptance_is_exact_witness:
  "sock_sent (fst (writeFrame (wire []) (asking_frame OpPing []) 16)) = frame_bytes (asking_frame OpPing [])
   \<and> length (frame_bytes (asking_frame OpPing [])) = 24"
proof -
  have "frame_fits 16 (asking_frame OpPing [])"
    by (simp add: frame_fits_def asking_frame_def)
  then have "status_ok (snd (writeFrame (wire []) (asking_frame OpPing []) 16))"
    by (intro writeFrame_works) (simp_all add: wire_def)
  then have "sock_sent (fst (writeFrame (wire []) (asking_frame OpPing []) 16)) = frame_bytes (asking_frame OpPing [])"
    using frame_acceptance_is_exact [of "wire []" 16 "asking_frame OpPing []" "[]"] by simp
  then show ?thesis
    by (simp add: frame_bytes_prefix asking_frame_def)
qed






text \<open>C38. Through any sequence of starts (successful or failing at any system call), reads, kills and waits, a child process object closes a descriptor only once and only while it is open, signals and reaps a process only while it has not been reaped, and what is open or unreaped is exactly what its state says; destroying it then closes and reaps all of it.\<close>

theorem child_process_leaks_nothing:
  assumes "life new_child es c"
  shows "accounts es ({}, {}) = Some (held c, unreaped c)
    \<and> (\<forall>killed answers st fs. wait_loop answers = Some (Inr st) \<and> destroy killed answers c = Some fs
         \<longrightarrow> accounts (es @ fs) ({}, {}) = Some ({}, {}))"
proof -
  have "held new_child = {}" "unreaped new_child = {}"
    by (simp_all add: held_def unreaped_def new_child_def)
  then have "child_ok c" and "accounts es ({}, {}) = Some (held c, unreaped c)"
    using life_balanced [OF assms new_child_ok] by (simp_all add: balanced_def)
  then show ?thesis
    using destroy_balanced by (auto simp: accounts_append)
qed

theorem child_process_leaks_nothing_witness:
  "accounts [Opened 3, Opened 4, Opened 5, Opened 6, Forked 42, Closed 4, Closed 6] ({}, {})
     = Some (held demo_child, unreaped demo_child)"
proof -
  have "life new_child ([] @ [Opened 3, Opened 4, Opened 5, Opened 6, Forked 42, Closed 4, Closed 6]) demo_child"
    by (rule life_goes_on [OF life_begins step_start [OF demo_os_fair demo_starts]])
  then show ?thesis
    using child_process_leaks_nothing [of "[] @ [Opened 3, Opened 4, Opened 5, Opened 6, Forked 42, Closed 4, Closed 6]" demo_child]
    by (simp only: append_Nil)
qed




end
